(* ===== verification/Prelude.thy ===== *)
theory Prelude
  imports "HOL-Library.Word"
begin

unbundle bit_operations_syntax

text \<open>
  Shared vocabulary of the development: the fixed-width integer types of the sources, the
  proof-automation collections, and the facts on 16-bit words (unsigned and two's
  complement readings, wrap-around, masks) that the component theories use.
\<close>

type_synonym u8 = "8 word"
type_synonym u16 = "16 word"
type_synonym u32 = "32 word"
type_synonym u64 = "64 word"

named_theorems lane_simps \<open>pointwise unfolding of the SIMD intrinsics\<close>
named_theorems arith16 \<open>16-bit words read as integers\<close>

section \<open>16-bit words as integers\<close>

lemma mod16_eqI: "k = r + 65536 * q \<Longrightarrow> 0 \<le> r \<Longrightarrow> r < 65536 \<Longrightarrow> k mod 65536 = (r :: int)"
  by simp

lemma div16_eqI: "k = r + 65536 * q \<Longrightarrow> 0 \<le> r \<Longrightarrow> r < 65536 \<Longrightarrow> k div 65536 = (q :: int)"
  by simp

lemma uint16_lt: "uint (x :: u16) < 65536"
  using uint_lt2p [of x] by simp

lemma uint16_ge: "0 \<le> uint (x :: u16)"
  by simp

lemma sint16_range: "- 32768 \<le> sint (x :: u16)" "sint (x :: u16) < 32768"
  using sint_ge [of x] sint_lt [of x] by simp_all

lemma signed_take_bit_15: "signed_take_bit 15 k = (k + 32768) mod 65536 - (32768 :: int)"
  using signed_take_bit_eq_take_bit_shift [of 15 k] by (simp add: take_bit_eq_mod)

lemma uint16_of_int [arith16]: "uint (word_of_int k :: u16) = k mod 65536"
  by (simp add: uint_word_of_int)

lemma sint16_of_int [arith16]: "sint (word_of_int k :: u16) = (k + 32768) mod 65536 - 32768"
  using signed_take_bit_15 [of k] by (simp add: sint_sbintrunc')

lemma uint16_add [arith16]: "uint (a + b :: u16) = (uint a + uint b) mod 65536"
  by (simp add: uint_word_ariths)

lemma uint16_sub [arith16]: "uint (a - b :: u16) = (uint a - uint b) mod 65536"
  by (simp add: uint_word_ariths)

lemma uint16_minus [arith16]: "uint (- a :: u16) = (- uint a) mod 65536"
  by (simp add: uint_word_ariths)

lemma uint16_mult [arith16]: "uint (a * b :: u16) = (uint a * uint b) mod 65536"
  by (simp add: uint_word_ariths)

lemma sint16_uint: "sint (x :: u16) = (uint x + 32768) mod 65536 - 32768"
  by (metis sint16_of_int word_of_int_uint)

lemma sint16_cases: "sint (x :: u16) = (if uint x < 32768 then uint x else uint x - 65536)"
proof (cases "uint x < 32768")
  case True
  then show ?thesis using uint16_ge [of x] by (simp add: sint16_uint)
next
  case False
  have "(uint x + 32768) mod 65536 = uint x - 32768"
    using False uint16_lt [of x] by (intro mod16_eqI [where q = 1]) auto
  with False show ?thesis by (simp add: sint16_uint)
qed

lemma uint16_sint: "uint (x :: u16) = sint x mod 65536"
  by (simp add: uint_sint take_bit_eq_mod)

lemma word16_eqI: "uint a = uint b \<Longrightarrow> a = (b :: u16)"
  by (simp add: word_uint_eq_iff)

lemma word16_eq_iff: "(a :: u16) = b \<longleftrightarrow> uint a = uint b"
  by (simp add: word_uint_eq_iff)

lemma word16_eq_sint: "(a :: u16) = b \<longleftrightarrow> sint a = sint b"
  by (simp add: word16_eq_iff sint16_cases) (use uint16_lt [of a] uint16_lt [of b] uint16_ge [of a] uint16_ge [of b] in linarith)

lemma uint_drop_bit: "uint (drop_bit n w) = uint w div 2 ^ n"
proof -
  have "uint (drop_bit n w) = drop_bit n (uint w)"
    by (rule bit_eqI) (simp add: bit_uint_iff bit_drop_bit_eq; auto dest: bit_imp_le_length)
  then show ?thesis by (simp add: drop_bit_eq_div)
qed

section \<open>Casts\<close>

lemma ucast_down:
  assumes "LENGTH('b :: len) \<le> LENGTH('a :: len)"
  shows "(ucast (x + y :: 'a word) :: 'b word) = ucast x + ucast y"
    and "(ucast (x - y :: 'a word) :: 'b word) = ucast x - ucast y"
    and "(ucast (of_nat k :: 'a word) :: 'b word) = of_nat k"
proof -
  have t: "min LENGTH('b) LENGTH('a) = LENGTH('b)" using assms by simp
  show "(ucast (x + y :: 'a word) :: 'b word) = ucast x + ucast y"
    by (simp add: word_uint_eq_iff unsigned_ucast_eq uint_word_ariths t take_bit_add flip: take_bit_eq_mod)
  show "(ucast (x - y :: 'a word) :: 'b word) = ucast x - ucast y"
    by (simp add: word_uint_eq_iff unsigned_ucast_eq uint_word_ariths t take_bit_diff flip: take_bit_eq_mod)
  show "(ucast (of_nat k :: 'a word) :: 'b word) = of_nat k"
    using assms by transfer (simp add: take_bit_of_nat min_def)
qed
lemma unat_of_nat_le: "i < n \<Longrightarrow> n \<le> 2 ^ LENGTH('a) \<Longrightarrow> unat (of_nat i :: 'a :: len word) = i"
  by (simp add: unsigned_of_nat take_bit_nat_eq_self)

section \<open>Lane masks\<close>

text \<open>A flag lane of the RSP is a mask: all bits clear or all bits set.\<close>

definition mask16 :: "bool \<Rightarrow> u16" where
  "mask16 b = (if b then - 1 else 0)"

definition is_mask16 :: "u16 \<Rightarrow> bool" where
  "is_mask16 x \<longleftrightarrow> x = 0 \<or> x = - 1"

lemma is_mask16_mask16 [simp, intro]: "is_mask16 (mask16 b)"
  by (simp add: mask16_def is_mask16_def)

lemma is_mask16_consts [simp]: "is_mask16 0" "is_mask16 (- 1)"
  by (simp_all add: is_mask16_def)

lemma is_mask16E: "is_mask16 x \<Longrightarrow> (x = 0 \<Longrightarrow> P) \<Longrightarrow> (x = - 1 \<Longrightarrow> P) \<Longrightarrow> P"
  by (auto simp: is_mask16_def)

lemma is_mask16_conv: "is_mask16 x \<longleftrightarrow> x = mask16 (x \<noteq> 0)"
  by (auto simp: mask16_def is_mask16_def)

lemma mask16_simps [simp]:
  "mask16 True = - 1" "mask16 False = 0"
  "mask16 a = mask16 b \<longleftrightarrow> a = b"
  "mask16 b = 0 \<longleftrightarrow> \<not> b" "0 = mask16 b \<longleftrightarrow> \<not> b"
  "mask16 b = - 1 \<longleftrightarrow> b" "- 1 = mask16 b \<longleftrightarrow> b"
  by (auto simp: mask16_def)

lemma mask16_bitops [simp]:
  "mask16 a AND mask16 b = mask16 (a \<and> b)"
  "mask16 a OR mask16 b = mask16 (a \<or> b)"
  "mask16 a XOR mask16 b = mask16 (a \<noteq> b)"
  "NOT (mask16 a) = mask16 (\<not> a)"
  by (auto simp: mask16_def)

lemma mask16_absorb:
  "x AND mask16 b = (if b then x else 0)"
  "mask16 b AND x = (if b then x else 0)"
  "x OR mask16 b = (if b then - 1 else x)"
  "mask16 b OR x = (if b then - 1 else x)"
  "x XOR mask16 b = (if b then NOT x else x)"
  "mask16 b XOR x = (if b then NOT x else x)"
  by (auto simp: mask16_def)

lemma uint_mask16: "uint (mask16 b) = (if b then 65535 else 0)"
  by (simp add: mask16_def unsigned_minus_1_eq_mask mask_eq_exp_minus_1)

lemma sint_mask16: "sint (mask16 b) = (if b then - 1 else 0)"
  by (simp add: mask16_def)

lemma not16_uint [arith16]: "uint (NOT x :: u16) = 65535 - uint x"
proof -
  have "NOT x = - x - 1" by (simp add: not_eq_complement)
  then have "uint (NOT x) = (- uint x - 1) mod 65536"
    by (simp add: uint16_sub uint16_minus mod_simps)
  also have "\<dots> = 65535 - uint x"
    using uint16_lt [of x] uint16_ge [of x]
    by (intro mod16_eqI [where q = "- 1"]; linarith)
  finally show ?thesis .
qed

lemma sint16_not: "sint (NOT x :: u16) = - sint x - 1"
  using uint16_lt [of x] uint16_ge [of x] by (auto simp: sint16_cases not16_uint)

lemma sint16_eq_0_iff: "sint (x :: u16) = 0 \<longleftrightarrow> x = 0"
  using word16_eq_sint [of x 0] by simp

lemma signed_drop_bit_15 [arith16]: "signed_drop_bit 15 (x :: u16) = mask16 (sint x < 0)"
proof -
  have "sint (signed_drop_bit 15 x) = sint x div 32768"
    by (simp add: sint_signed_drop_bit_eq drop_bit_eq_div)
  also have "\<dots> = (if sint x < 0 then - 1 else 0)"
  proof (cases "sint x < 0")
    case True
    have "sint x div 32768 = - 1"
      using True sint16_range [of x] by linarith
    with True show ?thesis by simp
  next
    case False
    with sint16_range [of x] show ?thesis by (simp add: div_pos_pos_trivial)
  qed
  finally show ?thesis
    by (simp add: word16_eq_sint sint_mask16)
qed

end
