(* ===== verification/Simd.thy ===== *)
theory Simd
  imports Prelude
begin

text \<open>
  The 128-bit register of the RSP vector unit and the SSE intrinsics that
  \<^verbatim>\<open>rsp_vu_impl.hpp\<close> computes with. A register is read as eight 16-bit elements; element 0
  is the most significant halfword, so element \<open>n\<close> is lane \<open>7 - n\<close> of the host's
  \<^verbatim>\<open>__m128i\<close>, and byte \<open>i\<close> of the register is host byte \<open>15 - i\<close>. The index types
  have exactly the eight elements and the sixteen bytes of the register, so a register is a
  total function and equality of registers is equality of all lanes.
\<close>

type_synonym lane = "3 word"
type_synonym lbyte = "4 word"
type_synonym r128 = "lane \<Rightarrow> u16"

lemma all_lanes: "(\<forall>n :: lane. P n) \<longleftrightarrow> P 0 \<and> P 1 \<and> P 2 \<and> P 3 \<and> P 4 \<and> P 5 \<and> P 6 \<and> P 7"
proof
  assume *: "P 0 \<and> P 1 \<and> P 2 \<and> P 3 \<and> P 4 \<and> P 5 \<and> P 6 \<and> P 7"
  show "\<forall>n. P n"
  proof
    fix n :: lane
    have "unat n < 8" by (rule order.strict_trans2 [OF unsigned_less]) simp
    then obtain k where k: "n = word_of_nat k" "k < 8" using that [of "unat n"] by simp
    then consider "k = 0" | "k = 1" | "k = 2" | "k = 3" | "k = 4" | "k = 5" | "k = 6" | "k = 7"
      by linarith
    then show "P n" using * k(1) by cases simp_all
  qed
qed simp

lemma lane_ext: "(\<forall>n. f n = g n) \<Longrightarrow> f = (g :: r128)"
  by blast

section \<open>Halves, bytes and host lanes\<close>

definition hi8 :: "u16 \<Rightarrow> u8" where "hi8 x = ucast (drop_bit 8 x)"
definition lo8 :: "u16 \<Rightarrow> u8" where "lo8 x = ucast x"
definition mk16 :: "u8 \<Rightarrow> u8 \<Rightarrow> u16" where "mk16 h l = word_cat h l"

text \<open>\<^verbatim>\<open>r128::byte\<close> as a reader and as an assignable reference.\<close>

definition get_byte :: "r128 \<Rightarrow> lbyte \<Rightarrow> u8" where
  "get_byte v i = (let x = v (ucast (drop_bit 1 i)) in if even i then hi8 x else lo8 x)"

definition set_byte :: "lbyte \<Rightarrow> u8 \<Rightarrow> r128 \<Rightarrow> r128" where
  "set_byte i b v = (let n = ucast (drop_bit 1 i); x = v n
     in v(n := if even i then mk16 b (lo8 x) else mk16 (hi8 x) b))"

definition host_lane :: "r128 \<Rightarrow> lane \<Rightarrow> u16" where "host_lane v j = v (7 - j)"
definition of_host_lanes :: "(lane \<Rightarrow> u16) \<Rightarrow> r128" where "of_host_lanes f = (\<lambda>n. f (7 - n))"
definition host_byte :: "r128 \<Rightarrow> lbyte \<Rightarrow> u8" where "host_byte v j = get_byte v (15 - j)"
definition of_host_bytes :: "(lbyte \<Rightarrow> u8) \<Rightarrow> r128" where
  "of_host_bytes f = (\<lambda>n. mk16 (f (15 - 2 * ucast n)) (f (14 - 2 * ucast n)))"

definition vzero :: r128 where "vzero = (\<lambda>_. 0)"
definition vinvert :: r128 where "vinvert = (\<lambda>_. - 1)"

section \<open>Saturation\<close>

definition sat_s16 :: "int \<Rightarrow> u16" where
  "sat_s16 k = word_of_int (if k > 32767 then 32767 else if k < - 32768 then - 32768 else k)"

definition sat_u16 :: "int \<Rightarrow> u16" where
  "sat_u16 k = word_of_int (if k > 65535 then 65535 else if k < 0 then 0 else k)"

section \<open>Lane-wise intrinsics\<close>

definition mm_add_epi16 :: "r128 \<Rightarrow> r128 \<Rightarrow> r128" where
  "mm_add_epi16 a b = (\<lambda>n. a n + b n)"
definition mm_sub_epi16 :: "r128 \<Rightarrow> r128 \<Rightarrow> r128" where
  "mm_sub_epi16 a b = (\<lambda>n. a n - b n)"
definition mm_adds_epi16 :: "r128 \<Rightarrow> r128 \<Rightarrow> r128" where
  "mm_adds_epi16 a b = (\<lambda>n. sat_s16 (sint (a n) + sint (b n)))"
definition mm_subs_epi16 :: "r128 \<Rightarrow> r128 \<Rightarrow> r128" where
  "mm_subs_epi16 a b = (\<lambda>n. sat_s16 (sint (a n) - sint (b n)))"
definition mm_adds_epu16 :: "r128 \<Rightarrow> r128 \<Rightarrow> r128" where
  "mm_adds_epu16 a b = (\<lambda>n. sat_u16 (uint (a n) + uint (b n)))"
definition mm_subs_epu16 :: "r128 \<Rightarrow> r128 \<Rightarrow> r128" where
  "mm_subs_epu16 a b = (\<lambda>n. sat_u16 (uint (a n) - uint (b n)))"
definition mm_min_epi16 :: "r128 \<Rightarrow> r128 \<Rightarrow> r128" where
  "mm_min_epi16 a b = (\<lambda>n. if sint (a n) < sint (b n) then a n else b n)"
definition mm_max_epi16 :: "r128 \<Rightarrow> r128 \<Rightarrow> r128" where
  "mm_max_epi16 a b = (\<lambda>n. if sint (a n) > sint (b n) then a n else b n)"
definition mm_cmpeq_epi16 :: "r128 \<Rightarrow> r128 \<Rightarrow> r128" where
  "mm_cmpeq_epi16 a b = (\<lambda>n. mask16 (a n = b n))"
definition mm_cmpgt_epi16 :: "r128 \<Rightarrow> r128 \<Rightarrow> r128" where
  "mm_cmpgt_epi16 a b = (\<lambda>n. mask16 (sint (a n) > sint (b n)))"
definition mm_cmplt_epi16 :: "r128 \<Rightarrow> r128 \<Rightarrow> r128" where
  "mm_cmplt_epi16 a b = (\<lambda>n. mask16 (sint (a n) < sint (b n)))"
definition mm_srai_epi16 :: "r128 \<Rightarrow> nat \<Rightarrow> r128" where
  "mm_srai_epi16 a k = (\<lambda>n. signed_drop_bit k (a n))"
definition mm_srli_epi16 :: "r128 \<Rightarrow> nat \<Rightarrow> r128" where
  "mm_srli_epi16 a k = (\<lambda>n. drop_bit k (a n))"
definition mm_slli_epi16 :: "r128 \<Rightarrow> nat \<Rightarrow> r128" where
  "mm_slli_epi16 a k = (\<lambda>n. push_bit k (a n))"
definition mm_and_si128 :: "r128 \<Rightarrow> r128 \<Rightarrow> r128" where
  "mm_and_si128 a b = (\<lambda>n. a n AND b n)"
definition mm_andnot_si128 :: "r128 \<Rightarrow> r128 \<Rightarrow> r128" where
  "mm_andnot_si128 a b = (\<lambda>n. NOT (a n) AND b n)"
definition mm_or_si128 :: "r128 \<Rightarrow> r128 \<Rightarrow> r128" where
  "mm_or_si128 a b = (\<lambda>n. a n OR b n)"
definition mm_xor_si128 :: "r128 \<Rightarrow> r128 \<Rightarrow> r128" where
  "mm_xor_si128 a b = (\<lambda>n. a n XOR b n)"
definition mm_mullo_epi16 :: "r128 \<Rightarrow> r128 \<Rightarrow> r128" where
  "mm_mullo_epi16 a b = (\<lambda>n. a n * b n)"
definition mm_mulhi_epi16 :: "r128 \<Rightarrow> r128 \<Rightarrow> r128" where
  "mm_mulhi_epi16 a b = (\<lambda>n. word_of_int (sint (a n) * sint (b n) div 65536))"
definition mm_mulhi_epu16 :: "r128 \<Rightarrow> r128 \<Rightarrow> r128" where
  "mm_mulhi_epu16 a b = (\<lambda>n. word_of_int (uint (a n) * uint (b n) div 65536))"

text \<open>A byte of the result comes from \<open>b\<close> where the top bit of the mask byte is set.\<close>

definition mm_blendv_epi8 :: "r128 \<Rightarrow> r128 \<Rightarrow> r128 \<Rightarrow> r128" where
  "mm_blendv_epi8 a b m = (\<lambda>n.
     mk16 (if bit (m n) 15 then hi8 (b n) else hi8 (a n))
          (if bit (m n) 7 then lo8 (b n) else lo8 (a n)))"

section \<open>Intrinsics that move data between lanes\<close>

definition mm_shuffle_epi8 :: "r128 \<Rightarrow> (lbyte \<Rightarrow> u8) \<Rightarrow> r128" where
  "mm_shuffle_epi8 a s = of_host_bytes (\<lambda>j. if bit (s j) 7 then 0 else host_byte a (ucast (s j AND 15)))"

text \<open>\<^verbatim>\<open>_mm_set_epi8\<close> lists the bytes from the highest host byte down.\<close>

definition mm_set_epi8 :: "u8 list \<Rightarrow> lbyte \<Rightarrow> u8" where
  "mm_set_epi8 bs j = bs ! unat (15 - j)"

definition mm_set_epi16 :: "u16 list \<Rightarrow> r128" where
  "mm_set_epi16 ws = of_host_lanes (\<lambda>j. ws ! unat (7 - j))"

definition mm_unpacklo_epi16 :: "r128 \<Rightarrow> r128 \<Rightarrow> r128" where
  "mm_unpacklo_epi16 a b = of_host_lanes (\<lambda>j.
     if even j then host_lane a (drop_bit 1 j) else host_lane b (drop_bit 1 j))"
definition mm_unpackhi_epi16 :: "r128 \<Rightarrow> r128 \<Rightarrow> r128" where
  "mm_unpackhi_epi16 a b = of_host_lanes (\<lambda>j.
     if even j then host_lane a (4 + drop_bit 1 j) else host_lane b (4 + drop_bit 1 j))"

definition host_dword :: "r128 \<Rightarrow> lane \<Rightarrow> u32" where
  "host_dword a k = word_cat (host_lane a (2 * k + 1)) (host_lane a (2 * k))"

definition mm_packs_epi32 :: "r128 \<Rightarrow> r128 \<Rightarrow> r128" where
  "mm_packs_epi32 a b = of_host_lanes (\<lambda>j.
     if j < 4 then sat_s16 (sint (host_dword a j)) else sat_s16 (sint (host_dword b (j - 4))))"

definition sat_s8 :: "int \<Rightarrow> u8" where
  "sat_s8 k = word_of_int (if k > 127 then 127 else if k < - 128 then - 128 else k)"

definition mm_packs_epi16 :: "r128 \<Rightarrow> r128 \<Rightarrow> r128" where
  "mm_packs_epi16 a b = of_host_bytes (\<lambda>j.
     if j < 8 then sat_s8 (sint (host_lane a (ucast j))) else sat_s8 (sint (host_lane b (ucast (j - 8)))))"

definition mm_movemask_epi8 :: "r128 \<Rightarrow> u32" where
  "mm_movemask_epi8 a = (\<Sum>i \<leftarrow> [0..<16]. if bit (host_byte a (word_of_nat i)) 7 then push_bit i 1 else 0)"

definition mm_cmpeq_epi8 :: "r128 \<Rightarrow> r128 \<Rightarrow> r128" where
  "mm_cmpeq_epi8 a b = of_host_bytes (\<lambda>j. if host_byte a j = host_byte b j then - 1 else 0)"

section \<open>Lane-wise reading of the intrinsics\<close>

lemmas [lane_simps] =
  mm_add_epi16_def mm_sub_epi16_def mm_adds_epi16_def mm_subs_epi16_def mm_adds_epu16_def
  mm_subs_epu16_def mm_min_epi16_def mm_max_epi16_def mm_cmpeq_epi16_def mm_cmpgt_epi16_def
  mm_cmplt_epi16_def mm_srai_epi16_def mm_srli_epi16_def mm_slli_epi16_def mm_and_si128_def
  mm_andnot_si128_def mm_or_si128_def mm_xor_si128_def mm_mullo_epi16_def mm_mulhi_epi16_def
  mm_mulhi_epu16_def vzero_def vinvert_def

lemma bit_mk16: "bit (mk16 h l) k \<longleftrightarrow> (if k < 8 then bit l k else k < 16 \<and> bit h (k - 8))"
  by (auto simp: mk16_def bit_word_cat_iff)

lemma mk16_hi8_lo8 [simp]: "mk16 (hi8 x) (lo8 x) = x"
  by (rule bit_word_eqI) (auto simp: bit_mk16 hi8_def lo8_def bit_ucast_iff bit_drop_bit_eq)

lemma hi8_mk16 [simp]: "hi8 (mk16 h l) = h"
  by (rule bit_word_eqI) (auto simp: bit_mk16 hi8_def bit_ucast_iff bit_drop_bit_eq)

lemma lo8_mk16 [simp]: "lo8 (mk16 h l) = l"
  by (rule bit_word_eqI) (auto simp: bit_mk16 lo8_def bit_ucast_iff)

lemma bit_mask16 [simp]: "bit (mask16 b) k \<longleftrightarrow> b \<and> k < 16"
  by (simp add: mask16_def)

lemma blendv_mask [lane_simps]:
  "mm_blendv_epi8 a b m n = (if m n = 0 then a n else b n)" if "is_mask16 (m n)"
  using that by (auto simp: mm_blendv_epi8_def is_mask16_def)

lemma blendv_mask16 [simp]:
  "mm_blendv_epi8 a b (\<lambda>n. mask16 (p n)) = (\<lambda>n. if p n then b n else a n)"
  by (rule ext) (auto simp: mm_blendv_epi8_def)

lemma uint_word_cat_16: "uint (word_cat (h :: u16) (m :: u16) :: u32) = uint h * 65536 + uint m"
proof -
  have "uint h * 65536 + uint m < 2 ^ 32"
    using uint16_lt [of h] uint16_lt [of m] by simp
  then show ?thesis
    using uint16_lt [of h] uint16_lt [of m] uint16_ge [of h] uint16_ge [of m]
    by (simp add: word_cat_eq push_bit_eq_mult uint_word_ariths unsigned_ucast_eq take_bit_eq_mod)
qed

lemma sint32_uint: "sint (x :: u32) = (uint x + 2147483648) mod 4294967296 - 2147483648"
  using int_word_sint [of "uint x", where 'a = 32] by simp

lemma sint_word_cat_16: "sint (word_cat (h :: u16) (m :: u16) :: u32) = sint h * 65536 + uint m"
proof (cases "uint h < 32768")
  case True
  then have "(uint h * 65536 + uint m + 2147483648) mod 4294967296 = uint h * 65536 + uint m + 2147483648"
    using uint16_lt [of m] uint16_ge [of m] uint16_ge [of h] by (intro mod_pos_pos_trivial) linarith+
  with True show ?thesis by (simp add: sint32_uint uint_word_cat_16 sint16_cases)
next
  case False
  have "(uint h * 65536 + uint m + 2147483648) mod 4294967296
      = (uint h * 65536 + uint m - 2147483648 + 4294967296) mod 4294967296"
    by (simp add: add.commute)
  also have "\<dots> = (uint h * 65536 + uint m - 2147483648) mod 4294967296"
    by (rule mod_add_self2)
  also have "\<dots> = uint h * 65536 + uint m - 2147483648"
    using False uint16_lt [of m] uint16_ge [of m] uint16_lt [of h]
    by (intro mod_pos_pos_trivial) linarith+
  finally show ?thesis using False by (simp add: sint32_uint uint_word_cat_16 sint16_cases)
qed

lemma packs_unpack [lane_simps]:
  "mm_packs_epi32 (mm_unpacklo_epi16 m h) (mm_unpackhi_epi16 m h)
     = (\<lambda>n. sat_s16 (sint (h n) * 65536 + uint (m n)))"
proof -
  have "\<forall>n. mm_packs_epi32 (mm_unpacklo_epi16 m h) (mm_unpackhi_epi16 m h) n
     = sat_s16 (sint (word_cat (h n) (m n) :: u32))"
    unfolding all_lanes
    by (simp add: mm_packs_epi32_def mm_unpacklo_epi16_def mm_unpackhi_epi16_def
        of_host_lanes_def host_lane_def host_dword_def)
  then show ?thesis by (auto simp: sint_word_cat_16)
qed

lemma sat_s16_id: "- 32768 \<le> k \<Longrightarrow> k < 32768 \<Longrightarrow> sat_s16 k = word_of_int k"
  by (simp add: sat_s16_def)

lemma sint_sat_s16 [arith16]: "sint (sat_s16 k) = max (- 32768) (min 32767 k)"
  by (simp add: sat_s16_def sint16_of_int)

lemma uint_sat_u16 [arith16]: "uint (sat_u16 k) = max 0 (min 65535 k)"
  by (simp add: sat_u16_def uint16_of_int)

end
