(* ===== verification/RspVector.thy ===== *)
theory RspVector
  imports Simd
begin

text \<open>
  The RSP vector unit of \<^verbatim>\<open>librecomp/rsp_vu.hpp\<close> and \<^verbatim>\<open>rsp_vu_impl.hpp\<close>: the
  register file, the 48-bit accumulator, the flag registers and every computational
  instruction. Most instructions exist twice in the source, as a scalar loop over the eight
  lanes (\<^verbatim>\<open>Accuracy::RSP::SISD\<close>) and as SSE code (\<^verbatim>\<open>SIMD\<close>); both are modelled, with the
  suffixes \<open>_sisd\<close> and \<open>_simd\<close>. The body of a scalar loop reads and writes lane \<open>n\<close> only,
  so the loop is the lane-wise function; the SSE bodies keep the source's sequence of
  assignments as a sequence of bindings. Operands are register numbers, so that \<open>vd\<close>, \<open>vs\<close>
  and \<open>vt\<close> may be the same register, as in the calls the recompiler emits. The element
  selector \<open>e\<close> is the instruction's 4-bit field.
\<close>

type_synonym vreg = "5 word"

record vu =
  vr :: "vreg \<Rightarrow> r128"
  acch :: r128
  accm :: r128
  accl :: r128
  vcoh :: r128
  vcol :: r128
  vcch :: r128
  vccl :: r128
  vce :: r128
  divin :: u16
  divout :: u16
  divdp :: bool

definition wr :: "vreg \<Rightarrow> r128 \<Rightarrow> vu \<Rightarrow> vu" where
  "wr vd v s = s\<lparr>vr := (vr s)(vd := v)\<rparr>"

text \<open>The flag registers hold lane masks whenever an instruction starts.\<close>

definition is_mask :: "r128 \<Rightarrow> bool" where
  "is_mask v \<longleftrightarrow> (\<forall>n. is_mask16 (v n))"

definition flags_ok :: "vu \<Rightarrow> bool" where
  "flags_ok s \<longleftrightarrow> is_mask (vcoh s) \<and> is_mask (vcol s) \<and> is_mask (vcch s) \<and> is_mask (vccl s) \<and> is_mask (vce s)"

definition flag_get :: "r128 \<Rightarrow> lane \<Rightarrow> bool" where
  "flag_get v n \<longleftrightarrow> v n \<noteq> 0"

definition sclamp :: "nat \<Rightarrow> int \<Rightarrow> int" where
  "sclamp bits x = (let b = 2 ^ (bits - 1); m = b - 1 in if x > m then m else if x < - b then - b else x)"

definition sclip :: "nat \<Rightarrow> int \<Rightarrow> int" where
  "sclip bits x = (let b = 2 ^ (bits - 1); m = b * 2 - 1 in ((x AND m) XOR b) - b)"

section \<open>Element broadcast\<close>

definition elem_sisd :: "lbyte \<Rightarrow> r128 \<Rightarrow> r128" where
  "elem_sisd e v =
    (if e = 2 then v(1 := v 0, 3 := v 2, 5 := v 4, 7 := v 6)
     else if e = 3 then v(0 := v 1, 2 := v 3, 4 := v 5, 6 := v 7)
     else if e = 4 then v(1 := v 0, 2 := v 0, 3 := v 0, 5 := v 4, 6 := v 4, 7 := v 4)
     else if e = 5 then v(0 := v 1, 2 := v 1, 3 := v 1, 4 := v 5, 6 := v 5, 7 := v 5)
     else if e = 6 then v(0 := v 2, 1 := v 2, 3 := v 2, 4 := v 6, 5 := v 6, 7 := v 6)
     else if e = 7 then v(0 := v 3, 1 := v 3, 2 := v 3, 4 := v 7, 5 := v 7, 6 := v 7)
     else if e = 8 then (\<lambda>n. v 0) else if e = 9 then (\<lambda>n. v 1)
     else if e = 10 then (\<lambda>n. v 2) else if e = 11 then (\<lambda>n. v 3)
     else if e = 12 then (\<lambda>n. v 4) else if e = 13 then (\<lambda>n. v 5)
     else if e = 14 then (\<lambda>n. v 6) else if e = 15 then (\<lambda>n. v 7)
     else v)"

definition shuffle :: "u8 list list" where
  "shuffle = [
    [15,14,13,12,11,10, 9, 8, 7, 6, 5, 4, 3, 2, 1, 0],
    [15,14,13,12,11,10, 9, 8, 7, 6, 5, 4, 3, 2, 1, 0],
    [15,14,15,14,11,10,11,10, 7, 6, 7, 6, 3, 2, 3, 2],
    [13,12,13,12, 9, 8, 9, 8, 5, 4, 5, 4, 1, 0, 1, 0],
    [15,14,15,14,15,14,15,14, 7, 6, 7, 6, 7, 6, 7, 6],
    [13,12,13,12,13,12,13,12, 5, 4, 5, 4, 5, 4, 5, 4],
    [11,10,11,10,11,10,11,10, 3, 2, 3, 2, 3, 2, 3, 2],
    [ 9, 8, 9, 8, 9, 8, 9, 8, 1, 0, 1, 0, 1, 0, 1, 0],
    [15,14,15,14,15,14,15,14,15,14,15,14,15,14,15,14],
    [13,12,13,12,13,12,13,12,13,12,13,12,13,12,13,12],
    [11,10,11,10,11,10,11,10,11,10,11,10,11,10,11,10],
    [ 9, 8, 9, 8, 9, 8, 9, 8, 9, 8, 9, 8, 9, 8, 9, 8],
    [ 7, 6, 7, 6, 7, 6, 7, 6, 7, 6, 7, 6, 7, 6, 7, 6],
    [ 5, 4, 5, 4, 5, 4, 5, 4, 5, 4, 5, 4, 5, 4, 5, 4],
    [ 3, 2, 3, 2, 3, 2, 3, 2, 3, 2, 3, 2, 3, 2, 3, 2],
    [ 1, 0, 1, 0, 1, 0, 1, 0, 1, 0, 1, 0, 1, 0, 1, 0]]"

definition elem_simd :: "lbyte \<Rightarrow> r128 \<Rightarrow> r128" where
  "elem_simd e v = mm_shuffle_epi8 v (mm_set_epi8 (shuffle ! unat e))"

section \<open>The accumulator\<close>

definition accumulatorGet :: "vu \<Rightarrow> lane \<Rightarrow> u64" where
  "accumulatorGet s n = push_bit 32 (ucast (acch s n)) OR push_bit 16 (ucast (accm s n)) OR ucast (accl s n)"

text \<open>\<open>accumulatorSet f\<close> is the loop \<^verbatim>\<open>accumulatorSet(n, f n)\<close> over the eight lanes.\<close>

definition accumulatorSet :: "(lane \<Rightarrow> u64) \<Rightarrow> vu \<Rightarrow> vu" where
  "accumulatorSet f s = s\<lparr>
     acch := (\<lambda>n. ucast (drop_bit 32 (f n))),
     accm := (\<lambda>n. ucast (drop_bit 16 (f n))),
     accl := (\<lambda>n. ucast (f n))\<rparr>"

definition accumulatorSaturate :: "vu \<Rightarrow> lane \<Rightarrow> bool \<Rightarrow> u16 \<Rightarrow> u16 \<Rightarrow> u16" where
  "accumulatorSaturate s n slc negative positive =
    (let rest = (if \<not> slc then accl s n else accm s n) in
     if sint (acch s n) < 0 then
       (if acch s n \<noteq> 0xffff then negative else if sint (accm s n) \<ge> 0 then negative else rest)
     else
       (if acch s n \<noteq> 0 then positive else if sint (accm s n) < 0 then positive else rest))"

section \<open>Add, subtract, absolute value\<close>

definition VABS_sisd :: "lbyte \<Rightarrow> vreg \<Rightarrow> vreg \<Rightarrow> vreg \<Rightarrow> vu \<Rightarrow> vu" where
  "VABS_sisd e vd vs vt s = (let vte = elem_sisd e (vr s vt); a = vr s vs in
     wr vd (\<lambda>n. if sint (a n) < 0 then
                  (if sint (vte n) = - 32768 then 32767 else word_of_int (- sint (vte n)))
                else if sint (a n) > 0 then vte n else 0)
       (s\<lparr>accl := (\<lambda>n. if sint (a n) < 0 then
                  (if sint (vte n) = - 32768 then word_of_int (- 32768) else word_of_int (- sint (vte n)))
                else if sint (a n) > 0 then vte n else 0)\<rparr>))"

definition VABS_simd :: "lbyte \<Rightarrow> vreg \<Rightarrow> vreg \<Rightarrow> vreg \<Rightarrow> vu \<Rightarrow> vu" where
  "VABS_simd e vd vs vt s = (let
     vs0 = mm_cmpeq_epi16 (vr s vs) vzero;
     slt = mm_srai_epi16 (vr s vs) 15;
     d = mm_andnot_si128 vs0 (elem_simd e (vr s vt));
     d = mm_xor_si128 d slt;
     s = s\<lparr>accl := mm_sub_epi16 d slt\<rparr>
     in wr vd (mm_subs_epi16 d slt) s)"

definition VADD_sisd :: "lbyte \<Rightarrow> vreg \<Rightarrow> vreg \<Rightarrow> vreg \<Rightarrow> vu \<Rightarrow> vu" where
  "VADD_sisd e vd vs vt s = (let vte = elem_sisd e (vr s vt); a = vr s vs;
     result = (\<lambda>n. sint (a n) + sint (vte n) + of_bool (flag_get (vcol s) n)) in
     wr vd (\<lambda>n. word_of_int (sclamp 16 (result n)))
       (s\<lparr>accl := (\<lambda>n. word_of_int (result n)), vcol := vzero, vcoh := vzero\<rparr>))"

definition VADD_simd :: "lbyte \<Rightarrow> vreg \<Rightarrow> vreg \<Rightarrow> vreg \<Rightarrow> vu \<Rightarrow> vu" where
  "VADD_simd e vd vs vt s = (let vte = elem_simd e (vr s vt); a = vr s vs;
     sum = mm_add_epi16 a vte;
     acc = mm_sub_epi16 sum (vcol s);
     mn = mm_min_epi16 a vte;
     mx = mm_max_epi16 a vte;
     mn = mm_subs_epi16 mn (vcol s)
     in wr vd (mm_adds_epi16 mn mx) (s\<lparr>accl := acc, vcol := vzero, vcoh := vzero\<rparr>))"

definition VADDC_sisd :: "lbyte \<Rightarrow> vreg \<Rightarrow> vreg \<Rightarrow> vreg \<Rightarrow> vu \<Rightarrow> vu" where
  "VADDC_sisd e vd vs vt s = (let vte = elem_sisd e (vr s vt); a = vr s vs;
     result = (\<lambda>n. uint (a n) + uint (vte n));
     acc = (\<lambda>n. word_of_int (result n)) in
     wr vd acc (s\<lparr>accl := acc, vcol := (\<lambda>n. mask16 (result n div 65536 \<noteq> 0)), vcoh := vzero\<rparr>))"

definition VADDC_simd :: "lbyte \<Rightarrow> vreg \<Rightarrow> vreg \<Rightarrow> vreg \<Rightarrow> vu \<Rightarrow> vu" where
  "VADDC_simd e vd vs vt s = (let vte = elem_simd e (vr s vt); a = vr s vs;
     sum = mm_adds_epu16 a vte;
     acc = mm_add_epi16 a vte;
     co = mm_cmpeq_epi16 sum acc;
     co = mm_cmpeq_epi16 co vzero
     in wr vd acc (s\<lparr>accl := acc, vcol := co, vcoh := vzero\<rparr>))"

definition VSUB_sisd :: "lbyte \<Rightarrow> vreg \<Rightarrow> vreg \<Rightarrow> vreg \<Rightarrow> vu \<Rightarrow> vu" where
  "VSUB_sisd e vd vs vt s = (let vte = elem_sisd e (vr s vt); a = vr s vs;
     result = (\<lambda>n. sint (a n) - sint (vte n) - of_bool (flag_get (vcol s) n)) in
     wr vd (\<lambda>n. word_of_int (sclamp 16 (result n)))
       (s\<lparr>accl := (\<lambda>n. word_of_int (result n)), vcol := vzero, vcoh := vzero\<rparr>))"

definition VSUB_simd :: "lbyte \<Rightarrow> vreg \<Rightarrow> vreg \<Rightarrow> vreg \<Rightarrow> vu \<Rightarrow> vu" where
  "VSUB_simd e vd vs vt s = (let vte = elem_simd e (vr s vt); a = vr s vs;
     udiff = mm_sub_epi16 vte (vcol s);
     sdiff = mm_subs_epi16 vte (vcol s);
     acc = mm_sub_epi16 a udiff;
     ov = mm_cmpgt_epi16 sdiff udiff;
     d = mm_subs_epi16 a sdiff
     in wr vd (mm_adds_epi16 d ov) (s\<lparr>accl := acc, vcol := vzero, vcoh := vzero\<rparr>))"

text \<open>\<open>u32 result = vs.u16(n) - vte.u16(n)\<close> wraps at 32 bits, so \<open>result >> 16\<close> is the borrow.\<close>

definition VSUBC_sisd :: "lbyte \<Rightarrow> vreg \<Rightarrow> vreg \<Rightarrow> vreg \<Rightarrow> vu \<Rightarrow> vu" where
  "VSUBC_sisd e vd vs vt s = (let vte = elem_sisd e (vr s vt); a = vr s vs;
     result = (\<lambda>n. (uint (a n) - uint (vte n)) mod 4294967296);
     acc = (\<lambda>n. word_of_int (result n)) in
     wr vd acc (s\<lparr>accl := acc, vcol := (\<lambda>n. mask16 (result n div 65536 \<noteq> 0)),
                   vcoh := (\<lambda>n. mask16 (result n \<noteq> 0))\<rparr>))"

definition VSUBC_simd :: "lbyte \<Rightarrow> vreg \<Rightarrow> vreg \<Rightarrow> vreg \<Rightarrow> vu \<Rightarrow> vu" where
  "VSUBC_simd e vd vs vt s = (let vte = elem_simd e (vr s vt); a = vr s vs;
     udiff = mm_subs_epu16 a vte;
     eq = mm_cmpeq_epi16 a vte;
     diff0 = mm_cmpeq_epi16 udiff vzero;
     coh = mm_cmpeq_epi16 eq vzero;
     col = mm_andnot_si128 eq diff0;
     acc = mm_sub_epi16 a vte
     in wr vd acc (s\<lparr>accl := acc, vcoh := coh, vcol := col\<rparr>))"

definition VZERO_sisd :: "lbyte \<Rightarrow> vreg \<Rightarrow> vreg \<Rightarrow> vreg \<Rightarrow> vu \<Rightarrow> vu" where
  "VZERO_sisd e vd vs vt s = (let vte = elem_sisd e (vr s vt); a = vr s vs in
     wr vd (\<lambda>n. 0) (s\<lparr>accl := (\<lambda>n. word_of_int (sint (a n) + sint (vte n)))\<rparr>))"

definition VZERO_simd :: "lbyte \<Rightarrow> vreg \<Rightarrow> vreg \<Rightarrow> vreg \<Rightarrow> vu \<Rightarrow> vu" where
  "VZERO_simd e vd vs vt s = (let vte = elem_simd e (vr s vt);
     s' = s\<lparr>accl := mm_add_epi16 (vr s vs) vte\<rparr>
     in wr vd (mm_xor_si128 (vr s' vd) (vr s' vd)) s')"

section \<open>Bitwise logic\<close>

definition logic_sisd :: "(u16 \<Rightarrow> u16 \<Rightarrow> u16) \<Rightarrow> lbyte \<Rightarrow> vreg \<Rightarrow> vreg \<Rightarrow> vreg \<Rightarrow> vu \<Rightarrow> vu" where
  "logic_sisd f e vd vs vt s = (let vte = elem_sisd e (vr s vt);
     acc = (\<lambda>n. f (vr s vs n) (vte n)) in wr vd acc (s\<lparr>accl := acc\<rparr>))"

definition VAND_sisd where "VAND_sisd = logic_sisd (\<lambda>x y. x AND y)"
definition VNAND_sisd where "VNAND_sisd = logic_sisd (\<lambda>x y. NOT (x AND y))"
definition VOR_sisd where "VOR_sisd = logic_sisd (\<lambda>x y. x OR y)"
definition VNOR_sisd where "VNOR_sisd = logic_sisd (\<lambda>x y. NOT (x OR y))"
definition VXOR_sisd where "VXOR_sisd = logic_sisd (\<lambda>x y. x XOR y)"
definition VNXOR_sisd where "VNXOR_sisd = logic_sisd (\<lambda>x y. NOT (x XOR y))"

definition VAND_simd :: "lbyte \<Rightarrow> vreg \<Rightarrow> vreg \<Rightarrow> vreg \<Rightarrow> vu \<Rightarrow> vu" where
  "VAND_simd e vd vs vt s = (let acc = mm_and_si128 (vr s vs) (elem_simd e (vr s vt))
     in wr vd acc (s\<lparr>accl := acc\<rparr>))"
definition VNAND_simd :: "lbyte \<Rightarrow> vreg \<Rightarrow> vreg \<Rightarrow> vreg \<Rightarrow> vu \<Rightarrow> vu" where
  "VNAND_simd e vd vs vt s = (let acc = mm_and_si128 (vr s vs) (elem_simd e (vr s vt));
     acc = mm_xor_si128 acc vinvert in wr vd acc (s\<lparr>accl := acc\<rparr>))"
definition VOR_simd :: "lbyte \<Rightarrow> vreg \<Rightarrow> vreg \<Rightarrow> vreg \<Rightarrow> vu \<Rightarrow> vu" where
  "VOR_simd e vd vs vt s = (let acc = mm_or_si128 (vr s vs) (elem_simd e (vr s vt))
     in wr vd acc (s\<lparr>accl := acc\<rparr>))"
definition VNOR_simd :: "lbyte \<Rightarrow> vreg \<Rightarrow> vreg \<Rightarrow> vreg \<Rightarrow> vu \<Rightarrow> vu" where
  "VNOR_simd e vd vs vt s = (let acc = mm_or_si128 (vr s vs) (elem_simd e (vr s vt));
     acc = mm_xor_si128 acc vinvert in wr vd acc (s\<lparr>accl := acc\<rparr>))"
definition VXOR_simd :: "lbyte \<Rightarrow> vreg \<Rightarrow> vreg \<Rightarrow> vreg \<Rightarrow> vu \<Rightarrow> vu" where
  "VXOR_simd e vd vs vt s = (let acc = mm_xor_si128 (vr s vs) (elem_simd e (vr s vt))
     in wr vd acc (s\<lparr>accl := acc\<rparr>))"
definition VNXOR_simd :: "lbyte \<Rightarrow> vreg \<Rightarrow> vreg \<Rightarrow> vreg \<Rightarrow> vu \<Rightarrow> vu" where
  "VNXOR_simd e vd vs vt s = (let acc = mm_xor_si128 (vr s vs) (elem_simd e (vr s vt));
     acc = mm_xor_si128 acc vinvert in wr vd acc (s\<lparr>accl := acc\<rparr>))"

section \<open>Select and compare\<close>

definition VMRG_sisd :: "lbyte \<Rightarrow> vreg \<Rightarrow> vreg \<Rightarrow> vreg \<Rightarrow> vu \<Rightarrow> vu" where
  "VMRG_sisd e vd vs vt s = (let vte = elem_sisd e (vr s vt);
     acc = (\<lambda>n. if flag_get (vccl s) n then vr s vs n else vte n)
     in wr vd acc (s\<lparr>accl := acc, vcoh := vzero, vcol := vzero\<rparr>))"

definition VMRG_simd :: "lbyte \<Rightarrow> vreg \<Rightarrow> vreg \<Rightarrow> vreg \<Rightarrow> vu \<Rightarrow> vu" where
  "VMRG_simd e vd vs vt s = (let acc = mm_blendv_epi8 (elem_simd e (vr s vt)) (vr s vs) (vccl s)
     in wr vd acc (s\<lparr>accl := acc, vcoh := vzero, vcol := vzero\<rparr>))"

definition select_sisd :: "(lane \<Rightarrow> u16 \<Rightarrow> u16 \<Rightarrow> bool) \<Rightarrow> lbyte \<Rightarrow> vreg \<Rightarrow> vreg \<Rightarrow> vreg \<Rightarrow> vu \<Rightarrow> vu" where
  "select_sisd p e vd vs vt s = (let vte = elem_sisd e (vr s vt); a = vr s vs;
     acc = (\<lambda>n. if p n (a n) (vte n) then a n else vte n)
     in wr vd acc (s\<lparr>accl := acc, vccl := (\<lambda>n. mask16 (p n (a n) (vte n))),
                      vcch := vzero, vcol := vzero, vcoh := vzero\<rparr>))"

definition VEQ_sisd :: "lbyte \<Rightarrow> vreg \<Rightarrow> vreg \<Rightarrow> vreg \<Rightarrow> vu \<Rightarrow> vu" where
  "VEQ_sisd e vd vs vt s = select_sisd (\<lambda>n x y. \<not> flag_get (vcoh s) n \<and> x = y) e vd vs vt s"
definition VNE_sisd :: "lbyte \<Rightarrow> vreg \<Rightarrow> vreg \<Rightarrow> vreg \<Rightarrow> vu \<Rightarrow> vu" where
  "VNE_sisd e vd vs vt s = select_sisd (\<lambda>n x y. x \<noteq> y \<or> flag_get (vcoh s) n) e vd vs vt s"
definition VGE_sisd :: "lbyte \<Rightarrow> vreg \<Rightarrow> vreg \<Rightarrow> vreg \<Rightarrow> vu \<Rightarrow> vu" where
  "VGE_sisd e vd vs vt s = select_sisd (\<lambda>n x y. sint x > sint y \<or>
     (sint x = sint y \<and> (\<not> flag_get (vcol s) n \<or> \<not> flag_get (vcoh s) n))) e vd vs vt s"
definition VLT_sisd :: "lbyte \<Rightarrow> vreg \<Rightarrow> vreg \<Rightarrow> vreg \<Rightarrow> vu \<Rightarrow> vu" where
  "VLT_sisd e vd vs vt s = select_sisd (\<lambda>n x y. sint x < sint y \<or>
     (sint x = sint y \<and> flag_get (vcol s) n \<and> flag_get (vcoh s) n)) e vd vs vt s"

definition VEQ_simd :: "lbyte \<Rightarrow> vreg \<Rightarrow> vreg \<Rightarrow> vreg \<Rightarrow> vu \<Rightarrow> vu" where
  "VEQ_simd e vd vs vt s = (let vte = elem_simd e (vr s vt); a = vr s vs;
     eq = mm_cmpeq_epi16 a vte;
     ccl = mm_andnot_si128 (vcoh s) eq;
     acc = mm_blendv_epi8 vte a ccl
     in wr vd acc (s\<lparr>accl := acc, vccl := ccl, vcch := vzero, vcoh := vzero, vcol := vzero\<rparr>))"

definition VNE_simd :: "lbyte \<Rightarrow> vreg \<Rightarrow> vreg \<Rightarrow> vreg \<Rightarrow> vu \<Rightarrow> vu" where
  "VNE_simd e vd vs vt s = (let vte = elem_simd e (vr s vt); a = vr s vs;
     eq = mm_cmpeq_epi16 a vte;
     ne = mm_cmpeq_epi16 eq vzero;
     ccl = mm_and_si128 (vcoh s) eq;
     ccl = mm_or_si128 ccl ne;
     acc = mm_blendv_epi8 vte a ccl
     in wr vd acc (s\<lparr>accl := acc, vccl := ccl, vcch := vzero, vcoh := vzero, vcol := vzero\<rparr>))"

definition VGE_simd :: "lbyte \<Rightarrow> vreg \<Rightarrow> vreg \<Rightarrow> vreg \<Rightarrow> vu \<Rightarrow> vu" where
  "VGE_simd e vd vs vt s = (let vte = elem_simd e (vr s vt); a = vr s vs;
     eq = mm_cmpeq_epi16 a vte;
     gt = mm_cmpgt_epi16 a vte;
     es = mm_and_si128 (vcoh s) (vcol s);
     eq = mm_andnot_si128 es eq;
     ccl = mm_or_si128 gt eq;
     acc = mm_blendv_epi8 vte a ccl
     in wr vd acc (s\<lparr>accl := acc, vccl := ccl, vcch := vzero, vcoh := vzero, vcol := vzero\<rparr>))"

definition VLT_simd :: "lbyte \<Rightarrow> vreg \<Rightarrow> vreg \<Rightarrow> vreg \<Rightarrow> vu \<Rightarrow> vu" where
  "VLT_simd e vd vs vt s = (let vte = elem_simd e (vr s vt); a = vr s vs;
     eq = mm_cmpeq_epi16 a vte;
     lt = mm_cmplt_epi16 a vte;
     eq = mm_and_si128 (vcoh s) eq;
     eq = mm_and_si128 (vcol s) eq;
     ccl = mm_or_si128 lt eq;
     acc = mm_blendv_epi8 vte a ccl
     in wr vd acc (s\<lparr>accl := acc, vccl := ccl, vcch := vzero, vcoh := vzero, vcol := vzero\<rparr>))"

end
