(* ===== verification/RspVectorMul.thy ===== *)
theory RspVectorMul
  imports RspVector
begin

text \<open>
  The remaining computational instructions of \<^verbatim>\<open>rsp_vu_impl.hpp\<close>: the clip tests
  (\<^verbatim>\<open>VCH\<close>, \<^verbatim>\<open>VCL\<close>, \<^verbatim>\<open>VCR\<close>), the multiplications and multiply-accumulates over the 48-bit
  accumulator, the reciprocals, the rounding and the move instructions.
\<close>

section \<open>Clip tests\<close>

definition VCH_sisd :: "lbyte \<Rightarrow> vreg \<Rightarrow> vreg \<Rightarrow> vreg \<Rightarrow> vu \<Rightarrow> vu" where
  "VCH_sisd e vd vs vt s = (let vte = elem_sisd e (vr s vt); a = vr s vs;
     neg = (\<lambda>n. sint (a n XOR vte n) < 0);
     result = (\<lambda>n. sint (if neg n then word_of_int (sint (a n) + sint (vte n)) :: u16
                          else word_of_int (sint (a n) - sint (vte n))));
     acc = (\<lambda>n. if neg n then (if result n \<le> 0 then word_of_int (- sint (vte n)) else a n)
                else (if result n \<ge> 0 then vte n else a n))
     in wr vd acc (s\<lparr>accl := acc,
       vccl := (\<lambda>n. mask16 (if neg n then result n \<le> 0 else sint (vte n) < 0)),
       vcch := (\<lambda>n. mask16 (if neg n then sint (vte n) < 0 else result n \<ge> 0)),
       vcol := (\<lambda>n. mask16 (neg n)),
       vcoh := (\<lambda>n. mask16 (result n \<noteq> 0 \<and> a n \<noteq> vte n XOR 0xffff)),
       vce := (\<lambda>n. mask16 (neg n \<and> result n = - 1))\<rparr>))"

definition VCH_simd :: "lbyte \<Rightarrow> vreg \<Rightarrow> vreg \<Rightarrow> vreg \<Rightarrow> vu \<Rightarrow> vu" where
  "VCH_simd e vd vs vt s = (let vte = elem_simd e (vr s vt); a = vr s vs;
     col = mm_xor_si128 a vte;
     col = mm_cmplt_epi16 col vzero;
     nvt = mm_xor_si128 vte col;
     nvt = mm_sub_epi16 nvt col;
     diff = mm_sub_epi16 a nvt;
     diff0 = mm_cmpeq_epi16 diff vzero;
     vtn = mm_cmplt_epi16 vte vzero;
     dlez = mm_cmpgt_epi16 diff vzero;
     dgez = mm_or_si128 dlez diff0;
     dlez = mm_cmpeq_epi16 vzero dlez;
     cch = mm_blendv_epi8 dgez vtn col;
     ccl = mm_blendv_epi8 vtn dlez col;
     ce = mm_cmpeq_epi16 diff col;
     ce = mm_and_si128 ce col;
     coh = mm_or_si128 diff0 ce;
     coh = mm_cmpeq_epi16 coh vzero;
     m = mm_blendv_epi8 cch ccl col;
     acc = mm_blendv_epi8 a nvt m
     in wr vd acc (s\<lparr>accl := acc, vcol := col, vcch := cch, vccl := ccl, vce := ce, vcoh := coh\<rparr>))"

definition VCL_sisd :: "lbyte \<Rightarrow> vreg \<Rightarrow> vreg \<Rightarrow> vreg \<Rightarrow> vu \<Rightarrow> vu" where
  "VCL_sisd e vd vs vt s = (let vte = elem_sisd e (vr s vt); a = vr s vs;
     sum = (\<lambda>n. a n + vte n);
     carry = (\<lambda>n. uint (a n) + uint (vte n) \<noteq> uint (sum n));
     le = (\<lambda>n. if flag_get (vce s) n then sum n = 0 \<or> \<not> carry n else sum n = 0 \<and> \<not> carry n);
     ge = (\<lambda>n. uint (a n) - uint (vte n) \<ge> 0);
     ccl = (\<lambda>n. if flag_get (vcol s) n \<and> \<not> flag_get (vcoh s) n then mask16 (le n) else vccl s n);
     cch = (\<lambda>n. if \<not> flag_get (vcol s) n \<and> \<not> flag_get (vcoh s) n then mask16 (ge n) else vcch s n);
     acc = (\<lambda>n. if flag_get (vcol s) n then (if flag_get ccl n then - vte n else a n)
                else (if flag_get cch n then vte n else a n))
     in wr vd acc (s\<lparr>accl := acc, vccl := ccl, vcch := cch, vcol := vzero, vcoh := vzero, vce := vzero\<rparr>))"

definition VCL_simd :: "lbyte \<Rightarrow> vreg \<Rightarrow> vreg \<Rightarrow> vreg \<Rightarrow> vu \<Rightarrow> vu" where
  "VCL_simd e vd vs vt s = (let vte = elem_simd e (vr s vt); a = vr s vs;
     nvt = mm_xor_si128 vte (vcol s);
     nvt = mm_sub_epi16 nvt (vcol s);
     diff = mm_sub_epi16 a nvt;
     ncarry = mm_adds_epu16 a vte;
     ncarry = mm_cmpeq_epi16 diff ncarry;
     nvce = mm_cmpeq_epi16 (vce s) vzero;
     diff0 = mm_cmpeq_epi16 diff vzero;
     lec1 = mm_and_si128 diff0 ncarry;
     lec1 = mm_and_si128 nvce lec1;
     lec2 = mm_or_si128 diff0 ncarry;
     lec2 = mm_and_si128 (vce s) lec2;
     leeq = mm_or_si128 lec1 lec2;
     geeq = mm_subs_epu16 vte a;
     geeq = mm_cmpeq_epi16 geeq vzero;
     le = mm_andnot_si128 (vcoh s) (vcol s);
     le = mm_blendv_epi8 (vccl s) leeq le;
     ge = mm_or_si128 (vcol s) (vcoh s);
     ge = mm_blendv_epi8 geeq (vcch s) ge;
     m = mm_blendv_epi8 ge le (vcol s);
     acc = mm_blendv_epi8 a nvt m
     in wr vd acc (s\<lparr>accl := acc, vcch := ge, vccl := le, vcoh := vzero, vcol := vzero, vce := vzero\<rparr>))"

definition VCR_sisd :: "lbyte \<Rightarrow> vreg \<Rightarrow> vreg \<Rightarrow> vreg \<Rightarrow> vu \<Rightarrow> vu" where
  "VCR_sisd e vd vs vt s = (let vte = elem_sisd e (vr s vt); a = vr s vs;
     neg = (\<lambda>n. sint (a n XOR vte n) < 0);
     ccl = (\<lambda>n. if neg n then sint (a n) + sint (vte n) + 1 \<le> 0 else sint (vte n) < 0);
     cch = (\<lambda>n. if neg n then sint (vte n) < 0 else sint (a n) - sint (vte n) \<ge> 0);
     acc = (\<lambda>n. if neg n then (if ccl n then NOT (vte n) else a n)
                else (if cch n then vte n else a n))
     in wr vd acc (s\<lparr>accl := acc, vccl := (\<lambda>n. mask16 (ccl n)), vcch := (\<lambda>n. mask16 (cch n)),
                      vcol := vzero, vcoh := vzero, vce := vzero\<rparr>))"

definition VCR_simd :: "lbyte \<Rightarrow> vreg \<Rightarrow> vreg \<Rightarrow> vreg \<Rightarrow> vu \<Rightarrow> vu" where
  "VCR_simd e vd vs vt s = (let vte = elem_simd e (vr s vt); a = vr s vs;
     sign = mm_xor_si128 a vte;
     sign = mm_srai_epi16 sign 15;
     dlez = mm_and_si128 a sign;
     dlez = mm_add_epi16 dlez vte;
     ccl = mm_srai_epi16 dlez 15;
     dgez = mm_or_si128 a sign;
     dgez = mm_min_epi16 dgez vte;
     cch = mm_cmpeq_epi16 dgez vte;
     nvt = mm_xor_si128 vte sign;
     m = mm_blendv_epi8 cch ccl sign;
     acc = mm_blendv_epi8 a nvt m
     in wr vd acc (s\<lparr>accl := acc, vccl := ccl, vcch := cch, vcol := vzero, vcoh := vzero, vce := vzero\<rparr>))"

section \<open>Multiply\<close>

text \<open>The clamp of the unsigned forms \<^verbatim>\<open>VMULU\<close> and \<^verbatim>\<open>VMACU\<close>, on the updated accumulator.\<close>

definition VMULF_sisd :: "bool \<Rightarrow> lbyte \<Rightarrow> vreg \<Rightarrow> vreg \<Rightarrow> vreg \<Rightarrow> vu \<Rightarrow> vu" where
  "VMULF_sisd U e vd vs vt s = (let vte = elem_sisd e (vr s vt); a = vr s vs;
     s' = accumulatorSet (\<lambda>n. word_of_int (sint (a n) * sint (vte n) * 2 + 0x8000)) s
     in wr vd (\<lambda>n. if \<not> U then accumulatorSaturate s' n True 0x8000 0x7fff
                   else if sint (acch s' n) < 0 then 0
                   else if sint (acch s' n XOR accm s' n) < 0 then 0xffff else accm s' n) s')"

definition VMULF_simd :: "bool \<Rightarrow> lbyte \<Rightarrow> vreg \<Rightarrow> vreg \<Rightarrow> vreg \<Rightarrow> vu \<Rightarrow> vu" where
  "VMULF_simd U e vd vs vt s = (let vte = elem_simd e (vr s vt); a = vr s vs;
     lo = mm_mullo_epi16 a vte;
     rnd = mm_cmpeq_epi16 vzero vzero;
     sign1 = mm_srli_epi16 lo 15;
     lo = mm_add_epi16 lo lo;
     rnd = mm_slli_epi16 rnd 15;
     hi = mm_mulhi_epi16 a vte;
     sign2 = mm_srli_epi16 lo 15;
     al = mm_add_epi16 rnd lo;
     sign1 = mm_add_epi16 sign1 sign2;
     hi = mm_slli_epi16 hi 1;
     neq = mm_cmpeq_epi16 a vte;
     am = mm_add_epi16 hi sign1;
     neg = mm_srai_epi16 am 15
     in if \<not> U then (let
          eq = mm_and_si128 neq neg;
          ah = mm_andnot_si128 neq neg
          in wr vd (mm_add_epi16 am eq) (s\<lparr>accl := al, accm := am, acch := ah\<rparr>))
        else (let
          ah = mm_andnot_si128 neq neg;
          hi = mm_or_si128 am neg
          in wr vd (mm_andnot_si128 ah hi) (s\<lparr>accl := al, accm := am, acch := ah\<rparr>)))"

definition VMUDH_sisd :: "lbyte \<Rightarrow> vreg \<Rightarrow> vreg \<Rightarrow> vreg \<Rightarrow> vu \<Rightarrow> vu" where
  "VMUDH_sisd e vd vs vt s = (let vte = elem_sisd e (vr s vt); a = vr s vs;
     s' = accumulatorSet (\<lambda>n. push_bit 16 (word_of_int (sint (a n) * sint (vte n)))) s
     in wr vd (\<lambda>n. accumulatorSaturate s' n True 0x8000 0x7fff) s')"

definition VMUDH_simd :: "lbyte \<Rightarrow> vreg \<Rightarrow> vreg \<Rightarrow> vreg \<Rightarrow> vu \<Rightarrow> vu" where
  "VMUDH_simd e vd vs vt s = (let vte = elem_simd e (vr s vt); a = vr s vs;
     al = vzero;
     am = mm_mullo_epi16 a vte;
     ah = mm_mulhi_epi16 a vte;
     lo = mm_unpacklo_epi16 am ah;
     hi = mm_unpackhi_epi16 am ah
     in wr vd (mm_packs_epi32 lo hi) (s\<lparr>accl := al, accm := am, acch := ah\<rparr>))"

definition VMUDL_sisd :: "lbyte \<Rightarrow> vreg \<Rightarrow> vreg \<Rightarrow> vreg \<Rightarrow> vu \<Rightarrow> vu" where
  "VMUDL_sisd e vd vs vt s = (let vte = elem_sisd e (vr s vt); a = vr s vs;
     s' = accumulatorSet (\<lambda>n. ucast (word_of_int (uint (a n) * uint (vte n) div 65536) :: u16)) s
     in wr vd (accl s') s')"

definition VMUDL_simd :: "lbyte \<Rightarrow> vreg \<Rightarrow> vreg \<Rightarrow> vreg \<Rightarrow> vu \<Rightarrow> vu" where
  "VMUDL_simd e vd vs vt s = (let al = mm_mulhi_epu16 (vr s vs) (elem_simd e (vr s vt))
     in wr vd al (s\<lparr>accl := al, accm := vzero, acch := vzero\<rparr>))"

definition VMUDM_sisd :: "lbyte \<Rightarrow> vreg \<Rightarrow> vreg \<Rightarrow> vreg \<Rightarrow> vu \<Rightarrow> vu" where
  "VMUDM_sisd e vd vs vt s = (let vte = elem_sisd e (vr s vt); a = vr s vs;
     s' = accumulatorSet (\<lambda>n. word_of_int (sint (a n) * uint (vte n))) s
     in wr vd (accm s') s')"

definition VMUDM_simd :: "lbyte \<Rightarrow> vreg \<Rightarrow> vreg \<Rightarrow> vreg \<Rightarrow> vu \<Rightarrow> vu" where
  "VMUDM_simd e vd vs vt s = (let vte = elem_simd e (vr s vt); a = vr s vs;
     al = mm_mullo_epi16 a vte;
     am = mm_mulhi_epu16 a vte;
     sign = mm_srai_epi16 a 15;
     vta = mm_and_si128 vte sign;
     am = mm_sub_epi16 am vta;
     ah = mm_srai_epi16 am 15
     in wr vd am (s\<lparr>accl := al, accm := am, acch := ah\<rparr>))"

definition VMUDN_sisd :: "lbyte \<Rightarrow> vreg \<Rightarrow> vreg \<Rightarrow> vreg \<Rightarrow> vu \<Rightarrow> vu" where
  "VMUDN_sisd e vd vs vt s = (let vte = elem_sisd e (vr s vt); a = vr s vs;
     s' = accumulatorSet (\<lambda>n. word_of_int (uint (a n) * sint (vte n))) s
     in wr vd (accl s') s')"

definition VMUDN_simd :: "lbyte \<Rightarrow> vreg \<Rightarrow> vreg \<Rightarrow> vreg \<Rightarrow> vu \<Rightarrow> vu" where
  "VMUDN_simd e vd vs vt s = (let vte = elem_simd e (vr s vt); a = vr s vs;
     al = mm_mullo_epi16 a vte;
     am = mm_mulhi_epu16 a vte;
     sign = mm_srai_epi16 vte 15;
     vsa = mm_and_si128 a sign;
     am = mm_sub_epi16 am vsa;
     ah = mm_srai_epi16 am 15
     in wr vd al (s\<lparr>accl := al, accm := am, acch := ah\<rparr>))"

section \<open>Multiply-accumulate\<close>

definition VMACF_sisd :: "bool \<Rightarrow> lbyte \<Rightarrow> vreg \<Rightarrow> vreg \<Rightarrow> vreg \<Rightarrow> vu \<Rightarrow> vu" where
  "VMACF_sisd U e vd vs vt s = (let vte = elem_sisd e (vr s vt); a = vr s vs;
     s' = accumulatorSet (\<lambda>n. accumulatorGet s n + word_of_int (sint (a n) * sint (vte n) * 2)) s
     in wr vd (\<lambda>n. if \<not> U then accumulatorSaturate s' n True 0x8000 0x7fff
                   else if sint (acch s' n) < 0 then 0
                   else if sint (acch s' n) \<noteq> 0 \<or> sint (accm s' n) < 0 then 0xffff else accm s' n) s')"

definition VMACF_simd :: "bool \<Rightarrow> lbyte \<Rightarrow> vreg \<Rightarrow> vreg \<Rightarrow> vreg \<Rightarrow> vu \<Rightarrow> vu" where
  "VMACF_simd U e vd vs vt s = (let vte = elem_simd e (vr s vt); a = vr s vs;
     lo = mm_mullo_epi16 a vte;
     hi = mm_mulhi_epi16 a vte;
     md = mm_slli_epi16 hi 1;
     carry = mm_srli_epi16 lo 15;
     hi = mm_srai_epi16 hi 15;
     md = mm_or_si128 md carry;
     lo = mm_slli_epi16 lo 1;
     omask = mm_adds_epu16 (accl s) lo;
     al = mm_add_epi16 (accl s) lo;
     omask = mm_cmpeq_epi16 al omask;
     omask = mm_cmpeq_epi16 omask vzero;
     md = mm_sub_epi16 md omask;
     carry = mm_cmpeq_epi16 md vzero;
     carry = mm_and_si128 carry omask;
     hi = mm_sub_epi16 hi carry;
     omask = mm_adds_epu16 (accm s) md;
     am = mm_add_epi16 (accm s) md;
     omask = mm_cmpeq_epi16 am omask;
     omask = mm_cmpeq_epi16 omask vzero;
     ah = mm_add_epi16 (acch s) hi;
     ah = mm_sub_epi16 ah omask;
     s' = s\<lparr>accl := al, accm := am, acch := ah\<rparr>
     in if \<not> U then (let
          lo = mm_unpacklo_epi16 am ah;
          hi = mm_unpackhi_epi16 am ah
          in wr vd (mm_packs_epi32 lo hi) s')
        else (let
          mmask = mm_srai_epi16 am 15;
          hmask = mm_srai_epi16 ah 15;
          md = mm_or_si128 mmask am;
          omask = mm_cmpgt_epi16 ah vzero;
          md = mm_andnot_si128 hmask md
          in wr vd (mm_or_si128 omask md) s'))"

definition VMADH_sisd :: "lbyte \<Rightarrow> vreg \<Rightarrow> vreg \<Rightarrow> vreg \<Rightarrow> vu \<Rightarrow> vu" where
  "VMADH_sisd e vd vs vt s = (let vte = elem_sisd e (vr s vt); a = vr s vs;
     result = (\<lambda>n. ucast (drop_bit 16 (accumulatorGet s n) + word_of_int (sint (a n) * sint (vte n))) :: u32);
     s' = s\<lparr>acch := (\<lambda>n. ucast (drop_bit 16 (result n))), accm := (\<lambda>n. ucast (result n))\<rparr>
     in wr vd (\<lambda>n. accumulatorSaturate s' n True 0x8000 0x7fff) s')"

definition VMADH_simd :: "lbyte \<Rightarrow> vreg \<Rightarrow> vreg \<Rightarrow> vreg \<Rightarrow> vu \<Rightarrow> vu" where
  "VMADH_simd e vd vs vt s = (let vte = elem_simd e (vr s vt); a = vr s vs;
     lo = mm_mullo_epi16 a vte;
     hi = mm_mulhi_epi16 a vte;
     omask = mm_adds_epu16 (accm s) lo;
     am = mm_add_epi16 (accm s) lo;
     omask = mm_cmpeq_epi16 am omask;
     omask = mm_cmpeq_epi16 omask vzero;
     hi = mm_sub_epi16 hi omask;
     ah = mm_add_epi16 (acch s) hi;
     lo = mm_unpacklo_epi16 am ah;
     hi = mm_unpackhi_epi16 am ah
     in wr vd (mm_packs_epi32 lo hi) (s\<lparr>accm := am, acch := ah\<rparr>))"

definition VMADL_sisd :: "lbyte \<Rightarrow> vreg \<Rightarrow> vreg \<Rightarrow> vreg \<Rightarrow> vu \<Rightarrow> vu" where
  "VMADL_sisd e vd vs vt s = (let vte = elem_sisd e (vr s vt); a = vr s vs;
     s' = accumulatorSet (\<lambda>n. accumulatorGet s n + ucast (drop_bit 16 (word_of_int (uint (a n) * uint (vte n)) :: u32))) s
     in wr vd (\<lambda>n. accumulatorSaturate s' n False 0 0xffff) s')"

definition VMADL_simd :: "lbyte \<Rightarrow> vreg \<Rightarrow> vreg \<Rightarrow> vreg \<Rightarrow> vu \<Rightarrow> vu" where
  "VMADL_simd e vd vs vt s = (let vte = elem_simd e (vr s vt); a = vr s vs;
     hi = mm_mulhi_epu16 a vte;
     omask = mm_adds_epu16 (accl s) hi;
     al = mm_add_epi16 (accl s) hi;
     omask = mm_cmpeq_epi16 al omask;
     omask = mm_cmpeq_epi16 omask vzero;
     hi = mm_sub_epi16 vzero omask;
     omask = mm_adds_epu16 (accm s) hi;
     am = mm_add_epi16 (accm s) hi;
     omask = mm_cmpeq_epi16 am omask;
     omask = mm_cmpeq_epi16 omask vzero;
     ah = mm_sub_epi16 (acch s) omask;
     nhi = mm_srai_epi16 ah 15;
     nmd = mm_srai_epi16 am 15;
     shi = mm_cmpeq_epi16 nhi ah;
     smd = mm_cmpeq_epi16 nhi nmd;
     cmask = mm_and_si128 smd shi;
     cval = mm_cmpeq_epi16 nhi vzero
     in wr vd (mm_blendv_epi8 cval al cmask) (s\<lparr>accl := al, accm := am, acch := ah\<rparr>))"

definition VMADM_sisd :: "lbyte \<Rightarrow> vreg \<Rightarrow> vreg \<Rightarrow> vreg \<Rightarrow> vu \<Rightarrow> vu" where
  "VMADM_sisd e vd vs vt s = (let vte = elem_sisd e (vr s vt); a = vr s vs;
     s' = accumulatorSet (\<lambda>n. accumulatorGet s n + word_of_int (sint (a n) * uint (vte n))) s
     in wr vd (\<lambda>n. accumulatorSaturate s' n True 0x8000 0x7fff) s')"

definition VMADM_simd :: "lbyte \<Rightarrow> vreg \<Rightarrow> vreg \<Rightarrow> vreg \<Rightarrow> vu \<Rightarrow> vu" where
  "VMADM_simd e vd vs vt s = (let vte = elem_simd e (vr s vt); a = vr s vs;
     lo = mm_mullo_epi16 a vte;
     hi = mm_mulhi_epu16 a vte;
     sign = mm_srai_epi16 a 15;
     vta = mm_and_si128 vte sign;
     hi = mm_sub_epi16 hi vta;
     omask = mm_adds_epu16 (accl s) lo;
     al = mm_add_epi16 (accl s) lo;
     omask = mm_cmpeq_epi16 al omask;
     omask = mm_cmpeq_epi16 omask vzero;
     hi = mm_sub_epi16 hi omask;
     omask = mm_adds_epu16 (accm s) hi;
     am = mm_add_epi16 (accm s) hi;
     omask = mm_cmpeq_epi16 am omask;
     omask = mm_cmpeq_epi16 omask vzero;
     hi = mm_srai_epi16 hi 15;
     ah = mm_add_epi16 (acch s) hi;
     ah = mm_sub_epi16 ah omask;
     lo = mm_unpacklo_epi16 am ah;
     hi = mm_unpackhi_epi16 am ah
     in wr vd (mm_packs_epi32 lo hi) (s\<lparr>accl := al, accm := am, acch := ah\<rparr>))"

definition VMADN_sisd :: "lbyte \<Rightarrow> vreg \<Rightarrow> vreg \<Rightarrow> vreg \<Rightarrow> vu \<Rightarrow> vu" where
  "VMADN_sisd e vd vs vt s = (let vte = elem_sisd e (vr s vt); a = vr s vs;
     s' = accumulatorSet (\<lambda>n. accumulatorGet s n + word_of_int (uint (a n) * sint (vte n))) s
     in wr vd (\<lambda>n. accumulatorSaturate s' n False 0 0xffff) s')"

definition VMADN_simd :: "lbyte \<Rightarrow> vreg \<Rightarrow> vreg \<Rightarrow> vreg \<Rightarrow> vu \<Rightarrow> vu" where
  "VMADN_simd e vd vs vt s = (let vte = elem_simd e (vr s vt); a = vr s vs;
     lo = mm_mullo_epi16 a vte;
     hi = mm_mulhi_epu16 a vte;
     sign = mm_srai_epi16 vte 15;
     vsa = mm_and_si128 a sign;
     hi = mm_sub_epi16 hi vsa;
     omask = mm_adds_epu16 (accl s) lo;
     al = mm_add_epi16 (accl s) lo;
     omask = mm_cmpeq_epi16 al omask;
     omask = mm_cmpeq_epi16 omask vzero;
     hi = mm_sub_epi16 hi omask;
     omask = mm_adds_epu16 (accm s) hi;
     am = mm_add_epi16 (accm s) hi;
     omask = mm_cmpeq_epi16 am omask;
     omask = mm_cmpeq_epi16 omask vzero;
     hi = mm_srai_epi16 hi 15;
     ah = mm_add_epi16 (acch s) hi;
     ah = mm_sub_epi16 ah omask;
     nhi = mm_srai_epi16 ah 15;
     nmd = mm_srai_epi16 am 15;
     shi = mm_cmpeq_epi16 nhi ah;
     smd = mm_cmpeq_epi16 nhi nmd;
     cmask = mm_and_si128 smd shi;
     cval = mm_cmpeq_epi16 nhi vzero
     in wr vd (mm_blendv_epi8 cval al cmask) (s\<lparr>accl := al, accm := am, acch := ah\<rparr>))"

section \<open>Instructions with a single implementation\<close>

definition VMACQ :: "vreg \<Rightarrow> vu \<Rightarrow> vu" where
  "VMACQ vd s = (let
     product0 = (\<lambda>n. sint (word_cat (acch s n) (accm s n) :: u32));
     product = (\<lambda>n. if product0 n < 0 \<and> \<not> bit (product0 n) 5 then product0 n + 32
                    else if product0 n \<ge> 32 \<and> \<not> bit (product0 n) 5 then product0 n - 32
                    else product0 n)
     in wr vd (\<lambda>n. word_of_int (sclamp 16 (product n div 2) AND NOT 15))
          (s\<lparr>acch := (\<lambda>n. word_of_int (product n div 65536)), accm := (\<lambda>n. word_of_int (product n))\<rparr>))"

definition VMULQ :: "lbyte \<Rightarrow> vreg \<Rightarrow> vreg \<Rightarrow> vreg \<Rightarrow> vu \<Rightarrow> vu" where
  "VMULQ e vd vs vt s = (let vte = elem_simd e (vr s vt); a = vr s vs;
     product0 = (\<lambda>n. sint (a n) * sint (vte n));
     product = (\<lambda>n. if product0 n < 0 then product0 n + 31 else product0 n)
     in wr vd (\<lambda>n. word_of_int (sclamp 16 (product n div 2) AND NOT 15))
          (s\<lparr>acch := (\<lambda>n. word_of_int (product n div 65536)), accm := (\<lambda>n. word_of_int (product n)),
              accl := (\<lambda>n. 0)\<rparr>))"

definition VMOV :: "lbyte \<Rightarrow> vreg \<Rightarrow> lane \<Rightarrow> vreg \<Rightarrow> vu \<Rightarrow> vu" where
  "VMOV e vd de vt s = (let vte = elem_simd e (vr s vt) in
     (wr vd ((vr s vd)(de := vte de)) s)\<lparr>accl := vte\<rparr>)"

definition VNOP :: "vu \<Rightarrow> vu" where
  "VNOP s = s"

definition VSAR :: "lbyte \<Rightarrow> vreg \<Rightarrow> vu \<Rightarrow> vu" where
  "VSAR e vd s = wr vd (if e = 8 then acch s else if e = 9 then accm s else if e = 10 then accl s else vzero) s"

definition VRND :: "bool \<Rightarrow> lbyte \<Rightarrow> vreg \<Rightarrow> nat \<Rightarrow> vreg \<Rightarrow> vu \<Rightarrow> vu" where
  "VRND D e vd vs vt s = (let vte = elem_simd e (vr s vt);
     product = (\<lambda>n. if odd vs then sint (vte n) * 65536 else sint (vte n));
     acc0 = (\<lambda>n. sint (acch s n) * 4294967296 + uint (accm s n) * 65536 + uint (accl s n));
     acc = (\<lambda>n. if (\<not> D \<and> acc0 n < 0) \<or> (D \<and> acc0 n \<ge> 0) then sclip 48 (acc0 n + product n) else acc0 n)
     in wr vd (\<lambda>n. word_of_int (sclamp 16 (acc n div 65536)))
          (s\<lparr>acch := (\<lambda>n. word_of_int (acc n div 4294967296)),
              accm := (\<lambda>n. word_of_int (acc n div 65536)),
              accl := (\<lambda>n. word_of_int (acc n))\<rparr>))"

text \<open>\<^verbatim>\<open>__builtin_clz\<close> on a non-zero 32-bit value: the number of leading zero bits.\<close>

primrec clz_from :: "nat \<Rightarrow> u32 \<Rightarrow> nat" where
  "clz_from 0 x = 32"
| "clz_from (Suc k) x = (if bit x k then 31 - k else clz_from k x)"

definition clz32 :: "u32 \<Rightarrow> nat" where
  "clz32 x = clz_from 32 x"

text \<open>\<^verbatim>\<open>constants_init\<close>: the two lookup tables, as functions of the index.\<close>

definition rspReciprocals :: "nat \<Rightarrow> u16" where
  "rspReciprocals index = (if index = 0 then - 1
     else word_of_nat ((2 ^ 34 div (index + 512) + 1) div 256))"

function isqrt_loop :: "nat \<Rightarrow> nat \<Rightarrow> nat" where
  "isqrt_loop a b = (if 0 < a \<and> a * (b + 1) * (b + 1) < 2 ^ 44 then isqrt_loop a (b + 1) else b)"
  by pat_completeness auto
termination
proof (relation "measure (\<lambda>(a, b). 2 ^ 44 - b)")
  fix a b :: nat
  assume *: "0 < a \<and> a * (b + 1) * (b + 1) < 2 ^ 44"
  then have "1 * (b + 1) \<le> a * (b + 1) * (b + 1)" by (intro mult_le_mono1) simp
  then have "b + 1 \<le> a * (b + 1) * (b + 1)" by simp
  also have "\<dots> < 2 ^ 44" using * by blast
  finally have "b + 1 < 2 ^ 44" .
  then show "((a, b + 1), a, b) \<in> measure (\<lambda>(a, b). 2 ^ 44 - b)" by simp
qed simp

definition rspInverseSquareRoots :: "nat \<Rightarrow> u16" where
  "rspInverseSquareRoots index =
     word_of_nat (isqrt_loop ((index + 512) div (if index mod 2 = 1 then 2 else 1)) (2 ^ 17) div 2)"

text \<open>The operand of the divide unit: 32 bits when a high half was latched, else sign-extended.\<close>

definition div_input :: "bool \<Rightarrow> lbyte \<Rightarrow> vreg \<Rightarrow> vu \<Rightarrow> u32" where
  "div_input L e vt s = (let el = vr s vt (ucast (e AND 7)) in
     if L \<and> divdp s then word_cat (divin s) el else scast el)"

definition div_data :: "u32 \<Rightarrow> u32" where
  "div_data input = (let mask = signed_drop_bit 31 input; data = input XOR mask
     in if sint input > - 32768 then data - mask else data)"

text \<open>The table indices: the nine bits after the leading one, and for the root the shift's parity.\<close>

definition div_index :: "u32 \<Rightarrow> u32" where
  "div_index data = drop_bit 22 (ucast (push_bit (clz32 data) (ucast data :: u64) AND 0x7fc00000) :: u32)"

definition VRCP_index :: "u32 \<Rightarrow> nat" where
  "VRCP_index data = unat (div_index data)"

definition VRSQ_index :: "u32 \<Rightarrow> nat" where
  "VRSQ_index data = unat (div_index data AND 0x1fe OR (word_of_nat (clz32 data) AND 1))"

definition VRCP_result :: "u32 \<Rightarrow> u32" where
  "VRCP_result input = (let mask = signed_drop_bit 31 input; data = div_data input in
     if data = 0 then 0x7fffffff
     else if sint input = - 32768 then 0xffff0000
     else (let shift = clz32 data;
               result = ucast (rspReciprocals (VRCP_index data)) :: u32;
               result = push_bit 14 (0x10000 OR result)
           in signed_drop_bit (31 - shift) result XOR mask))"

definition VRSQ_result :: "u32 \<Rightarrow> u32" where
  "VRSQ_result input = (let mask = signed_drop_bit 31 input; data = div_data input in
     if data = 0 then 0x7fffffff
     else if sint input = - 32768 then 0xffff0000
     else (let shift = clz32 data;
               result = ucast (rspInverseSquareRoots (VRSQ_index data)) :: u32;
               result = push_bit 14 (0x10000 OR result)
           in signed_drop_bit ((31 - shift) div 2) result XOR mask))"

definition VRCP :: "bool \<Rightarrow> lbyte \<Rightarrow> vreg \<Rightarrow> lane \<Rightarrow> vreg \<Rightarrow> vu \<Rightarrow> vu" where
  "VRCP L e vd de vt s = (let result = VRCP_result (div_input L e vt s);
     s' = s\<lparr>divdp := False, divout := ucast (drop_bit 16 result), accl := elem_simd e (vr s vt)\<rparr>
     in wr vd ((vr s' vd)(de := ucast result)) s')"

definition VRCPH :: "lbyte \<Rightarrow> vreg \<Rightarrow> lane \<Rightarrow> vreg \<Rightarrow> vu \<Rightarrow> vu" where
  "VRCPH e vd de vt s = (let
     s' = s\<lparr>accl := elem_simd e (vr s vt), divdp := True, divin := vr s vt (ucast (e AND 7))\<rparr>
     in wr vd ((vr s' vd)(de := divout s')) s')"

definition VRSQ :: "bool \<Rightarrow> lbyte \<Rightarrow> vreg \<Rightarrow> lane \<Rightarrow> vreg \<Rightarrow> vu \<Rightarrow> vu" where
  "VRSQ L e vd de vt s = (let result = VRSQ_result (div_input L e vt s);
     s' = s\<lparr>divdp := False, divout := ucast (drop_bit 16 result), accl := elem_simd e (vr s vt)\<rparr>
     in wr vd ((vr s' vd)(de := ucast result)) s')"

definition VRSQH :: "lbyte \<Rightarrow> vreg \<Rightarrow> lane \<Rightarrow> vreg \<Rightarrow> vu \<Rightarrow> vu" where
  "VRSQH e vd de vt s = (let
     s' = s\<lparr>accl := elem_simd e (vr s vt), divdp := True, divin := vr s vt (ucast (e AND 7))\<rparr>
     in wr vd ((vr s' vd)(de := divout s')) s')"

end
