(* ===== verification/RspVectorEquiv.thy ===== *)
theory RspVectorEquiv
  imports RspVectorMul
begin

text \<open>
  The SSE implementation of every vector instruction computes exactly what the scalar loop
  computes, on every register file whose flag registers hold masks, and every instruction
  leaves masks in the flag registers.
\<close>

section \<open>Element broadcast\<close>

lemma all_lbytes: "(\<forall>e :: lbyte. P e) \<longleftrightarrow>
   P 0 \<and> P 1 \<and> P 2 \<and> P 3 \<and> P 4 \<and> P 5 \<and> P 6 \<and> P 7 \<and>
   P 8 \<and> P 9 \<and> P 10 \<and> P 11 \<and> P 12 \<and> P 13 \<and> P 14 \<and> P 15" (is "_ \<longleftrightarrow> ?R")
proof
  assume *: ?R
  show "\<forall>e. P e"
  proof
    fix e :: lbyte
    have "unat e < 16" by (rule order.strict_trans2 [OF unsigned_less]) simp
    then obtain k where k: "e = word_of_nat k" "k < 16" using that [of "unat e"] by simp
    show "P e"
    proof (cases "k < 8")
      case True
      then consider "k = 0" | "k = 1" | "k = 2" | "k = 3" | "k = 4" | "k = 5" | "k = 6" | "k = 7"
        by linarith
      then show ?thesis using * k(1) by cases simp_all
    next
      case False
      with k(2) consider "k = 8" | "k = 9" | "k = 10" | "k = 11" | "k = 12" | "k = 13" | "k = 14" | "k = 15"
        by linarith
      then show ?thesis using * k(1) by cases simp_all
    qed
  qed
qed simp

lemma shuffle_lane: "mm_shuffle_epi8 v (mm_set_epi8 bs) n =
   (let p = \<lambda>j. bs ! unat (15 - (j :: lbyte)) in
    mk16 (if bit (p (15 - 2 * ucast n)) 7 then 0 else get_byte v (15 - ucast (p (15 - 2 * ucast n) AND 15)))
         (if bit (p (14 - 2 * ucast n)) 7 then 0 else get_byte v (15 - ucast (p (14 - 2 * ucast n) AND 15))))"
  by (simp add: mm_shuffle_epi8_def of_host_bytes_def host_byte_def mm_set_epi8_def Let_def)

lemma elem_equiv: "elem_simd e v = elem_sisd e v"
proof -
  have "\<forall>e n. elem_simd e v n = elem_sisd e v n"
    unfolding all_lbytes all_lanes
    by (simp add: elem_simd_def shuffle_lane shuffle_def elem_sisd_def get_byte_def)
  then show ?thesis by blast
qed

section \<open>Reading a result lane by lane\<close>

text \<open>Two instruction results agree when the destination and every unit register agree.\<close>

lemma wr_eqI:
  "v = w \<Longrightarrow> vr s = vr t \<Longrightarrow> acch s = acch t \<Longrightarrow> accm s = accm t \<Longrightarrow> accl s = accl t \<Longrightarrow>
   vcoh s = vcoh t \<Longrightarrow> vcol s = vcol t \<Longrightarrow> vcch s = vcch t \<Longrightarrow> vccl s = vccl t \<Longrightarrow> vce s = vce t \<Longrightarrow>
   divin s = divin t \<Longrightarrow> divout s = divout t \<Longrightarrow> divdp s = divdp t \<Longrightarrow> wr d v s = wr d w (t :: vu)"
  by (cases s, cases t) (simp add: wr_def)

lemmas sisd_defs = VABS_sisd_def VADD_sisd_def VADDC_sisd_def VSUB_sisd_def VSUBC_sisd_def VZERO_sisd_def
  VAND_sisd_def VNAND_sisd_def VOR_sisd_def VNOR_sisd_def VXOR_sisd_def VNXOR_sisd_def logic_sisd_def
  VMRG_sisd_def VEQ_sisd_def VNE_sisd_def VGE_sisd_def VLT_sisd_def select_sisd_def

lemmas simd_defs = VABS_simd_def VADD_simd_def VADDC_simd_def VSUB_simd_def VSUBC_simd_def VZERO_simd_def
  VAND_simd_def VNAND_simd_def VOR_simd_def VNOR_simd_def VXOR_simd_def VNXOR_simd_def
  VMRG_simd_def VEQ_simd_def VNE_simd_def VGE_simd_def VLT_simd_def

lemma logic_equiv:
  "VAND_simd = VAND_sisd" "VNAND_simd = VNAND_sisd" "VOR_simd = VOR_sisd"
  "VNOR_simd = VNOR_sisd" "VXOR_simd = VXOR_sisd" "VNXOR_simd = VNXOR_sisd"
  by (intro ext; simp add: sisd_defs simd_defs elem_equiv lane_simps Let_def)+

text \<open>A register of masks is determined by its lanes' truth values.\<close>

lemma is_mask_eq: "is_mask v \<Longrightarrow> v = (\<lambda>n. mask16 (flag_get v n))"
  by (auto simp: is_mask_def flag_get_def fun_eq_iff is_mask16_conv [symmetric])

lemma is_maskE: assumes "is_mask v" obtains p where "v = (\<lambda>n. mask16 (p n))" "flag_get v = p"
  using is_mask_eq [OF assms] that [of "flag_get v"] by simp

lemma flag_get_mask [simp]: "flag_get (\<lambda>n. mask16 (p n)) n \<longleftrightarrow> p n"
  by (simp add: flag_get_def)

lemma is_mask_simps [simp]: "is_mask (\<lambda>n. mask16 (p n))" "is_mask vzero"
  by (simp_all add: is_mask_def vzero_def)

lemma select_equiv:
  assumes "flags_ok s"
  shows "VMRG_simd e vd vs vt s = VMRG_sisd e vd vs vt s"
    and "VEQ_simd e vd vs vt s = VEQ_sisd e vd vs vt s"
    and "VNE_simd e vd vs vt s = VNE_sisd e vd vs vt s"
    and "VGE_simd e vd vs vt s = VGE_sisd e vd vs vt s"
    and "VLT_simd e vd vs vt s = VLT_sisd e vd vs vt s"
proof -
  obtain h l c where [simp]: "vcoh s = (\<lambda>n. mask16 (h n))" "vcol s = (\<lambda>n. mask16 (l n))"
      "vccl s = (\<lambda>n. mask16 (c n))"
    using assms by (auto simp: flags_ok_def elim!: is_maskE)
  note ds = sisd_defs simd_defs Let_def elem_equiv lane_simps
  show "VMRG_simd e vd vs vt s = VMRG_sisd e vd vs vt s"
    unfolding ds by (rule wr_eqI) (auto simp: fun_eq_iff)
  show "VEQ_simd e vd vs vt s = VEQ_sisd e vd vs vt s"
    unfolding ds by (rule wr_eqI) (auto simp: fun_eq_iff)
  show "VNE_simd e vd vs vt s = VNE_sisd e vd vs vt s"
    unfolding ds by (rule wr_eqI) (auto simp: fun_eq_iff)
  show "VGE_simd e vd vs vt s = VGE_sisd e vd vs vt s"
    unfolding ds by (rule wr_eqI) (auto simp: fun_eq_iff word16_eq_sint sint_mask16)
  show "VLT_simd e vd vs vt s = VLT_sisd e vd vs vt s"
    unfolding ds by (rule wr_eqI) (auto simp: fun_eq_iff word16_eq_sint sint_mask16)
qed

section \<open>Saturating arithmetic\<close>

lemma sclamp16: "sclamp 16 k = max (- 32768) (min 32767 k)"
  by (simp add: sclamp_def Let_def)

lemma word16_sclamp: "word_of_int (sclamp 16 k) = sat_s16 k"
  by (simp add: sclamp_def sat_s16_def)

lemma sat_s16_eq_iff: "sat_s16 j = sat_s16 k \<longleftrightarrow> max (- 32768) (min 32767 j) = max (- 32768) (min 32767 k)"
  by (simp add: word16_eq_sint sint_sat_s16)

lemma add_lane:
  "sat_s16 (sint (sat_s16 (sint (if sint a < sint b then a else b) - sint (mask16 c)))
      + sint (if sint b < sint a then a else b)) = sat_s16 (sint a + sint b + of_bool c)"
  for a b :: u16
  using sint16_range [of a] sint16_range [of b]
  by (auto simp: sat_s16_eq_iff sint_sat_s16 sint_mask16 min_def max_def)

lemma acc_add_lane: "a + b - mask16 c = word_of_int (sint a + sint b + of_bool c)"
  by (simp add: mask16_def)

lemma adds_epu16_carry: "sat_u16 (uint a + uint b) = a + b \<longleftrightarrow> uint a + uint b < 65536"
proof (cases "uint a + uint b < 65536")
  case True
  then show ?thesis by (simp add: word16_eq_iff uint_sat_u16 uint16_add)
next
  case False
  then have "(uint a + uint b) mod 65536 = uint a + uint b - 65536"
    using uint16_lt [of a] uint16_lt [of b] by (intro mod16_eqI [where q = 1]) auto
  with False show ?thesis
    using uint16_lt [of a] uint16_lt [of b] by (simp add: word16_eq_iff uint_sat_u16 uint16_add)
qed

lemma abs_lane_mask: fixes a b :: u16
  shows "(mask16 (a \<noteq> 0) AND b) XOR mask16 (sint a < 0)
    = (if sint a < 0 then NOT b else if sint a > 0 then b else 0)"
  using sint16_eq_0_iff [of a] by (auto simp: mask16_absorb)

lemma abs_lane_acc: fixes a b :: u16
  shows "(if sint a < 0 then NOT b else if sint a > 0 then b else 0) - mask16 (sint a < 0)
    = (if sint a < 0 then (if sint b = - 32768 then word_of_int (- 32768) else word_of_int (- sint b))
       else if sint a > 0 then b else 0)"
proof (cases "sint b = - 32768")
  case True
  then have "b = word_of_int (- 32768)" by (simp add: word16_eq_sint)
  then show ?thesis by (simp add: mask16_def)
next
  case False
  then show ?thesis by (simp add: mask16_def not_eq_complement)
qed

lemma abs_lane_sat: fixes a b :: u16
  shows "sat_s16 (sint (if sint a < 0 then NOT b else if sint a > 0 then b else 0) - sint (mask16 (sint a < 0)))
    = (if sint a < 0 then (if sint b = - 32768 then 32767 else word_of_int (- sint b))
       else if sint a > 0 then b else 0)"
  using sint16_range [of b]
  by (auto simp: sint_mask16 sint16_not sat_s16_def)

lemma sub_lane:
  "sat_s16 (sint (sat_s16 (sint a - sint (sat_s16 (sint b - sint (mask16 c)))))
      + sint (mask16 (sint (b - mask16 c) < sint (sat_s16 (sint b - sint (mask16 c))))))
   = sat_s16 (sint a - sint b - of_bool c)" for a b :: u16
proof (cases "c \<and> sint b = 32767")
  case True
  then have b: "b = 32767" by (simp add: word16_eq_sint)
  show ?thesis
    using True sint16_range [of a] by (auto simp: b sat_s16_eq_iff sint_sat_s16 min_def max_def)
next
  case False
  have "b - mask16 c = word_of_int (sint b + of_bool c)"
    by (simp add: mask16_def)
  moreover have "(sint b + of_bool c + 32768) mod 65536 = sint b + of_bool c + 32768"
    using False sint16_range [of b] by (intro mod_pos_pos_trivial) auto
  ultimately have "sint (b - mask16 c) = sint b + of_bool c"
    by (simp only: sint16_of_int add_diff_cancel_right')
  then show ?thesis
    using False sint16_range [of a] sint16_range [of b]
    by (auto simp: sat_s16_eq_iff sint_sat_s16 sint_mask16 min_def max_def)
qed

lemma acc_sub_lane: "a - (b - mask16 c) = word_of_int (sint a - sint b - of_bool c)"
  by (simp add: mask16_def)

lemma subs_epu16_zero: "sat_u16 (uint a - uint b) = 0 \<longleftrightarrow> uint a \<le> uint b" for a b :: u16
  using uint16_lt [of a] uint16_ge [of b]
  by (simp add: word16_eq_iff uint_sat_u16 min_def max_def)

lemma sub_u32: "(uint a - uint b) mod 4294967296 = (if uint a < uint b then uint a - uint b + 4294967296 else uint a - uint b)"
  for a b :: u16
proof (cases "uint a < uint b")
  case True
  have "(uint a - uint b) mod 4294967296 = (uint a - uint b + 4294967296) mod 4294967296"
    by simp
  also have "\<dots> = uint a - uint b + 4294967296"
    using True uint16_lt [of b] uint16_ge [of a] by (intro mod_pos_pos_trivial) linarith+
  finally show ?thesis using True by simp
next
  case False
  have "(uint a - uint b) mod 4294967296 = uint a - uint b"
    using False uint16_lt [of a] uint16_ge [of b] by (intro mod_pos_pos_trivial) linarith+
  with False show ?thesis by simp
qed

lemma lt_lane: "a \<noteq> b \<and> uint a \<le> uint b \<longleftrightarrow> uint a < uint b" for a b :: u16
  by (auto simp: word16_eq_iff)

lemma borrow_lane: "(uint a - uint b) mod 4294967296 div 65536 \<noteq> 0 \<longleftrightarrow> uint a < uint b" for a b :: u16
proof (cases "uint a < uint b")
  case True
  have "1 \<le> (uint a - uint b + 4294967296) div 65536"
    using uint16_lt [of b] uint16_ge [of a] by linarith
  with True show ?thesis by (simp add: sub_u32)
next
  case False
  have "(uint a - uint b) div 65536 = 0"
    using False uint16_lt [of a] uint16_ge [of b] by (intro div_pos_pos_trivial) linarith+
  with False show ?thesis by (simp add: sub_u32)
qed

lemma diff_lane: "(uint a - uint b) mod 4294967296 = 0 \<longleftrightarrow> a = b" for a b :: u16
proof -
  have "uint a - uint b + 4294967296 \<noteq> 0"
    using uint16_lt [of b] uint16_ge [of a] by linarith
  then show ?thesis by (auto simp: word16_eq_iff sub_u32)
qed

lemma acc_diff_lane: "word_of_int ((uint a - uint b) mod 4294967296) = a - b" for a b :: u16
  by (simp add: word16_eq_iff uint16_sub uint16_of_int mod_mod_cancel)

lemma arith_equiv:
  assumes "flags_ok s"
  shows "VABS_simd e vd vs vt s = VABS_sisd e vd vs vt s"
    and "VADD_simd e vd vs vt s = VADD_sisd e vd vs vt s"
    and "VADDC_simd e vd vs vt s = VADDC_sisd e vd vs vt s"
    and "VSUB_simd e vd vs vt s = VSUB_sisd e vd vs vt s"
    and "VSUBC_simd e vd vs vt s = VSUBC_sisd e vd vs vt s"
    and "VZERO_simd e vd vs vt s = VZERO_sisd e vd vs vt s"
proof -
  obtain l where [simp]: "vcol s = (\<lambda>n. mask16 (l n))"
    using assms by (auto simp: flags_ok_def elim!: is_maskE)
  note ds = sisd_defs simd_defs Let_def elem_equiv lane_simps
  show "VABS_simd e vd vs vt s = VABS_sisd e vd vs vt s"
    unfolding ds by (rule wr_eqI) (simp_all add: signed_drop_bit_15 abs_lane_mask abs_lane_acc abs_lane_sat)
  show "VADD_simd e vd vs vt s = VADD_sisd e vd vs vt s"
    unfolding ds by (rule wr_eqI) (simp_all add: add_lane acc_add_lane word16_sclamp)
  show "VADDC_simd e vd vs vt s = VADDC_sisd e vd vs vt s"
    unfolding ds by (rule wr_eqI) (auto simp: fun_eq_iff adds_epu16_carry)
  show "VSUB_simd e vd vs vt s = VSUB_sisd e vd vs vt s"
    unfolding ds by (rule wr_eqI) (simp_all add: sub_lane acc_sub_lane word16_sclamp)
  show "VSUBC_simd e vd vs vt s = VSUBC_sisd e vd vs vt s"
    unfolding ds by (rule wr_eqI)
      (simp_all add: subs_epu16_zero borrow_lane diff_lane acc_diff_lane lt_lane)
  show "VZERO_simd e vd vs vt s = VZERO_sisd e vd vs vt s"
    unfolding ds by (rule wr_eqI) (simp_all)
qed

section \<open>Clip tests\<close>

lemma if_mask16 [simp]: "(if p then mask16 a else mask16 b) = mask16 (if p then a else b)"
  by simp

lemma negate_lane: "(t XOR mask16 c) - mask16 c = (if c then - t else t)"
  by (simp add: mask16_def not_eq_complement)

lemma sint16_neg_bit: "sint (x :: u16) < 0 \<longleftrightarrow> bit x 15"
  using bit_last_iff [of x] by simp

lemma sint16_xor_neg: "sint (a XOR b :: u16) < 0 \<longleftrightarrow> (sint a < 0) \<noteq> (sint b < 0)"
  by (simp add: sint16_neg_bit bit_xor_iff)

lemma not_xor_lane: "a = NOT b \<longleftrightarrow> a + b = - 1" for a b :: u16
  by (auto simp: not_eq_complement algebra_simps eq_neg_iff_add_eq_0)

lemma sum_opposite: "sint (a XOR b :: u16) < 0 \<Longrightarrow> sint (a + b) = sint a + sint b"
proof -
  assume neg: "sint (a XOR b) < 0"
  have "a + b = word_of_int (sint a + sint b)" by simp
  moreover have "(sint a + sint b + 32768) mod 65536 = sint a + sint b + 32768"
    using neg sint16_range [of a] sint16_range [of b]
    by (intro mod_pos_pos_trivial) (auto simp: sint16_xor_neg)
  ultimately show ?thesis by (simp only: sint16_of_int add_diff_cancel_right')
qed

lemma xor_65535: "t XOR 65535 = NOT t" for t :: u16
proof -
  have "(65535 :: u16) = - 1" by simp
  then show ?thesis by (simp only: bit.xor_one_right)
qed

lemma sint16_eq_m1_iff: "sint (x :: u16) = - 1 \<longleftrightarrow> x = - 1"
  using word16_eq_sint [of x "- 1"] by simp

lemma sint16_nonneg: "0 \<le> sint (x :: u16) \<longleftrightarrow> 0 < sint x \<or> x = 0"
  using sint16_eq_0_iff [of x] by linarith

lemma complement_neg: "a + b = - 1 \<Longrightarrow> sint (a XOR b :: u16) < 0"
proof -
  assume "a + b = - 1"
  then have "a = NOT b" by (simp add: not_xor_lane)
  then show ?thesis by (simp add: sint16_xor_neg sint16_not not_less)
qed

lemma carry_lane: fixes a b :: u16
  shows "a + b = sat_u16 (uint a + uint b) \<longleftrightarrow> uint a + uint b < 65536"
    and "uint a + uint b = uint (a + b) \<longleftrightarrow> uint a + uint b < 65536"
  using adds_epu16_carry [of a b] uint16_lt [of "a + b"] by (auto simp: uint16_add)

lemma minus_one_lane: "- 1 = t \<Longrightarrow> sint t = - 1" for t :: u16
  by auto

lemma opposite_lane: "a + b = 0 \<Longrightarrow> a = - b" for a b :: u16
  by (simp add: add_eq_0_iff2)

lemma clip_equiv:
  assumes "flags_ok s"
  shows "VCH_simd e vd vs vt s = VCH_sisd e vd vs vt s"
    and "VCL_simd e vd vs vt s = VCL_sisd e vd vs vt s"
    and "VCR_simd e vd vs vt s = VCR_sisd e vd vs vt s"
proof -
  obtain h l ch cl ce where [simp]: "vcoh s = (\<lambda>n. mask16 (h n))" "vcol s = (\<lambda>n. mask16 (l n))"
      "vcch s = (\<lambda>n. mask16 (ch n))" "vccl s = (\<lambda>n. mask16 (cl n))" "vce s = (\<lambda>n. mask16 (ce n))"
    using assms by (auto simp: flags_ok_def elim!: is_maskE)
  note ds = VCH_simd_def VCH_sisd_def VCL_simd_def VCL_sisd_def VCR_simd_def VCR_sisd_def
    Let_def elem_equiv lane_simps
  show "VCH_simd e vd vs vt s = VCH_sisd e vd vs vt s"
    unfolding ds by (rule wr_eqI) (auto simp: fun_eq_iff negate_lane xor_65535 not_xor_lane sint16_eq_0_iff sint16_eq_m1_iff sint16_nonneg
        dest: complement_neg opposite_lane)
  show "VCL_simd e vd vs vt s = VCL_sisd e vd vs vt s"
    unfolding ds by (rule wr_eqI) (simp_all add: negate_lane subs_epu16_zero carry_lane add_eq_0_iff2 cong: if_cong,
        auto simp: fun_eq_iff)
  show "VCR_simd e vd vs vt s = VCR_sisd e vd vs vt s"
    unfolding ds by (rule wr_eqI) (auto simp: fun_eq_iff signed_drop_bit_15 sum_opposite dest: minus_one_lane)
qed

end
