(* ===== verification/RspVectorMulEquiv.thy ===== *)
theory RspVectorMulEquiv
  imports RspVectorEquiv
begin

text \<open>
  The multiplications and multiply-accumulates. Both implementations are read as integer
  arithmetic on the 48-bit accumulator: the scalar code adds in 64 bits and splits the sum,
  the SSE code adds 16-bit lanes and propagates two carries, which it finds by comparing a
  saturating with a wrapping sum.
\<close>

section \<open>The accumulator as an integer\<close>

lemma split_acc:
  "(ucast (word_of_int k :: u64) :: u16) = word_of_int k"
  "(ucast (drop_bit 16 (word_of_int k :: u64)) :: u16) = word_of_int (k div 65536)"
  "(ucast (drop_bit 32 (word_of_int k :: u64)) :: u16) = word_of_int (k div 4294967296)"
  "(ucast (word_of_int k :: u64) :: u32) = word_of_int k"
  "(ucast (word_of_int k :: u32) :: u16) = word_of_int k"
  "(ucast (drop_bit 16 (word_of_int k :: u32)) :: u16) = word_of_int (k div 65536)"
  by (rule bit_word_eqI;
      simp add: bit_ucast_iff bit_drop_bit_eq bit_word_of_int_iff
        flip: drop_bit_eq_div [where n = 16, simplified] drop_bit_eq_div [where n = 32, simplified])+

lemma accumulatorGet_int:
  "accumulatorGet s n = word_of_int (uint (acch s n) * 4294967296 + uint (accm s n) * 65536 + uint (accl s n))"
proof -
  let ?h = "push_bit 32 (ucast (acch s n)) :: u64" and ?m = "push_bit 16 (ucast (accm s n)) :: u64"
  have z: "?h AND ?m = 0" "(?h OR ?m) AND ucast (accl s n) = 0"
    by (rule bit_word_eqI; auto simp: bit_and_iff bit_or_iff bit_push_bit_iff bit_ucast_iff dest: bit_imp_le_length)+
  have "accumulatorGet s n = ?h + ?m + ucast (accl s n)"
    unfolding accumulatorGet_def disjunctive_add_eq_or [OF z(1)] disjunctive_add_eq_or [OF z(2)] by (simp only: or.assoc)
  then show ?thesis
    by (simp add: push_bit_eq_mult)
qed

lemma div_carry: "(x + k) div 65536 = k div 65536 + (x + k mod 65536) div (65536 :: int)"
proof -
  have "x + k = (x + k mod 65536) + (k div 65536) * 65536" by simp
  then have "(x + k) div 65536 = ((x + k mod 65536) + (k div 65536) * 65536) div 65536"
    by (rule arg_cong)
  also have "\<dots> = k div 65536 + (x + k mod 65536) div 65536"
    by (rule div_mult_self1) simp
  finally show ?thesis .
qed

lemma carry_bit: "(uint x + uint y) div 65536 = of_bool (\<not> uint x + uint y < 65536)" for x y :: u16
proof (cases "uint x + uint y < 65536")
  case True
  then show ?thesis using uint16_ge [of x] uint16_ge [of y] by (simp add: div_pos_pos_trivial)
next
  case False
  then have "(uint x + uint y) div 65536 = 1"
    using uint16_lt [of x] uint16_lt [of y] by (intro div16_eqI [where r = "uint x + uint y - 65536"]) linarith+
  with False show ?thesis by simp
qed

lemma add_carry: "(uint (x :: u16) + k) div 65536 = k div 65536 + of_bool (\<not> uint x + uint (word_of_int k :: u16) < 65536)"
  using div_carry [of "uint x" k] carry_bit [of x "word_of_int k"] by (simp only: uint16_of_int)

lemma minus_mask16: "x - mask16 c = x + of_bool c"
  by (simp add: mask16_def)

lemma mac_words:
  "(ucast (accumulatorGet s n + word_of_int k) :: u16) = accl s n + word_of_int k"
  "(ucast (drop_bit 16 (accumulatorGet s n + word_of_int k)) :: u16)
     = accm s n + word_of_int ((uint (accl s n) + k) div 65536)"
  "(ucast (drop_bit 32 (accumulatorGet s n + word_of_int k)) :: u16)
     = acch s n + word_of_int ((uint (accm s n) + (uint (accl s n) + k) div 65536) div 65536)"
proof -
  let ?h = "uint (acch s n)" and ?m = "uint (accm s n)" and ?l = "uint (accl s n)"
  have e: "accumulatorGet s n + word_of_int k = word_of_int (?h * 4294967296 + ?m * 65536 + ?l + k)"
    by (simp add: accumulatorGet_int)
  have d1: "(?h * 4294967296 + ?m * 65536 + ?l + k) div 65536 = ?h * 65536 + (?m + (?l + k) div 65536)"
    using div_mult_self1 [of 65536 "?l + k" "?h * 65536 + ?m"] by (simp add: algebra_simps)
  have d2: "(?h * 65536 + (?m + (?l + k) div 65536)) div 65536 = ?h + (?m + (?l + k) div 65536) div 65536"
    using div_mult_self1 [of 65536 "?m + (?l + k) div 65536" ?h] by (simp add: algebra_simps)
  have d3: "(?h * 4294967296 + ?m * 65536 + ?l + k) div 4294967296 = ?h + (?m + (?l + k) div 65536) div 65536"
    unfolding d2 [symmetric] d1 [symmetric] by (simp add: div_mult2_eq [symmetric])
  have big: "(65536 :: u16) = 0" "(4294967296 :: u16) = 0" by simp_all
  show "(ucast (accumulatorGet s n + word_of_int k) :: u16) = accl s n + word_of_int k"
    unfolding e split_acc by (simp add: big)
  show "(ucast (drop_bit 16 (accumulatorGet s n + word_of_int k)) :: u16)
     = accm s n + word_of_int ((uint (accl s n) + k) div 65536)"
    unfolding e split_acc d1 by (simp add: big)
  show "(ucast (drop_bit 32 (accumulatorGet s n + word_of_int k)) :: u16)
     = acch s n + word_of_int ((uint (accm s n) + (uint (accl s n) + k) div 65536) div 65536)"
    unfolding e split_acc d3 by simp
qed


section \<open>Lanes of the SSE code\<close>

text \<open>\<open>lo\<close> and \<open>hi\<close> are the halves of a product \<open>k\<close> added to the accumulator words.\<close>

lemma sign_word: "- 32768 \<le> k \<Longrightarrow> k < 32768 \<Longrightarrow> signed_drop_bit 15 (word_of_int k :: u16) = word_of_int (k div 65536)"
proof -
  assume k: "- 32768 \<le> k" "k < 32768"
  then have "sint (word_of_int k :: u16) = k" by (simp add: sint16_of_int)
  moreover have "k div 65536 = (if k < 0 then - 1 else 0)"
    using k by (auto intro: div16_eqI [where r = "k + 65536"] div16_eqI [where r = k])
  ultimately show ?thesis by (simp add: signed_drop_bit_15 mask16_def)
qed

lemma mac_lanes: fixes l m h lo :: u16
  assumes lo: "lo = word_of_int k" and k: "- 32768 \<le> k div 65536" "k div 65536 < 32767"
  shows "word_of_int (k div 65536) - mask16 (\<not> uint l + uint lo < 65536) = (word_of_int ((uint l + k) div 65536) :: u16)"
    and "h + signed_drop_bit 15 (word_of_int ((uint l + k) div 65536))
         - mask16 (\<not> uint m + uint (word_of_int ((uint l + k) div 65536) :: u16) < 65536)
       = h + word_of_int ((uint m + (uint l + k) div 65536) div 65536)"
proof -
  show "word_of_int (k div 65536) - mask16 (\<not> uint l + uint lo < 65536) = (word_of_int ((uint l + k) div 65536) :: u16)"
    by (simp add: minus_mask16 add_carry lo)
  have "- 32768 \<le> (uint l + k) div 65536" "(uint l + k) div 65536 < 32768"
    using k by (simp_all add: add_carry)
  note r = sign_word [OF this]
  show "h + signed_drop_bit 15 (word_of_int ((uint l + k) div 65536))
         - mask16 (\<not> uint m + uint (word_of_int ((uint l + k) div 65536) :: u16) < 65536)
       = h + word_of_int ((uint m + (uint l + k) div 65536) div 65536)"
    by (simp add: r minus_mask16 add_carry [of m])
qed

lemma mul_su_hi: "(word_of_int (uint a * uint t div 65536) :: u16) - (t AND signed_drop_bit 15 a)
    = word_of_int (sint a * uint t div 65536)" for a t :: u16
proof (cases "sint a < 0")
  case True
  then have "sint a * uint t = uint a * uint t + (- uint t) * 65536"
    using uint16_lt [of a] by (auto simp: sint16_cases algebra_simps split: if_splits)
  then have "sint a * uint t div 65536 = - uint t + uint a * uint t div 65536"
    by (simp only: div_mult_self1)
  with True show ?thesis by (simp add: signed_drop_bit_15 mask16_absorb)
next
  case False
  then have "sint a = uint a" using uint16_lt [of a] by (auto simp: sint16_cases split: if_splits)
  with False show ?thesis by (simp add: signed_drop_bit_15 mask16_absorb)
qed

lemma mul_us_hi: "(word_of_int (uint a * uint t div 65536) :: u16) - (a AND signed_drop_bit 15 t)
    = word_of_int (uint a * sint t div 65536)" for a t :: u16
  using mul_su_hi [of t a] by (simp add: mult.commute)

lemma mul_su_range: "- 32768 \<le> sint a * uint t div 65536" "sint a * uint t div 65536 < 32767" for a t :: u16
proof -
  have "sint a * uint t \<le> 32767 * 65535"
    using sint16_range [of a] uint16_lt [of t] by (intro mult_mono) auto
  then show "sint a * uint t div 65536 < 32767" by linarith
  have "- sint a * uint t \<le> 32768 * 65535"
    using sint16_range [of a] uint16_lt [of t] by (intro mult_mono) auto
  then show "- 32768 \<le> sint a * uint t div 65536" by linarith
qed

lemma mul_us_range: "- 32768 \<le> uint a * sint t div 65536" "uint a * sint t div 65536 < 32767" for a t :: u16
  using mul_su_range [of t a] by (simp_all add: mult.commute)

lemma saturate_signed: fixes h m :: u16
  shows "(if sint h < 0 then if h \<noteq> 65535 then 32768 else if 0 \<le> sint m then 32768 else m
          else if h \<noteq> 0 then 32767 else if sint m < 0 then 32767 else m)
       = sat_s16 (sint h * 65536 + uint m)"
proof -
  have m1: "(65535 :: u16) = - 1" by simp
  have e: "h = 65535 \<longleftrightarrow> sint h = - 1" "h = 0 \<longleftrightarrow> sint h = 0"
    by (simp_all only: m1 sint16_eq_m1_iff sint16_eq_0_iff)
  define M where "M = uint m"
  have M: "0 \<le> M" "M < 65536" using uint16_lt [of m] by (simp_all add: M_def)
  show ?thesis
    unfolding e using M
    by (simp add: word16_eq_sint sint_sat_s16 sint16_cases [of m] if_distrib [of sint] flip: M_def cong: if_cong)
qed


lemmas mac_defs = VMACF_sisd_def VMACF_simd_def VMADH_sisd_def VMADH_simd_def VMADL_sisd_def VMADL_simd_def
  VMADM_sisd_def VMADM_simd_def VMADN_sisd_def VMADN_simd_def accumulatorSet_def

lemma saturate_unsigned: fixes h m l :: u16
  shows "(if sint h < 0 then if h \<noteq> 65535 then 0 else if 0 \<le> sint m then 0 else l
          else if h \<noteq> 0 then 65535 else if sint m < 0 then 65535 else l)
       = (if signed_drop_bit 15 h = signed_drop_bit 15 m \<and> signed_drop_bit 15 h = h then l
          else mask16 (signed_drop_bit 15 h = 0))"
  by (auto simp: signed_drop_bit_15)

lemma accumulatorSaturate_lanes:
  "accumulatorSaturate s n True 0x8000 0x7fff = sat_s16 (sint (acch s n) * 65536 + uint (accm s n))"
  "accumulatorSaturate s n False 0 0xffff =
     (if signed_drop_bit 15 (acch s n) = signed_drop_bit 15 (accm s n) \<and> signed_drop_bit 15 (acch s n) = acch s n
      then accl s n else mask16 (signed_drop_bit 15 (acch s n) = 0))"
  using saturate_signed saturate_unsigned by (simp_all add: accumulatorSaturate_def Let_def)

lemma madh_words:
  "(ucast (ucast (drop_bit 16 (accumulatorGet s n) + word_of_int k) :: u32) :: u16) = accm s n + word_of_int k"
  "(ucast (drop_bit 16 (ucast (drop_bit 16 (accumulatorGet s n) + word_of_int k) :: u32)) :: u16)
     = acch s n + (word_of_int (k div 65536) - mask16 (\<not> uint (accm s n) + uint (word_of_int k :: u16) < 65536))"
proof -
  let ?h = "uint (acch s n)" and ?m = "uint (accm s n)" and ?l = "uint (accl s n)"
  let ?A = "?h * 4294967296 + ?m * 65536 + ?l"
  have "0 \<le> ?A" "?A < 2 ^ 64"
    using uint16_lt [of "acch s n"] uint16_lt [of "accm s n"] uint16_lt [of "accl s n"] by simp_all
  then have "uint (accumulatorGet s n) = ?A"
    by (simp add: accumulatorGet_int uint_word_of_int mod_pos_pos_trivial del: of_int_add of_int_mult)
  moreover have "?A div 65536 = ?h * 65536 + ?m"
    using uint16_lt [of "accl s n"] by (intro div16_eqI [where r = ?l]) simp_all
  ultimately have "uint (drop_bit 16 (accumulatorGet s n)) = ?h * 65536 + ?m"
    by (simp only: uint_drop_bit) simp
  then have "drop_bit 16 (accumulatorGet s n) = word_of_int (?h * 65536 + ?m)"
    by (metis word_of_int_uint)
  then have "drop_bit 16 (accumulatorGet s n) + word_of_int k = word_of_int (?h * 65536 + (?m + k))"
    by simp
  then have e: "(ucast (drop_bit 16 (accumulatorGet s n) + word_of_int k) :: u32) = word_of_int (?h * 65536 + (?m + k))"
    by (simp only: split_acc)
  have big: "(65536 :: u16) = 0" by simp
  show "(ucast (ucast (drop_bit 16 (accumulatorGet s n) + word_of_int k) :: u32) :: u16) = accm s n + word_of_int k"
    unfolding e split_acc by (simp add: big)
  have "(?h * 65536 + (?m + k)) div 65536 = ?h + (?m + k) div 65536"
    using div_mult_self1 [of 65536 "?m + k" ?h] by (simp add: algebra_simps)
  then show "(ucast (drop_bit 16 (ucast (drop_bit 16 (accumulatorGet s n) + word_of_int k) :: u32)) :: u16)
     = acch s n + (word_of_int (k div 65536) - mask16 (\<not> uint (accm s n) + uint (word_of_int k :: u16) < 65536))"
    unfolding e split_acc by (simp add: minus_mask16 add_carry)
qed

lemma madl_product: "(ucast (drop_bit 16 (word_of_int (uint a * uint t) :: u32)) :: u64) = word_of_int (uint a * uint t div 65536)"
  for a t :: u16
proof -
  have "uint a * uint t \<le> 65535 * 65535"
    using uint16_lt [of a] uint16_lt [of t] by (intro mult_mono) auto
  then have "uint a * uint t mod 4294967296 = uint a * uint t" by (intro mod_pos_pos_trivial) auto
  then have "uint (drop_bit 16 (word_of_int (uint a * uint t) :: u32)) = uint a * uint t div 65536"
    by (simp only: uint_drop_bit uint_word_of_int) simp
  then show ?thesis by (simp only: ucast_eq)
qed

lemma neg_mask16: "- mask16 c = of_bool c"
  by (simp add: mask16_def)

lemma mul_uu_div: "uint a * uint t div 65536 div 65536 = 0" for a t :: u16
proof -
  have "uint a * uint t \<le> 65535 * 65535"
    using uint16_lt [of a] uint16_lt [of t] by (intro mult_mono) auto
  then have "uint a * uint t div 65536 < 65536" by linarith
  moreover have "0 \<le> uint a * uint t div 65536" by (simp add: pos_imp_zdiv_nonneg_iff)
  ultimately show ?thesis by (intro div_pos_pos_trivial) simp_all
qed

lemma of_bool_div: "of_bool c div 65536 = (0 :: int)"
  by (cases c) simp_all

lemma mac_equiv:
  shows "VMADH_simd e vd vs vt s = VMADH_sisd e vd vs vt s"
    and "VMADL_simd e vd vs vt s = VMADL_sisd e vd vs vt s"
    and "VMADM_simd e vd vs vt s = VMADM_sisd e vd vs vt s"
    and "VMADN_simd e vd vs vt s = VMADN_sisd e vd vs vt s"
proof -
  let ?a = "vr s vs" and ?t = "elem_sisd e (vr s vt)"
  have su: "?a n * ?t n = word_of_int (sint (?a n) * uint (?t n))"
    and us: "?a n * ?t n = word_of_int (uint (?a n) * sint (?t n))"
    and ss: "?a n * ?t n = word_of_int (sint (?a n) * sint (?t n))" for n by simp_all
  note ds = mac_defs Let_def elem_equiv lane_simps madl_product mac_words madh_words
  note ws = carry_lane accumulatorSaturate_lanes
  show "VMADH_simd e vd vs vt s = VMADH_sisd e vd vs vt s"
    unfolding ds by (rule wr_eqI) (simp_all add: ws)
  show "VMADL_simd e vd vs vt s = VMADL_sisd e vd vs vt s"
    unfolding ds by (rule wr_eqI) (simp_all add: ws minus_mask16 neg_mask16 add_carry mul_uu_div of_bool_div cong: if_cong)
  show "VMADM_simd e vd vs vt s = VMADM_sisd e vd vs vt s"
    unfolding ds by (rule wr_eqI) (simp_all add: ws mul_su_hi mac_lanes [OF su mul_su_range])
  show "VMADN_simd e vd vs vt s = VMADN_sisd e vd vs vt s"
    unfolding ds by (rule wr_eqI) (simp_all add: ws mul_us_hi mac_lanes [OF us mul_us_range] cong: if_cong)
qed

section \<open>Fractional multiply-accumulate\<close>

lemma succ_div: "(x + of_bool c) div 65536 = x div 65536 + of_bool (c \<and> (x + of_bool c) mod 65536 = 0)" for x :: int
proof (cases "c \<and> x mod 65536 = 65535")
  case True
  then have e: "x + of_bool c = 0 + 65536 * (x div 65536 + 1)"
    using mult_div_mod_eq [of 65536 x] by simp
  show ?thesis using div16_eqI [OF e] mod16_eqI [OF e] True by simp
next
  case False
  then have e: "x + of_bool c = (x mod 65536 + of_bool c) + 65536 * (x div 65536)" by simp
  moreover have r: "0 \<le> x mod 65536 + of_bool c" "x mod 65536 + of_bool c < 65536"
    using False pos_mod_bound [of 65536 x] pos_mod_sign [of 65536 x] by (cases c; simp; fail)+
  moreover have "c \<longrightarrow> x mod 65536 + of_bool c \<noteq> 0" using pos_mod_sign [of 65536 x] by auto
  ultimately show ?thesis using div16_eqI [OF e r] mod16_eqI [OF e r] by simp
qed

lemma mul_ss_range: "- 1073741824 \<le> sint a * sint t" "sint a * sint t \<le> 1073741824" for a t :: u16
proof -
  have b: "\<bar>sint a\<bar> \<le> 32768" "\<bar>sint t\<bar> \<le> 32768"
    using sint16_range [of a] sint16_range [of t] by auto
  have "\<bar>sint a * sint t\<bar> \<le> 32768 * 32768"
    unfolding abs_mult using b by (intro mult_mono) auto
  then show "sint a * sint t \<le> 1073741824" "- 1073741824 \<le> sint a * sint t" by auto
qed

lemma double_mid: "push_bit 1 (word_of_int (p div 65536)) OR drop_bit 15 (word_of_int p) = (word_of_int (p * 2 div 65536) :: u16)"
proof -
  have e: "p * 2 div 65536 = drop_bit 15 p" "p div 65536 = drop_bit 16 p" by (simp_all add: drop_bit_eq_div)
  show ?thesis
    unfolding e
    by (rule bit_word_eqI) (unfold bit_or_iff bit_push_bit_iff bit_drop_bit_eq bit_word_of_int_iff; auto)
qed

lemma double_sign: assumes "- 1073741824 \<le> p" "p \<le> 1073741824"
  shows "signed_drop_bit 15 (word_of_int (p div 65536) :: u16) = word_of_int (p * 2 div 65536 div 65536)"
proof -
  have r: "- 32768 \<le> p div 65536" "p div 65536 < 32768" using assms by linarith+
  have r2: "- 32768 \<le> p * 2 div 65536" "p * 2 div 65536 \<le> 32768" using assms by linarith+
  have "p div 65536 div 65536 = p * 2 div 65536 div 65536"
  proof (cases "p < 0")
    case True
    then have "p div 65536 < 0" "p * 2 div 65536 < 0" by linarith+
    then have "p div 65536 div 65536 = - 1" "p * 2 div 65536 div 65536 = - 1" using r r2 by linarith+
    then show ?thesis by simp
  next
    case False
    then have "0 \<le> p div 65536" "0 \<le> p * 2 div 65536" by linarith+
    then have "p div 65536 div 65536 = 0" "p * 2 div 65536 div 65536 = 0" using r r2 by linarith+
    then show ?thesis by simp
  qed
  with sign_word [OF r] show ?thesis by simp
qed

lemma macf_lanes: fixes a t l m h :: u16
  defines "lo \<equiv> a * t" and "hi \<equiv> word_of_int (sint a * sint t div 65536)" and "k \<equiv> sint a * sint t * 2"
  defines "c \<equiv> \<not> uint l + uint (push_bit 1 lo) < 65536"
  defines "md \<equiv> (push_bit 1 hi OR drop_bit 15 lo) - mask16 c"
  shows "l + push_bit 1 lo = l + word_of_int k"
    and "md = word_of_int ((uint l + k) div 65536)"
    and "h + (signed_drop_bit 15 hi - (mask16 (md = 0) AND mask16 c)) - mask16 (\<not> uint m + uint md < 65536)
       = h + word_of_int ((uint m + (uint l + k) div 65536) div 65536)"
proof -
  have lo: "lo = word_of_int (sint a * sint t)" and lo2: "push_bit 1 lo = word_of_int k"
    by (simp_all add: lo_def k_def push_bit_eq_mult)
  show "l + push_bit 1 lo = l + word_of_int k" by (simp only: lo2)
  have d: "(uint l + k) div 65536 = k div 65536 + of_bool c"
    unfolding c_def lo2 by (rule add_carry)
  show md: "md = word_of_int ((uint l + k) div 65536)"
    unfolding md_def hi_def lo double_mid d minus_mask16 by (simp add: k_def)
  have "md = 0 \<longleftrightarrow> (k div 65536 + of_bool c) mod 65536 = 0"
    unfolding md d by (simp only: word16_eq_iff uint16_of_int unsigned_0)
  then have "signed_drop_bit 15 hi - (mask16 (md = 0) AND mask16 c) = word_of_int ((uint l + k) div 65536 div 65536)"
    unfolding d hi_def double_sign [OF mul_ss_range] succ_div by (simp add: minus_mask16 k_def conj_commute)
  then show "h + (signed_drop_bit 15 hi - (mask16 (md = 0) AND mask16 c)) - mask16 (\<not> uint m + uint md < 65536)
       = h + word_of_int ((uint m + (uint l + k) div 65536) div 65536)"
    by (simp add: minus_mask16 add_carry [of m] md)
qed


lemma macu_lane: fixes h m :: u16
  shows "mask16 (0 < sint h) OR (NOT (signed_drop_bit 15 h) AND (signed_drop_bit 15 m OR m))
    = (if sint h < 0 then 0 else if sint h \<noteq> 0 \<or> sint m < 0 then 0xffff else m)"
  by (auto simp: signed_drop_bit_15)

lemma omask_lane: "mask16 (mask16 (x + y = sat_u16 (uint x + uint y)) = 0) = mask16 (\<not> uint x + uint y < 65536)"
  by (simp add: carry_lane)

lemmas macf_high = macf_lanes(3) [unfolded macf_lanes(2)]

lemma macf_equiv: "VMACF_simd U e vd vs vt s = VMACF_sisd U e vd vs vt s"
  unfolding mac_defs Let_def elem_equiv lane_simps mac_words omask_lane macf_lanes(1,2) macf_high
  by (cases U; simp only: simp_thms if_True if_False; rule wr_eqI)
    (simp_all add: accumulatorSaturate_lanes macu_lane cong: if_cong)

section \<open>Multiply\<close>

lemma drop_bit_15: "drop_bit 15 (w :: u16) = word_of_int (uint w div 32768)"
proof -
  have "uint (drop_bit 15 w) = uint w div 32768" by (simp only: uint_drop_bit) simp
  then show ?thesis by (metis word_of_int_uint)
qed

lemma half_carry: "0 \<le> r \<Longrightarrow> r < 65536 \<Longrightarrow> (32768 + r) div 65536 = r div (32768 :: int)"
proof (cases "r < 32768")
  case True
  moreover assume "0 \<le> r"
  ultimately show ?thesis by (simp add: div_pos_pos_trivial)
next
  case False
  moreover assume "r < 65536"
  ultimately have "(32768 + r) div 65536 = 1" "r div 32768 = 1" by linarith+
  then show ?thesis by simp
qed

lemma double_mid_add: "push_bit 1 (word_of_int (p div 65536)) + drop_bit 15 (word_of_int p) = (word_of_int (p * 2 div 65536) :: u16)"
proof -
  have "push_bit 1 (word_of_int (p div 65536) :: u16) AND drop_bit 15 (word_of_int p) = 0"
    by (rule bit_word_eqI) (unfold bit_and_iff bit_push_bit_iff bit_drop_bit_eq bit_word_of_int_iff; auto)
  then show ?thesis
    using double_mid [of p] by (simp only: disjunctive_add_eq_or)
qed

lemma mulf_mid: fixes a t :: u16
  shows "push_bit 1 (word_of_int (sint a * sint t div 65536)) + (drop_bit 15 (a * t) + drop_bit 15 (a * t + a * t))
       = word_of_int ((sint a * sint t * 2 + 32768) div 65536)"
proof -
  let ?p = "sint a * sint t"
  have e: "a * t = word_of_int ?p" by simp
  have "(?p * 2 + 32768) div 65536 = ?p * 2 div 65536 + (32768 + ?p * 2 mod 65536) div 65536"
    using div_carry [of 32768 "?p * 2"] by (simp add: add.commute)
  also have "(32768 + ?p * 2 mod 65536) div 65536 = uint (a * t + a * t) div 32768"
  proof -
    have "a * t + a * t = word_of_int (?p * 2)" by simp
    then have "uint (a * t + a * t) = ?p * 2 mod 65536" by (simp only: uint16_of_int)
    then show ?thesis using half_carry [OF uint16_ge uint16_lt, of "a * t + a * t"] by simp
  qed
  finally show ?thesis
    using double_mid_add [of ?p, folded e] by (simp add: drop_bit_15 [of "2 * (a * t)"] add.assoc [symmetric])
qed

lemma mulf_range: fixes a t :: u16
  defines "x \<equiv> (sint a * sint t * 2 + 32768) div 65536"
  shows "- 32768 \<le> x" "x \<le> 32768" "a = t \<Longrightarrow> 0 \<le> x" "a \<noteq> t \<Longrightarrow> x < 32768"
    "(sint a * sint t * 2 + 32768) div 4294967296 = x div 65536"
proof -
  show "- 32768 \<le> x" "x \<le> 32768" using mul_ss_range [of a t] unfolding x_def by linarith+
  show "a = t \<Longrightarrow> 0 \<le> x" unfolding x_def by (simp add: pos_imp_zdiv_nonneg_iff)
  show "(sint a * sint t * 2 + 32768) div 4294967296 = x div 65536"
    unfolding x_def by (simp add: div_mult2_eq [symmetric])
  assume "a \<noteq> t"
  then have "\<bar>sint a\<bar> \<le> 32767 \<or> \<bar>sint t\<bar> \<le> 32767"
    using sint16_range [of a] sint16_range [of t] by (auto simp: word16_eq_sint)
  moreover have "\<bar>sint a\<bar> \<le> 32768" "\<bar>sint t\<bar> \<le> 32768"
    using sint16_range [of a] sint16_range [of t] by auto
  ultimately have "\<bar>sint a * sint t\<bar> \<le> 32767 * 32768"
    unfolding abs_mult using mult_mono [of "\<bar>sint a\<bar>" 32767 "\<bar>sint t\<bar>" 32768]
      mult_mono [of "\<bar>sint a\<bar>" 32768 "\<bar>sint t\<bar>" 32767] by auto
  then show "x < 32768" unfolding x_def by linarith
qed

lemma mulf_lanes: fixes a t :: u16
  defines "x \<equiv> (sint a * sint t * 2 + 32768) div 65536"
  shows "NOT (mask16 (a = t)) AND signed_drop_bit 15 (word_of_int x) = (word_of_int (x div 65536) :: u16)"
    and "word_of_int x + (mask16 (a = t) AND signed_drop_bit 15 (word_of_int x)) = sat_s16 x"
    and "sint (word_of_int (x div 65536) :: u16) * 65536 + uint (word_of_int x :: u16) = x"
proof -
  note r = mulf_range [of a t, folded x_def]
  show "NOT (mask16 (a = t)) AND signed_drop_bit 15 (word_of_int x) = (word_of_int (x div 65536) :: u16)"
  proof (cases "a = t")
    case True
    with r have "x div 65536 = 0" by (intro div_pos_pos_trivial) auto
    with True show ?thesis by simp
  next
    case False
    with r show ?thesis by (simp add: sign_word mask16_absorb)
  qed
  show "word_of_int x + (mask16 (a = t) AND signed_drop_bit 15 (word_of_int x)) = sat_s16 x"
  proof (cases "x = 32768")
    case True
    then have "a = t" using r(4) by auto
    with True show ?thesis by (simp add: signed_drop_bit_15 sat_s16_def)
  next
    case False
    with r have "x < 32768" by simp
    with r show ?thesis
      by (cases "a = t") (auto simp: sat_s16_id sign_word mask16_absorb div_pos_pos_trivial)
  qed
  have "x div 65536 = - 1 \<or> x div 65536 = 0" using r(1,2) by linarith
  then show "sint (word_of_int (x div 65536) :: u16) * 65536 + uint (word_of_int x :: u16) = x"
    by (auto simp: uint16_of_int simp flip: minus_div_mult_eq_mod)
qed


lemma mulu_lane: fixes a t m :: u16
  defines "h \<equiv> (word_of_int ((sint a * sint t * 2 + 32768) div 65536 div 65536) :: u16)"
  shows "NOT h AND (m OR signed_drop_bit 15 m)
    = (if sint h < 0 then 0 else if sint (h XOR m) < 0 then 65535 else m)"
proof -
  have "(sint a * sint t * 2 + 32768) div 65536 div 65536 = - 1
      \<or> (sint a * sint t * 2 + 32768) div 65536 div 65536 = 0"
    using mulf_range(1,2) [of a t] by linarith
  then have "h = 0 \<or> h = - 1" by (auto simp: h_def)
  then show ?thesis by (auto simp: signed_drop_bit_15)
qed

lemma round_lane: "NOT (mask 15) + 2 * x = x * 2 + (32768 :: u16)"
  by (simp add: mask_eq_exp_minus_1 not_eq_complement)

lemma mudh_words:
  "(ucast (push_bit 16 (word_of_int k :: u64)) :: u16) = 0"
  "(ucast (drop_bit 16 (push_bit 16 (word_of_int k :: u64))) :: u16) = word_of_int k"
  "(ucast (drop_bit 32 (push_bit 16 (word_of_int k :: u64))) :: u16) = word_of_int (k div 65536)"
proof -
  have e: "push_bit 16 (word_of_int k :: u64) = word_of_int (k * 65536)"
    by (simp add: push_bit_eq_mult)
  have d: "k * 65536 div 4294967296 = k div 65536"
    using div_mult_mult2 [of 65536 k 65536] by simp
  have big: "(65536 :: u16) = 0" by simp
  show "(ucast (push_bit 16 (word_of_int k :: u64)) :: u16) = 0"
    unfolding e split_acc by (simp add: big)
  show "(ucast (drop_bit 16 (push_bit 16 (word_of_int k :: u64))) :: u16) = word_of_int k"
    unfolding e split_acc by simp
  show "(ucast (drop_bit 32 (push_bit 16 (word_of_int k :: u64))) :: u16) = word_of_int (k div 65536)"
    unfolding e split_acc d ..
qed

lemma low_words:
  "(ucast (ucast x :: u64) :: u16) = x"
  "(ucast (drop_bit 16 (ucast x :: u64)) :: u16) = 0"
  "(ucast (drop_bit 32 (ucast x :: u64)) :: u16) = 0" for x :: u16
  by (rule bit_word_eqI; auto simp: bit_ucast_iff bit_drop_bit_eq dest: bit_imp_le_length)+

lemma div16_div16: "(k :: int) div 65536 div 65536 = k div 4294967296"
  using zdiv_zmult2_eq [of 65536 k 65536] by simp

lemma mul_sign: fixes a t :: u16
  shows "signed_drop_bit 15 (word_of_int (sint a * uint t div 65536) :: u16) = word_of_int (sint a * uint t div 4294967296)"
    and "signed_drop_bit 15 (word_of_int (uint a * sint t div 65536) :: u16) = word_of_int (uint a * sint t div 4294967296)"
  using mul_su_range [of a t] mul_us_range [of a t] by (simp_all add: sign_word div16_div16)

lemmas mul_defs = VMULF_sisd_def VMULF_simd_def VMUDH_sisd_def VMUDH_simd_def VMUDL_sisd_def VMUDL_simd_def
  VMUDM_sisd_def VMUDM_simd_def VMUDN_sisd_def VMUDN_simd_def accumulatorSet_def

lemma mulf_equiv: "VMULF_simd U e vd vs vt s = VMULF_sisd U e vd vs vt s"
  unfolding mul_defs Let_def elem_equiv lane_simps split_acc mulf_mid mulf_lanes mulf_range(5)
  by (cases U; simp only: simp_thms if_True if_False; rule wr_eqI)
    (simp_all add: accumulatorSaturate_lanes mulf_lanes mulu_lane round_lane cong: if_cong)

lemma mul_equiv:
  shows "VMUDH_simd e vd vs vt s = VMUDH_sisd e vd vs vt s"
    and "VMUDL_simd e vd vs vt s = VMUDL_sisd e vd vs vt s"
    and "VMUDM_simd e vd vs vt s = VMUDM_sisd e vd vs vt s"
    and "VMUDN_simd e vd vs vt s = VMUDN_sisd e vd vs vt s"
proof -
  note ds = mul_defs Let_def elem_equiv lane_simps split_acc mudh_words low_words
  show "VMUDH_simd e vd vs vt s = VMUDH_sisd e vd vs vt s"
    unfolding ds by (rule wr_eqI) (simp_all add: accumulatorSaturate_lanes)
  show "VMUDL_simd e vd vs vt s = VMUDL_sisd e vd vs vt s"
    unfolding ds by (rule wr_eqI) (simp_all)
  show "VMUDM_simd e vd vs vt s = VMUDM_sisd e vd vs vt s"
    unfolding ds by (rule wr_eqI) (simp_all add: mul_su_hi mul_sign)
  show "VMUDN_simd e vd vs vt s = VMUDN_sisd e vd vs vt s"
    unfolding ds by (rule wr_eqI) (simp_all add: mul_us_hi mul_sign)
qed

end
