(* ===== verification/ByteStore.thy ===== *)
theory ByteStore
  imports Prelude
begin

text \<open>
  The interface of byte-addressed storage: an operation that reads a cell, one that writes a
  cell, and the cell an address denotes. Several addresses may denote the same cell, as DMEM
  addresses do modulo 4 KiB. What a loop of writes leaves in the store is proved once here;
  vector registers, DMEM and the save file are instances.
\<close>

locale byte_store =
  fixes rd :: "'m \<Rightarrow> 'a \<Rightarrow> 'v" and wr :: "'m \<Rightarrow> 'a \<Rightarrow> 'v \<Rightarrow> 'm" and cell :: "'a \<Rightarrow> 'c"
  assumes rd_wr: "rd (wr m a v) b = (if cell a = cell b then v else rd m b)"
begin

lemma rd_fold_other:
  "\<forall>k \<in> set ks. cell (adr k) \<noteq> cell b \<Longrightarrow> rd (fold (\<lambda>k m. wr m (adr k) (val k)) ks m) b = rd m b"
  by (induction ks arbitrary: m) (simp_all add: rd_wr)

lemma rd_fold_hit:
  assumes "distinct (map (\<lambda>k. cell (adr k)) ks)" "k \<in> set ks" "cell (adr k) = cell b"
  shows "rd (fold (\<lambda>k m. wr m (adr k) (val k)) ks m) b = val k"
  using assms
proof (induction ks arbitrary: m)
  case (Cons j ks)
  show ?case
  proof (cases "k = j")
    case True
    with Cons.prems have "\<forall>i \<in> set ks. cell (adr i) \<noteq> cell b" by force
    then show ?thesis using Cons.prems True by (simp add: rd_fold_other rd_wr)
  next
    case False
    with Cons show ?thesis by simp
  qed
qed simp

text \<open>A loop that writes \<open>n\<close> different cells: each holds the value of its iteration.\<close>

lemma rd_fold_upt:
  assumes "inj_on (\<lambda>k. cell (adr k)) {0..<n}" "i < n" "cell (adr i) = cell b"
  shows "rd (fold (\<lambda>k m. wr m (adr k) (val k)) [0..<n] m) b = val i"
  using assms by (intro rd_fold_hit) (auto simp: distinct_map)

lemma rd_fold_upt_other:
  assumes "\<And>i. i < n \<Longrightarrow> cell (adr i) \<noteq> cell b"
  shows "rd (fold (\<lambda>k m. wr m (adr k) (val k)) [0..<n] m) b = rd m b"
  using assms by (intro rd_fold_other) auto

end

end
