(* ===== verification/RspMemory.thy ===== *)
theory RspMemory
  imports RspVectorMul ByteStore
begin

text \<open>
  DMEM and the instructions that move data between DMEM, the scalar registers and the vector
  unit (\<^verbatim>\<open>librecomp/rsp.hpp\<close>, the load and store half of \<^verbatim>\<open>rsp_vu_impl.hpp\<close>), and
  the SP DMA engine. DMEM is the 4 KiB array \<^verbatim>\<open>dmem\<close>; byte address \<open>a\<close> lives at index
  \<open>0xFFF & (a ^ 3)\<close>, since the host stores words little endian.
\<close>

type_synonym dmem = "12 word \<Rightarrow> u8"

section \<open>DMEM accessors\<close>

definition RSP_MEM_B :: "dmem \<Rightarrow> u32 \<Rightarrow> u32 \<Rightarrow> u8" where
  "RSP_MEM_B d offset addr = d (ucast ((offset + addr) XOR 3))"

definition RSP_MEM_B_set :: "dmem \<Rightarrow> u32 \<Rightarrow> u32 \<Rightarrow> u8 \<Rightarrow> dmem" where
  "RSP_MEM_B_set d offset addr b = d(ucast ((offset + addr) XOR 3) := b)"

abbreviation mem_b :: "dmem \<Rightarrow> u32 \<Rightarrow> u8" where "mem_b d addr \<equiv> RSP_MEM_B d 0 addr"
abbreviation mem_b_set :: "dmem \<Rightarrow> u32 \<Rightarrow> u8 \<Rightarrow> dmem" where "mem_b_set d addr b \<equiv> RSP_MEM_B_set d 0 addr b"

text \<open>Byte \<open>i\<close> of a host integer (\<^verbatim>\<open>value_bytes[i]\<close>), and the integer with that byte replaced.\<close>

definition val_byte :: "nat \<Rightarrow> u32 \<Rightarrow> u8" where
  "val_byte i x = ucast (drop_bit (8 * i) x)"

definition set_val_byte :: "nat \<Rightarrow> u8 \<Rightarrow> u32 \<Rightarrow> u32" where
  "set_val_byte i b x = (x AND NOT (push_bit (8 * i) 0xFF)) OR push_bit (8 * i) (ucast b)"

definition RSP_MEM_W_LOAD :: "dmem \<Rightarrow> u32 \<Rightarrow> u32 \<Rightarrow> u32" where
  "RSP_MEM_W_LOAD d offset addr =
     fold (\<lambda>i v. set_val_byte (3 - i) (RSP_MEM_B d (offset + of_nat i) addr) v) [0..<4] 0"

definition RSP_MEM_W_STORE :: "dmem \<Rightarrow> u32 \<Rightarrow> u32 \<Rightarrow> u32 \<Rightarrow> dmem" where
  "RSP_MEM_W_STORE d offset addr val =
     fold (\<lambda>i d. RSP_MEM_B_set d (offset + of_nat i) addr (val_byte (3 - i) val)) [0..<4] d"

definition RSP_MEM_HU_LOAD :: "dmem \<Rightarrow> u32 \<Rightarrow> u32 \<Rightarrow> u32" where
  "RSP_MEM_HU_LOAD d offset addr =
     fold (\<lambda>i v. set_val_byte (1 - i) (RSP_MEM_B d (offset + of_nat i) addr) v) [0..<2] 0"

definition RSP_MEM_H_LOAD :: "dmem \<Rightarrow> u32 \<Rightarrow> u32 \<Rightarrow> u32" where
  "RSP_MEM_H_LOAD d offset addr = scast (ucast (RSP_MEM_HU_LOAD d offset addr) :: u16)"

definition RSP_MEM_H_STORE :: "dmem \<Rightarrow> u32 \<Rightarrow> u32 \<Rightarrow> u32 \<Rightarrow> dmem" where
  "RSP_MEM_H_STORE d offset addr val =
     fold (\<lambda>i d. RSP_MEM_B_set d (offset + of_nat i) addr (val_byte (1 - i) val)) [0..<2] d"

section \<open>Vector loads\<close>

text \<open>\<open>rs + imm * scale\<close> in 32 bits; \<open>imm\<close> is the signed 7-bit field, held in an \<^verbatim>\<open>s8\<close>.\<close>

definition ea :: "u32 \<Rightarrow> u8 \<Rightarrow> u32 \<Rightarrow> u32" where
  "ea rs imm scale = rs + scast imm * scale"

text \<open>The loop \<^verbatim>\<open>vt.byte(offset & 15) = RSP_MEM_B(0, address++)\<close> for \<open>offset\<close> from \<open>start\<close>.\<close>

definition load_bytes :: "dmem \<Rightarrow> nat \<Rightarrow> nat \<Rightarrow> u32 \<Rightarrow> r128 \<Rightarrow> r128" where
  "load_bytes d start n address v =
     fold (\<lambda>k v. set_byte (of_nat (start + k)) (mem_b d (address + of_nat k)) v) [0..<n] v"

definition LBV :: "lbyte \<Rightarrow> dmem \<Rightarrow> vreg \<Rightarrow> u32 \<Rightarrow> u8 \<Rightarrow> vu \<Rightarrow> vu" where
  "LBV e d vt rs imm s = (let address = ea rs imm 1 in wr vt (set_byte e (mem_b d address) (vr s vt)) s)"

definition LDV :: "lbyte \<Rightarrow> dmem \<Rightarrow> vreg \<Rightarrow> u32 \<Rightarrow> u8 \<Rightarrow> vu \<Rightarrow> vu" where
  "LDV e d vt rs imm s = (let address = ea rs imm 8; start = unat e; stop = min (start + 8) 16
     in wr vt (load_bytes d start (stop - start) address (vr s vt)) s)"

definition LLV :: "lbyte \<Rightarrow> dmem \<Rightarrow> vreg \<Rightarrow> u32 \<Rightarrow> u8 \<Rightarrow> vu \<Rightarrow> vu" where
  "LLV e d vt rs imm s = (let address = ea rs imm 4; start = unat e; stop = min (start + 4) 16
     in wr vt (load_bytes d start (stop - start) address (vr s vt)) s)"

definition LSV :: "lbyte \<Rightarrow> dmem \<Rightarrow> vreg \<Rightarrow> u32 \<Rightarrow> u8 \<Rightarrow> vu \<Rightarrow> vu" where
  "LSV e d vt rs imm s = (let address = ea rs imm 2; start = unat e; stop = min (start + 2) 16
     in wr vt (load_bytes d start (stop - start) address (vr s vt)) s)"

definition LQV :: "lbyte \<Rightarrow> dmem \<Rightarrow> vreg \<Rightarrow> u32 \<Rightarrow> u8 \<Rightarrow> vu \<Rightarrow> vu" where
  "LQV e d vt rs imm s = (let address = ea rs imm 16; start = unat e;
     stop = min (16 + unat e - unat (address AND 15)) 16
     in wr vt (load_bytes d start (stop - start) address (vr s vt)) s)"

text \<open>\<open>start\<close> is unsigned: where \<open>e\<close> exceeds \<open>address & 15\<close> it is above 16 and nothing is loaded.\<close>

definition LRV :: "lbyte \<Rightarrow> dmem \<Rightarrow> vreg \<Rightarrow> u32 \<Rightarrow> u8 \<Rightarrow> vu \<Rightarrow> vu" where
  "LRV e d vt rs imm s = (let address = ea rs imm 16;
     start = unat (16 - ((address AND 15) - ucast e) :: u32);
     address = address AND NOT 15
     in wr vt (load_bytes d start (16 - start) address (vr s vt)) s)"

definition packed :: "dmem \<Rightarrow> nat \<Rightarrow> u32 \<Rightarrow> u16" where
  "packed d k address = push_bit k (scast (mem_b d address))"

definition LHV :: "lbyte \<Rightarrow> dmem \<Rightarrow> vreg \<Rightarrow> u32 \<Rightarrow> u8 \<Rightarrow> vu \<Rightarrow> vu" where
  "LHV e d vt rs imm s = (let address = ea rs imm 16; index = (address AND 7) - ucast e;
     address = address AND NOT 7
     in wr vt (\<lambda>n. packed d 7 (address + ((index + ucast n * 2) AND 15))) s)"

definition LPV :: "lbyte \<Rightarrow> dmem \<Rightarrow> vreg \<Rightarrow> u32 \<Rightarrow> u8 \<Rightarrow> vu \<Rightarrow> vu" where
  "LPV e d vt rs imm s = (let address = ea rs imm 8; index = (address AND 7) - ucast e;
     address = address AND NOT 7
     in wr vt (\<lambda>n. packed d 8 (address + ((index + ucast n) AND 15))) s)"

definition LUV :: "lbyte \<Rightarrow> dmem \<Rightarrow> vreg \<Rightarrow> u32 \<Rightarrow> u8 \<Rightarrow> vu \<Rightarrow> vu" where
  "LUV e d vt rs imm s = (let address = ea rs imm 8; index = (address AND 7) - ucast e;
     address = address AND NOT 7
     in wr vt (\<lambda>n. packed d 7 (address + ((index + ucast n) AND 15))) s)"

definition LFV :: "lbyte \<Rightarrow> dmem \<Rightarrow> vreg \<Rightarrow> u32 \<Rightarrow> u8 \<Rightarrow> vu \<Rightarrow> vu" where
  "LFV e d vt rs imm s = (let address = ea rs imm 16; index = (address AND 7) - ucast e;
     address = address AND NOT 7; start = unat e; stop = min (start + 8) 16;
     tmp = (\<lambda>n :: lane. if n < 4 then packed d 7 (address + ((index + ucast n * 4) AND 15))
                        else packed d 7 (address + ((index + ucast (n - 4) * 4 + 8) AND 15)))
     in wr vt (fold (\<lambda>offset v. set_byte (of_nat offset) (get_byte tmp (of_nat offset)) v) [start..<stop] (vr s vt)) s)"

definition LWV :: "lbyte \<Rightarrow> dmem \<Rightarrow> vreg \<Rightarrow> u32 \<Rightarrow> u8 \<Rightarrow> vu \<Rightarrow> vu" where
  "LWV e d vt rs imm s = (let address = ea rs imm 16; start = 16 - unat e; stop = unat e + 16
     in wr vt (fold (\<lambda>k v. set_byte (of_nat (start + k)) (mem_b d (address + 4 * of_nat k)) v)
                 [0..<stop - start] (vr s vt)) s)"

text \<open>One iteration of the transposing load: two bytes, each followed by the wrap at \<open>begin + 16\<close>.\<close>

definition ltv_step :: "dmem \<Rightarrow> u32 \<Rightarrow> vreg \<Rightarrow> nat \<Rightarrow> u32 \<times> vreg \<times> vu \<Rightarrow> u32 \<times> vreg \<times> vu" where
  "ltv_step d begin vtbase i = (\<lambda>(address, vtoff, s). (let r = vtbase + vtoff;
     s = wr r (set_byte (of_nat (i * 2)) (mem_b d address) (vr s r)) s;
     address = address + 1; address = (if address = begin + 16 then begin else address);
     s = wr r (set_byte (of_nat (i * 2 + 1)) (mem_b d address) (vr s r)) s;
     address = address + 1; address = (if address = begin + 16 then begin else address)
     in (address, (vtoff + 1) AND 7, s)))"

definition LTV :: "lbyte \<Rightarrow> dmem \<Rightarrow> vreg \<Rightarrow> u32 \<Rightarrow> u8 \<Rightarrow> vu \<Rightarrow> vu" where
  "LTV e d vt rs imm s = (let address = ea rs imm 16; begin = address AND NOT 7;
     address = begin + ((ucast e + (address AND 8)) AND 15);
     vtbase = vt AND NOT 7; vtoff = ucast (drop_bit 1 e)
     in snd (snd (fold (ltv_step d begin vtbase) [0..<8] (address, vtoff, s))))"

section \<open>Register moves\<close>

definition MFC2 :: "lbyte \<Rightarrow> vreg \<Rightarrow> vu \<Rightarrow> u32" where
  "MFC2 e vs s = scast (mk16 (get_byte (vr s vs) e) (get_byte (vr s vs) (e + 1)))"

definition MTC2 :: "lbyte \<Rightarrow> u32 \<Rightarrow> vreg \<Rightarrow> vu \<Rightarrow> vu" where
  "MTC2 e rt vs s = (let v = set_byte e (ucast (drop_bit 8 rt)) (vr s vs);
     v = (if e \<noteq> 15 then set_byte (e + 1) (ucast rt) v else v) in wr vs v s)"

text \<open>\<^verbatim>\<open>switch (rd & 3)\<close> of the control-register moves: the high and the low flag register.\<close>

definition ctrl_get :: "u8 \<Rightarrow> vu \<Rightarrow> r128 \<times> r128" where
  "ctrl_get rd s = (if rd AND 3 = 0 then (vcoh s, vcol s) else if rd AND 3 = 1 then (vcch s, vccl s)
     else (vzero, vce s))"

definition ctrl_set :: "u8 \<Rightarrow> r128 \<Rightarrow> r128 \<Rightarrow> vu \<Rightarrow> vu" where
  "ctrl_set rd hi lo s = (if rd AND 3 = 0 then s\<lparr>vcoh := hi, vcol := lo\<rparr>
     else if rd AND 3 = 1 then s\<lparr>vcch := hi, vccl := lo\<rparr> else s\<lparr>vce := lo\<rparr>)"

definition CFC2_sisd :: "u8 \<Rightarrow> vu \<Rightarrow> u32" where
  "CFC2_sisd rd s = (let (hi, lo) = ctrl_get rd s;
     rt = fold (\<lambda>n rt. (rt OR push_bit n (of_bool (flag_get lo (of_nat n))))
                          OR push_bit (8 + n) (of_bool (flag_get hi (of_nat n)))) [0..<8] (0 :: u32)
     in scast (ucast rt :: u16))"

definition CFC2_simd :: "u8 \<Rightarrow> vu \<Rightarrow> u32" where
  "CFC2_simd rd s = (let (hi, lo) = ctrl_get rd s;
     reverse = mm_set_epi8 [0, 1, 2, 3, 4, 5, 6, 7, 8, 9, 10, 11, 12, 13, 14, 15]
     in scast (ucast (mm_movemask_epi8 (mm_shuffle_epi8 (mm_packs_epi16 hi lo) reverse)) :: u16))"

definition CTC2_sisd :: "u32 \<Rightarrow> u8 \<Rightarrow> vu \<Rightarrow> vu" where
  "CTC2_sisd rt rd s = ctrl_set rd (\<lambda>n. mask16 (bit rt (8 + unat n))) (\<lambda>n. mask16 (bit rt (unat n))) s"

text \<open>\<^verbatim>\<open>r128{x}\<close> for a 32-bit \<open>x\<close>: the value in the low host lanes, zero above.\<close>

definition r128_of_u32 :: "u32 \<Rightarrow> r128" where
  "r128_of_u32 x = of_host_lanes (\<lambda>j. if j = 0 then ucast x else if j = 1 then ucast (drop_bit 16 x) else 0)"

definition ctc2_mask :: r128 where
  "ctc2_mask = mm_set_epi16 [0x0101, 0x0202, 0x0404, 0x0808, 0x1010, 0x2020, 0x4040, 0x8080]"

definition CTC2_simd :: "u32 \<Rightarrow> u8 \<Rightarrow> vu \<Rightarrow> vu" where
  "CTC2_simd rt rd s = (let
     lo = mm_cmpeq_epi8 (mm_and_si128 (mm_shuffle_epi8 (r128_of_u32 (NOT rt)) (host_byte vzero)) ctc2_mask) vzero;
     hi = mm_cmpeq_epi8 (mm_and_si128 (mm_shuffle_epi8 (r128_of_u32 (drop_bit 8 (NOT rt))) (host_byte vzero)) ctc2_mask) vzero
     in ctrl_set rd hi lo s)"

section \<open>Vector stores\<close>

text \<open>The loop \<^verbatim>\<open>RSP_MEM_B(0, address++) = vt.byte(offset & 15)\<close> over \<open>n\<close> bytes from \<open>start\<close>.\<close>

definition store_bytes :: "r128 \<Rightarrow> nat \<Rightarrow> nat \<Rightarrow> u32 \<Rightarrow> dmem \<Rightarrow> dmem" where
  "store_bytes v start n address d =
     fold (\<lambda>k d. mem_b_set d (address + of_nat k) (get_byte v (of_nat (start + k)))) [0..<n] d"

definition SBV :: "lbyte \<Rightarrow> r128 \<Rightarrow> u32 \<Rightarrow> u8 \<Rightarrow> dmem \<Rightarrow> dmem" where
  "SBV e v rs imm d = mem_b_set d (ea rs imm 1) (get_byte v e)"

definition SDV :: "lbyte \<Rightarrow> r128 \<Rightarrow> u32 \<Rightarrow> u8 \<Rightarrow> dmem \<Rightarrow> dmem" where
  "SDV e v rs imm d = store_bytes v (unat e) 8 (ea rs imm 8) d"

definition SLV :: "lbyte \<Rightarrow> r128 \<Rightarrow> u32 \<Rightarrow> u8 \<Rightarrow> dmem \<Rightarrow> dmem" where
  "SLV e v rs imm d = store_bytes v (unat e) 4 (ea rs imm 4) d"

definition SSV :: "lbyte \<Rightarrow> r128 \<Rightarrow> u32 \<Rightarrow> u8 \<Rightarrow> dmem \<Rightarrow> dmem" where
  "SSV e v rs imm d = store_bytes v (unat e) 2 (ea rs imm 2) d"

definition SQV :: "lbyte \<Rightarrow> r128 \<Rightarrow> u32 \<Rightarrow> u8 \<Rightarrow> dmem \<Rightarrow> dmem" where
  "SQV e v rs imm d = (let address = ea rs imm 16 in
     store_bytes v (unat e) (16 - unat (address AND 15)) address d)"

definition SRV :: "lbyte \<Rightarrow> r128 \<Rightarrow> u32 \<Rightarrow> u8 \<Rightarrow> dmem \<Rightarrow> dmem" where
  "SRV e v rs imm d = (let address = ea rs imm 16; n = unat (address AND 15); base = 16 - n;
     address = address AND NOT 15
     in fold (\<lambda>k d. mem_b_set d (address + of_nat k) (get_byte v (of_nat (unat e + k + base)))) [0..<n] d)"

text \<open>The elements stored by each selector of \<^verbatim>\<open>SFV\<close>; the other selectors store zeros.\<close>

definition sfv_elements :: "lbyte \<Rightarrow> lane list option" where
  "sfv_elements e = (if e = 0 \<or> e = 15 then Some [0, 1, 2, 3] else if e = 1 then Some [6, 7, 4, 5]
     else if e = 4 then Some [1, 2, 3, 0] else if e = 5 then Some [7, 4, 5, 6]
     else if e = 8 then Some [4, 5, 6, 7] else if e = 11 then Some [3, 0, 1, 2]
     else if e = 12 then Some [5, 6, 7, 4] else None)"

definition SFV :: "lbyte \<Rightarrow> r128 \<Rightarrow> u32 \<Rightarrow> u8 \<Rightarrow> dmem \<Rightarrow> dmem" where
  "SFV e v rs imm d = (let address = ea rs imm 16; base = address AND 7; address = address AND NOT 7;
     value = (\<lambda>k. case sfv_elements e of Some ns \<Rightarrow> ucast (drop_bit 7 (v (ns ! k))) | None \<Rightarrow> 0)
     in fold (\<lambda>k d. mem_b_set d (address + ((base + 4 * of_nat k) AND 15)) (value k)) [0..<4] d)"

definition SHV :: "lbyte \<Rightarrow> r128 \<Rightarrow> u32 \<Rightarrow> u8 \<Rightarrow> dmem \<Rightarrow> dmem" where
  "SHV e v rs imm d = (let address = ea rs imm 16; index = address AND 7; address = address AND NOT 7
     in fold (\<lambda>k d. (let byte = e + 2 * of_nat k;
          value = push_bit 1 (get_byte v byte) OR drop_bit 7 (get_byte v (byte + 1))
          in mem_b_set d (address + ((index + 2 * of_nat k) AND 15)) value)) [0..<8] d)"

definition SPV :: "lbyte \<Rightarrow> r128 \<Rightarrow> u32 \<Rightarrow> u8 \<Rightarrow> dmem \<Rightarrow> dmem" where
  "SPV e v rs imm d = (let address = ea rs imm 8 in
     fold (\<lambda>k d. (let offset = e + of_nat k in
       mem_b_set d (address + of_nat k)
         (if offset < 8 then get_byte v (push_bit 1 (offset AND 7))
          else ucast (drop_bit 7 (v (ucast offset)))))) [0..<8] d)"

definition SUV :: "lbyte \<Rightarrow> r128 \<Rightarrow> u32 \<Rightarrow> u8 \<Rightarrow> dmem \<Rightarrow> dmem" where
  "SUV e v rs imm d = (let address = ea rs imm 8 in
     fold (\<lambda>k d. (let offset = e + of_nat k in
       mem_b_set d (address + of_nat k)
         (if offset < 8 then ucast (drop_bit 7 (v (ucast offset)))
          else get_byte v (push_bit 1 (offset AND 7))))) [0..<8] d)"

definition SWV :: "lbyte \<Rightarrow> r128 \<Rightarrow> u32 \<Rightarrow> u8 \<Rightarrow> dmem \<Rightarrow> dmem" where
  "SWV e v rs imm d = (let address = ea rs imm 16; base = address AND 7; address = address AND NOT 7
     in fold (\<lambda>k d. mem_b_set d (address + ((base + of_nat k) AND 15)) (get_byte v (e + of_nat k))) [0..<16] d)"

text \<open>Each iteration stores two bytes of one register; \<open>base\<close> and \<open>element\<close> advance by two.\<close>

definition STV :: "lbyte \<Rightarrow> vreg \<Rightarrow> u32 \<Rightarrow> u8 \<Rightarrow> vu \<Rightarrow> dmem \<Rightarrow> dmem" where
  "STV e vt rs imm s d = (let address = ea rs imm 16; start = vt AND NOT 7;
     element = 16 - (unat e - unat e mod 2); base = (address AND 7) - ucast (e AND NOT 1);
     address = address AND NOT 7
     in fold (\<lambda>k d. (let r = vr s (start + of_nat k);
          d = mem_b_set d (address + ((base + of_nat (2 * k)) AND 15)) (get_byte r (of_nat (element + 2 * k)))
          in mem_b_set d (address + ((base + of_nat (2 * k + 1)) AND 15)) (get_byte r (of_nat (element + 2 * k + 1)))))
        [0..<8] d)"

section \<open>The SP DMA engine\<close>

definition rsp_dma_block_len :: "u32 \<Rightarrow> u32" where "rsp_dma_block_len len_reg = (len_reg AND 0xFF8) + 8"
definition rsp_dma_count :: "u32 \<Rightarrow> u32" where "rsp_dma_count len_reg = drop_bit 12 len_reg AND 0xFF"
definition rsp_dma_skip :: "u32 \<Rightarrow> u32" where "rsp_dma_skip len_reg = drop_bit 20 len_reg AND 0xFF8"
definition rsp_dma_pbus_increment :: "u32 \<Rightarrow> u32" where
  "rsp_dma_pbus_increment len_reg = (rsp_dma_count len_reg + 1) * rsp_dma_block_len len_reg"
definition rsp_dma_dram_increment :: "u32 \<Rightarrow> u32" where
  "rsp_dma_dram_increment len_reg = rsp_dma_pbus_increment len_reg + rsp_dma_count len_reg * rsp_dma_skip len_reg"

text \<open>
  RDRAM is reached through the \<^verbatim>\<open>MEM_B\<close> macro of the recompiler's \<^verbatim>\<open>recomp.h\<close>, which is
  not part of this repository: \<open>rd\<close> and \<open>st\<close> are its read and write side on the 32-bit
  KSEG0 address.
\<close>

definition dma_block_in :: "('m \<Rightarrow> u32 \<Rightarrow> u8) \<Rightarrow> 'm \<Rightarrow> u32 \<Rightarrow> u32 \<Rightarrow> u32 \<Rightarrow> dmem \<Rightarrow> dmem" where
  "dma_block_in rd m cur_dmem cur_dram block_len d =
     fold (\<lambda>i d. RSP_MEM_B_set d (of_nat i) cur_dmem (rd m (cur_dram + of_nat i + 0x80000000))) [0..<unat block_len] d"

definition dma_block_out :: "('m \<Rightarrow> u32 \<Rightarrow> u8 \<Rightarrow> 'm) \<Rightarrow> dmem \<Rightarrow> u32 \<Rightarrow> u32 \<Rightarrow> u32 \<Rightarrow> 'm \<Rightarrow> 'm" where
  "dma_block_out st d cur_dmem cur_dram block_len m =
     fold (\<lambda>i m. st m (cur_dram + of_nat i + 0x80000000) (RSP_MEM_B d (of_nat i) cur_dmem)) [0..<unat block_len] m"

text \<open>The row loop: \<open>f\<close> copies one block, then both cursors advance and wrap.\<close>

definition dma_rows :: "(u32 \<Rightarrow> u32 \<Rightarrow> 's \<Rightarrow> 's) \<Rightarrow> u32 \<Rightarrow> u32 \<Rightarrow> u32 \<Rightarrow> 's \<Rightarrow> 's" where
  "dma_rows f dmem_addr dram_addr len_reg s = (let
     block_len = rsp_dma_block_len len_reg; count = rsp_dma_count len_reg; skip = rsp_dma_skip len_reg
     in snd (snd (fold (\<lambda>block (cur_dmem, cur_dram, s). (let
          s = f cur_dmem cur_dram s;
          cur_dmem = (cur_dmem + block_len) AND 0x0FFF;
          cur_dram = (cur_dram + block_len) AND 0xFFFFF8;
          cur_dram = (if block \<noteq> unat count then (cur_dram + skip) AND 0xFFFFF8 else cur_dram)
          in (cur_dmem, cur_dram, s))) [0..<unat count + 1] (dmem_addr AND 0x0FF8, dram_addr AND 0xFFFFF8, s))))"

definition dma_rdram_to_dmem :: "('m \<Rightarrow> u32 \<Rightarrow> u8) \<Rightarrow> 'm \<Rightarrow> u32 \<Rightarrow> u32 \<Rightarrow> u32 \<Rightarrow> dmem \<Rightarrow> dmem" where
  "dma_rdram_to_dmem rd m dmem_addr dram_addr rd_len d =
     dma_rows (\<lambda>cm cr. dma_block_in rd m cm cr (rsp_dma_block_len rd_len)) dmem_addr dram_addr rd_len d"

definition dma_dmem_to_rdram :: "('m \<Rightarrow> u32 \<Rightarrow> u8 \<Rightarrow> 'm) \<Rightarrow> dmem \<Rightarrow> u32 \<Rightarrow> u32 \<Rightarrow> u32 \<Rightarrow> 'm \<Rightarrow> 'm" where
  "dma_dmem_to_rdram st d dmem_addr dram_addr wr_len m =
     dma_rows (\<lambda>cm cr. dma_block_out st d cm cr (rsp_dma_block_len wr_len)) dmem_addr dram_addr wr_len m"

text \<open>\<^verbatim>\<open>DO_DMA_READ\<close> and \<^verbatim>\<open>DO_DMA_WRITE\<close>: the transfer, then both address registers advance.\<close>

definition DO_DMA_READ :: "('m \<Rightarrow> u32 \<Rightarrow> u8) \<Rightarrow> 'm \<Rightarrow> u32 \<Rightarrow> u32 \<times> u32 \<times> dmem \<Rightarrow> u32 \<times> u32 \<times> dmem" where
  "DO_DMA_READ rd m rd_len = (\<lambda>(mem_addr, dram_addr, d).
     (mem_addr + rsp_dma_pbus_increment rd_len, dram_addr + rsp_dma_dram_increment rd_len,
      dma_rdram_to_dmem rd m mem_addr dram_addr rd_len d))"

definition DO_DMA_WRITE :: "('m \<Rightarrow> u32 \<Rightarrow> u8 \<Rightarrow> 'm) \<Rightarrow> dmem \<Rightarrow> u32 \<Rightarrow> u32 \<times> u32 \<times> 'm \<Rightarrow> u32 \<times> u32 \<times> 'm" where
  "DO_DMA_WRITE st d wr_len = (\<lambda>(mem_addr, dram_addr, m).
     (mem_addr + rsp_dma_pbus_increment wr_len, dram_addr + rsp_dma_dram_increment wr_len,
      dma_dmem_to_rdram st d mem_addr dram_addr wr_len m))"

end
