(* ===== verification/RspMemoryProps.thy ===== *)
theory RspMemoryProps
  imports RspMemory RspVectorEquiv
begin

text \<open>
  What the vector loads and stores move: a register and DMEM are byte stores, a load or store
  is a window of bytes, and a store followed by the matching load gives the bytes back. The
  pair \<^verbatim>\<open>LQV\<close>/\<^verbatim>\<open>LRV\<close> and the pair \<^verbatim>\<open>SQV\<close>/\<^verbatim>\<open>SRV\<close> move the whole register at any alignment.
\<close>

section \<open>Registers and DMEM as byte stores\<close>

lemma lbyte_eq: "i = j \<longleftrightarrow> (ucast (drop_bit 1 i) :: lane) = ucast (drop_bit 1 j) \<and> (even i \<longleftrightarrow> even j)"
  for i j :: lbyte
proof
  assume *: "(ucast (drop_bit 1 i) :: lane) = ucast (drop_bit 1 j) \<and> (even i \<longleftrightarrow> even j)"
  have "bit i n = bit j n" if "n < 4" for n
  proof (cases n)
    case 0
    with * show ?thesis by (simp add: bit_0)
  next
    case (Suc k)
    have "bit (ucast (drop_bit 1 i) :: lane) k = bit (ucast (drop_bit 1 j) :: lane) k" using * by simp
    with Suc that show ?thesis by (simp add: bit_ucast_iff bit_drop_bit_eq)
  qed
  then show "i = j" by (intro bit_word_eqI) simp
qed simp

lemma get_set_byte: "get_byte (set_byte i b v) j = (if i = j then b else get_byte v j)"
  using lbyte_eq [of i j] by (auto simp: get_byte_def set_byte_def Let_def)

interpretation reg: byte_store get_byte "\<lambda>v i b. set_byte i b v" "\<lambda>i. i"
  by unfold_locales (simp add: get_set_byte)

lemma get_byte_element:
  "get_byte v (2 * ucast n) = hi8 (v n)" "get_byte v (2 * ucast n + 1) = lo8 (v n)"
proof -
  have "\<forall>n :: lane. (ucast (drop_bit 1 (2 * ucast n :: lbyte)) :: lane) = n \<and> even (2 * ucast n :: lbyte)
      \<and> (ucast (drop_bit 1 (2 * ucast n + 1 :: lbyte)) :: lane) = n \<and> odd (2 * ucast n + 1 :: lbyte)"
    unfolding all_lanes by simp
  then show "get_byte v (2 * ucast n) = hi8 (v n)" "get_byte v (2 * ucast n + 1) = lo8 (v n)"
    by (simp_all add: get_byte_def Let_def)
qed

lemma reg_ext: "(\<And>j. get_byte v j = get_byte w j) \<Longrightarrow> v = w"
  by (rule ext) (metis get_byte_element mk16_hi8_lo8)

lemma dmem_rd_wr: "RSP_MEM_B (RSP_MEM_B_set d o1 a b) o2 c
    = (if (ucast (o1 + a) :: 12 word) = ucast (o2 + c) then b else RSP_MEM_B d o2 c)"
proof -
  have e: "(ucast (x XOR 3 :: u32) :: 12 word) = ucast x XOR 3" for x
    by (rule bit_word_eqI) (simp add: bit_ucast_iff bit_xor_iff)
  have "(x XOR 3 = y XOR 3) = (x = (y :: 12 word))" for x y
    by (metis bit.xor_left_self xor.commute)
  then show ?thesis by (simp add: RSP_MEM_B_def RSP_MEM_B_set_def e)
qed

interpretation dmem: byte_store mem_b mem_b_set "\<lambda>a. ucast a :: 12 word"
  by unfold_locales (simp add: dmem_rd_wr)

section \<open>Windows\<close>

lemma of_nat_inj: assumes "n \<le> 2 ^ LENGTH('a)" "i < n" "j < n" "(of_nat i :: 'a :: len word) = of_nat j" shows "i = j"
  using assms by (simp add: of_nat_eq_iff unsigned_of_nat word_unat_eq_iff take_bit_nat_eq_self)

lemma window: assumes "n \<le> 2 ^ LENGTH('a)"
  shows "(\<exists>i < n. (a + of_nat i :: 'a :: len word) = b) \<longleftrightarrow> unat (b - a) < n"
    and "i < n \<Longrightarrow> (a + of_nat i :: 'a word) = b \<Longrightarrow> i = unat (b - a)"
proof -
  have *: "i = unat (b - a)" if "i < n" "(a + of_nat i :: 'a word) = b" for i
    using that assms by (auto simp: unat_of_nat_le)
  then show "i < n \<Longrightarrow> (a + of_nat i :: 'a word) = b \<Longrightarrow> i = unat (b - a)" .
  show "(\<exists>i < n. (a + of_nat i :: 'a word) = b) \<longleftrightarrow> unat (b - a) < n"
  proof
    assume "\<exists>i < n. (a + of_nat i :: 'a word) = b"
    then show "unat (b - a) < n" using * by metis
  next
    assume "unat (b - a) < n"
    moreover have "a + of_nat (unat (b - a)) = b" by simp
    ultimately show "\<exists>i < n. (a + of_nat i :: 'a word) = b" by blast
  qed
qed

lemma get_load_bytes: assumes "n \<le> 16"
  shows "get_byte (load_bytes d start n address v) j =
    (let k = unat (j - of_nat start) in if k < n then mem_b d (address + of_nat k) else get_byte v j)"
proof -
  let ?k = "unat (j - of_nat start)"
  have n: "n \<le> 2 ^ LENGTH(4)" using assms by simp
  show ?thesis
  proof (cases "?k < n")
    case True
    have "inj_on (\<lambda>k. of_nat start + of_nat k :: lbyte) {0..<n}"
      by (auto simp: inj_on_def dest: of_nat_inj [OF n])
    then have "get_byte (load_bytes d start n address v) j = mem_b d (address + of_nat ?k)"
      unfolding load_bytes_def using True by (intro reg.rd_fold_upt) simp_all
    with True show ?thesis by (simp add: Let_def)
  next
    case False
    then have "get_byte (load_bytes d start n address v) j = get_byte v j"
      unfolding load_bytes_def using window(2) [OF n, of _ "of_nat start" j]
      by (intro reg.rd_fold_upt_other) auto
    with False show ?thesis by (simp add: Let_def)
  qed
qed

text \<open>The same for a loop of DMEM writes; \<open>k\<close> is the distance from \<open>address\<close> modulo 4 KiB.\<close>

lemma mem_store_loop: assumes "n \<le> 4096"
  shows "mem_b (fold (\<lambda>k d. mem_b_set d (address + of_nat k) (val k)) [0..<n] d) x =
    (let k = unat (ucast (x - address) :: 12 word) in if k < n then val k else mem_b d x)"
proof -
  let ?k = "unat (ucast (x - address) :: 12 word)"
  have n: "n \<le> 2 ^ LENGTH(12)" using assms by simp
  have u: "(ucast (a + b :: u32) :: 12 word) = ucast a + ucast b" "(ucast (a - b) :: 12 word) = ucast a - ucast b"
    "(ucast (of_nat k :: u32) :: 12 word) = of_nat k" "(ucast (ucast w :: u32) :: 12 word) = w" for a b k w
    by (simp_all add: ucast_down bit_eq_iff bit_ucast_iff)
  show ?thesis
  proof (cases "?k < n")
    case True
    have "inj_on (\<lambda>k. ucast (address + of_nat k) :: 12 word) {0..<n}"
      by (auto simp: inj_on_def u dest: of_nat_inj [OF n])
    then have "mem_b (fold (\<lambda>k d. mem_b_set d (address + of_nat k) (val k)) [0..<n] d) x = val ?k"
      using True by (intro dmem.rd_fold_upt) (simp_all add: u)
    with True show ?thesis by (simp add: Let_def)
  next
    case False
    then have "mem_b (fold (\<lambda>k d. mem_b_set d (address + of_nat k) (val k)) [0..<n] d) x = mem_b d x"
      using window(2) [OF n, of _ "ucast address" "ucast x"] by (intro dmem.rd_fold_upt_other) (auto simp: u)
    with False show ?thesis by (simp add: Let_def)
  qed
qed

section \<open>A load after the matching store\<close>

lemma mem_store_at: assumes "n \<le> 4096" "k < n"
  shows "mem_b (fold (\<lambda>k d. mem_b_set d (address + of_nat k) (val k)) [0..<n] d) (address + of_nat k) = val k"
proof -
  have "unat (ucast (of_nat k :: u32) :: 12 word) = k"
    using assms by (simp add: ucast_down unat_of_nat_le [of _ n])
  with assms show ?thesis by (simp add: mem_store_loop Let_def)
qed

lemma load_store_bytes: assumes "m \<le> n" "n \<le> 16"
  shows "get_byte (load_bytes (store_bytes v start n address d) start m address w) j =
    (if unat (j - of_nat start) < m then get_byte v j else get_byte w j)"
proof -
  let ?k = "unat (j - of_nat start)"
  have "mem_b (store_bytes v start n address d) (address + of_nat ?k) = get_byte v j" if "?k < m"
    using assms that by (simp add: store_bytes_def mem_store_at del: of_nat_unat) simp
  with assms show ?thesis by (simp add: get_load_bytes Let_def)
qed

lemma window_e: fixes e j :: lbyte assumes "n \<le> 16"
  shows "unat (j - e) < min (unat e + n) 16 - unat e \<longleftrightarrow> unat e \<le> unat j \<and> unat j < unat e + n"
proof -
  have lt: "unat j < 16" "unat e < 16" using unsigned_less [of j, where 'a = nat] unsigned_less [of e, where 'a = nat] by simp_all
  show ?thesis
  proof (cases "unat e \<le> unat j")
    case True
    then have "unat (j - e) = unat j - unat e" by (simp add: unat_sub word_le_nat_alt)
    with True lt show ?thesis by auto
  next
    case False
    then have "unat (j - e) = unat j + 16 - unat e" by (simp add: unat_sub_if' word_le_nat_alt)
    with False lt show ?thesis by auto
  qed
qed

lemma vr_wr [simp]: "vr (wr vd v s) r = (if r = vd then v else vr s r)"
  by (simp add: wr_def)

lemma wr_self: "v = vr s vd \<Longrightarrow> wr vd v s = s"
  by (simp add: wr_def)

lemma load_store_reg:
  "get_byte (vr (LBV e (SBV e v rs imm d) vt rs imm s) vt) j = (if j = e then get_byte v j else get_byte (vr s vt) j)"
  "get_byte (vr (LSV e (SSV e v rs imm d) vt rs imm s) vt) j =
     (if unat e \<le> unat j \<and> unat j < unat e + 2 then get_byte v j else get_byte (vr s vt) j)"
  "get_byte (vr (LLV e (SLV e v rs imm d) vt rs imm s) vt) j =
     (if unat e \<le> unat j \<and> unat j < unat e + 4 then get_byte v j else get_byte (vr s vt) j)"
  "get_byte (vr (LDV e (SDV e v rs imm d) vt rs imm s) vt) j =
     (if unat e \<le> unat j \<and> unat j < unat e + 8 then get_byte v j else get_byte (vr s vt) j)"
  using window_e [of 2] window_e [of 4] window_e [of 8]
  by (simp_all add: LBV_def SBV_def LSV_def SSV_def LLV_def SLV_def LDV_def SDV_def Let_def load_store_bytes
      get_set_byte dmem_rd_wr)

section \<open>Quadwords at any alignment\<close>

lemma unat_and15: "unat (a AND 15) = unat a mod 16" for a :: "'a :: len word"
proof -
  have "a AND 15 = take_bit 4 a" by (simp add: take_bit_eq_mask mask_eq_exp_minus_1)
  then have "unat (a AND 15) = take_bit 4 (unat a)" by (simp only: unsigned_take_bit_eq)
  then show ?thesis by (simp add: take_bit_eq_mod)
qed

lemma and_not15: "a AND NOT 15 = a - (a AND 15)" for a :: u32
proof -
  have "a = (a AND NOT 15) + (a AND 15)"
    by (subst disjunctive_add_eq_or) (simp_all add: bit_eq_iff bit_simps; blast)+
  then show ?thesis by (simp add: algebra_simps)
qed

lemma ea_next: "ea (rs + 16) imm 16 = ea rs imm 16 + 16"
  by (simp add: ea_def)

lemma quad_split: fixes a :: u32
  defines "m \<equiv> unat (a AND 15)"
  shows "m < 16" "(a + 16) AND 15 = a AND 15" "(a + 16) AND NOT 15 = a + of_nat (16 - m)"
    "unat (16 - (a AND 15)) = 16 - m"
proof -
  show m: "m < 16" by (simp add: m_def unat_and15)
  show e: "(a + 16) AND 15 = a AND 15"
    by (simp add: word_unat_eq_iff unat_and15 unat_word_ariths mod_mod_cancel)
  have a: "of_nat (16 - m) = 16 - (a AND 15)"
    using m by (simp add: of_nat_diff m_def)
  show "(a + 16) AND NOT 15 = a + of_nat (16 - m)" unfolding and_not15 e a by simp
  have "unat (of_nat (16 - m) :: u32) = 16 - m" by (rule unat_of_nat_le [where n = 17]) simp_all
  then show "unat (16 - (a AND 15)) = 16 - m" by (simp add: a)
qed


text \<open>\<^verbatim>\<open>LQV\<close> loads up to the quadword boundary and \<^verbatim>\<open>LRV\<close>, sixteen bytes on, the rest.\<close>

lemma lqv_lrv_byte:
  "get_byte (vr (LRV 0 d vt (rs + 16) imm (LQV 0 d vt rs imm s)) vt) j = mem_b d (ea rs imm 16 + ucast j)"
proof -
  let ?a = "ea rs imm 16" and ?m = "unat (ea rs imm 16 AND 15)"
  note q = quad_split [of ?a]
  have k: "unat j < 16" using unsigned_less [of j, where 'a = nat] by simp
  have w: "unat (j - of_nat (16 - ?m)) < ?m \<longleftrightarrow> 16 - ?m \<le> unat j"
    and w2: "16 - ?m \<le> unat j \<Longrightarrow> unat (j - of_nat (16 - ?m)) = unat j - (16 - ?m)"
  proof -
    have "?m = 0 \<or> unat (of_nat (16 - ?m) :: lbyte) = 16 - ?m" by (auto intro: unat_of_nat_le [where n = 16])
    then show "unat (j - of_nat (16 - ?m)) < ?m \<longleftrightarrow> 16 - ?m \<le> unat j"
      "16 - ?m \<le> unat j \<Longrightarrow> unat (j - of_nat (16 - ?m)) = unat j - (16 - ?m)"
      using k q(1) window_e [of 16 j "of_nat (16 - ?m)"] by (auto simp: unat_sub word_le_nat_alt)
  qed
  show ?thesis
    using q k w w2 by (simp add: LRV_def LQV_def ea_next Let_def get_load_bytes)
qed

lemma unat_sub_nat: "n < 4096 \<Longrightarrow> unat (y - of_nat n) = (if n \<le> unat y then unat y - n else unat y + 4096 - n)"
  for y :: "12 word"
  using unat_of_nat_le [of n 4096, where 'a = 12] by (simp add: unat_sub_if' word_le_nat_alt)

lemma sqv_srv_byte:
  "mem_b (SRV 0 v (rs + 16) imm (SQV 0 v rs imm d)) x =
     (let k = unat (ucast (x - ea rs imm 16) :: 12 word) in if k < 16 then get_byte v (of_nat k) else mem_b d x)"
proof -
  let ?a = "ea rs imm 16"
  define m where "m = unat (?a AND 15)"
  define y where "y = (ucast (x - ?a) :: 12 word)"
  note q = quad_split [of ?a, folded m_def]
  have k: "unat y < 4096" using unsigned_less [of y, where 'a = nat] by simp
  have u: "(ucast (x - (?a + of_nat (16 - m))) :: 12 word) = y - of_nat (16 - m)"
    by (simp only: ucast_down diff_diff_eq [symmetric] y_def) (simp add: ucast_down)
  have yk: "unat (y - of_nat (16 - m)) = (if 16 - m \<le> unat y then unat y - (16 - m) else unat y + 4096 - (16 - m))"
    by (rule unat_sub_nat) simp
  have sq: "mem_b (SQV 0 v rs imm d) x = (if unat y < 16 - m then get_byte v (of_nat (unat y)) else mem_b d x)"
    unfolding SQV_def Let_def store_bytes_def m_def [symmetric]
    by (subst mem_store_loop) (simp_all add: Let_def y_def)
  have sr: "mem_b (SRV 0 v (rs + 16) imm (SQV 0 v rs imm d)) x =
      (let k = unat (y - of_nat (16 - m)) in if k < m then get_byte v (of_nat (0 + k + (16 - m))) else mem_b (SQV 0 v rs imm d) x)"
    unfolding SRV_def Let_def ea_next q(2,3) m_def [symmetric]
  proof (subst mem_store_loop)
    show "m \<le> 4096" using q(1) by simp
  qed (simp only: u Let_def unsigned_0 add_0)
  show ?thesis
    unfolding sr sq yk Let_def y_def [symmetric] using q(1) k by auto
qed

lemma quad_roundtrip:
  "LRV 0 (SRV 0 v (rs + 16) imm (SQV 0 v rs imm d)) vt (rs + 16) imm
     (LQV 0 (SRV 0 v (rs + 16) imm (SQV 0 v rs imm d)) vt rs imm s) = wr vt v s"
  (is "?l = _")
proof -
  have "get_byte (vr ?l vt) j = get_byte v j" for j
  proof -
    have "(ucast (ucast j :: u32) :: 12 word) = ucast j" by (simp add: bit_eq_iff bit_ucast_iff; auto)
    moreover have lt: "unat j < 16" using unsigned_less [of j, where 'a = nat] by simp
    moreover have "unat (ucast j :: 12 word) = unat j" using lt by (simp add: unsigned_ucast_eq take_bit_nat_eq_self)
    ultimately show ?thesis by (simp add: lqv_lrv_byte sqv_srv_byte Let_def)
  qed
  then have "vr ?l vt = v" by (rule reg_ext)
  moreover have "?l = wr vt (vr ?l vt) s" by (simp add: LRV_def LQV_def Let_def wr_def)
  ultimately show ?thesis by simp
qed

section \<open>Words and halfwords\<close>

lemma upt4: "[0..<4] = [0, 1, 2, 3 :: nat]" and upt2: "[0..<2] = [0, 1 :: nat]"
  by (simp_all add: upt_rec)

lemma bit_val_byte: "bit (val_byte i x) k \<longleftrightarrow> k < 8 \<and> bit x (8 * i + k)"
  by (auto simp: val_byte_def bit_ucast_iff bit_drop_bit_eq)

lemma bit_set_val_byte: "bit (set_val_byte i b x) k \<longleftrightarrow>
    k < 32 \<and> (if 8 * i \<le> k \<and> k < 8 * i + 8 then bit b (k - 8 * i) else bit x k)"
proof -
  have m: "(0xFF :: u32) = mask 8" by (simp add: mask_eq_exp_minus_1)
  show ?thesis
    unfolding set_val_byte_def m
    by (auto simp: bit_or_iff bit_and_iff bit_not_iff bit_push_bit_iff bit_ucast_iff bit_mask_iff
        dest: bit_imp_le_length)
qed

lemma store_distinct:
  "(ucast (offset + 1 + addr :: u32) :: 12 word) \<noteq> ucast (offset + addr)"
  "(ucast (offset + 2 + addr :: u32) :: 12 word) \<noteq> ucast (offset + addr)"
  "(ucast (offset + 3 + addr :: u32) :: 12 word) \<noteq> ucast (offset + addr)"
  "(ucast (offset + 2 + addr :: u32) :: 12 word) \<noteq> ucast (offset + 1 + addr)"
  "(ucast (offset + 3 + addr :: u32) :: 12 word) \<noteq> ucast (offset + 1 + addr)"
  "(ucast (offset + 3 + addr :: u32) :: 12 word) \<noteq> ucast (offset + 2 + addr)"
  by (simp_all add: ucast_down)

lemma word_load_store: "RSP_MEM_W_LOAD (RSP_MEM_W_STORE d offset addr val) offset addr = val"
proof -
  have "RSP_MEM_W_LOAD (RSP_MEM_W_STORE d offset addr val) offset addr =
      set_val_byte 0 (val_byte 0 val) (set_val_byte 1 (val_byte 1 val) (set_val_byte 2 (val_byte 2 val)
        (set_val_byte 3 (val_byte 3 val) 0)))"
    by (simp add: RSP_MEM_W_LOAD_def RSP_MEM_W_STORE_def upt4 dmem_rd_wr store_distinct)
  also have "\<dots> = val"
    by (rule bit_word_eqI) (simp add: bit_set_val_byte bit_val_byte; auto)
  finally show ?thesis .
qed

lemma half_load_store:
  "RSP_MEM_HU_LOAD (RSP_MEM_H_STORE d offset addr val) offset addr = ucast (ucast val :: u16)"
  "RSP_MEM_H_LOAD (RSP_MEM_H_STORE d offset addr val) offset addr = scast (ucast val :: u16)"
proof -
  have "RSP_MEM_HU_LOAD (RSP_MEM_H_STORE d offset addr val) offset addr =
      set_val_byte 0 (val_byte 0 val) (set_val_byte 1 (val_byte 1 val) 0)"
    by (simp add: RSP_MEM_HU_LOAD_def RSP_MEM_H_STORE_def upt2 dmem_rd_wr store_distinct)
  also have "\<dots> = ucast (ucast val :: u16)"
    by (rule bit_word_eqI) (simp add: bit_set_val_byte bit_val_byte bit_ucast_iff; auto)
  finally show *: "RSP_MEM_HU_LOAD (RSP_MEM_H_STORE d offset addr val) offset addr = ucast (ucast val :: u16)" .
  have "(ucast (ucast (ucast val :: u16) :: u32) :: u16) = ucast val"
    by (simp add: bit_eq_iff bit_ucast_iff)
  then show "RSP_MEM_H_LOAD (RSP_MEM_H_STORE d offset addr val) offset addr = scast (ucast val :: u16)"
    by (simp add: RSP_MEM_H_LOAD_def *)
qed

lemma mfc2_mtc2: "e \<noteq> 15 \<Longrightarrow> MFC2 e vs (MTC2 e rt vs s) = scast (ucast rt :: u16)"
proof -
  assume "e \<noteq> 15"
  moreover have "mk16 (ucast (drop_bit 8 rt)) (ucast rt) = ucast rt"
    by (rule bit_word_eqI) (auto simp: bit_mk16 bit_ucast_iff bit_drop_bit_eq)
  ultimately show ?thesis by (simp add: MFC2_def MTC2_def Let_def get_set_byte)
qed

section \<open>Control-register moves\<close>

lemma host_byte_of_host_bytes [simp]: "host_byte (of_host_bytes f) j = f j"
proof -
  have "\<forall>j. host_byte (of_host_bytes f) j = f j"
    unfolding all_lbytes by (simp add: host_byte_def of_host_bytes_def get_byte_def)
  then show ?thesis by blast
qed

lemma host_byte_and: "host_byte (mm_and_si128 a b) j = host_byte a j AND host_byte b j"
  by (simp add: host_byte_def get_byte_def mm_and_si128_def Let_def hi8_def lo8_def unsigned_and_eq drop_bit_and)

lemma movemask_bit: "bit (mm_movemask_epi8 a) k \<longleftrightarrow> k < 16 \<and> bit (host_byte a (of_nat k)) 7"
proof -
  have "mm_movemask_epi8 a = horner_sum of_bool 2 (map (\<lambda>i. bit (host_byte a (of_nat i)) 7) [0..<16])"
    unfolding mm_movemask_epi8_def horner_sum_eq_sum interv_sum_list_conv_sum_set_nat set_upt length_map length_upt
    by (intro sum.cong) (simp_all add: push_bit_eq_mult)
  then show ?thesis by (auto simp: bit_horner_sum_bit_iff)
qed

lemma cfc2_fold_bit: "\<forall>n \<in> set xs. n < 8 \<Longrightarrow> bit (fold (\<lambda>n rt. (rt OR push_bit n (of_bool (l n)))
      OR push_bit (8 + n) (of_bool (h n))) xs (rt :: u32)) k \<longleftrightarrow>
    bit rt k \<or> (\<exists>n \<in> set xs. (k = n \<and> l n) \<or> (k = 8 + n \<and> h n))"
  by (induction xs arbitrary: rt) (auto simp: bit_or_iff bit_push_bit_iff bit_1_iff split: if_splits)

lemma packs_reverse: "host_byte (mm_shuffle_epi8 (mm_packs_epi16 hi lo)
      (mm_set_epi8 [0, 1, 2, 3, 4, 5, 6, 7, 8, 9, 10, 11, 12, 13, 14, 15])) j =
    (if j < 8 then sat_s8 (sint (lo (ucast j))) else sat_s8 (sint (hi (ucast (j - 8)))))"
proof -
  have "\<forall>j. host_byte (mm_shuffle_epi8 (mm_packs_epi16 hi lo)
      (mm_set_epi8 [0, 1, 2, 3, 4, 5, 6, 7, 8, 9, 10, 11, 12, 13, 14, 15])) j =
    (if j < 8 then sat_s8 (sint (lo (ucast j))) else sat_s8 (sint (hi (ucast (j - 8)))))"
    unfolding all_lbytes by (simp add: mm_shuffle_epi8_def mm_set_epi8_def mm_packs_epi16_def host_lane_def)
  then show ?thesis by blast
qed

lemma sat_s8_mask: "bit (sat_s8 (sint (mask16 p))) 7 \<longleftrightarrow> p"
  by (simp add: sat_s8_def sint_mask16)

lemma cfc2_equiv: assumes "flags_ok s" shows "CFC2_simd rd s = CFC2_sisd rd s"
proof -
  obtain h l where p: "ctrl_get rd s = ((\<lambda>n. mask16 (h n)), (\<lambda>n. mask16 (l n)))"
  proof -
    have "is_mask (fst (ctrl_get rd s))" "is_mask (snd (ctrl_get rd s))"
      using assms by (simp_all add: flags_ok_def ctrl_get_def)
    note m = this [THEN is_mask_eq]
    show thesis
      by (rule that [of "flag_get (fst (ctrl_get rd s))" "flag_get (snd (ctrl_get rd s))"])
        (simp only: m [symmetric] prod.collapse)
  qed
  have "mm_movemask_epi8 (mm_shuffle_epi8 (mm_packs_epi16 (\<lambda>n. mask16 (h n)) (\<lambda>n. mask16 (l n)))
      (mm_set_epi8 [0, 1, 2, 3, 4, 5, 6, 7, 8, 9, 10, 11, 12, 13, 14, 15])) =
    fold (\<lambda>n rt. (rt OR push_bit n (of_bool (l (of_nat n)))) OR push_bit (8 + n) (of_bool (h (of_nat n)))) [0..<8] 0"
    (is "?a = ?b")
  proof (rule bit_word_eqI)
    fix k :: nat
    have eight: "(8 :: lane) = 0" by simp
    have lane: "(ucast (of_nat k :: lbyte) :: lane) = of_nat k" "(ucast (of_nat k - 8 :: lbyte) :: lane) = of_nat k"
      by (simp_all add: ucast_down)
    have "k < 16 \<Longrightarrow> (of_nat k :: lbyte) < 8 \<longleftrightarrow> k < 8"
      by (simp add: word_less_nat_alt unat_of_nat_le [of _ 16])
    moreover have "8 \<le> k \<Longrightarrow> (of_nat (k - 8) :: lane) = of_nat k" by (simp add: of_nat_diff)
    ultimately have "bit ?a k \<longleftrightarrow> k < 16 \<and> (if k < 8 then l (of_nat k) else h (of_nat (k - 8)))"
      by (auto simp: movemask_bit packs_reverse sat_s8_mask lane eight)
    also have "\<dots> \<longleftrightarrow> bit ?b k"
      by (subst cfc2_fold_bit) (auto intro: bexI [of _ "k - 8"])
    finally show "bit ?a k = bit ?b k" .
  qed
  then show ?thesis by (simp add: CFC2_simd_def CFC2_sisd_def p)
qed

lemma ctc2_lane: "mm_cmpeq_epi8 (mm_and_si128 (mm_shuffle_epi8 (r128_of_u32 y) (host_byte vzero)) ctc2_mask) vzero n
    = mask16 (\<not> bit y (unat n))"
proof -
  have z: "host_byte vzero j = 0" for j by (simp add: host_byte_def get_byte_def vzero_def hi8_def lo8_def)
  have y: "host_byte (r128_of_u32 y) 0 = ucast y"
    by (simp add: host_byte_def get_byte_def r128_of_u32_def of_host_lanes_def lo8_def bit_eq_iff bit_ucast_iff)
  have sh: "host_byte (mm_shuffle_epi8 (r128_of_u32 y) (host_byte vzero)) j = ucast y" for j
    by (simp add: mm_shuffle_epi8_def z y)
  have t: "ucast y AND b = 0 \<longleftrightarrow> \<not> bit y k" if "b = 2 ^ k" "k < 8" for b :: u8 and k
    using that by (simp add: and_exp_eq_0_iff_not_bit bit_ucast_iff)
  have "\<forall>n :: lane. host_byte ctc2_mask (15 - 2 * ucast n) = 2 ^ unat n \<and> host_byte ctc2_mask (14 - 2 * ucast n) = 2 ^ unat n"
    unfolding all_lanes
    by (simp add: ctc2_mask_def mm_set_epi16_def of_host_lanes_def host_byte_def get_byte_def hi8_def lo8_def)
  moreover have "unat n < 8" using unsigned_less [of n, where 'a = nat] by simp
  moreover have "mk16 (- 1) (- 1) = - 1" "mk16 0 0 = 0"
    by (rule bit_word_eqI; auto simp: bit_mk16)+
  ultimately show ?thesis
    by (simp add: mm_cmpeq_epi8_def of_host_bytes_def host_byte_and sh t z)
qed

lemma ctc2_equiv: "CTC2_simd rt rd s = CTC2_sisd rt rd s"
proof -
  have "\<not> bit (drop_bit 8 (NOT rt)) (unat n) \<longleftrightarrow> bit rt (8 + unat n)" "\<not> bit (NOT rt) (unat n) \<longleftrightarrow> bit rt (unat n)" for n :: lane
    using unsigned_less [of n, where 'a = nat] by (auto simp: bit_drop_bit_eq bit_not_iff)
  then show ?thesis
    by (simp add: CTC2_simd_def CTC2_sisd_def Let_def ctc2_lane [abs_def])
qed


text \<open>A control register reads back what was written; \<^verbatim>\<open>VCE\<close> has its low eight bits only.\<close>

lemma cfc2_ctc2:
  "CFC2_sisd rd (CTC2_sisd rt rd s) =
     (if rd AND 3 = 0 \<or> rd AND 3 = 1 then scast (ucast rt :: u16) else rt AND 0xFF)"
proof -
  have low: "k < 8 \<Longrightarrow> unat (of_nat k :: lane) = k" for k by (rule unat_of_nat_le [where n = 8]) simp_all
  have high: "unat (of_nat k - 8 :: lane) = k - 8" "unat (of_nat (k - 8) :: lane) = k - 8" if "\<not> k < 8" "k < 16" for k
    using that low [of "k - 8"] by (simp_all add: of_nat_diff)
  have f: "fold (\<lambda>n rt. (rt OR push_bit n (of_bool (l (of_nat n :: lane)))) OR push_bit (8 + n) (of_bool (h (of_nat n :: lane))))
      [0..<8] (0 :: u32) = x"
    if x: "\<And>k. bit x k \<longleftrightarrow> k < 16 \<and> (if k < 8 then l (of_nat k) else h (of_nat (k - 8)))" for x h l
  proof (rule bit_word_eqI)
    fix k :: nat
    show "bit (fold (\<lambda>n rt. (rt OR push_bit n (of_bool (l (of_nat n :: lane)))) OR push_bit (8 + n) (of_bool (h (of_nat n :: lane))))
      [0..<8] (0 :: u32)) k = bit x k"
      unfolding x by (subst cfc2_fold_bit) (auto intro: bexI [of _ "k - 8"])
  qed
  have m: "(0xFF :: u32) = mask 8" by (simp add: mask_eq_exp_minus_1)
  show ?thesis
  proof (cases "rd AND 3 = 0 \<or> rd AND 3 = 1")
    case True
    then have "CFC2_sisd rd (CTC2_sisd rt rd s) = scast (ucast (ucast (ucast rt :: u16) :: u32) :: u16)"
      unfolding CFC2_sisd_def CTC2_sisd_def
      by (auto simp: ctrl_get_def ctrl_set_def low high bit_ucast_iff split: if_splits intro!: arg_cong [where f = scast] arg_cong [where f = ucast] f)
    moreover have "(ucast (ucast (ucast rt :: u16) :: u32) :: u16) = ucast rt" by (simp add: bit_eq_iff bit_ucast_iff)
    ultimately show ?thesis using True by simp
  next
    case False
    have "fold (\<lambda>n rta. (rta OR push_bit n (of_bool (bit rt (unat (of_nat n :: lane))))) OR push_bit (8 + n) (of_bool False))
        [0..<8] (0 :: u32) = rt AND mask 8"
      by (rule f [where l = "\<lambda>n. bit rt (unat n)" and h = "\<lambda>n. False"]) (auto simp: bit_and_iff bit_mask_iff low)
    with False have "CFC2_sisd rd (CTC2_sisd rt rd s) = scast (ucast (rt AND mask 8) :: u16)"
      unfolding CFC2_sisd_def CTC2_sisd_def by (simp add: ctrl_get_def ctrl_set_def vzero_def flag_get_def)
    also have "\<dots> = rt AND mask 8"
      by (rule bit_word_eqI) (auto simp: bit_signed_iff bit_ucast_iff bit_and_iff bit_mask_iff min_def)
    finally show ?thesis using False m by simp
  qed
qed

section \<open>Packed loads and stores\<close>

lemma pack_addr: "(a AND NOT 7) + (((a AND 7) + ucast n) AND 15) = a + ucast n" for a :: u32 and n :: lane
proof -
  have 7: "(7 :: u32) = mask 3" by (simp add: mask_eq_exp_minus_1)
  have "a = (a AND NOT 7) + (a AND 7)"
    by (subst disjunctive_add_eq_or) (simp_all add: bit_eq_iff bit_simps; blast)+
  then have a: "a AND NOT 7 = a - (a AND 7)" by (simp add: algebra_simps)
  have b: "unat (a AND 7) < 8"
    unfolding 7 take_bit_eq_mask [symmetric] unsigned_take_bit_eq using take_bit_nat_less_exp [of 3 "unat a"] by simp
  have n: "unat (ucast n :: u32) < 8"
    using unsigned_less [of n, where 'a = nat] by (simp add: unsigned_ucast_eq take_bit_nat_eq_self)
  have "unat ((a AND 7) + ucast n) < 16"
    using b n by (simp add: unat_word_ariths)
  then have c: "((a AND 7) + ucast n) AND 15 = (a AND 7) + ucast n"
    by (simp add: word_unat_eq_iff unat_and15)
  show ?thesis unfolding a c by (simp only: add.assoc [symmetric] diff_add_cancel)
qed


lemma spv_mem: "mem_b (SPV 0 v rs imm d) (ea rs imm 8 + ucast n) = hi8 (v n)"
  and suv_mem: "mem_b (SUV 0 v rs imm d) (ea rs imm 8 + ucast n) = ucast (drop_bit 7 (v n))" for n :: lane
proof -
  have k: "(ucast n :: u32) = of_nat (unat n)" "unat n < 8" "(of_nat (unat n) :: lbyte) = ucast n"
    using unsigned_less [of n, where 'a = nat] by simp_all
  have "\<forall>n :: lane. (ucast n :: lbyte) < 8 \<and> push_bit 1 (ucast n AND 7 :: lbyte) = 2 * ucast n \<and> (ucast (ucast n :: lbyte) :: lane) = n"
    unfolding all_lanes by simp
  then have e: "(ucast n :: lbyte) < 8" "push_bit 1 (ucast n AND 7 :: lbyte) = 2 * ucast n" "(ucast (ucast n :: lbyte) :: lane) = n"
    by blast+
  show "mem_b (SPV 0 v rs imm d) (ea rs imm 8 + ucast n) = hi8 (v n)"
    unfolding SPV_def Let_def k(1)
    by (subst mem_store_at) (simp, rule k(2), simp only: k(3) add_0 e if_True get_byte_element)
  show "mem_b (SUV 0 v rs imm d) (ea rs imm 8 + ucast n) = ucast (drop_bit 7 (v n))"
    unfolding SUV_def Let_def k(1)
    by (subst mem_store_at) (simp, rule k(2), simp only: k(3) add_0 e if_True)
qed

text \<open>
  \<^verbatim>\<open>SPV\<close>/\<^verbatim>\<open>LPV\<close> keep the top byte of each element. \<^verbatim>\<open>SUV\<close>/\<^verbatim>\<open>LUV\<close> keep bits 14 to 7, and
  since \<^verbatim>\<open>RSP_MEM_B\<close> is a signed byte the load copies bit 14 into bit 15.
\<close>

lemma lpv_spv: "vr (LPV 0 (SPV 0 v rs imm d) vt rs imm s) vt = (\<lambda>n. v n AND 0xFF00)"
proof
  fix n
  have m: "(0xFF00 :: u16) = push_bit 8 (mask 8)" by (simp add: mask_eq_exp_minus_1)
  have "push_bit 8 (scast (hi8 (v n))) = v n AND 0xFF00"
    unfolding m
  proof (rule bit_word_eqI)
    fix k :: nat
    show "bit (push_bit 8 (scast (hi8 (v n))) :: u16) k = bit (v n AND push_bit 8 (mask 8)) k"
      by (cases "k = 15") (auto simp: bit_push_bit_iff bit_signed_iff hi8_def bit_ucast_iff bit_drop_bit_eq
          bit_and_iff bit_mask_iff min_def)
  qed
  then show "vr (LPV 0 (SPV 0 v rs imm d) vt rs imm s) vt n = v n AND 0xFF00"
    unfolding LPV_def Let_def packed_def vr_wr ucast_0 diff_zero pack_addr spv_mem by simp
qed

lemma luv_suv: "bit (vr (LUV 0 (SUV 0 v rs imm d) vt rs imm s) vt n) k \<longleftrightarrow>
    k < 16 \<and> 7 \<le> k \<and> bit (v n) (min k 14)"
  unfolding LUV_def Let_def packed_def vr_wr ucast_0 diff_zero pack_addr suv_mem
  by (cases "k = 15"; cases "k = 14")
    (auto simp: bit_push_bit_iff bit_signed_iff bit_ucast_iff bit_drop_bit_eq min_def)

end
