(* ===== verification/RspDma.thy ===== *)
theory RspDma
  imports RspMemoryProps
begin

text \<open>
  The SP DMA engine: where each row of a transfer starts, in DMEM and in DRAM, and what one
  row copies. A transfer walks DMEM modulo 4 KiB and DRAM modulo 16 MiB.
\<close>

definition row_dmem :: "u32 \<Rightarrow> u32 \<Rightarrow> nat \<Rightarrow> u32" where
  "row_dmem dmem_addr len_reg b = ((dmem_addr AND 0xFF8) + of_nat b * rsp_dma_block_len len_reg) AND 0xFFF"

definition row_dram :: "u32 \<Rightarrow> u32 \<Rightarrow> nat \<Rightarrow> u32" where
  "row_dram dram_addr len_reg b =
     ((dram_addr AND 0xFFFFF8) + of_nat b * (rsp_dma_block_len len_reg + rsp_dma_skip len_reg)) AND 0xFFFFF8"

lemma masks: "(0xFFF :: u32) = mask 12" "(7 :: u32) = mask 3" "(0xFF8 :: u32) = mask 12 AND NOT (mask 3)"
  "(0xFFFFF8 :: u32) = mask 24 AND NOT (mask 3)"
  by (simp_all add: mask_eq_exp_minus_1)

lemma aligned_and: "take_bit 3 (x AND 0xFF8 :: u32) = 0" "take_bit 3 (x AND 0xFFFFF8 :: u32) = 0"
  unfolding masks by (rule bit_word_eqI; auto simp: bit_take_bit_iff bit_and_iff bit_not_iff bit_mask_iff)+

lemma and_aligned: "take_bit 3 x = 0 \<Longrightarrow> x AND 0xFFFFF8 = take_bit 24 x" for x :: u32
  unfolding masks by (rule bit_word_eqI)
    (auto simp: bit_eq_iff bit_take_bit_iff bit_and_iff bit_not_iff bit_mask_iff)

lemma take_bit_word_add: fixes x y :: u32 assumes "n \<le> 32" shows "take_bit n (take_bit n x + y) = take_bit n (x + y)"
  and take_bit_word_mult: "take_bit n (x * take_bit n y) = take_bit n (x * y)"
proof -
  have m: "min n 32 = n" using assms by simp
  have a: "uint (a + b :: u32) = take_bit 32 (uint a + uint b)" "uint (a * b :: u32) = take_bit 32 (uint a * uint b)" for a b
    by (simp_all add: uint_word_ariths take_bit_eq_mod)
  have "take_bit n (take_bit n (uint x) + uint y) = take_bit n (uint x + uint y)"
    "take_bit n (uint x * take_bit n (uint y)) = take_bit n (uint x * uint y)"
    by (simp_all add: take_bit_eq_mod mod_simps)
  then show "take_bit n (take_bit n x + y) = take_bit n (x + y)" "take_bit n (x * take_bit n y) = take_bit n (x * y)"
    by (simp_all only: word_uint_eq_iff unsigned_take_bit_eq a take_bit_take_bit m)
qed

lemma aligned_add: "take_bit 3 x = 0 \<Longrightarrow> take_bit 3 y = 0 \<Longrightarrow> take_bit 3 (x + y) = 0" for x y :: u32
  using take_bit_word_add [of 3 x y] by simp

lemma aligned_mult: "take_bit 3 x = 0 \<Longrightarrow> take_bit 3 (k * x) = 0" for x k :: u32
  using take_bit_word_mult [of 3 k x] by simp

lemma aligned_len: "take_bit 3 (rsp_dma_block_len l) = 0" "take_bit 3 (rsp_dma_skip l) = 0"
proof -
  have "take_bit 3 (8 :: u32) = 0" by simp
  then show "take_bit 3 (rsp_dma_block_len l) = 0" "take_bit 3 (rsp_dma_skip l) = 0"
    by (simp_all only: rsp_dma_block_len_def rsp_dma_skip_def aligned_and aligned_add)
qed

lemma wrap12: "((x AND 0xFFF) + y) AND 0xFFF = (x + y) AND 0xFFF" for x y :: u32
  unfolding masks take_bit_eq_mask [symmetric] by (rule take_bit_word_add) simp

lemma wrap24: "take_bit 3 x = 0 \<Longrightarrow> take_bit 3 y = 0 \<Longrightarrow>
    ((x AND 0xFFFFF8) + y) AND 0xFFFFF8 = (x + y) AND 0xFFFFF8" for x y :: u32
proof -
  assume *: "take_bit 3 x = 0" "take_bit 3 y = 0"
  have "((x AND 0xFFFFF8) + y) AND 0xFFFFF8 = take_bit 24 ((x AND 0xFFFFF8) + y)"
    by (rule and_aligned) (simp only: aligned_add aligned_and *)
  also have "\<dots> = take_bit 24 (x + y)"
    unfolding and_aligned [OF *(1)] by (rule take_bit_word_add) simp
  also have "\<dots> = (x + y) AND 0xFFFFF8"
    by (rule and_aligned [symmetric]) (simp only: aligned_add *)
  finally show ?thesis .
qed


text \<open>One iteration of the row loop, and the state after \<open>r\<close> of them.\<close>

definition row_step :: "(u32 \<Rightarrow> u32 \<Rightarrow> 's \<Rightarrow> 's) \<Rightarrow> u32 \<Rightarrow> nat \<Rightarrow> u32 \<times> u32 \<times> 's \<Rightarrow> u32 \<times> u32 \<times> 's" where
  "row_step f len_reg block = (\<lambda>(cur_dmem, cur_dram, s). (let
     s = f cur_dmem cur_dram s;
     cur_dmem = (cur_dmem + rsp_dma_block_len len_reg) AND 0x0FFF;
     cur_dram = (cur_dram + rsp_dma_block_len len_reg) AND 0xFFFFF8;
     cur_dram = (if block \<noteq> unat (rsp_dma_count len_reg) then (cur_dram + rsp_dma_skip len_reg) AND 0xFFFFF8 else cur_dram)
     in (cur_dmem, cur_dram, s)))"

lemma dma_rows_step: "dma_rows f dmem_addr dram_addr len_reg s = snd (snd (fold (row_step f len_reg)
    [0..<unat (rsp_dma_count len_reg) + 1] (dmem_addr AND 0x0FF8, dram_addr AND 0xFFFFF8, s)))"
  unfolding dma_rows_def Let_def row_step_def [abs_def] by simp

lemma row_step_app: "row_step f l b (cm, cr, s) = ((cm + rsp_dma_block_len l) AND 0xFFF,
    if b \<noteq> unat (rsp_dma_count l) then (((cr + rsp_dma_block_len l) AND 0xFFFFF8) + rsp_dma_skip l) AND 0xFFFFF8
    else (cr + rsp_dma_block_len l) AND 0xFFFFF8, f cm cr s)"
  by (simp add: row_step_def Let_def)

lemma row_dmem_Suc: "(row_dmem a l b + rsp_dma_block_len l) AND 0xFFF = row_dmem a l (Suc b)"
  unfolding row_dmem_def wrap12 by (simp add: algebra_simps)

lemma row_dram_Suc: "(((row_dram a l b + rsp_dma_block_len l) AND 0xFFFFF8) + rsp_dma_skip l) AND 0xFFFFF8 = row_dram a l (Suc b)"
proof -
  let ?x = "(a AND 0xFFFFF8) + of_nat b * (rsp_dma_block_len l + rsp_dma_skip l)"
  have x: "take_bit 3 ?x = 0" by (intro aligned_add aligned_mult aligned_and aligned_len)
  have "(row_dram a l b + rsp_dma_block_len l) AND 0xFFFFF8 = (?x + rsp_dma_block_len l) AND 0xFFFFF8"
    unfolding row_dram_def by (rule wrap24 [OF x aligned_len(1)])
  then show ?thesis
    using wrap24 [OF aligned_add [OF x aligned_len(1)] aligned_len(2)] by (simp add: row_dram_def algebra_simps)
qed

lemma rows_state:
  assumes "r \<le> unat (rsp_dma_count l) + 1"
  shows "\<exists>x. fold (row_step f l) [0..<r] (a AND 0x0FF8, c AND 0xFFFFF8, s) =
      (row_dmem a l r, x, fold (\<lambda>b. f (row_dmem a l b) (row_dram c l b)) [0..<r] s)
    \<and> (r \<le> unat (rsp_dma_count l) \<longrightarrow> x = row_dram c l r)"
  using assms
proof (induction r)
  case 0
  have "(a AND 0xFF8) AND 0xFFF = a AND 0xFF8" "(c AND 0xFFFFF8) AND 0xFFFFF8 = c AND 0xFFFFF8"
    by (simp_all add: and.assoc)
  then show ?case by (simp add: row_dmem_def row_dram_def)
next
  case (Suc r)
  then have "fold (row_step f l) [0..<r] (a AND 0x0FF8, c AND 0xFFFFF8, s) =
      (row_dmem a l r, row_dram c l r, fold (\<lambda>b. f (row_dmem a l b) (row_dram c l b)) [0..<r] s)" by auto
  with Suc.prems show ?case
    by (simp add: row_step_app row_dmem_Suc row_dram_Suc)
qed

lemma dma_rows_closed: "dma_rows f dmem_addr dram_addr len_reg s =
    fold (\<lambda>b. f (row_dmem dmem_addr len_reg b) (row_dram dram_addr len_reg b)) [0..<unat (rsp_dma_count len_reg) + 1] s"
  using rows_state [of "unat (rsp_dma_count len_reg) + 1" len_reg f dmem_addr dram_addr s]
  unfolding dma_rows_step by auto

lemma block_len_bounds: "8 \<le> unat (rsp_dma_block_len l)" "unat (rsp_dma_block_len l) \<le> 4096"
proof -
  have "unat (l AND 0xFF8) \<le> unat (0xFF8 :: u32)"
    by (intro iffD1 [OF word_le_nat_alt]) (simp add: word_and_le1)
  then have le: "unat (l AND 0xFF8) \<le> 4088" by simp
  then have "unat ((l AND 0xFF8) + 8) = unat (l AND 0xFF8) + 8" by (simp add: unat_word_ariths)
  with le show "8 \<le> unat (rsp_dma_block_len l)" "unat (rsp_dma_block_len l) \<le> 4096"
    by (simp_all add: rsp_dma_block_len_def)
qed

lemma mem_b_offset: "RSP_MEM_B_set d (of_nat i) a b = mem_b_set d (a + of_nat i) b"
    "RSP_MEM_B d (of_nat i) a = mem_b d (a + of_nat i)"
  by (simp_all add: RSP_MEM_B_set_def RSP_MEM_B_def add.commute)

lemma dma_block_in_mem: "mem_b (dma_block_in rd m cm cr (rsp_dma_block_len l) d) x =
    (let k = unat (ucast (x - cm) :: 12 word) in
     if k < unat (rsp_dma_block_len l) then rd m (cr + of_nat k + 0x80000000) else mem_b d x)"
  unfolding dma_block_in_def mem_b_offset using block_len_bounds [of l] by (subst mem_store_loop) simp_all

end
