(* ===== verification/RspProgram.thy ===== *)
theory RspProgram
  imports RspVectorMulEquiv RspDma
begin

text \<open>
  Vector programs. \<^verbatim>\<open>Accuracy::RSP::SISD\<close> and \<^verbatim>\<open>Accuracy::RSP::SIMD\<close> select one of the two
  bodies of an instruction when the runtime is compiled; \<open>exec True\<close> is the SSE build and
  \<open>exec False\<close> the scalar one. The two builds run every instruction sequence alike.
\<close>

datatype vop = OP_VABS | OP_VADD | OP_VADDC | OP_VAND | OP_VCH | OP_VCL | OP_VCR | OP_VEQ | OP_VGE | OP_VLT
  | OP_VMACF | OP_VMACU | OP_VMADH | OP_VMADL | OP_VMADM | OP_VMADN | OP_VMRG | OP_VMUDH | OP_VMUDL
  | OP_VMUDM | OP_VMUDN | OP_VMULF | OP_VMULU | OP_VNAND | OP_VNE | OP_VNOR | OP_VNXOR | OP_VOR
  | OP_VSUB | OP_VSUBC | OP_VXOR | OP_VZERO

fun vop_sisd :: "vop \<Rightarrow> lbyte \<Rightarrow> vreg \<Rightarrow> vreg \<Rightarrow> vreg \<Rightarrow> vu \<Rightarrow> vu" where
  "vop_sisd OP_VABS = VABS_sisd" | "vop_sisd OP_VADD = VADD_sisd" | "vop_sisd OP_VADDC = VADDC_sisd"
| "vop_sisd OP_VAND = VAND_sisd" | "vop_sisd OP_VCH = VCH_sisd" | "vop_sisd OP_VCL = VCL_sisd"
| "vop_sisd OP_VCR = VCR_sisd" | "vop_sisd OP_VEQ = VEQ_sisd" | "vop_sisd OP_VGE = VGE_sisd"
| "vop_sisd OP_VLT = VLT_sisd" | "vop_sisd OP_VMACF = VMACF_sisd False" | "vop_sisd OP_VMACU = VMACF_sisd True"
| "vop_sisd OP_VMADH = VMADH_sisd" | "vop_sisd OP_VMADL = VMADL_sisd" | "vop_sisd OP_VMADM = VMADM_sisd"
| "vop_sisd OP_VMADN = VMADN_sisd" | "vop_sisd OP_VMRG = VMRG_sisd" | "vop_sisd OP_VMUDH = VMUDH_sisd"
| "vop_sisd OP_VMUDL = VMUDL_sisd" | "vop_sisd OP_VMUDM = VMUDM_sisd" | "vop_sisd OP_VMUDN = VMUDN_sisd"
| "vop_sisd OP_VMULF = VMULF_sisd False" | "vop_sisd OP_VMULU = VMULF_sisd True" | "vop_sisd OP_VNAND = VNAND_sisd"
| "vop_sisd OP_VNE = VNE_sisd" | "vop_sisd OP_VNOR = VNOR_sisd" | "vop_sisd OP_VNXOR = VNXOR_sisd"
| "vop_sisd OP_VOR = VOR_sisd" | "vop_sisd OP_VSUB = VSUB_sisd" | "vop_sisd OP_VSUBC = VSUBC_sisd"
| "vop_sisd OP_VXOR = VXOR_sisd" | "vop_sisd OP_VZERO = VZERO_sisd"

fun vop_simd :: "vop \<Rightarrow> lbyte \<Rightarrow> vreg \<Rightarrow> vreg \<Rightarrow> vreg \<Rightarrow> vu \<Rightarrow> vu" where
  "vop_simd OP_VABS = VABS_simd" | "vop_simd OP_VADD = VADD_simd" | "vop_simd OP_VADDC = VADDC_simd"
| "vop_simd OP_VAND = VAND_simd" | "vop_simd OP_VCH = VCH_simd" | "vop_simd OP_VCL = VCL_simd"
| "vop_simd OP_VCR = VCR_simd" | "vop_simd OP_VEQ = VEQ_simd" | "vop_simd OP_VGE = VGE_simd"
| "vop_simd OP_VLT = VLT_simd" | "vop_simd OP_VMACF = VMACF_simd False" | "vop_simd OP_VMACU = VMACF_simd True"
| "vop_simd OP_VMADH = VMADH_simd" | "vop_simd OP_VMADL = VMADL_simd" | "vop_simd OP_VMADM = VMADM_simd"
| "vop_simd OP_VMADN = VMADN_simd" | "vop_simd OP_VMRG = VMRG_simd" | "vop_simd OP_VMUDH = VMUDH_simd"
| "vop_simd OP_VMUDL = VMUDL_simd" | "vop_simd OP_VMUDM = VMUDM_simd" | "vop_simd OP_VMUDN = VMUDN_simd"
| "vop_simd OP_VMULF = VMULF_simd False" | "vop_simd OP_VMULU = VMULF_simd True" | "vop_simd OP_VNAND = VNAND_simd"
| "vop_simd OP_VNE = VNE_simd" | "vop_simd OP_VNOR = VNOR_simd" | "vop_simd OP_VNXOR = VNXOR_simd"
| "vop_simd OP_VOR = VOR_simd" | "vop_simd OP_VSUB = VSUB_simd" | "vop_simd OP_VSUBC = VSUBC_simd"
| "vop_simd OP_VXOR = VXOR_simd" | "vop_simd OP_VZERO = VZERO_simd"

text \<open>The scalar registers an instruction reads or writes are the \<^verbatim>\<open>r1\<close> \<dots> \<^verbatim>\<open>r31\<close> of \<^verbatim>\<open>RspContext\<close>.\<close>

record rsp =
  vpu :: vu
  dm :: dmem
  gpr :: "5 word \<Rightarrow> u32"

datatype lop = OP_LBV | OP_LDV | OP_LFV | OP_LHV | OP_LLV | OP_LPV | OP_LQV | OP_LRV | OP_LSV | OP_LTV | OP_LUV | OP_LWV
datatype sop = OP_SBV | OP_SDV | OP_SFV | OP_SHV | OP_SLV | OP_SPV | OP_SQV | OP_SRV | OP_SSV | OP_SUV | OP_SWV

primrec load_op :: "lop \<Rightarrow> lbyte \<Rightarrow> dmem \<Rightarrow> vreg \<Rightarrow> u32 \<Rightarrow> u8 \<Rightarrow> vu \<Rightarrow> vu" where
  "load_op OP_LBV = LBV" | "load_op OP_LDV = LDV" | "load_op OP_LFV = LFV" | "load_op OP_LHV = LHV"
| "load_op OP_LLV = LLV" | "load_op OP_LPV = LPV" | "load_op OP_LQV = LQV" | "load_op OP_LRV = LRV"
| "load_op OP_LSV = LSV" | "load_op OP_LTV = LTV" | "load_op OP_LUV = LUV" | "load_op OP_LWV = LWV"

primrec store_op :: "sop \<Rightarrow> lbyte \<Rightarrow> r128 \<Rightarrow> u32 \<Rightarrow> u8 \<Rightarrow> dmem \<Rightarrow> dmem" where
  "store_op OP_SBV = SBV" | "store_op OP_SDV = SDV" | "store_op OP_SFV = SFV" | "store_op OP_SHV = SHV"
| "store_op OP_SLV = SLV" | "store_op OP_SPV = SPV" | "store_op OP_SQV = SQV" | "store_op OP_SRV = SRV"
| "store_op OP_SSV = SSV" | "store_op OP_SUV = SUV" | "store_op OP_SWV = SWV"

datatype vinstr =
    Vec vop lbyte vreg vreg vreg
  | I_VMACQ vreg | I_VMULQ lbyte vreg vreg vreg | I_VMOV lbyte vreg lane vreg | I_VNOP | I_VSAR lbyte vreg
  | I_VRND bool lbyte vreg nat vreg | I_VRCP bool lbyte vreg lane vreg | I_VRCPH lbyte vreg lane vreg
  | I_VRSQ bool lbyte vreg lane vreg | I_VRSQH lbyte vreg lane vreg
  | I_CFC2 "5 word" u8 | I_CTC2 "5 word" u8 | I_MFC2 lbyte "5 word" vreg | I_MTC2 lbyte "5 word" vreg
  | Load lop lbyte vreg "5 word" u8 | Store sop lbyte vreg "5 word" u8 | I_STV lbyte vreg "5 word" u8

fun exec :: "bool \<Rightarrow> vinstr \<Rightarrow> rsp \<Rightarrow> rsp" where
  "exec simd (Vec op e vd vs vt) s = s\<lparr>vpu := (if simd then vop_simd op else vop_sisd op) e vd vs vt (vpu s)\<rparr>"
| "exec simd (I_VMACQ vd) s = s\<lparr>vpu := VMACQ vd (vpu s)\<rparr>"
| "exec simd (I_VMULQ e vd vs vt) s = s\<lparr>vpu := VMULQ e vd vs vt (vpu s)\<rparr>"
| "exec simd (I_VMOV e vd de vt) s = s\<lparr>vpu := VMOV e vd de vt (vpu s)\<rparr>"
| "exec simd I_VNOP s = s\<lparr>vpu := VNOP (vpu s)\<rparr>"
| "exec simd (I_VSAR e vd) s = s\<lparr>vpu := VSAR e vd (vpu s)\<rparr>"
| "exec simd (I_VRND D e vd vs vt) s = s\<lparr>vpu := VRND D e vd vs vt (vpu s)\<rparr>"
| "exec simd (I_VRCP L e vd de vt) s = s\<lparr>vpu := VRCP L e vd de vt (vpu s)\<rparr>"
| "exec simd (I_VRCPH e vd de vt) s = s\<lparr>vpu := VRCPH e vd de vt (vpu s)\<rparr>"
| "exec simd (I_VRSQ L e vd de vt) s = s\<lparr>vpu := VRSQ L e vd de vt (vpu s)\<rparr>"
| "exec simd (I_VRSQH e vd de vt) s = s\<lparr>vpu := VRSQH e vd de vt (vpu s)\<rparr>"
| "exec simd (I_CFC2 rt rd) s = s\<lparr>gpr := (gpr s)(rt := (if simd then CFC2_simd else CFC2_sisd) rd (vpu s))\<rparr>"
| "exec simd (I_CTC2 rt rd) s = s\<lparr>vpu := (if simd then CTC2_simd else CTC2_sisd) (gpr s rt) rd (vpu s)\<rparr>"
| "exec simd (I_MFC2 e rt vs) s = s\<lparr>gpr := (gpr s)(rt := MFC2 e vs (vpu s))\<rparr>"
| "exec simd (I_MTC2 e rt vs) s = s\<lparr>vpu := MTC2 e (gpr s rt) vs (vpu s)\<rparr>"
| "exec simd (Load op e vt rs imm) s = s\<lparr>vpu := load_op op e (dm s) vt (gpr s rs) imm (vpu s)\<rparr>"
| "exec simd (Store op e vt rs imm) s = s\<lparr>dm := store_op op e (vr (vpu s) vt) (gpr s rs) imm (dm s)\<rparr>"
| "exec simd (I_STV e vt rs imm) s = s\<lparr>dm := STV e vt (gpr s rs) imm (vpu s) (dm s)\<rparr>"

definition run :: "bool \<Rightarrow> vinstr list \<Rightarrow> rsp \<Rightarrow> rsp" where
  "run simd is s = fold (exec simd) is s"

section \<open>Both builds agree\<close>

lemma vop_equiv: "flags_ok s \<Longrightarrow> vop_simd op e vd vs vt s = vop_sisd op e vd vs vt s"
  by (cases op) (simp_all add: logic_equiv select_equiv arith_equiv clip_equiv mac_equiv macf_equiv mul_equiv mulf_equiv)

text \<open>Every instruction leaves masks in the flag registers.\<close>

lemma is_mask_if [simp]: "is_mask v \<Longrightarrow> is_mask (\<lambda>n. if c n then mask16 (p n) else v n)"
  by (simp add: is_mask_def)

lemma flags_ok_wr [simp]: "flags_ok (wr vd v s) = flags_ok s"
  by (simp add: flags_ok_def wr_def)

lemma vop_flags: "flags_ok s \<Longrightarrow> flags_ok (vop_sisd op e vd vs vt s)"
  by (cases op) (simp_all add: sisd_defs VCH_sisd_def VCL_sisd_def VCR_sisd_def mac_defs mul_defs Let_def,
      simp_all add: flags_ok_def)

lemma ltv_fold_flags: "flags_ok (snd (snd (fold (ltv_step d b vb) is (a, o1, s)))) = flags_ok s"
  by (induction "is" arbitrary: a o1 s) (simp_all add: ltv_step_def Let_def)

lemma load_flags: "flags_ok s \<Longrightarrow> flags_ok (load_op op e d vt rs imm s)"
  by (cases op) (simp_all add: LBV_def LDV_def LFV_def LHV_def LLV_def LPV_def LQV_def LRV_def LSV_def LTV_def
      LUV_def LWV_def Let_def ltv_fold_flags)

lemma ctc2_flags: "flags_ok s \<Longrightarrow> flags_ok (CTC2_sisd rt rd s)"
  by (simp add: CTC2_sisd_def ctrl_set_def flags_ok_def)

lemma single_flags: "flags_ok s \<Longrightarrow> flags_ok (VMACQ vd s)" "flags_ok s \<Longrightarrow> flags_ok (VMULQ e vd vs vt s)"
  "flags_ok s \<Longrightarrow> flags_ok (VMOV e vd de vt s)" "flags_ok s \<Longrightarrow> flags_ok (VSAR e vd s)"
  "flags_ok s \<Longrightarrow> flags_ok (VRND D e vd n vt s)" "flags_ok s \<Longrightarrow> flags_ok (VRCP L e vd de vt s)"
  "flags_ok s \<Longrightarrow> flags_ok (VRCPH e vd de vt s)" "flags_ok s \<Longrightarrow> flags_ok (VRSQ L e vd de vt s)"
  "flags_ok s \<Longrightarrow> flags_ok (VRSQH e vd de vt s)" "flags_ok s \<Longrightarrow> flags_ok (MTC2 e rt vs s)"
  by (simp_all add: VMACQ_def VMULQ_def VMOV_def VSAR_def VRND_def VRCP_def VRCPH_def VRSQ_def VRSQH_def MTC2_def Let_def wr_def)
    (simp_all add: flags_ok_def)

lemma exec_equiv: "flags_ok (vpu s) \<Longrightarrow> exec True i s = exec False i s"
  by (cases i) (simp_all add: vop_equiv cfc2_equiv ctc2_equiv)

lemma exec_flags: "flags_ok (vpu s) \<Longrightarrow> flags_ok (vpu (exec b i s))"
  by (cases i) (simp_all add: vop_equiv ctc2_equiv vop_flags load_flags ctc2_flags single_flags VNOP_def)

lemma run_equiv: "flags_ok (vpu s) \<Longrightarrow> run True is s = run False is s"
  unfolding run_def
proof (induction "is" arbitrary: s)
  case (Cons i "is")
  then show ?case using exec_equiv [of s i] exec_flags [of s False i] by simp
qed simp

lemma run_flags: "flags_ok (vpu s) \<Longrightarrow> flags_ok (vpu (run b is s))"
  unfolding run_def by (induction "is" arbitrary: s) (simp_all add: exec_flags)

end
