(* ===== verification/RspProps.thy ===== *)
theory RspProps
  imports RspProgram
begin

text \<open>
  The properties of the RSP: agreement of the two builds of the vector unit, the exact
  arithmetic of the 48-bit accumulator, the divide unit's table bounds, the round trips of
  loads, stores and register moves, and the DMA engine.
\<close>

section \<open>The accumulator as a 48-bit integer\<close>

definition acc_int :: "vu \<Rightarrow> lane \<Rightarrow> int" where
  "acc_int s n = uint (acch s n) * 4294967296 + uint (accm s n) * 65536 + uint (accl s n)"

lemma acc_int_wr [simp]: "acc_int (wr vd v s) n = acc_int s n"
  by (simp add: acc_int_def wr_def)

lemma mod48: "k mod 281474976710656 = k div 4294967296 mod 65536 * 4294967296
      + k div 65536 mod 65536 * 65536 + k mod 65536" for k :: int
  using zmod_zmult2_eq [of 4294967296 k 65536] zmod_zmult2_eq [of 65536 "k div 65536" 65536]
  by (simp add: div16_div16)

lemma acc_int_words: "uint (word_of_int (k div 4294967296) :: u16) * 4294967296 + uint (word_of_int (k div 65536) :: u16) * 65536
      + uint (word_of_int k :: u16) = k mod 281474976710656"
  by (simp only: uint16_of_int mod48)

lemma acc_int_set: "acc_int (accumulatorSet (\<lambda>n. word_of_int (f n)) s) n = f n mod 281474976710656"
  by (simp add: acc_int_def accumulatorSet_def split_acc acc_int_words)

lemma acc_int_add: "acc_int (accumulatorSet (\<lambda>n. accumulatorGet s n + word_of_int (f n)) s) n
    = (acc_int s n + f n) mod 281474976710656"
proof -
  have "accumulatorGet s n + word_of_int (f n) = word_of_int (acc_int s n + f n)" for n
    by (simp add: accumulatorGet_int acc_int_def)
  then show ?thesis by (simp only: acc_int_set)
qed

text \<open>The integer a multiplication puts into the accumulator and a multiply-accumulate adds to it.\<close>

fun product :: "vop \<Rightarrow> u16 \<Rightarrow> u16 \<Rightarrow> int" where
  "product OP_VMACF a t = sint a * sint t * 2" | "product OP_VMACU a t = sint a * sint t * 2"
| "product OP_VMADM a t = sint a * uint t" | "product OP_VMADN a t = uint a * sint t"
| "product OP_VMADL a t = uint a * uint t div 65536" | "product OP_VMADH a t = sint a * sint t * 65536"
| "product OP_VMULF a t = sint a * sint t * 2 + 32768" | "product OP_VMULU a t = sint a * sint t * 2 + 32768"
| "product OP_VMUDM a t = sint a * uint t" | "product OP_VMUDN a t = uint a * sint t"
| "product OP_VMUDL a t = uint a * uint t div 65536" | "product OP_VMUDH a t = sint a * sint t * 65536"
| "product op a t = 0"

definition mac_ops :: "vop list" where
  "mac_ops = [OP_VMACF, OP_VMACU, OP_VMADH, OP_VMADL, OP_VMADM, OP_VMADN]"

definition mul_ops :: "vop list" where
  "mul_ops = [OP_VMULF, OP_VMULU, OP_VMUDH, OP_VMUDL, OP_VMUDM, OP_VMUDN]"

lemma madh_acc: "acc_int (VMADH_sisd e vd vs vt s) n
    = (acc_int s n + sint (vr s vs n) * sint (elem_sisd e (vr s vt) n) * 65536) mod 281474976710656"
proof -
  let ?k = "sint (vr s vs n) * sint (elem_sisd e (vr s vt) n)"
  let ?x = "uint (acch s n) * 65536 + uint (accm s n) + ?k"
  have big: "(65536 :: u16) = 0" by simp
  have m: "accm s n + word_of_int ?k = word_of_int ?x" by (simp add: big)
  have h: "acch s n + (word_of_int (?k div 65536) - mask16 (\<not> uint (accm s n) + uint (word_of_int ?k :: u16) < 65536))
      = word_of_int (?x div 65536)"
  proof -
    have "?x div 65536 = uint (acch s n) + (uint (accm s n) + ?k) div 65536"
      using div_mult_self1 [of 65536 "uint (accm s n) + ?k" "uint (acch s n)"] by (simp add: algebra_simps)
    then show ?thesis by (simp add: minus_mask16 add_carry)
  qed
  have "acch (VMADH_sisd e vd vs vt s) n = word_of_int (?x div 65536)" "accm (VMADH_sisd e vd vs vt s) n = word_of_int ?x"
    "accl (VMADH_sisd e vd vs vt s) n = accl s n"
    unfolding h [symmetric] m [symmetric] VMADH_sisd_def Let_def madh_words wr_def by simp_all
  then have "acc_int (VMADH_sisd e vd vs vt s) n = ?x div 65536 mod 65536 * 4294967296 + ?x mod 65536 * 65536 + uint (accl s n)"
    by (simp only: acc_int_def uint16_of_int)
  also have "\<dots> = (?x * 65536 + uint (accl s n)) mod 281474976710656"
  proof -
    have e: "?x * 65536 + uint (accl s n) = uint (accl s n) + 65536 * ?x" by simp
    note d = div16_eqI [OF e uint16_ge uint16_lt] mod16_eqI [OF e uint16_ge uint16_lt]
    show ?thesis
      unfolding mod48 [of "?x * 65536 + uint (accl s n)"] div16_div16 [symmetric] d ..
  qed
  also have "?x * 65536 + uint (accl s n) = acc_int s n + ?k * 65536"
    by (simp add: acc_int_def algebra_simps)
  finally show ?thesis .
qed

lemma low_word: "ucast (word_of_int k :: u16) = (word_of_int k :: u64)" if "0 \<le> k" "k < 65536" for k
proof -
  have "uint (word_of_int k :: u16) = k" using that by (simp add: uint16_of_int)
  then show ?thesis by (simp only: ucast_eq)
qed

lemma mul_uu_range: "0 \<le> uint a * uint t div 65536" "uint a * uint t div 65536 < 65536" for a t :: u16
proof -
  have "uint a * uint t \<le> 65535 * 65535"
    using uint16_lt [of a] uint16_lt [of t] by (intro mult_mono) auto
  then show "uint a * uint t div 65536 < 65536" by linarith
  show "0 \<le> uint a * uint t div 65536" by (simp add: pos_imp_zdiv_nonneg_iff)
qed

lemma push16: "push_bit 16 (word_of_int k :: u64) = word_of_int (k * 65536)"
  by (simp add: push_bit_eq_mult)

lemma mac_acc: assumes "op \<in> set mac_ops"
  shows "acc_int (vop_simd op e vd vs vt s) n
    = (acc_int s n + product op (vr s vs n) (elem_sisd e (vr s vt) n)) mod 281474976710656"
proof -
  have "vop_simd op e vd vs vt s = vop_sisd op e vd vs vt s"
    using assms by (auto simp: mac_ops_def mac_equiv macf_equiv)
  then show ?thesis
    using assms by (auto simp: mac_ops_def madh_acc VMACF_sisd_def VMADL_sisd_def VMADM_sisd_def VMADN_sisd_def
        Let_def acc_int_add madl_product simp del: of_int_mult)
qed

lemma mul_acc: assumes "op \<in> set mul_ops"
  shows "acc_int (vop_simd op e vd vs vt s) n
    = product op (vr s vs n) (elem_sisd e (vr s vt) n) mod 281474976710656"
proof -
  have "vop_simd op e vd vs vt s = vop_sisd op e vd vs vt s"
    using assms by (auto simp: mul_ops_def mul_equiv mulf_equiv)
  then show ?thesis
    using assms by (auto simp: mul_ops_def VMULF_sisd_def VMUDH_sisd_def VMUDL_sisd_def VMUDM_sisd_def VMUDN_sisd_def
        Let_def acc_int_set low_word mul_uu_range push16 simp del: of_int_mult of_int_add)
qed

section \<open>The divide unit\<close>

lemma clz_from_bound: "bit x k \<Longrightarrow> k < m \<Longrightarrow> m \<le> 32 \<Longrightarrow> clz_from m x \<le> 31"
  by (induction m) (auto simp: less_Suc_eq)

lemma clz32_bound: "x \<noteq> 0 \<Longrightarrow> clz32 x \<le> 31"
proof -
  assume "x \<noteq> 0"
  then obtain k where "bit x k" by (auto simp: bit_eq_iff)
  then show ?thesis using clz_from_bound [of x k 32] bit_imp_le_length [of x k] by (simp add: clz32_def)
qed

lemma div_index_bits: "bit (div_index data) k \<Longrightarrow> k < 9"
proof -
  have m: "(0x7fc00000 :: u64) = push_bit 22 (mask 9)" by (simp add: mask_eq_exp_minus_1)
  show "bit (div_index data) k \<Longrightarrow> k < 9"
    unfolding div_index_def m by (auto simp: bit_drop_bit_eq bit_ucast_iff bit_and_iff bit_push_bit_iff bit_mask_iff)
qed

lemma bits_bound: "(\<And>k. bit x k \<Longrightarrow> k < n) \<Longrightarrow> unat x < 2 ^ n" for x :: u32
proof -
  assume "\<And>k. bit x k \<Longrightarrow> k < n"
  then have "take_bit n x = x" by (intro bit_word_eqI) (auto simp: bit_take_bit_iff)
  then have "unat x = take_bit n (unat x)" by (metis unsigned_take_bit_eq)
  then show ?thesis by (metis take_bit_nat_less_exp)
qed

lemma div_index_bound: "VRCP_index data < 512" "VRSQ_index data < 512"
proof -
  have "unat (div_index data) < 2 ^ 9" by (rule bits_bound) (rule div_index_bits)
  then show "VRCP_index data < 512" by (simp add: VRCP_index_def)
  have "unat (div_index data AND 0x1fe OR (word_of_nat (clz32 data) AND 1)) < 2 ^ 9"
    by (rule bits_bound) (auto simp: bit_or_iff bit_and_iff bit_1_iff dest: div_index_bits)
  then show "VRSQ_index data < 512" by (simp add: VRSQ_index_def)
qed

lemma isqrt_loop_spec: "0 < a \<Longrightarrow> a * b * b < 2 ^ 44 \<Longrightarrow>
    a * isqrt_loop a b * isqrt_loop a b < 2 ^ 44 \<and> 2 ^ 44 \<le> a * (isqrt_loop a b + 1) * (isqrt_loop a b + 1)"
proof (induction a b rule: isqrt_loop.induct)
  case (1 a b)
  show ?case
  proof (cases "a * (b + 1) * (b + 1) < 2 ^ 44")
    case True
    then have "isqrt_loop a b = isqrt_loop a (b + 1)" using 1(2) by (subst isqrt_loop.simps) simp
    with 1 True show ?thesis by simp
  next
    case False
    then have "isqrt_loop a b = b" by (subst isqrt_loop.simps) simp
    with 1 False show ?thesis by simp
  qed
qed

section \<open>Properties\<close>

definition vu_reset :: vu where
  "vu_reset = \<lparr>vr = (\<lambda>_. vzero), acch = vzero, accm = vzero, accl = vzero, vcoh = vzero, vcol = vzero,
     vcch = vzero, vccl = vzero, vce = vzero, divin = 0, divout = 0, divdp = False\<rparr>"

definition rsp_reset :: rsp where
  "rsp_reset = \<lparr>vpu = vu_reset, dm = (\<lambda>_. 0), gpr = (\<lambda>_. 0)\<rparr>"

lemma flags_ok_reset: "flags_ok (vpu rsp_reset)" "flags_ok vu_reset"
  by (simp_all add: rsp_reset_def vu_reset_def flags_ok_def)

text \<open>
  C1. The SSE build and the scalar build of the vector unit run every sequence of vector
  instructions (arithmetic, compares, clips, multiplies, divides, moves, loads and stores)
  to the same registers, accumulator, flags, scalar registers and DMEM, from every state whose
  flag registers hold masks.
\<close>

theorem rsp_builds_agree: "flags_ok (vpu s) \<Longrightarrow> run True is s = run False is s"
  by (rule run_equiv)

theorem rsp_builds_agree_witness:
  "run True [Vec OP_VADDC 0 1 2 3, Vec OP_VCL 8 1 1 2, Vec OP_VMACF 2 4 1 3, I_CFC2 5 0] rsp_reset
   = run False [Vec OP_VADDC 0 1 2 3, Vec OP_VCL 8 1 1 2, Vec OP_VMACF 2 4 1 3, I_CFC2 5 0] rsp_reset"
  by (rule rsp_builds_agree [OF flags_ok_reset(1)])

text \<open>
  Each flag register holds a lane mask (0 or 0xffff in every lane) after any sequence of
  vector instructions, in either build, when it did before: the precondition of C1 is an
  invariant of the unit.
\<close>

theorem rsp_flags_invariant: "flags_ok (vpu s) \<Longrightarrow> flags_ok (vpu (run simd is s))"
  by (rule run_flags)

theorem rsp_flags_invariant_witness:
  "flags_ok (vpu (run True [Vec OP_VCH 0 1 2 3, I_CTC2 4 1] rsp_reset))"
  by (rule rsp_flags_invariant [OF flags_ok_reset(1)])

text \<open>
  C3. The SSE multiply-accumulates add the exact product, as the instruction defines it, to the
  48-bit accumulator modulo 2 to the 48, in every lane and for every operand: no carry between
  the three 16-bit words is lost.
\<close>

theorem mac_exact: "op \<in> set mac_ops \<Longrightarrow> acc_int (vop_simd op e vd vs vt s) n
    = (acc_int s n + product op (vr s vs n) (elem_simd e (vr s vt) n)) mod 2 ^ 48"
  using mac_acc [of op e vd vs vt s n] by (simp add: elem_equiv)

theorem mac_exact_witness: "acc_int (vop_simd OP_VMADN 0 1 2 3 vu_reset) 0
    = (acc_int vu_reset 0 + product OP_VMADN (vr vu_reset 2 0) (elem_simd 0 (vr vu_reset 3) 0)) mod 2 ^ 48"
  by (rule mac_exact) (simp add: mac_ops_def)

text \<open>
  C4. The SSE multiplications put the exact product (rounded by 0x8000 in the fractional
  forms) into the accumulator modulo 2 to the 48.
\<close>

theorem mul_exact: "op \<in> set mul_ops \<Longrightarrow> acc_int (vop_simd op e vd vs vt s) n
    = product op (vr s vs n) (elem_simd e (vr s vt) n) mod 2 ^ 48"
  using mul_acc [of op e vd vs vt s n] by (simp add: elem_equiv)

theorem mul_exact_witness: "acc_int (vop_simd OP_VMULF 0 1 2 3 vu_reset) 7
    = product OP_VMULF (vr vu_reset 2 7) (elem_simd 0 (vr vu_reset 3) 7) mod 2 ^ 48"
  by (rule mul_exact) (simp add: mul_ops_def)

text \<open>
  The divide unit indexes its 512-entry tables in bounds for every operand, and the count of
  leading zeros it shifts by is below 32 whenever the operand is not zero.
\<close>

theorem divide_table_bounds:
  "VRCP_index data < 512 \<and> VRSQ_index data < 512 \<and> (data = 0 \<or> clz32 data < 32)"
  using div_index_bound [of data] clz32_bound [of data] by (cases "data = 0") auto

text \<open>
  The loop of \<^verbatim>\<open>constants_init\<close> that fills the inverse square root table returns, from
  every start with \<open>a * b * b < 2^44\<close>, the largest \<open>b\<close> with that property.
\<close>

theorem isqrt_loop_maximal: "0 < a \<Longrightarrow> a * b * b < 2 ^ 44 \<Longrightarrow>
    a * isqrt_loop a b * isqrt_loop a b < 2 ^ 44 \<and> 2 ^ 44 \<le> a * (isqrt_loop a b + 1) * (isqrt_loop a b + 1)"
  by (rule isqrt_loop_spec)

theorem isqrt_loop_maximal_witness:
  "512 * isqrt_loop 512 (2 ^ 17) * isqrt_loop 512 (2 ^ 17) < 2 ^ 44
   \<and> 2 ^ 44 \<le> 512 * (isqrt_loop 512 (2 ^ 17) + 1) * (isqrt_loop 512 (2 ^ 17) + 1)"
  by (rule isqrt_loop_maximal) simp_all

text \<open>
  \<^verbatim>\<open>SQV\<close> and \<^verbatim>\<open>SRV\<close> at an address and sixteen bytes on store a whole vector register at
  any alignment, and \<^verbatim>\<open>LQV\<close> and \<^verbatim>\<open>LRV\<close> at the same addresses load it back unchanged.
\<close>

theorem quadword_roundtrip:
  "LRV 0 (SRV 0 v (rs + 16) imm (SQV 0 v rs imm d)) vt (rs + 16) imm
     (LQV 0 (SRV 0 v (rs + 16) imm (SQV 0 v rs imm d)) vt rs imm s) = wr vt v s"
  by (rule quad_roundtrip)

text \<open>
  A byte, halfword, word or doubleword store followed by the load of the same element at
  the same address restores the selected bytes of the register, stops at its last byte, and
  leaves the other bytes of the destination alone.
\<close>

theorem element_roundtrip:
  "get_byte (vr (LBV e (SBV e v rs imm d) vt rs imm s) vt) j = (if j = e then get_byte v j else get_byte (vr s vt) j)
 \<and> get_byte (vr (LSV e (SSV e v rs imm d) vt rs imm s) vt) j =
     (if unat e \<le> unat j \<and> unat j < unat e + 2 then get_byte v j else get_byte (vr s vt) j)
 \<and> get_byte (vr (LLV e (SLV e v rs imm d) vt rs imm s) vt) j =
     (if unat e \<le> unat j \<and> unat j < unat e + 4 then get_byte v j else get_byte (vr s vt) j)
 \<and> get_byte (vr (LDV e (SDV e v rs imm d) vt rs imm s) vt) j =
     (if unat e \<le> unat j \<and> unat j < unat e + 8 then get_byte v j else get_byte (vr s vt) j)"
  by (intro conjI load_store_reg)

text \<open>
  A word and a halfword stored to DMEM read back, also when they straddle the end of the
  4 KiB memory; the halfword loads extend its sixteen bits with zeros and with the sign.
\<close>

theorem scalar_roundtrip:
  "RSP_MEM_W_LOAD (RSP_MEM_W_STORE d offset addr val) offset addr = val
 \<and> RSP_MEM_HU_LOAD (RSP_MEM_H_STORE d offset addr val) offset addr = ucast (ucast val :: u16)
 \<and> RSP_MEM_H_LOAD (RSP_MEM_H_STORE d offset addr val) offset addr = scast (ucast val :: u16)"
  by (intro conjI word_load_store half_load_store)

text \<open>
  A control register written by \<^verbatim>\<open>CTC2\<close> reads back through \<^verbatim>\<open>CFC2\<close> in the SSE build:
  the sixteen flag bits of \<^verbatim>\<open>VCO\<close> and \<^verbatim>\<open>VCC\<close> with the sign extended, and eight bits of \<^verbatim>\<open>VCE\<close>.
\<close>

theorem control_roundtrip: "flags_ok s \<Longrightarrow> CFC2_simd rd (CTC2_simd rt rd s) =
    (if rd AND 3 = 0 \<or> rd AND 3 = 1 then scast (ucast rt :: u16) else rt AND 0xFF)"
  using cfc2_ctc2 [of rd rt s] ctc2_flags [of s rt rd] by (simp add: ctc2_equiv cfc2_equiv)

theorem control_roundtrip_witness: "CFC2_simd 0 (CTC2_simd 0x8001 0 vu_reset) = 0xFFFF8001"
  using control_roundtrip [OF flags_ok_reset(2), of 0 "0x8001"] by simp

text \<open>
  \<^verbatim>\<open>SPV\<close> then \<^verbatim>\<open>LPV\<close> keep the high byte of every element. \<^verbatim>\<open>SUV\<close> then \<^verbatim>\<open>LUV\<close> keep bits
  14 to 7; bit 15 of the loaded element is a copy of bit 14, because the load reads DMEM through
  the signed \<^verbatim>\<open>RSP_MEM_B\<close>.
\<close>

theorem packed_roundtrip:
  "vr (LPV 0 (SPV 0 v rs imm d) vt rs imm s) vt n = v n AND 0xFF00
 \<and> (bit (vr (LUV 0 (SUV 0 v rs imm d) vt rs imm s) vt n) k \<longleftrightarrow> k < 16 \<and> 7 \<le> k \<and> bit (v n) (min k 14))"
  using lpv_spv luv_suv by simp

text \<open>
  C12. An SP DMA copies row \<open>b\<close> between DMEM address \<open>base + b * length\<close> modulo 4 KiB and DRAM
  address \<open>base + b * (length + skip)\<close> modulo 16 MiB, for every one of its \<open>count + 1\<close> rows, and
  the address registers advance by the same totals.
\<close>

theorem dma_read_rows:
  "DO_DMA_READ rd m len (mem_addr, dram_addr, d) =
     (mem_addr + rsp_dma_pbus_increment len, dram_addr + rsp_dma_dram_increment len,
      fold (\<lambda>b. dma_block_in rd m (row_dmem mem_addr len b) (row_dram dram_addr len b) (rsp_dma_block_len len))
        [0..<unat (rsp_dma_count len) + 1] d)"
  by (simp only: DO_DMA_READ_def dma_rdram_to_dmem_def dma_rows_closed prod.case)

text \<open>
  A single-row DMA read leaves in DMEM exactly the DRAM bytes of the row, starting at the
  eight-byte aligned DMEM address and wrapping at 4 KiB, and changes no other byte.
\<close>

theorem dma_read_row_bytes: "rsp_dma_count len = 0 \<Longrightarrow>
    mem_b (dma_rdram_to_dmem rd m mem_addr dram_addr len d) x =
      (let k = unat (ucast (x - row_dmem mem_addr len 0) :: 12 word) in
       if k < unat (rsp_dma_block_len len) then rd m (row_dram dram_addr len 0 + of_nat k + 0x80000000)
       else mem_b d x)"
  by (simp add: dma_rdram_to_dmem_def dma_rows_closed dma_block_in_mem)

theorem dma_read_row_bytes_witness:
  "mem_b (dma_rdram_to_dmem (\<lambda>m a. m (a - 0x80000000)) (\<lambda>a. ucast a) 0 0x100 7 (\<lambda>_. 0)) 3 = 3"
proof -
  have "rsp_dma_count 7 = 0" by (simp add: rsp_dma_count_def)
  from dma_read_row_bytes [OF this, of "\<lambda>m a. m (a - 0x80000000)" "\<lambda>a. ucast a" 0 "0x100" "\<lambda>_. 0" 3]
  show ?thesis by (simp add: row_dmem_def row_dram_def rsp_dma_block_len_def)
qed

end
