(* ===== verification/GuestOs.thy ===== *)
theory GuestOs
  imports Prelude "HOL-Library.Multiset"
begin

text \<open>
  The state the cooperative kernel of \<^verbatim>\<open>ultramodern\<close> works on. Guest RDRAM is a map from the
  guest address of a structure field to its 32-bit value: \<^verbatim>\<open>OSThread\<close> and \<^verbatim>\<open>OSMesgQueue\<close> are
  reached through their field offsets, as \<^verbatim>\<open>TO_PTR\<close> and \<^verbatim>\<open>GET_MEMBER\<close> do, so structures that
  overlap in the guest overlap here. The head of the running queue is the host variable
  \<^verbatim>\<open>running_queue_impl\<close>; \<^verbatim>\<open>thread_self\<close> is the thread that executes; \<^verbatim>\<open>context\<close> of a thread is a
  host pointer and kept beside the guest memory (0 is \<^verbatim>\<open>nullptr\<close>); \<^verbatim>\<open>parked\<close> is the context and
  the point at which a host thread waits to be resumed; the external queue holds what host
  threads posted, in the order in which it hands it out.
\<close>

record qmsg =
  q_mq :: u32
  q_mesg :: u32
  q_jam :: bool
  q_coalescible :: bool

text \<open>
  Where a host thread that waits on the semaphore of its context goes on when it is resumed:
  at its entry point, at the return of the call that gave up the processor (with the value it
  returns), in the loop of a blocking send or receive, or in the loop of \<^verbatim>\<open>pause_self\<close>.
\<close>

datatype wait = WEntry | WReturn int | WSend u32 u32 bool | WRecv u32 u32 | WPause

record os =
  running_queue_impl :: u32
  mem :: "u32 \<Rightarrow> u32"
  thread_self :: u32
  ctx :: "u32 \<Rightarrow> u32"
  parked :: "u32 \<Rightarrow> (u32 \<times> wait) option"
  external_messages :: "qmsg list"
  external_pending :: u32
  external_requeues :: u64
  should_yield :: bool
  preempt_skip_budget :: u32

section \<open>Structure fields\<close>

abbreviation (input) f_next :: "u32 \<Rightarrow> u32" where "f_next t \<equiv> t"
abbreviation f_priority :: "u32 \<Rightarrow> u32" where "f_priority t \<equiv> t + 4"
abbreviation f_queue :: "u32 \<Rightarrow> u32" where "f_queue t \<equiv> t + 8"
abbreviation f_state :: "u32 \<Rightarrow> u32" where "f_state t \<equiv> t + 18"
abbreviation f_id :: "u32 \<Rightarrow> u32" where "f_id t \<equiv> t + 20"
abbreviation f_sp :: "u32 \<Rightarrow> u32" where "f_sp t \<equiv> t + 40"

definition priority :: "os \<Rightarrow> u32 \<Rightarrow> int" where
  "priority s t = sint (mem s (f_priority t))"

definition upd :: "u32 \<Rightarrow> u32 \<Rightarrow> os \<Rightarrow> os" where
  "upd a v s = s\<lparr>mem := (mem s)(a := v)\<rparr>"

definition STOPPED :: u32 where "STOPPED = 0"
definition QUEUED :: u32 where "QUEUED = 1"
definition RUNNING :: u32 where "RUNNING = 2"
definition BLOCKED :: u32 where "BLOCKED = 3"

definition running_queue :: u32 where "running_queue = - 1"

lemma upd_simps [simp]:
  "mem (upd a v s) b = (if b = a then v else mem s b)"
  "running_queue_impl (upd a v s) = running_queue_impl s"
  "thread_self (upd a v s) = thread_self s"
  "ctx (upd a v s) = ctx s"
  "parked (upd a v s) = parked s"
  "external_messages (upd a v s) = external_messages s"
  "external_pending (upd a v s) = external_pending s"
  "external_requeues (upd a v s) = external_requeues s"
  "should_yield (upd a v s) = should_yield s"
  "preempt_skip_budget (upd a v s) = preempt_skip_budget s"
  by (simp_all add: upd_def)

section \<open>Links\<close>

text \<open>\<^verbatim>\<open>PTR(OSThread)*\<close>: the address of a link of a thread queue, in the host or in the guest.\<close>

datatype link = RunHead | Cell u32

fun rd_link :: "os \<Rightarrow> link \<Rightarrow> u32" where
  "rd_link s RunHead = running_queue_impl s"
| "rd_link s (Cell a) = mem s a"

fun wr_link :: "link \<Rightarrow> u32 \<Rightarrow> os \<Rightarrow> os" where
  "wr_link RunHead v s = s\<lparr>running_queue_impl := v\<rparr>"
| "wr_link (Cell a) v s = upd a v s"

definition queue_to_ptr :: "u32 \<Rightarrow> link" where
  "queue_to_ptr queue = (if queue = running_queue then RunHead else Cell queue)"

definition valid_thread_ptr :: "u32 \<Rightarrow> bool" where
  "valid_thread_ptr v \<longleftrightarrow> v \<ge> 0x80000000 \<and> v < 0x80800000 \<and> v AND 3 = 0"

lemma wr_link_simps [simp]:
  "rd_link (wr_link l v s) l' = (if l = l' then v else rd_link s l')"
  "mem (wr_link l v s) b = (if l = Cell b then v else mem s b)"
  "thread_self (wr_link l v s) = thread_self s"
  "ctx (wr_link l v s) = ctx s"
  "parked (wr_link l v s) = parked s"
  "external_messages (wr_link l v s) = external_messages s"
  "external_pending (wr_link l v s) = external_pending s"
  "external_requeues (wr_link l v s) = external_requeues s"
  "should_yield (wr_link l v s) = should_yield s"
  "preempt_skip_budget (wr_link l v s) = preempt_skip_budget s"
  by (cases l; cases l'; auto)+

lemma rd_link_upd [simp]: "rd_link (upd a v s) l = (if l = Cell a then v else rd_link s l)"
  by (cases l) auto

end
