(* ===== verification/ThreadQueue.thy ===== *)
theory ThreadQueue
  imports GuestOs
begin

text \<open>
  The intrusive priority queues of \<^verbatim>\<open>ultramodern/src/threadqueue.cpp\<close>: insertion in descending
  priority order, removal of the head and of a given thread, with the guards that sever a
  corrupt chain. The loops stop after \<^verbatim>\<open>0x40000\<close> links, which is the fuel of the model. The
  event ring \<^verbatim>\<open>sched_log\<close> and the trailing trace loop write no kernel state and are left out.
\<close>

definition guard_limit :: nat where "guard_limit = 0x40000"

primrec insert_scan :: "nat \<Rightarrow> os \<Rightarrow> int \<Rightarrow> link \<Rightarrow> link" where
  "insert_scan 0 s p l = l"
| "insert_scan (Suc n) s p l = (let t = rd_link s l in
     if t \<noteq> 0 \<and> valid_thread_ptr t \<and> priority s t > p then insert_scan n s p (Cell (f_next t)) else l)"

definition thread_queue_insert :: "u32 \<Rightarrow> u32 \<Rightarrow> os \<Rightarrow> os" where
  "thread_queue_insert queue added s = (let
     l = insert_scan guard_limit s (priority s added) (queue_to_ptr queue);
     s = (if rd_link s l \<noteq> 0 \<and> \<not> valid_thread_ptr (rd_link s l) then wr_link l 0 s else s);
     s = upd (f_next added) (rd_link s l) s;
     s = upd (f_queue added) queue s;
     s = (if queue = running_queue then upd (f_state added) QUEUED s
          else if queue \<noteq> 0 then upd (f_state added) BLOCKED s else s)
     in wr_link l added s)"

definition thread_queue_pop :: "u32 \<Rightarrow> os \<Rightarrow> u32 \<times> os" where
  "thread_queue_pop queue s = (let head = queue_to_ptr queue; popped = rd_link s head in
     if \<not> valid_thread_ptr popped then (0, wr_link head 0 s)
     else (popped, upd (f_queue popped) 0 (wr_link head (mem s (f_next popped)) s)))"

primrec remove_scan :: "nat \<Rightarrow> u32 \<Rightarrow> link \<Rightarrow> os \<Rightarrow> bool \<times> os" where
  "remove_scan 0 t l s = (if rd_link s l = 0 then (False, s) else (False, wr_link l 0 s))"
| "remove_scan (Suc n) t l s = (let cur = rd_link s l in
     if cur = 0 then (False, s)
     else if \<not> valid_thread_ptr cur then (False, wr_link l 0 s)
     else if cur = t then (True, upd (f_queue cur) 0 (wr_link l (mem s (f_next cur)) s))
     else remove_scan n t (Cell (f_next cur)) s)"

definition thread_queue_remove :: "u32 \<Rightarrow> u32 \<Rightarrow> os \<Rightarrow> bool \<times> os" where
  "thread_queue_remove queue t s =
     (if queue \<noteq> running_queue \<and> \<not> valid_thread_ptr queue then (False, s)
      else remove_scan guard_limit t (queue_to_ptr queue) s)"

definition thread_queue_empty :: "u32 \<Rightarrow> os \<Rightarrow> bool" where
  "thread_queue_empty queue s \<longleftrightarrow> rd_link s (queue_to_ptr queue) = 0"

definition thread_queue_peek :: "u32 \<Rightarrow> os \<Rightarrow> u32" where
  "thread_queue_peek queue s = rd_link s (queue_to_ptr queue)"

section \<open>Chains\<close>

primrec chain :: "os \<Rightarrow> link \<Rightarrow> u32 list \<Rightarrow> bool" where
  "chain s l [] \<longleftrightarrow> rd_link s l = 0"
| "chain s l (t # ts) \<longleftrightarrow> rd_link s l = t \<and> valid_thread_ptr t \<and> chain s (Cell (f_next t)) ts"

lemma valid_nonzero: "valid_thread_ptr t \<Longrightarrow> t \<noteq> 0"
  by (auto simp: valid_thread_ptr_def)

text \<open>A chain is determined by the link it starts at.\<close>

lemma chain_unique: "chain s l ts \<Longrightarrow> chain s l ts' \<Longrightarrow> ts = ts'"
proof (induction ts arbitrary: l ts')
  case Nil
  then show ?case by (cases ts') (auto dest: valid_nonzero)
next
  case (Cons t ts)
  then show ?case by (cases ts') (auto dest: valid_nonzero)
qed

lemma chain_cong:
  "rd_link s' k = rd_link s l \<Longrightarrow> \<forall>t \<in> set ts. mem s' (f_next t) = mem s (f_next t) \<Longrightarrow> chain s' k ts = chain s l ts"
proof (induction ts arbitrary: k l)
  case (Cons t ts)
  then have "chain s' (Cell t) ts = chain s (Cell t) ts" by (intro Cons.IH) auto
  with Cons.prems show ?case by simp
qed simp

section \<open>Insertion\<close>

text \<open>The specification: ahead of the first thread that the new one does not outrank by itself.\<close>

definition pri_insert :: "(u32 \<Rightarrow> int) \<Rightarrow> u32 \<Rightarrow> u32 list \<Rightarrow> u32 list" where
  "pri_insert pr a ts = takeWhile (\<lambda>t. pr t > pr a) ts @ a # dropWhile (\<lambda>t. pr t > pr a) ts"

primrec last_link :: "link \<Rightarrow> u32 list \<Rightarrow> link" where
  "last_link l [] = l"
| "last_link l (t # ts) = last_link (Cell (f_next t)) ts"

lemma insert_scan_chain:
  "chain s l ts \<Longrightarrow> length ts \<le> n \<Longrightarrow> insert_scan n s p l = last_link l (takeWhile (\<lambda>t. priority s t > p) ts)"
proof (induction ts arbitrary: l n)
  case Nil
  then show ?case by (cases n) auto
next
  case (Cons t ts)
  then obtain m where "n = Suc m" by (cases n) auto
  with Cons show ?case by (auto dest: valid_nonzero)
qed

lemma last_link_cases: "last_link l ts = (if ts = [] then l else Cell (f_next (last ts)))"
  by (induction ts arbitrary: l) auto

primrec path :: "os \<Rightarrow> link \<Rightarrow> u32 list \<Rightarrow> bool" where
  "path s l [] \<longleftrightarrow> True"
| "path s l (t # ts) \<longleftrightarrow> rd_link s l = t \<and> valid_thread_ptr t \<and> path s (Cell (f_next t)) ts"

lemma chain_append: "chain s l (ts @ us) \<longleftrightarrow> path s l ts \<and> chain s (last_link l ts) us"
  by (induction ts arbitrary: l) auto

lemma chain_valid: "chain s l ts \<Longrightarrow> t \<in> set ts \<Longrightarrow> valid_thread_ptr t"
  by (induction ts arbitrary: l) auto

text \<open>The links a path reads: its start and the \<open>next\<close> fields of all threads but the last.\<close>

lemma path_cong: "rd_link s' l = rd_link s l \<or> ts = [] \<Longrightarrow>
    \<forall>t \<in> set (butlast ts). mem s' (f_next t) = mem s (f_next t) \<Longrightarrow> path s' l ts = path s l ts"
proof (induction ts arbitrary: l)
  case (Cons t ts)
  have "path s' (Cell t) ts = path s (Cell t) ts"
    using Cons.prems by (intro Cons.IH) (auto split: if_splits)
  with Cons.prems show ?case by auto
qed simp

section \<open>Layout of threads and queues in guest memory\<close>

text \<open>The fields of an \<^verbatim>\<open>OSThread\<close> the kernel reads and writes.\<close>

definition tcells :: "u32 \<Rightarrow> u32 set" where
  "tcells t = {f_next t, f_priority t, f_queue t, f_state t, f_id t, f_sp t}"

definition layout :: "u32 set \<Rightarrow> u32 set \<Rightarrow> bool" where
  "layout T Q \<longleftrightarrow> finite T \<and> card T < guard_limit
     \<and> (\<forall>t \<in> T. valid_thread_ptr t) \<and> (\<forall>t \<in> T. \<forall>u \<in> T. t \<noteq> u \<longrightarrow> tcells t \<inter> tcells u = {})
     \<and> (\<forall>q \<in> Q. \<forall>t \<in> T. q \<notin> tcells t) \<and> (\<forall>q \<in> Q. valid_thread_ptr q)"

definition qok :: "u32 set \<Rightarrow> os \<Rightarrow> u32 \<Rightarrow> u32 list \<Rightarrow> bool" where
  "qok T s q ts \<longleftrightarrow> chain s (queue_to_ptr q) ts \<and> distinct ts \<and> set ts \<subseteq> T
     \<and> sorted_wrt (\<lambda>x y. priority s x \<ge> priority s y) ts"

text \<open>
  The kernel invariant: every queue is a well-formed chain in descending priority order, and no
  thread is in two queues. \<open>qs\<close> gives the contents of each queue.
\<close>

definition kernel_inv :: "u32 set \<Rightarrow> u32 set \<Rightarrow> os \<Rightarrow> (u32 \<Rightarrow> u32 list) \<Rightarrow> bool" where
  "kernel_inv T Q s qs \<longleftrightarrow> layout T Q \<and> (\<forall>q \<in> insert running_queue Q. qok T s q (qs q))
     \<and> (\<forall>q \<in> insert running_queue Q. \<forall>r \<in> insert running_queue Q. q \<noteq> r \<longrightarrow> set (qs q) \<inter> set (qs r) = {})"

lemma tcells_self: "t \<in> tcells t" "f_priority t \<in> tcells t" "f_queue t \<in> tcells t" "f_state t \<in> tcells t"
  "f_id t \<in> tcells t" "f_sp t \<in> tcells t"
  by (simp_all add: tcells_def)

lemma tcells_distinct: "(t :: u32) + 4 \<noteq> t" "t + 8 \<noteq> t" "t + 18 \<noteq> t" "t + 8 \<noteq> t + 4" "t + 18 \<noteq> t + 4" "t + 18 \<noteq> t + 8"
  by simp_all

lemma layout_disjoint: "layout T Q \<Longrightarrow> t \<in> T \<Longrightarrow> u \<in> T \<Longrightarrow> t \<noteq> u \<Longrightarrow> x \<in> tcells t \<Longrightarrow> y \<in> tcells u \<Longrightarrow> x \<noteq> y"
  by (auto simp: layout_def)

lemma layout_queue: "layout T Q \<Longrightarrow> q \<in> Q \<Longrightarrow> t \<in> T \<Longrightarrow> x \<in> tcells t \<Longrightarrow> q \<noteq> x"
  by (auto simp: layout_def)

lemma layout_running: "layout T Q \<Longrightarrow> q \<in> Q \<Longrightarrow> q \<noteq> running_queue"
  by (auto simp: layout_def valid_thread_ptr_def running_queue_def)

text \<open>What the link at which a thread is spliced in, or unlinked, may be.\<close>

definition own_link :: "u32 \<Rightarrow> u32 list \<Rightarrow> link \<Rightarrow> bool" where
  "own_link q ts l \<longleftrightarrow> l = queue_to_ptr q \<or> (\<exists>t \<in> set ts. l = Cell (f_next t))"

lemma own_link_last: "set us \<subseteq> set ts \<Longrightarrow> own_link q ts (last_link (queue_to_ptr q) us)"
  by (cases us rule: rev_cases) (auto simp: own_link_def last_link_cases)

text \<open>
  A state change that writes one link of queue \<open>q\<close> and fields of a thread \<open>a\<close> other than its
  priority keeps every queue that neither is \<open>q\<close> nor holds \<open>a\<close>.
\<close>

definition touches :: "os \<Rightarrow> os \<Rightarrow> link \<Rightarrow> u32 \<Rightarrow> bool" where
  "touches s s' l a \<longleftrightarrow> (\<forall>k. k \<noteq> l \<and> (\<forall>x \<in> tcells a. k \<noteq> Cell x) \<longrightarrow> rd_link s' k = rd_link s k)
     \<and> (l \<noteq> Cell (f_priority a) \<longrightarrow> mem s' (f_priority a) = mem s (f_priority a))"

lemma touchesD: "touches s s' l a \<Longrightarrow> k \<noteq> l \<Longrightarrow> (\<And>x. x \<in> tcells a \<Longrightarrow> k \<noteq> Cell x) \<Longrightarrow> rd_link s' k = rd_link s k"
  by (simp add: touches_def)

lemma layout_not_thread: "layout T Q \<Longrightarrow> q \<in> Q \<Longrightarrow> q \<notin> T"
  using tcells_self(1) [of q] by (auto simp: layout_def)

lemma own_link_not_cell:
  assumes "layout T Q" "own_link q ts l" "set ts \<subseteq> T" "q \<in> insert running_queue Q" "t \<in> T" "x \<in> tcells t"
    and "x \<noteq> f_next t \<or> t \<notin> set ts"
  shows "l \<noteq> Cell x"
proof
  assume l: "l = Cell x"
  consider "q \<in> Q" "x = q" | u where "u \<in> set ts" "x = f_next u"
    using assms(2,4) l by (auto simp: own_link_def queue_to_ptr_def split: if_splits)
  then show False
  proof cases
    case 1
    then show ?thesis using layout_queue [OF assms(1) 1(1) assms(5,6)] by simp
  next
    case 2
    then have "u \<noteq> t" using assms(7) by auto
    then show ?thesis using layout_disjoint [OF assms(1) _ assms(5), of u "f_next u" x] 2 assms(3,6) by (auto simp: tcells_self)
  qed
qed

lemma touches_priority:
  assumes "touches s s' l a" "layout T Q" "own_link q ts l" "set ts \<subseteq> T" "q \<in> insert running_queue Q" "a \<in> T" "t \<in> T"
  shows "priority s' t = priority s t"
proof (cases "t = a")
  case True
  have "l \<noteq> Cell (f_priority a)"
    using own_link_not_cell [OF assms(2-6), of "f_priority a"] by (simp add: tcells_self)
  with True assms(1) show ?thesis by (simp add: touches_def priority_def)
next
  case False
  have "l \<noteq> Cell (f_priority t)"
    using own_link_not_cell [OF assms(2-5,7), of "f_priority t"] by (simp add: tcells_self)
  moreover have "f_priority t \<noteq> x" if "x \<in> tcells a" for x
    by (rule layout_disjoint [OF assms(2,7,6) False tcells_self(2) that])
  ultimately have "rd_link s' (Cell (f_priority t)) = rd_link s (Cell (f_priority t))"
    by (intro touchesD [OF assms(1)]) auto
  then show ?thesis by (simp add: priority_def)
qed

lemma touches_other_queue:
  assumes t: "touches s s' l a" and lay: "layout T Q" and own: "own_link q ts l" and ts: "set ts \<subseteq> T"
    and q: "q \<in> insert running_queue Q" and a: "a \<in> T"
    and r: "r \<in> insert running_queue Q" "r \<noteq> q" and ok: "qok T s r us" and "a \<notin> set us" "set us \<inter> set ts = {}"
  shows "qok T s' r us"
proof -
  have us: "set us \<subseteq> T" using ok by (simp add: qok_def)
  have "queue_to_ptr r \<noteq> l"
    using r own q ts layout_not_thread [OF lay, of r]
    by (auto simp: own_link_def queue_to_ptr_def split: if_splits)
  moreover have "queue_to_ptr r \<noteq> Cell x" if "x \<in> tcells a" for x
    using r layout_queue [OF lay _ a that, of r] by (auto simp: queue_to_ptr_def split: if_splits)
  ultimately have "rd_link s' (queue_to_ptr r) = rd_link s (queue_to_ptr r)"
    by (intro touchesD [OF t]) auto
  moreover have "mem s' (f_next u) = mem s (f_next u)" if u: "u \<in> set us" for u
  proof -
    have "l \<noteq> Cell (f_next u)"
      using own_link_not_cell [OF lay own ts q, of u "f_next u"] u us assms(11) by (auto simp: tcells_self)
    moreover have "f_next u \<noteq> x" if "x \<in> tcells a" for x
      using layout_disjoint [OF lay _ a _ tcells_self(1) that, of u] u us assms(10) by auto
    ultimately have "rd_link s' (Cell (f_next u)) = rd_link s (Cell (f_next u))"
      by (intro touchesD [OF t]) auto
    then show ?thesis by simp
  qed
  ultimately have "chain s' (queue_to_ptr r) us = chain s (queue_to_ptr r) us" by (intro chain_cong) auto
  moreover have "priority s' u = priority s u" if "u \<in> set us" for u
    using touches_priority [OF t lay own ts q a] that us by blast
  ultimately show ?thesis using ok by (auto simp: qok_def elim!: sorted_wrt_mono_rel [rotated])
qed

section \<open>The operations on a well-formed kernel\<close>

lemma chain_length: assumes "layout T Q" "qok T s q ts" shows "length ts < guard_limit"
proof -
  have "length ts = card (set ts)" using assms(2) by (simp add: qok_def distinct_card)
  also have "\<dots> \<le> card T" using assms by (intro card_mono) (auto simp: qok_def layout_def)
  also have "\<dots> < guard_limit" using assms(1) by (simp add: layout_def)
  finally show ?thesis by simp
qed

lemma chain_head: "chain s l ts \<Longrightarrow> rd_link s l = (case ts of [] \<Rightarrow> 0 | t # _ \<Rightarrow> t)"
  by (cases ts) auto

lemma insert_eq:
  assumes "layout T Q" "qok T s q ts" "a \<in> T" "a \<notin> set ts" "q \<in> insert running_queue Q"
  defines "A \<equiv> takeWhile (\<lambda>t. priority s t > priority s a) ts" and "B \<equiv> dropWhile (\<lambda>t. priority s t > priority s a) ts"
  defines "l \<equiv> last_link (queue_to_ptr q) A"
  shows "thread_queue_insert q a s = wr_link l a (upd (f_state a) (if q = running_queue then QUEUED else BLOCKED)
      (upd (f_queue a) q (upd (f_next a) (rd_link s l) s)))"
proof -
  have c: "chain s (queue_to_ptr q) (A @ B)" using assms(2) by (simp add: qok_def A_def B_def)
  then have b: "chain s l B" by (simp add: chain_append l_def)
  have "insert_scan guard_limit s (priority s a) (queue_to_ptr q) = l"
    using insert_scan_chain [of s "queue_to_ptr q" ts guard_limit] less_imp_le [OF chain_length [OF assms(1,2)]] assms(2)
    by (simp add: l_def A_def qok_def)
  moreover have "\<not> (rd_link s l \<noteq> 0 \<and> \<not> valid_thread_ptr (rd_link s l))"
    using b by (cases B) auto
  moreover have "q \<noteq> 0" using assms(1,5) by (auto simp: layout_def running_queue_def dest: valid_nonzero)
  ultimately show ?thesis by (auto simp: thread_queue_insert_def Let_def)
qed

lemma queue_ptr_not_thread:
  "layout T Q \<Longrightarrow> q \<in> insert running_queue Q \<Longrightarrow> t \<in> T \<Longrightarrow> queue_to_ptr q \<noteq> Cell (f_next t)"
  using layout_not_thread [of T Q q] by (auto simp: queue_to_ptr_def)

lemma last_link_other:
  "layout T Q \<Longrightarrow> q \<in> insert running_queue Q \<Longrightarrow> t \<in> T \<Longrightarrow> t \<notin> set ts \<Longrightarrow> Cell (f_next t) \<noteq> last_link (queue_to_ptr q) ts"
  using queue_ptr_not_thread [of T Q q t] by (cases ts rule: rev_cases) (auto simp: last_link_cases)

lemma last_link_butlast: "distinct ts \<Longrightarrow> t \<in> set (butlast ts) \<Longrightarrow> Cell (f_next t) \<noteq> last_link l ts"
  by (cases ts rule: rev_cases) (auto simp: last_link_cases)

lemma last_link_start:
  "layout T Q \<Longrightarrow> q \<in> insert running_queue Q \<Longrightarrow> set ts \<subseteq> T \<Longrightarrow> ts \<noteq> [] \<Longrightarrow> queue_to_ptr q \<noteq> last_link (queue_to_ptr q) ts"
  using queue_ptr_not_thread [of T Q q "last ts"] by (cases ts rule: rev_cases) (auto simp: last_link_cases)

lemma insert_chain:
  assumes lay: "layout T Q" and ok: "qok T s q ts" and a: "a \<in> T" "a \<notin> set ts" and q: "q \<in> insert running_queue Q"
  defines "s' \<equiv> thread_queue_insert q a s"
  shows "\<exists>l. own_link q ts l \<and> touches s s' l a" and "chain s' (queue_to_ptr q) (pri_insert (priority s) a ts)"
proof -
  let ?A = "takeWhile (\<lambda>t. priority s t > priority s a) ts" and ?B = "dropWhile (\<lambda>t. priority s t > priority s a) ts"
  let ?l = "last_link (queue_to_ptr q) ?A"
  note eq = insert_eq [OF lay ok a q, folded s'_def]
  have ts: "set ts \<subseteq> T" "distinct ts" using ok by (simp_all add: qok_def)
  have own: "own_link q ts ?l" by (rule own_link_last) (auto dest: set_takeWhileD)
  have la: "?l \<noteq> Cell x" if "x \<in> tcells a" for x
    by (rule own_link_not_cell [OF lay own ts(1) q a(1) that]) (use a in simp)
  have touch: "touches s s' ?l a"
    unfolding touches_def eq by (auto simp: tcells_self tcells_def la)
  then show "\<exists>l. own_link q ts l \<and> touches s s' l a" using own by blast
  have c: "path s (queue_to_ptr q) ?A" "chain s ?l ?B"
    using ok chain_append [of s "queue_to_ptr q" ?A ?B] by (simp_all add: qok_def)
  have keep: "mem s' (f_next t) = mem s (f_next t)" if "t \<in> set ts" "Cell (f_next t) \<noteq> ?l" for t
  proof -
    have "Cell (f_next t) \<noteq> Cell x" if "x \<in> tcells a" for x
      using layout_disjoint [OF lay _ a(1) _ tcells_self(1) that, of t] \<open>t \<in> set ts\<close> ts a by auto
    then have "rd_link s' (Cell (f_next t)) = rd_link s (Cell (f_next t))"
      using that(2) by (intro touchesD [OF touch]) auto
    then show ?thesis by simp
  qed
  have dis: "set ?A \<inter> set ?B = {}" "distinct ?A"
    using ts(2) distinct_append [of ?A ?B] by auto
  have "chain s' (Cell (f_next a)) ?B = chain s ?l ?B"
  proof (rule chain_cong)
    show "rd_link s' (Cell (f_next a)) = rd_link s ?l" using la [OF tcells_self(1)] by (simp add: eq)
    show "\<forall>t \<in> set ?B. mem s' (f_next t) = mem s (f_next t)"
    proof
      fix t assume t: "t \<in> set ?B"
      then have "t \<in> set ts" "t \<notin> set ?A" using dis(1) by (auto dest: set_dropWhileD)
      then show "mem s' (f_next t) = mem s (f_next t)"
        using ts(1) by (intro keep last_link_other [OF lay q]) auto
    qed
  qed
  moreover have "rd_link s' ?l = a" by (simp add: eq)
  moreover have "valid_thread_ptr a" using lay a by (simp add: layout_def)
  moreover have "path s' (queue_to_ptr q) ?A = path s (queue_to_ptr q) ?A"
  proof (rule path_cong)
    show "rd_link s' (queue_to_ptr q) = rd_link s (queue_to_ptr q) \<or> ?A = []"
    proof (cases "?A = []")
      case False
      have "queue_to_ptr q \<noteq> ?l"
        using last_link_start [OF lay q _ False] ts(1) by (auto dest: set_takeWhileD)
      moreover have "queue_to_ptr q \<noteq> Cell x" if "x \<in> tcells a" for x
        using layout_queue [OF lay _ a(1) that, of q] q by (auto simp: queue_to_ptr_def)
      ultimately show ?thesis by (intro disjI1 touchesD [OF touch]) auto
    qed simp
    show "\<forall>t \<in> set (butlast ?A). mem s' (f_next t) = mem s (f_next t)"
      using keep last_link_butlast [OF dis(2)] by (meson in_set_butlastD set_takeWhileD)
  qed
  ultimately show "chain s' (queue_to_ptr q) (pri_insert (priority s) a ts)"
    using c by (simp add: pri_insert_def chain_append)
qed

text \<open>Unlinking the thread after a prefix \<open>A\<close>, as the pop (empty prefix) and the removal do.\<close>

definition unlink :: "link \<Rightarrow> u32 \<Rightarrow> os \<Rightarrow> os" where
  "unlink l t s = upd (f_queue t) 0 (wr_link l (mem s (f_next t)) s)"

lemma path_keep:
  assumes touch: "touches s s' l a" and lay: "layout T Q" and q: "q \<in> insert running_queue Q"
    and A: "set A \<subseteq> T" "distinct A" "a \<notin> set A" and a: "a \<in> T" and l: "l = last_link (queue_to_ptr q) A"
  shows "path s' (queue_to_ptr q) A = path s (queue_to_ptr q) A"
proof (rule path_cong)
  show "rd_link s' (queue_to_ptr q) = rd_link s (queue_to_ptr q) \<or> A = []"
  proof (cases "A = []")
    case False
    have "queue_to_ptr q \<noteq> l" using last_link_start [OF lay q A(1) False] l by simp
    moreover have "queue_to_ptr q \<noteq> Cell x" if "x \<in> tcells a" for x
      using layout_queue [OF lay _ a that, of q] q by (auto simp: queue_to_ptr_def)
    ultimately show ?thesis by (intro disjI1 touchesD [OF touch]) auto
  qed simp
  show "\<forall>t \<in> set (butlast A). mem s' (f_next t) = mem s (f_next t)"
  proof
    fix t assume t: "t \<in> set (butlast A)"
    then have tA: "t \<in> T" "t \<noteq> a" using A in_set_butlastD [of t A] by auto
    have "rd_link s' (Cell (f_next t)) = rd_link s (Cell (f_next t))"
      using last_link_butlast [OF A(2) t] layout_disjoint [OF lay tA(1) a tA(2) tcells_self(1)] l
      by (intro touchesD [OF touch]) auto
    then show "mem s' (f_next t) = mem s (f_next t)" by simp
  qed
qed

lemma unlink_chain:
  assumes lay: "layout T Q" and ok: "qok T s q (A @ t # B)" and q: "q \<in> insert running_queue Q"
  defines "l \<equiv> last_link (queue_to_ptr q) A"
  shows "touches s (unlink l t s) l t" and "own_link q (A @ t # B) l" and "chain (unlink l t s) (queue_to_ptr q) (A @ B)"
proof -
  have T: "set A \<subseteq> T" "set B \<subseteq> T" "t \<in> T" and d: "distinct A" "t \<notin> set A" "t \<notin> set B" "set A \<inter> set B = {}"
    using ok by (auto simp: qok_def)
  have c: "path s (queue_to_ptr q) A" "rd_link s l = t" "chain s (Cell (f_next t)) B"
    using ok by (simp_all add: qok_def chain_append l_def)
  show own: "own_link q (A @ t # B) l" unfolding l_def by (rule own_link_last) auto
  have lq: "l \<noteq> Cell (f_queue t)"
    by (rule own_link_not_cell [OF lay own _ q T(3) tcells_self(3)]) (use T in auto)
  show touch: "touches s (unlink l t s) l t"
    by (auto simp: touches_def unlink_def tcells_def)
  have "chain (unlink l t s) l B = chain s (Cell (f_next t)) B"
  proof (rule chain_cong)
    show "rd_link (unlink l t s) l = rd_link s (Cell (f_next t))" using lq by (simp add: unlink_def)
    show "\<forall>u \<in> set B. mem (unlink l t s) (f_next u) = mem s (f_next u)"
    proof
      fix u assume u: "u \<in> set B"
      then have uT: "u \<in> T" "u \<noteq> t" "u \<notin> set A" using T d by auto
      have "rd_link (unlink l t s) (Cell (f_next u)) = rd_link s (Cell (f_next u))"
        using last_link_other [OF lay q uT(1,3)] layout_disjoint [OF lay uT(1) T(3) uT(2) tcells_self(1)]
        by (intro touchesD [OF touch]) (auto simp: l_def)
      then show "mem (unlink l t s) (f_next u) = mem s (f_next u)" by simp
    qed
  qed
  moreover have "path (unlink l t s) (queue_to_ptr q) A = path s (queue_to_ptr q) A"
    by (rule path_keep [OF touch lay q T(1) d(1,2) T(3)]) (simp add: l_def)
  ultimately show "chain (unlink l t s) (queue_to_ptr q) (A @ B)"
    using c by (simp add: chain_append l_def)
qed

lemma kernel_touch:
  assumes inv: "kernel_inv T Q s qs" and q: "q \<in> insert running_queue Q" and touch: "touches s s' l a"
    and own: "own_link q (qs q) l" and a: "a \<in> T" "\<forall>r \<in> insert running_queue Q. r \<noteq> q \<longrightarrow> a \<notin> set (qs r)"
    and new: "chain s' (queue_to_ptr q) ts" "distinct ts" "set ts \<subseteq> insert a (set (qs q))"
      "sorted_wrt (\<lambda>x y. priority s x \<ge> priority s y) ts"
  shows "kernel_inv T Q s' (qs(q := ts))" and "\<forall>t \<in> T. priority s' t = priority s t"
proof -
  have lay: "layout T Q" and ok: "\<And>r. r \<in> insert running_queue Q \<Longrightarrow> qok T s r (qs r)"
    and dis: "\<And>r u. r \<in> insert running_queue Q \<Longrightarrow> u \<in> insert running_queue Q \<Longrightarrow> r \<noteq> u \<Longrightarrow> set (qs r) \<inter> set (qs u) = {}"
    using inv unfolding kernel_inv_def by blast+
  have qT: "set (qs q) \<subseteq> T" using ok [OF q] by (simp add: qok_def)
  show pr: "\<forall>t \<in> T. priority s' t = priority s t"
    using touches_priority [OF touch lay own qT q a(1)] by blast
  have "sorted_wrt (\<lambda>x y. priority s' x \<ge> priority s' y) ts"
  proof (rule sorted_wrt_mono_rel [OF _ new(4)])
    fix x y assume xy: "x \<in> set ts" "y \<in> set ts" "priority s x \<ge> priority s y"
    then have "x \<in> T" "y \<in> T" using new(3) qT a(1) by auto
    then show "priority s' x \<ge> priority s' y" using pr xy(3) by simp
  qed
  then have "qok T s' q ts" using new qT a(1) by (auto simp: qok_def)
  moreover have "qok T s' r (qs r)" if r: "r \<in> insert running_queue Q" "r \<noteq> q" for r
    using touches_other_queue [OF touch lay own qT q a(1) r ok [OF r(1)]] a(2) r dis [OF r(1) q r(2)] by blast
  ultimately have oks: "\<forall>r \<in> insert running_queue Q. qok T s' r ((qs(q := ts)) r)" by auto
  have new_dis: "set ts \<inter> set (qs r) = {}" if "r \<in> insert running_queue Q" "r \<noteq> q" for r
    using dis [OF that(1) q that(2)] new(3) a(2) that by blast
  have "set ((qs(q := ts)) r) \<inter> set ((qs(q := ts)) u) = {}"
    if "r \<in> insert running_queue Q" "u \<in> insert running_queue Q" "r \<noteq> u" for r u
    using that new_dis [of r] new_dis [of u] dis [OF that] by (cases "r = q"; cases "u = q") auto
  with lay oks show "kernel_inv T Q s' (qs(q := ts))" unfolding kernel_inv_def by blast
qed

section \<open>The specification of insertion and removal\<close>

lemma set_pri_insert [simp]: "set (pri_insert pr a ts) = insert a (set ts)"
  using set_append [of "takeWhile (\<lambda>t. pr t > pr a) ts" "dropWhile (\<lambda>t. pr t > pr a) ts"]
  by (simp add: pri_insert_def)

lemma mset_pri_insert [simp]: "mset (pri_insert pr a ts) = mset (a # ts)"
  using mset_append [of "takeWhile (\<lambda>t. pr t > pr a) ts" "dropWhile (\<lambda>t. pr t > pr a) ts"]
  by (simp add: pri_insert_def)

lemma distinct_pri_insert [simp]: "distinct (pri_insert pr a ts) \<longleftrightarrow> distinct (a # ts)"
  by (rule mset_eq_imp_distinct_iff) simp

lemma sorted_pri_insert:
  "sorted_wrt (\<lambda>x y. pr x \<ge> pr y) ts \<Longrightarrow> sorted_wrt (\<lambda>x y. (pr x :: int) \<ge> pr y) (pri_insert pr a ts)"
proof (induction ts)
  case (Cons t ts)
  then show ?case by (cases "pr t > pr a") (auto simp: pri_insert_def dest: set_takeWhileD set_dropWhileD)
qed (simp add: pri_insert_def)

lemma pri_insert_cong: "\<forall>t \<in> insert a (set ts). pr t = pr' t \<Longrightarrow> pri_insert pr a ts = pri_insert pr' a ts"
  using takeWhile_cong [of ts ts "\<lambda>t. pr t > pr a" "\<lambda>t. pr' t > pr' a"]
    dropWhile_cong [of ts ts "\<lambda>t. pr t > pr a" "\<lambda>t. pr' t > pr' a"]
  by (simp add: pri_insert_def)

text \<open>In no queue.\<close>

definition unqueued :: "u32 set \<Rightarrow> (u32 \<Rightarrow> u32 list) \<Rightarrow> u32 \<Rightarrow> bool" where
  "unqueued Q qs a \<longleftrightarrow> (\<forall>q \<in> insert running_queue Q. a \<notin> set (qs q))"

lemma kernel_invD:
  assumes "kernel_inv T Q s qs"
  shows "layout T Q" and "q \<in> insert running_queue Q \<Longrightarrow> qok T s q (qs q)"
    and "q \<in> insert running_queue Q \<Longrightarrow> r \<in> insert running_queue Q \<Longrightarrow> q \<noteq> r \<Longrightarrow> set (qs q) \<inter> set (qs r) = {}"
  using assms unfolding kernel_inv_def by blast+

lemma kernel_insert:
  assumes inv: "kernel_inv T Q s qs" and q: "q \<in> insert running_queue Q" and a: "a \<in> T" "unqueued Q qs a"
  defines "s' \<equiv> thread_queue_insert q a s"
  shows "kernel_inv T Q s' (qs(q := pri_insert (priority s) a (qs q)))" and "\<forall>t \<in> T. priority s' t = priority s t"
proof -
  note lay = kernel_invD(1) [OF inv] and ok = kernel_invD(2) [OF inv q]
  have aq: "a \<notin> set (qs q)" using a q by (auto simp: unqueued_def)
  note ins = insert_chain [OF lay ok a(1) aq q, folded s'_def]
  from ins(1) obtain l where l: "own_link q (qs q) l" "touches s s' l a" by blast
  note kt = kernel_touch [OF inv q l(2,1) a(1) _ ins(2)]
  have "distinct (pri_insert (priority s) a (qs q))" using ok aq by (simp add: qok_def)
  moreover have "sorted_wrt (\<lambda>x y. priority s x \<ge> priority s y) (pri_insert (priority s) a (qs q))"
    using ok by (intro sorted_pri_insert) (simp add: qok_def)
  ultimately show "kernel_inv T Q s' (qs(q := pri_insert (priority s) a (qs q)))" "\<forall>t \<in> T. priority s' t = priority s t"
    using a(2) kt by (auto simp: unqueued_def)
qed

lemma kernel_unlink:
  assumes inv: "kernel_inv T Q s qs" and q: "q \<in> insert running_queue Q" and qs: "qs q = A @ t # B"
  defines "s' \<equiv> unlink (last_link (queue_to_ptr q) A) t s"
  shows "kernel_inv T Q s' (qs(q := A @ B))" and "\<forall>t \<in> T. priority s' t = priority s t"
proof -
  note lay = kernel_invD(1) [OF inv] and ok = kernel_invD(2) [OF inv q, unfolded qs]
  note un = unlink_chain [OF lay ok q, folded s'_def]
  have t: "t \<in> T" using ok by (simp add: qok_def)
  have "\<forall>r \<in> insert running_queue Q. r \<noteq> q \<longrightarrow> t \<notin> set (qs r)"
    using kernel_invD(3) [OF inv q] qs by fastforce
  note kt = kernel_touch [OF inv q un(1) un(2) [folded qs] t this un(3)]
  have "distinct (A @ B)" "sorted_wrt (\<lambda>x y. priority s x \<ge> priority s y) (A @ B)" "set (A @ B) \<subseteq> insert t (set (qs q))"
    using ok qs by (auto simp: qok_def sorted_wrt_append)
  with kt show "kernel_inv T Q s' (qs(q := A @ B))" "\<forall>t \<in> T. priority s' t = priority s t" by auto
qed

lemma kernel_pop_Nil:
  assumes "kernel_inv T Q s qs" "q \<in> insert running_queue Q" "qs q = []"
  shows "thread_queue_pop q s = (0, s)"
proof -
  have "rd_link s (queue_to_ptr q) = 0" using kernel_invD(2) [OF assms(1,2)] assms(3) by (simp add: qok_def)
  moreover have "wr_link l (rd_link s l) s = s" for l by (cases l) (simp_all add: upd_def)
  moreover have "\<not> valid_thread_ptr 0" by (simp add: valid_thread_ptr_def)
  ultimately show ?thesis unfolding thread_queue_pop_def Let_def by (metis (no_types, lifting))
qed

lemma kernel_pop_Cons:
  assumes inv: "kernel_inv T Q s qs" and q: "q \<in> insert running_queue Q" and qs: "qs q = t # ts"
  obtains s' where "thread_queue_pop q s = (t, s')" "kernel_inv T Q s' (qs(q := ts))"
    "\<forall>u \<in> T. priority s' u = priority s u" "s' = unlink (queue_to_ptr q) t s" "t \<in> T"
proof -
  have c: "rd_link s (queue_to_ptr q) = t" "valid_thread_ptr t" "t \<in> T"
    using kernel_invD(2) [OF inv q] qs by (auto simp: qok_def)
  then have "thread_queue_pop q s = (t, unlink (queue_to_ptr q) t s)"
    by (simp add: thread_queue_pop_def Let_def unlink_def)
  with kernel_unlink [OF inv q, of "[]" t ts] qs c(3) that show thesis by auto
qed

lemma remove_scan_chain:
  "chain s l ts \<Longrightarrow> length ts < n \<Longrightarrow> remove_scan n t l s =
     (if t \<in> set ts then (True, unlink (last_link l (takeWhile (\<lambda>u. u \<noteq> t) ts)) t s) else (False, s))"
proof (induction ts arbitrary: l n)
  case Nil
  then show ?case by (cases n) auto
next
  case (Cons u ts)
  then obtain m where "n = Suc m" by (cases n) auto
  with Cons show ?case by (auto simp: unlink_def dest: valid_nonzero)
qed

lemma remove1_split: "t \<in> set ts \<Longrightarrow> \<exists>B. ts = takeWhile (\<lambda>u. u \<noteq> t) ts @ t # B \<and> remove1 t ts = takeWhile (\<lambda>u. u \<noteq> t) ts @ B"
  by (induction ts) auto

lemma kernel_remove:
  assumes inv: "kernel_inv T Q s qs" and q: "q \<in> insert running_queue Q"
  obtains s' where "thread_queue_remove q t s = (t \<in> set (qs q), s')" "kernel_inv T Q s' (qs(q := remove1 t (qs q)))"
    "\<forall>u \<in> T. priority s' u = priority s u" "t \<notin> set (qs q) \<Longrightarrow> s' = s"
    "t \<in> set (qs q) \<Longrightarrow> s' = unlink (last_link (queue_to_ptr q) (takeWhile (\<lambda>u. u \<noteq> t) (qs q))) t s"
proof -
  note lay = kernel_invD(1) [OF inv] and ok = kernel_invD(2) [OF inv q]
  note len = chain_length [OF lay ok]
  have "q = running_queue \<or> valid_thread_ptr q" using q lay by (auto simp: layout_def)
  then have eq: "thread_queue_remove q t s = remove_scan guard_limit t (queue_to_ptr q) s"
    by (auto simp: thread_queue_remove_def)
  have c: "chain s (queue_to_ptr q) (qs q)" using ok by (simp add: qok_def)
  show thesis
  proof (cases "t \<in> set (qs q)")
    case True
    from remove1_split [OF this] obtain B where B: "qs q = takeWhile (\<lambda>u. u \<noteq> t) (qs q) @ t # B"
      "remove1 t (qs q) = takeWhile (\<lambda>u. u \<noteq> t) (qs q) @ B" by blast
    from kernel_unlink [OF inv q B(1)] B(2) eq remove_scan_chain [OF c len, of t] True that
    show thesis by auto
  next
    case False
    with eq remove_scan_chain [OF c len, of t] inv that show thesis by (simp add: remove1_idem)
  qed
qed

section \<open>Frames\<close>

text \<open>The cells the thread queues own, and what a queue operation leaves alone.\<close>

definition kcells :: "u32 set \<Rightarrow> u32 set \<Rightarrow> u32 set" where
  "kcells T Q = \<Union> (tcells ` T) \<union> Q"

definition same_rest :: "u32 set \<Rightarrow> u32 set \<Rightarrow> os \<Rightarrow> os \<Rightarrow> bool" where
  "same_rest T Q s s' \<longleftrightarrow> (\<forall>a. a \<notin> kcells T Q \<longrightarrow> mem s' a = mem s a)
     \<and> thread_self s' = thread_self s \<and> ctx s' = ctx s \<and> parked s' = parked s
     \<and> external_messages s' = external_messages s \<and> external_pending s' = external_pending s
     \<and> external_requeues s' = external_requeues s
     \<and> should_yield s' = should_yield s \<and> preempt_skip_budget s' = preempt_skip_budget s"

lemma same_rest_refl [simp]: "same_rest T Q s s"
  by (simp add: same_rest_def)

lemma same_rest_trans: "same_rest T Q s s' \<Longrightarrow> same_rest T Q s' s'' \<Longrightarrow> same_rest T Q s s''"
  by (simp add: same_rest_def)

lemma same_rest_upd: "a \<in> kcells T Q \<Longrightarrow> same_rest T Q s s' \<Longrightarrow> same_rest T Q s (upd a v s')"
  by (auto simp: same_rest_def)

lemma same_rest_wr_link: "(\<And>a. l = Cell a \<Longrightarrow> a \<in> kcells T Q) \<Longrightarrow> same_rest T Q s s' \<Longrightarrow> same_rest T Q s (wr_link l v s')"
  by (auto simp: same_rest_def)

lemma tcells_kcells: "t \<in> T \<Longrightarrow> x \<in> tcells t \<Longrightarrow> x \<in> kcells T Q"
  by (auto simp: kcells_def)

lemma own_link_kcells:
  "own_link q ts (Cell a) \<Longrightarrow> set ts \<subseteq> T \<Longrightarrow> q \<in> insert running_queue Q \<Longrightarrow> a \<in> kcells T Q"
  using tcells_self(1) by (auto simp: own_link_def queue_to_ptr_def kcells_def split: if_splits)

lemma insert_rest:
  assumes inv: "kernel_inv T Q s qs" and q: "q \<in> insert running_queue Q" and a: "a \<in> T" "unqueued Q qs a"
  shows "same_rest T Q s (thread_queue_insert q a s)"
proof -
  note lay = kernel_invD(1) [OF inv] and ok = kernel_invD(2) [OF inv q]
  have aq: "a \<notin> set (qs q)" using a q by (auto simp: unqueued_def)
  have own: "own_link q (qs q) (last_link (queue_to_ptr q) (takeWhile (\<lambda>t. priority s t > priority s a) (qs q)))"
    by (rule own_link_last) (auto dest: set_takeWhileD)
  have "set (qs q) \<subseteq> T" using ok by (simp add: qok_def)
  with own q show ?thesis
    unfolding insert_eq [OF lay ok a(1) aq q]
    by (intro same_rest_wr_link same_rest_upd same_rest_refl)
      (auto intro: own_link_kcells tcells_kcells [OF a(1)] simp: tcells_self)
qed

lemma unlink_rest:
  "own_link q ts l \<Longrightarrow> set ts \<subseteq> T \<Longrightarrow> q \<in> insert running_queue Q \<Longrightarrow> t \<in> T \<Longrightarrow> same_rest T Q s (unlink l t s)"
  unfolding unlink_def
  by (intro same_rest_wr_link same_rest_upd same_rest_refl)
    (auto intro: own_link_kcells tcells_kcells simp: tcells_self)

lemma pop_rest:
  assumes inv: "kernel_inv T Q s qs" and q: "q \<in> insert running_queue Q" and qs: "qs q = t # ts"
  shows "same_rest T Q s (unlink (queue_to_ptr q) t s)"
proof (rule unlink_rest [OF _ _ q])
  show "own_link q (qs q) (queue_to_ptr q)" by (simp add: own_link_def)
  show "set (qs q) \<subseteq> T" "t \<in> T" using kernel_invD(2) [OF inv q] qs by (auto simp: qok_def)
qed

text \<open>Writes that leave the links and the priorities of queued threads alone keep the invariant.\<close>

lemma kernel_frame:
  assumes inv: "kernel_inv T Q s qs" and run: "running_queue_impl s' = running_queue_impl s"
    and heads: "\<forall>q \<in> Q. mem s' q = mem s q"
    and cells: "\<forall>q \<in> insert running_queue Q. \<forall>t \<in> set (qs q). mem s' (f_next t) = mem s (f_next t) \<and> mem s' (f_priority t) = mem s (f_priority t)"
  shows "kernel_inv T Q s' qs"
proof -
  have "qok T s' q (qs q)" if q: "q \<in> insert running_queue Q" for q
  proof -
    have "rd_link s' (queue_to_ptr q) = rd_link s (queue_to_ptr q)"
      using q run heads by (auto simp: queue_to_ptr_def)
    then have "chain s' (queue_to_ptr q) (qs q) = chain s (queue_to_ptr q) (qs q)"
      using cells q by (intro chain_cong) auto
    moreover have "priority s' t = priority s t" if "t \<in> set (qs q)" for t
      using cells q that by (simp only: priority_def)
    ultimately show ?thesis
      using kernel_invD(2) [OF inv q] by (auto simp: qok_def elim!: sorted_wrt_mono_rel [rotated])
  qed
  with inv show ?thesis by (simp add: kernel_inv_def)
qed

lemma queued_in: "kernel_inv T Q s qs \<Longrightarrow> q \<in> insert running_queue Q \<Longrightarrow> t \<in> set (qs q) \<Longrightarrow> t \<in> T"
  using kernel_invD(2) by (fastforce simp: qok_def)

text \<open>In particular writes outside the cells of threads and queues, and to the fields of a thread in no queue.\<close>

lemma kernel_outside:
  assumes inv: "kernel_inv T Q s qs" and "running_queue_impl s' = running_queue_impl s"
    and "\<forall>a \<in> kcells T Q. mem s' a = mem s a"
  shows "kernel_inv T Q s' qs"
proof (rule kernel_frame [OF inv assms(2)])
  show "\<forall>q \<in> Q. mem s' q = mem s q" using assms(3) by (simp add: kcells_def)
  show "\<forall>q \<in> insert running_queue Q. \<forall>t \<in> set (qs q). mem s' (f_next t) = mem s (f_next t) \<and> mem s' (f_priority t) = mem s (f_priority t)"
    using assms(3) tcells_kcells [OF queued_in [OF inv]] tcells_self(1,2) by blast
qed

lemma kernel_upd_state:
  assumes inv: "kernel_inv T Q s qs" and t: "t \<in> T" "x \<in> {f_queue t, f_state t}"
  shows "kernel_inv T Q (upd x v s) qs"
proof (rule kernel_frame [OF inv])
  have x: "x \<in> tcells t" using t(2) by (auto simp: tcells_def)
  note lay = kernel_invD(1) [OF inv]
  show "\<forall>q \<in> Q. mem (upd x v s) q = mem s q" using layout_queue [OF lay _ t(1) x] by auto
  have "f_next u \<noteq> x \<and> f_priority u \<noteq> x" if u: "u \<in> T" for u
  proof (cases "u = t")
    case True then show ?thesis using t(2) by auto
  next
    case False
    with layout_disjoint [OF lay u t(1) False _ x] tcells_self(1,2) [of u] show ?thesis by blast
  qed
  then show "\<forall>q \<in> insert running_queue Q. \<forall>u \<in> set (qs q). mem (upd x v s) (f_next u) = mem s (f_next u) \<and> mem (upd x v s) (f_priority u) = mem s (f_priority u)"
    using queued_in [OF inv] by simp
qed simp

lemma kernel_upd_unqueued:
  assumes inv: "kernel_inv T Q s qs" and t: "t \<in> T" "unqueued Q qs t" and x: "x \<in> tcells t"
  shows "kernel_inv T Q (upd x v s) qs"
proof (rule kernel_frame [OF inv])
  note lay = kernel_invD(1) [OF inv]
  show "\<forall>q \<in> Q. mem (upd x v s) q = mem s q" using layout_queue [OF lay _ t(1) x] by auto
  have "f_next u \<noteq> x \<and> f_priority u \<noteq> x" if u: "q \<in> insert running_queue Q" "u \<in> set (qs q)" for q u
  proof -
    have "u \<noteq> t" using t(2) u by (auto simp: unqueued_def)
    with layout_disjoint [OF lay queued_in [OF inv u] t(1) _ _ x] tcells_self(1,2) [of u] show ?thesis by blast
  qed
  then show "\<forall>q \<in> insert running_queue Q. \<forall>u \<in> set (qs q). mem (upd x v s) (f_next u) = mem s (f_next u) \<and> mem (upd x v s) (f_priority u) = mem s (f_priority u)"
    by (simp only: upd_simps) (metis (full_types))
qed simp

section \<open>Back pointers\<close>

text \<open>
  The \<open>queue\<close> field of a queued thread names its queue and its state is not \<^verbatim>\<open>STOPPED\<close>; the field of
  a thread in no queue is null.
\<close>

definition back_ok :: "u32 set \<Rightarrow> u32 set \<Rightarrow> os \<Rightarrow> (u32 \<Rightarrow> u32 list) \<Rightarrow> bool" where
  "back_ok T Q s qs \<longleftrightarrow>
     (\<forall>q \<in> insert running_queue Q. \<forall>t \<in> set (qs q). mem s (f_queue t) = q \<and> mem s (f_state t) \<noteq> STOPPED)
     \<and> (\<forall>t \<in> T. unqueued Q qs t \<longrightarrow> mem s (f_queue t) = 0)"

lemma back_okD:
  assumes "back_ok T Q s qs"
  shows "q \<in> insert running_queue Q \<Longrightarrow> t \<in> set (qs q) \<Longrightarrow> mem s (f_queue t) = q"
    and "q \<in> insert running_queue Q \<Longrightarrow> t \<in> set (qs q) \<Longrightarrow> mem s (f_state t) \<noteq> STOPPED"
    and "t \<in> T \<Longrightarrow> unqueued Q qs t \<Longrightarrow> mem s (f_queue t) = 0"
  using assms unfolding back_ok_def by blast+

lemma not_stopped: "QUEUED \<noteq> STOPPED" "BLOCKED \<noteq> STOPPED" "RUNNING \<noteq> STOPPED"
  by (simp_all add: QUEUED_def BLOCKED_def RUNNING_def STOPPED_def)

lemma cell_keep:
  assumes lay: "layout T Q" and own: "own_link q ts l" "set ts \<subseteq> T" "q \<in> insert running_queue Q" and t: "t \<in> T"
    and x: "x \<in> {f_queue t, f_state t}"
  shows "l \<noteq> Cell x" "a \<in> T \<Longrightarrow> t \<noteq> a \<Longrightarrow> y \<in> tcells a \<Longrightarrow> x \<noteq> y"
proof -
  have "x \<in> tcells t" "x \<noteq> f_next t" using x by (auto simp: tcells_def)
  then show "l \<noteq> Cell x" "a \<in> T \<Longrightarrow> t \<noteq> a \<Longrightarrow> y \<in> tcells a \<Longrightarrow> x \<noteq> y"
    using own_link_not_cell [OF lay own t] layout_disjoint [OF lay t] by auto
qed

lemma insert_cells:
  assumes inv: "kernel_inv T Q s qs" and q: "q \<in> insert running_queue Q" and a: "a \<in> T" "unqueued Q qs a"
    and t: "t \<in> T"
  shows "mem (thread_queue_insert q a s) (f_queue t) = (if t = a then q else mem s (f_queue t))"
    and "mem (thread_queue_insert q a s) (f_state t) =
      (if t = a then if q = running_queue then QUEUED else BLOCKED else mem s (f_state t))"
proof -
  note lay = kernel_invD(1) [OF inv] and ok = kernel_invD(2) [OF inv q]
  have aq: "a \<notin> set (qs q)" using a q by (auto simp: unqueued_def)
  let ?l = "last_link (queue_to_ptr q) (takeWhile (\<lambda>t. priority s t > priority s a) (qs q))"
  have own: "own_link q (qs q) ?l" by (rule own_link_last) (auto dest: set_takeWhileD)
  have ts: "set (qs q) \<subseteq> T" using ok by (simp add: qok_def)
  note kp = cell_keep [OF lay own ts q t]
  have ne: "x \<noteq> f_next a" "x \<noteq> f_queue a" "x \<noteq> f_state a" if "x \<in> {f_queue t, f_state t}" "t \<noteq> a" for x
    using kp(2) [OF that(1) a(1) that(2)] tcells_self by blast+
  show "mem (thread_queue_insert q a s) (f_queue t) = (if t = a then q else mem s (f_queue t))"
    "mem (thread_queue_insert q a s) (f_state t) = (if t = a then if q = running_queue then QUEUED else BLOCKED else mem s (f_state t))"
    unfolding insert_eq [OF lay ok a(1) aq q]
    using kp(1) [of "f_queue t"] kp(1) [of "f_state t"] ne [of "f_queue t"] ne [of "f_state t"] by (cases "t = a"; simp)+
qed

lemma insert_back:
  assumes inv: "kernel_inv T Q s qs" and q: "q \<in> insert running_queue Q" and a: "a \<in> T" "unqueued Q qs a"
    and bk: "back_ok T Q s qs"
  shows "back_ok T Q (thread_queue_insert q a s) (qs(q := pri_insert (priority s) a (qs q)))" (is "back_ok T Q ?s ?qs")
  unfolding back_ok_def
proof (intro conjI ballI impI)
  fix r t assume r: "r \<in> insert running_queue Q" "t \<in> set (?qs r)"
  then have "t = a \<and> r = q \<or> t \<noteq> a \<and> t \<in> set (qs r)" using a(2) by (auto simp: unqueued_def split: if_splits)
  moreover have "t \<in> T" using calculation a(1) queued_in [OF inv r(1)] by blast
  ultimately show "mem ?s (f_queue t) = r" "mem ?s (f_state t) \<noteq> STOPPED"
    using insert_cells [OF inv q a] back_okD(1,2) [OF bk r(1)] not_stopped by auto
next
  fix t assume t: "t \<in> T" "unqueued Q ?qs t"
  then have "t \<noteq> a" "unqueued Q qs t" using q by (auto simp: unqueued_def split: if_splits)
  then show "mem ?s (f_queue t) = 0" using insert_cells(1) [OF inv q a t(1)] back_okD(3) [OF bk t(1)] by simp
qed

lemma unlink_back:
  assumes inv: "kernel_inv T Q s qs" and q: "q \<in> insert running_queue Q" and qs: "qs q = A @ t # B" and bk: "back_ok T Q s qs"
  shows "back_ok T Q (unlink (last_link (queue_to_ptr q) A) t s) (qs(q := A @ B))" (is "back_ok T Q ?s ?qs")
proof -
  have own: "own_link q (qs q) (last_link (queue_to_ptr q) A)" by (rule own_link_last) (auto simp: qs)
  have ts: "set (qs q) \<subseteq> T" "distinct (qs q)" using kernel_invD(2) [OF inv q] by (simp_all add: qok_def)
  have keep: "mem ?s (f_queue u) = (if u = t then 0 else mem s (f_queue u))" "mem ?s (f_state u) = mem s (f_state u)" if "u \<in> T" for u
  proof -
    have t: "t \<in> T" using ts qs by auto
    note kp = cell_keep [OF kernel_invD(1) [OF inv] own ts(1) q that]
    have "f_state u \<noteq> f_queue t" using kp(2) [of "f_state u" t "f_queue t"] t tcells_self(3) [of t] by (cases "u = t") auto
    then show "mem ?s (f_queue u) = (if u = t then 0 else mem s (f_queue u))" "mem ?s (f_state u) = mem s (f_state u)"
      using kp(1) [of "f_queue u"] kp(1) [of "f_state u"] by (simp_all add: unlink_def)
  qed
  show ?thesis unfolding back_ok_def
  proof (intro conjI ballI impI)
    fix r u assume r: "r \<in> insert running_queue Q" "u \<in> set (?qs r)"
    have u: "u \<in> set (qs r)" using r(2) qs by (auto split: if_splits)
    have "u \<noteq> t"
    proof (cases "r = q")
      case True then show ?thesis using r(2) qs ts(2) by auto
    next
      case False then show ?thesis using u qs kernel_invD(3) [OF inv r(1) q False] by auto
    qed
    with keep [OF queued_in [OF inv r(1) u]] back_okD(1,2) [OF bk r(1) u]
    show "mem ?s (f_queue u) = r" "mem ?s (f_state u) \<noteq> STOPPED" by simp_all
  next
    fix u assume u: "u \<in> T" "unqueued Q ?qs u"
    have "unqueued Q qs u" if "u \<noteq> t"
      unfolding unqueued_def
    proof
      fix r assume "r \<in> insert running_queue Q"
      then have "u \<notin> set (?qs r)" using u(2) unfolding unqueued_def by blast
      then show "u \<notin> set (qs r)" using that qs by (cases "r = q") auto
    qed
    then show "mem ?s (f_queue u) = 0" using keep(1) [OF u(1)] back_okD(3) [OF bk u(1)] by (cases "u = t") simp_all
  qed
qed

end
