(* ===== verification/Scheduler.thy ===== *)
theory Scheduler
  imports ThreadQueue
begin

text \<open>
  The cooperative scheduler: \<^verbatim>\<open>ultramodern/src/scheduling.cpp\<close> and the thread calls of
  \<^verbatim>\<open>threads.cpp\<close>. Exactly one game thread runs; it gives up the processor by signalling the
  semaphore of another thread's context and waiting on its own. Such a hand-over is the
  outcome \<open>Parked\<close>: the state then has the resumed thread as \<^verbatim>\<open>thread_self\<close>, and the point at which
  the old one waits in \<^verbatim>\<open>parked\<close>. \<open>Waiting\<close> is a running thread that waits for a host post. Host-thread bookkeeping (names, native priorities, joining)
  and the trace rings write no kernel state.
\<close>

datatype error = NoRunnable | NullContext | AssertFailed | DivideError

datatype outcome = Done int | Parked | Waiting | Terminated | Raised error

section \<open>Handing over the processor\<close>

definition resume_thread_and_wait :: "wait \<Rightarrow> u32 \<Rightarrow> os \<Rightarrow> outcome \<times> os" where
  "resume_thread_and_wait w t s =
     (if ctx s t = 0 then (Raised NullContext, s)
      else (Parked, s\<lparr>parked := (parked s)(thread_self s \<mapsto> (ctx s (thread_self s), w)), thread_self := t\<rparr>))"

definition run_next_thread :: "os \<Rightarrow> outcome \<times> os" where
  "run_next_thread s =
     (if thread_queue_empty running_queue s then (Raised NoRunnable, s)
      else let (to_run, s) = thread_queue_pop running_queue s in
        if ctx s to_run = 0 then (Raised NullContext, s) else (Parked, s\<lparr>thread_self := to_run\<rparr>))"

definition run_next_thread_and_wait :: "wait \<Rightarrow> os \<Rightarrow> outcome \<times> os" where
  "run_next_thread_and_wait w s = (let caller = thread_self s; caller_ctx = ctx s caller in
     case run_next_thread s of (Parked, s) \<Rightarrow> (Parked, s\<lparr>parked := (parked s)(caller \<mapsto> (caller_ctx, w))\<rparr>)
     | (r, s) \<Rightarrow> (r, s))"

text \<open>
  The tail of \<^verbatim>\<open>wait_for_resumed\<close>: a thread whose \<^verbatim>\<open>OSThread\<close> no longer owns the context it waited
  on terminates, any other is running again and goes on where it waited.
\<close>

definition wait_for_resumed :: "os \<Rightarrow> wait option \<times> os" where
  "wait_for_resumed s = (let self = thread_self s in case parked s self of
     None \<Rightarrow> (None, s)
   | Some (c, w) \<Rightarrow> let s = s\<lparr>parked := (parked s)(self := None)\<rparr> in
       if ctx s self \<noteq> c then (None, s) else (Some w, upd (f_state self) RUNNING s))"

section \<open>Scheduling\<close>

definition schedule_running_thread :: "u32 \<Rightarrow> os \<Rightarrow> os" where
  "schedule_running_thread t s = upd (f_state t) QUEUED (thread_queue_insert running_queue t s)"

definition swap_to_thread :: "wait \<Rightarrow> u32 \<Rightarrow> os \<Rightarrow> outcome \<times> os" where
  "swap_to_thread w t s = (let self = thread_self s; s = thread_queue_insert running_queue self s
     in resume_thread_and_wait w t (upd (f_state self) QUEUED s))"

text \<open>\<open>r\<close> is the value the calling system call returns, \<open>w\<close> how it goes on after a hand-over.\<close>

definition check_running_queue :: "int \<Rightarrow> wait \<Rightarrow> os \<Rightarrow> outcome \<times> os" where
  "check_running_queue r w s =
     (if thread_queue_empty running_queue s then (Done r, s)
      else let next = thread_queue_peek running_queue s in
        if priority s next > priority s (thread_self s)
        then swap_to_thread w next (snd (thread_queue_pop running_queue s))
        else (Done r, s))"

definition yield_to_any_queued :: "os \<Rightarrow> outcome \<times> os" where
  "yield_to_any_queued s =
     (if thread_queue_empty running_queue s then (Done 0, s)
      else let (next, s) = thread_queue_pop running_queue s; self = thread_self s;
          s = thread_queue_insert running_queue self s; s = upd (f_state self) QUEUED s
        in resume_thread_and_wait (WReturn 0) next s)"

section \<open>Thread calls\<close>

text \<open>\<open>c\<close> is the address of the context that \<^verbatim>\<open>new\<close> returns; the new host thread waits on it.\<close>

definition osCreateThread :: "u32 \<Rightarrow> u32 \<Rightarrow> u32 \<Rightarrow> u32 \<Rightarrow> u32 \<Rightarrow> os \<Rightarrow> os" where
  "osCreateThread t tid sp pri c s = (let
     s = upd (f_next t) 0 s; s = upd (f_queue t) 0 s; s = upd (f_priority t) pri s;
     s = upd (f_id t) tid s; s = upd (f_state t) STOPPED s; s = upd (f_sp t) (sp - 0x10) s
     in s\<lparr>ctx := (ctx s)(t := c), parked := (parked s)(t \<mapsto> (c, WEntry))\<rparr>)"

text \<open>
  From outside the game the thread is woken directly: with no game thread running it becomes
  the running one.
\<close>

definition osStartThread :: "u32 \<Rightarrow> os \<Rightarrow> outcome \<times> os" where
  "osStartThread t s =
     (if thread_self s \<noteq> 0 then check_running_queue 0 (WReturn 0) (schedule_running_thread t s)
      else let s = upd (f_state t) QUEUED s in
        if ctx s t = 0 then (Raised NullContext, s) else (Parked, s\<lparr>thread_self := t\<rparr>))"

definition osStopThread :: "u32 \<Rightarrow> os \<Rightarrow> outcome \<times> os" where
  "osStopThread t s = (let t = (if t = 0 then thread_self s else t) in
     if t = thread_self s then run_next_thread_and_wait (WReturn 0) s else (Raised AssertFailed, s))"

text \<open>
  The end of \<^verbatim>\<open>run_game_thread\<close>, reached when the body returns or unwinds through
  \<^verbatim>\<open>thread_terminated\<close>; \<open>c\<close> is the context the host thread was started with.
\<close>

definition run_game_thread_end :: "u32 \<Rightarrow> os \<Rightarrow> outcome \<times> os" where
  "run_game_thread_end c s = (let self = thread_self s in
     if ctx s self = c then run_next_thread (s\<lparr>ctx := (ctx s)(self := 0)\<rparr>) else (Terminated, s))"

text \<open>
  Destroying another thread detaches it, clears its context and signals it: the host thread
  wakes beside the caller, finds the context gone and ends without touching the kernel state.
\<close>

definition osDestroyThread :: "u32 \<Rightarrow> os \<Rightarrow> outcome \<times> os" where
  "osDestroyThread t s = (let t = (if t = 0 then thread_self s else t) in
     if t = thread_self s then (Terminated, s)
     else let s = (if mem s (f_state t) \<noteq> STOPPED then snd (thread_queue_remove (mem s (f_queue t)) t s) else s);
       s = (if ctx s t \<noteq> 0 then s\<lparr>ctx := (ctx s)(t := 0), parked := (parked s)(t := None)\<rparr> else s)
     in (Done 0, s))"

definition osSetThreadPri :: "u32 \<Rightarrow> u32 \<Rightarrow> os \<Rightarrow> outcome \<times> os" where
  "osSetThreadPri t pri s = (let t = (if t = 0 then thread_self s else t) in
     if mem s (f_priority t) \<noteq> pri then let
       s = upd (f_priority t) pri s;
       s = (if t \<noteq> thread_self s \<and> mem s (f_state t) \<noteq> STOPPED then let
              s = snd (thread_queue_remove (mem s (f_queue t)) t s)
              in thread_queue_insert (mem s (f_queue t)) t s
            else s)
       in check_running_queue 0 (WReturn 0) s
     else (Done 0, s))"

definition osGetThreadPri :: "u32 \<Rightarrow> os \<Rightarrow> u32" where
  "osGetThreadPri t s = mem s (f_priority (if t = 0 then thread_self s else t))"

definition osGetThreadId :: "u32 \<Rightarrow> os \<Rightarrow> u32" where
  "osGetThreadId t s = mem s (f_id (if t = 0 then thread_self s else t))"

end
