(* ===== verification/MesgQueue.thy ===== *)
theory MesgQueue
  imports Scheduler "HOL-Library.Signed_Division"
begin

text \<open>
  Guest message queues and the external queue: \<^verbatim>\<open>ultramodern/src/mesgqueue.cpp\<close>. A message queue is
  a ring buffer in guest memory with two queues of blocked threads; only the running game thread
  touches it. Host threads post to the external queue, a \<^verbatim>\<open>moodycamel::BlockingConcurrentQueue\<close>,
  which the running game thread drains. That library is a parameter: \<open>enq m q\<close> is the external
  queue after \<open>m\<close> was enqueued, at the place the library picks (it keeps no order between
  producers). The build without \<^verbatim>\<open>N64_COSIM\<close> is modelled; the event rings write no kernel state.
\<close>

abbreviation f_recv :: "u32 \<Rightarrow> u32" where "f_recv mq \<equiv> mq + 0"
abbreviation f_send :: "u32 \<Rightarrow> u32" where "f_send mq \<equiv> mq + 4"
abbreviation f_valid :: "u32 \<Rightarrow> u32" where "f_valid mq \<equiv> mq + 8"
abbreviation f_first :: "u32 \<Rightarrow> u32" where "f_first mq \<equiv> mq + 12"
abbreviation f_count :: "u32 \<Rightarrow> u32" where "f_count mq \<equiv> mq + 16"
abbreviation f_msg :: "u32 \<Rightarrow> u32" where "f_msg mq \<equiv> mq + 20"

definition osCreateMesgQueue :: "u32 \<Rightarrow> u32 \<Rightarrow> u32 \<Rightarrow> os \<Rightarrow> os" where
  "osCreateMesgQueue mq msg cnt s = (let
     s = upd (f_recv mq) 0 s; s = upd (f_send mq) 0 s; s = upd (f_count mq) cnt s;
     s = upd (f_msg mq) msg s; s = upd (f_valid mq) 0 s in upd (f_first mq) 0 s)"

definition MQ_GET_COUNT :: "u32 \<Rightarrow> os \<Rightarrow> int" where
  "MQ_GET_COUNT mq s = sint (mem s (f_valid mq))"

definition MQ_IS_EMPTY :: "u32 \<Rightarrow> os \<Rightarrow> bool" where
  "MQ_IS_EMPTY mq s \<longleftrightarrow> mem s (f_valid mq) = 0"

definition MQ_IS_FULL :: "u32 \<Rightarrow> os \<Rightarrow> bool" where
  "MQ_IS_FULL mq s \<longleftrightarrow> MQ_GET_COUNT mq s \<ge> sint (mem s (f_count mq))"

section \<open>Send and receive\<close>

definition kseg0 :: "u32 \<Rightarrow> bool" where
  "kseg0 a \<longleftrightarrow> a \<ge> 0x80000000 \<and> a < 0x80800000"

definition mq_sane :: "u32 \<Rightarrow> os \<Rightarrow> bool" where
  "mq_sane mq s \<longleftrightarrow> kseg0 mq \<and> kseg0 (mem s (f_msg mq))
     \<and> 0 < sint (mem s (f_count mq)) \<and> sint (mem s (f_count mq)) \<le> 0x10000
     \<and> 0 \<le> sint (mem s (f_first mq)) \<and> sint (mem s (f_first mq)) < sint (mem s (f_count mq))
     \<and> 0 \<le> sint (mem s (f_valid mq)) \<and> sint (mem s (f_valid mq)) \<le> sint (mem s (f_count mq))"

text \<open>The remainder of two \<^verbatim>\<open>s32\<close>; the caller has excluded a zero divisor.\<close>

definition s32_rem :: "u32 \<Rightarrow> u32 \<Rightarrow> u32" where
  "s32_rem a b = word_of_int (sint a smod sint b)"

definition wake_first :: "u32 \<Rightarrow> os \<Rightarrow> os" where
  "wake_first q s = (if thread_queue_empty q s then s
     else let (t, s) = thread_queue_pop q s in schedule_running_thread t s)"

text \<open>Storing the message and waking a receiver: the part of \<^verbatim>\<open>do_send\<close> after its loop.\<close>

definition send_store :: "u32 \<Rightarrow> u32 \<Rightarrow> bool \<Rightarrow> os \<Rightarrow> outcome \<times> os" where
  "send_store mq m jam s = (let cnt = mem s (f_count mq) in
     if cnt = 0 then (Raised DivideError, s)
     else let s = (if jam then let
              s = upd (f_first mq) (s32_rem (mem s (f_first mq) + cnt - 1) cnt) s;
              s = upd (mem s (f_msg mq) + 4 * mem s (f_first mq)) m s
              in upd (f_valid mq) (mem s (f_valid mq) + 1) s
            else let
              last = s32_rem (mem s (f_first mq) + mem s (f_valid mq)) cnt;
              s = upd (mem s (f_msg mq) + 4 * last) m s
              in upd (f_valid mq) (mem s (f_valid mq) + 1) s)
       in (Done 1, wake_first (f_recv mq) s))"

definition send_loop :: "u32 \<Rightarrow> u32 \<Rightarrow> bool \<Rightarrow> os \<Rightarrow> outcome \<times> os" where
  "send_loop mq m jam s =
     (if MQ_IS_FULL mq s
      then run_next_thread_and_wait (WSend mq m jam) (thread_queue_insert (f_send mq) (thread_self s) s)
      else send_store mq m jam s)"

definition do_send :: "u32 \<Rightarrow> u32 \<Rightarrow> bool \<Rightarrow> bool \<Rightarrow> os \<Rightarrow> outcome \<times> os" where
  "do_send mq m jam block s =
     (if \<not> mq_sane mq s then (Done 0, s)
      else if \<not> block then if MQ_IS_FULL mq s then (Done 0, s) else send_store mq m jam s
      else send_loop mq m jam s)"

definition recv_take :: "u32 \<Rightarrow> u32 \<Rightarrow> os \<Rightarrow> outcome \<times> os" where
  "recv_take mq p s = (let
     s = (if p \<noteq> 0 then upd p (mem s (mem s (f_msg mq) + 4 * mem s (f_first mq))) s else s);
     cnt = mem s (f_count mq) in
     if cnt = 0 then (Raised DivideError, s)
     else let
       s = upd (f_first mq) (s32_rem (mem s (f_first mq) + 1) cnt) s;
       s = upd (f_valid mq) (mem s (f_valid mq) - 1) s
       in (Done 1, wake_first (f_send mq) s))"

definition recv_loop :: "u32 \<Rightarrow> u32 \<Rightarrow> os \<Rightarrow> outcome \<times> os" where
  "recv_loop mq p s =
     (if MQ_IS_EMPTY mq s
      then run_next_thread_and_wait (WRecv mq p) (thread_queue_insert (f_recv mq) (thread_self s) s)
      else recv_take mq p s)"

definition do_recv :: "u32 \<Rightarrow> u32 \<Rightarrow> bool \<Rightarrow> os \<Rightarrow> outcome \<times> os" where
  "do_recv mq p block s =
     (if \<not> block then if MQ_IS_EMPTY mq s then (Done 0, s) else recv_take mq p s
      else recv_loop mq p s)"

section \<open>The external queue\<close>

type_synonym enqueue = "qmsg \<Rightarrow> qmsg list \<Rightarrow> qmsg list"

definition enqueue_external_tagged :: "enqueue \<Rightarrow> u32 \<Rightarrow> u32 \<Rightarrow> bool \<Rightarrow> bool \<Rightarrow> os \<Rightarrow> os" where
  "enqueue_external_tagged enq mq m jam coalescible s =
     s\<lparr>external_messages := enq \<lparr>q_mq = mq, q_mesg = m, q_jam = jam, q_coalescible = coalescible\<rparr> (external_messages s),
       external_pending := external_pending s + 1\<rparr>"

definition enqueue_external_message :: "enqueue \<Rightarrow> u32 \<Rightarrow> u32 \<Rightarrow> bool \<Rightarrow> os \<Rightarrow> os" where
  "enqueue_external_message enq mq m jam = enqueue_external_tagged enq mq m jam False"

text \<open>\<open>game\<close> is \<^verbatim>\<open>is_game_thread\<close> of the calling host thread.\<close>

definition post_rcp_event :: "enqueue \<Rightarrow> bool \<Rightarrow> u32 \<Rightarrow> u32 \<Rightarrow> bool \<Rightarrow> os \<Rightarrow> os" where
  "post_rcp_event enq game mq m coalescible s =
     (if game then snd (do_send mq m False False s) else enqueue_external_tagged enq mq m False coalescible s)"

text \<open>The drain loop, along the messages the external queue holds when it starts.\<close>

primrec drain :: "enqueue \<Rightarrow> qmsg list \<Rightarrow> os \<Rightarrow> os" where
  "drain enq [] s = s"
| "drain enq (m # ms) s = (let
     s = s\<lparr>external_messages := ms, external_pending := external_pending s - 1\<rparr>;
     (r, s) = do_send (q_mq m) (q_mesg m) (q_jam m) False s in
     if r = Done 0 then
       if q_coalescible m then drain enq ms s
       else s\<lparr>external_messages := enq m (external_messages s), external_pending := external_pending s + 1,
              external_requeues := external_requeues s + 1\<rparr>
     else drain enq ms s)"

definition dequeue_external_messages :: "enqueue \<Rightarrow> os \<Rightarrow> os" where
  "dequeue_external_messages enq s = drain enq (external_messages s) s"

text \<open>Taking one message and sending it; whether the send succeeded is not looked at.\<close>

definition deliver_one :: "qmsg \<Rightarrow> qmsg list \<Rightarrow> os \<Rightarrow> os" where
  "deliver_one m ms s = snd (do_send (q_mq m) (q_mesg m) (q_jam m) False
     (s\<lparr>external_messages := ms, external_pending := external_pending s - 1\<rparr>))"

text \<open>\<open>None\<close>: the caller waits until a host thread posts.\<close>

definition wait_for_external_message :: "os \<Rightarrow> os option" where
  "wait_for_external_message s = (case external_messages s of [] \<Rightarrow> None | m # ms \<Rightarrow> Some (deliver_one m ms s))"

definition wait_for_external_message_timed :: "os \<Rightarrow> os" where
  "wait_for_external_message_timed s = (case external_messages s of [] \<Rightarrow> s | m # ms \<Rightarrow> deliver_one m ms s)"

definition external_message_pending :: "os \<Rightarrow> bool" where
  "external_message_pending s \<longleftrightarrow> external_pending s \<noteq> 0"

section \<open>The system calls\<close>

text \<open>The end of each call: rescheduling, then the return value.\<close>

definition finish :: "outcome \<times> os \<Rightarrow> outcome \<times> os" where
  "finish x = (case x of
     (Done b, s) \<Rightarrow> let r = (if b \<noteq> 0 then 0 else -1) in check_running_queue r (WReturn r) s
   | (r, s) \<Rightarrow> (r, s))"

definition OS_MESG_BLOCK :: u32 where "OS_MESG_BLOCK = 1"

definition osSendMesg :: "enqueue \<Rightarrow> bool \<Rightarrow> u32 \<Rightarrow> u32 \<Rightarrow> u32 \<Rightarrow> os \<Rightarrow> outcome \<times> os" where
  "osSendMesg enq game mq m flags s =
     (if \<not> game then (Done 0, enqueue_external_message enq mq m False s)
      else finish (do_send mq m False (flags = OS_MESG_BLOCK) (dequeue_external_messages enq s)))"

definition osJamMesg :: "enqueue \<Rightarrow> bool \<Rightarrow> u32 \<Rightarrow> u32 \<Rightarrow> u32 \<Rightarrow> os \<Rightarrow> outcome \<times> os" where
  "osJamMesg enq game mq m flags s =
     (if \<not> game then (Done 0, enqueue_external_message enq mq m True s)
      else finish (do_send mq m True (flags = OS_MESG_BLOCK) (dequeue_external_messages enq s)))"

definition osRecvMesg :: "enqueue \<Rightarrow> bool \<Rightarrow> u32 \<Rightarrow> u32 \<Rightarrow> u32 \<Rightarrow> os \<Rightarrow> outcome \<times> os" where
  "osRecvMesg enq game mq p flags s =
     (if \<not> game then (Raised AssertFailed, s)
      else finish (do_recv mq p (flags = OS_MESG_BLOCK) (dequeue_external_messages enq s)))"

section \<open>Waiting threads and the periodic tick\<close>

definition yield_self :: "os \<Rightarrow> (outcome \<times> os) option" where
  "yield_self s = map_option (check_running_queue 0 (WReturn 0)) (wait_for_external_message s)"

definition yield_self_1ms :: "os \<Rightarrow> outcome \<times> os" where
  "yield_self_1ms s = check_running_queue 0 (WReturn 0) (wait_for_external_message_timed s)"

text \<open>One turn of the endless loop of \<^verbatim>\<open>pause_self\<close>; the thread is back at its head when it keeps the processor.\<close>

definition pause_self :: "os \<Rightarrow> outcome \<times> os" where
  "pause_self s = (let self = thread_self s;
       at_head = (\<lambda>s. s\<lparr>parked := (parked s)(self \<mapsto> (ctx s self, WPause))\<rparr>) in
     case wait_for_external_message s of
       None \<Rightarrow> (Waiting, at_head s)
     | Some s \<Rightarrow> (case check_running_queue 0 WPause s of (Done _, s) \<Rightarrow> (Waiting, at_head s) | x \<Rightarrow> x))"

text \<open>A thread that was handed the processor goes on where it waited.\<close>

definition resume :: "os \<Rightarrow> outcome \<times> os" where
  "resume s = (case wait_for_resumed s of
     (None, s) \<Rightarrow> (Terminated, s)
   | (Some WEntry, s) \<Rightarrow> (Done 0, s)
   | (Some (WReturn r), s) \<Rightarrow> (Done r, s)
   | (Some (WSend mq m jam), s) \<Rightarrow> finish (send_loop mq m jam s)
   | (Some (WRecv mq p), s) \<Rightarrow> finish (recv_loop mq p s)
   | (Some WPause, s) \<Rightarrow> pause_self s)"

definition kSpStatusAddr :: u32 where "kSpStatusAddr = 0xA4040010"
definition kSpStatusSignalMask :: u32 where "kSpStatusSignalMask = 0x00007F80"
definition kHardwarePollPriority :: int where "kHardwarePollPriority = 80"

definition recomp_rsp_consume_preempt_skip_budget :: "os \<Rightarrow> u32 \<times> os" where
  "recomp_rsp_consume_preempt_skip_budget s = (let old = preempt_skip_budget s in
     if old \<noteq> 0 then (1, s\<lparr>preempt_skip_budget := old - 1\<rparr>) else (0, s))"

definition scheduler_tick_impl :: "bool \<Rightarrow> os \<Rightarrow> outcome \<times> os" where
  "scheduler_tick_impl game s =
     (if \<not> should_yield s then
        if \<not> external_message_pending s then (Done 0, s)
        else if \<not> game then (Done 0, s)
        else check_running_queue 0 (WReturn 0)
          (if external_message_pending s then wait_for_external_message_timed s else s)
      else if \<not> game then (Done 0, s)
      else let s = wait_for_external_message_timed (s\<lparr>should_yield := False\<rparr>) in
        if mem s kSpStatusAddr AND kSpStatusSignalMask \<noteq> 0 then
          if thread_self s \<noteq> 0 \<and> priority s (thread_self s) \<ge> kHardwarePollPriority then (Done 0, s)
          else let (skip, s) = recomp_rsp_consume_preempt_skip_budget s in
            if skip \<noteq> 0 then (Done 0, s) else yield_to_any_queued s
        else yield_to_any_queued s)"

end
