(* ===== verification/KernelInv.thy ===== *)
theory KernelInv
  imports MesgQueue
begin

text \<open>
  The invariant of the kernel as a whole. A layout \<open>T\<close>, \<open>M\<close> names the \<^verbatim>\<open>OSThread\<close> structures and, for
  each \<^verbatim>\<open>OSMesgQueue\<close>, its ring buffer and capacity; it says that they do not overlap. The
  invariant joins well-formed thread queues, sane message queues and, for each queued thread, a
  live context on which it waits at the point its queue implies.
\<close>

type_synonym mqs = "u32 \<rightharpoonup> u32 \<times> nat"

definition queues :: "mqs \<Rightarrow> u32 set" where
  "queues M = (\<Union>mq \<in> dom M. {f_recv mq, f_send mq})"

definition mqfields :: "u32 \<Rightarrow> u32 set" where
  "mqfields mq = {f_valid mq, f_first mq, f_count mq, f_msg mq}"

definition ring :: "u32 \<Rightarrow> nat \<Rightarrow> u32 set" where
  "ring buf n = (\<lambda>i. buf + 4 * of_nat i) ` {..<n}"

definition sys_layout :: "u32 set \<Rightarrow> mqs \<Rightarrow> bool" where
  "sys_layout T M \<longleftrightarrow> layout T (queues M)
     \<and> (\<forall>mq buf n. M mq = Some (buf, n) \<longrightarrow> kseg0 mq \<and> kseg0 buf \<and> 0 < n \<and> n \<le> 0x10000
          \<and> mqfields mq \<inter> kcells T (queues M) = {} \<and> ring buf n \<inter> kcells T (queues M) = {})
     \<and> (\<forall>mq mq' buf n. M mq = Some (buf, n) \<and> mq' \<in> dom M \<longrightarrow> ring buf n \<inter> mqfields mq' = {})
     \<and> (\<forall>mq mq' buf n buf' n'. M mq = Some (buf, n) \<and> M mq' = Some (buf', n') \<and> mq \<noteq> mq' \<longrightarrow>
          mqfields mq \<inter> mqfields mq' = {} \<and> ring buf n \<inter> ring buf' n' = {}
          \<and> {f_recv mq, f_send mq} \<inter> {f_recv mq', f_send mq'} = {})"

definition protected :: "u32 set \<Rightarrow> mqs \<Rightarrow> u32 set" where
  "protected T M = kcells T (queues M) \<union> \<Union> (mqfields ` dom M) \<union> (\<Union>(buf, n) \<in> ran M. ring buf n)"

definition safe_ptr :: "u32 set \<Rightarrow> mqs \<Rightarrow> u32 \<Rightarrow> bool" where
  "safe_ptr T M p \<longleftrightarrow> p = 0 \<or> p \<notin> protected T M"

definition mq_ok :: "os \<Rightarrow> u32 \<Rightarrow> u32 \<Rightarrow> nat \<Rightarrow> bool" where
  "mq_ok s mq buf n \<longleftrightarrow> mem s (f_msg mq) = buf \<and> mem s (f_count mq) = of_nat n
     \<and> unat (mem s (f_first mq)) < n \<and> unat (mem s (f_valid mq)) \<le> n"

text \<open>The messages of a queue, oldest first.\<close>

definition slot :: "os \<Rightarrow> u32 \<Rightarrow> nat \<Rightarrow> u32" where
  "slot s mq i = mem s (f_msg mq) + 4 * of_nat ((unat (mem s (f_first mq)) + i) mod unat (mem s (f_count mq)))"

definition contents :: "os \<Rightarrow> u32 \<Rightarrow> u32 list" where
  "contents s mq = map (\<lambda>i. mem s (slot s mq i)) [0..<unat (mem s (f_valid mq))]"

definition good_wait :: "mqs \<Rightarrow> u32 \<Rightarrow> wait \<Rightarrow> bool" where
  "good_wait M q w \<longleftrightarrow> q = running_queue
     \<or> (\<exists>mq \<in> dom M. q = f_recv mq \<and> (\<exists>p. w = WRecv mq p))
     \<or> (\<exists>mq \<in> dom M. q = f_send mq \<and> (\<exists>m jam. w = WSend mq m jam))"

fun safe_wait :: "u32 set \<Rightarrow> mqs \<Rightarrow> wait \<Rightarrow> bool" where
  "safe_wait T M (WSend mq m jam) \<longleftrightarrow> mq \<in> dom M"
| "safe_wait T M (WRecv mq p) \<longleftrightarrow> mq \<in> dom M \<and> safe_ptr T M p"
| "safe_wait T M _ \<longleftrightarrow> True"

definition waits_ok :: "u32 set \<Rightarrow> mqs \<Rightarrow> os \<Rightarrow> (u32 \<Rightarrow> u32 list) \<Rightarrow> bool" where
  "waits_ok T M s qs \<longleftrightarrow>
     (\<forall>q \<in> insert running_queue (queues M). \<forall>t \<in> set (qs q). t \<noteq> thread_self s \<longrightarrow>
        ctx s t \<noteq> 0 \<and> (\<exists>w. parked s t = Some (ctx s t, w) \<and> good_wait M q w))
     \<and> (\<forall>t \<in> T. \<forall>c w. parked s t = Some (c, w) \<longrightarrow> c = ctx s t \<and> safe_wait T M w)"

definition core :: "u32 set \<Rightarrow> mqs \<Rightarrow> os \<Rightarrow> (u32 \<Rightarrow> u32 list) \<Rightarrow> bool" where
  "core T M s qs \<longleftrightarrow> sys_layout T M \<and> kernel_inv T (queues M) s qs \<and> back_ok T (queues M) s qs
     \<and> (\<forall>mq buf n. M mq = Some (buf, n) \<longrightarrow> mq_ok s mq buf n)
     \<and> waits_ok T M s qs \<and> thread_self s \<in> T \<and> ctx s (thread_self s) \<noteq> 0
     \<and> external_pending s = of_nat (length (external_messages s)) \<and> (\<forall>m \<in> set (external_messages s). q_mq m \<in> dom M)"

text \<open>Between system calls the running thread is in no queue.\<close>

definition kernel_ok :: "u32 set \<Rightarrow> mqs \<Rightarrow> os \<Rightarrow> bool" where
  "kernel_ok T M s \<longleftrightarrow> (\<exists>qs. core T M s qs \<and> unqueued (queues M) qs (thread_self s))"

section \<open>Using the layout\<close>

lemma queues_memb [simp]: "mq \<in> dom M \<Longrightarrow> mq \<in> queues M" "mq \<in> dom M \<Longrightarrow> f_send mq \<in> queues M"
  unfolding queues_def by force+

lemma coreD:
  assumes "core T M s qs"
  shows "sys_layout T M" "kernel_inv T (queues M) s qs" "M mq = Some (buf, n) \<Longrightarrow> mq_ok s mq buf n"
    "waits_ok T M s qs" "thread_self s \<in> T" "ctx s (thread_self s) \<noteq> 0"
    "external_pending s = of_nat (length (external_messages s))" "m \<in> set (external_messages s) \<Longrightarrow> q_mq m \<in> dom M"
    "back_ok T (queues M) s qs"
  using assms unfolding core_def by blast+

lemma sys_layoutD:
  assumes "sys_layout T M" "M mq = Some (buf, n)"
  shows "layout T (queues M)" "kseg0 mq" "kseg0 buf" "0 < n" "n \<le> 0x10000"
    "x \<in> mqfields mq \<Longrightarrow> x \<notin> kcells T (queues M)" "x \<in> ring buf n \<Longrightarrow> x \<notin> kcells T (queues M)"
    "mq' \<in> dom M \<Longrightarrow> x \<in> ring buf n \<Longrightarrow> x \<notin> mqfields mq'"
    "M mq' = Some (buf', n') \<Longrightarrow> mq \<noteq> mq' \<Longrightarrow> x \<in> mqfields mq \<Longrightarrow> x \<notin> mqfields mq'"
    "M mq' = Some (buf', n') \<Longrightarrow> mq \<noteq> mq' \<Longrightarrow> x \<in> ring buf n \<Longrightarrow> x \<notin> ring buf' n'"
proof -
  have a: "layout T (queues M)" and b: "\<And>mq buf n. M mq = Some (buf, n) \<Longrightarrow> kseg0 mq \<and> kseg0 buf \<and> 0 < n \<and> n \<le> 0x10000
          \<and> mqfields mq \<inter> kcells T (queues M) = {} \<and> ring buf n \<inter> kcells T (queues M) = {}"
    and c: "\<And>mq mq' buf n. M mq = Some (buf, n) \<Longrightarrow> mq' \<in> dom M \<Longrightarrow> ring buf n \<inter> mqfields mq' = {}"
    and d: "\<And>mq mq' buf n buf' n'. M mq = Some (buf, n) \<Longrightarrow> M mq' = Some (buf', n') \<Longrightarrow> mq \<noteq> mq' \<Longrightarrow>
          mqfields mq \<inter> mqfields mq' = {} \<and> ring buf n \<inter> ring buf' n' = {}"
    using assms(1) unfolding sys_layout_def by blast+
  show "layout T (queues M)" by (rule a)
  show "kseg0 mq" "kseg0 buf" "0 < n" "n \<le> 0x10000" using b [OF assms(2)] by blast+
  show "x \<in> mqfields mq \<Longrightarrow> x \<notin> kcells T (queues M)" "x \<in> ring buf n \<Longrightarrow> x \<notin> kcells T (queues M)"
    using b [OF assms(2)] by blast+
  show "mq' \<in> dom M \<Longrightarrow> x \<in> ring buf n \<Longrightarrow> x \<notin> mqfields mq'" using c [OF assms(2)] by blast
  show "M mq' = Some (buf', n') \<Longrightarrow> mq \<noteq> mq' \<Longrightarrow> x \<in> mqfields mq \<Longrightarrow> x \<notin> mqfields mq'"
    "M mq' = Some (buf', n') \<Longrightarrow> mq \<noteq> mq' \<Longrightarrow> x \<in> ring buf n \<Longrightarrow> x \<notin> ring buf' n'"
    using d [OF assms(2)] by blast+
qed

lemma mqfields_memb [simp]: "f_valid mq \<in> mqfields mq" "f_first mq \<in> mqfields mq" "f_count mq \<in> mqfields mq" "f_msg mq \<in> mqfields mq"
  by (simp_all add: mqfields_def)

lemma slot_ring:
  assumes "mq_ok s mq buf n" "0 < n" "n \<le> 0x10000"
  shows "slot s mq i = buf + 4 * of_nat ((unat (mem s (f_first mq)) + i) mod n)" "slot s mq i \<in> ring buf n"
proof -
  have n: "unat (of_nat n :: u32) = n" using assms(3) by (simp add: unsigned_of_nat take_bit_nat_eq_self)
  with assms(1) show "slot s mq i = buf + 4 * of_nat ((unat (mem s (f_first mq)) + i) mod n)"
    by (simp add: slot_def mq_ok_def)
  then show "slot s mq i \<in> ring buf n" using assms(2) by (auto simp: ring_def)
qed

text \<open>What decides the state of a queue: its four fields and its ring.\<close>

lemma contents_cong:
  assumes "mq_ok s mq buf n" "0 < n" "n \<le> 0x10000" "\<forall>x \<in> mqfields mq \<union> ring buf n. mem s' x = mem s x"
  shows "contents s' mq = contents s mq" "mq_ok s' mq buf n"
proof -
  have f: "mem s' (f_valid mq) = mem s (f_valid mq)" "mem s' (f_first mq) = mem s (f_first mq)"
    "mem s' (f_count mq) = mem s (f_count mq)" "mem s' (f_msg mq) = mem s (f_msg mq)"
    using assms(4) by (simp_all add: mqfields_def)
  then show "mq_ok s' mq buf n" using assms(1) by (simp add: mq_ok_def)
  have "slot s' mq i = slot s mq i" for i using f by (simp add: slot_def)
  moreover have "mem s' (slot s mq i) = mem s (slot s mq i)" for i
    using assms(4) slot_ring(2) [OF assms(1-3)] by blast
  ultimately show "contents s' mq = contents s mq" using f(1) by (simp add: contents_def)
qed

text \<open>A kernel change that keeps to the cells of the thread queues leaves every message queue as it was.\<close>

lemma rest_mq:
  assumes "core T M s qs" "same_rest T (queues M) s s'" "M mq = Some (buf, n)"
  shows "contents s' mq = contents s mq" "mq_ok s' mq buf n"
proof -
  note L = sys_layoutD [OF coreD(1) [OF assms(1)] assms(3)]
  have "\<forall>x \<in> mqfields mq \<union> ring buf n. mem s' x = mem s x"
    using L(6,7) assms(2) unfolding same_rest_def by blast
  from contents_cong [OF coreD(3) [OF assms(1,3)] L(4,5) this]
  show "contents s' mq = contents s mq" "mq_ok s' mq buf n" .
qed

lemma core_rest:
  assumes "core T M s qs" "same_rest T (queues M) s s'" "kernel_inv T (queues M) s' qs'" "waits_ok T M s' qs'"
    "back_ok T (queues M) s' qs'"
  shows "core T M s' qs'"
  using assms rest_mq(2) [OF assms(1,2)] by (auto simp: core_def same_rest_def)

lemma back_outside:
  assumes "core T M s qs" "\<forall>a \<in> kcells T (queues M). mem s' a = mem s a" shows "back_ok T (queues M) s' qs"
proof -
  have "mem s' (f_queue t) = mem s (f_queue t)" "mem s' (f_state t) = mem s (f_state t)" if "t \<in> T" for t
    using assms(2) tcells_kcells [OF that] tcells_self by blast+
  then show ?thesis
    using coreD(9) [OF assms(1)] queued_in [OF coreD(2) [OF assms(1)]] unfolding back_ok_def by metis
qed

section \<open>Thread operations\<close>

lemma waits_okD:
  assumes "waits_ok T M s qs" "q \<in> insert running_queue (queues M)" "t \<in> set (qs q)" "t \<noteq> thread_self s"
  shows "ctx s t \<noteq> 0" "\<exists>w. parked s t = Some (ctx s t, w) \<and> good_wait M q w"
  using assms unfolding waits_ok_def by blast+

lemma waits_ok_rest:
  assumes "waits_ok T M s qs" "same_rest T (queues M) s s'"
    and "\<forall>q \<in> insert running_queue (queues M). \<forall>t \<in> set (qs' q). t \<noteq> thread_self s \<longrightarrow> t \<in> set (qs q)
      \<or> ctx s t \<noteq> 0 \<and> (\<exists>w. parked s t = Some (ctx s t, w) \<and> good_wait M q w)"
  shows "waits_ok T M s' qs'"
  using assms unfolding waits_ok_def same_rest_def by metis

lemma core_insert:
  assumes core: "core T M s qs" and q: "q \<in> insert running_queue (queues M)" and a: "a \<in> T" "unqueued (queues M) qs a"
    and w: "a = thread_self s \<or> ctx s a \<noteq> 0 \<and> (\<exists>w. parked s a = Some (ctx s a, w) \<and> good_wait M q w)"
  defines "s' \<equiv> thread_queue_insert q a s"
  shows "core T M s' (qs(q := pri_insert (priority s) a (qs q)))" "same_rest T (queues M) s s'"
    "\<forall>t \<in> T. priority s' t = priority s t"
proof -
  note inv = coreD(2) [OF core]
  note ki = kernel_insert [OF inv q a, folded s'_def]
  show rest: "same_rest T (queues M) s s'" unfolding s'_def by (rule insert_rest [OF inv q a])
  have "back_ok T (queues M) s' (qs(q := pri_insert (priority s) a (qs q)))"
    unfolding s'_def by (rule insert_back [OF inv q a coreD(9) [OF core]])
  then show "core T M s' (qs(q := pri_insert (priority s) a (qs q)))"
    using w by (intro core_rest [OF core rest ki(1)] waits_ok_rest [OF coreD(4) [OF core] rest]) auto
  show "\<forall>t \<in> T. priority s' t = priority s t" by (rule ki(2))
qed

lemma core_upd_state:
  assumes core: "core T M s qs" and t: "t \<in> T" and v: "v \<noteq> STOPPED"
  shows "core T M (upd (f_state t) v s) qs" "same_rest T (queues M) s (upd (f_state t) v s)"
    "\<forall>u \<in> T. priority (upd (f_state t) v s) u = priority s u"
proof -
  show rest: "same_rest T (queues M) s (upd (f_state t) v s)"
    by (intro same_rest_upd same_rest_refl tcells_kcells [OF t] tcells_self)
  have "kernel_inv T (queues M) (upd (f_state t) v s) qs"
    by (rule kernel_upd_state [OF coreD(2) [OF core] t]) simp
  note lay = kernel_invD(1) [OF coreD(2) [OF core]]
  have "f_queue u \<noteq> f_state t" if "u \<in> T" for u
    using layout_disjoint [OF lay that t _ tcells_self(3,4)] by (cases "u = t") auto
  then have "back_ok T (queues M) (upd (f_state t) v s) qs"
    using coreD(9) [OF core] queued_in [OF coreD(2) [OF core]] v unfolding back_ok_def by (simp only: upd_simps) (metis (full_types))
  then show "core T M (upd (f_state t) v s) qs"
    using \<open>kernel_inv T (queues M) (upd (f_state t) v s) qs\<close>
    by (intro core_rest [OF core rest] waits_ok_rest [OF coreD(4) [OF core] rest]) auto
  show "\<forall>u \<in> T. priority (upd (f_state t) v s) u = priority s u"
  proof
    fix u assume u: "u \<in> T"
    have "f_priority u \<noteq> f_state t"
      using layout_disjoint [OF lay u t _ tcells_self(2,4)] by (cases "u = t") auto
    then show "priority (upd (f_state t) v s) u = priority s u" by (simp add: priority_def)
  qed
qed

lemma core_schedule:
  assumes core: "core T M s qs" and a: "a \<in> T" "unqueued (queues M) qs a"
    and w: "a = thread_self s \<or> ctx s a \<noteq> 0 \<and> (\<exists>w. parked s a = Some (ctx s a, w))"
  defines "s' \<equiv> schedule_running_thread a s"
  shows "core T M s' (qs(running_queue := pri_insert (priority s) a (qs running_queue)))" "same_rest T (queues M) s s'"
    "\<forall>t \<in> T. priority s' t = priority s t"
proof -
  have r: "running_queue \<in> insert running_queue (queues M)" by simp
  have w': "a = thread_self s \<or> ctx s a \<noteq> 0 \<and> (\<exists>w. parked s a = Some (ctx s a, w) \<and> good_wait M running_queue w)"
    using w by (simp add: good_wait_def)
  note i = core_insert [OF core r a w']
  note u = core_upd_state [OF i(1) a(1) not_stopped(1)]
  show "core T M s' (qs(running_queue := pri_insert (priority s) a (qs running_queue)))"
    using u(1) by (simp add: s'_def schedule_running_thread_def)
  show "same_rest T (queues M) s s'" using same_rest_trans [OF i(2) u(2)] by (simp add: s'_def schedule_running_thread_def)
  show "\<forall>t \<in> T. priority s' t = priority s t" using u(3) i(3) by (simp add: s'_def schedule_running_thread_def)
qed

lemma core_pop:
  assumes core: "core T M s qs" and q: "q \<in> insert running_queue (queues M)" and qs: "qs q = t # ts"
  obtains s' where "thread_queue_pop q s = (t, s')" "core T M s' (qs(q := ts))" "same_rest T (queues M) s s'"
    "\<forall>u \<in> T. priority s' u = priority s u" "t \<in> T" "unqueued (queues M) (qs(q := ts)) t"
proof -
  note inv = coreD(2) [OF core]
  obtain s' where s': "thread_queue_pop q s = (t, s')" "kernel_inv T (queues M) s' (qs(q := ts))"
    "\<forall>u \<in> T. priority s' u = priority s u" "s' = unlink (queue_to_ptr q) t s" "t \<in> T"
    using kernel_pop_Cons [OF inv q qs] .
  have rest: "same_rest T (queues M) s s'" unfolding s'(4) by (rule pop_rest [OF inv q qs])
  have "back_ok T (queues M) s' (qs(q := ts))"
    using unlink_back [OF inv q, of "[]" t ts] coreD(9) [OF core] qs by (simp add: s'(4))
  then have "core T M s' (qs(q := ts))"
    using qs by (intro core_rest [OF core rest s'(2)] waits_ok_rest [OF coreD(4) [OF core] rest]) auto
  moreover have "unqueued (queues M) (qs(q := ts)) t"
  proof -
    have "t \<notin> set ts" using kernel_invD(2) [OF inv q] qs by (simp add: qok_def)
    moreover have "t \<notin> set (qs r)" if "r \<in> insert running_queue (queues M)" "r \<noteq> q" for r
      using kernel_invD(3) [OF inv that(1) q that(2)] qs by auto
    ultimately show ?thesis by (auto simp: unqueued_def)
  qed
  ultimately show thesis using that s' rest by blast
qed

lemma queue_empty_iff:
  "core T M s qs \<Longrightarrow> q \<in> insert running_queue (queues M) \<Longrightarrow> thread_queue_empty q s \<longleftrightarrow> qs q = []"
  using kernel_invD(2) [OF coreD(2), of T M s qs q]
  by (cases "qs q") (auto simp: qok_def thread_queue_empty_def dest: valid_nonzero)

lemma queue_peek:
  "core T M s qs \<Longrightarrow> q \<in> insert running_queue (queues M) \<Longrightarrow> qs q = t # ts \<Longrightarrow> thread_queue_peek q s = t"
  using kernel_invD(2) [OF coreD(2), of T M s qs q] by (auto simp: qok_def thread_queue_peek_def)

lemma unqueued_upd: "unqueued Q qs a \<Longrightarrow> set ts \<subseteq> insert b (set (qs q)) \<Longrightarrow> a \<noteq> b \<Longrightarrow> unqueued Q (qs(q := ts)) a"
  by (auto simp: unqueued_def)

lemma unqueued_shrink: "unqueued Q qs a \<Longrightarrow> qs q = t # ts \<Longrightarrow> unqueued Q (qs(q := ts)) a"
  by (auto simp: unqueued_def)

text \<open>Waking the first thread of a queue moves it to the running queue.\<close>

definition woken :: "os \<Rightarrow> u32 \<Rightarrow> (u32 \<Rightarrow> u32 list) \<Rightarrow> u32 \<Rightarrow> u32 list" where
  "woken s q qs = (case qs q of [] \<Rightarrow> qs
     | t # ts \<Rightarrow> (qs(q := ts))(running_queue := pri_insert (priority s) t (qs running_queue)))"

lemma core_wake:
  assumes core: "core T M s qs" and q: "q \<in> queues M" and self: "unqueued (queues M) qs (thread_self s)"
  defines "s' \<equiv> wake_first q s"
  shows "core T M s' (woken s q qs)" "same_rest T (queues M) s s'" "unqueued (queues M) (woken s q qs) (thread_self s')"
proof -
  have q': "q \<in> insert running_queue (queues M)" using q by simp
  have qr: "q \<noteq> running_queue" using layout_running [OF kernel_invD(1) [OF coreD(2) [OF core]] q] .
  have "core T M s' (woken s q qs) \<and> same_rest T (queues M) s s' \<and> unqueued (queues M) (woken s q qs) (thread_self s')"
  proof (cases "qs q")
    case Nil
    then show ?thesis using queue_empty_iff [OF core q'] core self by (simp add: s'_def wake_first_def woken_def)
  next
    case (Cons t ts)
    obtain s1 where s1: "thread_queue_pop q s = (t, s1)" "core T M s1 (qs(q := ts))" "same_rest T (queues M) s s1"
      "\<forall>u \<in> T. priority s1 u = priority s u" "t \<in> T" "unqueued (queues M) (qs(q := ts)) t"
      using core_pop [OF core q' Cons] .
    have ts: "t \<noteq> thread_self s" using self Cons q by (auto simp: unqueued_def)
    have "ctx s t \<noteq> 0 \<and> (\<exists>w. parked s t = Some (ctx s t, w))"
      using waits_okD [OF coreD(4) [OF core] q', of t] Cons ts by auto
    then have "t = thread_self s1 \<or> ctx s1 t \<noteq> 0 \<and> (\<exists>w. parked s1 t = Some (ctx s1 t, w))"
      using s1(3) by (simp add: same_rest_def)
    note sch = core_schedule [OF s1(2,5,6) this]
    have s': "s' = schedule_running_thread t s1"
      using queue_empty_iff [OF core q'] Cons s1(1) by (simp add: s'_def wake_first_def)
    have "set (qs running_queue) \<subseteq> T" using kernel_invD(2) [OF coreD(2) [OF core], of running_queue] by (simp add: qok_def)
    then have "pri_insert (priority s1) t (qs running_queue) = pri_insert (priority s) t (qs running_queue)"
      using s1(4,5) by (intro pri_insert_cong) auto
    then have wk: "woken s q qs = (qs(q := ts))(running_queue := pri_insert (priority s1) t ((qs(q := ts)) running_queue))"
      using Cons qr by (simp add: woken_def)
    have rest: "same_rest T (queues M) s s'" using same_rest_trans [OF s1(3) sch(2)] s' by simp
    moreover have "unqueued (queues M) (woken s q qs) (thread_self s)"
      unfolding wk using ts by (intro unqueued_upd [OF unqueued_shrink [OF self Cons]]) auto
    ultimately show ?thesis using sch(1) s' wk by (auto simp: same_rest_def)
  qed
  then show "core T M s' (woken s q qs)" "same_rest T (queues M) s s'" "unqueued (queues M) (woken s q qs) (thread_self s')"
    by blast+
qed

section \<open>Handing over the processor\<close>

text \<open>The running thread waits at \<open>w\<close>, which fits every queue that holds it, and \<open>t\<close> runs.\<close>

definition hand_over :: "wait \<Rightarrow> u32 \<Rightarrow> os \<Rightarrow> os" where
  "hand_over w t s = s\<lparr>parked := (parked s)(thread_self s \<mapsto> (ctx s (thread_self s), w)), thread_self := t\<rparr>"

lemma hand_over_simps [simp]:
  "mem (hand_over w t s) = mem s" "running_queue_impl (hand_over w t s) = running_queue_impl s"
  "thread_self (hand_over w t s) = t" "ctx (hand_over w t s) = ctx s"
  "parked (hand_over w t s) = (parked s)(thread_self s \<mapsto> (ctx s (thread_self s), w))"
  "external_messages (hand_over w t s) = external_messages s" "external_pending (hand_over w t s) = external_pending s"
  by (simp_all add: hand_over_def)

lemma core_hand_over:
  assumes core: "core T M s qs" and t: "t \<in> T" "unqueued (queues M) qs t" "ctx s t \<noteq> 0"
    and w: "safe_wait T M w" "\<forall>q \<in> insert running_queue (queues M). thread_self s \<in> set (qs q) \<longrightarrow> good_wait M q w"
  shows "core T M (hand_over w t s) qs"
proof -
  have "kernel_inv T (queues M) (hand_over w t s) qs"
    by (rule kernel_outside [OF coreD(2) [OF core]]) simp_all
  moreover have "mq_ok (hand_over w t s) mq buf n" if "M mq = Some (buf, n)" for mq buf n
    using coreD(3) [OF core that] by (simp add: mq_ok_def)
  moreover have "waits_ok T M (hand_over w t s) qs"
    unfolding waits_ok_def
  proof (intro conjI ballI allI impI)
    fix q u assume u: "q \<in> insert running_queue (queues M)" "u \<in> set (qs q)" "u \<noteq> thread_self (hand_over w t s)"
    show "ctx (hand_over w t s) u \<noteq> 0"
      using waits_okD(1) [OF coreD(4) [OF core] u(1,2)] coreD(6) [OF core] by (cases "u = thread_self s") auto
    show "\<exists>w'. parked (hand_over w t s) u = Some (ctx (hand_over w t s) u, w') \<and> good_wait M q w'"
      using waits_okD(2) [OF coreD(4) [OF core] u(1,2)] w(2) u by (cases "u = thread_self s") auto
  next
    fix u c v assume u: "u \<in> T" "parked (hand_over w t s) u = Some (c, v)"
    then have "u = thread_self s \<and> c = ctx s u \<and> v = w \<or> parked s u = Some (c, v)"
      by (auto split: if_splits)
    with w(1) coreD(4) [OF core] u(1) show "c = ctx (hand_over w t s) u" "safe_wait T M v"
      unfolding waits_ok_def by auto
  qed
  moreover have "back_ok T (queues M) (hand_over w t s) qs" using coreD(9) [OF core] by (simp add: back_ok_def)
  ultimately show ?thesis using core t by (simp add: core_def)
qed

text \<open>The thread at the head of the running queue, popped while another thread runs, can be resumed.\<close>

lemma pop_running:
  assumes core: "core T M s qs" and r: "qs running_queue = t # ts" and self: "thread_self s \<notin> set (qs running_queue)"
  obtains s' where "thread_queue_pop running_queue s = (t, s')" "core T M s' (qs(running_queue := ts))"
    "same_rest T (queues M) s s'" "\<forall>u \<in> T. priority s' u = priority s u" "t \<in> T"
    "unqueued (queues M) (qs(running_queue := ts)) t" "ctx s' t \<noteq> 0" "t \<noteq> thread_self s"
proof -
  have q: "running_queue \<in> insert running_queue (queues M)" by simp
  have ts: "t \<noteq> thread_self s" using self r by auto
  have "ctx s t \<noteq> 0" using waits_okD(1) [OF coreD(4) [OF core] q, of t] r ts by simp
  with core_pop [OF core q r] ts that show thesis by (metis same_rest_def)
qed

lemma core_run_next:
  assumes core: "core T M s qs" and self: "thread_self s \<notin> set (qs running_queue)"
    and w: "safe_wait T M w" "\<forall>q \<in> insert running_queue (queues M). thread_self s \<in> set (qs q) \<longrightarrow> good_wait M q w"
  shows "qs running_queue = [] \<Longrightarrow> run_next_thread_and_wait w s = (Raised NoRunnable, s)"
    and "qs running_queue = t # ts \<Longrightarrow> \<exists>s'. run_next_thread_and_wait w s = (Parked, s') \<and> core T M s' (qs(running_queue := ts))
      \<and> unqueued (queues M) (qs(running_queue := ts)) t \<and> thread_self s' = t
      \<and> (\<forall>a. a \<notin> kcells T (queues M) \<longrightarrow> mem s' a = mem s a)"
proof -
  show "qs running_queue = [] \<Longrightarrow> run_next_thread_and_wait w s = (Raised NoRunnable, s)"
    using queue_empty_iff [OF core] by (simp add: run_next_thread_and_wait_def run_next_thread_def)
next
  assume r: "qs running_queue = t # ts"
  obtain s1 where s1: "thread_queue_pop running_queue s = (t, s1)" "core T M s1 (qs(running_queue := ts))"
    "same_rest T (queues M) s s1" "\<forall>u \<in> T. priority s1 u = priority s u" "t \<in> T"
    "unqueued (queues M) (qs(running_queue := ts)) t" "ctx s1 t \<noteq> 0" "t \<noteq> thread_self s"
    using pop_running [OF core r self] .
  have rest: "thread_self s1 = thread_self s" "ctx s1 = ctx s" "\<forall>a. a \<notin> kcells T (queues M) \<longrightarrow> mem s1 a = mem s a"
    using s1(3) by (simp_all add: same_rest_def)
  have "run_next_thread_and_wait w s = (Parked, hand_over w t s1)"
    using queue_empty_iff [OF core, of running_queue] r s1(1,7) rest
    by (simp add: run_next_thread_and_wait_def run_next_thread_def hand_over_def Let_def)
  moreover have "core T M (hand_over w t s1) (qs(running_queue := ts))"
    using w r rest(1) by (intro core_hand_over [OF s1(2,5,6,7) w(1)]) (auto simp: good_wait_def)
  ultimately show "\<exists>s'. run_next_thread_and_wait w s = (Parked, s') \<and> core T M s' (qs(running_queue := ts))
      \<and> unqueued (queues M) (qs(running_queue := ts)) t \<and> thread_self s' = t \<and> (\<forall>a. a \<notin> kcells T (queues M) \<longrightarrow> mem s' a = mem s a)"
    using s1(6) rest(3) by auto
qed

text \<open>Putting the running thread back into the running queue and resuming the one popped from it.\<close>

lemma core_swap:
  assumes core: "core T M s qs" and r: "qs running_queue = t # ts" and self: "unqueued (queues M) qs (thread_self s)"
    and w: "safe_wait T M w"
  defines "qs' \<equiv> qs(running_queue := pri_insert (priority s) (thread_self s) ts)"
  shows "\<exists>s'. swap_to_thread w t (snd (thread_queue_pop running_queue s)) = (Parked, s') \<and> core T M s' qs'
      \<and> unqueued (queues M) qs' t \<and> thread_self s' = t \<and> (\<forall>a. a \<notin> kcells T (queues M) \<longrightarrow> mem s' a = mem s a)"
proof -
  have "thread_self s \<notin> set (qs running_queue)" using self by (simp add: unqueued_def)
  from pop_running [OF core r this] obtain s1 where s1: "thread_queue_pop running_queue s = (t, s1)"
    "core T M s1 (qs(running_queue := ts))" "same_rest T (queues M) s s1" "\<forall>u \<in> T. priority s1 u = priority s u" "t \<in> T"
    "unqueued (queues M) (qs(running_queue := ts)) t" "ctx s1 t \<noteq> 0" "t \<noteq> thread_self s" .
  have self1: "thread_self s1 = thread_self s" using s1(3) by (simp add: same_rest_def)
  have un: "unqueued (queues M) (qs(running_queue := ts)) (thread_self s1)"
    using unqueued_shrink [OF self r] self1 by simp
  note sch = core_schedule [OF s1(2) coreD(5) [OF s1(2)] un disjI1 [OF refl]]
  let ?s2 = "schedule_running_thread (thread_self s1) s1"
  have "set ts \<subseteq> T" using kernel_invD(2) [OF coreD(2) [OF core], of running_queue] r by (simp add: qok_def)
  then have "pri_insert (priority s1) (thread_self s1) ts = pri_insert (priority s) (thread_self s) ts"
    using s1(4) self1 coreD(5) [OF core] by (simp, intro pri_insert_cong) auto
  with sch(1) have c2: "core T M ?s2 qs'" by (simp add: qs'_def)
  have rest: "same_rest T (queues M) s ?s2" by (rule same_rest_trans [OF s1(3) sch(2)])
  then have ctx2: "ctx ?s2 t \<noteq> 0" "ctx ?s2 = ctx s" "thread_self ?s2 = thread_self s"
    "\<forall>a. a \<notin> kcells T (queues M) \<longrightarrow> mem ?s2 a = mem s a" using s1(3,7) by (auto simp: same_rest_def)
  have "unqueued (queues M) ((qs(running_queue := ts))(running_queue := pri_insert (priority s) (thread_self s) ts)) t"
    using s1(8) by (intro unqueued_upd [OF s1(6)]) auto
  then have unt: "unqueued (queues M) qs' t" by (simp add: qs'_def)
  have "core T M (hand_over w t ?s2) qs'"
  proof (rule core_hand_over [OF c2 s1(5) unt ctx2(1) w])
    show "\<forall>q \<in> insert running_queue (queues M). thread_self ?s2 \<in> set (qs' q) \<longrightarrow> good_wait M q w"
      using self ctx2(3) by (auto simp: qs'_def good_wait_def unqueued_def)
  qed
  moreover have "swap_to_thread w t (snd (thread_queue_pop running_queue s)) = (Parked, hand_over w t ?s2)"
    using s1(1) ctx2(1) by (simp add: swap_to_thread_def resume_thread_and_wait_def schedule_running_thread_def hand_over_def Let_def)
  ultimately show ?thesis using unt ctx2(4) by auto
qed

text \<open>
  \<^verbatim>\<open>check_running_queue\<close>: with the best waiting thread no better than the running one nothing
  happens, and otherwise the two change places.
\<close>

lemma core_check:
  assumes core: "core T M s qs" and self: "unqueued (queues M) qs (thread_self s)" and w: "safe_wait T M w"
  shows "(\<forall>u \<in> set (qs running_queue). priority s u \<le> priority s (thread_self s)) \<Longrightarrow> check_running_queue r w s = (Done r, s)"
    and "qs running_queue = t # ts \<Longrightarrow> priority s t > priority s (thread_self s) \<Longrightarrow>
      \<exists>s'. check_running_queue r w s = (Parked, s') \<and> core T M s' (qs(running_queue := pri_insert (priority s) (thread_self s) ts))
      \<and> unqueued (queues M) (qs(running_queue := pri_insert (priority s) (thread_self s) ts)) t \<and> thread_self s' = t
      \<and> (\<forall>a. a \<notin> kcells T (queues M) \<longrightarrow> mem s' a = mem s a)"
proof -
  note em = queue_empty_iff [OF core, of running_queue] and pk = queue_peek [OF core, of running_queue]
  show "(\<forall>u \<in> set (qs running_queue). priority s u \<le> priority s (thread_self s)) \<Longrightarrow> check_running_queue r w s = (Done r, s)"
    using em pk by (cases "qs running_queue") (auto simp: check_running_queue_def Let_def)
  assume r: "qs running_queue = t # ts" and "priority s t > priority s (thread_self s)"
  then have "check_running_queue r w s = swap_to_thread w t (snd (thread_queue_pop running_queue s))"
    using em pk by (simp add: check_running_queue_def Let_def)
  with core_swap [OF core r self w]
  show "\<exists>s'. check_running_queue r w s = (Parked, s') \<and> core T M s' (qs(running_queue := pri_insert (priority s) (thread_self s) ts))
      \<and> unqueued (queues M) (qs(running_queue := pri_insert (priority s) (thread_self s) ts)) t \<and> thread_self s' = t
      \<and> (\<forall>a. a \<notin> kcells T (queues M) \<longrightarrow> mem s' a = mem s a)" by simp
qed

end
