(* ===== verification/MesgProps.thy ===== *)
theory MesgProps
  imports KernelInv
begin

text \<open>
  Message queues as bounded FIFO queues: on a kernel that satisfies its invariant a send appends
  (a jam prepends) and a receive takes the oldest message, no other queue changes, and the
  thread that is woken moves to its place in the running queue.
\<close>

section \<open>Ring arithmetic\<close>

lemma ring_index_inj:
  assumes "(f + i) mod n = (f + j) mod n" "i < n" "j < (n :: nat)" shows "i = j"
proof -
  have "int ((f + i) mod n) = int ((f + j) mod n)" using assms(1) by simp
  then have "(int i - int j) mod int n = 0" by (simp add: zmod_int mod_eq_dvd_iff)
  then have "int n dvd int i - int j" by presburger
  then have "int i - int j = 0"
    using dvd_imp_le_int [of "int i - int j" "int n"] assms(2,3) by (cases "int i - int j = 0") auto
  then show ?thesis by simp
qed

lemma upt_Suc_shift: "[0..<Suc v] = 0 # map Suc [0..<v]"
  by (metis map_Suc_upt upt_conv_Cons zero_less_Suc)

lemma ring_push:
  assumes "v < n"
  shows "map (\<lambda>i. (g((f + v) mod n := m)) ((f + i) mod n)) [0..<Suc v] = map (\<lambda>i. g ((f + i) mod n)) [0..<v] @ [m]"
proof -
  have "(f + i) mod n \<noteq> (f + v) mod n" if "i < v" for i using ring_index_inj [of f i n v] that assms by auto
  then show ?thesis by simp
qed

lemma ring_jam_index: "0 < n \<Longrightarrow> ((f + n - 1) mod n + Suc i) mod n = (f + i) mod (n :: nat)"
proof -
  assume n: "0 < n"
  have "((f + n - 1) mod n + Suc i) mod n = (f + n - 1 + Suc i) mod n" by (rule mod_add_left_eq)
  also have "f + n - 1 + Suc i = f + i + n" using n by simp
  finally show ?thesis by simp
qed

lemma ring_jam:
  fixes f n v :: nat
  assumes "v < n"
  defines "f' \<equiv> (f + n - 1) mod n"
  shows "map (\<lambda>i. (g(f' := m)) ((f' + i) mod n)) [0..<Suc v] = m # map (\<lambda>i. g ((f + i) mod n)) [0..<v]"
proof -
  have n: "0 < n" and f': "f' mod n = f'" "f' < n" using assms by simp_all
  have shift: "(f' + Suc i) mod n = (f + i) mod n" for i using ring_jam_index [OF n] by (simp add: f'_def)
  have neq: "(f' + Suc i) mod n \<noteq> f'" if "i < v" for i
    using ring_index_inj [of f' "Suc i" n 0] that assms(1) f' by auto
  have "[0..<Suc v] = 0 # map Suc [0..<v]" by (rule upt_Suc_shift)
  then show ?thesis using neq shift f' by simp
qed

lemma ring_pop:
  assumes "0 < v" "f < n"
  shows "map (\<lambda>i. g ((f + i) mod n)) [0..<v] = g f # map (\<lambda>i. g (((f + 1) mod n + i) mod n)) [0..<v - 1]"
proof -
  have "[0..<v] = 0 # map Suc [0..<v - 1]" using upt_Suc_shift [of "v - 1"] assms(1) by simp
  moreover have "((f + 1) mod n + i) mod n = (f + Suc i) mod n" for i
    using mod_add_left_eq [of "f + 1" n i] by simp
  ultimately show ?thesis using assms(2) by simp
qed

lemma unat_small: "n < 2 ^ 32 \<Longrightarrow> unat (of_nat n :: u32) = n"
  by (simp add: unsigned_of_nat take_bit_nat_eq_self)

lemma sint_small: assumes "n < 2 ^ 31" shows "sint (of_nat n :: u32) = int n"
  using assms by (simp add: signed_of_nat signed_take_bit_int_eq_self)

lemma sint_unat: assumes "unat (x :: u32) < 2 ^ 31" shows "sint x = int (unat x)"
  using sint_small [OF assms] by simp

lemma s32_rem_nat:
  assumes "a < 2 ^ 31" "0 < b" "b < 2 ^ 31" shows "s32_rem (of_nat a) (of_nat b) = of_nat (a mod b)"
  using assms by (simp add: s32_rem_def sint_small signed_modulo_int_def sgn_if zmod_int [symmetric])

lemma ring_addr_inj:
  assumes "(buf :: u32) + 4 * of_nat i = buf + 4 * of_nat j" "i < n" "j < n" "n \<le> 0x10000" shows "i = j"
proof -
  have "(of_nat (4 * i) :: u32) = of_nat (4 * j)" using assms(1) by simp
  then have "unat (of_nat (4 * i) :: u32) = unat (of_nat (4 * j) :: u32)" by (rule arg_cong)
  moreover have "4 * i < 2 ^ 32" "4 * j < 2 ^ 32" using assms by simp_all
  ultimately show ?thesis using unat_small by (metis mult_left_cancel zero_neq_numeral)
qed

section \<open>Changing one message queue\<close>

lemma core_mq_write:
  assumes core: "core T M s qs" and M: "M mq = Some (buf, n)" and s': "s' = s\<lparr>mem := mem s'\<rparr>"
    and only: "\<forall>a. a \<notin> mqfields mq \<union> ring buf n \<longrightarrow> mem s' a = mem s a" and ok: "mq_ok s' mq buf n"
  shows "core T M s' qs" "mq' \<noteq> mq \<Longrightarrow> mq' \<in> dom M \<Longrightarrow> contents s' mq' = contents s mq'"
    "\<forall>t \<in> T. priority s' t = priority s t"
proof -
  note L = sys_layoutD [OF coreD(1) [OF core]]
  have fld: "running_queue_impl s' = running_queue_impl s" "thread_self s' = thread_self s" "ctx s' = ctx s"
    "parked s' = parked s" "external_messages s' = external_messages s" "external_pending s' = external_pending s"
    by (subst s', simp)+
  have k: "\<forall>a \<in> kcells T (queues M). mem s' a = mem s a" using only L(6,7) [OF M] by blast
  have other: "contents s' m' = contents s m'" "mq_ok s' m' b' n'" if m': "M m' = Some (b', n')" "m' \<noteq> mq" for m' b' n'
  proof -
    have "\<forall>x \<in> mqfields m' \<union> ring b' n'. mem s' x = mem s x"
      using only L(8) [OF M, of m'] L(8) [OF m'(1), of mq] L(9) [OF m'(1) M m'(2)] L(10) [OF m'(1) M m'(2)] M m'(1) by blast
    from contents_cong [OF coreD(3) [OF core m'(1)] L(4,5) [OF m'(1)] this]
    show "contents s' m' = contents s m'" "mq_ok s' m' b' n'" .
  qed
  have "mq_ok s' m' b' n'" if "M m' = Some (b', n')" for m' b' n'
    using other(2) [OF that] ok M that by (cases "m' = mq") auto
  moreover have "kernel_inv T (queues M) s' qs" by (rule kernel_outside [OF coreD(2) [OF core] fld(1) k])
  moreover have "waits_ok T M s' qs" using coreD(4) [OF core] fld by (simp add: waits_ok_def)
  ultimately show "core T M s' qs" using core fld back_outside [OF core k] by (simp add: core_def)
  show "mq' \<noteq> mq \<Longrightarrow> mq' \<in> dom M \<Longrightarrow> contents s' mq' = contents s mq'" using other(1) by auto
  show "\<forall>t \<in> T. priority s' t = priority s t"
    using k tcells_kcells tcells_self(2) by (metis priority_def)
qed

text \<open>The fields of a queue that satisfies its invariant.\<close>

lemma mq_fields:
  assumes "core T M s qs" "M mq = Some (buf, n)"
  obtains f v where "mem s (f_first mq) = of_nat f" "mem s (f_valid mq) = of_nat v" "mem s (f_count mq) = of_nat n"
    "mem s (f_msg mq) = buf" "f < n" "v \<le> n" "0 < n" "n \<le> 0x10000"
    "contents s mq = map (\<lambda>i. mem s (buf + 4 * of_nat ((f + i) mod n))) [0..<v]"
proof -
  note L = sys_layoutD(4,5) [OF coreD(1) [OF assms(1)] assms(2)] and ok = coreD(3) [OF assms]
  show thesis
  proof (rule that)
    show "mem s (f_first mq) = of_nat (unat (mem s (f_first mq)))" "mem s (f_valid mq) = of_nat (unat (mem s (f_valid mq)))"
      by simp_all
    show "contents s mq = map (\<lambda>i. mem s (buf + 4 * of_nat ((unat (mem s (f_first mq)) + i) mod n))) [0..<unat (mem s (f_valid mq))]"
      using slot_ring(1) [OF ok L] by (simp add: contents_def)
  qed (use ok L in \<open>simp_all add: mq_ok_def\<close>)
qed

lemma contents_fields:
  assumes "mem s (f_first mq) = of_nat f" "mem s (f_valid mq) = of_nat v" "mem s (f_count mq) = of_nat n"
    "mem s (f_msg mq) = buf" "f < n" "v \<le> n" "n \<le> 0x10000"
  shows "contents s mq = map (\<lambda>i. mem s (buf + 4 * of_nat ((f + i) mod n))) [0..<v]" "mq_ok s mq buf n"
proof -
  have u: "unat (of_nat f :: u32) = f" "unat (of_nat v :: u32) = v" "unat (of_nat n :: u32) = n"
    using assms by (simp_all add: unat_small)
  with assms show ok: "mq_ok s mq buf n" by (simp add: mq_ok_def)
  have "0 < n" using assms by simp
  from slot_ring(1) [OF ok this assms(7)] u assms
  show "contents s mq = map (\<lambda>i. mem s (buf + 4 * of_nat ((f + i) mod n))) [0..<v]" by (simp add: contents_def)
qed

lemma length_contents:
  assumes "core T M s qs" "M mq = Some (buf, n)" shows "length (contents s mq) \<le> n"
    "MQ_IS_FULL mq s \<longleftrightarrow> length (contents s mq) = n" "MQ_IS_EMPTY mq s \<longleftrightarrow> contents s mq = []" "mq_sane mq s"
proof -
  obtain f v where fv: "mem s (f_first mq) = of_nat f" "mem s (f_valid mq) = of_nat v" "mem s (f_count mq) = of_nat n"
    "mem s (f_msg mq) = buf" "f < n" "v \<le> n" "0 < n" "n \<le> 0x10000"
    "contents s mq = map (\<lambda>i. mem s (buf + 4 * of_nat ((f + i) mod n))) [0..<v]" using mq_fields [OF assms] .
  have si: "sint (of_nat f :: u32) = int f" "sint (of_nat v :: u32) = int v" "sint (of_nat n :: u32) = int n"
    using fv by (simp_all add: sint_small)
  show "length (contents s mq) \<le> n" using fv by simp
  show "MQ_IS_FULL mq s \<longleftrightarrow> length (contents s mq) = n"
    using fv si by (auto simp: MQ_IS_FULL_def MQ_GET_COUNT_def)
  have "v = 0" if "(of_nat v :: u32) = 0" using si(2) unfolding that by simp
  then have "(of_nat v :: u32) = 0 \<longleftrightarrow> v = 0" by auto
  then show "MQ_IS_EMPTY mq s \<longleftrightarrow> contents s mq = []" using fv by (simp add: MQ_IS_EMPTY_def)
  show "mq_sane mq s" using sys_layoutD(2,3) [OF coreD(1) [OF assms(1)] assms(2)] fv si by (simp add: mq_sane_def)
qed

section \<open>Sending\<close>

lemma ring_cell: "j < n \<Longrightarrow> buf + 4 * of_nat j \<in> ring buf n"
  by (auto simp: ring_def)

lemma field_not_ring:
  assumes "core T M s qs" "M mq = Some (buf, n)" "j < n" "x \<in> mqfields mq" shows "x \<noteq> buf + 4 * of_nat j"
proof -
  have "mq \<in> dom M" using assms(2) by blast
  from sys_layoutD(8) [OF coreD(1) [OF assms(1)] assms(2) this ring_cell [OF assms(3)]] assms(4) show ?thesis by blast
qed

text \<open>One store into the ring and new values for the indices.\<close>

lemma store_ring:
  fixes m :: u32
  assumes core: "core T M s qs" and M: "M mq = Some (buf, n)" and j: "j < n" and f': "f' < n" and v': "v' \<le> n"
  defines "s' \<equiv> upd (f_valid mq) (of_nat v') (upd (buf + 4 * of_nat j) m (upd (f_first mq) (of_nat f') s))"
  shows "core T M s' qs" "mq' \<noteq> mq \<Longrightarrow> mq' \<in> dom M \<Longrightarrow> contents s' mq' = contents s mq'"
    "\<forall>t \<in> T. priority s' t = priority s t"
    "contents s' mq = map (\<lambda>i. ((\<lambda>j. mem s (buf + 4 * of_nat j))(j := m)) ((f' + i) mod n)) [0..<v']"
proof -
  obtain f v where fv: "mem s (f_count mq) = of_nat n" "mem s (f_msg mq) = buf" "0 < n" "n \<le> 0x10000"
    using mq_fields [OF core M] by metis
  have r: "buf + 4 * of_nat j \<in> ring buf n" using j by (rule ring_cell)
  note ne = field_not_ring [OF core M]
  have s'f: "mem s' (f_first mq) = of_nat f'" "mem s' (f_valid mq) = of_nat v'" "mem s' (f_count mq) = of_nat n" "mem s' (f_msg mq) = buf"
    using fv by (simp_all add: s'_def ne [OF j])
  note cf = contents_fields [OF s'f f' v' fv(4)]
  have "mem s' (buf + 4 * of_nat k) = ((\<lambda>j. mem s (buf + 4 * of_nat j))(j := m)) k" if k: "k < n" for k
    using ne [OF k mqfields_memb(1)] ne [OF k mqfields_memb(2)] ring_addr_inj [OF _ k j fv(4)] by (auto simp: s'_def)
  then show "contents s' mq = map (\<lambda>i. ((\<lambda>j. mem s (buf + 4 * of_nat j))(j := m)) ((f' + i) mod n)) [0..<v']"
    unfolding cf(1) using fv(3) by (intro map_cong) auto
  have "s' = s\<lparr>mem := mem s'\<rparr>" by (simp add: s'_def upd_def)
  moreover have "\<forall>a. a \<notin> mqfields mq \<union> ring buf n \<longrightarrow> mem s' a = mem s a"
    using r by (auto simp: s'_def)
  ultimately show "core T M s' qs" "mq' \<noteq> mq \<Longrightarrow> mq' \<in> dom M \<Longrightarrow> contents s' mq' = contents s mq'"
    "\<forall>t \<in> T. priority s' t = priority s t" using core_mq_write [OF core M _ _ cf(2)] by blast+
qed

lemma upd_same: "mem s a = v \<Longrightarrow> upd a v s = s"
  by (simp add: upd_def fun_upd_idem)

lemma send_store_core:
  assumes core: "core T M s qs" and M: "M mq = Some (buf, n)" and room: "length (contents s mq) < n"
  obtains s1 where "send_store mq m jam s = (Done 1, wake_first (f_recv mq) s1)" "core T M s1 qs"
    "contents s1 mq = (if jam then m # contents s mq else contents s mq @ [m])"
    "\<And>mq'. mq' \<noteq> mq \<Longrightarrow> mq' \<in> dom M \<Longrightarrow> contents s1 mq' = contents s mq'"
    "\<forall>t \<in> T. priority s1 t = priority s t" "thread_self s1 = thread_self s" "ctx s1 = ctx s" "parked s1 = parked s"
    "external_messages s1 = external_messages s" "external_pending s1 = external_pending s"
proof -
  obtain f v where fv: "mem s (f_first mq) = of_nat f" "mem s (f_valid mq) = of_nat v" "mem s (f_count mq) = of_nat n"
    "mem s (f_msg mq) = buf" "f < n" "v \<le> n" "0 < n" "n \<le> 0x10000"
    "contents s mq = map (\<lambda>i. mem s (buf + 4 * of_nat ((f + i) mod n))) [0..<v]" using mq_fields [OF core M] .
  have v: "v < n" using room fv by simp
  have n0: "(of_nat n :: u32) \<noteq> 0" using unat_small [of n] fv by auto
  let ?f' = "if jam then (f + n - 1) mod n else f" and ?j = "if jam then (f + n - 1) mod n else (f + v) mod n"
  let ?s1 = "upd (f_valid mq) (of_nat (Suc v)) (upd (buf + 4 * of_nat ?j) m (upd (f_first mq) (of_nat ?f') s))"
  have j: "?j < n" "?f' < n" "Suc v \<le> n" using fv v by simp_all
  note st = store_ring [OF core M j, where m = m]
  note ne = field_not_ring [OF core M j(1)]
  have rem: "s32_rem (of_nat f + of_nat n - 1) (of_nat n) = of_nat ((f + n - 1) mod n)"
    "s32_rem (of_nat f + of_nat v) (of_nat n) = of_nat ((f + v) mod n)"
    using s32_rem_nat [of "f + n - 1" n] s32_rem_nat [of "f + v" n] fv by (simp_all add: of_nat_diff)
  have sv: "of_nat v + 1 = (of_nat (Suc v) :: u32)" by simp
  have eq: "send_store mq m jam s = (Done 1, wake_first (f_recv mq) ?s1)"
  proof (cases jam)
    case True
    with fv n0 rem ne show ?thesis by (simp add: send_store_def Let_def sv del: of_nat_Suc)
  next
    case False
    with fv n0 rem ne show ?thesis by (simp add: send_store_def Let_def sv upd_same del: of_nat_Suc)
  qed
  have "contents ?s1 mq = (if jam then m # contents s mq else contents s mq @ [m])"
    unfolding st(4) fv(9)
    using ring_push [OF v, of "\<lambda>j. mem s (buf + 4 * of_nat j)" f m] ring_jam [OF v, of "\<lambda>j. mem s (buf + 4 * of_nat j)" f m]
    by (cases jam) simp_all
  with that [OF eq st(1) _ st(2) st(3)] show thesis by simp
qed

section \<open>Receiving\<close>

lemma core_guest_write:
  assumes core: "core T M s qs" and p: "p \<notin> protected T M"
  shows "core T M (upd p v s) qs" "mq \<in> dom M \<Longrightarrow> contents (upd p v s) mq = contents s mq"
    "\<forall>t \<in> T. priority (upd p v s) t = priority s t"
proof -
  have k: "\<forall>a \<in> kcells T (queues M). mem (upd p v s) a = mem s a" using p by (auto simp: protected_def)
  have q: "contents (upd p v s) mq' = contents s mq'" "mq_ok (upd p v s) mq' buf n" if M: "M mq' = Some (buf, n)" for mq' buf n
  proof -
    have "mqfields mq' \<union> ring buf n \<subseteq> protected T M"
      using M by (force simp: protected_def ran_def)
    with p have "\<forall>x \<in> mqfields mq' \<union> ring buf n. mem (upd p v s) x = mem s x" by auto
    from contents_cong [OF coreD(3) [OF core M] sys_layoutD(4,5) [OF coreD(1) [OF core] M] this]
    show "contents (upd p v s) mq' = contents s mq'" "mq_ok (upd p v s) mq' buf n" .
  qed
  have "kernel_inv T (queues M) (upd p v s) qs" by (rule kernel_outside [OF coreD(2) [OF core] _ k]) simp
  moreover have "waits_ok T M (upd p v s) qs" using coreD(4) [OF core] by (simp add: waits_ok_def)
  ultimately show "core T M (upd p v s) qs" using core q(2) back_outside [OF core k] by (simp add: core_def)
  show "mq \<in> dom M \<Longrightarrow> contents (upd p v s) mq = contents s mq" using q(1) by auto
  show "\<forall>t \<in> T. priority (upd p v s) t = priority s t"
    using k tcells_kcells tcells_self(2) by (metis priority_def)
qed

lemma recv_indices:
  assumes core: "core T M s qs" and M: "M mq = Some (buf, n)" and c: "contents s mq = m # ms"
  obtains s1 where "s1 = upd (f_valid mq) (mem s (f_valid mq) - 1) (upd (f_first mq) (s32_rem (mem s (f_first mq) + 1) (mem s (f_count mq))) s)"
    "mem s (f_count mq) \<noteq> 0" "mem s (mem s (f_msg mq) + 4 * mem s (f_first mq)) = m" "core T M s1 qs" "contents s1 mq = ms"
    "\<And>mq'. mq' \<noteq> mq \<Longrightarrow> mq' \<in> dom M \<Longrightarrow> contents s1 mq' = contents s mq'" "\<forall>t \<in> T. priority s1 t = priority s t"
proof -
  obtain f v where fv: "mem s (f_first mq) = of_nat f" "mem s (f_valid mq) = of_nat v" "mem s (f_count mq) = of_nat n"
    "mem s (f_msg mq) = buf" "f < n" "v \<le> n" "0 < n" "n \<le> 0x10000"
    "contents s mq = map (\<lambda>i. mem s (buf + 4 * of_nat ((f + i) mod n))) [0..<v]" using mq_fields [OF core M] .
  have v: "0 < v" using c fv(9) by (cases v) auto
  have n0: "(of_nat n :: u32) \<noteq> 0" using unat_small [of n] fv by auto
  let ?g = "\<lambda>j. mem s (buf + 4 * of_nat j)" and ?f' = "(f + 1) mod n"
  have "?g f # map (\<lambda>i. ?g ((?f' + i) mod n)) [0..<v - 1] = m # ms"
    using ring_pop [OF v fv(5), of ?g] c fv(9) by simp
  then have m: "?g f = m" "map (\<lambda>i. ?g ((?f' + i) mod n)) [0..<v - 1] = ms" by simp_all
  have j: "f < n" "?f' < n" "v - 1 \<le> n" using fv by simp_all
  note st = store_ring [OF core M j, where m = m]
  let ?s0 = "upd (f_first mq) (of_nat ?f') s"
  have "mem ?s0 (buf + 4 * of_nat f) = m" using field_not_ring [OF core M j(1), of "f_first mq"] m(1) by auto
  then have same: "upd (buf + 4 * of_nat f) m ?s0 = ?s0" by (rule upd_same)
  note st = st [unfolded same]
  have rem: "s32_rem (of_nat f + 1) (of_nat n) = of_nat ?f'"
    using s32_rem_nat [of "f + 1" n] fv by (simp add: add.commute)
  have vm: "(of_nat v :: u32) - 1 = of_nat (v - 1)" using v by (simp add: of_nat_diff)
  have g: "?g(f := m) = ?g" using m(1) by auto
  show thesis
  proof (rule that [OF _ _ _ st(1) _ st(2) st(3)])
    show "upd (f_valid mq) (of_nat (v - 1)) ?s0 = upd (f_valid mq) (mem s (f_valid mq) - 1)
        (upd (f_first mq) (s32_rem (mem s (f_first mq) + 1) (mem s (f_count mq))) s)"
      by (simp only: fv(1-3) rem vm)
    show "mem s (f_count mq) \<noteq> 0" "mem s (mem s (f_msg mq) + 4 * mem s (f_first mq)) = m" using fv n0 m(1) by simp_all
    show "contents (upd (f_valid mq) (of_nat (v - 1)) ?s0) mq = ms" unfolding st(4) g by (rule m(2))
  qed
qed

lemma recv_take_core:
  assumes core: "core T M s qs" and M: "M mq = Some (buf, n)" and c: "contents s mq = m # ms" and p: "safe_ptr T M p"
  obtains s1 where "recv_take mq p s = (Done 1, wake_first (f_send mq) s1)" "core T M s1 qs" "contents s1 mq = ms"
    "\<And>mq'. mq' \<noteq> mq \<Longrightarrow> mq' \<in> dom M \<Longrightarrow> contents s1 mq' = contents s mq'"
    "\<forall>t \<in> T. priority s1 t = priority s t" "thread_self s1 = thread_self s" "p \<noteq> 0 \<Longrightarrow> mem s1 p = m"
    "external_messages s1 = external_messages s"
proof -
  have dm: "mq \<in> dom M" using M by blast
  define s0 where "s0 = (if p \<noteq> 0 then upd p m s else s)"
  have pp: "p \<notin> protected T M" if "p \<noteq> 0" using p that by (simp add: safe_ptr_def)
  have s0: "core T M s0 qs" "\<And>mq. mq \<in> dom M \<Longrightarrow> contents s0 mq = contents s mq" "\<forall>t \<in> T. priority s0 t = priority s t"
    "thread_self s0 = thread_self s" "external_messages s0 = external_messages s"
    using core core_guest_write [OF core pp] by (auto simp: s0_def)
  have "contents s0 mq = m # ms" using s0(2) [OF dm] c by simp
  from recv_indices [OF s0(1) M this] obtain s1 where s1:
    "s1 = upd (f_valid mq) (mem s0 (f_valid mq) - 1) (upd (f_first mq) (s32_rem (mem s0 (f_first mq) + 1) (mem s0 (f_count mq))) s0)"
    "mem s0 (f_count mq) \<noteq> 0" "core T M s1 qs" "contents s1 mq = ms"
    "\<And>mq'. mq' \<noteq> mq \<Longrightarrow> mq' \<in> dom M \<Longrightarrow> contents s1 mq' = contents s0 mq'" "\<forall>t \<in> T. priority s1 t = priority s0 t" by metis
  have "mem s (mem s (f_msg mq) + 4 * mem s (f_first mq)) = m" using recv_indices [OF core M c] by metis
  then have "(if p \<noteq> 0 then upd p (mem s (mem s (f_msg mq) + 4 * mem s (f_first mq))) s else s) = s0"
    by (simp add: s0_def)
  then have eq: "recv_take mq p s = (Done 1, wake_first (f_send mq) s1)"
    using s1(2) unfolding recv_take_def by (simp add: Let_def s1(1))
  have "f_valid mq \<in> protected T M" "f_first mq \<in> protected T M"
    using dm mqfields_memb unfolding protected_def by blast+
  then have "mem s1 p = m" if "p \<noteq> 0" using pp [OF that] that by (auto simp: s1(1) s0_def)
  with that eq s1(3,4,5,6) s0 show thesis by (auto simp: s1(1))
qed

end
