(* ===== verification/KernelSteps.thy ===== *)
theory KernelSteps
  imports MesgProps
begin

text \<open>
  Every system call keeps the kernel invariant, so every reachable state has it. The guest may
  call the kernel in any order with queues and threads of the layout, write its own memory, and
  host threads may post at any moment; the calls can only fail with \<^verbatim>\<open>No runnable threads remain!\<close>.
\<close>

section \<open>Results of system calls\<close>

definition good :: "u32 set \<Rightarrow> mqs \<Rightarrow> outcome \<times> os \<Rightarrow> bool" where
  "good T M x \<longleftrightarrow> (case x of (Raised e, _) \<Rightarrow> e = NoRunnable | (_, s) \<Rightarrow> kernel_ok T M s)"

lemma kernel_okI: "core T M s qs \<Longrightarrow> unqueued (queues M) qs (thread_self s) \<Longrightarrow> kernel_ok T M s"
  by (auto simp: kernel_ok_def)

lemma good_Done [simp]: "good T M (Done r, s) \<longleftrightarrow> kernel_ok T M s" "good T M (Parked, s) \<longleftrightarrow> kernel_ok T M s"
  "good T M (Waiting, s) \<longleftrightarrow> kernel_ok T M s" "good T M (Terminated, s) \<longleftrightarrow> kernel_ok T M s"
  "good T M (Raised e, s) \<longleftrightarrow> e = NoRunnable"
  by (simp_all add: good_def)

lemma running_sorted:
  assumes "core T M s qs" "qs running_queue = t # ts" "u \<in> set (qs running_queue)"
  shows "priority s u \<le> priority s t"
  using kernel_invD(2) [OF coreD(2) [OF assms(1)], of running_queue] assms(2,3) by (auto simp: qok_def)

lemma check_good:
  assumes "kernel_ok T M s" "safe_wait T M w" shows "good T M (check_running_queue r w s)"
proof -
  obtain qs where qs: "core T M s qs" "unqueued (queues M) qs (thread_self s)" using assms(1) by (auto simp: kernel_ok_def)
  note ck = core_check [OF qs assms(2), where r = r]
  show ?thesis
  proof (cases "\<forall>u \<in> set (qs running_queue). priority s u \<le> priority s (thread_self s)")
    case True
    then show ?thesis using ck(1) assms(1) by simp
  next
    case False
    then obtain t ts where r: "qs running_queue = t # ts" by (cases "qs running_queue") auto
    with False have "priority s t > priority s (thread_self s)"
      using running_sorted [OF qs(1) r] by force
    from ck(2) [OF r this] show ?thesis by (auto intro: kernel_okI)
  qed
qed

lemma finish_good: assumes "good T M x" shows "good T M (finish x)"
proof -
  obtain r s where x: "x = (r, s)" by (cases x)
  show ?thesis
  proof (cases r)
    case (Done b)
    with assms show ?thesis unfolding x finish_def Done by (simp add: Let_def) (auto intro!: check_good)
  qed (use assms in \<open>simp_all add: x finish_def\<close>)
qed

lemma wake_ok:
  assumes "core T M s qs" "unqueued (queues M) qs (thread_self s)" "q \<in> queues M"
  shows "kernel_ok T M (wake_first q s)"
  using core_wake [OF assms(1,3,2)] by (auto intro: kernel_okI)

text \<open>Blocking: the running thread enters a queue of waiting threads and the next one runs.\<close>

lemma block_good:
  assumes core: "core T M s qs" and self: "unqueued (queues M) qs (thread_self s)" and q: "q \<in> queues M"
    and w: "safe_wait T M w" "good_wait M q w"
  shows "good T M (run_next_thread_and_wait w (thread_queue_insert q (thread_self s) s))"
proof -
  have q': "q \<in> insert running_queue (queues M)" using q by simp
  note ins = core_insert [OF core q' coreD(5) [OF core] self disjI1 [OF refl]]
  let ?s = "thread_queue_insert q (thread_self s) s"
  let ?qs = "qs(q := pri_insert (priority s) (thread_self s) (qs q))"
  have ts: "thread_self ?s = thread_self s" using ins(2) by (simp add: same_rest_def)
  have qr: "q \<noteq> running_queue" using layout_running [OF kernel_invD(1) [OF coreD(2) [OF core]] q] .
  have a: "thread_self ?s \<notin> set (?qs running_queue)" using self qr ts by (simp add: unqueued_def)
  have b: "\<forall>r \<in> insert running_queue (queues M). thread_self ?s \<in> set (?qs r) \<longrightarrow> good_wait M r w"
    using self ts w(2) by (auto simp: unqueued_def)
  note rn = core_run_next [OF ins(1) a w(1) b]
  show ?thesis
  proof (cases "?qs running_queue")
    case Nil
    then show ?thesis using rn(1) by simp
  next
    case (Cons t ts)
    from rn(2) [OF this] show ?thesis by (auto intro: kernel_okI)
  qed
qed

section \<open>Message calls\<close>

lemma send_loop_good:
  assumes ok: "kernel_ok T M s" and mq: "mq \<in> dom M" shows "good T M (send_loop mq m jam s)"
proof -
  obtain qs where qs: "core T M s qs" "unqueued (queues M) qs (thread_self s)" using ok by (auto simp: kernel_ok_def)
  obtain buf n where M: "M mq = Some (buf, n)" using mq by auto
  show ?thesis
  proof (cases "MQ_IS_FULL mq s")
    case True
    then show ?thesis unfolding send_loop_def
      using block_good [OF qs queues_memb(2) [OF mq], of "WSend mq m jam"] mq by (auto simp: good_wait_def)
  next
    case False
    then have "length (contents s mq) < n" using length_contents(1,2) [OF qs(1) M] by simp
    from send_store_core [OF qs(1) M this, of m jam] obtain s1
      where s1: "send_store mq m jam s = (Done 1, wake_first (f_recv mq) s1)" "core T M s1 qs" "thread_self s1 = thread_self s" by metis
    with False wake_ok [OF s1(2)] qs(2) mq show ?thesis by (simp add: send_loop_def)
  qed
qed

lemma do_send_good:
  assumes "kernel_ok T M s" "mq \<in> dom M" shows "good T M (do_send mq m jam block s)"
  using send_loop_good [OF assms, of m jam] assms(1) by (auto simp: do_send_def send_loop_def)

text \<open>A non-blocking send returns on any queue.\<close>

lemma send_store_result: "fst (send_store mq m jam s) \<in> {Done 1, Raised DivideError}"
  by (simp add: send_store_def Let_def)

lemma do_send_nb: "fst (do_send mq m jam False s) \<in> {Done 0, Done 1}"
  using send_store_result [of mq m jam s] by (auto simp: do_send_def send_store_def mq_sane_def Let_def)

lemma recv_loop_good:
  assumes ok: "kernel_ok T M s" and mq: "mq \<in> dom M" and p: "safe_ptr T M p" shows "good T M (recv_loop mq p s)"
proof -
  obtain qs where qs: "core T M s qs" "unqueued (queues M) qs (thread_self s)" using ok by (auto simp: kernel_ok_def)
  obtain buf n where M: "M mq = Some (buf, n)" using mq by auto
  show ?thesis
  proof (cases "contents s mq")
    case Nil
    then have "MQ_IS_EMPTY mq s" using length_contents(3) [OF qs(1) M] by simp
    then show ?thesis unfolding recv_loop_def
      using block_good [OF qs queues_memb(1) [OF mq], of "WRecv mq p"] mq p by (auto simp: good_wait_def)
  next
    case (Cons m ms)
    from recv_take_core [OF qs(1) M Cons p] obtain s1
      where s1: "recv_take mq p s = (Done 1, wake_first (f_send mq) s1)" "core T M s1 qs" "thread_self s1 = thread_self s" by metis
    with Cons length_contents(3) [OF qs(1) M] wake_ok [OF s1(2)] qs(2) mq show ?thesis by (simp add: recv_loop_def)
  qed
qed

lemma do_recv_good:
  assumes "kernel_ok T M s" "mq \<in> dom M" "safe_ptr T M p" shows "good T M (do_recv mq p block s)"
  using recv_loop_good [OF assms] assms(1) by (auto simp: do_recv_def recv_loop_def)

section \<open>The external queue\<close>

text \<open>What is relied on of the concurrent queue: it neither loses nor makes up an element.\<close>

definition enqueue_law :: "enqueue \<Rightarrow> bool" where
  "enqueue_law enq \<longleftrightarrow> (\<forall>m q. mset (enq m q) = add_mset m (mset q))"

lemma enqueue_lawD: "enqueue_law enq \<Longrightarrow> mset (enq m q) = add_mset m (mset q)"
  by (simp add: enqueue_law_def)

lemma enqueue_law_set_length:
  assumes "enqueue_law enq" shows "set (enq m q) = insert m (set q)" "length (enq m q) = Suc (length q)"
  using enqueue_lawD [OF assms, of m q] by (metis set_mset_add_mset_insert set_mset_mset, metis size_add_mset size_mset)

lemma external_insert [simp]: "external_messages (thread_queue_insert q a s) = external_messages s"
  by (simp add: thread_queue_insert_def Let_def)

lemma external_pop [simp]: "external_messages (snd (thread_queue_pop q s)) = external_messages s"
  by (simp add: thread_queue_pop_def Let_def)

lemma external_schedule [simp]: "external_messages (schedule_running_thread a s) = external_messages s"
  by (simp add: schedule_running_thread_def)

lemma external_wake [simp]: "external_messages (wake_first q s) = external_messages s"
  using external_pop [of q s] by (cases "thread_queue_pop q s") (simp add: wake_first_def)

lemma external_store [simp]: "external_messages (snd (send_store mq m jam s)) = external_messages s"
  by (simp add: send_store_def Let_def)

lemma external_send [simp]: "external_messages (snd (do_send mq m jam False s)) = external_messages s"
  by (simp add: do_send_def)

text \<open>Changing what the external queue holds.\<close>

lemma core_external:
  assumes core: "core T M s qs" and "\<forall>m \<in> set ms. q_mq m \<in> dom M" "p = of_nat (length ms)"
  shows "core T M (s\<lparr>external_messages := ms, external_pending := p\<rparr>) qs" (is "core T M ?s qs")
proof -
  have "kernel_inv T (queues M) ?s qs" by (rule kernel_outside [OF coreD(2) [OF core]]) simp_all
  moreover have "back_ok T (queues M) ?s qs" by (rule back_outside [OF core]) simp
  ultimately show ?thesis using core assms(2,3) by (simp add: core_def mq_ok_def waits_ok_def)
qed

lemma external_ok:
  assumes "kernel_ok T M s" "\<forall>m \<in> set ms. q_mq m \<in> dom M" "p = of_nat (length ms)"
  shows "kernel_ok T M (s\<lparr>external_messages := ms, external_pending := p\<rparr>)"
proof -
  from assms(1) obtain qs where "core T M s qs" "unqueued (queues M) qs (thread_self s)" by (auto simp: kernel_ok_def)
  then show ?thesis by (intro kernel_okI [OF core_external [OF _ assms(2,3)]]) auto
qed

lemma requeues_ok: "kernel_ok T M s \<Longrightarrow> kernel_ok T M (s\<lparr>external_requeues := n\<rparr>)"
proof -
  have "core T M (s\<lparr>external_requeues := n\<rparr>) qs" if core: "core T M s qs" for qs
  proof -
    have "kernel_inv T (queues M) (s\<lparr>external_requeues := n\<rparr>) qs" by (rule kernel_outside [OF coreD(2) [OF core]]) simp_all
    moreover have "back_ok T (queues M) (s\<lparr>external_requeues := n\<rparr>) qs" by (rule back_outside [OF core]) simp
    ultimately show ?thesis using core by (simp add: core_def mq_ok_def waits_ok_def)
  qed
  then show "kernel_ok T M s \<Longrightarrow> kernel_ok T M (s\<lparr>external_requeues := n\<rparr>)" by (auto simp: kernel_ok_def)
qed

lemma kernel_ok_external:
  assumes "kernel_ok T M s"
  shows "external_pending s = of_nat (length (external_messages s))" "m \<in> set (external_messages s) \<Longrightarrow> q_mq m \<in> dom M"
  using assms coreD(7,8) unfolding kernel_ok_def by blast+

lemma take_ok:
  assumes "kernel_ok T M s" "external_messages s = m # ms"
  shows "kernel_ok T M (s\<lparr>external_messages := ms, external_pending := external_pending s - 1\<rparr>)" "q_mq m \<in> dom M"
proof -
  show "kernel_ok T M (s\<lparr>external_messages := ms, external_pending := external_pending s - 1\<rparr>)"
    using kernel_ok_external [OF assms(1)] assms(2) by (intro external_ok [OF assms(1)]) auto
  show "q_mq m \<in> dom M" using kernel_ok_external(2) [OF assms(1)] assms(2) by simp
qed

lemma deliver_one_ok:
  assumes "kernel_ok T M s" "external_messages s = m # ms" shows "kernel_ok T M (deliver_one m ms s)"
proof -
  let ?x = "do_send (q_mq m) (q_mesg m) (q_jam m) False (s\<lparr>external_messages := ms, external_pending := external_pending s - 1\<rparr>)"
  have "good T M ?x" by (rule do_send_good [OF take_ok [OF assms]])
  moreover have "fst ?x \<in> {Done 0, Done 1}" by (rule do_send_nb)
  ultimately show ?thesis unfolding deliver_one_def by (cases ?x) auto
qed

lemma drain_ok:
  assumes "enqueue_law enq" shows "kernel_ok T M s \<Longrightarrow> external_messages s = ms \<Longrightarrow> kernel_ok T M (drain enq ms s)"
proof (induction ms arbitrary: s)
  case (Cons m ms)
  let ?s = "s\<lparr>external_messages := ms, external_pending := external_pending s - 1\<rparr>"
  obtain r s1 where x: "do_send (q_mq m) (q_mesg m) (q_jam m) False ?s = (r, s1)" by fastforce
  have ok: "kernel_ok T M s1"
    using deliver_one_ok [OF Cons.prems] x by (simp add: deliver_one_def)
  have ext: "external_messages s1 = ms" using external_send [of "q_mq m" "q_mesg m" "q_jam m" ?s] x by simp
  have "kernel_ok T M (s1\<lparr>external_messages := enq m ms, external_pending := external_pending s1 + 1, external_requeues := n\<rparr>)" for n
    using requeues_ok [OF external_ok [OF ok, of "enq m ms" "external_pending s1 + 1"], of n]
      enqueue_law_set_length [OF assms, of m ms] kernel_ok_external [OF ok] ext take_ok(2) [OF Cons.prems] by simp
  then show ?case using Cons.IH [OF ok ext] x ext by (simp add: Let_def)
qed simp

lemma dequeue_ok: "enqueue_law enq \<Longrightarrow> kernel_ok T M s \<Longrightarrow> kernel_ok T M (dequeue_external_messages enq s)"
  unfolding dequeue_external_messages_def by (rule drain_ok) simp_all

lemma post_ok:
  assumes "enqueue_law enq" "kernel_ok T M s" "mq \<in> dom M"
  shows "kernel_ok T M (enqueue_external_tagged enq mq m jam coalescible s)"
  unfolding enqueue_external_tagged_def using kernel_ok_external [OF assms(2)] assms(3)
  by (intro external_ok [OF assms(2)]) (auto simp: enqueue_law_set_length [OF assms(1)])

lemma wait_ext_ok:
  assumes "kernel_ok T M s"
  shows "wait_for_external_message s = Some s' \<Longrightarrow> kernel_ok T M s'" "kernel_ok T M (wait_for_external_message_timed s)"
  using assms deliver_one_ok [OF assms]
  by (auto simp: wait_for_external_message_def wait_for_external_message_timed_def split: list.splits)

text \<open>The message calls of a running thread.\<close>

lemma message_calls_good:
  assumes "enqueue_law enq" "kernel_ok T M s" "mq \<in> dom M"
  shows "good T M (osSendMesg enq True mq m flags s)" "good T M (osJamMesg enq True mq m flags s)"
    "safe_ptr T M p \<Longrightarrow> good T M (osRecvMesg enq True mq p flags s)"
proof -
  note d = dequeue_ok [OF assms(1,2)]
  show "good T M (osSendMesg enq True mq m flags s)" "good T M (osJamMesg enq True mq m flags s)"
    unfolding osSendMesg_def osJamMesg_def by (simp_all add: finish_good do_send_good [OF d assms(3)])
  show "safe_ptr T M p \<Longrightarrow> good T M (osRecvMesg enq True mq p flags s)"
    unfolding osRecvMesg_def by (simp add: finish_good do_recv_good [OF d assms(3)])
qed

lemma self_insert [simp]: "thread_self (thread_queue_insert q a s) = thread_self s"
  by (simp add: thread_queue_insert_def Let_def)

lemma self_pop: "thread_queue_pop q s = (t, s') \<Longrightarrow> thread_self s' = thread_self s"
  by (auto simp: thread_queue_pop_def Let_def split: if_splits)

lemma self_wake [simp]: "thread_self (wake_first q s) = thread_self s"
  using self_pop [of q s] by (cases "thread_queue_pop q s") (simp add: wake_first_def schedule_running_thread_def)

lemma do_send_self: "thread_self (snd (do_send mq m jam False s)) = thread_self s"
  by (simp add: do_send_def send_store_def Let_def)

lemma check_Done: "check_running_queue r w s = (Done x, s') \<Longrightarrow> s' = s"
  by (auto simp: check_running_queue_def swap_to_thread_def resume_thread_and_wait_def Let_def split: if_splits)

section \<open>Thread calls\<close>

text \<open>A change of the host-side state that leaves memory and the running queue alone.\<close>

lemma core_host:
  assumes core: "core T M s qs" and "mem s' = mem s" "running_queue_impl s' = running_queue_impl s"
    "external_messages s' = external_messages s" "external_pending s' = external_pending s"
    and "waits_ok T M s' qs" "thread_self s' \<in> T" "ctx s' (thread_self s') \<noteq> 0"
  shows "core T M s' qs"
proof -
  have "kernel_inv T (queues M) s' qs" using assms by (intro kernel_outside [OF coreD(2) [OF core]]) simp_all
  moreover have "back_ok T (queues M) s' qs" using assms by (intro back_outside [OF core]) simp
  ultimately show ?thesis using assms by (simp add: core_def mq_ok_def)
qed

lemma set_parked_ok:
  assumes ok: "kernel_ok T M s" and w: "x = None \<or> (\<exists>w. x = Some (ctx s (thread_self s), w) \<and> safe_wait T M w)"
  shows "kernel_ok T M (s\<lparr>parked := (parked s)(thread_self s := x)\<rparr>)"
proof -
  obtain qs where qs: "core T M s qs" "unqueued (queues M) qs (thread_self s)" using ok by (auto simp: kernel_ok_def)
  have "core T M (s\<lparr>parked := (parked s)(thread_self s := x)\<rparr>) qs"
  proof (rule core_host [OF qs(1)])
    show "waits_ok T M (s\<lparr>parked := (parked s)(thread_self s := x)\<rparr>) qs"
      using coreD(4) [OF qs(1)] w unfolding waits_ok_def by auto
  qed (use coreD(5,6) [OF qs(1)] in simp_all)
  then show ?thesis using qs(2) by (auto intro: kernel_okI)
qed

lemma state_ok: "kernel_ok T M s \<Longrightarrow> v \<noteq> STOPPED \<Longrightarrow> kernel_ok T M (upd (f_state (thread_self s)) v s)"
  unfolding kernel_ok_def using core_upd_state(1) coreD(5) by (metis upd_simps(3))

lemma pause_good: assumes "kernel_ok T M s" shows "good T M (pause_self s)"
proof (cases "wait_for_external_message s")
  case None
  then show ?thesis using set_parked_ok [OF assms, of "Some (ctx s (thread_self s), WPause)"] by (simp add: pause_self_def Let_def)
next
  case (Some s1)
  have ok: "kernel_ok T M s1" using wait_ext_ok(1) [OF assms Some] .
  have keep: "thread_self (snd (do_send mq m jam False u)) = thread_self u" for mq m jam u
    by (rule do_send_self)
  then have self: "thread_self s1 = thread_self s" using Some
    by (auto simp: wait_for_external_message_def deliver_one_def split: list.splits)
  obtain r s2 where c: "check_running_queue 0 WPause s1 = (r, s2)" by fastforce
  have g: "good T M (r, s2)" using check_good [OF ok, of WPause 0] c by simp
  show ?thesis
  proof (cases r)
    case (Done x)
    have "s2 = s1" using check_Done [OF c [unfolded Done]] .
    then show ?thesis
      using Done Some c self set_parked_ok [OF ok, of "Some (ctx s1 (thread_self s1), WPause)"] by (simp add: pause_self_def Let_def)
  qed (use Some c g in \<open>simp_all add: pause_self_def Let_def\<close>)
qed

lemma resume_good:
  assumes ok: "kernel_ok T M s" and p: "parked s (thread_self s) = Some (c, w)"
  shows "good T M (resume s)" "fst (wait_for_resumed s) = Some w"
proof -
  let ?s = "upd (f_state (thread_self s)) RUNNING (s\<lparr>parked := (parked s)(thread_self s := None)\<rparr>)"
  obtain qs where "core T M s qs" using ok by (auto simp: kernel_ok_def)
  then have c: "c = ctx s (thread_self s)" "safe_wait T M w"
    using coreD(4,5) p unfolding waits_ok_def by blast+
  then have eq: "wait_for_resumed s = (Some w, ?s)" using p by (simp add: wait_for_resumed_def Let_def)
  then show "fst (wait_for_resumed s) = Some w" by simp
  have ok1: "kernel_ok T M ?s"
    using state_ok [OF set_parked_ok [OF ok, of None] not_stopped(3)] by simp
  show "good T M (resume s)"
  proof (cases w)
    case (WSend mq m jam)
    then show ?thesis using c(2) eq finish_good [OF send_loop_good [OF ok1]] by (simp add: resume_def)
  next
    case (WRecv mq p)
    then show ?thesis using c(2) eq finish_good [OF recv_loop_good [OF ok1]] by (simp add: resume_def)
  next
    case WPause
    then show ?thesis using eq pause_good [OF ok1] by (simp add: resume_def)
  qed (use eq ok1 in \<open>simp_all add: resume_def\<close>)
qed

lemma yield_good: assumes ok: "kernel_ok T M s" shows "good T M (yield_to_any_queued s)"
proof -
  obtain qs where qs: "core T M s qs" "unqueued (queues M) qs (thread_self s)" using ok by (auto simp: kernel_ok_def)
  have em: "thread_queue_empty running_queue s \<longleftrightarrow> qs running_queue = []" using queue_empty_iff [OF qs(1)] by simp
  show ?thesis
  proof (cases "qs running_queue")
    case Nil
    then show ?thesis using em ok by (simp add: yield_to_any_queued_def)
  next
    case (Cons t ts)
    have "thread_queue_pop running_queue s = (t, snd (thread_queue_pop running_queue s))"
      using core_pop [OF qs(1) _ Cons] by (metis insertI1 snd_conv)
    then have "yield_to_any_queued s = swap_to_thread (WReturn 0) t (snd (thread_queue_pop running_queue s))"
      using em Cons unfolding yield_to_any_queued_def swap_to_thread_def by (metis (no_types, lifting) case_prod_conv list.simps(3))
    with core_swap [OF qs(1) Cons qs(2), of "WReturn 0"] show ?thesis by (auto intro: kernel_okI)
  qed
qed

lemma flags_ok: "kernel_ok T M s \<Longrightarrow> kernel_ok T M (s\<lparr>should_yield := y\<rparr>)" "kernel_ok T M s \<Longrightarrow> kernel_ok T M (s\<lparr>preempt_skip_budget := b\<rparr>)"
proof -
  have "core T M (s\<lparr>should_yield := y\<rparr>) qs \<and> core T M (s\<lparr>preempt_skip_budget := b\<rparr>) qs" if "core T M s qs" for qs
    using coreD(4-6) [OF that] by (auto intro!: core_host [OF that] simp: waits_ok_def)
  then show "kernel_ok T M s \<Longrightarrow> kernel_ok T M (s\<lparr>should_yield := y\<rparr>)" "kernel_ok T M s \<Longrightarrow> kernel_ok T M (s\<lparr>preempt_skip_budget := b\<rparr>)"
    by (auto simp: kernel_ok_def)
qed

lemma tick_good: assumes "kernel_ok T M s" shows "good T M (scheduler_tick_impl game s)"
proof -
  note w = wait_ext_ok(2) [OF assms] wait_ext_ok(2) [OF flags_ok(1) [OF assms, of False]]
  show ?thesis
    using assms check_good [OF w(1), of "WReturn 0"] w(2) yield_good [OF w(2)] flags_ok(2) [OF w(2)] yield_good [OF flags_ok(2) [OF w(2)]]
    by (simp add: scheduler_tick_impl_def recomp_rsp_consume_preempt_skip_budget_def Let_def)
qed

lemma yields_good:
  assumes "kernel_ok T M s" shows "good T M (yield_self_1ms s)" "yield_self s = Some x \<Longrightarrow> good T M x"
  using check_good [OF wait_ext_ok(2) [OF assms], of "WReturn 0"] check_good [OF wait_ext_ok(1) [OF assms], of _ "WReturn 0"]
  by (auto simp: yield_self_1ms_def yield_self_def)

text \<open>Giving up the processor without entering a queue, as \<^verbatim>\<open>osStopThread\<close> does.\<close>

lemma stop_good: assumes ok: "kernel_ok T M s" shows "good T M (osStopThread 0 s)"
proof -
  obtain qs where qs: "core T M s qs" "unqueued (queues M) qs (thread_self s)" using ok by (auto simp: kernel_ok_def)
  have a: "thread_self s \<notin> set (qs running_queue)"
    and b: "\<forall>q \<in> insert running_queue (queues M). thread_self s \<in> set (qs q) \<longrightarrow> good_wait M q (WReturn 0)"
    using qs(2) by (auto simp: unqueued_def)
  note rn = core_run_next [OF qs(1) a _ b]
  show ?thesis
  proof (cases "qs running_queue")
    case Nil
    then show ?thesis using rn(1) by (simp add: osStopThread_def)
  next
    case (Cons t ts)
    from rn(2) [OF _ this] show ?thesis by (auto simp: osStopThread_def intro: kernel_okI)
  qed
qed

lemma start_good:
  assumes ok: "kernel_ok T M s" and t: "t \<in> T" "t \<noteq> thread_self s" "mem s (f_queue t) = 0" "ctx s t \<noteq> 0" "parked s t = Some (ctx s t, w)"
  shows "good T M (osStartThread t s)"
proof -
  obtain qs where qs: "core T M s qs" "unqueued (queues M) qs (thread_self s)" using ok by (auto simp: kernel_ok_def)
  have "q \<noteq> 0" if "q \<in> insert running_queue (queues M)" for q
    using kernel_invD(1) [OF coreD(2) [OF qs(1)]] that by (auto simp: layout_def running_queue_def dest: valid_nonzero)
  then have un: "unqueued (queues M) qs t"
    using back_okD(1) [OF coreD(9) [OF qs(1)], of _ t] t(3) unfolding unqueued_def by metis
  note sch = core_schedule [OF qs(1) t(1) un]
  have "kernel_ok T M (schedule_running_thread t s)"
  proof (rule kernel_okI [OF sch(1)])
    show "unqueued (queues M) (qs(running_queue := pri_insert (priority s) t (qs running_queue))) (thread_self (schedule_running_thread t s))"
      using sch(2) t by (intro unqueued_upd [of _ _ _ _ t]) (auto simp: same_rest_def qs(2))
  qed (use t in auto)
  moreover have "thread_self s \<noteq> 0"
    using coreD(5) [OF qs(1)] kernel_invD(1) [OF coreD(2) [OF qs(1)]] by (auto simp: layout_def dest: valid_nonzero)
  ultimately show ?thesis using check_good [of T M "schedule_running_thread t s" "WReturn 0" 0] by (simp add: osStartThread_def)
qed

lemma core_upd_unqueued:
  assumes core: "core T M s qs" and t: "t \<in> T" "unqueued (queues M) qs t" and x: "x \<in> tcells t" "x = f_queue t \<Longrightarrow> v = 0"
  shows "core T M (upd x v s) qs"
proof -
  note lay = kernel_invD(1) [OF coreD(2) [OF core]]
  have rest: "same_rest T (queues M) s (upd x v s)" by (intro same_rest_upd same_rest_refl tcells_kcells [OF t(1) x(1)])
  have keep: "f_queue u \<noteq> x" "f_state u \<noteq> x" if "u \<in> T" "u \<noteq> t" for u
    using layout_disjoint [OF lay that(1) t(1) that(2) _ x(1)] tcells_self by blast+
  have nt: "u \<noteq> t" "u \<in> T" if "q \<in> insert running_queue (queues M)" "u \<in> set (qs q)" for q u
    using t(2) that queued_in [OF coreD(2) [OF core] that] by (auto simp: unqueued_def)
  have "back_ok T (queues M) (upd x v s) qs"
    unfolding back_ok_def
  proof (intro conjI ballI impI)
    fix q u assume u: "q \<in> insert running_queue (queues M)" "u \<in> set (qs q)"
    show "mem (upd x v s) (f_queue u) = q" "mem (upd x v s) (f_state u) \<noteq> STOPPED"
      using keep [OF nt(2,1) [OF u]] back_okD(1,2) [OF coreD(9) [OF core] u] by simp_all
  next
    fix u assume u: "u \<in> T" "unqueued (queues M) qs u"
    show "mem (upd x v s) (f_queue u) = 0"
      using keep(1) [OF u(1)] x(2) back_okD(3) [OF coreD(9) [OF core] u] by (cases "u = t") auto
  qed
  moreover have "waits_ok T M (upd x v s) qs" using coreD(4) [OF core] by (simp add: waits_ok_def)
  ultimately show ?thesis
    using kernel_upd_unqueued [OF coreD(2) [OF core] t x(1)] by (intro core_rest [OF core rest]) auto
qed

lemma create_ok:
  assumes ok: "kernel_ok T M s" and t: "t \<in> T" "t \<noteq> thread_self s" "parked s t = None" and c: "c \<noteq> 0"
  shows "kernel_ok T M (osCreateThread t tid sp pri c s)"
proof -
  obtain qs where qs: "core T M s qs" "unqueued (queues M) qs (thread_self s)" using ok by (auto simp: kernel_ok_def)
  have un: "unqueued (queues M) qs t"
    using waits_okD(2) [OF coreD(4) [OF qs(1)], of _ t] t(2,3) unfolding unqueued_def by (metis option.distinct(1))
  let ?s = "upd (f_sp t) (sp - 0x10) (upd (f_state t) STOPPED (upd (f_id t) tid (upd (f_priority t) pri (upd (f_queue t) 0 (upd (f_next t) 0 s)))))"
  have 1: "core T M ?s qs"
    using qs(1) by (intro core_upd_unqueued [OF _ t(1) un]) (auto simp: tcells_self)
  have "core T M (?s\<lparr>ctx := (ctx ?s)(t := c), parked := (parked ?s)(t \<mapsto> (c, WEntry))\<rparr>) qs" (is "core T M ?s' qs")
  proof (rule core_host [OF 1])
    show "waits_ok T M ?s' qs"
      unfolding waits_ok_def
    proof (intro conjI ballI allI impI)
      fix q u assume u: "q \<in> insert running_queue (queues M)" "u \<in> set (qs q)" "u \<noteq> thread_self ?s'"
      then have "u \<noteq> t" using un by (auto simp: unqueued_def)
      then show "ctx ?s' u \<noteq> 0" "\<exists>w. parked ?s' u = Some (ctx ?s' u, w) \<and> good_wait M q w"
        using waits_okD [OF coreD(4) [OF qs(1)] u(1,2)] u(3) by auto
    next
      fix u d w assume "u \<in> T" "parked ?s' u = Some (d, w)"
      then show "d = ctx ?s' u" "safe_wait T M w"
        using coreD(4) [OF qs(1)] unfolding waits_ok_def by (auto split: if_splits)
    qed
  qed (use coreD(5,6) [OF qs(1)] t c in auto)
  then show ?thesis using qs(2) by (intro kernel_okI [of _ _ _ qs]) (simp_all add: osCreateThread_def Let_def)
qed

lemma set_own_pri_good: assumes ok: "kernel_ok T M s" shows "good T M (osSetThreadPri 0 pri s)"
proof -
  obtain qs where qs: "core T M s qs" "unqueued (queues M) qs (thread_self s)" using ok by (auto simp: kernel_ok_def)
  have "core T M (upd (f_priority (thread_self s)) pri s) qs"
    by (rule core_upd_unqueued [OF qs(1) coreD(5) [OF qs(1)] qs(2)]) (auto simp: tcells_self)
  then have "kernel_ok T M (upd (f_priority (thread_self s)) pri s)" using qs(2) by (auto intro: kernel_okI)
  with ok check_good [OF this, of "WReturn 0" 0] show ?thesis by (simp add: osSetThreadPri_def Let_def)
qed

text \<open>The end of a thread: its context is gone and the next thread runs.\<close>

lemma pop_ctx: "thread_queue_pop q (s\<lparr>ctx := c\<rparr>) = (let (t, s') = thread_queue_pop q s in (t, s'\<lparr>ctx := c\<rparr>))"
  by (cases "queue_to_ptr q") (simp_all add: thread_queue_pop_def Let_def upd_def)

lemma exit_good:
  assumes ok: "kernel_ok T M s" and p: "parked s (thread_self s) = None"
  shows "good T M (run_game_thread_end (ctx s (thread_self s)) s)"
proof -
  obtain qs where qs: "core T M s qs" "unqueued (queues M) qs (thread_self s)" using ok by (auto simp: kernel_ok_def)
  let ?c = "(ctx s)(thread_self s := 0)"
  have em: "thread_queue_empty running_queue (s\<lparr>ctx := ?c\<rparr>) \<longleftrightarrow> qs running_queue = []"
    using queue_empty_iff [OF qs(1), of running_queue] by (simp add: thread_queue_empty_def queue_to_ptr_def)
  show ?thesis
  proof (cases "qs running_queue")
    case Nil
    then show ?thesis using em by (simp add: run_game_thread_end_def run_next_thread_def)
  next
    case (Cons t ts)
    have "thread_self s \<notin> set (qs running_queue)" using qs(2) by (simp add: unqueued_def)
    from pop_running [OF qs(1) Cons this] obtain s1 where s1: "thread_queue_pop running_queue s = (t, s1)"
      "core T M s1 (qs(running_queue := ts))" "same_rest T (queues M) s s1" "t \<in> T"
      "unqueued (queues M) (qs(running_queue := ts)) t" "ctx s1 t \<noteq> 0" "t \<noteq> thread_self s" by metis
    have rest: "ctx s1 = ctx s" "parked s1 = parked s" "thread_self s1 = thread_self s" using s1(3) by (simp_all add: same_rest_def)
    let ?s' = "s1\<lparr>ctx := ?c, thread_self := t\<rparr>"
    have un: "unqueued (queues M) (qs(running_queue := ts)) (thread_self s)" by (rule unqueued_shrink [OF qs(2) Cons])
    have "core T M ?s' (qs(running_queue := ts))"
    proof (rule core_host [OF s1(2)])
      show "waits_ok T M ?s' (qs(running_queue := ts))"
        unfolding waits_ok_def
      proof (intro conjI ballI allI impI)
        fix q u assume u: "q \<in> insert running_queue (queues M)" "u \<in> set ((qs(running_queue := ts)) q)" "u \<noteq> thread_self ?s'"
        then have "u \<noteq> thread_self s" using un unfolding unqueued_def by metis
        then show "ctx ?s' u \<noteq> 0" "\<exists>w. parked ?s' u = Some (ctx ?s' u, w) \<and> good_wait M q w"
          using waits_okD [OF coreD(4) [OF s1(2)] u(1,2)] rest by auto
      next
        fix u d w assume u: "u \<in> T" "parked ?s' u = Some (d, w)"
        then have "u \<noteq> thread_self s" using p rest(2) by auto
        then show "d = ctx ?s' u" "safe_wait T M w"
          using u coreD(4) [OF s1(2)] rest unfolding waits_ok_def by auto
      qed
    qed (use s1 rest in auto)
    then have "kernel_ok T M ?s'" using s1(5) by (auto intro: kernel_okI)
    moreover have "run_game_thread_end (ctx s (thread_self s)) s = (Parked, ?s')"
      using em Cons s1(1,6,7) rest by (simp add: run_game_thread_end_def run_next_thread_def pop_ctx Let_def)
    ultimately show ?thesis by simp
  qed
qed

lemma core_remove:
  assumes core: "core T M s qs" and q: "q \<in> insert running_queue (queues M)" and t: "t \<in> set (qs q)"
  obtains s' where "thread_queue_remove q t s = (True, s')" "core T M s' (qs(q := remove1 t (qs q)))" "same_rest T (queues M) s s'"
    "\<forall>u \<in> T. priority s' u = priority s u"
proof -
  note inv = coreD(2) [OF core]
  obtain s' where s': "thread_queue_remove q t s = (t \<in> set (qs q), s')" "kernel_inv T (queues M) s' (qs(q := remove1 t (qs q)))"
    "\<forall>u \<in> T. priority s' u = priority s u"
    "s' = unlink (last_link (queue_to_ptr q) (takeWhile (\<lambda>u. u \<noteq> t) (qs q))) t s"
    using kernel_remove [OF inv q, of t] t by metis
  obtain B where B: "qs q = takeWhile (\<lambda>u. u \<noteq> t) (qs q) @ t # B" "remove1 t (qs q) = takeWhile (\<lambda>u. u \<noteq> t) (qs q) @ B"
    using remove1_split [OF t] by blast
  have own: "own_link q (qs q) (last_link (queue_to_ptr q) (takeWhile (\<lambda>u. u \<noteq> t) (qs q)))"
    by (rule own_link_last) (auto dest: set_takeWhileD)
  have T: "set (qs q) \<subseteq> T" using kernel_invD(2) [OF inv q] by (simp add: qok_def)
  have rest: "same_rest T (queues M) s s'" unfolding s'(4) using T t by (intro unlink_rest [OF own T q]) auto
  have "back_ok T (queues M) s' (qs(q := remove1 t (qs q)))"
    using unlink_back [OF inv q B(1) coreD(9) [OF core]] B(2) s'(4) by simp
  then have "core T M s' (qs(q := remove1 t (qs q)))"
    using notin_set_remove1 by (intro core_rest [OF core rest s'(2)] waits_ok_rest [OF coreD(4) [OF core] rest]) auto
  with that s'(1,3) t rest show thesis by simp
qed

lemma destroy_good:
  assumes ok: "kernel_ok T M s" and t: "t \<in> T" "t \<noteq> thread_self s" shows "good T M (osDestroyThread t s)"
proof -
  obtain qs where qs: "core T M s qs" "unqueued (queues M) qs (thread_self s)" using ok by (auto simp: kernel_ok_def)
  note lay = kernel_invD(1) [OF coreD(2) [OF qs(1)]]
  have t0: "t \<noteq> 0" using t lay by (auto simp: layout_def dest: valid_nonzero)
  define s1 where "s1 = (if mem s (f_state t) \<noteq> STOPPED then snd (thread_queue_remove (mem s (f_queue t)) t s) else s)"
  have "\<exists>qs1. core T M s1 qs1 \<and> unqueued (queues M) qs1 t \<and> unqueued (queues M) qs1 (thread_self s) \<and> thread_self s1 = thread_self s"
  proof (cases "unqueued (queues M) qs t")
    case True
    then have "mem s (f_queue t) = 0" using back_okD(3) [OF coreD(9) [OF qs(1)] t(1)] by simp
    moreover have "thread_queue_remove 0 t s = (False, s)"
      by (simp add: thread_queue_remove_def running_queue_def valid_thread_ptr_def)
    ultimately have "s1 = s" by (simp add: s1_def)
    then show ?thesis using True qs by auto
  next
    case False
    then obtain q where q: "q \<in> insert running_queue (queues M)" "t \<in> set (qs q)" by (auto simp: unqueued_def)
    note back_q = back_okD [OF coreD(9) [OF qs(1)]]
    obtain s' where s': "thread_queue_remove q t s = (True, s')" "core T M s' (qs(q := remove1 t (qs q)))" "same_rest T (queues M) s s'"
      using core_remove [OF qs(1) q] by metis
    have "s1 = s'" using back_q(1,2) [OF q] s'(1) by (simp add: s1_def)
    moreover have "distinct (qs q)" using kernel_invD(2) [OF coreD(2) [OF qs(1)] q(1)] by (simp add: qok_def)
    then have "unqueued (queues M) (qs(q := remove1 t (qs q))) t"
      using kernel_invD(3) [OF coreD(2) [OF qs(1)] _ q(1)] q(2) by (auto simp: unqueued_def)
    moreover have "unqueued (queues M) (qs(q := remove1 t (qs q))) (thread_self s)"
      using qs(2) notin_set_remove1 by (auto simp: unqueued_def)
    ultimately show ?thesis using s'(2,3) by (auto simp: same_rest_def)
  qed
  then obtain qs1 where qs1: "core T M s1 qs1" "unqueued (queues M) qs1 t" "unqueued (queues M) qs1 (thread_self s)" "thread_self s1 = thread_self s"
    by blast
  let ?s2 = "s1\<lparr>ctx := (ctx s1)(t := 0), parked := (parked s1)(t := None)\<rparr>"
  have "core T M ?s2 qs1"
  proof (rule core_host [OF qs1(1)])
    show "waits_ok T M ?s2 qs1"
      using coreD(4) [OF qs1(1)] qs1(2) unfolding waits_ok_def unqueued_def by (auto split: if_splits)
  qed (use coreD(5,6) [OF qs1(1)] t qs1(4) in auto)
  then have "kernel_ok T M ?s2" "kernel_ok T M s1" using qs1 by (auto intro: kernel_okI)
  moreover have "osDestroyThread t s = (Done 0, if ctx s1 t \<noteq> 0 then ?s2 else s1)"
    using t t0 by (simp add: osDestroyThread_def s1_def Let_def)
  ultimately show ?thesis by simp
qed

text \<open>Initialising a message queue on which no thread waits.\<close>

lemma create_queue_ok:
  assumes ok: "kernel_ok T M s" and M: "M mq = Some (buf, n)"
    and e: "thread_queue_empty (f_recv mq) s" "thread_queue_empty (f_send mq) s"
  shows "kernel_ok T M (osCreateMesgQueue mq buf (of_nat n) s)" "contents (osCreateMesgQueue mq buf (of_nat n) s) mq = []"
proof -
  obtain qs where qs: "core T M s qs" "unqueued (queues M) qs (thread_self s)" using ok by (auto simp: kernel_ok_def)
  note L = sys_layoutD [OF coreD(1) [OF qs(1)] M]
  have "mq \<in> dom M" using M by blast
  then have q: "f_recv mq \<in> queues M" "f_send mq \<in> queues M" by simp_all
  note run = layout_running [OF L(1) q(1)] layout_running [OF L(1) q(2)]
  have "mem s mq = 0" "mem s (f_send mq) = 0"
    using e run by (simp_all add: thread_queue_empty_def queue_to_ptr_def)
  then have "osCreateMesgQueue mq buf (of_nat n) s =
      upd (f_first mq) 0 (upd (f_valid mq) 0 (upd (f_msg mq) buf (upd (f_count mq) (of_nat n) s)))" (is "_ = ?s")
    by (simp add: osCreateMesgQueue_def Let_def upd_same)
  moreover have f: "mem ?s (f_first mq) = of_nat 0" "mem ?s (f_valid mq) = of_nat 0" "mem ?s (f_count mq) = of_nat n" "mem ?s (f_msg mq) = buf"
    by simp_all
  note cf = contents_fields [OF f L(4) _ L(5)]
  have "core T M ?s qs"
    by (rule core_mq_write(1) [OF qs(1) M _ _ cf(2)]) (auto simp: upd_def)
  ultimately show "kernel_ok T M (osCreateMesgQueue mq buf (of_nat n) s)" "contents (osCreateMesgQueue mq buf (of_nat n) s) mq = []"
    using qs(2) cf(1) by (auto intro: kernel_okI)
qed

lemma guest_write_ok: "kernel_ok T M s \<Longrightarrow> a \<notin> protected T M \<Longrightarrow> kernel_ok T M (upd a v s)"
  unfolding kernel_ok_def using core_guest_write(1) by fastforce

section \<open>Transitions\<close>

text \<open>
  One step of the system: a call of the running thread (which is in guest code), the resumption
  of a thread that was handed the processor, a guest store outside the kernel's structures, a
  host post, or the monitor asking for a yield. A call that raises ends the program.
\<close>

datatype kcall = Send u32 u32 u32 | Jam u32 u32 u32 | Recv u32 u32 u32 | Start u32 | Stop | Destroy u32 | SetPri u32
  | Tick | Yield1ms | Pause | Exit

fun call :: "enqueue \<Rightarrow> kcall \<Rightarrow> os \<Rightarrow> outcome \<times> os" where
  "call enq (Send mq m flags) s = osSendMesg enq True mq m flags s"
| "call enq (Jam mq m flags) s = osJamMesg enq True mq m flags s"
| "call enq (Recv mq p flags) s = osRecvMesg enq True mq p flags s"
| "call enq (Start t) s = osStartThread t s"
| "call enq Stop s = osStopThread 0 s"
| "call enq (Destroy t) s = osDestroyThread t s"
| "call enq (SetPri pri) s = osSetThreadPri 0 pri s"
| "call enq Tick s = scheduler_tick_impl True s"
| "call enq Yield1ms s = yield_self_1ms s"
| "call enq Pause s = pause_self s"
| "call enq Exit s = run_game_thread_end (ctx s (thread_self s)) s"

text \<open>What the guest has to respect: structures of the layout, and threads in the right state.\<close>

fun allowed :: "u32 set \<Rightarrow> mqs \<Rightarrow> os \<Rightarrow> kcall \<Rightarrow> bool" where
  "allowed T M s (Send mq m flags) \<longleftrightarrow> mq \<in> dom M"
| "allowed T M s (Jam mq m flags) \<longleftrightarrow> mq \<in> dom M"
| "allowed T M s (Recv mq p flags) \<longleftrightarrow> mq \<in> dom M \<and> safe_ptr T M p"
| "allowed T M s (Start t) \<longleftrightarrow> t \<in> T \<and> t \<noteq> thread_self s \<and> mem s (f_queue t) = 0 \<and> ctx s t \<noteq> 0 \<and> parked s t \<noteq> None"
| "allowed T M s (Destroy t) \<longleftrightarrow> t \<in> T \<and> t \<noteq> thread_self s"
| "allowed T M s _ \<longleftrightarrow> True"

inductive kstep :: "enqueue \<Rightarrow> u32 set \<Rightarrow> mqs \<Rightarrow> os \<Rightarrow> os \<Rightarrow> bool" for enq T M where
  syscall: "kstep enq T M s s'" if "parked s (thread_self s) = None" "allowed T M s k" "call enq k s = (r, s')" "\<forall>e. r \<noteq> Raised e"
| yielded: "kstep enq T M s s'" if "parked s (thread_self s) = None" "yield_self s = Some (r, s')" "\<forall>e. r \<noteq> Raised e"
| create: "kstep enq T M s (osCreateThread t tid sp pri c s)"
    if "t \<in> T" "t \<noteq> thread_self s" "parked s t = None" "c \<noteq> 0"
| create_queue: "kstep enq T M s (osCreateMesgQueue mq buf (of_nat n) s)"
    if "M mq = Some (buf, n)" "thread_queue_empty (f_recv mq) s" "thread_queue_empty (f_send mq) s"
| resumed: "kstep enq T M s s'" if "parked s (thread_self s) \<noteq> None" "resume s = (r, s')" "\<forall>e. r \<noteq> Raised e"
| store: "kstep enq T M s (upd a v s)" if "a \<notin> protected T M"
| post: "kstep enq T M s (enqueue_external_tagged enq mq m jam coalescible s)" if "mq \<in> dom M"
| monitor: "kstep enq T M s (s\<lparr>should_yield := True\<rparr>)"

inductive_cases kstepE: "kstep enq T M s s'"

text \<open>A call fails only for want of a runnable thread.\<close>

lemma call_good:
  assumes "enqueue_law enq" "kernel_ok T M s" "parked s (thread_self s) = None" "allowed T M s k"
  shows "good T M (call enq k s)"
proof (cases k)
  case (Start t)
  then obtain c w where p: "parked s t = Some (c, w)" "t \<in> T" using assms(4) by auto
  have "c = ctx s t" using assms(2) p unfolding kernel_ok_def core_def waits_ok_def by blast
  with p start_good [OF assms(2), of t w] assms(4) Start show ?thesis by simp
qed (use assms(4) message_calls_good [OF assms(1,2)] stop_good [OF assms(2)] destroy_good [OF assms(2)] set_own_pri_good [OF assms(2)]
    tick_good [OF assms(2)] yields_good(1) [OF assms(2)] pause_good [OF assms(2)] exit_good [OF assms(2,3)] in simp_all)

lemma good_not_raised: "good T M (r, s) \<Longrightarrow> \<forall>e. r \<noteq> Raised e \<Longrightarrow> kernel_ok T M s"
  by (cases r) simp_all

lemma kstep_ok:
  assumes law: "enqueue_law enq" and st: "kstep enq T M s s'" and ok: "kernel_ok T M s" shows "kernel_ok T M s'"
  using st
proof cases
  case (syscall k r)
  then show ?thesis using call_good [OF law ok syscall(1,2)] good_not_raised by metis
next
  case (yielded r)
  then show ?thesis using yields_good(2) [OF ok] good_not_raised by metis
next
  case (resumed r)
  then obtain c w where "parked s (thread_self s) = Some (c, w)" by auto
  then show ?thesis using resume_good(1) [OF ok] resumed(2,3) good_not_raised by metis
qed (use ok create_ok create_queue_ok guest_write_ok post_ok [OF law] flags_ok in auto)

lemma reachable_ok:
  assumes "enqueue_law enq" "kernel_ok T M s" "(kstep enq T M)\<^sup>*\<^sup>* s s'" shows "kernel_ok T M s'"
  using assms(3,2) by (induction) (auto intro: kstep_ok [OF assms(1)])

end
