(* ===== verification/QueueSpecs.thy ===== *)
theory QueueSpecs
  imports "HOL-Library.Multiset"
begin

text \<open>
  The contracts of the two kinds of queue the kernel offers, as interfaces: a bounded FIFO queue
  with non-blocking operations, and a family of priority queues that share their elements. What
  a client may conclude is proved here once and holds of every implementation.
\<close>

section \<open>Bounded FIFO queues\<close>

locale bounded_fifo =
  fixes ok :: "'s \<Rightarrow> bool" and cont :: "'s \<Rightarrow> 'm list" and cap :: nat
    and put :: "'m \<Rightarrow> 's \<Rightarrow> bool \<times> 's" and take_one :: "'s \<Rightarrow> 'm option \<times> 's"
  assumes bounded: "ok s \<Longrightarrow> length (cont s) \<le> cap"
    and put_room: "ok s \<Longrightarrow> length (cont s) < cap \<Longrightarrow> \<exists>s'. put m s = (True, s') \<and> ok s' \<and> cont s' = cont s @ [m]"
    and put_full: "ok s \<Longrightarrow> length (cont s) = cap \<Longrightarrow> put m s = (False, s)"
    and take_first: "ok s \<Longrightarrow> cont s = m # ms \<Longrightarrow> \<exists>s'. take_one s = (Some m, s') \<and> ok s' \<and> cont s' = ms"
    and take_none: "ok s \<Longrightarrow> cont s = [] \<Longrightarrow> take_one s = (None, s)"
begin

primrec puts :: "'m list \<Rightarrow> 's \<Rightarrow> nat \<times> 's" where
  "puts [] s = (0, s)"
| "puts (m # ms) s = (let (b, s) = put m s; (k, s) = puts ms s in (k + (if b then 1 else 0), s))"

primrec takes :: "nat \<Rightarrow> 's \<Rightarrow> 'm list \<times> 's" where
  "takes 0 s = ([], s)"
| "takes (Suc k) s = (case take_one s of (None, s) \<Rightarrow> ([], s)
     | (Some m, s) \<Rightarrow> let (ms, s) = takes k s in (m # ms, s))"

text \<open>Of a burst exactly as many messages are accepted as there is room, the first ones.\<close>

lemma puts_accepts:
  "ok s \<Longrightarrow> \<exists>s'. puts ms s = (min (length ms) (cap - length (cont s)), s') \<and> ok s'
     \<and> cont s' = cont s @ take (cap - length (cont s)) ms"
proof (induction ms arbitrary: s)
  case (Cons m ms)
  show ?case
  proof (cases "length (cont s) < cap")
    case True
    from put_room [OF Cons.prems True, of m] obtain s1 where s1: "put m s = (True, s1)" "ok s1" "cont s1 = cont s @ [m]" by blast
    from Cons.IH [OF s1(2)] obtain s2 where "puts ms s1 = (min (length ms) (cap - length (cont s1)), s2)" "ok s2"
      "cont s2 = cont s1 @ take (cap - length (cont s1)) ms" by blast
    moreover from True have "cap - length (cont s) = Suc (cap - Suc (length (cont s)))" by simp
    ultimately show ?thesis using s1 by (auto simp: Let_def)
  next
    case False
    then have "length (cont s) = cap" using bounded [OF Cons.prems] by simp
    with put_full [OF Cons.prems this, of m] Cons.IH [OF Cons.prems] show ?thesis by auto
  qed
qed simp

lemma takes_in_order:
  "ok s \<Longrightarrow> \<exists>s'. takes k s = (take k (cont s), s') \<and> ok s' \<and> cont s' = drop k (cont s)"
proof (induction k arbitrary: s)
  case (Suc k)
  show ?case
  proof (cases "cont s")
    case Nil
    then show ?thesis using take_none [OF Suc.prems] Suc.prems by auto
  next
    case (Cons m ms)
    from take_first [OF Suc.prems Cons] obtain s1 where s1: "take_one s = (Some m, s1)" "ok s1" "cont s1 = ms" by blast
    from Suc.IH [OF s1(2)] s1 Cons show ?thesis by auto
  qed
qed auto

text \<open>What is sent to an empty queue is received in the order it was sent.\<close>

lemma fifo_order:
  assumes "ok s" "cont s = []" "length ms \<le> cap"
  shows "fst (takes (length ms) (snd (puts ms s))) = ms"
proof -
  from puts_accepts [OF assms(1), of ms] assms(2,3) obtain s1 where "snd (puts ms s) = s1" "ok s1" "cont s1 = ms" by auto
  with takes_in_order [of s1 "length ms"] show ?thesis by auto
qed

end

section \<open>Priority queues over shared elements\<close>

locale prio_queues =
  fixes ok :: "'s \<Rightarrow> bool" and Qs :: "'q set" and elems :: "'s \<Rightarrow> 'q \<Rightarrow> 't list" and pri :: "'s \<Rightarrow> 't \<Rightarrow> int"
    and free :: "'s \<Rightarrow> 't \<Rightarrow> bool"
    and ins :: "'q \<Rightarrow> 't \<Rightarrow> 's \<Rightarrow> 's" and pop :: "'q \<Rightarrow> 's \<Rightarrow> 't \<times> 's" and rem :: "'q \<Rightarrow> 't \<Rightarrow> 's \<Rightarrow> bool \<times> 's"
  assumes sorted: "ok s \<Longrightarrow> q \<in> Qs \<Longrightarrow> sorted_wrt (\<lambda>x y. pri s x \<ge> pri s y) (elems s q)"
    and distinct: "ok s \<Longrightarrow> q \<in> Qs \<Longrightarrow> distinct (elems s q)"
    and one_queue: "ok s \<Longrightarrow> q \<in> Qs \<Longrightarrow> r \<in> Qs \<Longrightarrow> t \<in> set (elems s q) \<Longrightarrow> t \<in> set (elems s r) \<Longrightarrow> q = r"
    and ins_law: "ok s \<Longrightarrow> q \<in> Qs \<Longrightarrow> free s a \<Longrightarrow> ok (ins q a s) \<and> mset (elems (ins q a s) q) = add_mset a (mset (elems s q))
      \<and> (\<forall>r \<in> Qs. r \<noteq> q \<longrightarrow> elems (ins q a s) r = elems s r)"
    and pop_law: "ok s \<Longrightarrow> q \<in> Qs \<Longrightarrow> elems s q = t # ts \<Longrightarrow> fst (pop q s) = t \<and> ok (snd (pop q s))
      \<and> elems (snd (pop q s)) q = ts \<and> (\<forall>r \<in> Qs. r \<noteq> q \<longrightarrow> elems (snd (pop q s)) r = elems s r)
      \<and> (\<forall>u \<in> set (elems s q). pri (snd (pop q s)) u = pri s u)"
    and rem_law: "ok s \<Longrightarrow> q \<in> Qs \<Longrightarrow> fst (rem q t s) = (t \<in> set (elems s q)) \<and> ok (snd (rem q t s))
      \<and> elems (snd (rem q t s)) q = remove1 t (elems s q) \<and> (\<forall>r \<in> Qs. r \<noteq> q \<longrightarrow> elems (snd (rem q t s)) r = elems s r)"
begin

lemma pop_max:
  assumes "ok s" "q \<in> Qs" "u \<in> set (elems s q)" shows "pri s u \<le> pri s (fst (pop q s))" "fst (pop q s) \<in> set (elems s q)"
proof -
  obtain t ts where q: "elems s q = t # ts" using assms(3) by (cases "elems s q") auto
  with pop_law [OF assms(1,2) q] sorted [OF assms(1,2)] assms(3)
  show "pri s u \<le> pri s (fst (pop q s))" "fst (pop q s) \<in> set (elems s q)" by auto
qed

text \<open>Emptying a queue hands out its elements in descending priority order.\<close>

primrec drain_all :: "nat \<Rightarrow> 'q \<Rightarrow> 's \<Rightarrow> 't list \<times> 's" where
  "drain_all 0 q s = ([], s)"
| "drain_all (Suc k) q s = (let (t, s) = pop q s; (ts, s) = drain_all k q s in (t # ts, s))"

lemma drain_all_elems:
  "ok s \<Longrightarrow> q \<in> Qs \<Longrightarrow> fst (drain_all (length (elems s q)) q s) = elems s q
     \<and> ok (snd (drain_all (length (elems s q)) q s)) \<and> elems (snd (drain_all (length (elems s q)) q s)) q = []"
proof (induction "elems s q" arbitrary: s)
  case Nil
  then show ?case by simp
next
  case (Cons t ts)
  obtain s1 where s1: "pop q s = (t, s1)" "ok s1" "elems s1 q = ts"
    using pop_law [OF Cons.prems Cons.hyps(2) [symmetric]] by (cases "pop q s") auto
  then have "fst (drain_all (length ts) q s1) = ts \<and> ok (snd (drain_all (length ts) q s1)) \<and> elems (snd (drain_all (length ts) q s1)) q = []"
    using Cons.hyps(1) [of s1] Cons.prems(2) by simp
  then show ?case using s1(1) Cons.hyps(2) [symmetric] by (auto split: prod.splits)
qed

text \<open>An element that was removed, or popped, is in no queue.\<close>

lemma removed_gone:
  assumes "ok s" "q \<in> Qs" "t \<in> set (elems s q)" "r \<in> Qs" shows "t \<notin> set (elems (snd (rem q t s)) r)"
proof (cases "r = q")
  case True
  then show ?thesis using rem_law [OF assms(1,2), of t] distinct [OF assms(1,2)] by simp
next
  case False
  then show ?thesis using rem_law [OF assms(1,2), of t] one_queue [OF assms(1,2,4,3)] assms(4) by auto
qed

end

end
