(* ===== verification/KernelSpecs.thy ===== *)
theory KernelSpecs
  imports KernelSteps QueueSpecs
begin

text \<open>
  The kernel implements the queue contracts: the thread queues are priority queues over shared
  threads, each message queue is a bounded FIFO queue.
\<close>

section \<open>The contents of a thread queue, read off the links\<close>

fun walk :: "nat \<Rightarrow> os \<Rightarrow> link \<Rightarrow> u32 list" where
  "walk n s l = (if n = 0 \<or> rd_link s l = 0 then [] else rd_link s l # walk (n - 1) s (Cell (f_next (rd_link s l))))"

declare walk.simps [simp del]

lemma walk_chain: "chain s l ts \<Longrightarrow> length ts < n \<Longrightarrow> walk n s l = ts"
proof (induction ts arbitrary: l n)
  case Nil
  then show ?case by (simp add: walk.simps)
next
  case (Cons t ts)
  then show ?case by (subst walk.simps) (auto dest: valid_nonzero)
qed

definition qlist :: "os \<Rightarrow> u32 \<Rightarrow> u32 list" where
  "qlist s q = walk guard_limit s (queue_to_ptr q)"

lemma qlist_eq: assumes "kernel_inv T Q s qs" "q \<in> insert running_queue Q" shows "qlist s q = qs q"
proof -
  note k = kernel_invD(1) [OF assms(1)] kernel_invD(2) [OF assms]
  show ?thesis using walk_chain chain_length [OF k] k(2) by (simp add: qlist_def qok_def)
qed

lemma kernel_inv_qlist: "kernel_inv T Q s qs \<Longrightarrow> kernel_inv T Q s (qlist s)"
  using qlist_eq [of T Q s qs] unfolding kernel_inv_def by (metis (no_types, lifting))

definition queues_ok :: "u32 set \<Rightarrow> u32 set \<Rightarrow> os \<Rightarrow> bool" where
  "queues_ok T Q s \<longleftrightarrow> kernel_inv T Q s (qlist s)"

definition free_thread :: "u32 set \<Rightarrow> u32 set \<Rightarrow> os \<Rightarrow> u32 \<Rightarrow> bool" where
  "free_thread T Q s a \<longleftrightarrow> a \<in> T \<and> unqueued Q (qlist s) a"

lemma queues_okI: "kernel_inv T Q s qs \<Longrightarrow> queues_ok T Q s"
  unfolding queues_ok_def by (rule kernel_inv_qlist)

text \<open>The three operations on the contents they read off.\<close>

lemma insert_qlist:
  assumes "queues_ok T Q s" "q \<in> insert running_queue Q" "free_thread T Q s a"
  shows "queues_ok T Q (thread_queue_insert q a s)"
    "qlist (thread_queue_insert q a s) q = pri_insert (priority s) a (qlist s q)"
    "r \<in> insert running_queue Q \<Longrightarrow> r \<noteq> q \<Longrightarrow> qlist (thread_queue_insert q a s) r = qlist s r"
proof -
  have "kernel_inv T Q (thread_queue_insert q a s) ((qlist s)(q := pri_insert (priority s) a (qlist s q)))"
    using kernel_insert(1) assms unfolding queues_ok_def free_thread_def by blast
  from queues_okI [OF this] qlist_eq [OF this] assms(2)
  show "queues_ok T Q (thread_queue_insert q a s)" "qlist (thread_queue_insert q a s) q = pri_insert (priority s) a (qlist s q)"
    "r \<in> insert running_queue Q \<Longrightarrow> r \<noteq> q \<Longrightarrow> qlist (thread_queue_insert q a s) r = qlist s r" by auto
qed

lemma pop_qlist:
  assumes "queues_ok T Q s" "q \<in> insert running_queue Q" "qlist s q = t # ts"
  shows "fst (thread_queue_pop q s) = t" "queues_ok T Q (snd (thread_queue_pop q s))" "qlist (snd (thread_queue_pop q s)) q = ts"
    "r \<in> insert running_queue Q \<Longrightarrow> r \<noteq> q \<Longrightarrow> qlist (snd (thread_queue_pop q s)) r = qlist s r"
    "u \<in> T \<Longrightarrow> priority (snd (thread_queue_pop q s)) u = priority s u"
proof -
  obtain s' where s': "thread_queue_pop q s = (t, s')" "kernel_inv T Q s' ((qlist s)(q := ts))" "\<forall>u \<in> T. priority s' u = priority s u"
    using kernel_pop_Cons [OF assms(1) [unfolded queues_ok_def] assms(2,3)] by metis
  from s'(1,3) queues_okI [OF s'(2)] qlist_eq [OF s'(2)] assms(2)
  show "fst (thread_queue_pop q s) = t" "queues_ok T Q (snd (thread_queue_pop q s))" "qlist (snd (thread_queue_pop q s)) q = ts"
    "r \<in> insert running_queue Q \<Longrightarrow> r \<noteq> q \<Longrightarrow> qlist (snd (thread_queue_pop q s)) r = qlist s r"
    "u \<in> T \<Longrightarrow> priority (snd (thread_queue_pop q s)) u = priority s u" by auto
qed

lemma remove_qlist:
  assumes "queues_ok T Q s" "q \<in> insert running_queue Q"
  shows "fst (thread_queue_remove q t s) = (t \<in> set (qlist s q))" "queues_ok T Q (snd (thread_queue_remove q t s))"
    "qlist (snd (thread_queue_remove q t s)) q = remove1 t (qlist s q)"
    "r \<in> insert running_queue Q \<Longrightarrow> r \<noteq> q \<Longrightarrow> qlist (snd (thread_queue_remove q t s)) r = qlist s r"
proof -
  obtain s' where s': "thread_queue_remove q t s = (t \<in> set (qlist s q), s')" "kernel_inv T Q s' ((qlist s)(q := remove1 t (qlist s q)))"
    using kernel_remove [OF assms(1) [unfolded queues_ok_def] assms(2), of t] by metis
  from s'(1) queues_okI [OF s'(2)] qlist_eq [OF s'(2)] assms(2)
  show "fst (thread_queue_remove q t s) = (t \<in> set (qlist s q))" "queues_ok T Q (snd (thread_queue_remove q t s))"
    "qlist (snd (thread_queue_remove q t s)) q = remove1 t (qlist s q)"
    "r \<in> insert running_queue Q \<Longrightarrow> r \<noteq> q \<Longrightarrow> qlist (snd (thread_queue_remove q t s)) r = qlist s r" by auto
qed

interpretation tq: prio_queues "queues_ok T Q" "insert running_queue Q" qlist priority "free_thread T Q"
  thread_queue_insert thread_queue_pop thread_queue_remove for T Q
proof
  fix s q assume ok: "queues_ok T Q s" and q: "q \<in> insert running_queue Q"
  note k = kernel_invD(2,3) [OF ok [unfolded queues_ok_def]]
  show "sorted_wrt (\<lambda>x y. priority s y \<le> priority s x) (qlist s q)" "distinct (qlist s q)"
    using k(1) [OF q] by (simp_all add: qok_def)
  show "q = r" if "r \<in> insert running_queue Q" "t \<in> set (qlist s q)" "t \<in> set (qlist s r)" for r t
    using k(2) [OF q that(1)] that(2,3) by blast
  show "queues_ok T Q (thread_queue_insert q a s) \<and> mset (qlist (thread_queue_insert q a s) q) = add_mset a (mset (qlist s q))
      \<and> (\<forall>r \<in> insert running_queue Q. r \<noteq> q \<longrightarrow> qlist (thread_queue_insert q a s) r = qlist s r)" if "free_thread T Q s a" for a
    using insert_qlist [OF ok q that] by simp
  show "fst (thread_queue_pop q s) = t \<and> queues_ok T Q (snd (thread_queue_pop q s)) \<and> qlist (snd (thread_queue_pop q s)) q = ts
      \<and> (\<forall>r \<in> insert running_queue Q. r \<noteq> q \<longrightarrow> qlist (snd (thread_queue_pop q s)) r = qlist s r)
      \<and> (\<forall>u \<in> set (qlist s q). priority (snd (thread_queue_pop q s)) u = priority s u)" if "qlist s q = t # ts" for t ts
    using pop_qlist [OF ok q that] k(1) [OF q] by (auto simp: qok_def)
  show "fst (thread_queue_remove q t s) = (t \<in> set (qlist s q)) \<and> queues_ok T Q (snd (thread_queue_remove q t s))
      \<and> qlist (snd (thread_queue_remove q t s)) q = remove1 t (qlist s q)
      \<and> (\<forall>r \<in> insert running_queue Q. r \<noteq> q \<longrightarrow> qlist (snd (thread_queue_remove q t s)) r = qlist s r)" for t
    using remove_qlist [OF ok q] by blast
qed

section \<open>Message queues as FIFO queues\<close>

text \<open>Non-blocking send, and receive into the guest variable \<open>p\<close>.\<close>

definition nb_send :: "u32 \<Rightarrow> u32 \<Rightarrow> os \<Rightarrow> bool \<times> os" where
  "nb_send mq m s = (let (r, s) = do_send mq m False False s in (r = Done 1, s))"

definition nb_recv :: "u32 \<Rightarrow> u32 \<Rightarrow> os \<Rightarrow> u32 option \<times> os" where
  "nb_recv mq p s = (let (r, s) = do_recv mq p False s in (if r = Done 1 then Some (mem s p) else None, s))"

definition fifo_ok :: "u32 set \<Rightarrow> mqs \<Rightarrow> u32 \<Rightarrow> u32 \<Rightarrow> os \<Rightarrow> bool" where
  "fifo_ok T M mq p s \<longleftrightarrow> kernel_ok T M s \<and> mq \<in> dom M \<and> p \<noteq> 0 \<and> safe_ptr T M p"

definition mq_cap :: "mqs \<Rightarrow> u32 \<Rightarrow> nat" where
  "mq_cap M mq = (case M mq of None \<Rightarrow> 0 | Some (_, n) \<Rightarrow> n)"

lemma woken_cong:
  assumes core: "core T M s qs" and q: "q \<in> queues M" and pr: "\<forall>t \<in> T. priority s1 t = priority s t"
  shows "woken s1 q qs = woken s q qs"
proof (cases "qs q")
  case (Cons t ts)
  have "set (t # qs running_queue) \<subseteq> T"
    using queued_in [OF coreD(2) [OF core], of q t] queued_in [OF coreD(2) [OF core], of running_queue] Cons q by auto
  then have "pri_insert (priority s1) t (qs running_queue) = pri_insert (priority s) t (qs running_queue)"
    using pr by (intro pri_insert_cong) auto
  with Cons show ?thesis by (simp add: woken_def)
qed (simp add: woken_def)

lemma do_send_room:
  assumes core: "core T M s qs" and self: "unqueued (queues M) qs (thread_self s)" and M: "M mq = Some (buf, n)"
    and room: "length (contents s mq) < n"
  shows "\<exists>s'. do_send mq m jam block s = (Done 1, s') \<and> core T M s' (woken s (f_recv mq) qs)
     \<and> unqueued (queues M) (woken s (f_recv mq) qs) (thread_self s')
     \<and> contents s' mq = (if jam then m # contents s mq else contents s mq @ [m])
     \<and> (\<forall>mq' \<in> dom M. mq' \<noteq> mq \<longrightarrow> contents s' mq' = contents s mq')"
proof -
  have mq: "f_recv mq \<in> queues M" "mq \<in> dom M" using M queues_memb(1) [of mq M] by (simp_all add: domI)
  obtain s1 where s1: "send_store mq m jam s = (Done 1, wake_first (f_recv mq) s1)" "core T M s1 qs"
    "contents s1 mq = (if jam then m # contents s mq else contents s mq @ [m])"
    "\<And>mq'. mq' \<noteq> mq \<Longrightarrow> mq' \<in> dom M \<Longrightarrow> contents s1 mq' = contents s mq'"
    "\<forall>t \<in> T. priority s1 t = priority s t" "thread_self s1 = thread_self s"
    using send_store_core [OF core M room, of m jam] by metis
  have "unqueued (queues M) qs (thread_self s1)" using self s1(6) by simp
  note wk = core_wake [OF s1(2) mq(1) this]
  have "woken s1 (f_recv mq) qs = woken s (f_recv mq) qs" by (rule woken_cong [OF core mq(1) s1(5)])
  moreover have "contents (wake_first (f_recv mq) s1) mq' = contents s1 mq'" if "mq' \<in> dom M" for mq'
    using rest_mq(1) [OF s1(2) wk(2)] that by auto
  moreover have "do_send mq m jam block s = send_store mq m jam s"
    using length_contents(2,4) [OF core M] room by (simp add: do_send_def send_loop_def)
  ultimately show ?thesis using s1(1,3,4) wk(1,3) mq(2) by auto
qed

lemma do_send_full:
  assumes "core T M s qs" "M mq = Some (buf, n)" "length (contents s mq) = n" shows "do_send mq m jam False s = (Done 0, s)"
  using length_contents(2,4) [OF assms(1,2)] assms(3) by (simp add: do_send_def)

lemma do_recv_first:
  assumes core: "core T M s qs" and self: "unqueued (queues M) qs (thread_self s)" and M: "M mq = Some (buf, n)"
    and c: "contents s mq = m # ms" and p: "safe_ptr T M p"
  shows "\<exists>s'. do_recv mq p block s = (Done 1, s') \<and> core T M s' (woken s (f_send mq) qs)
     \<and> unqueued (queues M) (woken s (f_send mq) qs) (thread_self s') \<and> contents s' mq = ms
     \<and> (\<forall>mq' \<in> dom M. mq' \<noteq> mq \<longrightarrow> contents s' mq' = contents s mq') \<and> (p \<noteq> 0 \<longrightarrow> mem s' p = m)"
proof -
  have mq: "f_send mq \<in> queues M" "mq \<in> dom M" using M queues_memb(2) [of mq M] by (simp_all add: domI)
  obtain s1 where s1: "recv_take mq p s = (Done 1, wake_first (f_send mq) s1)" "core T M s1 qs" "contents s1 mq = ms"
    "\<And>mq'. mq' \<noteq> mq \<Longrightarrow> mq' \<in> dom M \<Longrightarrow> contents s1 mq' = contents s mq'"
    "\<forall>t \<in> T. priority s1 t = priority s t" "thread_self s1 = thread_self s" "p \<noteq> 0 \<Longrightarrow> mem s1 p = m"
    using recv_take_core [OF core M c p] by metis
  have "unqueued (queues M) qs (thread_self s1)" using self s1(6) by simp
  note wk = core_wake [OF s1(2) mq(1) this]
  have "woken s1 (f_send mq) qs = woken s (f_send mq) qs" by (rule woken_cong [OF core mq(1) s1(5)])
  moreover have "contents (wake_first (f_send mq) s1) mq' = contents s1 mq'" if "mq' \<in> dom M" for mq'
    using rest_mq(1) [OF s1(2) wk(2)] that by auto
  moreover have "mem (wake_first (f_send mq) s1) p = m" if "p \<noteq> 0"
    using wk(2) p s1(7) [OF that] that by (auto simp: same_rest_def safe_ptr_def protected_def)
  moreover have "do_recv mq p block s = recv_take mq p s"
    using length_contents(3) [OF core M] c by (simp add: do_recv_def recv_loop_def)
  ultimately show ?thesis using s1(1,3,4) wk(1,3) mq(2) by auto
qed

lemma fifo_okD:
  assumes "fifo_ok T M mq p s"
  obtains qs buf n where "core T M s qs" "unqueued (queues M) qs (thread_self s)" "M mq = Some (buf, n)" "mq_cap M mq = n"
    "p \<noteq> 0" "safe_ptr T M p"
  using assms that by (auto simp: fifo_ok_def kernel_ok_def mq_cap_def)

interpretation mf: bounded_fifo "fifo_ok T M mq p" "\<lambda>s. contents s mq" "mq_cap M mq" "nb_send mq" "nb_recv mq p" for T M mq p
proof
  fix s assume ok: "fifo_ok T M mq p s"
  obtain qs buf n where k: "core T M s qs" "unqueued (queues M) qs (thread_self s)" "M mq = Some (buf, n)" "mq_cap M mq = n"
    "p \<noteq> 0" "safe_ptr T M p" using fifo_okD [OF ok] .
  show "length (contents s mq) \<le> mq_cap M mq" using length_contents(1) [OF k(1,3)] k(4) by simp
  show "nb_send mq m s = (False, s)" if "length (contents s mq) = mq_cap M mq" for m
    using do_send_full [OF k(1,3)] that k(4) by (simp add: nb_send_def)
  show "\<exists>s'. nb_send mq m s = (True, s') \<and> fifo_ok T M mq p s' \<and> contents s' mq = contents s mq @ [m]"
    if "length (contents s mq) < mq_cap M mq" for m
    using do_send_room [OF k(1-3), of m False False] that k(4-6) k(3) by (auto simp: nb_send_def fifo_ok_def intro: kernel_okI)
  show "\<exists>s'. nb_recv mq p s = (Some m, s') \<and> fifo_ok T M mq p s' \<and> contents s' mq = ms" if "contents s mq = m # ms" for m ms
    using do_recv_first [OF k(1-3) that k(6), of False] k(3,5,6) by (auto simp: nb_recv_def fifo_ok_def intro: kernel_okI)
  show "nb_recv mq p s = (None, s)" if "contents s mq = []"
    using length_contents(3) [OF k(1,3)] that by (simp add: nb_recv_def do_recv_def)
qed

section \<open>Draining the external queue\<close>

text \<open>The reliable messages for a queue that wait in the external queue.\<close>

definition reliable :: "u32 \<Rightarrow> qmsg list \<Rightarrow> u32 multiset" where
  "reliable mq ms = image_mset q_mesg (filter_mset (\<lambda>m. q_mq m = mq \<and> \<not> q_coalescible m) (mset ms))"

lemma reliable_simps:
  "reliable mq [] = {#}"
  "reliable mq (m # ms) = (if q_mq m = mq \<and> \<not> q_coalescible m then add_mset (q_mesg m) (reliable mq ms) else reliable mq ms)"
  by (simp_all add: reliable_def)

lemma reliable_enq: "enqueue_law enq \<Longrightarrow> reliable mq (enq m ms) = reliable mq (m # ms)"
  by (simp add: reliable_def enqueue_lawD)

text \<open>A non-blocking send either adds the message to its queue or changes nothing.\<close>

lemma send_nb_contents:
  assumes "kernel_ok T M s" "mq \<in> dom M" "mq' \<in> dom M" "do_send mq m jam False s = (r, s')"
  shows "r = Done 1 \<and> mset (contents s' mq') = (if mq' = mq then {#m#} else {#}) + mset (contents s mq')
    \<or> r = Done 0 \<and> s' = s"
proof -
  obtain qs buf n where k: "core T M s qs" "unqueued (queues M) qs (thread_self s)" "M mq = Some (buf, n)"
    using assms(1,2) by (auto simp: kernel_ok_def)
  show ?thesis
  proof (cases "length (contents s mq) < n")
    case True
    from do_send_room [OF k True, of m jam False] assms(3,4) show ?thesis by auto
  next
    case False
    then have "length (contents s mq) = n" using length_contents(1) [OF k(1,3)] by simp
    then show ?thesis using do_send_full [OF k(1,3)] assms(4) by simp
  qed
qed

lemma drain_no_loss:
  assumes law: "enqueue_law enq" and mq: "mq \<in> dom M"
  shows "kernel_ok T M s \<Longrightarrow> external_messages s = ms \<Longrightarrow>
    mset (contents s mq) + reliable mq ms \<subseteq># mset (contents (drain enq ms s) mq) + reliable mq (external_messages (drain enq ms s))"
proof (induction ms arbitrary: s)
  case (Cons m ms)
  let ?s = "s\<lparr>external_messages := ms, external_pending := external_pending s - 1\<rparr>"
  obtain r s1 where x: "do_send (q_mq m) (q_mesg m) (q_jam m) False ?s = (r, s1)" by fastforce
  note tk = take_ok [OF Cons.prems]
  have c0: "contents ?s mq = contents s mq" by (simp add: contents_def slot_def)
  have ok1: "kernel_ok T M s1" using deliver_one_ok [OF Cons.prems] x by (simp add: deliver_one_def)
  have ext: "external_messages s1 = ms" using external_send [of "q_mq m" "q_mesg m" "q_jam m" ?s] x by simp
  note IH = Cons.IH [OF ok1 ext]
  from send_nb_contents [OF tk mq x] c0 consider
    (sent) "r = Done 1" "mset (contents s1 mq) = (if mq = q_mq m then {#q_mesg m#} else {#}) + mset (contents s mq)"
    | (full) "r = Done 0" "s1 = ?s" by auto
  then show ?case
  proof cases
    case sent
    then have "mset (contents s mq) + reliable mq (m # ms) \<subseteq># mset (contents s1 mq) + reliable mq ms"
      by (simp add: reliable_simps)
    with IH have "mset (contents s mq) + reliable mq (m # ms)
        \<subseteq># mset (contents (drain enq ms s1) mq) + reliable mq (external_messages (drain enq ms s1))" by (rule subset_mset.order_trans [rotated])
    then show ?thesis using sent(1) x by (simp add: Let_def)
  next
    case full
    show ?thesis
    proof (cases "q_coalescible m")
      case True
      then show ?thesis using full x IH c0 by (simp add: Let_def reliable_simps)
    next
      case False
      then show ?thesis using full x reliable_enq [OF law] c0 by (simp add: Let_def contents_def slot_def)
    qed
  qed
qed simp

section \<open>Scheduling order\<close>

lemma check_priority:
  assumes core: "core T M s qs" and self: "unqueued (queues M) qs (thread_self s)" and w: "safe_wait T M w"
    and c: "check_running_queue r w s = (x, s')" and v: "v \<in> T"
  shows "priority s' v = priority s v"
proof -
  show ?thesis
  proof (cases "qs running_queue")
    case Nil
    then show ?thesis using c queue_empty_iff [OF core, of running_queue] by (simp add: check_running_queue_def)
  next
    case (Cons t ts)
    have "thread_self s \<notin> set (qs running_queue)" using self by (simp add: unqueued_def)
    from pop_running [OF core Cons this] obtain s1 where s1: "thread_queue_pop running_queue s = (t, s1)"
      "core T M s1 (qs(running_queue := ts))" "same_rest T (queues M) s s1" "\<forall>u \<in> T. priority s1 u = priority s u" by metis
    have self1: "thread_self s1 = thread_self s" using s1(3) by (simp add: same_rest_def)
    have "unqueued (queues M) (qs(running_queue := ts)) (thread_self s1)" using unqueued_shrink [OF self Cons] self1 by simp
    note sch = core_schedule(3) [OF s1(2) coreD(5) [OF s1(2)] this disjI1 [OF refl]]
    have "s' = s \<or> mem s' = mem (schedule_running_thread (thread_self s1) s1)"
      using c s1(1) self1 queue_peek [OF core, of running_queue] Cons
      by (auto simp: check_running_queue_def swap_to_thread_def resume_thread_and_wait_def schedule_running_thread_def Let_def split: if_splits)
    then show ?thesis using sch s1(4) v by (auto simp: priority_def)
  qed
qed

text \<open>After \<^verbatim>\<open>check_running_queue\<close> no thread that is ready to run outranks the one that runs.\<close>

lemma check_max:
  assumes ok: "kernel_ok T M s" and w: "safe_wait T M w" and c: "check_running_queue r w s = (x, s')"
    and u: "u \<in> set (qlist s' running_queue)"
  shows "priority s' u \<le> priority s' (thread_self s')"
proof -
  obtain qs where qs: "core T M s qs" "unqueued (queues M) qs (thread_self s)" using ok by (auto simp: kernel_ok_def)
  note ck = core_check [OF qs w, where r = r]
  show ?thesis
  proof (cases "\<forall>u \<in> set (qs running_queue). priority s u \<le> priority s (thread_self s)")
    case True
    then show ?thesis using ck(1) c u qlist_eq [OF coreD(2) [OF qs(1)], of running_queue] by simp
  next
    case False
    then obtain t ts where r: "qs running_queue = t # ts" by (cases "qs running_queue") auto
    with False have hi: "priority s t > priority s (thread_self s)" using running_sorted [OF qs(1) r] by force
    from ck(2) [OF r hi] c have s': "core T M s' (qs(running_queue := pri_insert (priority s) (thread_self s) ts))" "thread_self s' = t"
      by auto
    have "u \<in> insert (thread_self s) (set ts)" using u qlist_eq [OF coreD(2) [OF s'(1)], of running_queue] by simp
    then have le: "priority s u \<le> priority s t" using hi running_sorted [OF qs(1) r, of u] r by auto
    have T: "u \<in> T" "t \<in> T"
      using \<open>u \<in> insert (thread_self s) (set ts)\<close> coreD(5) [OF qs(1)] queued_in [OF coreD(2) [OF qs(1)], of running_queue] r by auto
    have "priority s' v = priority s v" if "v \<in> T" for v using check_priority [OF qs w c that] .
    with le T s'(2) show ?thesis by simp
  qed
qed

end
