(* ===== verification/KernelProps.thy ===== *)
theory KernelProps
  imports KernelSpecs
begin

text \<open>
  The properties of the kernel: its invariant over every sequence of calls, posts and guest
  stores, the errors that cannot occur, the order in which threads run, and the contracts of
  thread and message queues. The witnesses use a small kernel with three threads and one queue.
\<close>

section \<open>A small kernel\<close>

definition demo_T :: "u32 set" where "demo_T = {0x80001100, 0x80001200, 0x80001300}"

definition demo_M :: mqs where "demo_M = [0x80004000 \<mapsto> (0x80005000, 2)]"

text \<open>Thread 1 runs, thread 2 (priority 20) was created and not yet started, thread 3 does not exist.\<close>

definition demo :: os where
  "demo = \<lparr>running_queue_impl = 0,
     mem = (\<lambda>_. 0)(0x80004010 := 2, 0x80004014 := 0x80005000, 0x80001104 := 10, 0x80001112 := RUNNING, 0x80001204 := 20),
     thread_self = 0x80001100, ctx = (\<lambda>_. 0)(0x80001100 := 1, 0x80001200 := 2), parked = [0x80001200 \<mapsto> (2, WEntry)],
     external_messages = [], external_pending = 0, external_requeues = 0, should_yield = False, preempt_skip_budget = 0\<rparr>"

lemma demo_queues: "queues demo_M = {0x80004000, 0x80004004}"
  by (auto simp: queues_def demo_M_def)

lemma demo_ring: "ring 0x80005000 2 = {0x80005000, 0x80005004}"
proof -
  have "{..<2} = {0, 1 :: nat}" by auto
  then show ?thesis by (simp add: ring_def)
qed

lemma demo_threads: "layout demo_T (queues demo_M)"
  by (simp add: demo_queues layout_def demo_T_def tcells_def valid_thread_ptr_def guard_limit_def)

lemma demo_kcells: "kcells demo_T (queues demo_M) = tcells 0x80001100 \<union> tcells 0x80001200 \<union> tcells 0x80001300 \<union> {0x80004000, 0x80004004}"
  by (simp add: kcells_def demo_queues demo_T_def Un_assoc)

lemma demo_layout: "sys_layout demo_T demo_M"
  unfolding sys_layout_def demo_kcells
  using demo_threads by (simp add: demo_M_def kseg0_def mqfields_def demo_ring tcells_def)

lemma demo_core: "core demo_T demo_M demo (\<lambda>_. [])"
proof -
  have "kernel_inv demo_T (queues demo_M) demo (\<lambda>_. [])"
    using demo_threads
    by (simp add: kernel_inv_def qok_def demo_queues queue_to_ptr_def running_queue_def demo_def)
  moreover have "back_ok demo_T (queues demo_M) demo (\<lambda>_. [])"
    by (simp add: back_ok_def demo_T_def demo_def)
  ultimately show ?thesis using demo_layout
    by (simp add: core_def mq_ok_def waits_ok_def demo_def demo_T_def demo_M_def)
qed

lemma demo_ok: "kernel_ok demo_T demo_M demo"
  using demo_core by (auto simp: kernel_ok_def unqueued_def)

lemma tail_enqueue: "enqueue_law (\<lambda>m q. q @ [m])"
  by (simp add: enqueue_law_def)

text \<open>The small kernel after thread 2 was put into the running queue.\<close>

definition demo_ready :: os where
  "demo_ready = schedule_running_thread 0x80001200 demo"

lemma demo_ready_core: "core demo_T demo_M demo_ready ((\<lambda>_. [])(running_queue := [0x80001200]))"
  "same_rest demo_T (queues demo_M) demo demo_ready"
proof -
  have a: "0x80001200 \<in> demo_T" "unqueued (queues demo_M) (\<lambda>_. []) 0x80001200" by (simp_all add: demo_T_def unqueued_def)
  have "ctx demo 0x80001200 \<noteq> 0 \<and> (\<exists>w. parked demo 0x80001200 = Some (ctx demo 0x80001200, w))" by (simp add: demo_def)
  from core_schedule [OF demo_core a disjI2 [OF this]]
  show "core demo_T demo_M demo_ready ((\<lambda>_. [])(running_queue := [0x80001200]))" "same_rest demo_T (queues demo_M) demo demo_ready"
    by (simp_all add: demo_ready_def pri_insert_def)
qed

lemma demo_ready_ok: "kernel_ok demo_T demo_M demo_ready"
  using demo_ready_core by (auto simp: kernel_ok_def unqueued_def same_rest_def demo_def intro!: exI [of _ "(\<lambda>_. [])(running_queue := [0x80001200])"])

lemma demo_ready_qlist: "qlist demo_ready running_queue = [0x80001200]"
  using qlist_eq [OF coreD(2) [OF demo_ready_core(1)], of running_queue] by simp

text \<open>The small kernel with thread 2 ready and the message queue full.\<close>

lemma demo_full:
  obtains s where "core demo_T demo_M s ((\<lambda>_. [])(running_queue := [0x80001200]))" "contents s 0x80004000 = [1, 2]"
    "unqueued (queues demo_M) ((\<lambda>_. [])(running_queue := [0x80001200])) (thread_self s)"
proof -
  let ?qs = "(\<lambda>_. [])(running_queue := [0x80001200])"
  have M: "demo_M 0x80004000 = Some (0x80005000, 2)" by (simp add: demo_M_def)
  have self: "thread_self demo_ready = 0x80001100" using demo_ready_core(2) by (simp add: same_rest_def demo_def)
  have u: "unqueued (queues demo_M) ?qs (thread_self demo_ready)" by (simp add: unqueued_def self)
  have w: "woken s (f_recv 0x80004000) ?qs = ?qs" for s by (simp add: woken_def running_queue_def)
  have c: "contents demo_ready 0x80004000 = []"
    using rest_mq(1) [OF demo_core demo_ready_core(2) M] by (simp add: contents_def demo_def)
  obtain s1 where s1: "core demo_T demo_M s1 ?qs" "unqueued (queues demo_M) ?qs (thread_self s1)" "contents s1 0x80004000 = [1]"
    using do_send_room [OF demo_ready_core(1) u M, of 1 False False] c w by auto
  obtain s2 where "core demo_T demo_M s2 ?qs" "unqueued (queues demo_M) ?qs (thread_self s2)" "contents s2 0x80004000 = [1, 2]"
    using do_send_room [OF s1(1,2) M, of 2 False False] s1(3) w by auto
  with that show thesis by blast
qed

section \<open>The invariant\<close>








text \<open>
  C14. The kernel invariant holds in every reachable state: whatever calls the guest makes, with
  structures of the layout and threads in the state the call expects, and whatever host threads
  post in between, the thread queues stay well-formed priority queues, each thread is in at most
  one of them and its \<open>queue\<close> field says which, the running thread is in none, every queued
  thread has a live context and waits where its queue says, and every message queue has its
  indices in range.
\<close>
theorem kernel_invariant:
  assumes "enqueue_law enq" and "kernel_ok T M s" and "(kstep enq T M)\<^sup>*\<^sup>* s s'"
  shows "kernel_ok T M s'"
  using reachable_ok [OF assms] .

theorem kernel_invariant_witness:
  "kernel_ok demo_T demo_M (upd 0x80006000 5 (demo\<lparr>should_yield := True\<rparr>))"
proof (rule kernel_invariant [OF tail_enqueue demo_ok])
  have "0x80006000 \<notin> protected demo_T demo_M"
    unfolding protected_def demo_kcells by (simp add: demo_M_def mqfields_def demo_ring tcells_def)
  then have "kstep (\<lambda>m q. q @ [m]) demo_T demo_M (demo\<lparr>should_yield := True\<rparr>) (upd 0x80006000 5 (demo\<lparr>should_yield := True\<rparr>))"
    by (rule kstep.store)
  with kstep.monitor [of "\<lambda>m q. q @ [m]" demo_T demo_M demo]
  show "(kstep (\<lambda>m q. q @ [m]) demo_T demo_M)\<^sup>*\<^sup>* demo (upd 0x80006000 5 (demo\<lparr>should_yield := True\<rparr>))"
    by (meson converse_rtranclp_into_rtranclp r_into_rtranclp)
qed

text \<open>
  C15. In a state with the invariant a system call raises nothing but \<^verbatim>\<open>No runnable threads
  remain!\<close>: no null context is dereferenced, no remainder by zero is taken and no assertion fails.
\<close>
theorem calls_raise_only_no_runnable:
  assumes "enqueue_law enq" and "kernel_ok T M s" and "parked s (thread_self s) = None" and "allowed T M s k"
    and "call enq k s = (Raised e, s')"
  shows "e = NoRunnable"
  using call_good [OF assms(1-4)] assms(5) by simp

theorem calls_raise_only_no_runnable_witness:
  "call (\<lambda>m q. q @ [m]) Stop demo = (Raised NoRunnable, demo) \<and> NoRunnable = NoRunnable"
proof -
  have r: "call (\<lambda>m q. q @ [m]) Stop demo = (Raised NoRunnable, demo)"
    by (simp add: osStopThread_def run_next_thread_and_wait_def run_next_thread_def thread_queue_empty_def queue_to_ptr_def demo_def)
  have "parked demo (thread_self demo) = None" "allowed demo_T demo_M demo Stop" by (simp_all add: demo_def)
  from calls_raise_only_no_runnable [OF tail_enqueue demo_ok this r] r show ?thesis by simp
qed



section \<open>Scheduling\<close>

text \<open>
  C17. After \<^verbatim>\<open>check_running_queue\<close> the thread that runs has at least the priority of every thread
  in the running queue, whether the processor was handed over or not.
\<close>
theorem scheduler_runs_highest:
  assumes "kernel_ok T M s" and "safe_wait T M w" and "u \<in> set (qlist (snd (check_running_queue r w s)) running_queue)"
  shows "priority (snd (check_running_queue r w s)) u
    \<le> priority (snd (check_running_queue r w s)) (thread_self (snd (check_running_queue r w s)))"
  using check_max [OF assms(1,2) surjective_pairing assms(3)] .

theorem scheduler_runs_highest_witness:
  "thread_self (snd (check_running_queue 0 (WReturn 0) demo_ready)) = 0x80001200
    \<and> 0x80001100 \<in> set (qlist (snd (check_running_queue 0 (WReturn 0) demo_ready)) running_queue)
    \<and> priority (snd (check_running_queue 0 (WReturn 0) demo_ready)) 0x80001100
      \<le> priority (snd (check_running_queue 0 (WReturn 0) demo_ready)) (thread_self (snd (check_running_queue 0 (WReturn 0) demo_ready)))"
proof -
  let ?qs = "(\<lambda>_. [])(running_queue := [0x80001200])"
  have self: "thread_self demo_ready = 0x80001100" using demo_ready_core(2) by (simp add: same_rest_def demo_def)
  have "unqueued (queues demo_M) ?qs (thread_self demo_ready)" by (simp add: unqueued_def self)
  moreover have "\<forall>t \<in> demo_T. priority demo_ready t = priority demo t"
    unfolding demo_ready_def
    by (rule core_schedule(3) [OF demo_core]) (simp_all add: demo_T_def unqueued_def demo_def)
  then have pr: "priority demo_ready 0x80001200 > priority demo_ready (thread_self demo_ready)"
    by (simp add: self demo_T_def) (simp add: priority_def demo_def)
  ultimately obtain s' where s': "check_running_queue 0 (WReturn 0) demo_ready = (Parked, s')" "thread_self s' = 0x80001200"
    "core demo_T demo_M s' (?qs(running_queue := pri_insert (priority demo_ready) (thread_self demo_ready) []))"
    using core_check(2) [OF demo_ready_core(1), where w = "WReturn 0" and t = "0x80001200" and ts = "[]" and r = 0] by fastforce
  have "0x80001100 \<in> set (qlist s' running_queue)"
    using qlist_eq [OF coreD(2) [OF s'(3)], of running_queue] self by simp
  with s'(1,2) scheduler_runs_highest [OF demo_ready_ok, of "WReturn 0" "0x80001100" 0] show ?thesis by simp
qed

section \<open>Thread queues\<close>

lemma remove_scan_self: "thread_self (snd (remove_scan n t l s)) = thread_self s"
  by (induction n arbitrary: l) (simp_all add: Let_def)

lemma destroy_gone:
  assumes ok: "kernel_ok T M s" and t: "t \<in> T" "t \<noteq> thread_self s"
  shows "fst (osDestroyThread t s) = Done 0 \<and> ctx (snd (osDestroyThread t s)) t = 0
    \<and> (\<forall>q \<in> insert running_queue (queues M). t \<notin> set (qlist (snd (osDestroyThread t s)) q))"
proof -
  have "good T M (osDestroyThread t s)" by (rule destroy_good [OF assms])
  obtain qs0 where "core T M s qs0" using ok by (auto simp: kernel_ok_def)
  then have "t \<noteq> 0" using t kernel_invD(1) [OF coreD(2)] by (fastforce simp: layout_def dest: valid_nonzero)
  then have d: "fst (osDestroyThread t s) = Done 0" "ctx (snd (osDestroyThread t s)) t = 0" "thread_self (snd (osDestroyThread t s)) = thread_self s"
    using t by (simp_all add: osDestroyThread_def thread_queue_remove_def remove_scan_self Let_def)
  with \<open>good T M (osDestroyThread t s)\<close> have "kernel_ok T M (snd (osDestroyThread t s))" by (cases "osDestroyThread t s") simp
  then obtain qs where qs: "core T M (snd (osDestroyThread t s)) qs" by (auto simp: kernel_ok_def)
  have "t \<notin> set (qs q)" if q: "q \<in> insert running_queue (queues M)" for q
    using waits_okD(1) [OF coreD(4) [OF qs] q, of t] d t by auto
  then show ?thesis using d qlist_eq [OF coreD(2) [OF qs]] by simp
qed

lemma demo_queues_ok: "queues_ok demo_T (queues demo_M) demo" "qlist demo q = [] \<or> q \<notin> insert running_queue (queues demo_M)"
  using queues_okI [OF coreD(2) [OF demo_core]] qlist_eq [OF coreD(2) [OF demo_core]] by auto

text \<open>
  C18. Inserting a thread that is in no queue puts it ahead of the first thread of the queue that
  does not outrank it and leaves every other queue alone.
\<close>
theorem thread_insert_refines:
  assumes "queues_ok T Q s" and "q \<in> insert running_queue Q" and "free_thread T Q s a" and "r \<in> insert running_queue Q"
  shows "queues_ok T Q (thread_queue_insert q a s)
    \<and> qlist (thread_queue_insert q a s) r = (if r = q then pri_insert (priority s) a (qlist s q) else qlist s r)"
  using insert_qlist [OF assms(1-3)] assms(4) by simp

theorem thread_insert_refines_witness:
  "qlist (thread_queue_insert running_queue 0x80001300 demo_ready) running_queue = [0x80001200, 0x80001300]"
proof -
  have ok: "queues_ok demo_T (queues demo_M) demo_ready" by (rule queues_okI [OF coreD(2) [OF demo_ready_core(1)]])
  have "qlist demo_ready q = ((\<lambda>_. [])(running_queue := [0x80001200])) q" if "q \<in> insert running_queue (queues demo_M)" for q
    by (rule qlist_eq [OF coreD(2) [OF demo_ready_core(1)] that])
  then have "free_thread demo_T (queues demo_M) demo_ready 0x80001300" by (simp add: free_thread_def demo_T_def unqueued_def demo_queues)
  from thread_insert_refines [OF ok _ this, of running_queue running_queue]
  have "qlist (thread_queue_insert running_queue 0x80001300 demo_ready) running_queue
      = pri_insert (priority demo_ready) 0x80001300 [0x80001200]" by (simp add: demo_ready_qlist)
  moreover have "\<forall>t \<in> demo_T. priority demo_ready t = priority demo t"
    unfolding demo_ready_def by (rule core_schedule(3) [OF demo_core]) (simp_all add: demo_T_def unqueued_def demo_def)
  then have "priority demo_ready 0x80001200 > priority demo_ready 0x80001300"
    by (simp add: demo_T_def) (simp add: priority_def demo_def)
  ultimately show ?thesis by (simp add: pri_insert_def)
qed

text \<open>
  Popping a queue hands out a thread of highest priority, and popping it until it is empty
  hands out all of them in descending priority.
\<close>
theorem thread_pop_highest:
  assumes "queues_ok T Q s" and "q \<in> insert running_queue Q" and "u \<in> set (qlist s q)"
  shows "fst (thread_queue_pop q s) \<in> set (qlist s q) \<and> priority s u \<le> priority s (fst (thread_queue_pop q s))
    \<and> fst (tq.drain_all (length (qlist s q)) q s) = qlist s q \<and> sorted_wrt (\<lambda>x y. priority s x \<ge> priority s y) (qlist s q)"
  using tq.pop_max [OF assms] tq.drain_all_elems [OF assms(1,2)] tq.sorted [OF assms(1,2)] by blast

theorem thread_pop_highest_witness:
  "fst (thread_queue_pop running_queue demo_ready) \<in> set (qlist demo_ready running_queue)"
  using thread_pop_highest [OF queues_okI [OF coreD(2) [OF demo_ready_core(1)]], of running_queue "0x80001200"] demo_ready_qlist by simp

text \<open>
  Destroying another thread takes it out of every queue and clears its context, so the
  scheduler can never pick it.
\<close>
theorem destroyed_thread_gone:
  assumes "kernel_ok T M s" and "t \<in> T" and "t \<noteq> thread_self s"
  shows "fst (osDestroyThread t s) = Done 0 \<and> ctx (snd (osDestroyThread t s)) t = 0
    \<and> (\<forall>q \<in> insert running_queue (queues M). t \<notin> set (qlist (snd (osDestroyThread t s)) q))"
  using destroy_gone [OF assms] .

theorem destroyed_thread_gone_witness:
  "fst (osDestroyThread 0x80001200 demo_ready) = Done 0
    \<and> 0x80001200 \<notin> set (qlist (snd (osDestroyThread 0x80001200 demo_ready)) running_queue)"
proof -
  have "thread_self demo_ready = 0x80001100" using demo_ready_core(2) by (simp add: same_rest_def demo_def)
  then show ?thesis using destroyed_thread_gone [OF demo_ready_ok, of "0x80001200"] by (simp add: demo_T_def)
qed

section \<open>Message queues\<close>

lemma send_wakes:
  assumes "core T M s qs" and "unqueued (queues M) qs (thread_self s)" and M: "M mq = Some (buf, n)" and "length (contents s mq) < n"
  shows "\<exists>s'. do_send mq m jam block s = (Done 1, s')
    \<and> contents s' mq = (if jam then m # contents s mq else contents s mq @ [m])
    \<and> (\<forall>mq' \<in> dom M. mq' \<noteq> mq \<longrightarrow> contents s' mq' = contents s mq')
    \<and> (\<forall>t ts. qs (f_recv mq) = t # ts \<longrightarrow> qlist s' (f_recv mq) = ts
         \<and> qlist s' running_queue = pri_insert (priority s) t (qs running_queue))"
proof -
  from do_send_room [OF assms, of m jam block] obtain s' where s': "do_send mq m jam block s = (Done 1, s')"
    "core T M s' (woken s (f_recv mq) qs)" "contents s' mq = (if jam then m # contents s mq else contents s mq @ [m])"
    "\<forall>mq' \<in> dom M. mq' \<noteq> mq \<longrightarrow> contents s' mq' = contents s mq'" by blast
  have q: "f_recv mq \<in> queues M" using queues_memb(1) [of mq M] M by (simp add: domI)
  have "f_recv mq \<noteq> running_queue" using layout_running [OF kernel_invD(1) [OF coreD(2) [OF assms(1)]] q] .
  then have "qlist s' (f_recv mq) = ts \<and> qlist s' running_queue = pri_insert (priority s) t (qs running_queue)"
    if "qs (f_recv mq) = t # ts" for t ts
    using qlist_eq [OF coreD(2) [OF s'(2)]] q that by (simp add: woken_def)
  with s'(1,3,4) show ?thesis by blast
qed

lemma send_parks:
  assumes core: "core T M s qs" and self: "unqueued (queues M) qs (thread_self s)" and M: "M mq = Some (buf, n)"
    and full: "length (contents s mq) = n" and r: "qs running_queue = t # ts"
  shows "\<exists>s'. do_send mq m jam True s = (Parked, s') \<and> thread_self s' = t
    \<and> parked s' (thread_self s) = Some (ctx s (thread_self s), WSend mq m jam)
    \<and> qlist s' (f_send mq) = pri_insert (priority s) (thread_self s) (qs (f_send mq)) \<and> contents s' mq = contents s mq"
proof -
  have mq: "mq \<in> dom M" using M by blast
  then have q: "f_send mq \<in> queues M" "f_send mq \<in> insert running_queue (queues M)" by simp_all
  have qr: "f_send mq \<noteq> running_queue" using layout_running [OF kernel_invD(1) [OF coreD(2) [OF core]] q(1)] .
  note ins = core_insert [OF core q(2) coreD(5) [OF core] self disjI1 [OF refl]]
  let ?s = "thread_queue_insert (f_send mq) (thread_self s) s"
  let ?qs = "qs(f_send mq := pri_insert (priority s) (thread_self s) (qs (f_send mq)))"
  have ts: "thread_self ?s = thread_self s" "ctx ?s = ctx s" using ins(2) by (simp_all add: same_rest_def)
  have "thread_self ?s \<notin> set (?qs running_queue)" using self qr ts by (simp add: unqueued_def)
  moreover have "\<forall>r \<in> insert running_queue (queues M). thread_self ?s \<in> set (?qs r) \<longrightarrow> good_wait M r (WSend mq m jam)"
    using self ts mq by (auto simp: unqueued_def good_wait_def)
  ultimately obtain s' where s': "run_next_thread_and_wait (WSend mq m jam) ?s = (Parked, s')" "core T M s' (?qs(running_queue := ts))"
    "thread_self s' = t" "\<forall>a. a \<notin> kcells T (queues M) \<longrightarrow> mem s' a = mem ?s a"
    using core_run_next(2) [OF ins(1), of "WSend mq m jam" t ts] mq r qr by auto
  have "parked s' (thread_self s) = Some (ctx s (thread_self s), WSend mq m jam)"
    using s'(1) ts by (auto simp: run_next_thread_and_wait_def Let_def split: prod.splits outcome.splits)
  moreover have "qlist s' (f_send mq) = pri_insert (priority s) (thread_self s) (qs (f_send mq))"
    using qlist_eq [OF coreD(2) [OF s'(2)] q(2)] qr by simp
  moreover have "contents s' mq = contents s mq"
  proof -
    have "\<forall>x \<in> mqfields mq \<union> ring buf n. mem s' x = mem s x"
      using sys_layoutD(6,7) [OF coreD(1) [OF core] M] s'(4) ins(2) unfolding same_rest_def by (metis Un_iff)
    from contents_cong(1) [OF coreD(3) [OF core M] sys_layoutD(4,5) [OF coreD(1) [OF core] M] this] show ?thesis .
  qed
  moreover have "do_send mq m jam True s = run_next_thread_and_wait (WSend mq m jam) ?s"
    using length_contents(2,4) [OF core M] full by (simp add: do_send_def send_loop_def)
  ultimately show ?thesis using s'(1,3) by auto
qed


lemma demo_fifo: "fifo_ok demo_T demo_M 0x80004000 0x80006000 demo" "contents demo 0x80004000 = []"
proof -
  have "0x80006000 \<notin> protected demo_T demo_M"
    unfolding protected_def demo_kcells by (simp add: demo_M_def mqfields_def demo_ring tcells_def)
  then show "fifo_ok demo_T demo_M 0x80004000 0x80006000 demo"
    using demo_ok by (simp add: fifo_ok_def demo_M_def safe_ptr_def)
  show "contents demo 0x80004000 = []" by (simp add: contents_def demo_def)
qed


text \<open>
  C22. A send into a queue with room stores the message behind the others (a jam in front), changes
  no other queue, and if a thread is blocked on receiving, moves the first one to its place in
  the running queue: no wake-up is lost.
\<close>
theorem send_stores_and_wakes:
  assumes "core T M s qs" and "unqueued (queues M) qs (thread_self s)" and "M mq = Some (buf, n)" and "length (contents s mq) < n"
  shows "\<exists>s'. do_send mq m jam block s = (Done 1, s')
    \<and> contents s' mq = (if jam then m # contents s mq else contents s mq @ [m])
    \<and> (\<forall>mq' \<in> dom M. mq' \<noteq> mq \<longrightarrow> contents s' mq' = contents s mq')
    \<and> (\<forall>t ts. qs (f_recv mq) = t # ts \<longrightarrow> qlist s' (f_recv mq) = ts
         \<and> qlist s' running_queue = pri_insert (priority s) t (qs running_queue))"
  using send_wakes [OF assms] .

theorem send_stores_and_wakes_witness:
  "\<exists>s'. do_send 0x80004000 9 False True demo = (Done 1, s') \<and> contents s' 0x80004000 = [9]"
  using send_stores_and_wakes [OF demo_core, of "0x80004000" "0x80005000" 2 9 False True] demo_fifo(2)
  by (auto simp: unqueued_def demo_M_def)

text \<open>
  A blocking send into a full queue parks the running thread in the queue of blocked senders
  and runs the next ready thread; the message is kept in the parked thread and the queue is
  not changed.
\<close>
theorem send_full_parks:
  assumes "core T M s qs" and "unqueued (queues M) qs (thread_self s)" and "M mq = Some (buf, n)" and "length (contents s mq) = n"
    and "qs running_queue = t # ts"
  shows "\<exists>s'. do_send mq m jam True s = (Parked, s') \<and> thread_self s' = t
    \<and> parked s' (thread_self s) = Some (ctx s (thread_self s), WSend mq m jam)
    \<and> qlist s' (f_send mq) = pri_insert (priority s) (thread_self s) (qs (f_send mq))
    \<and> contents s' mq = contents s mq"
  using send_parks [OF assms] .

theorem send_full_parks_witness:
  "\<exists>s s'. contents s 0x80004000 = [1, 2] \<and> do_send 0x80004000 3 False True s = (Parked, s') \<and> thread_self s' = 0x80001200
    \<and> contents s' 0x80004000 = [1, 2]"
proof -
  obtain s where s: "core demo_T demo_M s ((\<lambda>_. [])(running_queue := [0x80001200]))" "contents s 0x80004000 = [1, 2]"
    "unqueued (queues demo_M) ((\<lambda>_. [])(running_queue := [0x80001200])) (thread_self s)" using demo_full .
  have "demo_M 0x80004000 = Some (0x80005000, 2)" by (simp add: demo_M_def)
  from send_full_parks [OF s(1,3) this, of "0x80001200" "[]" 3 False] s(2) show ?thesis by auto
qed

section \<open>Events from host threads\<close>

lemma wait_drops:
  assumes core: "core T M s qs" and M: "M (q_mq m) = Some (buf, n)" and full: "length (contents s (q_mq m)) = n"
    and ext: "external_messages s = m # ms"
  shows "\<exists>s'. wait_for_external_message s = Some s' \<and> external_messages s' = ms \<and> contents s' (q_mq m) = contents s (q_mq m)"
proof -
  let ?s = "s\<lparr>external_messages := ms, external_pending := external_pending s - 1\<rparr>"
  have c: "core T M ?s qs" using coreD(7,8) [OF core] ext by (intro core_external [OF core]) simp_all
  have cont: "contents ?s mq = contents s mq" for mq by (simp add: contents_def slot_def)
  have "do_send (q_mq m) (q_mesg m) (q_jam m) False ?s = (Done 0, ?s)" using do_send_full [OF c M] full cont by simp
  then show ?thesis using ext cont by (simp add: wait_for_external_message_def deliver_one_def)
qed

text \<open>
  C24. Draining the external queue loses no reliable message: each one is in its message queue
  afterwards or still waits in the external queue, and no message that was in a message queue
  disappears.
\<close>
theorem reliable_never_lost:
  assumes "enqueue_law enq" and "kernel_ok T M s" and "mq \<in> dom M"
  shows "mset (contents s mq) + reliable mq (external_messages s)
    \<subseteq># mset (contents (dequeue_external_messages enq s) mq) + reliable mq (external_messages (dequeue_external_messages enq s))"
  unfolding dequeue_external_messages_def by (rule drain_no_loss [OF assms(1,3,2) refl])

definition demo_event :: qmsg where
  "demo_event = \<lparr>q_mq = 0x80004000, q_mesg = 5, q_jam = False, q_coalescible = False\<rparr>"

lemma demo_posted_ok: "kernel_ok T M s \<Longrightarrow> 0x80004000 \<in> dom M \<Longrightarrow> kernel_ok T M (s\<lparr>external_messages := [demo_event], external_pending := 1\<rparr>)"
  by (rule external_ok) (simp_all add: demo_event_def)

theorem reliable_never_lost_witness:
  "reliable 0x80004000 [demo_event] = {#5#}
    \<and> {#5#} \<subseteq># mset (contents (dequeue_external_messages (\<lambda>m q. q @ [m]) (demo\<lparr>external_messages := [demo_event], external_pending := 1\<rparr>)) 0x80004000)
      + reliable 0x80004000 (external_messages (dequeue_external_messages (\<lambda>m q. q @ [m]) (demo\<lparr>external_messages := [demo_event], external_pending := 1\<rparr>)))"
proof -
  have d: "0x80004000 \<in> dom demo_M" by (simp add: demo_M_def)
  have r: "reliable 0x80004000 [demo_event] = {#5#}" by (simp add: reliable_simps demo_event_def)
  from reliable_never_lost [OF tail_enqueue demo_posted_ok [OF demo_ok d] d]
  show ?thesis using r demo_fifo(2) by (simp add: contents_def)
qed

text \<open>
  C25. \<^verbatim>\<open>wait_for_external_message\<close> does not look at the result of the send: when the target queue is
  full, the message it took from the external queue is gone, reliable or not.
\<close>
theorem waiting_loses_reliable:
  assumes "core T M s qs" and "M (q_mq m) = Some (buf, n)" and "length (contents s (q_mq m)) = n"
    and "external_messages s = m # ms" and "\<not> q_coalescible m"
  shows "\<exists>s'. wait_for_external_message s = Some s' \<and> external_messages s' = ms \<and> contents s' (q_mq m) = contents s (q_mq m)"
  using wait_drops [OF assms(1-4)] .

theorem waiting_loses_reliable_witness:
  "\<exists>s s'. contents s 0x80004000 = [1, 2] \<and> external_messages s = [demo_event] \<and> wait_for_external_message s = Some s'
    \<and> external_messages s' = [] \<and> contents s' 0x80004000 = [1, 2]"
proof -
  obtain s where s: "core demo_T demo_M s ((\<lambda>_. [])(running_queue := [0x80001200]))" "contents s 0x80004000 = [1, 2]"
    "unqueued (queues demo_M) ((\<lambda>_. [])(running_queue := [0x80001200])) (thread_self s)" using demo_full .
  let ?s = "s\<lparr>external_messages := [demo_event], external_pending := 1\<rparr>"
  have c: "core demo_T demo_M ?s ((\<lambda>_. [])(running_queue := [0x80001200]))"
    by (rule core_external [OF s(1)]) (simp_all add: demo_event_def demo_M_def)
  have "contents ?s 0x80004000 = [1, 2]" using s(2) by (simp add: contents_def slot_def)
  with waiting_loses_reliable [OF c, of demo_event "0x80005000" 2 "[]"]
  have "\<exists>s'. wait_for_external_message ?s = Some s' \<and> external_messages s' = [] \<and> contents s' 0x80004000 = [1, 2]"
    by (simp add: demo_event_def demo_M_def)
  moreover have "external_messages ?s = [demo_event]" by simp
  ultimately show ?thesis using \<open>contents ?s 0x80004000 = [1, 2]\<close> by blast
qed

section \<open>Changing the priority of a queued thread\<close>






end
