(* ===== verification/MipsInterp.thy ===== *)
theory MipsInterp
  imports Prelude "HOL-Library.Signed_Division"
begin

text \<open>
  The R4300i interpreter of \<^verbatim>\<open>librecomp/src/mips_interp.cpp\<close>, the fallback for code that was not
  recompiled. What the generated header \<^verbatim>\<open>recomp.h\<close> provides (the \<^verbatim>\<open>MEM_*\<close> accessors and the helpers
  for unaligned access) and the floating-point unit of the host are fields of an environment
  record, memory is an arbitrary type. Logging, tracing and the coverage hooks are left out.
\<close>

record 'm env =
  MEM_B :: "u64 \<Rightarrow> u64 \<Rightarrow> 'm \<Rightarrow> u8"    MEM_BU :: "u64 \<Rightarrow> u64 \<Rightarrow> 'm \<Rightarrow> u8"
  MEM_H :: "u64 \<Rightarrow> u64 \<Rightarrow> 'm \<Rightarrow> u16"   MEM_HU :: "u64 \<Rightarrow> u64 \<Rightarrow> 'm \<Rightarrow> u16"
  MEM_W :: "u64 \<Rightarrow> u64 \<Rightarrow> 'm \<Rightarrow> u32"   MEM_WU :: "u64 \<Rightarrow> u64 \<Rightarrow> 'm \<Rightarrow> u32"
  load_doubleword :: "u64 \<Rightarrow> u64 \<Rightarrow> 'm \<Rightarrow> u64"
  set_B :: "u64 \<Rightarrow> u64 \<Rightarrow> u8 \<Rightarrow> 'm \<Rightarrow> 'm"  set_H :: "u64 \<Rightarrow> u64 \<Rightarrow> u16 \<Rightarrow> 'm \<Rightarrow> 'm"
  set_W :: "u64 \<Rightarrow> u64 \<Rightarrow> u32 \<Rightarrow> 'm \<Rightarrow> 'm" SD :: "u64 \<Rightarrow> u64 \<Rightarrow> u64 \<Rightarrow> 'm \<Rightarrow> 'm"
  do_lwl :: "u64 \<Rightarrow> u64 \<Rightarrow> u64 \<Rightarrow> 'm \<Rightarrow> u64" do_lwr :: "u64 \<Rightarrow> u64 \<Rightarrow> u64 \<Rightarrow> 'm \<Rightarrow> u64"
  do_ldl :: "u64 \<Rightarrow> u64 \<Rightarrow> u64 \<Rightarrow> 'm \<Rightarrow> u64" do_ldr :: "u64 \<Rightarrow> u64 \<Rightarrow> u64 \<Rightarrow> 'm \<Rightarrow> u64"
  do_swl :: "u64 \<Rightarrow> u64 \<Rightarrow> u64 \<Rightarrow> 'm \<Rightarrow> 'm" do_swr :: "u64 \<Rightarrow> u64 \<Rightarrow> u64 \<Rightarrow> 'm \<Rightarrow> 'm"
  do_sdl :: "u64 \<Rightarrow> u64 \<Rightarrow> u64 \<Rightarrow> 'm \<Rightarrow> 'm" do_sdr :: "u64 \<Rightarrow> u64 \<Rightarrow> u64 \<Rightarrow> 'm \<Rightarrow> 'm"
  s_add :: "u32 \<Rightarrow> u32 \<Rightarrow> u32"  s_sub :: "u32 \<Rightarrow> u32 \<Rightarrow> u32"  s_mul :: "u32 \<Rightarrow> u32 \<Rightarrow> u32"  s_div :: "u32 \<Rightarrow> u32 \<Rightarrow> u32"
  d_add :: "u64 \<Rightarrow> u64 \<Rightarrow> u64"  d_sub :: "u64 \<Rightarrow> u64 \<Rightarrow> u64"  d_mul :: "u64 \<Rightarrow> u64 \<Rightarrow> u64"  d_div :: "u64 \<Rightarrow> u64 \<Rightarrow> u64"
  s_sqrt :: "u32 \<Rightarrow> u32"  s_abs :: "u32 \<Rightarrow> u32"  s_neg :: "u32 \<Rightarrow> u32"
  d_sqrt :: "u64 \<Rightarrow> u64"  d_abs :: "u64 \<Rightarrow> u64"  d_neg :: "u64 \<Rightarrow> u64"
  s_of_w :: "u32 \<Rightarrow> u32"  s_of_d :: "u64 \<Rightarrow> u32"  d_of_w :: "u32 \<Rightarrow> u64"  d_of_s :: "u32 \<Rightarrow> u64"
  s_trunc :: "u32 \<Rightarrow> u32"  s_round :: "u32 \<Rightarrow> u32"  s_ceil :: "u32 \<Rightarrow> u32"  s_floor :: "u32 \<Rightarrow> u32"
  w_of_d :: "u64 \<Rightarrow> u32"  d_trunc :: "u64 \<Rightarrow> u64"  d_round :: "u64 \<Rightarrow> u64"  d_ceil :: "u64 \<Rightarrow> u64"  d_floor :: "u64 \<Rightarrow> u64"
  d_lt :: "u64 \<Rightarrow> u64 \<Rightarrow> bool"  d_eq :: "u64 \<Rightarrow> u64 \<Rightarrow> bool"

text \<open>\<^verbatim>\<open>recomp_context\<close>: general and floating-point registers, \<^verbatim>\<open>hi\<close>, \<^verbatim>\<open>lo\<close>, two coprocessor registers; and RDRAM.\<close>

record 'm cpu =
  R :: "u32 \<Rightarrow> u64"
  F :: "u32 \<Rightarrow> u64"
  hi :: u64
  lo :: u64
  cop0_0 :: u32
  cop0_1 :: u32
  rdram :: 'm

definition sx32 :: "u32 \<Rightarrow> u64" where
  "sx32 v = scast v"

definition lo32 :: "u64 \<Rightarrow> u32" where
  "lo32 v = ucast v"

section \<open>Instruction fields\<close>

definition op_of :: "u32 \<Rightarrow> u32" where "op_of insn = drop_bit 26 insn"
definition rs_of :: "u32 \<Rightarrow> u32" where "rs_of insn = drop_bit 21 insn AND 0x1F"
definition rt_of :: "u32 \<Rightarrow> u32" where "rt_of insn = drop_bit 16 insn AND 0x1F"
definition rd_of :: "u32 \<Rightarrow> u32" where "rd_of insn = drop_bit 11 insn AND 0x1F"
definition sa_of :: "u32 \<Rightarrow> u32" where "sa_of insn = drop_bit 6 insn AND 0x1F"
definition fn_of :: "u32 \<Rightarrow> u32" where "fn_of insn = insn AND 0x3F"
definition simm :: "u32 \<Rightarrow> u64" where "simm insn = scast (ucast insn :: u16)"
definition uimm :: "u32 \<Rightarrow> u64" where "uimm insn = ucast (ucast insn :: u16)"

definition setR :: "u32 \<Rightarrow> u64 \<Rightarrow> 'm cpu \<Rightarrow> 'm cpu" where
  "setR i v s = (if i \<noteq> 0 then s\<lparr>R := (R s)(i := v)\<rparr> else s)"

definition setF :: "u32 \<Rightarrow> u64 \<Rightarrow> 'm cpu \<Rightarrow> 'm cpu" where
  "setF i v s = s\<lparr>F := (F s)(i := v)\<rparr>"

text \<open>Writing the low half of a floating-point register (\<^verbatim>\<open>u32l\<close> or \<^verbatim>\<open>fl\<close> of the union) keeps the upper half.\<close>

definition setFl :: "u32 \<Rightarrow> u32 \<Rightarrow> 'm cpu \<Rightarrow> 'm cpu" where
  "setFl i v s = setF i ((F s i AND 0xFFFFFFFF00000000) OR ucast v) s"

definition setm :: "'m \<Rightarrow> 'm cpu \<Rightarrow> 'm cpu" where
  "setm m s = s\<lparr>rdram := m\<rparr>"

text \<open>
  The result of one instruction: done, not implemented (logged, nothing written), or a trap of
  the host: \<^verbatim>\<open>a / b\<close> on \<^verbatim>\<open>int32_t\<close> overflows for the least integer divided by -1.
\<close>

datatype 'm exec_res = Ok "'m cpu" | Unimplemented | HostTrap

section \<open>Instructions other than branches and jumps\<close>

definition s32_div :: "u32 \<Rightarrow> u32 \<Rightarrow> u32" where
  "s32_div a b = word_of_int (sint a sdiv sint b)"

definition s32_mod :: "u32 \<Rightarrow> u32 \<Rightarrow> u32" where
  "s32_mod a b = word_of_int (sint a smod sint b)"

definition exec_special :: "u32 \<Rightarrow> 'm cpu \<Rightarrow> 'm exec_res" where
  "exec_special insn s = (let rs = rs_of insn; rt = rt_of insn; rd = rd_of insn; sa = unat (sa_of insn); f = fn_of insn;
       a = R s rs; b = R s rt; a32 = lo32 a; b32 = lo32 b; v5 = unat (a AND 0x1F); v6 = unat (a AND 0x3F) in
     if f = 0x00 then Ok (setR rd (sx32 (push_bit sa b32)) s)
     else if f = 0x02 then Ok (setR rd (sx32 (drop_bit sa b32)) s)
     else if f = 0x03 then Ok (setR rd (sx32 (signed_drop_bit sa b32)) s)
     else if f = 0x04 then Ok (setR rd (sx32 (push_bit v5 b32)) s)
     else if f = 0x06 then Ok (setR rd (sx32 (drop_bit v5 b32)) s)
     else if f = 0x07 then Ok (setR rd (sx32 (signed_drop_bit v5 b32)) s)
     else if f = 0x10 then Ok (setR rd (hi s) s)
     else if f = 0x11 then Ok (s\<lparr>hi := a\<rparr>)
     else if f = 0x12 then Ok (setR rd (lo s) s)
     else if f = 0x13 then Ok (s\<lparr>lo := a\<rparr>)
     else if f = 0x18 then let p = (scast a32 :: u64) * scast b32 in Ok (s\<lparr>lo := sx32 (lo32 p), hi := sx32 (lo32 (signed_drop_bit 32 p))\<rparr>)
     else if f = 0x19 then let p = (ucast a32 :: u64) * ucast b32 in Ok (s\<lparr>lo := sx32 (lo32 p), hi := sx32 (lo32 (drop_bit 32 p))\<rparr>)
     else if f = 0x1A then
       if b32 \<noteq> 0 then if a32 = 0x80000000 \<and> b32 = 0xFFFFFFFF then HostTrap
         else Ok (s\<lparr>lo := sx32 (s32_div a32 b32), hi := sx32 (s32_mod a32 b32)\<rparr>)
       else Ok s
     else if f = 0x1B then
       if b32 \<noteq> 0 then Ok (s\<lparr>lo := sx32 (a32 div b32), hi := sx32 (a32 mod b32)\<rparr>) else Ok s
     else if f = 0x20 \<or> f = 0x21 then Ok (setR rd (sx32 (a32 + b32)) s)
     else if f = 0x22 \<or> f = 0x23 then Ok (setR rd (sx32 (a32 - b32)) s)
     else if f = 0x24 then Ok (setR rd (a AND b) s)
     else if f = 0x25 then Ok (setR rd (a OR b) s)
     else if f = 0x26 then Ok (setR rd (a XOR b) s)
     else if f = 0x27 then Ok (setR rd (NOT (a OR b)) s)
     else if f = 0x2A then Ok (setR rd (if sint a < sint b then 1 else 0) s)
     else if f = 0x2B then Ok (setR rd (if a < b then 1 else 0) s)
     else if f = 0x2C \<or> f = 0x2D then Ok (setR rd (a + b) s)
     else if f = 0x2E \<or> f = 0x2F then Ok (setR rd (a - b) s)
     else if f = 0x38 then Ok (setR rd (push_bit sa b) s)
     else if f = 0x3A then Ok (setR rd (drop_bit sa b) s)
     else if f = 0x3B then Ok (setR rd (signed_drop_bit sa b) s)
     else if f = 0x3C then Ok (setR rd (push_bit (sa + 32) b) s)
     else if f = 0x3E then Ok (setR rd (drop_bit (sa + 32) b) s)
     else if f = 0x3F then Ok (setR rd (signed_drop_bit (sa + 32) b) s)
     else if f = 0x14 then Ok (setR rd (push_bit v6 b) s)
     else if f = 0x16 then Ok (setR rd (drop_bit v6 b) s)
     else if f = 0x17 then Ok (setR rd (signed_drop_bit v6 b) s)
     else if f = 0x0B then Ok (if b \<noteq> 0 then setR rd a s else s)
     else if f = 0x0A then Ok (if b = 0 then setR rd a s else s)
     else if f \<in> {0x0F, 0x30, 0x31, 0x32, 0x33, 0x34, 0x36} then Ok s
     else Unimplemented)"

text \<open>The compute operations of the floating-point unit, for the formats S, D, W and L.\<close>

definition exec_fpu :: "'m env \<Rightarrow> u32 \<Rightarrow> 'm cpu \<Rightarrow> 'm exec_res" where
  "exec_fpu E insn s = (let fmt = rs_of insn; ft = rt_of insn; fs = rd_of insn; fd = sa_of insn; f = fn_of insn;
       dbl = (fmt = 0x11); fromW = (fmt = 0x14);
       fS = lo32 (F s fs); tS = lo32 (F s ft); fD = F s fs; tD = F s ft;
       x = (if dbl then fD else d_of_s E fS);
       bin = (\<lambda>so dop. if dbl then Ok (setF fd (dop fD tD) s) else Ok (setFl fd (so fS tS) s));
       to_int = (\<lambda>so dop. if dbl then dop fD else d_of_s E (so fS));
       un = (\<lambda>so dop. if dbl then Ok (setF fd (dop fD) s) else Ok (setFl fd (so fS) s)) in
     if f = 0x00 then bin (s_add E) (d_add E)
     else if f = 0x01 then bin (s_sub E) (d_sub E)
     else if f = 0x02 then bin (s_mul E) (d_mul E)
     else if f = 0x03 then bin (s_div E) (d_div E)
     else if f = 0x04 then un (s_sqrt E) (d_sqrt E)
     else if f = 0x05 then un (s_abs E) (d_abs E)
     else if f = 0x06 then un (\<lambda>v. v) (\<lambda>v. v)
     else if f = 0x07 then un (s_neg E) (d_neg E)
     else if f = 0x20 then Ok (setFl fd (if fromW then s_of_w E fS else s_of_d E x) s)
     else if f = 0x21 then Ok (setF fd (if fromW then d_of_w E fS else x) s)
     else if f = 0x24 then Ok (setFl fd (w_of_d E x) s)
     else if f = 0x0D then Ok (setFl fd (w_of_d E (to_int (s_trunc E) (d_trunc E))) s)
     else if f = 0x0C then Ok (setFl fd (w_of_d E (to_int (s_round E) (d_round E))) s)
     else if f = 0x0E then Ok (setFl fd (w_of_d E (to_int (s_ceil E) (d_ceil E))) s)
     else if f = 0x0F then Ok (setFl fd (w_of_d E (to_int (s_floor E) (d_floor E))) s)
     else if f \<ge> 0x30 then let b = (if dbl then tD else d_of_s E tS); lt = d_lt E x b; eq = d_eq E x b; c = f AND 0xF;
         cond = (if c = 0x2 then eq else if c = 0xC then lt else if c = 0xE then lt \<or> eq else if c = 0x1 then False
                 else if c = 0x4 then lt else if c = 0x6 then lt \<or> eq else eq)
       in Ok (s\<lparr>cop0_1 := (if cond then cop0_1 s OR push_bit 23 1 else cop0_1 s AND NOT (push_bit 23 1))\<rparr>)
     else Unimplemented)"

definition exec_cop1 :: "'m env \<Rightarrow> u32 \<Rightarrow> 'm cpu \<Rightarrow> 'm exec_res" where
  "exec_cop1 E insn s = (let fmt = rs_of insn; rt = rt_of insn; fs = rd_of insn in
     if fmt = 0x00 then Ok (setR rt (sx32 (lo32 (F s fs))) s)
     else if fmt = 0x01 then Ok (setR rt (F s fs) s)
     else if fmt = 0x02 then Ok (setR rt (sx32 (cop0_0 s)) s)
     else if fmt = 0x04 then Ok (setFl fs (lo32 (R s rt)) s)
     else if fmt = 0x05 then Ok (setF fs (R s rt) s)
     else if fmt = 0x06 then Ok s
     else if fmt \<in> {0x10, 0x11, 0x14, 0x15} then exec_fpu E insn s
     else Unimplemented)"

definition exec_memory :: "'m env \<Rightarrow> u32 \<Rightarrow> 'm cpu \<Rightarrow> 'm exec_res" where
  "exec_memory E insn s = (let op = op_of insn; rt = rt_of insn; i = simm insn; base = R s (rs_of insn); t = R s rt; m = rdram s in
     if op = 0x20 then Ok (setR rt (scast (MEM_B E i base m)) s)
     else if op = 0x21 then Ok (setR rt (scast (MEM_H E i base m)) s)
     else if op = 0x23 then Ok (setR rt (sx32 (MEM_W E i base m)) s)
     else if op = 0x24 then Ok (setR rt (ucast (MEM_BU E i base m)) s)
     else if op = 0x25 then Ok (setR rt (ucast (MEM_HU E i base m)) s)
     else if op = 0x27 then Ok (setR rt (ucast (MEM_WU E i base m)) s)
     else if op = 0x37 then Ok (setR rt (load_doubleword E base i m) s)
     else if op = 0x28 then Ok (setm (set_B E i base (ucast t) m) s)
     else if op = 0x29 then Ok (setm (set_H E i base (ucast t) m) s)
     else if op = 0x2B then Ok (setm (set_W E i base (lo32 t) m) s)
     else if op = 0x3F then Ok (setm (SD E t i base m) s)
     else if op = 0x22 then Ok (setR rt (do_lwl E t i base m) s)
     else if op = 0x26 then Ok (setR rt (do_lwr E t i base m) s)
     else if op = 0x2A then Ok (setm (do_swl E i base t m) s)
     else if op = 0x2E then Ok (setm (do_swr E i base t m) s)
     else if op = 0x1A then Ok (setR rt (do_ldl E t i base m) s)
     else if op = 0x1B then Ok (setR rt (do_ldr E t i base m) s)
     else if op = 0x2C then Ok (setm (do_sdl E i base t m) s)
     else if op = 0x2D then Ok (setm (do_sdr E i base t m) s)
     else if op = 0x30 then Ok (setR rt (sx32 (MEM_W E i base m)) s)
     else if op = 0x38 then Ok (setR rt 1 (setm (set_W E i base (lo32 t) m) s))
     else if op = 0x2F then Ok s
     else if op = 0x31 then Ok (setFl rt (MEM_WU E i base m) s)
     else if op = 0x35 then Ok (setF rt (load_doubleword E base i m) s)
     else if op = 0x39 then Ok (setm (set_W E i base (lo32 (F s rt)) m) s)
     else if op = 0x3D then Ok (setm (SD E (F s rt) i base m) s)
     else Unimplemented)"

definition exec_noncontrol :: "'m env \<Rightarrow> u32 \<Rightarrow> 'm cpu \<Rightarrow> 'm exec_res" where
  "exec_noncontrol E insn s = (let op = op_of insn; rt = rt_of insn; a = R s (rs_of insn); i = simm insn in
     if op = 0x00 then exec_special insn s
     else if op = 0x08 \<or> op = 0x09 then Ok (setR rt (sx32 (lo32 a + lo32 i)) s)
     else if op = 0x0A then Ok (setR rt (if sint a < sint i then 1 else 0) s)
     else if op = 0x0B then Ok (setR rt (if a < i then 1 else 0) s)
     else if op = 0x0C then Ok (setR rt (a AND uimm insn) s)
     else if op = 0x0D then Ok (setR rt (a OR uimm insn) s)
     else if op = 0x0E then Ok (setR rt (a XOR uimm insn) s)
     else if op = 0x0F then Ok (setR rt (sx32 (push_bit 16 (lo32 (uimm insn)))) s)
     else if op = 0x18 \<or> op = 0x19 then Ok (setR rt (a + i) s)
     else if op = 0x11 then exec_cop1 E insn s
     else if op = 0x10 then Ok s
     else exec_memory E insn s)"

section \<open>Control flow\<close>

definition ifetch :: "'m env \<Rightarrow> 'm \<Rightarrow> u32 \<Rightarrow> u32" where
  "ifetch E m pc = MEM_WU E 0 (sx32 pc) m"

text \<open>
  One turn of the loop of \<^verbatim>\<open>interpret\<close>: go on at a PC, return (with success or failure), call a
  function that was not recompiled and go on behind it, or trap. \<open>native\<close> is the lookup of a
  recompiled function, \<open>ret\<close> the return address on entry.
\<close>

datatype 'm step_res = Next u32 "'m cpu" | Return bool "'m cpu" | Call u32 u32 "'m cpu" | Trap

definition delay :: "'m env \<Rightarrow> u32 \<Rightarrow> 'm cpu \<Rightarrow> ('m cpu \<Rightarrow> 'm step_res) \<Rightarrow> 'm step_res" where
  "delay E pc s k = (case exec_noncontrol E (ifetch E (rdram s) pc) s of Ok s' \<Rightarrow> k s' | Unimplemented \<Rightarrow> Return False s | HostTrap \<Rightarrow> Trap)"

definition branch_target :: "u32 \<Rightarrow> u32 \<Rightarrow> u32" where
  "branch_target pc insn = pc + 4 + push_bit 2 (lo32 (simm insn))"

text \<open>Whether a branch is taken, is likely, and links; \<open>None\<close> for a \<^verbatim>\<open>REGIMM\<close> code that is not implemented.\<close>

definition branch_cond :: "u32 \<Rightarrow> 'm cpu \<Rightarrow> (bool \<times> bool \<times> bool) option" where
  "branch_cond insn s = (let op = op_of insn; a = R s (rs_of insn); b = R s (rt_of insn); sub = rt_of insn in
     if op = 0x01 then
       if sub = 0x00 then Some (sint a < 0, False, False)
       else if sub = 0x01 then Some (sint a \<ge> 0, False, False)
       else if sub = 0x02 then Some (sint a < 0, True, False)
       else if sub = 0x03 then Some (sint a \<ge> 0, True, False)
       else if sub = 0x10 then Some (sint a < 0, False, True)
       else if sub = 0x11 then Some (sint a \<ge> 0, False, True)
       else None
     else if op = 0x04 then Some (a = b, False, False)
     else if op = 0x05 then Some (a \<noteq> b, False, False)
     else if op = 0x06 then Some (sint a \<le> 0, False, False)
     else if op = 0x07 then Some (sint a > 0, False, False)
     else if op = 0x14 then Some (a = b, True, False)
     else if op = 0x15 then Some (a \<noteq> b, True, False)
     else if op = 0x16 then Some (sint a \<le> 0, True, False)
     else Some (sint a > 0, True, False))"

definition do_branch :: "'m env \<Rightarrow> u32 \<Rightarrow> u32 \<Rightarrow> bool \<Rightarrow> bool \<Rightarrow> 'm cpu \<Rightarrow> 'm step_res" where
  "do_branch E pc target taken likely s =
     (if likely then if taken then delay E (pc + 4) s (Next target) else Next (pc + 8) s
      else delay E (pc + 4) s (Next (if taken then target else pc + 8)))"

definition is_branch :: "u32 \<Rightarrow> bool" where
  "is_branch op \<longleftrightarrow> op = 0x01 \<or> op \<ge> 0x04 \<and> op \<le> 0x07 \<or> op \<ge> 0x14 \<and> op \<le> 0x17"

definition step_jump :: "'m env \<Rightarrow> (u32 \<Rightarrow> ('m cpu \<Rightarrow> 'm cpu) option) \<Rightarrow> u32 \<Rightarrow> u32 \<Rightarrow> 'm cpu \<Rightarrow> 'm step_res" where
  "step_jump E native pc insn s = (let
     target = ((pc + 4) AND 0xF0000000) OR push_bit 2 (insn AND 0x03FFFFFF); link = pc + 8; jal = (op_of insn = 0x03);
     s = (if jal then s\<lparr>R := (R s)(31 := sx32 link)\<rparr> else s)
     in delay E (pc + 4) s (\<lambda>s. case native target of
          Some nf \<Rightarrow> if jal then Next link (nf s) else Return True (nf s)
        | None \<Rightarrow> if jal then Call target link s else Next target s))"

definition step_jump_reg :: "'m env \<Rightarrow> (u32 \<Rightarrow> ('m cpu \<Rightarrow> 'm cpu) option) \<Rightarrow> u32 \<Rightarrow> u32 \<Rightarrow> u32 \<Rightarrow> 'm cpu \<Rightarrow> 'm step_res" where
  "step_jump_reg E native ret pc insn s = (let
     rd = rd_of insn; link = (fn_of insn = 0x09); target = lo32 (R s (rs_of insn)); after = pc + 8;
     s = (if link \<and> rd \<noteq> 0 then s\<lparr>R := (R s)(rd := sx32 after)\<rparr> else s)
     in delay E (pc + 4) s (\<lambda>s. if \<not> link \<and> target = ret then Return True s
        else case native target of
          Some nf \<Rightarrow> if link then Next after (nf s) else Return True (nf s)
        | None \<Rightarrow> if link then Call target after s else Next target s))"

definition step_branch :: "'m env \<Rightarrow> u32 \<Rightarrow> u32 \<Rightarrow> 'm cpu \<Rightarrow> 'm step_res" where
  "step_branch E pc insn s = (case branch_cond insn s of
     None \<Rightarrow> Return False s
   | Some (taken, likely, link) \<Rightarrow> do_branch E pc (branch_target pc insn) taken likely
       (if link then s\<lparr>R := (R s)(31 := sx32 (pc + 8))\<rparr> else s))"

definition step_bc1 :: "'m env \<Rightarrow> u32 \<Rightarrow> u32 \<Rightarrow> 'm cpu \<Rightarrow> 'm step_res" where
  "step_bc1 E pc insn s = (let cond = bit (cop0_1 s) 23 in
     do_branch E pc (branch_target pc insn) (if bit insn 16 then cond else \<not> cond) (bit insn 17) s)"

definition is_jump :: "u32 \<Rightarrow> bool" where "is_jump insn \<longleftrightarrow> op_of insn = 0x02 \<or> op_of insn = 0x03"
definition is_jump_reg :: "u32 \<Rightarrow> bool" where "is_jump_reg insn \<longleftrightarrow> op_of insn = 0x00 \<and> (fn_of insn = 0x08 \<or> fn_of insn = 0x09)"
definition is_bc1 :: "u32 \<Rightarrow> bool" where "is_bc1 insn \<longleftrightarrow> op_of insn = 0x11 \<and> rs_of insn = 0x08"

definition step :: "'m env \<Rightarrow> (u32 \<Rightarrow> ('m cpu \<Rightarrow> 'm cpu) option) \<Rightarrow> u32 \<Rightarrow> u32 \<Rightarrow> 'm cpu \<Rightarrow> 'm step_res" where
  "step E native ret pc s = (
     if pc AND 3 \<noteq> 0 then Return False s
     else let insn = ifetch E (rdram s) pc in
     if is_jump insn then step_jump E native pc insn s
     else if is_jump_reg insn then step_jump_reg E native ret pc insn s
     else if is_branch (op_of insn) then step_branch E pc insn s
     else if is_bc1 insn then step_bc1 E pc insn s
     else delay E pc s (Next (pc + 4)))"

definition kMaxInterpDepth :: nat where "kMaxInterpDepth = 256"

text \<open>
  The interpreter with fuel for its turns; \<open>None\<close> when the fuel runs out. The result is the value
  returned and the state, or \<open>None\<close> inside for a host trap.
\<close>

primrec run :: "nat \<Rightarrow> 'm env \<Rightarrow> (u32 \<Rightarrow> ('m cpu \<Rightarrow> 'm cpu) option) \<Rightarrow> nat \<Rightarrow> u32 \<Rightarrow> u32 \<Rightarrow> 'm cpu \<Rightarrow> (bool \<times> 'm cpu) option option" where
  "run 0 E native depth ret pc s = None"
| "run (Suc n) E native depth ret pc s = (case step E native ret pc s of
     Next pc' s' \<Rightarrow> run n E native depth ret pc' s'
   | Return b s' \<Rightarrow> Some (Some (b, s'))
   | Trap \<Rightarrow> Some None
   | Call target link s' \<Rightarrow>
       if depth + 1 > kMaxInterpDepth then Some (Some (False, s'))
       else (case run n E native (depth + 1) (lo32 (R s' 31)) target s' of
         Some (Some (True, s'')) \<Rightarrow> run n E native depth ret link s''
       | x \<Rightarrow> x))"

definition recomp_interpret_function :: "nat \<Rightarrow> 'm env \<Rightarrow> (u32 \<Rightarrow> ('m cpu \<Rightarrow> 'm cpu) option) \<Rightarrow> u32 \<Rightarrow> 'm cpu \<Rightarrow> (bool \<times> 'm cpu) option option" where
  "recomp_interpret_function n E native start_pc s = run n E native 0 (lo32 (R s 31)) start_pc s"

end
