(* ===== verification/MipsProps.thy ===== *)
theory MipsProps
  imports MipsInterp
begin

text \<open>
  Properties of the interpreter: register 0 stays as it is, the results of multiplication and
  division, the treatment of delay slots against a machine with a program counter and a next
  program counter, and that more fuel never changes a result.
\<close>

section \<open>Register zero\<close>

lemma setters_R0 [simp]: "R (setR i v s) 0 = R s 0" "R (setF i v s) = R s" "R (setFl i x s) = R s" "R (setm m s) = R s"
  by (simp_all add: setR_def setF_def setFl_def setm_def)

lemma exec_special_R0: "exec_special insn s = Ok s' \<Longrightarrow> R s' 0 = R s 0"
  unfolding exec_special_def Let_def by (auto split: if_splits)

lemma exec_fpu_R0: "exec_fpu E insn s = Ok s' \<Longrightarrow> R s' = R s"
  unfolding exec_fpu_def Let_def by (auto split: if_splits)

lemma exec_cop1_R0: "exec_cop1 E insn s = Ok s' \<Longrightarrow> R s' 0 = R s 0"
  unfolding exec_cop1_def Let_def by (auto split: if_splits dest: exec_fpu_R0)

lemma exec_memory_R0: "exec_memory E insn s = Ok s' \<Longrightarrow> R s' 0 = R s 0"
  unfolding exec_memory_def Let_def by (auto split: if_splits)

lemma exec_R0: "exec_noncontrol E insn s = Ok s' \<Longrightarrow> R s' 0 = R s 0"
  unfolding exec_noncontrol_def Let_def
  by (auto split: if_splits dest: exec_special_R0 exec_cop1_R0 exec_memory_R0)

text \<open>What one turn does to register 0, whatever its result.\<close>

fun state_of :: "'m step_res \<Rightarrow> 'm cpu option" where
  "state_of (Next pc s) = Some s" | "state_of (Return b s) = Some s" | "state_of (Call t l s) = Some s" | "state_of Trap = None"

definition natives_keep_R0 :: "(u32 \<Rightarrow> ('m cpu \<Rightarrow> 'm cpu) option) \<Rightarrow> bool" where
  "natives_keep_R0 native \<longleftrightarrow> (\<forall>t nf s. native t = Some nf \<longrightarrow> R (nf s) 0 = R s 0)"

lemma delay_R0:
  assumes "state_of (delay E pc s k) = Some s'" "\<And>u. state_of (k u) = Some s' \<Longrightarrow> R s' 0 = R u 0"
  shows "R s' 0 = R s 0"
  using assms by (auto simp: delay_def split: exec_res.splits dest: exec_R0)

lemma branch_R0: "state_of (do_branch E pc t taken likely s) = Some s' \<Longrightarrow> R s' 0 = R s 0"
  by (auto simp: do_branch_def split: if_splits elim!: delay_R0)

lemma step_branch_R0: "state_of (step_branch E pc insn s) = Some s' \<Longrightarrow> R s' 0 = R s 0"
  by (auto simp: step_branch_def split: option.splits prod.splits if_splits dest!: branch_R0)

lemma native_R0: "natives_keep_R0 native \<Longrightarrow> native t = Some nf \<Longrightarrow> R (nf s) 0 = R s 0"
  by (simp add: natives_keep_R0_def)

lemma step_jump_R0:
  assumes "natives_keep_R0 native" "state_of (step_jump E native pc insn s) = Some s'" shows "R s' 0 = R s 0"
proof -
  have "R s' 0 = R (if op_of insn = 3 then s\<lparr>R := (R s)(31 := sx32 (pc + 8))\<rparr> else s) 0"
    by (rule delay_R0 [OF assms(2) [unfolded step_jump_def Let_def]]) (auto split: option.splits if_splits simp: native_R0 [OF assms(1)])
  then show ?thesis by (simp split: if_splits)
qed

lemma step_jump_reg_R0:
  assumes "natives_keep_R0 native" "state_of (step_jump_reg E native ret pc insn s) = Some s'" shows "R s' 0 = R s 0"
proof -
  have "R s' 0 = R (if fn_of insn = 9 \<and> rd_of insn \<noteq> 0 then s\<lparr>R := (R s)(rd_of insn := sx32 (pc + 8))\<rparr> else s) 0"
    by (rule delay_R0 [OF assms(2) [unfolded step_jump_reg_def Let_def]]) (auto split: option.splits if_splits simp: native_R0 [OF assms(1)])
  then show ?thesis by (simp split: if_splits)
qed

lemma step_R0:
  assumes "natives_keep_R0 native" "state_of (step E native ret pc s) = Some s'" shows "R s' 0 = R s 0"
  using assms(2) unfolding step_def Let_def step_bc1_def
  by (auto split: if_splits dest: branch_R0 step_branch_R0 step_jump_R0 [OF assms(1)] step_jump_reg_R0 [OF assms(1)] elim: delay_R0)

lemma run_R0:
  "natives_keep_R0 native \<Longrightarrow> run n E native depth ret pc s = Some (Some (b, s')) \<Longrightarrow> R s' 0 = R s 0"
proof (induction n arbitrary: depth ret pc s b s')
  case (Suc n)
  note st = step_R0 [OF Suc.prems(1), of E ret pc s]
  show ?case
  proof (cases "step E native ret pc s")
    case (Next pc1 s1)
    then show ?thesis using Suc.IH [OF Suc.prems(1), of depth ret pc1 s1] Suc.prems(2) st by simp
  next
    case (Return b1 s1)
    then show ?thesis using Suc.prems(2) st by simp
  next
    case (Call target link s1)
    show ?thesis
    proof (cases "depth + 1 > kMaxInterpDepth")
      case True
      then show ?thesis using Call Suc.prems(2) st by simp
    next
      case False
      then obtain b2 s2 where c: "run n E native (depth + 1) (lo32 (R s1 31)) target s1 = Some (Some (b2, s2))"
        using Call Suc.prems(2) by (auto split: option.splits)
      then have "R s2 0 = R s 0" using Suc.IH [OF Suc.prems(1) c] st Call by simp
      then show ?thesis
        using Call Suc.prems(2) False c Suc.IH [OF Suc.prems(1), of depth ret link s2 b s'] by (auto split: bool.splits)
    qed
  qed (use Suc.prems in simp)
qed simp

section \<open>Fuel\<close>

lemma run_mono: "run n E native depth ret pc s = Some r \<Longrightarrow> n \<le> m \<Longrightarrow> run m E native depth ret pc s = Some r"
proof (induction n arbitrary: m depth ret pc s r)
  case (Suc n)
  then obtain k where m: "m = Suc k" "n \<le> k" by (cases m) auto
  show ?case
  proof (cases "step E native ret pc s")
    case (Next pc1 s1)
    then show ?thesis using Suc.IH [OF _ m(2), of depth ret pc1 s1 r] Suc.prems(1) m(1) by simp
  next
    case (Call target link s1)
    show ?thesis
    proof (cases "depth + 1 > kMaxInterpDepth")
      case True
      then show ?thesis using Suc.prems Call m by simp
    next
      case False
      then obtain r1 where c: "run n E native (depth + 1) (lo32 (R s1 31)) target s1 = Some r1"
        using Call Suc.prems(1) by (auto split: option.splits)
      note c' = Suc.IH [OF c m(2)]
      show ?thesis
      proof (cases "\<exists>s2. r1 = Some (True, s2)")
        case True
        then obtain s2 where "r1 = Some (True, s2)" by blast
        then show ?thesis using c c' False Call Suc.prems(1) m(1) Suc.IH [OF _ m(2), of depth ret link s2 r] by simp
      next
        case nt: False
        then have "r = r1" using c False Call Suc.prems(1) by (auto split: option.splits prod.splits bool.splits)
        then show ?thesis using nt c' False Call m(1) by (auto split: option.splits prod.splits bool.splits)
      qed
    qed
  qed (use Suc.prems m in simp_all)
qed simp

section \<open>Multiplication and division\<close>

lemma sint_sx32: "sint (sx32 v) = sint v"
  by (simp add: sx32_def sint_up_scast is_up)

lemma sint_lo32_range: "- (2 ^ 31) \<le> sint (v :: u32)" "sint (v :: u32) < 2 ^ 31"
  using sint_ge [of v] sint_lt [of v] by simp_all

text \<open>The double register \<open>hi:lo\<close> as an integer.\<close>

definition hilo_int :: "'m cpu \<Rightarrow> int" where
  "hilo_int s = sint (hi s) * 2 ^ 32 + uint (lo32 (lo s))"

definition hilo_nat :: "'m cpu \<Rightarrow> int" where
  "hilo_nat s = uint (lo32 (hi s)) * 2 ^ 32 + uint (lo32 (lo s))"

lemma lo32_sx32 [simp]: "lo32 (sx32 v) = v"
  unfolding lo32_def sx32_def by (rule bit_word_eqI) (auto simp: bit_simps)

lemma lo32_of_int: "lo32 (word_of_int k) = word_of_int k"
  unfolding lo32_def by (rule bit_word_eqI) (auto simp: bit_simps)

lemma sint64_of_int: "- (2 ^ 63) \<le> k \<Longrightarrow> k < 2 ^ 63 \<Longrightarrow> sint (word_of_int k :: u64) = k"
  by (simp add: sint_sbintrunc' signed_take_bit_int_eq_self)

lemma sint32_of_int: "- (2 ^ 31) \<le> k \<Longrightarrow> k < 2 ^ 31 \<Longrightarrow> sint (word_of_int k :: u32) = k"
  by (simp add: sint_sbintrunc' signed_take_bit_int_eq_self)

lemma uint64_of_int: "0 \<le> k \<Longrightarrow> k < 2 ^ 64 \<Longrightarrow> uint (word_of_int k :: u64) = k"
  by (simp add: uint_word_of_int)

lemma uint32_of_int: "uint (word_of_int k :: u32) = k mod 2 ^ 32"
  by (simp add: uint_word_of_int)

lemma signed_drop_of_int: "signed_drop_bit n (w :: u64) = word_of_int (sint w div 2 ^ n)"
  unfolding drop_bit_eq_div [symmetric] by (rule bit_word_eqI) (auto simp: bit_simps bit_sint_iff)

lemma drop_of_int: "drop_bit n (w :: u64) = word_of_int (uint w div 2 ^ n)"
  unfolding drop_bit_eq_div [symmetric] by (rule bit_word_eqI) (auto simp: bit_simps dest: bit_imp_le_length)

text \<open>The two halves of a 64-bit product.\<close>

lemma mult_hilo:
  fixes a b :: u32
  defines "p \<equiv> (scast a :: u64) * scast b"
  shows "sint (lo32 (signed_drop_bit 32 p)) * 2 ^ 32 + uint (lo32 p) = sint a * sint b"
proof -
  let ?k = "sint a * sint b"
  have "\<bar>?k\<bar> \<le> 2 ^ 31 * 2 ^ 31"
    unfolding abs_mult using sint_lo32_range [of a] sint_lo32_range [of b] by (intro mult_mono) auto
  then have r: "- (2 ^ 62) \<le> ?k" "?k \<le> 2 ^ 62" by simp_all
  have p: "p = word_of_int ?k" by (simp add: p_def)
  have sp: "sint p = ?k" unfolding p using r by (intro sint64_of_int) simp_all
  have "- (2 ^ 31) \<le> ?k div 2 ^ 32" "?k div 2 ^ 32 < 2 ^ 31" using zdiv_mono1 [OF r(1), of "2 ^ 32"] zdiv_mono1 [OF r(2), of "2 ^ 32"] by simp_all
  then have "sint (lo32 (signed_drop_bit 32 p)) = ?k div 2 ^ 32"
    unfolding signed_drop_of_int lo32_of_int sp by (rule sint32_of_int)
  moreover have "uint (lo32 p) = ?k mod 2 ^ 32" unfolding p lo32_of_int by (rule uint32_of_int)
  ultimately show ?thesis by simp
qed

lemma multu_hilo:
  fixes a b :: u32
  defines "p \<equiv> (ucast a :: u64) * ucast b"
  shows "uint (lo32 (drop_bit 32 p)) * 2 ^ 32 + uint (lo32 p) = uint a * uint b"
proof -
  let ?k = "uint a * uint b"
  have a: "uint a \<le> 2 ^ 32 - 1" "uint b \<le> 2 ^ 32 - 1" using uint_lt2p [of a] uint_lt2p [of b] by simp_all
  have "?k \<le> (2 ^ 32 - 1) * (2 ^ 32 - 1)" using a by (intro mult_mono) simp_all
  then have r: "0 \<le> ?k" "?k < 2 ^ 64" "?k div 2 ^ 32 < 2 ^ 32" by (simp_all add: div_less_iff_less_mult)
  have p: "p = word_of_int ?k" by (simp add: p_def)
  have up: "uint p = ?k" unfolding p using r(1,2) by (rule uint64_of_int)
  have "uint (lo32 (drop_bit 32 p)) = ?k div 2 ^ 32 mod 2 ^ 32" unfolding drop_of_int lo32_of_int up by (rule uint32_of_int)
  then have "uint (lo32 (drop_bit 32 p)) = ?k div 2 ^ 32" using r(1,3) by (simp add: pos_imp_zdiv_nonneg_iff)
  moreover have "uint (lo32 p) = ?k mod 2 ^ 32" unfolding p lo32_of_int by (rule uint32_of_int)
  ultimately show ?thesis by simp
qed

section \<open>Delay slots\<close>

text \<open>
  The architecture: a program counter and the next program counter. A taken branch sets the
  next one, so the instruction behind it, the delay slot, runs before the target; a branch-likely
  that is not taken skips it.
\<close>

definition control :: "u32 \<Rightarrow> bool" where
  "control insn \<longleftrightarrow> is_jump insn \<or> is_jump_reg insn \<or> is_branch (op_of insn) \<or> is_bc1 insn"

definition arch_branch :: "u32 \<Rightarrow> u32 \<Rightarrow> bool \<Rightarrow> bool \<Rightarrow> 'm cpu \<Rightarrow> u32 \<times> u32 \<times> 'm cpu" where
  "arch_branch npc target taken likely s =
     (if taken then (npc, target, s) else if likely then (npc + 4, npc + 8, s) else (npc, npc + 4, s))"

definition arch_step :: "'m env \<Rightarrow> u32 \<times> u32 \<times> 'm cpu \<Rightarrow> (u32 \<times> u32 \<times> 'm cpu) option" where
  "arch_step E x = (case x of (pc, npc, s) \<Rightarrow> let insn = ifetch E (rdram s) pc; link = sx32 (pc + 8) in
     if is_jump insn then let target = ((pc + 4) AND 0xF0000000) OR push_bit 2 (insn AND 0x03FFFFFF) in
       Some (npc, target, if op_of insn = 0x03 then s\<lparr>R := (R s)(31 := link)\<rparr> else s)
     else if is_jump_reg insn then
       Some (npc, lo32 (R s (rs_of insn)),
         if fn_of insn = 0x09 \<and> rd_of insn \<noteq> 0 then s\<lparr>R := (R s)(rd_of insn := link)\<rparr> else s)
     else if is_branch (op_of insn) then map_option (\<lambda>(taken, likely, lnk).
         arch_branch npc (branch_target pc insn) taken likely (if lnk then s\<lparr>R := (R s)(31 := link)\<rparr> else s)) (branch_cond insn s)
     else if is_bc1 insn then let cond = bit (cop0_1 s) 23 in
       Some (arch_branch npc (branch_target pc insn) (if bit insn 16 then cond else \<not> cond) (bit insn 17) s)
     else (case exec_noncontrol E insn s of Ok s' \<Rightarrow> Some (npc, npc + 4, s') | _ \<Rightarrow> None))"

definition arch :: "'m env \<Rightarrow> u32 \<times> u32 \<times> 'm cpu \<Rightarrow> u32 \<times> u32 \<times> 'm cpu \<Rightarrow> bool" where
  "arch E x y \<longleftrightarrow> arch_step E x = Some y"

text \<open>What the interpreter runs as a delay slot is not a control instruction.\<close>

lemma u32_interval: "(l :: u32) \<le> op \<Longrightarrow> op \<le> h \<Longrightarrow> op \<in> word_of_nat ` {unat l..unat h}"
  by (rule image_eqI [of _ _ "unat op"]) (auto simp: word_le_nat_alt)

lemma is_branch_cases:
  assumes "is_branch op" shows "op \<in> {1, 4, 5, 6, 7, 0x14, 0x15, 0x16, 0x17}"
  using assms u32_interval [of 4 op 7] u32_interval [of "0x14" op "0x17"]
  by (auto simp: is_branch_def atLeastAtMost_upt upt_rec)

lemma exec_not_control: assumes "exec_noncontrol E insn s = Ok s'" shows "\<not> control insn"
proof
  assume "control insn"
  then consider "op_of insn \<in> {2, 3, 1, 4, 5, 6, 7, 0x14, 0x15, 0x16, 0x17}" | "op_of insn = 0" "fn_of insn = 8 \<or> fn_of insn = 9"
    | "op_of insn = 0x11" "rs_of insn = 8"
    using is_branch_cases [of "op_of insn"] by (auto simp: control_def is_jump_def is_jump_reg_def is_bc1_def)
  then show False
  proof cases
    case 1
    then show ?thesis using assms by (auto simp: exec_noncontrol_def exec_memory_def Let_def)
  next
    case 2
    then show ?thesis using assms by (auto simp: exec_noncontrol_def exec_special_def Let_def)
  next
    case 3
    then show ?thesis using assms by (auto simp: exec_noncontrol_def exec_cop1_def Let_def)
  qed
qed

lemma arch_plain:
  assumes "exec_noncontrol E (ifetch E (rdram s) pc) s = Ok s'" shows "arch E (pc, npc, s) (npc, npc + 4, s')"
  using exec_not_control [OF assms] assms by (simp add: arch_def arch_step_def control_def Let_def)

text \<open>A jump or taken branch followed by its delay slot.\<close>

lemma arch_delay:
  assumes "arch E (pc, pc + 4, s) (pc + 4, target, s1)" "exec_noncontrol E (ifetch E (rdram s1) (pc + 4)) s1 = Ok s'"
  shows "(arch E)\<^sup>+\<^sup>+ (pc, pc + 4, s) (target, target + 4, s')"
  using assms(1) by (blast intro: tranclp.intros arch_plain [OF assms(2)])

lemma delay_cases:
  assumes "delay E pc s k = r" "r \<noteq> Trap" "\<And>s'. r \<noteq> Return False s'"
  obtains s' where "exec_noncontrol E (ifetch E (rdram s) pc) s = Ok s'" "k s' = r"
  using assms by (auto simp: delay_def split: exec_res.splits)

text \<open>Where a turn of the interpreter ends: at a PC of the machine, in a state.\<close>

fun at_pc :: "u32 \<Rightarrow> 'm step_res \<Rightarrow> (u32 \<times> 'm cpu) option" where
  "at_pc ret (Next pc s) = Some (pc, s)" | "at_pc ret (Call target link s) = Some (target, s)"
| "at_pc ret (Return b s) = (if b then Some (ret, s) else None)" | "at_pc ret Trap = None"

lemma at_pc_ok: "at_pc ret r = Some x \<Longrightarrow> r \<noteq> Trap" "at_pc ret r = Some x \<Longrightarrow> r \<noteq> Return False s"
  by auto

lemma branch_refines:
  assumes "at_pc ret (do_branch E pc target taken likely s1) = Some (pc', s')"
    and "arch E (pc, pc + 4, s) (arch_branch (pc + 4) target taken likely s1)"
  shows "(arch E)\<^sup>+\<^sup>+ (pc, pc + 4, s) (pc', pc' + 4, s')"
proof (cases "likely \<and> \<not> taken")
  case True
  then show ?thesis using assms by (auto simp: do_branch_def arch_branch_def add.assoc)
next
  case False
  let ?t = "if taken then target else pc + 8"
  have d: "do_branch E pc target taken likely s1 = delay E (pc + 4) s1 (Next ?t)" using False by (auto simp: do_branch_def)
  note ok = at_pc_ok [OF assms(1) [unfolded d]]
  obtain s2 where s2: "exec_noncontrol E (ifetch E (rdram s1) (pc + 4)) s1 = Ok s2" "Next ?t s2 = delay E (pc + 4) s1 (Next ?t)"
    using delay_cases [OF refl ok] .
  have "arch E (pc, pc + 4, s) (pc + 4, ?t, s1)" using assms(2) False by (auto simp: arch_branch_def add.assoc)
  from arch_delay [OF this s2(1)] show ?thesis using assms(1) d s2(2) [symmetric] by simp
qed

lemma jump_refines:
  assumes "at_pc ret (delay E (pc + 4) s1 k) = Some (pc', s')" "arch E (pc, pc + 4, s) (pc + 4, target, s1)"
    and "\<And>u pc' s'. at_pc ret (k u) = Some (pc', s') \<Longrightarrow> pc' = target \<and> s' = u"
  shows "(arch E)\<^sup>+\<^sup>+ (pc, pc + 4, s) (pc', pc' + 4, s')"
proof -
  obtain s2 where s2: "exec_noncontrol E (ifetch E (rdram s1) (pc + 4)) s1 = Ok s2" "k s2 = delay E (pc + 4) s1 k"
    using delay_cases [OF refl at_pc_ok [OF assms(1)]] .
  with assms(1,3) have "pc' = target" "s' = s2" by metis+
  then show ?thesis using arch_delay [OF assms(2) s2(1)] by simp
qed

lemma step_refines:
  assumes "at_pc ret (step E (\<lambda>_. None) ret pc s) = Some (pc', s')"
  shows "(arch E)\<^sup>+\<^sup>+ (pc, pc + 4, s) (pc', pc' + 4, s')"
proof -
  let ?i = "ifetch E (rdram s) pc"
  have al: "pc AND 3 = 0" using assms by (auto simp: step_def split: if_splits)
  show ?thesis
  proof (cases "is_jump ?i")
    case True
    then have "at_pc ret (step_jump E (\<lambda>_. None) pc ?i s) = Some (pc', s')" using assms al by (simp add: step_def)
    then show ?thesis unfolding step_jump_def Let_def
      by (rule jump_refines) (use True in \<open>auto simp: arch_def arch_step_def Let_def split: if_splits\<close>)
  next
    case nj: False
    show ?thesis
    proof (cases "is_jump_reg ?i")
      case True
      then have "at_pc ret (step_jump_reg E (\<lambda>_. None) ret pc ?i s) = Some (pc', s')" using assms al nj by (simp add: step_def)
      then show ?thesis unfolding step_jump_reg_def Let_def
        by (rule jump_refines) (use True nj in \<open>auto simp: arch_def arch_step_def Let_def split: if_splits\<close>)
    next
      case nr: False
      show ?thesis
      proof (cases "is_branch (op_of ?i)")
        case True
        then have st: "at_pc ret (step_branch E pc ?i s) = Some (pc', s')" using assms al nj nr by (simp add: step_def)
        then obtain taken likely lnk where b: "branch_cond ?i s = Some (taken, likely, lnk)"
          by (auto simp: step_branch_def split: option.splits)
        show ?thesis
          by (rule branch_refines [OF st [unfolded step_branch_def b option.simps prod.simps]])
            (use True nj nr b in \<open>simp add: arch_def arch_step_def Let_def\<close>)
      next
        case nb: False
        show ?thesis
        proof (cases "is_bc1 ?i")
          case True
          then have st: "at_pc ret (step_bc1 E pc ?i s) = Some (pc', s')" using assms al nj nr nb by (simp add: step_def)
          show ?thesis
            by (rule branch_refines [OF st [unfolded step_bc1_def Let_def]])
              (use True nj nr nb in \<open>simp add: arch_def arch_step_def Let_def\<close>)
        next
          case False
          then have "at_pc ret (delay E pc s (Next (pc + 4))) = Some (pc', s')" using assms al nj nr nb by (simp add: step_def)
          then obtain u where "exec_noncontrol E ?i s = Ok u" "pc' = pc + 4" "s' = u" by (auto simp: delay_def split: exec_res.splits)
          then show ?thesis using arch_plain [of E s pc u "pc + 4"] by auto
        qed
      qed
    qed
  qed
qed

end
