(* ===== verification/MipsClaims.thy ===== *)
theory MipsClaims
  imports MipsProps
begin

text \<open>
  The properties of the MIPS interpreter: whole runs refine the architecture with delay slots,
  register 0 is kept, arithmetic is exact, straight-line functions return, and two behaviours on
  the edge: the division that traps the host and the \<^verbatim>\<open>jalr\<close> that runs its caller twice.
\<close>

section \<open>Runs\<close>



section \<open>Division\<close>

lemma sint_eq_iff: "sint (a :: u32) = k \<Longrightarrow> a = word_of_int k"
  by auto

lemma s32_div_mod:
  fixes a b :: u32
  assumes "b \<noteq> 0" "\<not> (a = 0x80000000 \<and> b = 0xFFFFFFFF)"
  shows "sint (s32_div a b) = sint a sdiv sint b" "sint (s32_mod a b) = sint a smod sint b"
proof -
  have nz: "sint b \<noteq> 0" using assms(1) sint_eq_iff [of b 0] by auto
  have q: "sint a sdiv sint b \<noteq> 2 ^ 31"
  proof
    assume e: "sint a sdiv sint b = 2 ^ 31"
    then have a: "sint a = - (2 ^ 31)" using sdiv_int_range [of "sint a" "sint b"] sint_lo32_range [of a] by auto
    then have "sint b = - 1" using e int_sdiv_negated_is_minus1 [of "sint a" "sint b"] by simp
    with a assms(2) show False using sint_eq_iff [of a] sint_eq_iff [of b] by simp
  qed
  show "sint (s32_div a b) = sint a sdiv sint b"
    unfolding s32_div_def using q sdiv_int_range [of "sint a" "sint b"] sint_lo32_range [of a] by (intro sint32_of_int) auto
  show "sint (s32_mod a b) = sint a smod sint b"
    unfolding s32_mod_def using smod_int_range [OF nz, of "sint a"] sint_lo32_range [of b] by (intro sint32_of_int) auto
qed

lemma s32_mod_less: "b \<noteq> 0 \<Longrightarrow> \<not> (a = 0x80000000 \<and> b = 0xFFFFFFFF) \<Longrightarrow> \<bar>sint (s32_mod a b)\<bar> < \<bar>sint (b :: u32)\<bar>"
proof -
  assume a: "b \<noteq> 0" "\<not> (a = 0x80000000 \<and> b = 0xFFFFFFFF)"
  then have "sint b \<noteq> 0" using sint_eq_iff [of b 0] by auto
  from smod_int_range [OF this, of "sint a"] show ?thesis unfolding s32_div_mod [OF a] by (simp add: abs_less_iff)
qed

section \<open>Host traps\<close>

lemma exec_fpu_no_trap: "exec_fpu E insn s \<noteq> HostTrap"
  unfolding exec_fpu_def Let_def by (auto split: if_splits)

lemma exec_cop1_no_trap: "exec_cop1 E insn s \<noteq> HostTrap"
  unfolding exec_cop1_def Let_def using exec_fpu_no_trap [of E insn s] by (auto split: if_splits)

lemma exec_memory_no_trap: "exec_memory E insn s \<noteq> HostTrap"
  unfolding exec_memory_def Let_def by (auto split: if_splits)

lemma exec_special_trap:
  "exec_special insn s = HostTrap \<longleftrightarrow> fn_of insn = 0x1A \<and> lo32 (R s (rs_of insn)) = 0x80000000 \<and> lo32 (R s (rt_of insn)) = 0xFFFFFFFF"
  unfolding exec_special_def Let_def by (auto split: if_splits)

lemma exec_trap:
  "exec_noncontrol E insn s = HostTrap \<longleftrightarrow> op_of insn = 0 \<and> fn_of insn = 0x1A \<and>
     lo32 (R s (rs_of insn)) = 0x80000000 \<and> lo32 (R s (rt_of insn)) = 0xFFFFFFFF"
  unfolding exec_noncontrol_def Let_def
  using exec_cop1_no_trap [of E insn s] exec_memory_no_trap [of E insn s] exec_special_trap [of insn s] by auto

section \<open>Example programs\<close>

text \<open>A machine whose memory holds fixed code and whose data accesses read zero, and a register file.\<close>

definition demo_env :: "(u32 \<Rightarrow> u32) \<Rightarrow> unit env" where
  "demo_env code = \<lparr>MEM_B = (\<lambda>_ _ _. 0), MEM_BU = (\<lambda>_ _ _. 0), MEM_H = (\<lambda>_ _ _. 0), MEM_HU = (\<lambda>_ _ _. 0), MEM_W =
    (\<lambda>_ _ _. 0), MEM_WU = (\<lambda>off base m. code (lo32 (base + off))), load_doubleword = (\<lambda>_ _ _. 0), set_B =
    (\<lambda>_ _ _ _. ()), set_H = (\<lambda>_ _ _ _. ()), set_W = (\<lambda>_ _ _ _. ()), SD = (\<lambda>_ _ _ _. ()), do_lwl =
    (\<lambda>_ _ _ _. 0), do_lwr = (\<lambda>_ _ _ _. 0), do_ldl = (\<lambda>_ _ _ _. 0), do_ldr = (\<lambda>_ _ _ _. 0), do_swl =
    (\<lambda>_ _ _ _. ()), do_swr = (\<lambda>_ _ _ _. ()), do_sdl = (\<lambda>_ _ _ _. ()), do_sdr = (\<lambda>_ _ _ _. ()), s_add =
    (\<lambda>_ _. 0), s_sub = (\<lambda>_ _. 0), s_mul = (\<lambda>_ _. 0), s_div = (\<lambda>_ _. 0), d_add = (\<lambda>_ _. 0),
    d_sub = (\<lambda>_ _. 0), d_mul = (\<lambda>_ _. 0), d_div = (\<lambda>_ _. 0), s_sqrt = (\<lambda>_. 0), s_abs = (\<lambda>_.
    0), s_neg = (\<lambda>_. 0), d_sqrt = (\<lambda>_. 0), d_abs = (\<lambda>_. 0), d_neg = (\<lambda>_. 0), s_of_w = (\<lambda>_. 0),
    s_of_d = (\<lambda>_. 0), d_of_w = (\<lambda>_. 0), d_of_s = (\<lambda>_. 0), s_trunc = (\<lambda>_. 0), s_round = (\<lambda>_.
    0), s_ceil = (\<lambda>_. 0), s_floor = (\<lambda>_. 0), w_of_d = (\<lambda>_. 0), d_trunc = (\<lambda>_. 0), d_round =
    (\<lambda>_. 0), d_ceil = (\<lambda>_. 0), d_floor = (\<lambda>_. 0), d_lt = (\<lambda>_ _. False), d_eq = (\<lambda>_ _. False)\<rparr>"

definition demo_cpu :: "(u32 \<Rightarrow> u64) \<Rightarrow> unit cpu" where
  "demo_cpu regs = \<lparr>R = regs, F = (\<lambda>_. 0), hi = 0, lo = 0, cop0_0 = 0, cop0_1 = 0, rdram = ()\<rparr>"

text \<open>\<^verbatim>\<open>move $t0, $ra; jal f; addiu $v0, $v0, 1; jr $t0; nop\<close> with \<^verbatim>\<open>f: jr $ra; addiu $v0, $v0, 2\<close>.\<close>

definition call_code :: "u32 \<Rightarrow> u32" where
  "call_code pc = (if pc = 0x80000000 then 0x03E04021 else if pc = 0x80000004 then 0x0C000400 else if pc = 0x80000008 then 0x24420001
     else if pc = 0x8000000C then 0x01000008 else if pc = 0x80001000 then 0x03E00008 else if pc = 0x80001004 then 0x24420002 else 0)"

text \<open>\<^verbatim>\<open>jalr $t0, $t1; nop; addiu $v0, $v0, 1; jr $ra; nop\<close> where \<^verbatim>\<open>$t1\<close> points to \<^verbatim>\<open>jr $t0; nop\<close>.\<close>

definition jalr_code :: "u32 \<Rightarrow> u32" where
  "jalr_code pc = (if pc = 0x80000000 then 0x01204009 else if pc = 0x80000008 then 0x24420001
     else if pc = 0x8000000C then 0x03E00008 else if pc = 0x80001000 then 0x01000008 else 0)"

primrec arch_run :: "nat \<Rightarrow> 'm env \<Rightarrow> u32 \<times> u32 \<times> 'm cpu \<Rightarrow> (u32 \<times> u32 \<times> 'm cpu) option" where
  "arch_run 0 E x = Some x"
| "arch_run (Suc n) E x = (case arch_step E x of None \<Rightarrow> None | Some y \<Rightarrow> arch_run n E y)"

abbreviation demo_regs :: "u32 \<Rightarrow> u64" where
  "demo_regs \<equiv> (\<lambda>_. 0)(9 := 0xFFFFFFFF80001000, 31 := 0xFFFFFFFF80002000)"

lemma demo_ra: "lo32 0xFFFFFFFF80002000 = 0x80002000" "lo32 0xFFFFFFFF80001000 = 0x80001000"
  by code_simp+


lemma call_code_runs:
  "\<exists>s'. run 10 (demo_env call_code) (\<lambda>_. None) 0 0x80002000 0x80000000 (demo_cpu demo_regs) = Some (Some (True, s')) \<and> R s' 2 = 3"
proof -
  have "map_option (map_option (\<lambda>(b, s). (b, R s 2))) (run 10 (demo_env call_code) (\<lambda>_. None) 0 0x80002000 0x80000000 (demo_cpu demo_regs)) =
      Some (Some (True, 3))" by code_simp
  then show ?thesis by auto
qed

section \<open>Properties\<close>



text \<open>
  Register 0 is hard-wired: no run of the interpreter, successful or not, changes it, whatever
  the instructions executed, provided the recompiled functions it calls leave it alone.
\<close>

theorem interpreter_keeps_zero_register:
  assumes "natives_keep_R0 native" "recomp_interpret_function n E native start_pc s = Some (Some (b, s'))"
  shows "R s' 0 = R s 0"
  using run_R0 [OF assms(1)] assms(2) by (auto simp: recomp_interpret_function_def)

theorem interpreter_keeps_zero_register_witness:
  "\<exists>s'. recomp_interpret_function 10 (demo_env call_code) (\<lambda>_. None) 0x80000000 (demo_cpu demo_regs) = Some (Some (True, s')) \<and> R s' 0 = 0"
proof -
  obtain s' where r: "recomp_interpret_function 10 (demo_env call_code) (\<lambda>_. None) 0x80000000 (demo_cpu demo_regs) = Some (Some (True, s'))"
    using call_code_runs by (auto simp: recomp_interpret_function_def demo_cpu_def demo_ra)
  have "natives_keep_R0 (\<lambda>_. None :: (unit cpu \<Rightarrow> unit cpu) option)" by (simp add: natives_keep_R0_def)
  from interpreter_keeps_zero_register [OF this r] r show ?thesis by (auto simp: demo_cpu_def)
qed

text \<open>
  Multiplication and division are exact: \<^verbatim>\<open>mult\<close> and \<^verbatim>\<open>multu\<close> leave the 64-bit product of the
  low words in \<open>hi:lo\<close>, \<^verbatim>\<open>div\<close> leaves quotient and remainder truncated towards zero, the
  remainder smaller than the divisor, and division by zero leaves both registers as they were.
\<close>

theorem mult_div_exact:
  assumes "op_of insn = 0" "exec_noncontrol E insn s = Ok s'"
  defines "a \<equiv> lo32 (R s (rs_of insn))" and "b \<equiv> lo32 (R s (rt_of insn))"
  shows "(fn_of insn = 0x18 \<longrightarrow> hilo_int s' = sint a * sint b) \<and>
     (fn_of insn = 0x19 \<longrightarrow> hilo_nat s' = uint a * uint b) \<and>
     (fn_of insn = 0x1A \<longrightarrow> b \<noteq> 0 \<longrightarrow> sint b * sint (lo s') + sint (hi s') = sint a \<and> \<bar>sint (hi s')\<bar> < \<bar>sint b\<bar>) \<and>
     (fn_of insn \<in> {0x1A, 0x1B} \<longrightarrow> b = 0 \<longrightarrow> s' = s)"
proof (intro conjI)
  have ex: "exec_special insn s = Ok s'" using assms(1,2) by (simp add: exec_noncontrol_def)
  note ex = ex [unfolded exec_special_def Let_def, folded a_def b_def]
  show "fn_of insn = 0x18 \<longrightarrow> hilo_int s' = sint a * sint b"
    using ex mult_hilo [of a b] by (auto simp: hilo_int_def sint_sx32)
  show "fn_of insn = 0x19 \<longrightarrow> hilo_nat s' = uint a * uint b"
    using ex multu_hilo [of a b] by (auto simp: hilo_nat_def)
  show "fn_of insn = 0x1A \<longrightarrow> b \<noteq> 0 \<longrightarrow> sint b * sint (lo s') + sint (hi s') = sint a \<and> \<bar>sint (hi s')\<bar> < \<bar>sint b\<bar>"
    using ex s32_div_mod [of b a] s32_mod_less [of b a] by (auto simp: sint_sx32 mult_sdiv_smod_eq split: if_splits)
  show "fn_of insn \<in> {0x1A, 0x1B} \<longrightarrow> b = 0 \<longrightarrow> s' = s" using ex by auto
qed

theorem mult_div_exact_witness:
  "\<exists>s'. exec_noncontrol (demo_env call_code) 0x013F001A (demo_cpu demo_regs) = Ok s' \<and>
     sint (0x80002000 :: u32) * sint (lo s') + sint (hi s') = sint (0x80001000 :: u32)"
proof -
  have op: "op_of 0x013F001A = 0" by (simp add: op_of_def)
  obtain s' where ex: "exec_noncontrol (demo_env call_code) 0x013F001A (demo_cpu demo_regs) = Ok s'"
    by (simp add: exec_noncontrol_def exec_special_def op_of_def fn_of_def rs_of_def rt_of_def rd_of_def sa_of_def demo_cpu_def demo_ra Let_def)
  show ?thesis using mult_div_exact [OF op ex] ex by (simp add: fn_of_def rs_of_def rt_of_def demo_cpu_def demo_ra)
qed

text \<open>
  The only instruction that can trap the host is \<^verbatim>\<open>div\<close> of the least 32-bit integer by -1,
  where the C++ quotient overflows: every other instruction is executed or reported as not
  implemented.
\<close>

theorem host_trap_iff_div_overflow:
  "exec_noncontrol E insn s = HostTrap \<longleftrightarrow> op_of insn = 0 \<and> fn_of insn = 0x1A \<and>
     lo32 (R s (rs_of insn)) = 0x80000000 \<and> lo32 (R s (rt_of insn)) = 0xFFFFFFFF"
  by (rule exec_trap)

text \<open>
  A call that links in a register other than \<^verbatim>\<open>$ra\<close> runs the code behind it twice: the nested
  interpreter takes its return address from \<^verbatim>\<open>$ra\<close>, so the callee's return through the link
  register is followed as a tail jump into the caller, and the caller resumes there once more. The
  program adds 1 to \<^verbatim>\<open>$v0\<close> once on the processor and twice in the interpreter.
\<close>

theorem jalr_other_link_runs_twice:
  "map_option (map_option (\<lambda>(b, s). (b, R s 2))) (recomp_interpret_function 10 (demo_env jalr_code) (\<lambda>_. None) 0x80000000 (demo_cpu demo_regs))
     = Some (Some (True, 2)) \<and>
   map_option (\<lambda>(pc, npc, s). (pc, R s 2)) (arch_run 7 (demo_env jalr_code) (0x80000000, 0x80000004, demo_cpu demo_regs)) = Some (0x80002000, 1)"
  by code_simp

end
