(* ===== verification/GbCart.thy ===== *)
theory GbCart
  imports Prelude
begin

text \<open>
  The Game Boy cartridge and the Transfer Pak of \<^verbatim>\<open>librecomp/src/gbcart.cpp\<close>: the memory bank
  controllers MBC1, MBC3 and MBC5 with battery RAM, the accessory's enable, bank and status
  registers and its window on the cartridge bus, the block calls of the four controller ports, the
  diagnostic ring of block accesses and the save files. The file system is a map from paths to
  contents; the outcome of writing a file, the clock and the calling thread are arguments.
\<close>

definition port_count :: int where "port_count = 4"
definition pfs_err_no_pak :: int where "pfs_err_no_pak = 1"
definition pfs_err_invalid :: int where "pfs_err_invalid = 5"
definition transfer_pak_address_mask :: u16 where "transfer_pak_address_mask = 0x7FFF"
definition transfer_pak_cart_window :: u16 where "transfer_pak_cart_window = 0x4000"
definition block_size :: nat where "block_size = 32"

datatype mbc_kind = RomOnly | Mbc1 | Mbc3 | Mbc5 | Unsupported

type_synonym file_system = "string \<Rightarrow> u8 list option"

definition read_file :: "file_system \<Rightarrow> string \<Rightarrow> u8 list" where
  "read_file fs path = (case fs path of None \<Rightarrow> [] | Some bytes \<Rightarrow> bytes)"

definition header_ram_size :: "u8 \<Rightarrow> nat" where
  "header_ram_size code =
     (if code = 0x00 then 0
      else if code = 0x01 then 2 * 1024
      else if code = 0x02 then 8 * 1024
      else if code = 0x03 then 32 * 1024
      else if code = 0x04 then 128 * 1024
      else if code = 0x05 then 64 * 1024
      else 0)"

section \<open>The cartridge\<close>

record cartridge =
  rom_path :: string
  save_path :: string
  rom :: "u8 list"
  ram :: "u8 list"
  rom_open_bus_start :: nat
  mbc :: mbc_kind
  ram_enabled :: bool
  dirty :: bool
  rom_bank_low :: u8
  bank_high :: u8
  ram_bank :: u8
  mbc1_mode :: u8
  mbc5_rom_bank :: u16

definition new_cartridge :: cartridge where
  "new_cartridge = \<lparr>rom_path = '''', save_path = '''', rom = [], ram = [], rom_open_bus_start = 0, mbc = Unsupported,
     ram_enabled = False, dirty = False, rom_bank_low = 1, bank_high = 0, ram_bank = 0, mbc1_mode = 0, mbc5_rom_bank = 1\<rparr>"

text \<open>The cartridge type of the header, \<open>None\<close> for one that is not supported.\<close>

definition mbc_of_type :: "u8 \<Rightarrow> mbc_kind option" where
  "mbc_of_type t =
     (if t = 0x00 \<or> t = 0x08 \<or> t = 0x09 then Some RomOnly
      else if t \<ge> 0x01 \<and> t \<le> 0x03 then Some Mbc1
      else if t \<ge> 0x0F \<and> t \<le> 0x13 then Some Mbc3
      else if t \<ge> 0x19 \<and> t \<le> 0x1E then Some Mbc5
      else None)"

text \<open>Where the ROM reads as open bus: from its trailing zeroes on when they fill a bank, else from its end.\<close>

definition open_bus_start :: "u8 list \<Rightarrow> nat" where
  "open_bus_start bytes = (let trailing_zero_start = length (dropWhile (\<lambda>b. b = 0) (rev bytes)) in
     if trailing_zero_start \<noteq> 0 \<and> length bytes - trailing_zero_start \<ge> 0x4000 then trailing_zero_start else length bytes)"

definition pad_ram :: "nat \<Rightarrow> u8 list \<Rightarrow> u8 list" where
  "pad_ram declared bytes = (if length bytes < declared then bytes @ replicate (declared - length bytes) 0xFF else bytes)"

definition cart_load :: "file_system \<Rightarrow> string \<Rightarrow> string \<Rightarrow> cartridge \<Rightarrow> bool \<times> cartridge" where
  "cart_load fs configured_rom configured_save c = (let
     bytes = read_file fs configured_rom;
     c = c\<lparr>rom_path := configured_rom, save_path := configured_save, rom := bytes, rom_open_bus_start := length bytes\<rparr> in
     if length bytes < 0x150 then (False, c)
     else let c = c\<lparr>rom_open_bus_start := open_bus_start bytes\<rparr> in
     case mbc_of_type (bytes ! 0x147) of
       None \<Rightarrow> (False, c)
     | Some k \<Rightarrow> let saved = (if configured_save \<noteq> '''' then read_file fs configured_save else ram c) in
         (True, c\<lparr>mbc := k, ram := pad_ram (header_ram_size (bytes ! 0x149)) saved\<rparr>))"

definition rom_index :: "cartridge \<Rightarrow> nat \<Rightarrow> nat \<Rightarrow> nat" where
  "rom_index c bank address_in_bank =
     (if rom c = [] then 0
      else let banks = (length (rom c) + 0x3FFF) div 0x4000 in (bank mod banks) * 0x4000 + address_in_bank)"

definition selected_switchable_rom_bank :: "cartridge \<Rightarrow> nat" where
  "selected_switchable_rom_bank c =
     (if mbc c = Mbc5 then unat (mbc5_rom_bank c)
      else if mbc c = Mbc1 then
        let bank = unat (rom_bank_low c AND 0x1F) OR push_bit 5 (unat (bank_high c AND 0x03)) in
        if bank AND 0x1F = 0 then bank + 1 else bank
      else let bank = unat (rom_bank_low c AND 0x7F) in if bank = 0 then 1 else bank)"

definition selected_ram_offset :: "cartridge \<Rightarrow> u16 \<Rightarrow> nat" where
  "selected_ram_offset c address = (let offset = unat address - 0xA000;
     selected_bank = (if mbc c = Mbc1 \<and> mbc1_mode c = 0 then 0 else unat (ram_bank c AND 0x03)) in
     selected_bank * 0x2000 + offset)"

definition rom_read :: "cartridge \<Rightarrow> nat \<Rightarrow> u8" where
  "rom_read c index = (if index \<ge> rom_open_bus_start c then 0xFF else if index < length (rom c) then rom c ! index else 0xFF)"

definition cart_read :: "cartridge \<Rightarrow> u16 \<Rightarrow> u8" where
  "cart_read c address =
     (if address < 0x4000 then
        let bank = (if mbc c = Mbc1 \<and> mbc1_mode c \<noteq> 0 then push_bit 5 (unat (bank_high c AND 0x03)) else 0) in
        rom_read c (rom_index c bank (unat address))
      else if address < 0x8000 then rom_read c (rom_index c (selected_switchable_rom_bank c) (unat (address - 0x4000)))
      else if address \<ge> 0xA000 \<and> address < 0xC000 \<and> ram_enabled c then
        let index = selected_ram_offset c address in if index < length (ram c) then ram c ! index else 0xFF
      else 0xFF)"

text \<open>A byte of RAM is stored, and the RAM marked dirty, only when it changes.\<close>

definition store_ram :: "nat \<Rightarrow> u8 \<Rightarrow> cartridge \<Rightarrow> cartridge" where
  "store_ram index v c = (if index < length (ram c) \<and> ram c ! index \<noteq> v then c\<lparr>ram := (ram c)[index := v], dirty := True\<rparr> else c)"

definition cart_write :: "u16 \<Rightarrow> u8 \<Rightarrow> cartridge \<Rightarrow> cartridge" where
  "cart_write address v c =
     (if mbc c = RomOnly then
        if address \<ge> 0xA000 \<and> address < 0xC000 \<and> ram c \<noteq> [] then store_ram (unat address - 0xA000) v c else c
      else if address < 0x2000 then c\<lparr>ram_enabled := (v AND 0x0F = 0x0A)\<rparr>
      else if address < 0x4000 then
        if mbc c = Mbc1 then c\<lparr>rom_bank_low := (if v AND 0x1F = 0 then 1 else v AND 0x1F)\<rparr>
        else if mbc c = Mbc5 then
          if address < 0x3000 then c\<lparr>mbc5_rom_bank := (mbc5_rom_bank c AND 0x100) OR ucast v\<rparr>
          else c\<lparr>mbc5_rom_bank := (mbc5_rom_bank c AND 0x0FF) OR push_bit 8 (ucast (v AND 1))\<rparr>
        else c\<lparr>rom_bank_low := (if v AND 0x7F = 0 then 1 else v AND 0x7F)\<rparr>
      else if address < 0x6000 then
        if mbc c = Mbc1 then c\<lparr>bank_high := v AND 0x03, ram_bank := v AND 0x03\<rparr>
        else if mbc c = Mbc5 then c\<lparr>ram_bank := v AND 0x0F\<rparr>
        else if v \<le> 0x03 then c\<lparr>ram_bank := v\<rparr> else c
      else if address < 0x8000 then if mbc c = Mbc1 then c\<lparr>mbc1_mode := v AND 1\<rparr> else c
      else if address \<ge> 0xA000 \<and> address < 0xC000 \<and> ram_enabled c then store_ram (selected_ram_offset c address) v c
      else c)"

text \<open>
  What the host does with the save file: it is written, cannot be opened, fails while written, or
  accepts the bytes and fails when it is closed; a failed file is left with other contents.
\<close>

datatype file_io = IoOk | OpenFails | WriteFails "u8 list" | CloseFails "u8 list"

fun flush_save :: "file_io \<Rightarrow> file_system \<times> cartridge \<Rightarrow> file_system \<times> cartridge" where
  "flush_save io (fs, c) = (if \<not> dirty c \<or> save_path c = '''' then (fs, c)
     else case io of
       OpenFails \<Rightarrow> (fs, c)
     | IoOk \<Rightarrow> (fs(save_path c \<mapsto> ram c), c\<lparr>dirty := False\<rparr>)
     | WriteFails left \<Rightarrow> (fs(save_path c \<mapsto> left), c)
     | CloseFails left \<Rightarrow> (fs(save_path c \<mapsto> left), c\<lparr>dirty := False\<rparr>))"

section \<open>The Transfer Pak\<close>

record port =
  configured :: bool
  pak_enabled :: bool
  cart_enabled :: bool
  address_bank :: u8
  reset_state :: u8
  cart :: cartridge

definition new_port :: port where
  "new_port = \<lparr>configured = False, pak_enabled = False, cart_enabled = False, address_bank = 3, reset_state = 0, cart = new_cartridge\<rparr>"

definition port_status :: "port \<Rightarrow> u8 \<times> port" where
  "port_status p = (
     (if cart_enabled p then 0x01 else 0) OR push_bit 2 (reset_state p AND 0x03) OR (if configured p then 0 else 0x40)
       OR (if pak_enabled p then 0x80 else 0),
     if cart_enabled p \<and> reset_state p = 3 then p\<lparr>reset_state := 2\<rparr>
     else if \<not> cart_enabled p \<and> reset_state p = 2 then p\<lparr>reset_state := 1\<rparr>
     else if \<not> cart_enabled p \<and> reset_state p = 1 then p\<lparr>reset_state := 0\<rparr>
     else p)"

definition bus_address :: "port \<Rightarrow> u16 \<Rightarrow> u16" where
  "bus_address p accessory_address = transfer_pak_cart_window * ucast (address_bank p) + accessory_address - transfer_pak_cart_window"

definition port_read :: "u16 \<Rightarrow> port \<Rightarrow> u8 \<times> port" where
  "port_read accessory_address p = (let a = accessory_address AND transfer_pak_address_mask in
     if \<not> pak_enabled p then (0, p)
     else if a \<le> 0x1FFF then (0x84, p)
     else if a \<le> 0x2FFF then (address_bank p, p)
     else if a \<le> 0x3FFF then port_status p
     else if \<not> cart_enabled p then (0, p)
     else (cart_read (cart p) (bus_address p a), p))"

definition port_write :: "u16 \<Rightarrow> u8 \<Rightarrow> port \<Rightarrow> port" where
  "port_write accessory_address v p = (let a = accessory_address AND transfer_pak_address_mask in
     if a \<le> 0x1FFF then
       let enabled = (if v = 0x84 then True else if v = 0xFE then False else pak_enabled p) in
       if \<not> pak_enabled p \<and> enabled then p\<lparr>pak_enabled := True, address_bank := 3, cart_enabled := False, reset_state := 0\<rparr>
       else p\<lparr>pak_enabled := enabled\<rparr>
     else if \<not> pak_enabled p then p
     else if a \<le> 0x2FFF then p\<lparr>address_bank := (if v > 3 then 0 else v)\<rparr>
     else if a \<le> 0x3FFF then
       let enabled = (v AND 1 \<noteq> 0) in
       if \<not> cart_enabled p \<and> enabled then p\<lparr>cart_enabled := True, reset_state := 2\<rparr> else p\<lparr>cart_enabled := enabled\<rparr>
     else if \<not> cart_enabled p then p
     else p\<lparr>cart := cart_write (bus_address p a) v (cart p)\<rparr>)"

section \<open>Ports, the ring and the block calls\<close>

record ring_entry =
  seq :: u32
  tstamp_us :: u32
  thread_ptr :: u32
  block_addr :: u16
  entry_rom_bank :: u16
  entry_port :: u8
  kind :: u8
  addr_bank :: u8
  flags :: u8
  entry_ram_bank :: u8
  entry_mbc1_mode :: u8
  b0 :: u8

definition ring_cap :: nat where "ring_cap = 65536"

record paks =
  ports :: "nat \<Rightarrow> port"
  g_ring :: "nat \<Rightarrow> ring_entry option"
  g_ring_seq :: u32
  files :: file_system

definition ring_append :: "u32 \<Rightarrow> u32 \<Rightarrow> nat \<Rightarrow> u8 \<Rightarrow> u16 \<Rightarrow> u8 \<Rightarrow> paks \<Rightarrow> paks" where
  "ring_append now thr i k block_address first w = (let p = ports w i;
     e = \<lparr>seq = g_ring_seq w, tstamp_us = now, thread_ptr = thr, block_addr = block_address,
          entry_rom_bank = of_nat (selected_switchable_rom_bank (cart p)), entry_port = of_nat i, kind = k, addr_bank = address_bank p,
          flags = (if pak_enabled p then 1 else 0) OR (if cart_enabled p then 2 else 0) OR (if ram_enabled (cart p) then 4 else 0),
          entry_ram_bank = ram_bank (cart p), entry_mbc1_mode = mbc1_mode (cart p), b0 = first\<rparr> in
     w\<lparr>g_ring := (g_ring w)(unat (g_ring_seq w) mod ring_cap \<mapsto> e), g_ring_seq := g_ring_seq w + 1\<rparr>)"

definition set_port :: "nat \<Rightarrow> port \<Rightarrow> paks \<Rightarrow> paks" where
  "set_port i p w = w\<lparr>ports := (ports w)(i := p)\<rparr>"

definition set_cart :: "int \<Rightarrow> string \<Rightarrow> string \<Rightarrow> paks \<Rightarrow> paks" where
  "set_cart pt configured_rom configured_save w =
     (if pt < 0 \<or> pt \<ge> port_count then w
      else if configured_rom = '''' then set_port (nat pt) new_port w
      else let (ok, c) = cart_load (files w) configured_rom configured_save (cart new_port) in
        set_port (nat pt) (new_port\<lparr>configured := ok, cart := c\<rparr>) w)"

definition has_pak :: "int \<Rightarrow> paks \<Rightarrow> bool" where
  "has_pak pt w \<longleftrightarrow> pt \<ge> 0 \<and> pt < port_count \<and> configured (ports w (nat pt))"

text \<open>The per-byte loops of the block calls.\<close>

primrec read_bytes :: "nat \<Rightarrow> u16 \<Rightarrow> port \<Rightarrow> u8 list \<times> port" where
  "read_bytes 0 a p = ([], p)"
| "read_bytes (Suc n) a p = (let (v, p) = port_read a p; (vs, p) = read_bytes n (a + 1) p in (v # vs, p))"

primrec write_bytes :: "u8 list \<Rightarrow> u16 \<Rightarrow> port \<Rightarrow> port" where
  "write_bytes [] a p = p"
| "write_bytes (v # vs) a p = write_bytes vs (a + 1) (port_write a v p)"

text \<open>
  \<open>out\<close> says whether the caller's buffer is not null; the bytes written there are returned. A null
  \<open>data\<close> is \<open>None\<close>.
\<close>

definition read_block :: "u32 \<Rightarrow> u32 \<Rightarrow> int \<Rightarrow> u16 \<Rightarrow> bool \<Rightarrow> paks \<Rightarrow> int \<times> u8 list \<times> paks" where
  "read_block now thr pt block_address out w =
     (if pt < 0 \<or> pt \<ge> port_count \<or> \<not> configured (ports w (nat pt)) then (pfs_err_no_pak, [], w)
      else if \<not> out then (pfs_err_invalid, [], w)
      else let i = nat pt; byte_address = block_address * of_nat block_size;
        (bytes, p) = (if byte_address AND transfer_pak_address_mask \<le> 0x3FFF
          then let (v, p) = port_read byte_address (ports w i) in (replicate block_size v, p)
          else read_bytes block_size byte_address (ports w i)) in
        (0, bytes, ring_append now thr i 0 block_address (bytes ! 0) (set_port i p w)))"

definition flush_port :: "file_io \<Rightarrow> nat \<Rightarrow> paks \<Rightarrow> paks" where
  "flush_port io i w = (let (fs, c) = flush_save io (files w, cart (ports w i)) in
     (set_port i ((ports w i)\<lparr>cart := c\<rparr>) w)\<lparr>files := fs\<rparr>)"

definition write_block :: "u32 \<Rightarrow> u32 \<Rightarrow> file_io \<Rightarrow> int \<Rightarrow> u16 \<Rightarrow> u8 list option \<Rightarrow> paks \<Rightarrow> int \<times> paks" where
  "write_block now thr io pt block_address data w =
     (if pt < 0 \<or> pt \<ge> port_count \<or> \<not> configured (ports w (nat pt)) then (pfs_err_no_pak, w)
      else case data of None \<Rightarrow> (pfs_err_invalid, w)
      | Some bytes \<Rightarrow> let i = nat pt; byte_address = block_address * of_nat block_size;
          w = set_port i (write_bytes (take block_size bytes) byte_address (ports w i)) w;
          w = ring_append now thr i 1 block_address (bytes ! 0) w in
          (0, flush_port io i w))"

definition flush_all :: "(nat \<Rightarrow> file_io) \<Rightarrow> paks \<Rightarrow> paks" where
  "flush_all io w = fold (\<lambda>i w. if configured (ports w i) then flush_port (io i) i w else w) [0..<nat port_count] w"

end
