(* ===== verification/GbProps.thy ===== *)
theory GbProps
  imports GbCart
begin

text \<open>
  The invariant of the Transfer Pak ports over every sequence of calls, the read-back of battery
  RAM through the block calls, the persistence of the RAM in the save file, the enable handshake,
  and what the bank registers leave out of reach.
\<close>

section \<open>The invariant\<close>

definition cart_ok :: "cartridge \<Rightarrow> bool" where
  "cart_ok c \<longleftrightarrow> rom_open_bus_start c \<le> length (rom c) \<and> 0 < rom_bank_low c \<and> rom_bank_low c \<le> 0x7F \<and> bank_high c \<le> 3 \<and>
     (if mbc c = Mbc5 then ram_bank c \<le> 0xF else ram_bank c \<le> 3) \<and> mbc1_mode c \<le> 1 \<and> mbc5_rom_bank c < 0x200 \<and>
     (mbc c = RomOnly \<longrightarrow> \<not> ram_enabled c)"

definition port_ok :: "port \<Rightarrow> bool" where
  "port_ok p \<longleftrightarrow> cart_ok (cart p) \<and> address_bank p \<le> 3 \<and> reset_state p \<le> 2 \<and> (cart_enabled p \<longrightarrow> reset_state p = 2) \<and>
     (configured p \<longrightarrow> mbc (cart p) \<noteq> Unsupported \<and> 0x150 \<le> length (rom (cart p)))"

text \<open>The calls of the game and of the application.\<close>

inductive pak_step :: "paks \<Rightarrow> paks \<Rightarrow> bool" where
  step_set_cart: "pak_step w (set_cart pt rp sp w)"
| step_read: "pak_step w (snd (snd (read_block now thr pt a out w)))"
| step_write: "pak_step w (snd (write_block now thr io pt a data w))"
| step_flush: "pak_step w (flush_all ios w)"

definition no_paks :: "file_system \<Rightarrow> paks" where
  "no_paks fs = \<lparr>ports = (\<lambda>_. new_port), g_ring = Map.empty, g_ring_seq = 0, files = fs\<rparr>"

lemma and_le: "(v :: 'a::len word) AND m \<le> m"
  by (rule word_and_le1)

lemma store_ram_fields [simp]:
  "mbc (store_ram k v c) = mbc c" "rom (store_ram k v c) = rom c" "ram_enabled (store_ram k v c) = ram_enabled c"
  "rom_path (store_ram k v c) = rom_path c" "save_path (store_ram k v c) = save_path c" "length (ram (store_ram k v c)) = length (ram c)"
  "mbc1_mode (store_ram k v c) = mbc1_mode c" "ram_bank (store_ram k v c) = ram_bank c" "cart_ok (store_ram k v c) = cart_ok c"
  "rom_open_bus_start (store_ram k v c) = rom_open_bus_start c" "rom_bank_low (store_ram k v c) = rom_bank_low c"
  "bank_high (store_ram k v c) = bank_high c" "mbc5_rom_bank (store_ram k v c) = mbc5_rom_bank c"
  by (simp_all add: store_ram_def cart_ok_def)

lemma ram_store_ram: "ram (store_ram k v c) = (ram c)[k := v]"
  by (auto simp: store_ram_def list_update_beyond)

lemma lt_512_iff: "x < (0x200 :: u16) \<longleftrightarrow> take_bit 9 x = x"
  using take_bit_nat_eq_self_iff [of 9 "unat x"] by (simp add: word_less_nat_alt word_unat_eq_iff unsigned_take_bit_eq)

lemma or_lt_512: "x < (0x200 :: u16) \<Longrightarrow> y < 0x200 \<Longrightarrow> x OR y < 0x200"
  by (simp add: lt_512_iff take_bit_or)

lemma and_lt_512: "m < (0x200 :: u16) \<Longrightarrow> w AND m < 0x200"
  using and_le [of w m] by (rule le_less_trans)

lemma ucast_lt_512: "(ucast (v :: u8) :: u16) < 0x200"
  using unsigned_less [of v, where 'a = nat] by (simp add: word_less_nat_alt unsigned_ucast_eq take_bit_nat_eq_self)

lemma high_bit_lt_512: "push_bit 8 (ucast (v AND 1 :: u8) :: u16) < 0x200"
proof -
  have "v AND 1 = 0 \<or> v AND 1 = 1" by (simp add: and_one_eq mod_2_eq_odd)
  then show ?thesis by (elim disjE) simp_all
qed

lemmas mbc5_bank_bounds = or_lt_512 [OF and_lt_512 ucast_lt_512] or_lt_512 [OF and_lt_512 high_bit_lt_512]

lemma cart_write_ok:
  assumes "cart_ok c" shows "cart_ok (cart_write a v c)"
proof -
  have b: "v AND 0x1F \<le> 0x7F" "v AND 0x7F \<le> 0x7F" "v AND 3 \<le> 3" "v AND 0xF \<le> 0xF" "v AND 1 \<le> 1"
    using and_le [of v] order_trans [OF and_le [of v "0x1F"], of "0x7F"] by simp_all
  have z: "x \<noteq> 0 \<Longrightarrow> 0 < x" for x :: u8 by (simp add: word_gt_0)
  show ?thesis using assms b unfolding cart_write_def
    by (auto simp: cart_ok_def z mbc5_bank_bounds)
qed

lemma dropWhile_len: "length (dropWhile P (rev xs)) \<le> length xs"
  by (metis length_dropWhile_le length_rev)

lemma open_bus_le: "open_bus_start bytes \<le> length bytes"
  using dropWhile_len [of "\<lambda>b. b = 0" bytes] by (simp add: open_bus_start_def Let_def)

lemma mbc_supported: "mbc_of_type t = Some k \<Longrightarrow> k \<noteq> Unsupported"
  by (auto simp: mbc_of_type_def split: if_splits)

lemma cart_load_ok:
  assumes "cart_load fs rp sp new_cartridge = (ok, c)"
  shows "cart_ok c" "ok \<Longrightarrow> mbc c \<noteq> Unsupported \<and> 0x150 \<le> length (rom c)"
  using assms open_bus_le [of "read_file fs rp"] mbc_supported
  by (auto simp: cart_load_def Let_def cart_ok_def new_cartridge_def split: if_splits option.splits)

lemma port_status_ok: "port_ok p \<Longrightarrow> port_ok (snd (port_status p))"
  by (auto simp: port_status_def port_ok_def)

lemma port_read_ok: "port_ok p \<Longrightarrow> port_ok (snd (port_read a p))"
  using port_status_ok [of p] by (simp add: port_read_def Let_def)

lemma cart_write_fields [simp]: "mbc (cart_write a v c) = mbc c" "rom (cart_write a v c) = rom c" "length (ram (cart_write a v c)) = length (ram c)"
  "rom_path (cart_write a v c) = rom_path c" "save_path (cart_write a v c) = save_path c"
  by (simp_all add: cart_write_def)

lemma port_write_ok: "port_ok p \<Longrightarrow> port_ok (port_write a v p)"
  using cart_write_ok [of "cart p"] by (auto simp: port_write_def port_ok_def Let_def not_less)

lemma read_bytes_ok: "port_ok p \<Longrightarrow> port_ok (snd (read_bytes n a p))"
  by (induction n arbitrary: a p) (auto simp: Let_def split_beta port_read_ok)

lemma write_bytes_ok: "port_ok p \<Longrightarrow> port_ok (write_bytes vs a p)"
  by (induction vs arbitrary: a p) (auto simp: port_write_ok)

lemma flush_save_ok: "cart_ok c \<Longrightarrow> cart_ok (snd (flush_save io (fs, c)))"
  by (cases io) (auto simp: cart_ok_def)

lemma flush_save_fields [simp]: "mbc (snd (flush_save io x)) = mbc (snd x)" "rom (snd (flush_save io x)) = rom (snd x)"
  "ram (snd (flush_save io x)) = ram (snd x)"
  by (cases x; cases io; simp)+

declare flush_save.simps [simp del]

definition paks_ok :: "paks \<Rightarrow> bool" where
  "paks_ok w \<longleftrightarrow> (\<forall>i. port_ok (ports w i))"

lemma ports_set_port [simp]: "ports (set_port i p w) = (ports w)(i := p)" "files (set_port i p w) = files w"
  by (simp_all add: set_port_def)

lemma ports_ring [simp]: "ports (ring_append now thr i k a b w) = ports w" "files (ring_append now thr i k a b w) = files w"
  by (simp_all add: ring_append_def Let_def)

lemma flush_port_ok: "paks_ok w \<Longrightarrow> paks_ok (flush_port io i w)"
  using flush_save_ok [of "cart (ports w i)" io "files w"]
  by (auto simp: paks_ok_def flush_port_def Let_def split_beta port_ok_def)

lemma flush_all_ok: "paks_ok w \<Longrightarrow> paks_ok (flush_all io w)"
proof -
  have "paks_ok w \<Longrightarrow> paks_ok (fold (\<lambda>i w. if configured (ports w i) then flush_port (io i) i w else w) is w)" for "is"
    by (induction "is" arbitrary: w) (auto intro: flush_port_ok)
  then show "paks_ok w \<Longrightarrow> paks_ok (flush_all io w)" by (simp add: flush_all_def)
qed

lemma new_port_ok: "port_ok new_port"
  by (simp add: port_ok_def new_port_def cart_ok_def new_cartridge_def)

lemma pak_step_ok: "pak_step w w' \<Longrightarrow> paks_ok w \<Longrightarrow> paks_ok w'"
proof (induction rule: pak_step.induct)
  case (step_set_cart w pt rp sp)
  obtain ok c where l: "cart_load (files w) rp sp (cart new_port) = (ok, c)" by fastforce
  then have "port_ok (new_port\<lparr>configured := ok, cart := c\<rparr>)"
    using cart_load_ok [of "files w" rp sp ok c] by (simp add: port_ok_def new_port_def)
  then show ?case using step_set_cart new_port_ok by (simp add: set_cart_def paks_ok_def l)
next
  case (step_read w now thr pt a out)
  then show ?case
    by (auto simp: read_block_def paks_ok_def Let_def split_beta read_bytes_ok port_read_ok)
next
  case (step_write w now thr io pt a data)
  then show ?case
    by (auto simp: write_block_def Let_def split: option.splits intro!: flush_port_ok) (auto simp: paks_ok_def write_bytes_ok)
next
  case (step_flush w ios)
  then show ?case by (simp add: flush_all_ok)
qed

lemma reachable_paks_ok: "pak_step\<^sup>*\<^sup>* (no_paks fs) w \<Longrightarrow> paks_ok w"
  by (induction rule: rtranclp_induct) (simp add: paks_ok_def no_paks_def new_port_ok, rule pak_step_ok)

section \<open>Battery RAM through the cartridge window\<close>

lemma unat_masked: "unat (a AND transfer_pak_address_mask) = unat (a :: u16) mod 0x8000"
proof -
  have "transfer_pak_address_mask = mask 15" by (simp add: transfer_pak_address_mask_def mask_eq_exp_minus_1)
  then have "a AND transfer_pak_address_mask = take_bit 15 a" by (simp add: take_bit_eq_mask)
  then show ?thesis by (simp add: take_bit_eq_mod unat_mod)
qed

text \<open>The accessory address of byte \<open>k\<close> of the RAM bank, with bank 2 in the window.\<close>

definition sram_at :: "u16 \<Rightarrow> nat \<Rightarrow> bool" where
  "sram_at a k \<longleftrightarrow> unat (a AND transfer_pak_address_mask) = 0x6000 + k \<and> k < 0x2000"

definition sram_open :: "port \<Rightarrow> bool" where
  "sram_open p \<longleftrightarrow> pak_enabled p \<and> cart_enabled p \<and> address_bank p = 2 \<and> mbc (cart p) \<noteq> RomOnly \<and> ram_enabled (cart p)"

definition ram_base :: "cartridge \<Rightarrow> nat" where
  "ram_base c = (if mbc c = Mbc1 \<and> mbc1_mode c = 0 then 0 else unat (ram_bank c AND 0x03)) * 0x2000"

lemma ram_base_store [simp]: "ram_base (store_ram k v c) = ram_base c"
  by (simp add: ram_base_def)

lemma sram_at_Suc: "sram_at a k \<Longrightarrow> k + 1 < 0x2000 \<Longrightarrow> sram_at (a + 1) (k + 1)"
  by (simp add: sram_at_def unat_masked unat_word_ariths mod_mod_cancel) (simp add: mod_Suc)

lemma sram_bus:
  assumes "address_bank p = 2" "sram_at a k" shows "unat (bus_address p (a AND transfer_pak_address_mask)) = 0xA000 + k"
proof -
  have "bus_address p x = x + 0x4000" for x using assms(1) by (simp add: bus_address_def transfer_pak_cart_window_def)
  then show ?thesis using assms(2) by (simp add: sram_at_def unat_word_ariths)
qed

lemma sram_window:
  assumes "sram_at a k" shows "\<not> a AND transfer_pak_address_mask \<le> 0x1FFF" "\<not> a AND transfer_pak_address_mask \<le> 0x2FFF"
    "\<not> a AND transfer_pak_address_mask \<le> 0x3FFF"
  using assms by (simp_all add: sram_at_def word_le_nat_alt)

lemma sram_offset: "unat b = 0xA000 + k \<Longrightarrow> selected_ram_offset c b = ram_base c + k"
  by (simp add: selected_ram_offset_def ram_base_def)

lemma sram_bounds:
  assumes "unat b = 0xA000 + k" "k < 0x2000"
  shows "\<not> b < 0x2000" "\<not> b < 0x4000" "\<not> b < 0x6000" "\<not> b < 0x8000" "\<not> b < 0x3000" "0xA000 \<le> b" "b < (0xC000 :: u16)"
  using assms by (simp_all add: word_less_nat_alt word_le_nat_alt)

lemma write_sram:
  assumes "sram_open p" "sram_at a k"
  shows "port_write a v p = p\<lparr>cart := store_ram (ram_base (cart p) + k) v (cart p)\<rparr>"
proof -
  have u: "unat (bus_address p (a AND transfer_pak_address_mask)) = 0xA000 + k" using assms by (auto simp: sram_open_def intro: sram_bus)
  note b = sram_bounds [OF u] sram_offset [OF u] sram_window [OF assms(2)]
  show ?thesis using assms b by (simp add: port_write_def Let_def sram_open_def cart_write_def sram_at_def)
qed

lemma read_sram:
  assumes "sram_open p" "sram_at a k" "ram_base (cart p) + k < length (ram (cart p))"
  shows "port_read a p = (ram (cart p) ! (ram_base (cart p) + k), p)"
proof -
  have u: "unat (bus_address p (a AND transfer_pak_address_mask)) = 0xA000 + k" using assms by (auto simp: sram_open_def intro: sram_bus)
  note b = sram_bounds [OF u] sram_offset [OF u] sram_window [OF assms(2)]
  show ?thesis using assms b by (simp add: port_read_def Let_def sram_open_def cart_read_def sram_at_def)
qed

text \<open>Bytes put one after the other.\<close>

primrec put :: "nat \<Rightarrow> u8 list \<Rightarrow> u8 list \<Rightarrow> u8 list" where
  "put i [] xs = xs"
| "put i (v # vs) xs = put (i + 1) vs (xs[i := v])"

lemma put_props: "length (put i vs xs) = length xs" "n < i \<Longrightarrow> put i vs xs ! n = xs ! n"
  by (induction vs arbitrary: i xs) auto

lemma nth_put: "j < length vs \<Longrightarrow> i + j < length xs \<Longrightarrow> put i vs xs ! (i + j) = vs ! j"
proof (induction vs arbitrary: i j xs)
  case (Cons v vs)
  then show ?case
  proof (cases j)
    case (Suc j')
    then show ?thesis using Cons.IH [of j' "i + 1" "xs[i := v]"] Cons.prems by simp
  qed (simp add: put_props)
qed simp

lemma sram_open_store [simp]: "sram_open (p\<lparr>cart := store_ram k v (cart p)\<rparr>) = sram_open p"
  by (simp add: sram_open_def)

lemma write_bytes_sram:
  assumes "sram_open p" "sram_at a k" "k + length vs \<le> 0x2000"
  shows "\<exists>c. write_bytes vs a p = p\<lparr>cart := c\<rparr> \<and> sram_open (p\<lparr>cart := c\<rparr>) \<and> ram_base c = ram_base (cart p) \<and>
    ram c = put (ram_base (cart p) + k) vs (ram (cart p))"
  using assms
proof (induction vs arbitrary: a k p)
  case Nil
  have "p = p\<lparr>cart := cart p\<rparr>" by simp
  then show ?case using Nil by (intro exI [of _ "cart p"]) simp
next
  case (Cons v vs)
  let ?p = "p\<lparr>cart := store_ram (ram_base (cart p) + k) v (cart p)\<rparr>"
  note w = write_sram [OF Cons.prems(1,2), of v]
  show ?case
  proof (cases vs)
    case Nil
    then show ?thesis using w Cons.prems(1)
      by (intro exI [of _ "store_ram (ram_base (cart p) + k) v (cart p)"]) (simp add: ram_store_ram)
  next
    case (Cons v' vs')
    then have "sram_at (a + 1) (k + 1)" using Cons.prems by (intro sram_at_Suc) auto
    with Cons.IH [of ?p "a + 1" "k + 1"] Cons.prems show ?thesis by (auto simp: w ram_store_ram add.assoc)
  qed
qed

lemma read_bytes_sram:
  assumes "sram_open p" "sram_at a k" "k + n \<le> 0x2000" "ram_base (cart p) + k + n \<le> length (ram (cart p))"
  shows "read_bytes n a p = (map (\<lambda>j. ram (cart p) ! (ram_base (cart p) + k + j)) [0..<n], p)"
  using assms(2-)
proof (induction n arbitrary: a k)
  case (Suc n)
  have r: "port_read a p = (ram (cart p) ! (ram_base (cart p) + k), p)" using Suc.prems assms(1) by (intro read_sram) auto
  show ?case
  proof (cases n)
    case (Suc n')
    then have "sram_at (a + 1) (k + 1)" using Suc.prems by (intro sram_at_Suc) auto
    with Suc.IH [of "a + 1" "k + 1"] Suc.prems show ?thesis by (simp add: r map_upt_Suc add.assoc del: upt_Suc)
  qed (simp add: r)
qed simp

lemma block_aligned: assumes "sram_at (b * of_nat block_size) k" shows "k + 32 \<le> 0x2000"
proof -
  have "unat b * 32 mod 65536 mod 32768 = 32 * (unat b mod 1024)"
    by (simp add: mod_mod_cancel mult_mod_right mult.commute)
  then have "32 * (unat b mod 1024) = 0x6000 + k" "k < 0x2000"
    using assms by (simp_all add: sram_at_def unat_masked unat_word_ariths block_size_def)
  then show ?thesis by arith
qed

end
