(* ===== verification/GbClaims.thy ===== *)
theory GbClaims
  imports GbProps
begin

text \<open>
  The properties of the Transfer Pak, with the lemmas on save files, on the enable handshake and on
  the reach of the bank registers that they rest on.
\<close>

section \<open>Save files\<close>

text \<open>
  The state of a cartridge that was loaded from its files: a clean RAM is the save file, padded to
  the size the header declares.
\<close>

definition backed :: "file_system \<Rightarrow> cartridge \<Rightarrow> bool" where
  "backed fs c \<longleftrightarrow> read_file fs (rom_path c) = rom c \<and> 0x150 \<le> length (rom c) \<and> mbc_of_type (rom c ! 0x147) = Some (mbc c) \<and>
     header_ram_size (rom c ! 0x149) \<le> length (ram c) \<and>
     (\<not> dirty c \<longrightarrow> pad_ram (header_ram_size (rom c ! 0x149)) (read_file fs (save_path c)) = ram c)"

lemma pad_ram_length: "n \<le> length (pad_ram n xs)"
  by (simp add: pad_ram_def)

lemma pad_ram_id: "n \<le> length xs \<Longrightarrow> pad_ram n xs = xs"
  by (simp add: pad_ram_def)

lemma load_backed:
  assumes "cart_load fs rp sp new_cartridge = (True, c)" "sp \<noteq> ''''"
  shows "backed fs c" "rom_path c = rp" "save_path c = sp" "\<not> dirty c"
  using assms by (auto simp: cart_load_def Let_def backed_def pad_ram_length new_cartridge_def split: if_splits option.splits)

lemma backed_reload:
  assumes "backed fs c" "\<not> dirty c" "save_path c \<noteq> ''''"
  shows "fst (cart_load fs (rom_path c) (save_path c) new_cartridge)" "ram (snd (cart_load fs (rom_path c) (save_path c) new_cartridge)) = ram c"
  using assms by (simp_all add: cart_load_def Let_def backed_def)

lemma cart_write_clean: "\<not> dirty (cart_write a v c) \<Longrightarrow> \<not> dirty c \<and> ram (cart_write a v c) = ram c"
  by (auto simp: cart_write_def store_ram_def split: if_splits)

lemma cart_write_backed: "backed fs c \<Longrightarrow> backed fs (cart_write a v c)"
  using cart_write_clean [of a v c] by (auto simp: backed_def)

lemma port_write_cart: "cart (port_write a v p) = cart p \<or> (\<exists>b. cart (port_write a v p) = cart_write b v (cart p))"
  by (auto simp: port_write_def Let_def)

lemma port_write_configured [simp]: "configured (port_write a v p) = configured p"
  by (simp add: port_write_def Let_def)

definition loaded :: "file_system \<Rightarrow> string \<Rightarrow> string \<Rightarrow> port \<Rightarrow> bool" where
  "loaded fs rp sp p \<longleftrightarrow> configured p \<and> backed fs (cart p) \<and> rom_path (cart p) = rp \<and> save_path (cart p) = sp"

lemma port_write_loaded: "loaded fs rp sp p \<Longrightarrow> loaded fs rp sp (port_write a v p)"
  using port_write_cart [of a v p] cart_write_backed [of fs "cart p"] by (auto simp: loaded_def)

lemma write_bytes_loaded: "loaded fs rp sp p \<Longrightarrow> loaded fs rp sp (write_bytes vs a p)"
  by (induction vs arbitrary: a p) (auto simp: port_write_loaded)

lemma flush_save_backed:
  assumes "backed fs c" "rom_path c \<noteq> save_path c" "save_path c \<noteq> ''''" "flush_save IoOk (fs, c) = (fs', c')"
  shows "backed fs' c'" "\<not> dirty c'" "rom_path c' = rom_path c" "save_path c' = save_path c" "ram c' = ram c"
  using assms by (auto simp: flush_save.simps backed_def read_file_def pad_ram_id split: if_splits)

definition saved_pak :: "string \<Rightarrow> string \<Rightarrow> nat \<Rightarrow> paks \<Rightarrow> bool" where
  "saved_pak rp sp i w \<longleftrightarrow> loaded (files w) rp sp (ports w i) \<and> \<not> dirty (cart (ports w i))"

lemma flush_port_saved:
  assumes "loaded (files w) rp sp (ports w i)" "rp \<noteq> sp" "sp \<noteq> ''''" shows "saved_pak rp sp i (flush_port IoOk i w)"
proof -
  obtain fs c where f: "flush_save IoOk (files w, cart (ports w i)) = (fs, c)" by fastforce
  from flush_save_backed [OF _ _ _ f] assms show ?thesis by (simp add: flush_port_def f saved_pak_def loaded_def)
qed

lemma write_block_saved:
  assumes "saved_pak rp sp (nat pt) w" "rp \<noteq> sp" "sp \<noteq> ''''"
  shows "saved_pak rp sp (nat pt) (snd (write_block now thr IoOk pt a data w))"
proof (cases "pt < 0 \<or> pt \<ge> port_count \<or> data = None")
  case True
  then show ?thesis using assms by (auto simp: write_block_def)
next
  case False
  then obtain bytes where d: "data = Some bytes" by auto
  have "configured (ports w (nat pt))" using assms(1) by (simp add: saved_pak_def loaded_def)
  moreover have "loaded (files w) rp sp (ports w (nat pt))" using assms(1) by (simp add: saved_pak_def)
  ultimately show ?thesis using False d assms(2,3)
    by (auto simp: write_block_def Let_def intro!: flush_port_saved write_bytes_loaded)
qed

lemma set_cart_saved:
  assumes "has_pak pt (set_cart pt rp sp w)" "rp \<noteq> ''''" "sp \<noteq> ''''" shows "saved_pak rp sp (nat pt) (set_cart pt rp sp w)"
proof -
  obtain ok c where l: "cart_load (files w) rp sp new_cartridge = (ok, c)" by fastforce
  have "new_cartridge = cart new_port" by (simp add: new_port_def)
  with assms l have ok: "ok" and pt: "0 \<le> pt" "pt < port_count" by (auto simp: has_pak_def set_cart_def)
  note b = load_backed [OF l [unfolded eqTrueI [OF ok]] assms(3)]
  show ?thesis using pt assms(2) l ok b
    by (simp add: set_cart_def \<open>new_cartridge = cart new_port\<close> saved_pak_def loaded_def)
qed

lemma saved_reload:
  assumes "saved_pak rp sp (nat pt) w" "0 \<le> pt" "pt < port_count" "rp \<noteq> ''''" "sp \<noteq> ''''"
  shows "ram (cart (ports (set_cart pt rp sp w) (nat pt))) = ram (cart (ports w (nat pt)))" "has_pak pt (set_cart pt rp sp w)"
proof -
  let ?c = "cart (ports w (nat pt))"
  have r: "fst (cart_load (files w) rp sp new_cartridge)" "ram (snd (cart_load (files w) rp sp new_cartridge)) = ram ?c"
    using backed_reload [of "files w" ?c] assms(1,5) by (auto simp: saved_pak_def loaded_def)
  have n: "cart new_port = new_cartridge" by (simp add: new_port_def)
  show "ram (cart (ports (set_cart pt rp sp w) (nat pt))) = ram ?c" "has_pak pt (set_cart pt rp sp w)"
    using assms r by (simp_all add: set_cart_def n has_pak_def split_beta)
qed

section \<open>The enable handshake\<close>

lemma masked_Suc:
  assumes "unat (a AND transfer_pak_address_mask) + 1 < 0x8000"
  shows "unat ((a + 1) AND transfer_pak_address_mask) = unat (a AND transfer_pak_address_mask) + 1"
  using assms by (simp add: unat_masked unat_word_ariths mod_mod_cancel) (simp add: mod_Suc)

lemma enable_pak:
  "0 < n \<or> pak_enabled p \<Longrightarrow> unat (a AND transfer_pak_address_mask) + n \<le> 0x2000 \<Longrightarrow> pak_enabled (write_bytes (replicate n 0x84) a p)"
proof (induction n arbitrary: a p)
  case (Suc n)
  have "pak_enabled (port_write a 0x84 p)" using Suc.prems by (simp add: port_write_def Let_def word_le_nat_alt)
  then show ?case using Suc.IH [of "port_write a 0x84 p" "a + 1"] Suc.prems masked_Suc [of a] by simp
qed simp

lemma enable_cart:
  "0 < n \<or> cart_enabled p \<Longrightarrow> pak_enabled p \<Longrightarrow> 0x3000 \<le> unat (a AND transfer_pak_address_mask) \<Longrightarrow>
    unat (a AND transfer_pak_address_mask) + n \<le> 0x4000 \<Longrightarrow>
    pak_enabled (write_bytes (replicate n 1) a p) \<and> cart_enabled (write_bytes (replicate n 1) a p)"
proof (induction n arbitrary: a p)
  case (Suc n)
  have "pak_enabled (port_write a 1 p) \<and> cart_enabled (port_write a 1 p)" using Suc.prems by (simp add: port_write_def Let_def word_le_nat_alt)
  then show ?case using Suc.IH [of "port_write a 1 p" "a + 1"] Suc.prems masked_Suc [of a] by simp
qed simp

lemma write_bytes_configured [simp]: "configured (write_bytes vs a p) = configured p"
  by (induction vs arbitrary: a p) simp_all

lemma flush_save_bank: "mbc1_mode (snd (flush_save io (fs, c))) = mbc1_mode c" "ram_bank (snd (flush_save io (fs, c))) = ram_bank c"
  "ram_enabled (snd (flush_save io (fs, c))) = ram_enabled c"
  by (cases io; simp add: flush_save.simps)+

lemma write_block_port:
  assumes "has_pak pt w" "length bytes = block_size"
  shows "\<exists>c. ports (snd (write_block now thr io pt b (Some bytes) w)) (nat pt) = (write_bytes bytes (b * of_nat block_size) (ports w (nat pt)))\<lparr>cart := c\<rparr>"
    and "has_pak pt (snd (write_block now thr io pt b (Some bytes) w))"
  using assms by (auto simp: has_pak_def write_block_def Let_def flush_port_def split_beta)

lemma status_enabled:
  assumes "port_ok p" "configured p" "pak_enabled p" "cart_enabled p" shows "fst (port_status p) = 0x89"
  using assms by (simp add: port_status_def port_ok_def)

section \<open>The reach of the bank registers\<close>

lemma ram_offset_bound: "a < 0xC000 \<Longrightarrow> selected_ram_offset c a < 0x8000"
proof -
  assume "a < 0xC000"
  then have "unat a - 0xA000 < 0x2000" by (simp add: word_less_nat_alt)
  moreover have "unat (ram_bank c AND 3) \<le> 3" using and_le [of "ram_bank c" 3] by (simp add: word_le_nat_alt)
  ultimately show ?thesis by (auto simp: selected_ram_offset_def)
qed

lemma drop_store_ram: "k < n \<Longrightarrow> drop n (ram (store_ram k v c)) = drop n (ram c)"
  by (simp add: ram_store_ram)

lemma ram_frame [simp]: "selected_ram_offset (c\<lparr>ram := r\<rparr>) a = selected_ram_offset c a" "rom_read (c\<lparr>ram := r\<rparr>) i = rom_read c i"
  "rom_index (c\<lparr>ram := r\<rparr>) b k = rom_index c b k" "selected_switchable_rom_bank (c\<lparr>ram := r\<rparr>) = selected_switchable_rom_bank c"
  by (simp_all add: selected_ram_offset_def rom_read_def rom_index_def selected_switchable_rom_bank_def)

lemma cart_read_take: "(a < 0xC000 \<Longrightarrow> selected_ram_offset c a < n) \<Longrightarrow> cart_read (c\<lparr>ram := take n (ram c)\<rparr>) a = cart_read c a"
  by (simp add: cart_read_def Let_def)

lemma rom_only_reads_ff: "cart_ok c \<Longrightarrow> mbc c = RomOnly \<Longrightarrow> 0x8000 \<le> a \<Longrightarrow> cart_read c a = 0xFF"
  by (auto simp: cart_read_def cart_ok_def word_less_nat_alt word_le_nat_alt)

section \<open>Reading back battery RAM\<close>

lemma sram_write_read:
  fixes now thr :: u32 and io :: file_io
  assumes "0 \<le> pt" "pt < port_count" "configured (ports w (nat pt))" "sram_open (ports w (nat pt))"
    and "sram_at (b * of_nat block_size) k" "length bytes = block_size"
    and "ram_base (cart (ports w (nat pt))) + k + block_size \<le> length (ram (cart (ports w (nat pt))))"
  defines "w' \<equiv> snd (write_block now thr io pt b (Some bytes) w)"
  shows "fst (write_block now thr io pt b (Some bytes) w) = 0 \<and>
    (\<exists>w''. read_block now' thr' pt b True w' = (0, bytes, w''))"
proof -
  let ?i = "nat pt" and ?a = "b * of_nat block_size" and ?p = "ports w (nat pt)"
  have bs: "block_size = 32" by (simp add: block_size_def)
  have al: "k + 32 \<le> 0x2000" using block_aligned [OF assms(5)] .
  obtain c where wb: "write_bytes bytes ?a ?p = ?p\<lparr>cart := c\<rparr>" and op: "sram_open (?p\<lparr>cart := c\<rparr>)" and base: "ram_base c = ram_base (cart ?p)"
    and ram: "ram c = put (ram_base (cart ?p) + k) bytes (ram (cart ?p))"
    using write_bytes_sram [OF assms(4,5), of bytes] al assms(6) bs by auto
  let ?c = "snd (flush_save io (files w, c))"
  have fl: "ram ?c = ram c" "ram_base ?c = ram_base c" "sram_open (?p\<lparr>cart := ?c\<rparr>)"
    using op flush_save_bank [of io "files w" c] by (simp_all add: ram_base_def sram_open_def)
  have w': "ports w' ?i = ?p\<lparr>cart := ?c\<rparr>" and ok: "fst (write_block now thr io pt b (Some bytes) w) = 0"
    using assms(1-3,6) by (simp_all add: w'_def write_block_def Let_def wb flush_port_def split_beta)
  have "read_bytes block_size ?a (ports w' ?i) = (bytes, ports w' ?i)"
    unfolding w' using assms(5,6,7) al fl(3) bs
    by (subst read_bytes_sram [of _ _ k]) (auto simp: fl base ram put_props nth_put intro!: nth_equalityI)
  moreover have "configured (ports w' ?i)" using assms(3) w' by simp
  ultimately show ?thesis using ok assms(1,2) sram_window [OF assms(5)]
    by (simp add: read_block_def Let_def)
qed

section \<open>Examples\<close>

text \<open>A ROM of 16 KiB with the given cartridge type and RAM size in its header, and a file system that holds it.\<close>

definition demo_rom :: "u8 \<Rightarrow> u8 \<Rightarrow> u8 list" where
  "demo_rom type ram_code = replicate 0x147 1 @ [type, 0, ram_code] @ replicate 0x3EB6 1"

definition demo_files :: "u8 \<Rightarrow> u8 \<Rightarrow> file_system" where
  "demo_files type ram_code = Map.empty(''red.gb'' \<mapsto> demo_rom type ram_code)"

lemma demo_rom_header: "demo_rom t r ! 0x147 = t" "demo_rom t r ! 0x149 = r" "length (demo_rom t r) = 0x4000"
  by (simp_all add: demo_rom_def nth_append nth_Cons')

definition demo_paks :: "u8 \<Rightarrow> u8 \<Rightarrow> paks" where
  "demo_paks type ram_code = set_cart 0 ''red.gb'' ''red.sav'' (no_paks (demo_files type ram_code))"

lemma demo_load:
  assumes "mbc_of_type t = Some k"
  shows "configured (ports (demo_paks t r) 0)" "mbc (cart (ports (demo_paks t r) 0)) = k"
    "ram (cart (ports (demo_paks t r) 0)) = replicate (header_ram_size r) 0xFF"
  using assms by (simp_all add: demo_paks_def set_cart_def port_count_def cart_load_def read_file_def no_paks_def demo_files_def
    demo_rom_header Let_def pad_ram_def new_port_def new_cartridge_def)

lemma demo_types: "mbc_of_type 0x13 = Some Mbc3" "mbc_of_type 0x09 = Some RomOnly"
  by (simp_all add: mbc_of_type_def)

lemma demo_has_pak: "mbc_of_type t = Some k \<Longrightarrow> has_pak 0 (demo_paks t r)"
  by (simp add: has_pak_def port_count_def demo_load)

lemma demo_reachable: "pak_step\<^sup>*\<^sup>* (no_paks (demo_files t r)) (demo_paks t r)"
  unfolding demo_paks_def by (rule r_into_rtranclp) (rule step_set_cart)

text \<open>Port 0 with the RAM of an MBC3 cartridge in the window.\<close>

definition demo_window :: paks where
  "demo_window = set_port 0 ((ports (demo_paks 0x13 0x02) 0)\<lparr>pak_enabled := True, cart_enabled := True, address_bank := 2,
     cart := (cart (ports (demo_paks 0x13 0x02) 0))\<lparr>ram_enabled := True, ram_bank := 0\<rparr>\<rparr>) (demo_paks 0x13 0x02)"

lemma demo_window_props:
  "configured (ports demo_window 0)" "sram_open (ports demo_window 0)" "ram_base (cart (ports demo_window 0)) = 0"
  "length (ram (cart (ports demo_window 0))) = 0x2000"
  by (simp_all add: demo_window_def sram_open_def ram_base_def demo_load [OF demo_types(1)] header_ram_size_def)

section \<open>Properties\<close>

text \<open>
  C32. Every sequence of calls (inserting and removing cartridges, block reads and writes with any
  data and any outcome of the file writes, flushing) keeps the ports well-formed: the bank registers
  stay in their ranges, the ROM bank register is never 0, a configured port has a supported
  cartridge with a complete header, the open-bus limit lies within the ROM, and the reset state
  is 2 as long as the cartridge is enabled.
\<close>

theorem pak_invariant:
  assumes "pak_step\<^sup>*\<^sup>* (no_paks fs) w" shows "port_ok (ports w i)"
  using reachable_paks_ok [OF assms] by (simp add: paks_ok_def)

theorem pak_invariant_witness: "port_ok (ports (demo_paks 0x13 0x02) 0)"
  by (rule pak_invariant [OF demo_reachable])

text \<open>
  C33. Battery RAM reads back: with the Transfer Pak and the cartridge enabled, RAM enabled and bank
  2 in the window, a block written to the RAM window is returned by the next read of that block,
  whatever the outcome of writing the save file.
\<close>

theorem sram_block_roundtrip:
  fixes now thr :: u32 and io :: file_io
  assumes "0 \<le> pt" "pt < port_count" "configured (ports w (nat pt))" "sram_open (ports w (nat pt))"
    and "sram_at (b * of_nat block_size) k" "length bytes = block_size"
    and "ram_base (cart (ports w (nat pt))) + k + block_size \<le> length (ram (cart (ports w (nat pt))))"
  defines "w' \<equiv> snd (write_block now thr io pt b (Some bytes) w)"
  shows "fst (write_block now thr io pt b (Some bytes) w) = 0 \<and>
    (\<exists>w''. read_block now' thr' pt b True w' = (0, bytes, w''))"
  unfolding w'_def using assms(1-7) by (rule sram_write_read)

theorem sram_block_roundtrip_witness:
  "\<exists>w''. read_block 0 0 0 0x700 True (snd (write_block 0 0 OpenFails 0 0x700 (Some (replicate 32 0x5A)) demo_window)) = (0, replicate 32 0x5A, w'')"
proof -
  have "sram_at (0x700 * of_nat block_size) 0" by (simp add: sram_at_def block_size_def transfer_pak_address_mask_def)
  from sram_block_roundtrip [OF _ _ _ _ this, of 0 demo_window "replicate 32 0x5A" 0 0 OpenFails]
  show ?thesis by (simp add: port_count_def demo_window_props block_size_def)
qed

text \<open>
  C34. Battery RAM survives: after inserting a cartridge with a save file, any sequence of block
  writes whose file writes succeed leaves the save file such that inserting the same cartridge
  again yields a configured port with the same RAM.
\<close>

theorem save_survives_reload:
  fixes now thr :: u32 and blocks :: "(u16 \<times> u8 list option) list"
  assumes "rp \<noteq> ''''" "sp \<noteq> ''''" "rp \<noteq> sp" "has_pak pt (set_cart pt rp sp w)"
  defines "w' \<equiv> fold (\<lambda>(b, data) w. snd (write_block now thr IoOk pt b data w)) blocks (set_cart pt rp sp w)"
  shows "has_pak pt (set_cart pt rp sp w') \<and> ram (cart (ports (set_cart pt rp sp w') (nat pt))) = ram (cart (ports w' (nat pt)))"
proof -
  have "saved_pak rp sp (nat pt) v \<Longrightarrow> saved_pak rp sp (nat pt) (fold (\<lambda>(b, data) w. snd (write_block now thr IoOk pt b data w)) blocks v)" for v
    by (induction blocks arbitrary: v) (simp_all add: split_beta write_block_saved assms(2,3))
  then have "saved_pak rp sp (nat pt) w'" using set_cart_saved [OF assms(4,1,2)] unfolding w'_def .
  moreover have "0 \<le> pt" "pt < port_count" using assms(4) by (auto simp: has_pak_def)
  ultimately show ?thesis using saved_reload [of rp sp pt w'] assms(1,2) by simp
qed

theorem save_survives_reload_witness:
  "let w' = fold (\<lambda>(b, data) w. snd (write_block 0 0 IoOk 0 b data w)) [(0x400, Some (replicate 32 0x84))] (demo_paks 0x13 0x02) in
   has_pak 0 (set_cart 0 ''red.gb'' ''red.sav'' w') \<and>
   ram (cart (ports (set_cart 0 ''red.gb'' ''red.sav'' w') 0)) = ram (cart (ports w' 0))"
  using save_survives_reload [OF _ _ _ demo_has_pak [OF demo_types(1), of "0x02", unfolded demo_paks_def],
      of 0 0 "[(0x400, Some (replicate 32 0x84))]"]
  by (simp add: demo_paks_def Let_def)

text \<open>
  The enable handshake of the GB-Tower check: in every reachable state with a configured port,
  writing the enable block and then the cartridge-enable block makes the status block read 0x89 in
  all 32 bytes: pak enabled, reset detected, reset line released, cartridge enabled.
\<close>

theorem enable_handshake:
  assumes "pak_step\<^sup>*\<^sup>* (no_paks fs) w" "has_pak pt w"
  shows "let w1 = snd (write_block now thr io pt 0x400 (Some (replicate 32 0x84)) w);
             w2 = snd (write_block now thr io pt 0x580 (Some (replicate 32 1)) w1)
         in fst (snd (read_block now thr pt 0x580 True w2)) = replicate 32 0x89"
proof -
  let ?i = "nat pt"
  define w1 where "w1 = snd (write_block now thr io pt 0x400 (Some (replicate 32 0x84)) w)"
  define w2 where "w2 = snd (write_block now thr io pt 0x580 (Some (replicate 32 1)) w1)"
  have w1: "has_pak pt w1" "pak_enabled (ports w1 ?i)"
    using write_block_port [OF assms(2), of "replicate 32 0x84" now thr io "0x400"]
      enable_pak [of 32 "ports w ?i" "0x8000"] by (auto simp: w1_def block_size_def transfer_pak_address_mask_def)
  have w2: "has_pak pt w2" "pak_enabled (ports w2 ?i)" "cart_enabled (ports w2 ?i)"
    using write_block_port [OF w1(1), of "replicate 32 1" now thr io "0x580"]
      enable_cart [of 32 "ports w1 ?i" "0xB000"] w1(2) by (auto simp: w2_def block_size_def transfer_pak_address_mask_def)
  have "pak_step w w1" "pak_step w1 w2" by (simp_all add: w1_def w2_def step_write)
  then have "port_ok (ports w2 ?i)" using reachable_paks_ok [OF assms(1)] pak_step_ok unfolding paks_ok_def by blast
  then have "fst (port_status (ports w2 ?i)) = 0x89" using w2 by (intro status_enabled) (auto simp: has_pak_def)
  then have "fst (snd (read_block now thr pt 0x580 True w2)) = replicate 32 0x89"
    using w2 by (auto simp: read_block_def has_pak_def block_size_def transfer_pak_address_mask_def port_read_def split_beta Let_def)
  then show ?thesis by (simp add: w1_def w2_def Let_def)
qed

theorem enable_handshake_witness:
  "let w1 = snd (write_block 0 0 IoOk 0 0x400 (Some (replicate 32 0x84)) (demo_paks 0x13 0x02));
       w2 = snd (write_block 0 0 IoOk 0 0x580 (Some (replicate 32 1)) w1)
   in fst (snd (read_block 0 0 0 0x580 True w2)) = replicate 32 0x89"
  by (rule enable_handshake [OF demo_reachable demo_has_pak [OF demo_types(1)]])

text \<open>
  No access reaches RAM above 32 KiB: a read does not depend on it and a write does not change
  it, although the header admits 64 and 128 KiB and MBC5 keeps four bits of RAM bank.
\<close>

theorem high_ram_unreachable:
  "cart_read (c\<lparr>ram := take 0x8000 (ram c)\<rparr>) a = cart_read c a \<and> drop 0x8000 (ram (cart_write a v c)) = drop 0x8000 (ram c)"
proof -
  have "a < 0xC000 \<Longrightarrow> unat a - 0xA000 < 0x8000" by (simp add: word_less_nat_alt)
  then show ?thesis using ram_offset_bound [of a c] cart_read_take [of a c "0x8000"] by (simp add: cart_write_def drop_store_ram)
qed

text \<open>
  The RAM of a cartridge without bank controller can be written but never read: in every
  reachable state such a cartridge reads 0xFF in the RAM window, even right after a byte was stored
  there.
\<close>

theorem rom_only_ram_write_only:
  assumes "pak_step\<^sup>*\<^sup>* (no_paks fs) w" "mbc (cart (ports w i)) = RomOnly"
    and "0xA000 \<le> a" "a < 0xC000" "unat a - 0xA000 < length (ram (cart (ports w i)))"
  shows "ram (cart_write a v (cart (ports w i))) ! (unat a - 0xA000) = v \<and> cart_read (cart_write a v (cart (ports w i))) a = 0xFF"
proof -
  have ok: "cart_ok (cart (ports w i))" using reachable_paks_ok [OF assms(1)] by (simp add: paks_ok_def port_ok_def)
  have "0x8000 \<le> a" using assms(3) by (simp add: word_le_nat_alt)
  then have "cart_read (cart_write a v (cart (ports w i))) a = 0xFF" using cart_write_ok [OF ok] assms(2) by (intro rom_only_reads_ff) simp_all
  moreover have "ram (cart_write a v (cart (ports w i))) ! (unat a - 0xA000) = v"
    using assms(2-5) by (auto simp: cart_write_def ram_store_ram)
  ultimately show ?thesis by simp
qed

theorem rom_only_ram_write_only_witness:
  "ram (cart_write 0xA000 0x5A (cart (ports (demo_paks 0x09 0x02) 0))) ! 0 = 0x5A \<and>
   cart_read (cart_write 0xA000 0x5A (cart (ports (demo_paks 0x09 0x02) 0))) 0xA000 = 0xFF"
  using rom_only_ram_write_only [OF demo_reachable, of "0x09" "0x02" 0 "0xA000" "0x5A"]
  by (simp add: demo_load [OF demo_types(2)] header_ram_size_def)

end
