(* ===== verification/SaveStore.thy ===== *)
theory SaveStore
  imports ByteStore
begin

text \<open>
  Save storage of \<^verbatim>\<open>librecomp/src/pi.cpp\<close>, \<^verbatim>\<open>flash.cpp\<close>, \<^verbatim>\<open>eep.cpp\<close> and \<^verbatim>\<open>files.cpp\<close>: the save buffer and
  its accessors, the FlashRAM command machine behind the PI registers, PI transfers between the
  cartridge, the save and guest memory, the EEPROM and FlashRAM calls, and the thread that writes
  the buffer to its file. Guest memory is reached through the macros of \<^verbatim>\<open>recomp.h\<close>, which are
  fields of an environment; completion messages and overlay registrations are recorded in order in
  lists. Logging and the ring of ROM fills write no guest state.
\<close>

section \<open>Save types\<close>

datatype save_type = NoSave | Eep4k | Eep16k | Sram | Flashram | AllowAll

definition eeprom_allowed :: "save_type \<Rightarrow> bool" where
  "eeprom_allowed t \<longleftrightarrow> t = Eep4k \<or> t = Eep16k \<or> t = AllowAll"

definition sram_allowed :: "save_type \<Rightarrow> bool" where
  "sram_allowed t \<longleftrightarrow> t = Sram \<or> t = AllowAll"

definition flashram_allowed :: "save_type \<Rightarrow> bool" where
  "flashram_allowed t \<longleftrightarrow> t = Flashram \<or> t = AllowAll"

fun get_save_size :: "save_type \<Rightarrow> nat" where
  "get_save_size AllowAll = 0x20000"
| "get_save_size Flashram = 0x20000"
| "get_save_size Sram = 0x8000"
| "get_save_size Eep16k = 0x800"
| "get_save_size Eep4k = 0x200"
| "get_save_size NoSave = 0"

section \<open>State\<close>

datatype flash_mode = ReadArray | Status | Id | PageProgram | SectorErase | ChipErase

type_synonym disk = "string \<Rightarrow> u8 list option"

text \<open>
  \<open>write_sempahore\<close> counts writes that the saving thread has not seen; \<open>posted\<close> and \<open>overlay_loads\<close>
  record completion messages (to which queue) and overlay registrations.
\<close>

record pi_state =
  game_save_type :: save_type
  save_buffer :: "u8 list"
  save_file_path :: string
  write_sempahore :: nat
  swap_file_pending_sempahore :: nat
  swap_file_ready_sempahore :: nat
  files_on_disk :: disk
  mode :: flash_mode
  flash_status :: u8
  flash_pending_erase_page :: u32
  flash_write_buffer :: "u8 list"
  write_buffer :: "u8 list"
  posted :: "u32 list"
  overlay_loads :: "(u32 \<times> u32 \<times> u32) list"

record 'm guest =
  rd_b :: "'m \<Rightarrow> u32 \<Rightarrow> u8"
  st_b :: "'m \<Rightarrow> u32 \<Rightarrow> u8 \<Rightarrow> 'm"
  st_w :: "'m \<Rightarrow> u32 \<Rightarrow> u32 \<Rightarrow> 'm"

text \<open>
  What ends a call early: an assertion of the source, an access outside the buffer that no assertion
  stops, the exit after a message box, and the exception of a transfer that is not implemented.
\<close>

datatype pi_error = AssertFailed | OutOfBounds | QuickExit | RomWriteUnimplemented

section \<open>The save buffer\<close>

text \<open>The assertion \<^verbatim>\<open>offset + count <= save_buffer.size()\<close>, computed on 32 bits, and the access itself.\<close>

definition save_range :: "u32 \<Rightarrow> u32 \<Rightarrow> pi_state \<Rightarrow> pi_error option" where
  "save_range offset count s =
     (if unat (offset + count) > length (save_buffer s) then Some AssertFailed
      else if unat offset + unat count > length (save_buffer s) then Some OutOfBounds else None)"

definition overlay :: "nat \<Rightarrow> 'a list \<Rightarrow> 'a list \<Rightarrow> 'a list" where
  "overlay k bytes xs = take k xs @ bytes @ drop (k + length bytes) xs"

definition put_save :: "u32 \<Rightarrow> u8 list \<Rightarrow> pi_state \<Rightarrow> pi_error + pi_state" where
  "put_save offset bytes s = (case save_range offset (of_nat (length bytes)) s of
     Some e \<Rightarrow> Inl e
   | None \<Rightarrow> Inr (s\<lparr>save_buffer := overlay (unat offset) bytes (save_buffer s), write_sempahore := write_sempahore s + 1\<rparr>))"

definition save_write_ptr :: "u8 list \<Rightarrow> u32 \<Rightarrow> pi_state \<Rightarrow> pi_error + pi_state" where
  "save_write_ptr bytes offset s = put_save offset bytes s"

definition rd_bytes :: "'m guest \<Rightarrow> 'm \<Rightarrow> u32 \<Rightarrow> nat \<Rightarrow> u8 list" where
  "rd_bytes G m a n = map (\<lambda>pos. rd_b G m (a + of_nat pos)) [0..<n]"

definition st_bytes :: "'m guest \<Rightarrow> u32 \<Rightarrow> u8 list \<Rightarrow> 'm \<Rightarrow> 'm" where
  "st_bytes G a bytes m = fold (\<lambda>pos m. st_b G m (a + of_nat pos) (bytes ! pos)) [0..<length bytes] m"

definition save_write :: "'m guest \<Rightarrow> 'm \<Rightarrow> u32 \<Rightarrow> u32 \<Rightarrow> u32 \<Rightarrow> pi_state \<Rightarrow> pi_error + pi_state" where
  "save_write G m rdram_address offset count s = put_save offset (rd_bytes G m rdram_address (unat count)) s"

definition save_read :: "'m guest \<Rightarrow> u32 \<Rightarrow> u32 \<Rightarrow> u32 \<Rightarrow> pi_state \<Rightarrow> 'm \<Rightarrow> pi_error + 'm" where
  "save_read G rdram_address offset count s m = (case save_range offset count s of
     Some e \<Rightarrow> Inl e
   | None \<Rightarrow> Inr (st_bytes G rdram_address (take (unat count) (drop (unat offset) (save_buffer s))) m))"

definition save_clear :: "u32 \<Rightarrow> u32 \<Rightarrow> u8 \<Rightarrow> pi_state \<Rightarrow> pi_error + pi_state" where
  "save_clear start n v s = put_save start (replicate (unat n) v) s"

section \<open>The FlashRAM command machine\<close>

definition flash_size :: u32 where "flash_size = 0x20000"
definition flash_page_size :: u32 where "flash_page_size = 128"
definition flash_pages_per_sector :: u32 where "flash_pages_per_sector = 128"
definition flash_sector_size :: u32 where "flash_sector_size = flash_page_size * flash_pages_per_sector"
definition flash_cmd_reg :: u32 where "flash_cmd_reg = 0x10000"
definition flash_id_type :: u32 where "flash_id_type = 0x11118001"
definition flash_id_maker :: u32 where "flash_id_maker = 0x00C2001D"
definition sram_base :: u32 where "sram_base = 0x08000000"
definition rom_base :: u32 where "rom_base = 0x10000000"
definition drive_base :: u32 where "drive_base = 0x06000000"

definition flash_region_contains :: "u32 \<Rightarrow> u32 \<Rightarrow> pi_state \<Rightarrow> bool" where
  "flash_region_contains physical_addr n s \<longleftrightarrow> flashram_allowed (game_save_type s) \<and> \<not> physical_addr < sram_base \<and>
     (let offset = physical_addr - sram_base in offset \<le> flash_size \<and> n \<le> flash_size - offset)"

definition flash_page_offset :: "u32 \<Rightarrow> u32" where
  "flash_page_offset page_num = page_num * flash_page_size"

definition flash_program_page :: "u32 \<Rightarrow> pi_state \<Rightarrow> pi_error + pi_state" where
  "flash_program_page page_num s = (let offset = flash_page_offset page_num in
     if offset + flash_page_size \<le> flash_size then
       (case save_write_ptr (flash_write_buffer s) offset s of
          Inl e \<Rightarrow> Inl e | Inr s \<Rightarrow> Inr (s\<lparr>flash_status := 0x04, mode := Status\<rparr>))
     else Inr (s\<lparr>flash_status := 0, mode := Status\<rparr>))"

definition flash_erase_sector :: "u32 \<Rightarrow> pi_state \<Rightarrow> pi_error + pi_state" where
  "flash_erase_sector page_num s = (let
     sector_page = page_num div flash_pages_per_sector * flash_pages_per_sector; offset = flash_page_offset sector_page in
     if offset + flash_sector_size \<le> flash_size then
       (case save_clear offset flash_sector_size 0xFF s of
          Inl e \<Rightarrow> Inl e | Inr s \<Rightarrow> Inr (s\<lparr>flash_status := 0x08, mode := Status\<rparr>))
     else Inr (s\<lparr>flash_status := 0, mode := Status\<rparr>))"

definition flash_erase_chip :: "pi_state \<Rightarrow> pi_error + pi_state" where
  "flash_erase_chip s = (case save_clear 0 flash_size 0xFF s of
     Inl e \<Rightarrow> Inl e | Inr s \<Rightarrow> Inr (s\<lparr>flash_status := 0x08, mode := Status\<rparr>))"

definition flash_command :: "u32 \<Rightarrow> pi_state \<Rightarrow> pi_error + pi_state" where
  "flash_command w s = (let cmd = w AND 0xFF000000 in
     if cmd = 0x3C000000 then Inr (s\<lparr>mode := ChipErase\<rparr>)
     else if cmd = 0x4B000000 then Inr (s\<lparr>flash_pending_erase_page := w AND 0x0000FFFF, mode := SectorErase\<rparr>)
     else if cmd = 0x78000000 then
       if mode s = ChipErase then flash_erase_chip s
       else if mode s = SectorErase then flash_erase_sector (flash_pending_erase_page s) s
       else Inr s
     else if cmd = 0xA5000000 then flash_program_page (w AND 0x0000FFFF) s
     else if cmd = 0xB4000000 then Inr (s\<lparr>mode := PageProgram\<rparr>)
     else if cmd = 0xD2000000 then Inr (s\<lparr>mode := Status\<rparr>)
     else if cmd = 0xE1000000 then Inr (s\<lparr>mode := Id\<rparr>)
     else if cmd = 0xF0000000 then Inr (s\<lparr>mode := ReadArray\<rparr>)
     else Inr s)"

section \<open>PI transfers\<close>

definition k1_to_phys :: "u32 \<Rightarrow> u32" where "k1_to_phys a = a AND 0x1FFFFFFF"
definition phys_to_k1 :: "u32 \<Rightarrow> u32" where "phys_to_k1 a = a OR 0xA0000000"

definition do_rom_read :: "'m guest \<Rightarrow> u8 list \<Rightarrow> u32 \<Rightarrow> u32 \<Rightarrow> nat \<Rightarrow> 'm \<Rightarrow> pi_error + 'm" where
  "do_rom_read G rom ram_address physical_addr num_bytes m =
     (if physical_addr AND 1 \<noteq> 0 \<or> ram_address AND 7 \<noteq> 0 then Inl AssertFailed
      else let rom_off = unat (physical_addr - rom_base) in
        if rom_off \<ge> length rom \<or> rom_off + num_bytes > length rom then Inr (st_bytes G ram_address (replicate num_bytes 0) m)
        else Inr (st_bytes G ram_address (take num_bytes (drop rom_off rom)) m))"

definition do_rom_pio :: "'m guest \<Rightarrow> u8 list \<Rightarrow> u32 \<Rightarrow> u32 \<Rightarrow> 'm \<Rightarrow> pi_error + 'm" where
  "do_rom_pio G rom ram_address physical_addr m =
     (if physical_addr AND 3 \<noteq> 0 \<or> ram_address AND 3 \<noteq> 0 then Inl AssertFailed
      else let src = unat (physical_addr - rom_base) in
        if src + 4 > length rom then Inl OutOfBounds
        else Inr (st_bytes G ram_address (take 4 (drop src rom)) m))"

definition dma_complete :: "u32 \<Rightarrow> pi_state \<Rightarrow> pi_state" where
  "dma_complete mq s = s\<lparr>posted := posted s @ [mq]\<rparr>"

definition flash_id_bytes :: "'m guest \<Rightarrow> u32 \<Rightarrow> u32 \<Rightarrow> 'm \<Rightarrow> 'm" where
  "flash_id_bytes G a n m = (let
     m = (if n \<ge> 4 then st_w G m a flash_id_type else m);
     m = (if n \<ge> 8 then st_w G m (a + 4) flash_id_maker else m)
     in fold (\<lambda>i m. st_b G m (a + of_nat i) 0) [8..<unat n] m)"

definition dma_read :: "'m guest \<Rightarrow> u8 list \<Rightarrow> u32 \<Rightarrow> u32 \<Rightarrow> u32 \<Rightarrow> u32 \<Rightarrow> 'm \<times> pi_state \<Rightarrow> pi_error + ('m \<times> pi_state)" where
  "dma_read G rom mq a physical_addr n = (\<lambda>(m, s).
     if physical_addr \<ge> rom_base then
       (case do_rom_read G rom a physical_addr (unat n) m of Inl e \<Rightarrow> Inl e
        | Inr m \<Rightarrow> Inr (m, dma_complete mq (s\<lparr>overlay_loads := overlay_loads s @ [(physical_addr - rom_base, a, n)]\<rparr>)))
     else if flash_region_contains physical_addr n s then
       if mode s = Id then Inr (flash_id_bytes G a n m, dma_complete mq s)
       else (case save_read G a (physical_addr - sram_base) n s m of Inl e \<Rightarrow> Inl e | Inr m \<Rightarrow> Inr (m, dma_complete mq s))
     else if physical_addr \<ge> sram_base then
       if \<not> sram_allowed (game_save_type s) then Inr (st_bytes G a (replicate (unat n) 0xFF) m, dma_complete mq s)
       else (case save_read G a (physical_addr - sram_base) n s m of Inl e \<Rightarrow> Inl e | Inr m \<Rightarrow> Inr (m, dma_complete mq s))
     else if physical_addr \<ge> drive_base then Inr (m, dma_complete mq s)
     else Inr (m, s))"

definition dma_write :: "'m guest \<Rightarrow> u32 \<Rightarrow> u32 \<Rightarrow> u32 \<Rightarrow> u32 \<Rightarrow> 'm \<times> pi_state \<Rightarrow> pi_error + ('m \<times> pi_state)" where
  "dma_write G mq a physical_addr n = (\<lambda>(m, s).
     if physical_addr \<ge> rom_base then Inl RomWriteUnimplemented
     else if flash_region_contains physical_addr n s then
       Inr (m, dma_complete mq (if mode s = PageProgram
         then let copy_size = min (unat n) (unat flash_page_size) in
           s\<lparr>flash_write_buffer := rd_bytes G m a copy_size @ replicate (unat flash_page_size - copy_size) 0xFF\<rparr>
         else s))
     else if physical_addr \<ge> sram_base then
       if \<not> sram_allowed (game_save_type s) then Inr (m, dma_complete mq s)
       else (case save_write G m a (physical_addr - sram_base) n s of Inl e \<Rightarrow> Inl e | Inr s \<Rightarrow> Inr (m, dma_complete mq s))
     else if physical_addr \<ge> drive_base then Inr (m, dma_complete mq s)
     else Inr (m, s))"

definition do_dma :: "'m guest \<Rightarrow> u8 list \<Rightarrow> u32 \<Rightarrow> u32 \<Rightarrow> u32 \<Rightarrow> u32 \<Rightarrow> u32 \<Rightarrow> 'm \<times> pi_state \<Rightarrow> pi_error + ('m \<times> pi_state)" where
  "do_dma G rom mq a physical_addr n direction =
     (if direction = 0 then dma_read G rom mq a physical_addr n else dma_write G mq a physical_addr n)"

definition osPiStartDma :: "'m guest \<Rightarrow> u8 list \<Rightarrow> u32 \<Rightarrow> u32 \<Rightarrow> u32 \<Rightarrow> u32 \<Rightarrow> u32 \<Rightarrow> 'm \<times> pi_state \<Rightarrow> pi_error + ('m \<times> pi_state)" where
  "osPiStartDma G rom direction dev a n mq = do_dma G rom mq a (k1_to_phys (dev OR rom_base)) n direction"

definition osEPiStartDma :: "'m guest \<Rightarrow> u8 list \<Rightarrow> u32 \<Rightarrow> u32 \<Rightarrow> u32 \<Rightarrow> u32 \<Rightarrow> u32 \<Rightarrow> u32 \<Rightarrow> 'm \<times> pi_state \<Rightarrow> pi_error + ('m \<times> pi_state)" where
  "osEPiStartDma G rom baseAddress direction dev a n mq = do_dma G rom mq a (k1_to_phys (baseAddress OR dev)) n direction"

definition osEPiReadIo :: "'m guest \<Rightarrow> u8 list \<Rightarrow> u32 \<Rightarrow> u32 \<Rightarrow> u32 \<Rightarrow> 'm \<times> pi_state \<Rightarrow> pi_error + ('m \<times> pi_state)" where
  "osEPiReadIo G rom baseAddress dev a = (\<lambda>(m, s). let physical_addr = k1_to_phys (baseAddress OR dev) in
     if physical_addr \<ge> rom_base then (case do_rom_pio G rom a physical_addr m of Inl e \<Rightarrow> Inl e | Inr m \<Rightarrow> Inr (m, s))
     else if flash_region_contains physical_addr 4 s then
       Inr (st_w G m a (if mode s = Status then ucast (flash_status s) else if mode s = Id then flash_id_type else 0), s)
     else if physical_addr \<ge> 0x05000000 \<and> physical_addr < 0x06000000 then Inr (st_w G m a 0x00800000, s)
     else Inr (st_w G m a 0, s))"

definition osEPiWriteIo :: "u32 \<Rightarrow> u32 \<Rightarrow> u32 \<Rightarrow> pi_state \<Rightarrow> pi_error + pi_state" where
  "osEPiWriteIo baseAddress dev data s = (let physical_addr = k1_to_phys (baseAddress OR dev) in
     if flashram_allowed (game_save_type s) \<and> physical_addr = sram_base + flash_cmd_reg then flash_command data s
     else if flashram_allowed (game_save_type s) \<and> physical_addr = sram_base \<and> data = 0 then
       Inr (s\<lparr>flash_status := 0, mode := ReadArray\<rparr>)
     else Inr s)"

section \<open>The FlashRAM and EEPROM calls\<close>

definition save_size :: u32 where "save_size = 0x20000"
definition page_size :: u32 where "page_size = 128"
definition page_count :: u32 where "page_count = 0x20000 div page_size"

text \<open>The calls return the value of register \<^verbatim>\<open>v0\<close>; \<open>QuickExit\<close> when the game has another save type.\<close>

definition osFlashAllErase :: "pi_state \<Rightarrow> pi_error + (int \<times> pi_state)" where
  "osFlashAllErase s = (if \<not> flashram_allowed (game_save_type s) then Inl QuickExit
     else case save_clear 0 save_size 0xFF s of Inl e \<Rightarrow> Inl e | Inr s \<Rightarrow> Inr (0, s))"

definition flash_erase_page :: "u32 \<Rightarrow> pi_state \<Rightarrow> pi_error + (int \<times> pi_state)" where
  "flash_erase_page page_num s = (if page_num \<ge> page_count then Inr (- 1, s)
     else case save_clear (page_num * page_size) page_size 0xFF s of Inl e \<Rightarrow> Inl e | Inr s \<Rightarrow> Inr (0, s))"

definition osFlashSectorErase :: "u32 \<Rightarrow> pi_state \<Rightarrow> pi_error + (int \<times> pi_state)" where
  "osFlashSectorErase page_num s = (if \<not> flashram_allowed (game_save_type s) then Inl QuickExit else flash_erase_page page_num s)"

definition osFlashWriteBuffer :: "'m guest \<Rightarrow> 'm \<Rightarrow> u32 \<Rightarrow> u32 \<Rightarrow> pi_state \<Rightarrow> pi_error + (int \<times> pi_state)" where
  "osFlashWriteBuffer G m a mq s = (if \<not> flashram_allowed (game_save_type s) then Inl QuickExit
     else Inr (0, dma_complete mq (s\<lparr>write_buffer := rd_bytes G m a (unat page_size)\<rparr>)))"

definition osFlashWriteArray :: "u32 \<Rightarrow> pi_state \<Rightarrow> pi_error + (int \<times> pi_state)" where
  "osFlashWriteArray page_num s = (if \<not> flashram_allowed (game_save_type s) then Inl QuickExit
     else case save_write_ptr (write_buffer s) (page_num * page_size) s of Inl e \<Rightarrow> Inl e | Inr s \<Rightarrow> Inr (0, s))"

definition osFlashReadArray :: "'m guest \<Rightarrow> u32 \<Rightarrow> u32 \<Rightarrow> u32 \<Rightarrow> u32 \<Rightarrow> 'm \<times> pi_state \<Rightarrow> pi_error + (int \<times> 'm \<times> pi_state)" where
  "osFlashReadArray G page_num a n_pages mq = (\<lambda>(m, s). if \<not> flashram_allowed (game_save_type s) then Inl QuickExit
     else case save_read G a (page_num * page_size) (n_pages * page_size) s m of
       Inl e \<Rightarrow> Inl e | Inr m \<Rightarrow> Inr (0, m, dma_complete mq s))"

definition eeprom_block_size :: u32 where "eeprom_block_size = 8"

definition eeprom_byte_offset :: "u8 \<Rightarrow> u32" where
  "eeprom_byte_offset block_index = ucast block_index * eeprom_block_size"

definition osEepromProbe :: "save_type \<Rightarrow> int" where
  "osEepromProbe t = (if t = AllowAll \<or> t = Eep16k then 2 else if t = Eep4k then 1 else 0)"

definition osEepromWrite :: "'m guest \<Rightarrow> 'm \<Rightarrow> u8 \<Rightarrow> u32 \<Rightarrow> pi_state \<Rightarrow> pi_error + (int \<times> pi_state)" where
  "osEepromWrite G m block_index a s = (if \<not> eeprom_allowed (game_save_type s) then Inl QuickExit
     else case save_write G m a (eeprom_byte_offset block_index) eeprom_block_size s of Inl e \<Rightarrow> Inl e | Inr s \<Rightarrow> Inr (0, s))"

definition osEepromLongWrite :: "'m guest \<Rightarrow> 'm \<Rightarrow> u8 \<Rightarrow> u32 \<Rightarrow> u32 \<Rightarrow> pi_state \<Rightarrow> pi_error + (int \<times> pi_state)" where
  "osEepromLongWrite G m block_index a nbytes s = (if \<not> eeprom_allowed (game_save_type s) then Inl QuickExit
     else if sint nbytes mod 8 \<noteq> 0 then Inl AssertFailed
     else case save_write G m a (eeprom_byte_offset block_index) nbytes s of Inl e \<Rightarrow> Inl e | Inr s \<Rightarrow> Inr (0, s))"

definition osEepromRead :: "'m guest \<Rightarrow> u8 \<Rightarrow> u32 \<Rightarrow> 'm \<times> pi_state \<Rightarrow> pi_error + (int \<times> 'm \<times> pi_state)" where
  "osEepromRead G block_index a = (\<lambda>(m, s). if \<not> eeprom_allowed (game_save_type s) then Inl QuickExit
     else case save_read G a (eeprom_byte_offset block_index) eeprom_block_size s m of Inl e \<Rightarrow> Inl e | Inr m \<Rightarrow> Inr (0, m, s))"

definition osEepromLongRead :: "'m guest \<Rightarrow> u8 \<Rightarrow> u32 \<Rightarrow> u32 \<Rightarrow> 'm \<times> pi_state \<Rightarrow> pi_error + (int \<times> 'm \<times> pi_state)" where
  "osEepromLongRead G block_index a nbytes = (\<lambda>(m, s). if \<not> eeprom_allowed (game_save_type s) then Inl QuickExit
     else if sint nbytes mod 8 \<noteq> 0 then Inl AssertFailed
     else case save_read G a (eeprom_byte_offset block_index) nbytes s m of Inl e \<Rightarrow> Inl e | Inr m \<Rightarrow> Inr (0, m, s))"

end
