(* ===== verification/SaveThread.thy ===== *)
theory SaveThread
  imports SaveStore
begin

text \<open>
  The save file and the thread that keeps it up to date (\<^verbatim>\<open>librecomp/src/pi.cpp\<close>, \<^verbatim>\<open>files.cpp\<close>): the
  file is replaced through a temporary file with a backup, the thread drains the semaphore of
  pending writes, flushes once per round and answers requests to swap the file. Game threads and
  the saving thread interleave as steps of a transition relation; the lock on the buffer makes the
  parts between the steps atomic.
\<close>

section \<open>Files with a backup\<close>

text \<open>
  The outcome of the file operations of one flush: all succeed, the temporary file cannot be
  opened, it is written short (the result of the write is not looked at), or one of the two copies
  fails and leaves its target with other contents.
\<close>

datatype save_io = SaveOk | OpenTempFails | TempShort "u8 list" | BackupCopyFails "u8 list option" | FinalCopyFails "u8 list option"

definition backup_path :: "string \<Rightarrow> string" where "backup_path p = p @ ''.bak''"
definition temp_path :: "string \<Rightarrow> string" where "temp_path p = p @ ''.temp''"

definition open_input_file_with_backup :: "string \<Rightarrow> disk \<Rightarrow> u8 list option" where
  "open_input_file_with_backup p d = (case d p of Some bytes \<Rightarrow> Some bytes | None \<Rightarrow> d (backup_path p))"

definition copy_temp :: "save_io \<Rightarrow> string \<Rightarrow> disk \<Rightarrow> bool \<times> disk" where
  "copy_temp io p d = (case io of
     FinalCopyFails left \<Rightarrow> (False, d(p := left))
   | _ \<Rightarrow> (True, d(p := d (temp_path p), temp_path p := None)))"

definition finalize_output_file_with_backup :: "save_io \<Rightarrow> string \<Rightarrow> disk \<Rightarrow> bool \<times> disk" where
  "finalize_output_file_with_backup io p d =
     (if d p \<noteq> None then (case io of
        BackupCopyFails left \<Rightarrow> (False, d(backup_path p := left))
      | _ \<Rightarrow> copy_temp io p (d(backup_path p := d p)))
      else copy_temp io p d)"

definition update_save_file :: "save_io \<Rightarrow> pi_state \<Rightarrow> pi_state" where
  "update_save_file io s = (let p = save_file_path s; d = files_on_disk s in
     case io of OpenTempFails \<Rightarrow> s
     | _ \<Rightarrow> let d = d(temp_path p \<mapsto> (case io of TempShort left \<Rightarrow> left | _ \<Rightarrow> save_buffer s)) in
         s\<lparr>files_on_disk := snd (finalize_output_file_with_backup io p d)\<rparr>)"

definition set_save_file_path :: "string \<Rightarrow> string \<Rightarrow> string \<Rightarrow> pi_state \<Rightarrow> pi_state" where
  "set_save_file_path config_path subfolder name s =
     s\<lparr>save_file_path := config_path @ ''/saves/'' @ (if subfolder \<noteq> '''' then subfolder @ ''/'' else '''') @ name @ ''.bin''\<rparr>"

definition read_save_file :: "pi_state \<Rightarrow> pi_state" where
  "read_save_file s = (let n = length (save_buffer s); blank = (if game_save_type s = Flashram then 0xFF else 0);
     bytes = (case open_input_file_with_backup (save_file_path s) (files_on_disk s) of None \<Rightarrow> [] | Some bytes \<Rightarrow> take n bytes) in
     s\<lparr>save_buffer := bytes @ replicate (n - length bytes) blank\<rparr>)"

definition init_saving :: "string \<Rightarrow> string \<Rightarrow> pi_state \<Rightarrow> pi_state" where
  "init_saving config_path game_id s = (let s = set_save_file_path config_path '''' game_id s;
     n = get_save_size (game_save_type s) in
     read_save_file (s\<lparr>save_buffer := take n (save_buffer s) @ replicate (n - length (save_buffer s)) 0\<rparr>))"

section \<open>The saving thread\<close>

definition max_coalesced :: nat where "max_coalesced = 128"

text \<open>Where the thread is: in the inner loop with \<^verbatim>\<open>dirty\<close> and \<^verbatim>\<open>folded\<close>, before the flush, before the swap, or ended.\<close>

datatype saver_pc = Draining bool nat | Flushing bool | Swapping | Stopped

record saver_state =
  pi :: pi_state
  saver :: saver_pc
  exited :: bool
  swapper :: "(string \<times> string) option"

definition loop_head :: "bool \<Rightarrow> saver_pc" where
  "loop_head e = (if e then Stopped else Draining False 0)"

text \<open>A step of \<^verbatim>\<open>saving_thread_func\<close>: a wait that gets a token, a wait that times out, the flush, the swap.\<close>

definition wait_token :: "saver_state \<Rightarrow> saver_state option" where
  "wait_token s = (case saver s of
     Draining d f \<Rightarrow> if write_sempahore (pi s) = 0 then None
       else Some (s\<lparr>pi := (pi s)\<lparr>write_sempahore := write_sempahore (pi s) - 1\<rparr>,
                    saver := (if f < max_coalesced then Draining True (f + 1) else Flushing d)\<rparr>)
   | _ \<Rightarrow> None)"

definition wait_timeout :: "saver_state \<Rightarrow> saver_state option" where
  "wait_timeout s = (case saver s of
     Draining d f \<Rightarrow> if write_sempahore (pi s) = 0 then Some (s\<lparr>saver := Flushing d\<rparr>) else None
   | _ \<Rightarrow> None)"

definition flush_step :: "save_io \<Rightarrow> saver_state \<Rightarrow> saver_state option" where
  "flush_step io s = (case saver s of
     Flushing d \<Rightarrow> Some (s\<lparr>pi := (if d then update_save_file io (pi s) else pi s), saver := Swapping\<rparr>)
   | _ \<Rightarrow> None)"

definition swap_step :: "saver_state \<Rightarrow> saver_state option" where
  "swap_step s = (case saver s of
     Swapping \<Rightarrow> Some (s\<lparr>saver := loop_head (exited s),
       pi := (if swap_file_pending_sempahore (pi s) > 0
              then (pi s)\<lparr>swap_file_pending_sempahore := swap_file_pending_sempahore (pi s) - 1,
                          swap_file_ready_sempahore := swap_file_ready_sempahore (pi s) + 1\<rparr> else pi s)\<rparr>)
   | _ \<Rightarrow> None)"

definition saver_acts :: "save_io \<Rightarrow> (saver_state \<Rightarrow> saver_state option) list" where
  "saver_acts io = [wait_token, wait_timeout, flush_step io, swap_step]"

text \<open>\<^verbatim>\<open>change_save_file\<close>: the request, and the swap when the saving thread is ready; the caller is blocked between them.\<close>

definition change_save_file_request :: "string \<Rightarrow> string \<Rightarrow> saver_state \<Rightarrow> saver_state" where
  "change_save_file_request subfolder name s =
     s\<lparr>pi := (pi s)\<lparr>swap_file_pending_sempahore := swap_file_pending_sempahore (pi s) + 1\<rparr>, swapper := Some (subfolder, name)\<rparr>"

definition change_save_file_finish :: "string \<Rightarrow> saver_state \<Rightarrow> saver_state option" where
  "change_save_file_finish config_path s = (case swapper s of
     Some (subfolder, name) \<Rightarrow> if swap_file_ready_sempahore (pi s) = 0 then None
       else Some (s\<lparr>pi := read_save_file (set_save_file_path config_path subfolder name
         ((pi s)\<lparr>swap_file_ready_sempahore := swap_file_ready_sempahore (pi s) - 1\<rparr>)), swapper := None\<rparr>)
   | None \<Rightarrow> None)"

text \<open>
  The game thread writes when it is not blocked in \<^verbatim>\<open>change_save_file\<close>; every write to the save goes
  through \<^verbatim>\<open>put_save\<close>, the body of \<^verbatim>\<open>save_write_ptr\<close>, \<^verbatim>\<open>save_write\<close> and \<^verbatim>\<open>save_clear\<close>.
\<close>

inductive saver_act :: "save_io \<Rightarrow> saver_state \<Rightarrow> saver_state \<Rightarrow> bool" for io where
  act: "f \<in> set (saver_acts io) \<Longrightarrow> f s = Some s' \<Longrightarrow> saver_act io s s'"

inductive save_step :: "string \<Rightarrow> saver_state \<Rightarrow> saver_state \<Rightarrow> bool" for config_path where
  thread: "saver_act SaveOk s s' \<Longrightarrow> save_step config_path s s'"
| game_write: "swapper s = None \<Longrightarrow> put_save offset bytes (pi s) = Inr p \<Longrightarrow> save_step config_path s (s\<lparr>pi := p\<rparr>)"
| request: "swapper s = None \<Longrightarrow> save_step config_path s (change_save_file_request sub name s)"
| finish: "change_save_file_finish config_path s = Some s' \<Longrightarrow> save_step config_path s s'"
| quit: "save_step config_path s (s\<lparr>exited := True\<rparr>)"

definition saver_start :: "string \<Rightarrow> string \<Rightarrow> pi_state \<Rightarrow> saver_state" where
  "saver_start config_path game_id s =
     \<lparr>pi = (init_saving config_path game_id s)\<lparr>write_sempahore := 0, swap_file_pending_sempahore := 0, swap_file_ready_sempahore := 0\<rparr>,
      saver = loop_head False, exited = False, swapper = None\<rparr>"

section \<open>The file holds the buffer\<close>

text \<open>What loading the file would give is the buffer.\<close>

definition in_file :: "pi_state \<Rightarrow> bool" where
  "in_file s \<longleftrightarrow> save_buffer (read_save_file s) = save_buffer s"

definition flush_due :: "saver_pc \<Rightarrow> bool" where
  "flush_due c \<longleftrightarrow> (\<exists>f. c = Draining True f) \<or> c = Flushing True"

definition folded_dirty :: "saver_pc \<Rightarrow> bool" where
  "folded_dirty c \<longleftrightarrow> (\<forall>d f. c = Draining d f \<longrightarrow> 0 < f \<longrightarrow> d)"

definition save_inv :: "saver_state \<Rightarrow> bool" where
  "save_inv s \<longleftrightarrow> folded_dirty (saver s) \<and> (in_file (pi s) \<or> 0 < write_sempahore (pi s) \<or> flush_due (saver s))"

lemma temp_ne: "temp_path p \<noteq> p" "temp_path p \<noteq> backup_path p" "backup_path p \<noteq> p"
  by (auto simp: temp_path_def backup_path_def)

lemma read_save_file_length: "length (save_buffer (read_save_file s)) = length (save_buffer s)"
  by (simp add: read_save_file_def Let_def split: option.splits)

lemma in_file_read: "in_file (read_save_file s)"
  by (auto simp: in_file_def read_save_file_def Let_def split: option.splits)

lemma in_file_cong:
  "save_buffer s = save_buffer t \<Longrightarrow> save_file_path s = save_file_path t \<Longrightarrow> files_on_disk s = files_on_disk t \<Longrightarrow>
    game_save_type s = game_save_type t \<Longrightarrow> in_file s = in_file t"
  by (simp add: in_file_def read_save_file_def Let_def)

lemma update_save_file_ok:
  "files_on_disk (update_save_file SaveOk s) (save_file_path s) = Some (save_buffer s)"
  using temp_ne [of "save_file_path s"]
  by (auto simp: update_save_file_def finalize_output_file_with_backup_def copy_temp_def Let_def)

lemma update_save_file_fields [simp]:
  "save_buffer (update_save_file io s) = save_buffer s" "save_file_path (update_save_file io s) = save_file_path s"
  "game_save_type (update_save_file io s) = game_save_type s" "write_sempahore (update_save_file io s) = write_sempahore s"
  by (simp_all add: update_save_file_def Let_def split: save_io.splits)

lemma flushed_in_file: "in_file (update_save_file SaveOk s)"
  using update_save_file_ok [of s] by (simp add: in_file_def read_save_file_def open_input_file_with_backup_def Let_def)

lemma put_save_fields:
  "put_save offset bytes s = Inr p \<Longrightarrow> 0 < write_sempahore p"
  by (auto simp: put_save_def split: option.splits)

lemmas act_defs = saver_acts_def wait_token_def wait_timeout_def flush_step_def swap_step_def loop_head_def

lemma saver_act_inv:
  assumes "saver_act SaveOk s s'" "save_inv s" shows "save_inv s'"
  using assms(1)
proof cases
  case (act f)
  have c: "in_file ((pi s)\<lparr>write_sempahore := n\<rparr>) = in_file (pi s)" for n by (rule in_file_cong) simp_all
  have c': "in_file ((pi s)\<lparr>swap_file_pending_sempahore := n, swap_file_ready_sempahore := m\<rparr>) = in_file (pi s)" for n m
    by (rule in_file_cong) simp_all
  from act assms(2) show ?thesis
    by (cases "saver s") (auto simp: act_defs save_inv_def flush_due_def folded_dirty_def c c' flushed_in_file max_coalesced_def split: if_splits)
qed

lemma save_step_inv: "save_step cfg s s' \<Longrightarrow> save_inv s \<Longrightarrow> save_inv s'"
proof (induction rule: save_step.induct)
  case (request s sub name)
  have "in_file ((pi s)\<lparr>swap_file_pending_sempahore := n\<rparr>) = in_file (pi s)" for n by (rule in_file_cong) simp_all
  then show ?case using request by (auto simp: save_inv_def change_save_file_request_def)
next
  case (finish s s')
  then show ?case
    by (auto simp: save_inv_def change_save_file_finish_def in_file_read split: option.splits prod.splits if_splits)
next
  case (thread s s')
  then show ?case by (rule saver_act_inv)
qed (auto simp: save_inv_def put_save_fields)

lemma start_inv: "save_inv (saver_start cfg gid s)"
proof -
  have "in_file (init_saving cfg gid s)" by (simp add: init_saving_def Let_def in_file_read)
  moreover have "in_file (t\<lparr>write_sempahore := 0, swap_file_pending_sempahore := 0, swap_file_ready_sempahore := 0\<rparr>) = in_file t" for t
    by (rule in_file_cong) simp_all
  ultimately show ?thesis by (simp add: save_inv_def saver_start_def folded_dirty_def loop_head_def)
qed

lemma reachable_save_inv: "(save_step cfg)\<^sup>*\<^sup>* (saver_start cfg gid s0) s \<Longrightarrow> save_inv s"
  by (induction rule: rtranclp_induct) (auto intro: start_inv save_step_inv)

lemma stopped_exited: "(save_step cfg)\<^sup>*\<^sup>* (saver_start cfg gid s0) s \<Longrightarrow> saver s = Stopped \<Longrightarrow> exited s"
proof (induction rule: rtranclp_induct)
  case (step y z)
  from step(2) show ?case
  proof cases
    case thread
    then show ?thesis using step(3,4)
      by (cases rule: saver_act.cases) (auto simp: act_defs split: saver_pc.splits if_splits)
  qed (use step(3,4) in \<open>auto simp: change_save_file_request_def change_save_file_finish_def split: option.splits prod.splits if_splits\<close>)
qed (simp add: saver_start_def loop_head_def)

section \<open>The thread reaches the file\<close>

definition saves_soon :: "saver_state \<Rightarrow> bool" where
  "saves_soon s \<longleftrightarrow> (\<exists>s'. (saver_act SaveOk)\<^sup>*\<^sup>* s s' \<and> in_file (pi s') \<and> save_buffer (pi s') = save_buffer (pi s))"

lemma saves_now: "in_file (pi s) \<Longrightarrow> saves_soon s"
  by (auto simp: saves_soon_def)

lemma saves_step:
  assumes "f s = Some t" "f \<in> set (saver_acts SaveOk)" "save_buffer (pi t) = save_buffer (pi s)" "saves_soon t" shows "saves_soon s"
  using assms saver_act.act [OF assms(2,1)] by (auto simp: saves_soon_def intro: converse_rtranclp_into_rtranclp)

lemma flush_saves: "saver s = Flushing True \<Longrightarrow> saves_soon s"
  by (rule saves_step [of "flush_step SaveOk" s "s\<lparr>pi := update_save_file SaveOk (pi s), saver := Swapping\<rparr>"])
    (simp_all add: flush_step_def saver_acts_def saves_now flushed_in_file)

lemma drain_saves: "saver s = Draining True f \<Longrightarrow> write_sempahore (pi s) = n \<Longrightarrow> saves_soon s"
proof (induction n arbitrary: s f)
  case 0
  show ?case
    by (rule saves_step [of wait_timeout s "s\<lparr>saver := Flushing True\<rparr>"]) (simp_all add: wait_timeout_def 0 saver_acts_def flush_saves)
next
  case (Suc n)
  let ?s = "s\<lparr>pi := (pi s)\<lparr>write_sempahore := n\<rparr>, saver := (if f < max_coalesced then Draining True (f + 1) else Flushing True)\<rparr>"
  have "saves_soon ?s" using Suc.IH [of ?s "f + 1"] flush_saves [of ?s] by (cases "f < max_coalesced") simp_all
  then show ?case by (intro saves_step [of wait_token s ?s]) (simp_all add: wait_token_def Suc.prems saver_acts_def)
qed

lemma head_saves:
  assumes "save_inv s" "saver s = Draining d f" shows "saves_soon s"
proof (cases "in_file (pi s) \<or> d")
  case True
  then show ?thesis using drain_saves [of s f] assms(2) saves_now by (cases d) auto
next
  case False
  then have w: "0 < write_sempahore (pi s)" and f: "f = 0" using assms by (auto simp: save_inv_def flush_due_def folded_dirty_def)
  let ?s = "s\<lparr>pi := (pi s)\<lparr>write_sempahore := write_sempahore (pi s) - 1\<rparr>, saver := Draining True 1\<rparr>"
  show ?thesis by (rule saves_step [of wait_token s ?s])
      (use w drain_saves [of ?s 1] in \<open>simp_all add: wait_token_def assms(2) f max_coalesced_def saver_acts_def\<close>)
qed

lemma swap_saves:
  assumes "save_inv s" "\<not> exited s" "saver s = Swapping" shows "saves_soon s"
proof -
  obtain t where t: "swap_step s = Some t" "saver t = Draining False 0" "save_buffer (pi t) = save_buffer (pi s)"
    using assms(2,3) by (simp add: swap_step_def loop_head_def)
  have "saver_act SaveOk s t" by (rule saver_act.act [of swap_step]) (simp_all add: saver_acts_def t(1))
  then have "save_inv t" using assms(1) by (rule saver_act_inv)
  from head_saves [OF this t(2)] show ?thesis by (intro saves_step [of swap_step s t]) (simp_all add: saver_acts_def t)
qed

lemma saver_saves:
  assumes "save_inv s" "\<not> exited s" "saver s \<noteq> Stopped" shows "saves_soon s"
proof (cases "saver s")
  case (Draining d f)
  then show ?thesis using head_saves assms(1) by blast
next
  case (Flushing d)
  show ?thesis
  proof (cases d)
    case False
    let ?t = "s\<lparr>saver := Swapping\<rparr>"
    have "save_inv ?t" using assms(1) False Flushing by (auto simp: save_inv_def flush_due_def folded_dirty_def)
    then have "saves_soon ?t" using assms(2) by (intro swap_saves) simp_all
    then show ?thesis
      by (intro saves_step [of "flush_step SaveOk" s ?t]) (simp_all add: flush_step_def Flushing False saver_acts_def)
  qed (use Flushing flush_saves in simp)
qed (use assms swap_saves in auto)

end
