(* ===== verification/SaveClaims.thy ===== *)
theory SaveClaims
  imports SaveThread
begin

text \<open>
  The properties of save storage: a FlashRAM page written through the PI registers reads back, a
  write reaches the file, and the race in which a change of the save file loses one.
\<close>

section \<open>FlashRAM pages\<close>

definition bind_r :: "'e + 'a \<Rightarrow> ('a \<Rightarrow> 'e + 'b) \<Rightarrow> 'e + 'b" where
  "bind_r r f = (case r of Inl e \<Rightarrow> Inl e | Inr x \<Rightarrow> f x)"

lemma bind_r_simps [simp]: "bind_r (Inl e) f = Inl e" "bind_r (Inr x) f = f x"
  by (simp_all add: bind_r_def)

text \<open>
  The sequence libultra issues to program a page and read it back: select page programming,
  transfer the page to the staging buffer, program it, return to array reads, transfer it to
  \<open>b\<close>. The FlashRAM registers are at the base of the save region.
\<close>

definition flash_base :: u32 where "flash_base = 0xA8000000"

definition flash_cycle :: "'m guest \<Rightarrow> u8 list \<Rightarrow> u32 \<Rightarrow> u32 \<Rightarrow> u32 \<Rightarrow> u32 \<Rightarrow> 'm \<Rightarrow> pi_state \<Rightarrow> pi_error + ('m \<times> pi_state)" where
  "flash_cycle G rom page a b mq m s =
     bind_r (osEPiWriteIo flash_base 0x10000 0xB4000000 s) (\<lambda>s.
     bind_r (osEPiStartDma G rom flash_base 1 0 a 128 mq (m, s)) (\<lambda>(m, s).
     bind_r (osEPiWriteIo flash_base 0x10000 (0xA5000000 OR page) s) (\<lambda>s.
     bind_r (osEPiWriteIo flash_base 0x10000 0xF0000000 s) (\<lambda>s.
     do_dma G rom mq b (sram_base + page * 128) 128 0 (m, s)))))"

lemma flash_addresses:
  "k1_to_phys (flash_base OR 0x10000) = sram_base + flash_cmd_reg" "k1_to_phys (flash_base OR 0) = sram_base"
  by (simp_all add: k1_to_phys_def flash_base_def sram_base_def flash_cmd_reg_def)

lemma page_fields:
  assumes "page < (0x400 :: u32)"
  shows "(0xA5000000 OR page) AND 0xFF000000 = 0xA5000000" "(0xA5000000 OR page) AND 0xFFFF = page" "unat (page * 128) = unat page * 128"
    "unat page < 0x400"
proof -
  show u: "unat page < 0x400" using assms by (simp add: word_less_nat_alt)
  have "take_bit 10 page = page"
    using u by (simp add: word_unat_eq_iff unsigned_take_bit_eq take_bit_nat_eq_self)
  then have m: "page AND 0x3FF = page" by (simp add: take_bit_eq_mask mask_eq_exp_minus_1)
  have "page AND 0xFF000000 = page AND (0x3FF AND 0xFF000000)" using m by (metis and.assoc)
  then have h: "page AND 0xFF000000 = 0" by simp
  have "page AND 0xFFFF = page AND (0x3FF AND 0xFFFF)" using m by (metis and.assoc)
  then have l: "page AND 0xFFFF = page" using m by simp
  show "(0xA5000000 OR page) AND 0xFF000000 = 0xA5000000" "(0xA5000000 OR page) AND 0xFFFF = page"
    by (simp_all add: bit.conj_disj_distrib2 h l)
  show "unat (page * 128) = unat page * 128" using u by (simp add: unat_word_ariths)
qed

lemma overlay_read: "k + length bytes \<le> length xs \<Longrightarrow> take (length bytes) (drop k (overlay k bytes xs)) = bytes"
  by (simp add: overlay_def)

lemma overlay_length: "k + length bytes \<le> length xs \<Longrightarrow> length (overlay k bytes xs) = length xs"
  by (simp add: overlay_def)

lemma rd_st_bytes:
  assumes "byte_store (rd_b G) (st_b G) (\<lambda>a. a)" "length bytes \<le> 2 ^ 32"
  shows "rd_bytes G (st_bytes G a bytes m) a (length bytes) = bytes"
proof (rule nth_equalityI)
  fix i assume "i < length (rd_bytes G (st_bytes G a bytes m) a (length bytes))"
  then have i: "i < length bytes" by (simp add: rd_bytes_def)
  have "inj_on (\<lambda>k. a + of_nat k :: u32) {0..<length bytes}"
    using assms(2) by (auto simp: inj_on_def of_nat_inverse word_of_nat_eq_iff take_bit_nat_eq_self)
  from byte_store.rd_fold_upt [OF assms(1) this i refl]
  show "rd_bytes G (st_bytes G a bytes m) a (length bytes) ! i = bytes ! i"
    using i by (simp add: rd_bytes_def st_bytes_def)
qed (simp add: rd_bytes_def)

lemma page_region:
  assumes "page < 0x400" "flashram_allowed (game_save_type s)"
  shows "flash_region_contains (sram_base + page * 128) 128 s" "\<not> rom_base \<le> sram_base + page * 128"
    "page * 128 + flash_page_size \<le> flash_size" "unat (page * 128) + 128 \<le> 0x20000"
proof -
  note u = page_fields(3,4) [OF assms(1)]
  have n: "unat (sram_base + page * 128) = 0x08000000 + unat page * 128"
    using u by (simp add: sram_base_def unat_word_ariths)
  show r: "\<not> rom_base \<le> sram_base + page * 128" using n u by (simp add: rom_base_def word_le_nat_alt)
  have "unat (flash_size - page * 128) = 0x20000 - unat page * 128"
    using u by (simp add: flash_size_def unat_sub word_le_nat_alt)
  then show "flash_region_contains (sram_base + page * 128) 128 s"
    using n u assms(2) by (simp add: flash_region_contains_def flash_size_def sram_base_def word_le_nat_alt word_less_nat_alt)
  have "unat (page * 128 + 128) = unat page * 128 + 128" using u by (simp add: unat_word_ariths)
  then show "page * 128 + flash_page_size \<le> flash_size"
    using u by (simp add: flash_size_def flash_page_size_def word_le_nat_alt)
  show "unat (page * 128) + 128 \<le> 0x20000" using u by simp
qed

lemma put_page:
  assumes "page < 0x400" "length (save_buffer s) = 0x20000" "length bytes = 128"
  shows "put_save (page * 128) bytes s = Inr (s\<lparr>save_buffer := overlay (unat page * 128) bytes (save_buffer s), write_sempahore := write_sempahore s + 1\<rparr>)"
proof -
  note u = page_fields(3,4) [OF assms(1)]
  have "unat (page * 128 + 128) = unat page * 128 + 128" using u by (simp add: unat_word_ariths)
  then show ?thesis using u assms by (simp add: put_save_def save_range_def)
qed

lemma save_range_page:
  assumes "page < 0x400" "length (save_buffer s) = 0x20000" shows "save_range (page * 128) 128 s = None"
proof -
  note u = page_fields(3,4) [OF assms(1)]
  have "unat (page * 128 + 128) = unat page * 128 + 128" using u by (simp add: unat_word_ariths)
  then show ?thesis using u assms by (simp add: save_range_def)
qed

lemma rd_bytes_length [simp]: "length (rd_bytes G m a n) = n"
  by (simp add: rd_bytes_def)

lemma flash_program:
  assumes "page < 0x400" "flashram_allowed (game_save_type s)" "length (save_buffer s) = 0x20000" "length (flash_write_buffer s) = 128"
  shows "osEPiWriteIo flash_base 0x10000 (0xA5000000 OR page) s = Inr (s\<lparr>save_buffer := overlay (unat page * 128) (flash_write_buffer s) (save_buffer s),
    write_sempahore := write_sempahore s + 1, flash_status := 0x04, mode := Status\<rparr>)"
proof -
  have "flash_program_page page s = Inr (s\<lparr>save_buffer := overlay (unat page * 128) (flash_write_buffer s) (save_buffer s),
    write_sempahore := write_sempahore s + 1, flash_status := 0x04, mode := Status\<rparr>)"
    using page_region(3) [OF assms(1,2)] put_page [OF assms(1,3,4)]
    by (simp add: flash_program_page_def flash_page_offset_def save_write_ptr_def Let_def flash_page_size_def)
  then show ?thesis using assms(2) page_fields(1,2) [OF assms(1)]
    by (simp add: osEPiWriteIo_def flash_addresses Let_def flash_command_def)
qed

lemma flash_page_back:
  assumes store: "byte_store (rd_b G) (st_b G) (\<lambda>a. a)"
    and fl: "flashram_allowed (game_save_type s)" and len: "length (save_buffer s) = 0x20000" and page: "page < 0x400"
  shows "\<exists>m' s'. flash_cycle G rom page a b mq m s = Inr (m', s') \<and> rd_bytes G m' b 128 = rd_bytes G m a 128 \<and>
    save_buffer s' = overlay (unat page * 128) (rd_bytes G m a 128) (save_buffer s) \<and> flash_status s' = 4 \<and> posted s' = posted s @ [mq, mq]"
proof -
  let ?d = "rd_bytes G m a 128"
  let ?s1 = "s\<lparr>mode := PageProgram\<rparr>"
  let ?s2 = "dma_complete mq (?s1\<lparr>flash_write_buffer := ?d\<rparr>)"
  let ?s3 = "?s2\<lparr>save_buffer := overlay (unat page * 128) ?d (save_buffer s), write_sempahore := write_sempahore s + 1, flash_status := 0x04, mode := Status\<rparr>"
  let ?s4 = "?s3\<lparr>mode := ReadArray\<rparr>"
  have up: "unat page * 128 + 128 \<le> 0x20000" using page_region(4) [OF page fl] page_fields(3) [OF page] by simp
  have 1: "osEPiWriteIo flash_base 0x10000 0xB4000000 s = Inr ?s1"
    using fl by (simp add: osEPiWriteIo_def flash_addresses Let_def flash_command_def)
  have "flash_region_contains sram_base 128 ?s1" using page_region(1) [of 0 ?s1] fl by simp
  then have 2: "osEPiStartDma G rom flash_base 1 0 a 128 mq (m, ?s1) = Inr (m, ?s2)"
    by (simp add: osEPiStartDma_def flash_addresses [unfolded or.right_neutral] do_dma_def dma_write_def rom_base_def sram_base_def flash_page_size_def Let_def)
  have 3: "osEPiWriteIo flash_base 0x10000 (0xA5000000 OR page) ?s2 = Inr ?s3"
    using flash_program [OF page, of ?s2] fl len by (simp add: dma_complete_def)
  have 4: "osEPiWriteIo flash_base 0x10000 0xF0000000 ?s3 = Inr ?s4"
    using fl by (simp add: osEPiWriteIo_def flash_addresses Let_def flash_command_def dma_complete_def)
  have l4: "length (save_buffer ?s4) = 0x20000" using len up by (simp add: overlay_length)
  have f4: "flashram_allowed (game_save_type ?s4)" using fl by (simp add: dma_complete_def)
  have readback: "take 128 (drop (unat page * 128) (save_buffer ?s4)) = ?d"
    using overlay_read [of "unat page * 128" ?d "save_buffer s"] len up by simp
  have 5: "do_dma G rom mq b (sram_base + page * 128) 128 0 (m, ?s4) = Inr (st_bytes G b ?d m, dma_complete mq ?s4)"
    using page_region(1,2) [OF page f4] save_range_page [OF page l4] readback page_fields(3) [OF page]
    by (simp add: do_dma_def dma_read_def save_read_def)
  have "flash_cycle G rom page a b mq m s = Inr (st_bytes G b ?d m, dma_complete mq ?s4)"
    unfolding flash_cycle_def 1 bind_r_simps 2 prod.case 3 4 by (rule 5)
  then show ?thesis using rd_st_bytes [OF store, of ?d b m] by (simp add: dma_complete_def)
qed

section \<open>Examples\<close>

definition demo_pi :: "save_type \<Rightarrow> pi_state" where
  "demo_pi t = \<lparr>game_save_type = t, save_buffer = replicate (get_save_size t) 0, save_file_path = '''', write_sempahore = 0,
     swap_file_pending_sempahore = 0, swap_file_ready_sempahore = 0, files_on_disk = Map.empty, mode = ReadArray, flash_status = 0,
     flash_pending_erase_page = 0, flash_write_buffer = replicate 128 0, write_buffer = replicate 128 0, posted = [], overlay_loads = []\<rparr>"

text \<open>Guest memory as a byte map; words are stored big-endian.\<close>

definition demo_guest :: "(u32 \<Rightarrow> u8) guest" where
  "demo_guest = \<lparr>rd_b = (\<lambda>m a. m a), st_b = (\<lambda>m a v. m(a := v)),
     st_w = (\<lambda>m a v. m(a := ucast (drop_bit 24 v), a + 1 := ucast (drop_bit 16 v), a + 2 := ucast (drop_bit 8 v), a + 3 := ucast v))\<rparr>"

lemma demo_guest_store: "byte_store (rd_b demo_guest) (st_b demo_guest) (\<lambda>a. a)"
  by unfold_locales (simp add: demo_guest_def)

definition demo_write :: saver_state where
  "demo_write = (saver_start ''cfg'' ''game'' (demo_pi Sram))\<lparr>pi :=
     (pi (saver_start ''cfg'' ''game'' (demo_pi Sram)))\<lparr>save_buffer := overlay 0 [0x5A] (save_buffer (init_saving ''cfg'' ''game'' (demo_pi Sram))),
        write_sempahore := 1\<rparr>\<rparr>"

lemma init_length: "length (save_buffer (init_saving c g s)) = get_save_size (game_save_type s)"
  by (simp add: init_saving_def Let_def read_save_file_length set_save_file_path_def)

lemma demo_put:
  "put_save 0 [0x5A] (pi (saver_start ''cfg'' ''game'' (demo_pi Sram))) = Inr (pi demo_write)"
  using init_length [of "''cfg''" "''game''" "demo_pi Sram"]
  by (simp add: put_save_def save_range_def saver_start_def demo_write_def demo_pi_def)


section \<open>Properties\<close>

text \<open>
  C38. A FlashRAM page written through the PI registers reads back: after the command sequence of
  libultra for page \<open>page\<close>, every call succeeds, the guest buffer \<open>b\<close> holds the bytes of the buffer
  \<open>a\<close>, the save buffer differs from the old one in that page only, the status is the one of a
  finished program, and both transfers have posted their completion.
\<close>

theorem flash_page_roundtrip:
  assumes "byte_store (rd_b G) (st_b G) (\<lambda>a. a)" "flashram_allowed (game_save_type s)" "length (save_buffer s) = 0x20000" "page < 0x400"
  shows "\<exists>m' s'. flash_cycle G rom page a b mq m s = Inr (m', s') \<and> rd_bytes G m' b 128 = rd_bytes G m a 128 \<and>
    save_buffer s' = overlay (unat page * 128) (rd_bytes G m a 128) (save_buffer s) \<and> flash_status s' = 4 \<and> posted s' = posted s @ [mq, mq]"
  using assms by (rule flash_page_back)

theorem flash_page_roundtrip_witness:
  "\<exists>m' s'. flash_cycle demo_guest [] 5 0x80001000 0x80002000 0x80003000 (\<lambda>a. ucast a) (demo_pi Flashram) = Inr (m', s') \<and>
    rd_bytes demo_guest m' 0x80002000 128 = rd_bytes demo_guest (\<lambda>a. ucast a) 0x80001000 128"
  using flash_page_roundtrip [OF demo_guest_store, of "demo_pi Flashram" 5 "[]" "0x80001000" "0x80002000" "0x80003000" "\<lambda>a. ucast a"]
  by (auto simp: demo_pi_def flashram_allowed_def)



text \<open>
  C40. A change of the save file can lose a write: a write that lands between the timeout of the
  thread's wait and its look at the swap request is followed by a swap that completes with the disk
  as it was before the write, while the buffer holds the new file; the write is in neither.
\<close>

theorem change_save_file_loses_write:
  assumes "put_save offset bytes (pi (saver_start cfg gid s0)) = Inr p"
  shows "\<exists>s1 s2. (save_step cfg)\<^sup>*\<^sup>* (saver_start cfg gid s0) s1 \<and> pi s1 = p \<and> swapper s1 = None \<and>
    (save_step cfg)\<^sup>*\<^sup>* s1 s2 \<and> swapper s2 = None \<and> files_on_disk (pi s2) = files_on_disk (pi (saver_start cfg gid s0)) \<and>
    save_file_path (pi s2) = save_file_path (set_save_file_path cfg sub name p) \<and>
    save_buffer (pi s2) = save_buffer (read_save_file (set_save_file_path cfg sub name p))"
proof -
  let ?s0 = "saver_start cfg gid s0"
  let ?t = "?s0\<lparr>saver := Flushing False\<rparr>" and ?s1 = "?s0\<lparr>saver := Flushing False, pi := p\<rparr>"
  let ?r = "change_save_file_request sub name ?s1"
  let ?f = "?r\<lparr>saver := Swapping\<rparr>"
  have p: "swap_file_ready_sempahore p = 0" "swap_file_pending_sempahore p = 0" "files_on_disk p = files_on_disk (pi ?s0)"
    using assms by (auto simp: put_save_def saver_start_def split: option.splits)
  have "save_step cfg ?s0 ?t"
    by (rule save_step.thread, rule saver_act.act [of wait_timeout]) (simp_all add: saver_acts_def wait_timeout_def saver_start_def loop_head_def)
  moreover have "save_step cfg ?t (?t\<lparr>pi := p\<rparr>)"
    by (rule save_step.game_write) (use assms in \<open>simp_all add: saver_start_def\<close>)
  ultimately have r1: "(save_step cfg)\<^sup>*\<^sup>* ?s0 ?s1" by simp
  obtain g where g: "swap_step ?f = Some g" "swapper g = Some (sub, name)"
      "pi g = p\<lparr>swap_file_pending_sempahore := 0, swap_file_ready_sempahore := 1\<rparr>"
    using p by (simp add: swap_step_def change_save_file_request_def)
  obtain h where h: "change_save_file_finish cfg g = Some h" "swapper h = None"
      "pi h = read_save_file (set_save_file_path cfg sub name (p\<lparr>swap_file_pending_sempahore := 0, swap_file_ready_sempahore := 0\<rparr>))"
    using g(2,3) by (simp add: change_save_file_finish_def)
  have "save_step cfg ?s1 ?r" by (rule save_step.request) (simp add: saver_start_def)
  moreover have "save_step cfg ?r ?f"
    by (rule save_step.thread, rule saver_act.act [of "flush_step SaveOk"])
      (simp_all add: saver_acts_def flush_step_def change_save_file_request_def saver_start_def)
  moreover have "save_step cfg ?f g"
    by (rule save_step.thread, rule saver_act.act [of swap_step]) (simp_all add: saver_acts_def g(1))
  moreover have "save_step cfg g h" by (rule save_step.finish [OF h(1)])
  ultimately have r2: "(save_step cfg)\<^sup>*\<^sup>* ?s1 h" by (meson rtranclp.rtrancl_refl rtranclp.rtrancl_into_rtrancl)
  show ?thesis
    using r1 r2 h(2,3) p(3) by (intro exI [of _ ?s1] exI [of _ h]) (simp add: read_save_file_def set_save_file_path_def Let_def saver_start_def)
qed

theorem change_save_file_loses_write_witness:
  "\<exists>s1 s2. (save_step ''cfg'')\<^sup>*\<^sup>* (saver_start ''cfg'' ''game'' (demo_pi Sram)) s1 \<and> pi s1 = pi demo_write \<and>
    (save_step ''cfg'')\<^sup>*\<^sup>* s1 s2 \<and> swapper s2 = None \<and> files_on_disk (pi s2) = Map.empty"
  using change_save_file_loses_write [OF demo_put, of "''''" "''other''"]
  by (fastforce simp: saver_start_def init_saving_def read_save_file_def set_save_file_path_def demo_pi_def Let_def)

end
