(* ===== verification/Joybus.thy ===== *)
theory Joybus
  imports GbCart
begin

text \<open>
  The joybus processor of \<^verbatim>\<open>librecomp/src/si_joybus.cpp\<close>: it parses the 64-byte PIF command block and
  answers the accessory commands from the Transfer Pak of \<open>GbCart\<close>. The block is a list of 64 bytes;
  reading it outside its bounds, which C++ leaves undefined, ends the model with \<open>None\<close>. Guest memory
  is reached through \<^verbatim>\<open>MEM_BU\<close> and \<^verbatim>\<open>MEM_B\<close>, which are parameters.
\<close>

definition JOY_INFO :: u8 where "JOY_INFO = 0x00"
definition JOY_STATE :: u8 where "JOY_STATE = 0x01"
definition JOY_READ :: u8 where "JOY_READ = 0x02"
definition JOY_WRITE :: u8 where "JOY_WRITE = 0x03"
definition RX_NO_DEVICE :: u8 where "RX_NO_DEVICE = 0x80"

section \<open>The data CRC\<close>

definition crc_bit :: "bool \<Rightarrow> u32 \<Rightarrow> u32" where
  "crc_bit b crc = (let xorv = (if crc AND 0x80 \<noteq> 0 then 0x85 else 0); crc = push_bit 1 crc;
     crc = (if b then crc OR 1 else crc) in crc XOR xorv)"

text \<open>The 33 bytes of the outer loop, the last one being zero; the masks from 0x80 down to 1.\<close>

definition data_crc :: "u8 list \<Rightarrow> u8" where
  "data_crc data = ucast (fold (\<lambda>i crc. fold (\<lambda>k crc. crc_bit (i < 32 \<and> bit (data ! i) k) crc) (rev [0..<8]) crc) [0..<33] (0 :: u32))"

section \<open>Frames\<close>

text \<open>What a call needs of its surroundings: the clock, the calling thread and the outcome of writing the save file.\<close>

record surroundings =
  now_us :: u32
  this_thread :: u32
  save_outcome :: file_io

definition blk_at :: "u8 list \<Rightarrow> nat \<Rightarrow> u8 option" where
  "blk_at blk i = (if i < length blk then Some (blk ! i) else None)"

definition put_at :: "nat \<Rightarrow> u8 list \<Rightarrow> u8 list \<Rightarrow> u8 list" where
  "put_at k bytes blk = fold (\<lambda>i blk. blk[k + i := bytes ! i]) [0..<length bytes] blk"

definition joy_addr :: "u8 list \<Rightarrow> nat \<Rightarrow> u16 option" where
  "joy_addr blk cmd_i = (case (blk_at blk (cmd_i + 1), blk_at blk (cmd_i + 2)) of
     (Some hi, Some lo) \<Rightarrow> Some (push_bit 8 (ucast hi) OR ucast lo) | _ \<Rightarrow> None)"

definition no_device :: "nat \<Rightarrow> u8 list \<Rightarrow> u8 list" where
  "no_device p blk = blk[p + 1 := blk ! (p + 1) OR RX_NO_DEVICE]"

definition joy_info :: "nat \<Rightarrow> nat \<Rightarrow> nat \<Rightarrow> u8 list \<Rightarrow> paks \<Rightarrow> u8 list" where
  "joy_info chan rx rx_i blk w = (if rx \<ge> 3 then put_at rx_i [0x05, 0x00, if has_pak (int chan) w then 0x01 else 0x00] blk else blk)"

definition joy_read :: "surroundings \<Rightarrow> nat \<Rightarrow> nat \<Rightarrow> nat \<Rightarrow> nat \<Rightarrow> u8 list \<Rightarrow> paks \<Rightarrow> (u8 list \<times> paks) option" where
  "joy_read E p chan rx rx_i blk w = (case joy_addr blk (p + 2) of
     None \<Rightarrow> None
   | Some addr \<Rightarrow> (case read_block (now_us E) (this_thread E) (int chan) (drop_bit 5 addr) True w of
       (ret, data, w) \<Rightarrow> Some (if ret = 0 \<and> rx \<ge> 33 then put_at rx_i (data @ [data_crc data]) blk else no_device p blk, w)))"

definition joy_write :: "surroundings \<Rightarrow> nat \<Rightarrow> nat \<Rightarrow> nat \<Rightarrow> nat \<Rightarrow> u8 list \<Rightarrow> paks \<Rightarrow> (u8 list \<times> paks) option" where
  "joy_write E p chan rx rx_i blk w = (case joy_addr blk (p + 2) of
     None \<Rightarrow> None
   | Some addr \<Rightarrow> if p + 2 + 3 + 32 > length blk then None
     else let data = take 32 (drop (p + 5) blk) in
       (case write_block (now_us E) (this_thread E) (save_outcome E) (int chan) (drop_bit 5 addr) (Some data) w of
          (ret, w) \<Rightarrow> Some (if ret = 0 \<and> rx \<ge> 1 then put_at rx_i [data_crc data] blk else no_device p blk, w)))"

text \<open>One frame: the command byte selects the answer; unknown commands leave the block alone.\<close>

definition joy_frame :: "surroundings \<Rightarrow> nat \<Rightarrow> nat \<Rightarrow> nat \<Rightarrow> nat \<Rightarrow> u8 list \<Rightarrow> paks \<Rightarrow> (u8 list \<times> paks) option" where
  "joy_frame E p chan rx rx_i blk w = (case blk_at blk (p + 2) of
     None \<Rightarrow> None
   | Some cmd \<Rightarrow>
       if cmd = JOY_INFO then Some (joy_info chan rx rx_i blk w, w)
       else if cmd = JOY_READ then joy_read E p chan rx rx_i blk w
       else if cmd = JOY_WRITE then joy_write E p chan rx rx_i blk w
       else if cmd = JOY_STATE then Some (put_at rx_i (replicate rx 0) blk, w)
       else Some (blk, w))"

section \<open>The command loop\<close>

function joybus_loop :: "surroundings \<Rightarrow> nat \<Rightarrow> nat \<Rightarrow> u8 list \<Rightarrow> paks \<Rightarrow> (u8 list \<times> paks) option" where
  "joybus_loop E p chan blk w =
     (if p \<ge> 63 then Some (blk, w)
      else let t = blk ! p in
        if t = 0xFE then Some (blk, w)
        else if t = 0xFF then joybus_loop E (p + 1) chan blk w
        else if t = 0x00 then joybus_loop E (p + 1) (chan + 1) blk w
        else if t = 0xFD then joybus_loop E (p + 1) chan blk w
        else let tx = unat (t AND 0x3F); rx = unat (blk ! (p + 1) AND 0x3F); rx_i = p + 2 + tx in
          if rx_i + rx > 64 then Some (blk, w)
          else if chan > 3 then joybus_loop E (rx_i + rx) (chan + 1) blk w
          else (case joy_frame E p chan rx rx_i blk w of
            None \<Rightarrow> None
          | Some (blk, w) \<Rightarrow> joybus_loop E (rx_i + rx) (chan + 1) blk w))"
  by pat_completeness auto
termination by (relation "measure (\<lambda>(E, p, chan, blk, w). 63 - p)") auto

declare joybus_loop.simps [simp del]

definition run_joybus :: "('m \<Rightarrow> u32 \<Rightarrow> u8) \<Rightarrow> ('m \<Rightarrow> u32 \<Rightarrow> u8 \<Rightarrow> 'm) \<Rightarrow> surroundings \<Rightarrow> u32 \<Rightarrow> 'm \<Rightarrow> paks \<Rightarrow> ('m \<times> paks) option" where
  "run_joybus rd st E pif m w = (case joybus_loop E 0 0 (map (\<lambda>i. rd m (pif + of_nat i)) [0..<64]) w of
     None \<Rightarrow> None
   | Some (blk, w) \<Rightarrow> Some (fold (\<lambda>i m. st m (pif + of_nat i) (blk ! i)) [0..<64] m, w))"

text \<open>\<^verbatim>\<open>__osSiRawStartDma\<close>: a read processes the block; both directions post the SI completion, counted in \<open>posts\<close>.\<close>

definition osSiRawStartDma :: "('m \<Rightarrow> u32 \<Rightarrow> u8) \<Rightarrow> ('m \<Rightarrow> u32 \<Rightarrow> u8 \<Rightarrow> 'm) \<Rightarrow> surroundings \<Rightarrow> u32 \<Rightarrow> u32 \<Rightarrow> 'm \<times> paks \<times> nat \<Rightarrow> ('m \<times> paks \<times> nat) option" where
  "osSiRawStartDma rd st E direction dram_addr = (\<lambda>(m, w, posts).
     if direction = 0 then (case run_joybus rd st E dram_addr m w of None \<Rightarrow> None | Some (m, w) \<Rightarrow> Some (m, w, posts + 1))
     else Some (m, w, posts + 1))"

section \<open>The accessory calls of libultra\<close>

text \<open>
  \<^verbatim>\<open>__osContRamRead\<close>, \<^verbatim>\<open>__osContRamWrite\<close> and \<^verbatim>\<open>__osPfsGetStatus\<close> of \<^verbatim>\<open>gbpak.cpp\<close>, without the wait for the
  transfer, which is a blocking receive of the message queues.
\<close>

definition osContRamRead :: "('m \<Rightarrow> u32 \<Rightarrow> u8 \<Rightarrow> 'm) \<Rightarrow> surroundings \<Rightarrow> int \<Rightarrow> u16 \<Rightarrow> u32 \<Rightarrow> 'm \<times> paks \<Rightarrow> int \<times> 'm \<times> paks" where
  "osContRamRead st E channel address buffer = (\<lambda>(m, w).
     case read_block (now_us E) (this_thread E) channel address True w of
       (ret, block, w) \<Rightarrow> (ret, if ret = 0 then fold (\<lambda>i m. st m (buffer + of_nat i) (block ! i)) [0..<block_size] m else m, w))"

definition osContRamWrite :: "('m \<Rightarrow> u32 \<Rightarrow> u8) \<Rightarrow> surroundings \<Rightarrow> int \<Rightarrow> u16 \<Rightarrow> u32 \<Rightarrow> 'm \<times> paks \<Rightarrow> int \<times> 'm \<times> paks" where
  "osContRamWrite rd E channel address buffer = (\<lambda>(m, w).
     case write_block (now_us E) (this_thread E) (save_outcome E) channel address
       (Some (map (\<lambda>i. rd m (buffer + of_nat i)) [0..<block_size])) w of (ret, w) \<Rightarrow> (ret, m, w))"

definition osPfsGetStatus :: "int \<Rightarrow> paks \<Rightarrow> int" where
  "osPfsGetStatus channel w = (if has_pak channel w then 0 else 1)"

end
