(* ===== verification/JoybusProps.thy ===== *)
theory JoybusProps
  imports Joybus GbClaims
begin

text \<open>
  The joybus processor: its checksum is linear and detects every error within one byte; a write
  frame and a read frame carry a block to battery RAM and back; a malformed frame makes the parser
  read outside its block.
\<close>

section \<open>The checksum\<close>

text \<open>The register of the checksum is its low byte: bits shifted above it never come back.\<close>

definition crc8_bit :: "bool \<Rightarrow> u8 \<Rightarrow> u8" where
  "crc8_bit b c = (push_bit 1 c OR (if b then 1 else 0)) XOR (if bit c 7 then 0x85 else 0)"

definition crc8_byte :: "u8 \<Rightarrow> u8 \<Rightarrow> u8" where
  "crc8_byte x c = fold (\<lambda>k c. crc8_bit (bit x k) c) (rev [0..<8]) c"

lemma and_80: "(c :: u32) AND 0x80 \<noteq> 0 \<longleftrightarrow> bit c 7"
  using and_exp_eq_0_iff_not_bit [of c 7] by simp

lemma low_ops:
  "(ucast (a XOR b :: u32) :: u8) = ucast a XOR ucast b" "(ucast (a OR b :: u32) :: u8) = ucast a OR ucast b"
  "(ucast (push_bit n a) :: u8) = push_bit n (ucast a)"
  by (rule bit_word_eqI; auto simp: bit_simps)+

lemma crc_bit_low: "ucast (crc_bit b c) = crc8_bit b (ucast c)"
proof -
  have "bit (ucast c :: u8) 7 = bit c 7" by (simp add: bit_simps)
  then show ?thesis unfolding crc_bit_def Let_def and_80 crc8_bit_def
    by (simp only: low_ops if_distrib [of "ucast :: u32 \<Rightarrow> u8"] split: if_split) simp
qed

lemma fold_low: "(\<And>x c. ucast (f x c) = g x (ucast c)) \<Longrightarrow> (ucast (fold f xs (c :: u32)) :: u8) = fold g xs (ucast c)"
  by (induction xs arbitrary: c) simp_all

lemma data_crc_bytes: "length data = 32 \<Longrightarrow> data_crc data = fold crc8_byte (data @ [0]) 0"
proof -
  assume l: "length data = 32"
  have "data_crc data = fold (\<lambda>i. fold (\<lambda>k. crc8_bit (i < 32 \<and> bit (data ! i) k)) (rev [0..<8])) [0..<33] 0"
    unfolding data_crc_def by (subst fold_low, rule fold_low, rule crc_bit_low) simp
  also have "\<dots> = fold (\<lambda>i. crc8_byte ((data @ [0]) ! i)) [0..<33] 0"
    by (rule fold_cong) (auto simp: crc8_byte_def nth_append l intro!: ext fold_cong)
  also have "\<dots> = fold crc8_byte (map ((!) (data @ [0])) [0..<33]) 0" by (simp add: fold_map comp_def)
  also have "map ((!) (data @ [0])) [0..<33] = data @ [0]" using l map_nth [of "data @ [0]"] by simp
  finally show ?thesis .
qed

text \<open>Linearity, and what one byte does to an empty register and to a register without input.\<close>

lemma xor8_zero: "(x :: u8) XOR y = 0 \<longleftrightarrow> x = y"
  by (auto simp: bit_eq_iff bit_xor_iff)

lemma xor8_cancel: "(x :: u8) XOR (x XOR y) = y"
  by (simp flip: xor.assoc)

lemma shifted_bit: "bit (push_bit m (c :: u8)) n \<longleftrightarrow> m \<le> n \<and> n < 8 \<and> bit c (n - m)"
  by (auto simp: bit_simps)

lemma shifted_bit_0: "0 < m \<Longrightarrow> \<not> bit (push_bit m (c :: u8)) 0"
  by (simp add: bit_simps)

lemma crc8_bit_xor: "crc8_bit b c = push_bit 1 c XOR ((if b then 1 else 0) XOR (if bit c 7 then 0x85 else 0))"
proof -
  have "x OR (if b then 1 else 0) = x XOR (if b then 1 else 0)" if "\<not> bit x 0" for x :: u8
    using that by (intro bit_word_eqI) (auto simp: bit_simps intro: gr0I)
  from this [OF shifted_bit_0 [of 1 c, OF zero_less_one]] show ?thesis by (simp only: crc8_bit_def xor.assoc)
qed

lemma crc8_bit_linear: "crc8_bit b c XOR crc8_bit b' c' = crc8_bit (b \<noteq> b') (c XOR c')"
proof -
  have "(P XOR (i XOR f)) XOR (P' XOR (i' XOR f')) = (P XOR P') XOR ((i XOR i') XOR (f XOR f'))" for P P' i i' f f' :: u8
    by (simp only: ac_simps)
  moreover have "(if b then 1 else 0) XOR (if b' then 1 else 0) = (if b \<noteq> b' then 1 else (0 :: u8))" by simp
  moreover have "(if bit c 7 then 0x85 else 0) XOR (if bit c' 7 then 0x85 else 0) = (if bit (c XOR c') 7 then 0x85 else (0 :: u8))"
    by (simp add: bit_xor_iff)
  ultimately show ?thesis by (simp only: crc8_bit_xor push_bit_xor)
qed

lemma crc8_byte_linear: "crc8_byte x c XOR crc8_byte y d = crc8_byte (x XOR y) (c XOR d)"
proof -
  have "fold (\<lambda>k c. crc8_bit (bit x k) c) ks c XOR fold (\<lambda>k c. crc8_bit (bit y k) c) ks d =
      fold (\<lambda>k c. crc8_bit (bit (x XOR y) k) c) ks (c XOR d)" for ks
    by (induction ks arbitrary: c d) (simp_all add: crc8_bit_linear bit_xor_iff)
  then show ?thesis by (simp add: crc8_byte_def)
qed

lemma crc8_bit_shift: "k < 8 \<Longrightarrow> crc8_bit (bit x k) (drop_bit (Suc k) x) = drop_bit k x"
proof -
  assume k: "k < 8"
  have "\<not> bit (drop_bit (Suc k) x) 7" using bit_imp_le_length [of x "8 + k"] by (auto simp: bit_simps)
  moreover have "bit (push_bit 1 (drop_bit (Suc k) x) OR (if bit x k then 1 else 0)) n = bit (drop_bit k x) n" if "n < 8" for n
    unfolding bit_or_iff shifted_bit using k that by (cases n) (auto simp: bit_simps)
  then have "push_bit 1 (drop_bit (Suc k) x) OR (if bit x k then 1 else 0) = drop_bit k x" by (intro bit_word_eqI) simp
  ultimately show ?thesis by (simp add: crc8_bit_def)
qed

lemma crc8_byte_zero: "crc8_byte x 0 = x"
proof -
  have "fold (\<lambda>k c. crc8_bit (bit x k) c) (rev [n..<8]) 0 = drop_bit n x" if "n \<le> 8" for n
    using that
  proof (induction "8 - n" arbitrary: n)
    case 0
    then show ?case by (auto intro!: bit_word_eqI simp: bit_simps)
  next
    case (Suc m)
    then have "[n..<8] = n # [Suc n..<8]" by (simp add: upt_conv_Cons)
    with Suc show ?case by (simp add: crc8_bit_shift)
  qed
  from this [of 0] show ?thesis by (simp add: crc8_byte_def)
qed

lemma crc8_bit_nonzero: "c \<noteq> 0 \<Longrightarrow> crc8_bit False c \<noteq> 0"
proof
  assume c: "c \<noteq> 0" and z: "crc8_bit False c = 0"
  show False
  proof (cases "bit c 7")
    case True
    have "bit (crc8_bit False c) 0" using True shifted_bit_0 [of 1 c] by (simp only: crc8_bit_xor bit_xor_iff) simp
    with z show False by simp
  next
    case False
    then have p: "push_bit 1 c = 0" using z by (simp add: crc8_bit_def)
    have "\<not> bit c n" for n
    proof (cases "n < 7")
      case True
      then have "bit (push_bit 1 c) (Suc n) = bit c n" unfolding shifted_bit by simp
      then show ?thesis unfolding p by simp
    next
      case nl: False
      then show ?thesis using False bit_imp_le_length [of c n] by (cases "n = 7") auto
    qed
    then have "c = 0" by (intro bit_word_eqI) simp
    with c show False by simp
  qed
qed

lemma crc8_byte_nonzero: "c \<noteq> 0 \<Longrightarrow> crc8_byte 0 c \<noteq> 0"
proof -
  have "c \<noteq> 0 \<Longrightarrow> fold (\<lambda>k. crc8_bit False) ks c \<noteq> 0" for ks :: "nat list"
    by (induction ks arbitrary: c) (simp_all add: crc8_bit_nonzero)
  then show "c \<noteq> 0 \<Longrightarrow> crc8_byte 0 c \<noteq> 0" by (simp add: crc8_byte_def)
qed

lemma fold_crc_differs: "c \<noteq> d \<Longrightarrow> fold crc8_byte xs c \<noteq> fold crc8_byte xs d"
proof (induction xs arbitrary: c d)
  case (Cons x xs)
  have "crc8_byte x c XOR crc8_byte x d = crc8_byte 0 (c XOR d)" by (simp add: crc8_byte_linear)
  moreover have "c XOR d \<noteq> 0" using Cons.prems by (simp add: xor8_zero)
  ultimately have "crc8_byte x c \<noteq> crc8_byte x d" using crc8_byte_nonzero [of "c XOR d"] by auto
  then show ?case using Cons.IH by simp
qed simp

lemma crc_byte_error:
  assumes "length data = 32" "i < 32" "v \<noteq> data ! i" shows "data_crc (data[i := v]) \<noteq> data_crc data"
proof -
  let ?c = "fold crc8_byte (take i data) 0"
  have s: "data[i := v] = take i data @ v # drop (Suc i) data" "data = take i data @ data ! i # drop (Suc i) data"
    using assms by (simp_all add: upd_conv_take_nth_drop id_take_nth_drop)
  have "crc8_byte v ?c XOR crc8_byte (data ! i) ?c = v XOR data ! i" by (simp add: crc8_byte_linear crc8_byte_zero)
  moreover have "v XOR data ! i \<noteq> 0" using assms(3) by (simp add: xor8_zero)
  ultimately have ne: "crc8_byte v ?c \<noteq> crc8_byte (data ! i) ?c" by auto
  have "data_crc (data[i := v]) = fold crc8_byte (drop (Suc i) data @ [0]) (crc8_byte v ?c)"
    using assms(1,2) by (subst data_crc_bytes) (simp_all add: s(1))
  moreover have "data_crc data = fold crc8_byte (drop (Suc i) data @ [0]) (crc8_byte (data ! i) ?c)"
    using assms(1) by (subst data_crc_bytes, simp, subst s(2)) simp
  ultimately show ?thesis using fold_crc_differs [OF ne, of "drop (Suc i) data @ [0]"] by simp
qed

section \<open>Frames\<close>

lemma put_at_exact:
  assumes "length ys = length bytes" shows "put_at (length xs) bytes (xs @ ys @ zs) = xs @ bytes @ zs"
proof -
  have "n \<le> length bytes \<Longrightarrow> fold (\<lambda>i blk. blk[length xs + i := bytes ! i]) [0..<n] (xs @ ys @ zs) = xs @ (take n bytes @ drop n ys) @ zs" for n
  proof (induction n)
    case (Suc n)
    then have l: "n < length ys" "n < length bytes" using assms by simp_all
    have "(take n bytes @ drop n ys)[n := bytes ! n] = take (Suc n) bytes @ drop (Suc n) ys"
      using l by (simp add: list_update_append take_Suc_conv_app_nth Cons_nth_drop_Suc [symmetric])
    then show ?case using Suc l by (simp add: list_update_append assms)
  qed simp
  from this [of "length bytes"] show ?thesis using assms by (simp add: put_at_def)
qed

lemma joy_addr_frame: "joy_addr (pre @ t # r # cmd # hi # lo # ys) (length pre + 2) = Some (push_bit 8 (ucast hi) OR ucast lo)"
  by (simp add: joy_addr_def blk_at_def nth_append)

lemma frame_step:
  assumes "p < 63" "blk ! p \<notin> {0xFE, 0xFF, 0, 0xFD}" "tx = unat (blk ! p AND 0x3F)" "rx = unat (blk ! (p + 1) AND 0x3F)"
    and "p + 2 + tx + rx \<le> 64" "chan \<le> 3" "joy_frame E p chan rx (p + 2 + tx) blk w = Some (blk', w')"
  shows "joybus_loop E p chan blk w = joybus_loop E (p + 2 + tx + rx) (chan + 1) blk' w'"
  using assms by (subst joybus_loop.simps) (simp add: Let_def)

lemma write_frame:
  assumes "length pre + 38 + length rest = 64" "chan \<le> 3" "length data = 32"
    and "write_block (now_us E) (this_thread E) (save_outcome E) (int chan) (drop_bit 5 (push_bit 8 (ucast hi) OR ucast lo)) (Some data) w = (0, w')"
  shows "joybus_loop E (length pre) chan (pre @ [35, 1, 3, hi, lo] @ data @ [x] @ rest) w =
    joybus_loop E (length pre + 38) (chan + 1) (pre @ [35, 1, 3, hi, lo] @ data @ [data_crc data] @ rest) w'"
proof -
  let ?b = "pre @ [35, 1, 3, hi, lo] @ data @ [x] @ rest"
  have nth: "?b ! length pre = 35" "?b ! (length pre + 1) = 1" "?b ! (length pre + 2) = 3" by (simp_all add: nth_append)
  have put: "put_at (length pre + 37) [data_crc data] ?b = pre @ [35, 1, 3, hi, lo] @ data @ [data_crc data] @ rest"
    using put_at_exact [of "[x]" "[data_crc data]" "pre @ [35, 1, 3, hi, lo] @ data" rest] assms(3) by simp
  have "take 32 (drop (length pre + 5) ?b) = data" using assms(3) by simp
  then have f: "joy_frame E (length pre) chan 1 (length pre + 37) ?b w = Some (pre @ [35, 1, 3, hi, lo] @ data @ [data_crc data] @ rest, w')"
    using assms put nth(3) joy_addr_frame [of pre 35 1 3 hi lo]
    by (simp add: joy_frame_def joy_write_def blk_at_def JOY_INFO_def JOY_READ_def JOY_WRITE_def Let_def)
  have "joybus_loop E (length pre) chan ?b w =
      joybus_loop E (length pre + 2 + 35 + 1) (chan + 1) (pre @ [35, 1, 3, hi, lo] @ data @ [data_crc data] @ rest) w'"
  proof (rule frame_step)
    show "joy_frame E (length pre) chan 1 (length pre + 2 + 35) ?b w = Some (pre @ [35, 1, 3, hi, lo] @ data @ [data_crc data] @ rest, w')"
      using f by (simp only: add.assoc) simp
  qed (use assms(1,2) nth in \<open>simp_all only: nth, simp_all\<close>)
  then show ?thesis by (simp only: add.assoc) simp
qed

lemma read_frame:
  assumes "length pre + 38 + length rest = 64" "chan \<le> 3" "length data = 32" "length answer = 33"
    and "read_block (now_us E) (this_thread E) (int chan) (drop_bit 5 (push_bit 8 (ucast hi) OR ucast lo)) True w = (0, data, w')"
  shows "joybus_loop E (length pre) chan (pre @ [3, 33, 2, hi, lo] @ answer @ rest) w =
    joybus_loop E (length pre + 38) (chan + 1) (pre @ [3, 33, 2, hi, lo] @ data @ [data_crc data] @ rest) w'"
proof -
  let ?b = "pre @ [3, 33, 2, hi, lo] @ answer @ rest"
  have nth: "?b ! length pre = 3" "?b ! (length pre + 1) = 33" "?b ! (length pre + 2) = 2" by (simp_all add: nth_append)
  have put: "put_at (length pre + 5) (data @ [data_crc data]) ?b = pre @ [3, 33, 2, hi, lo] @ data @ [data_crc data] @ rest"
    using put_at_exact [of answer "data @ [data_crc data]" "pre @ [3, 33, 2, hi, lo]" rest] assms(3,4) by (simp add: eval_nat_numeral)
  have f: "joy_frame E (length pre) chan 33 (length pre + 5) ?b w = Some (pre @ [3, 33, 2, hi, lo] @ data @ [data_crc data] @ rest, w')"
    using assms put nth(3) joy_addr_frame [of pre 3 33 2 hi lo]
    by (simp add: joy_frame_def joy_read_def blk_at_def JOY_INFO_def JOY_READ_def)
  have "joybus_loop E (length pre) chan ?b w =
      joybus_loop E (length pre + 2 + 3 + 33) (chan + 1) (pre @ [3, 33, 2, hi, lo] @ data @ [data_crc data] @ rest) w'"
  proof (rule frame_step)
    show "joy_frame E (length pre) chan 33 (length pre + 2 + 3) ?b w = Some (pre @ [3, 33, 2, hi, lo] @ data @ [data_crc data] @ rest, w')"
      using f by (simp only: add.assoc) simp
  qed (use assms(1,2) nth in \<open>simp_all only: nth, simp_all\<close>)
  then show ?thesis by (simp only: add.assoc) simp
qed

text \<open>Zero bytes skip channels, 0xFE ends the block.\<close>

lemma skip_channels:
  assumes "c < 63" shows "joybus_loop E 0 0 (replicate c 0 @ ys) w = joybus_loop E c c (replicate c 0 @ ys) w"
proof -
  have "j \<le> c \<Longrightarrow> joybus_loop E 0 0 (replicate c 0 @ ys) w = joybus_loop E j j (replicate c 0 @ ys) w" for j
  proof (induction j)
    case (Suc j)
    then have "joybus_loop E j j (replicate c 0 @ ys) w = joybus_loop E (Suc j) (Suc j) (replicate c 0 @ ys) w"
      using assms by (subst joybus_loop.simps) (simp add: nth_append)
    then show ?case using Suc by simp
  qed simp
  then show ?thesis by simp
qed

lemma end_of_commands: "blk ! p = 0xFE \<Longrightarrow> joybus_loop E p c blk w = Some (blk, w)"
  by (subst joybus_loop.simps) simp

section \<open>Properties\<close>

text \<open>
  C9. A block travels over the joybus to battery RAM and back: with the RAM of the cartridge in port
  \<open>c\<close> open in the window, a command block whose frame for channel \<open>c\<close> writes 32 bytes is answered with
  their checksum, and a later block whose frame reads the same address is answered with the same
  32 bytes and the same checksum; nothing else of the two blocks changes.
\<close>

theorem joybus_block_roundtrip:
  assumes "c \<le> 3" "configured (ports w c)" "sram_open (ports w c)" "sram_at (drop_bit 5 (push_bit 8 (ucast hi) OR ucast lo) * of_nat block_size) k"
    and "ram_base (cart (ports w c)) + k + block_size \<le> length (ram (cart (ports w c)))"
    and "length data = 32" "length answer = 33" "c + 39 + length rest = 64"
  shows "\<exists>w' w''.
    joybus_loop E 0 0 (replicate c 0 @ [35, 1, 3, hi, lo] @ data @ [x, 0xFE] @ rest) w =
      Some (replicate c 0 @ [35, 1, 3, hi, lo] @ data @ [data_crc data, 0xFE] @ rest, w') \<and>
    joybus_loop E 0 0 (replicate c 0 @ [3, 33, 2, hi, lo] @ answer @ [0xFE] @ rest) w' =
      Some (replicate c 0 @ [3, 33, 2, hi, lo] @ data @ [data_crc data, 0xFE] @ rest, w'')"
proof -
  let ?b = "drop_bit 5 (push_bit 8 (ucast hi) OR ucast lo) :: u16" and ?pre = "replicate c (0 :: u8)"
  obtain r w' where wr: "write_block (now_us E) (this_thread E) (save_outcome E) (int c) ?b (Some data) w = (r, w')" by fastforce
  obtain w'' where r: "r = 0" and rd: "read_block (now_us E) (this_thread E) (int c) ?b True w' = (0, data, w'')"
    using sram_write_read [of "int c" w ?b k data "now_us E" "this_thread E" "save_outcome E" "now_us E" "this_thread E"] assms wr
    by (auto simp: port_count_def block_size_def)
  have l: "length ?pre + 38 + length (0xFE # rest) = 64" "c < 63" using assms(1,8) by simp_all
  have e: "(?pre @ [35, 1, 3, hi, lo] @ data @ [data_crc data] @ 0xFE # rest) ! (length ?pre + 38) = 0xFE"
      "(?pre @ [3, 33, 2, hi, lo] @ data @ [data_crc data] @ 0xFE # rest) ! (length ?pre + 38) = 0xFE"
    using assms(6) by (simp_all add: nth_append)
  have "joybus_loop E 0 0 (?pre @ [35, 1, 3, hi, lo] @ data @ [x] @ 0xFE # rest) w = Some (?pre @ [35, 1, 3, hi, lo] @ data @ [data_crc data] @ 0xFE # rest, w')"
    using write_frame [OF l(1) assms(1,6) wr [unfolded r], of x] end_of_commands [OF e(1)] skip_channels [OF l(2)] by simp
  moreover have "joybus_loop E 0 0 (?pre @ [3, 33, 2, hi, lo] @ answer @ 0xFE # rest) w' = Some (?pre @ [3, 33, 2, hi, lo] @ data @ [data_crc data] @ 0xFE # rest, w'')"
    using read_frame [OF l(1) assms(1,6,7) rd] end_of_commands [OF e(2)] skip_channels [OF l(2)] by simp
  ultimately show ?thesis by auto
qed

theorem joybus_block_roundtrip_witness:
  "\<exists>w' w''. joybus_loop \<lparr>now_us = 0, this_thread = 0, save_outcome = IoOk\<rparr> 0 0 (replicate 0 0 @ [35, 1, 3, 0xE0, 0] @ replicate 32 0x5A @ [0, 0xFE] @ replicate 25 0) demo_window =
      Some (replicate 0 0 @ [35, 1, 3, 0xE0, 0] @ replicate 32 0x5A @ [data_crc (replicate 32 0x5A), 0xFE] @ replicate 25 0, w') \<and>
    joybus_loop \<lparr>now_us = 0, this_thread = 0, save_outcome = IoOk\<rparr> 0 0 (replicate 0 0 @ [3, 33, 2, 0xE0, 0] @ replicate 33 0 @ [0xFE] @ replicate 25 0) w' =
      Some (replicate 0 0 @ [3, 33, 2, 0xE0, 0] @ replicate 32 0x5A @ [data_crc (replicate 32 0x5A), 0xFE] @ replicate 25 0, w'')"
proof (rule joybus_block_roundtrip)
  show "sram_at (drop_bit 5 (push_bit 8 (ucast (0xE0 :: u8)) OR ucast (0 :: u8)) * of_nat block_size) 0"
    by (simp add: sram_at_def block_size_def transfer_pak_address_mask_def)
qed (simp_all add: demo_window_props block_size_def)

text \<open>
  The accessory checksum detects every error confined to one byte: changing one of the 32 bytes
  of a block to any other value changes the checksum.
\<close>

theorem data_crc_detects_byte_error:
  assumes "length data = 32" "i < 32" "v \<noteq> data ! i" shows "data_crc (data[i := v]) \<noteq> data_crc data"
  using assms by (rule crc_byte_error)

theorem data_crc_detects_byte_error_witness: "data_crc ((replicate 32 0x5A)[3 := 0x5B]) \<noteq> data_crc (replicate 32 0x5A)"
  by (rule data_crc_detects_byte_error) simp_all

section \<open>A malformed block\<close>

text \<open>
  The length check of a frame covers its answer but not its command bytes: a frame at the end of the
  block that announces one command byte but is a write reads its address and data past byte 63.
\<close>

theorem malformed_frame_reads_outside:
  "joybus_loop E 60 0 (replicate 60 0xFF @ [1, 1, 3, 0]) w = None"
  by (subst joybus_loop.simps) (simp add: Let_def nth_append joy_frame_def joy_write_def joy_addr_def blk_at_def JOY_INFO_def JOY_READ_def JOY_WRITE_def)

end
