(* ===== verification/OverlayState.thy ===== *)
theory OverlayState
  imports Prelude
begin

unbundle bit_operations_syntax

text \<open>
  The tables of \<^verbatim>\<open>librecomp/src/overlays.cpp\<close>: the section table of the recompiled program, the
  sections that are loaded and where, the map from guest addresses to host functions, the
  relocation bases, the index from host addresses to sections, and the lists of exports and
  patches. Guest addresses are 32-bit words (\<^verbatim>\<open>int32_t\<close> and \<^verbatim>\<open>uint32_t\<close> share their bits; a signed
  comparison is written out where the source has one), host function pointers 64-bit words with
  0 for \<^verbatim>\<open>nullptr\<close>. The debugging switches \<^verbatim>\<open>PSR_FUNC_MAP_PROBE\<close>, \<^verbatim>\<open>PSR_SECADDR_TRACE\<close>,
  \<^verbatim>\<open>PSR_SECADDR_VERIFY\<close> and \<^verbatim>\<open>PSR_SECADDR_CATCH\<close> are off; the two switches that change what is
  registered are fields of the state.
\<close>

section \<open>Section descriptors\<close>

record FuncEntry =
  fe_func :: u64
  fe_offset :: u32
  fe_rom_size :: u32

datatype RelocEntryType = R_MIPS_NONE | R_MIPS_16 | R_MIPS_32 | R_MIPS_REL32 | R_MIPS_26 | R_MIPS_HI16 | R_MIPS_LO16 | R_MIPS_GPREL16

record RelocEntry =
  re_offset :: u32
  target_section_offset :: u32
  target_section :: u16
  re_type :: RelocEntryType

record SectionTableEntry =
  rom_addr :: u32
  ram_addr :: u32
  sec_size :: u32
  funcs :: "FuncEntry list"
  relocs :: "RelocEntry list"
  sec_index :: nat
  content_hash :: u64
  original_pattern_id :: u32

record LoadedSection =
  loaded_ram_addr :: u32
  section_table_index :: nat

record SyntheticFragmentSlot =
  runtime_base :: u32
  slot_size :: u32
  slot_section_index :: nat
  registered :: bool

record FragInstance =
  generation :: u64
  fi_id :: u32
  link_base :: u32
  fi_runtime_base :: u32
  fi_size :: u32
  head_hash :: u64

datatype overlay_error =
  OutOfBounds \<comment> \<open>an index past the end of a table: undefined behaviour in the source\<close>
  | ExitFailure \<comment> \<open>\<^verbatim>\<open>std::exit\<close>\<close>
  | AbortCall \<comment> \<open>\<^verbatim>\<open>std::abort\<close>, a failed assertion or \<^verbatim>\<open>quick_exit\<close>\<close>

section \<open>State\<close>

record overlay_state =
  code_sections :: "SectionTableEntry list"
  have_code_sections :: bool
  total_num_sections :: nat
  overlays_table :: "u32 list"
  patch_code_sections :: "SectionTableEntry list"
  have_patch_sections :: bool
  patch_data :: "u8 list"
  code_sections_by_rom :: "u32 \<rightharpoonup> u16"
  patch_code_sections_by_rom :: "u32 \<rightharpoonup> u16"
  loaded_sections :: "LoadedSection list"
  runtime_fragment_id_to_section :: "u32 \<rightharpoonup> nat"
  s_frag_inst :: "FragInstance list"
  s_frag_reg_seq :: u64
  s_frag_reg_count :: "u32 \<Rightarrow> u32"
  func_map :: "u32 \<rightharpoonup> u64"
  s_frag_live_range :: "u32 \<rightharpoonup> u32 \<times> u32"
  base_exports :: "string \<rightharpoonup> u64"
  ext_base_exports :: "string \<rightharpoonup> u64"
  base_events :: "(string \<times> nat) list"
  manual_patch_symbols_by_vram :: "u32 \<rightharpoonup> u64"
  section_addresses :: "u32 list option"
  pc_to_section_sorted :: "(u64 \<times> nat) list"
  pc_index_dirty :: bool
  section_load_order :: "u64 list"
  next_load_order :: u64
  pending_trampolines :: "(u32 \<times> u32) list"
  recomp_synthetic_fragments :: "SyntheticFragmentSlot list"
  frag_unreg_enabled :: bool
  psr_size_filter_on :: bool

definition empty_overlay_state :: overlay_state where
  "empty_overlay_state = \<lparr>code_sections = [], have_code_sections = False, total_num_sections = 0, overlays_table = [],
     patch_code_sections = [], have_patch_sections = False, patch_data = [], code_sections_by_rom = Map.empty,
     patch_code_sections_by_rom = Map.empty, loaded_sections = [], runtime_fragment_id_to_section = Map.empty,
     s_frag_inst = replicate 128 \<lparr>generation = 0, fi_id = 0, link_base = 0, fi_runtime_base = 0, fi_size = 0, head_hash = 0\<rparr>,
     s_frag_reg_seq = 0, s_frag_reg_count = (\<lambda>_. 0), func_map = Map.empty, s_frag_live_range = Map.empty,
     base_exports = Map.empty, ext_base_exports = Map.empty, base_events = [], manual_patch_symbols_by_vram = Map.empty,
     section_addresses = None, pc_to_section_sorted = [], pc_index_dirty = False, section_load_order = [], next_load_order = 1,
     pending_trampolines = [],
     recomp_synthetic_fragments = replicate 512 \<lparr>runtime_base = 0, slot_size = 0, slot_section_index = 0, registered = False\<rparr>,
     frag_unreg_enabled = True, psr_size_filter_on = True\<rparr>"

abbreviation section_at :: "overlay_state \<Rightarrow> nat \<Rightarrow> SectionTableEntry" where
  "section_at st i \<equiv> code_sections st ! i"

section \<open>Relocation bases and the range of a superseded instance\<close>

definition secaddr_set :: "nat \<Rightarrow> u32 \<Rightarrow> overlay_state \<Rightarrow> overlay_state" where
  "secaddr_set index value st =
     (if value AND 3 \<noteq> 0 then st
      else case section_addresses st of None \<Rightarrow> st | Some sa \<Rightarrow> st\<lparr>section_addresses := Some (sa[index := value])\<rparr>)"

definition frag_range_erase :: "u32 \<Rightarrow> u32 \<Rightarrow> (u32 \<rightharpoonup> u64) \<Rightarrow> (u32 \<rightharpoonup> u64)" where
  "frag_range_erase base sz fm =
     (if sz = 0 then fm else (\<lambda>a. if base \<le> a \<and> a < base + sz then None else fm a))"

section \<open>Host address index and load order\<close>

definition pc_index_register :: "u64 \<Rightarrow> nat \<Rightarrow> overlay_state \<Rightarrow> overlay_state" where
  "pc_index_register f section_index st =
     (if f = 0 then st
      else st\<lparr>pc_to_section_sorted := pc_to_section_sorted st @ [(f, section_index)], pc_index_dirty := True\<rparr>)"

definition pc_index_rebuild_if_dirty :: "overlay_state \<Rightarrow> overlay_state" where
  "pc_index_rebuild_if_dirty st =
     (if \<not> pc_index_dirty st then st
      else st\<lparr>pc_to_section_sorted := sort_key fst (pc_to_section_sorted st), pc_index_dirty := False\<rparr>)"

text \<open>\<^verbatim>\<open>std::upper_bound\<close> on the sorted index is its partition point.\<close>

definition pc_index_lookup :: "u64 \<Rightarrow> overlay_state \<Rightarrow> nat option \<times> overlay_state" where
  "pc_index_lookup pc st = (let st = pc_index_rebuild_if_dirty st; ix = pc_to_section_sorted st;
       it = length (takeWhile (\<lambda>r. \<not> pc < fst r) ix) in
     (if ix = [] then None else if it = 0 then None
      else if pc - fst (ix ! (it - 1)) > 0x10000 then None else Some (snd (ix ! (it - 1))), st))"

definition record_load_order :: "nat \<Rightarrow> overlay_state \<Rightarrow> overlay_state" where
  "record_load_order section_index st = (let lo = section_load_order st;
       lo = (if length lo \<le> section_index then lo @ replicate (section_index + 1 - length lo) 0 else lo) in
     st\<lparr>section_load_order := lo[section_index := next_load_order st], next_load_order := next_load_order st + 1\<rparr>)"

definition get_load_order :: "overlay_state \<Rightarrow> nat \<Rightarrow> u64" where
  "get_load_order st section_index =
     (if length (section_load_order st) \<le> section_index then 0 else section_load_order st ! section_index)"

section \<open>Function aliases of a section\<close>

definition section_original_fragment_base :: "SectionTableEntry \<Rightarrow> u32 option" where
  "section_original_fragment_base sec =
     (if original_pattern_id sec = 0xFFFFFFFF then None
      else Some (0x80000000 OR push_bit 20 ((original_pattern_id sec + 0x10) AND 0x0FF)))"

definition install_section_func_aliases :: "SectionTableEntry \<Rightarrow> u32 \<Rightarrow> FuncEntry \<Rightarrow> (u32 \<rightharpoonup> u64) \<Rightarrow> (u32 \<rightharpoonup> u64)" where
  "install_section_func_aliases section base func fm =
     (if fe_func func = 0 then fm
      else let offset = fe_offset func;
               fm = fm(base + offset \<mapsto> fe_func func);
               fm = (if ram_addr section \<noteq> base then fm(ram_addr section + offset \<mapsto> fe_func func) else fm) in
           case section_original_fragment_base section of
             None \<Rightarrow> fm
           | Some original_base \<Rightarrow> fm(original_base + offset \<mapsto> fe_func func))"

definition erase_fragment_slot_aliases :: "SectionTableEntry \<Rightarrow> u32 \<Rightarrow> u32 \<Rightarrow> (u32 \<rightharpoonup> u64) \<Rightarrow> (u32 \<rightharpoonup> u64)" where
  "erase_fragment_slot_aliases section base offset fm =
     (let fm = fm(base + offset := None);
          fm = (if ram_addr section \<noteq> base then fm(ram_addr section + offset := None) else fm) in
      case section_original_fragment_base section of
        None \<Rightarrow> fm
      | Some original_base \<Rightarrow> fm(original_base + offset := None))"

definition erase_section_func_aliases :: "SectionTableEntry \<Rightarrow> u32 \<Rightarrow> FuncEntry \<Rightarrow> (u32 \<rightharpoonup> u64) \<Rightarrow> (u32 \<rightharpoonup> u64)" where
  "erase_section_func_aliases section base func fm =
     (if fe_func func = 0 then fm
      else let offset = fe_offset func;
               fm = fm(base + offset := None);
               fm = (if ram_addr section \<noteq> base then fm(ram_addr section + offset := None) else fm) in
           case section_original_fragment_base section of
             None \<Rightarrow> fm
           | Some original_base \<Rightarrow> fm(original_base + offset := None))"

definition add_loaded_function :: "u32 \<Rightarrow> u64 \<Rightarrow> overlay_state \<Rightarrow> overlay_state" where
  "add_loaded_function ram f st = st\<lparr>func_map := (func_map st)(ram \<mapsto> f)\<rparr>"

section \<open>Registering the program, its patches and its exports\<close>

definition register_overlays :: "SectionTableEntry list \<Rightarrow> nat \<Rightarrow> u32 list \<Rightarrow> overlay_state \<Rightarrow> overlay_state" where
  "register_overlays sections num_total overlays st =
     fold (\<lambda>si. fold (\<lambda>f. pc_index_register (fe_func f) si) (funcs (sections ! si))) [0..<length sections]
       (st\<lparr>code_sections := sections, have_code_sections := True, total_num_sections := num_total, overlays_table := overlays\<rparr>)"

text \<open>\<^verbatim>\<open>emplace\<close> keeps the entry that is there.\<close>

definition emplace :: "'a \<Rightarrow> 'b \<Rightarrow> ('a \<rightharpoonup> 'b) \<Rightarrow> ('a \<rightharpoonup> 'b)" where
  "emplace k v m = (case m k of None \<Rightarrow> m(k \<mapsto> v) | Some _ \<Rightarrow> m)"

definition register_patches :: "u8 list \<Rightarrow> SectionTableEntry list \<Rightarrow> overlay_state \<Rightarrow> overlay_state" where
  "register_patches patch sections st =
     st\<lparr>patch_code_sections := sections, have_patch_sections := True, patch_data := patch,
        patch_code_sections_by_rom :=
          fold (\<lambda>idx. emplace (rom_addr (sections ! idx)) (of_nat idx)) [0..<length sections] (patch_code_sections_by_rom st)\<rparr>"

definition register_base_export :: "string \<Rightarrow> u64 \<Rightarrow> overlay_state \<Rightarrow> overlay_state" where
  "register_base_export name f st = st\<lparr>base_exports := emplace name f (base_exports st)\<rparr>"

definition register_ext_base_export :: "string \<Rightarrow> u64 \<Rightarrow> overlay_state \<Rightarrow> overlay_state" where
  "register_ext_base_export name f st = st\<lparr>ext_base_exports := emplace name f (ext_base_exports st)\<rparr>"

definition patch_vram_to_func :: "overlay_state \<Rightarrow> u32 \<rightharpoonup> u64" where
  "patch_vram_to_func st =
     fold (\<lambda>section. fold (\<lambda>entry. emplace (ram_addr section + fe_offset entry) (fe_func entry)) (funcs section))
       (patch_code_sections st) Map.empty"

text \<open>The list of exports ends with a null name; an export that no patch section defines fails an assertion.\<close>

fun register_base_exports :: "(string \<times> u32) list \<Rightarrow> overlay_state \<Rightarrow> overlay_error + overlay_state" where
  "register_base_exports [] st = Inr st"
| "register_base_exports ((name, ram) # exports) st =
     (case patch_vram_to_func st ram of
        None \<Rightarrow> Inl AbortCall
      | Some f \<Rightarrow> register_base_exports exports (st\<lparr>base_exports := emplace name f (base_exports st)\<rparr>))"

definition get_base_export :: "overlay_state \<Rightarrow> string \<Rightarrow> u64" where
  "get_base_export st name = (case base_exports st name of Some f \<Rightarrow> f | None \<Rightarrow> 0)"

definition get_ext_base_export :: "overlay_state \<Rightarrow> string \<Rightarrow> u64" where
  "get_ext_base_export st name = (case ext_base_exports st name of Some f \<Rightarrow> f | None \<Rightarrow> 0)"

definition register_base_events :: "string list \<Rightarrow> overlay_state \<Rightarrow> overlay_state" where
  "register_base_events names st =
     st\<lparr>base_events := fold (\<lambda>(i, name) evs. if map_of evs name = None then evs @ [(name, i)] else evs)
        (zip [0..<length names] names) (base_events st)\<rparr>"

text \<open>\<^verbatim>\<open>(size_t)-1\<close> is the result for an unknown event.\<close>

definition get_base_event_index :: "overlay_state \<Rightarrow> string \<Rightarrow> u64" where
  "get_base_event_index st name = (case map_of (base_events st) name of Some i \<Rightarrow> of_nat i | None \<Rightarrow> - 1)"

definition num_base_events :: "overlay_state \<Rightarrow> nat" where
  "num_base_events st = length (base_events st)"

definition get_section_ram_addr :: "overlay_state \<Rightarrow> u16 \<Rightarrow> overlay_error + u32" where
  "get_section_ram_addr st i = (if length (code_sections st) \<le> unat i then Inl OutOfBounds else Inr (ram_addr (section_at st (unat i))))"

definition get_section_relocs :: "overlay_state \<Rightarrow> u16 \<Rightarrow> overlay_error + RelocEntry list" where
  "get_section_relocs st i = (if length (code_sections st) \<le> unat i then Inl AbortCall else Inr (relocs (section_at st (unat i))))"

fun register_manual_patch_symbols :: "(u32 \<times> u64) list \<Rightarrow> overlay_state \<Rightarrow> overlay_error + overlay_state" where
  "register_manual_patch_symbols [] st = Inr st"
| "register_manual_patch_symbols ((ram, f) # symbols) st =
     (if f = 0 then Inr st
      else case manual_patch_symbols_by_vram st ram of
        Some _ \<Rightarrow> Inl AbortCall
      | None \<Rightarrow> register_manual_patch_symbols symbols
          (st\<lparr>manual_patch_symbols_by_vram := (manual_patch_symbols_by_vram st)(ram \<mapsto> f)\<rparr>))"

section \<open>Patch sections\<close>

definition load_special_overlay :: "SectionTableEntry \<Rightarrow> u32 \<Rightarrow> overlay_state \<Rightarrow> overlay_state" where
  "load_special_overlay section ram st =
     st\<lparr>func_map := fold (\<lambda>entry fm. fm(ram + fe_offset entry \<mapsto> fe_func entry)) (funcs section) (func_map st)\<rparr>"

definition load_patch_functions :: "overlay_state \<Rightarrow> overlay_state" where
  "load_patch_functions st =
     (if \<not> have_patch_sections st then st
      else fold (\<lambda>section. load_special_overlay section (ram_addr section)) (patch_code_sections st) st)"

text \<open>\<open>st_byte m off addr v\<close> is the \<^verbatim>\<open>MEM_B(off, addr) = v\<close> macro of the recompiler's headers.\<close>

definition read_patch_data :: "('m \<Rightarrow> u64 \<Rightarrow> u64 \<Rightarrow> u8 \<Rightarrow> 'm) \<Rightarrow> u64 \<Rightarrow> overlay_state \<Rightarrow> 'm \<Rightarrow> 'm" where
  "read_patch_data st_byte patch_data_address st m =
     fold (\<lambda>i m. st_byte m (of_nat i) patch_data_address (patch_data st ! i)) [0..<length (patch_data st)] m"

definition init_overlays :: "overlay_state \<Rightarrow> overlay_state" where
  "init_overlays st = (let cs = sort_key rom_addr (code_sections st);
       st = st\<lparr>func_map := Map.empty, section_addresses := Some (replicate (total_num_sections st) 0), code_sections := cs\<rparr> in
     load_patch_functions
       (fold (\<lambda>i st. let st = secaddr_set (sec_index (cs ! i)) (ram_addr (cs ! i)) st in
                st\<lparr>code_sections_by_rom := (code_sections_by_rom st)(rom_addr (cs ! i) \<mapsto> of_nat i)\<rparr>)
         [0..<length cs] st))"

end
