(* ===== verification/OverlayLoad.thy ===== *)
theory OverlayLoad
  imports OverlayState
begin

text \<open>
  Loading and unloading of sections (\<^verbatim>\<open>overlays.cpp\<close>): one section at one address, every section
  that a DMA transfer covers or belongs to, eviction of the sections whose place is taken, and
  unloading by table index, overlay id or address range.
\<close>

section \<open>One section\<close>

definition load_overlay :: "nat \<Rightarrow> u32 \<Rightarrow> overlay_state \<Rightarrow> overlay_state" where
  "load_overlay i ram st = (let section = section_at st i;
       st = fold (\<lambda>f st. pc_index_register (fe_func f) i
              (st\<lparr>func_map := install_section_func_aliases section ram f (func_map st)\<rparr>)) (funcs section) st;
       st = st\<lparr>loaded_sections := loaded_sections st @ [\<lparr>loaded_ram_addr = ram, section_table_index = i\<rparr>]\<rparr> in
     record_load_order i (secaddr_set (sec_index section) ram st))"

text \<open>What unloading one section does to the function map and the relocation bases.\<close>

definition release_section :: "SectionTableEntry \<Rightarrow> u32 \<Rightarrow> overlay_state \<Rightarrow> overlay_state" where
  "release_section section base st = (let
       fm = fold (erase_section_func_aliases section base) (funcs section) (func_map st);
       fm = (if frag_unreg_enabled st then frag_range_erase base (sec_size section) fm else fm) in
     secaddr_set (sec_index section) (ram_addr section) (st\<lparr>func_map := fm\<rparr>))"

definition unload_overlay_by_section_index :: "nat \<Rightarrow> overlay_state \<Rightarrow> overlay_state" where
  "unload_overlay_by_section_index i st =
     (case find (\<lambda>s. section_table_index s = i) (loaded_sections st) of
        None \<Rightarrow> st
      | Some s \<Rightarrow> (let st = release_section (section_at st i) (loaded_ram_addr s) st in
          st\<lparr>loaded_sections := remove1 s (loaded_sections st)\<rparr>))"

section \<open>Sections of a DMA transfer\<close>

text \<open>The 64-bit comparison of two ranges of guest addresses.\<close>

definition runtime_ranges_overlap :: "u32 \<Rightarrow> u32 \<Rightarrow> u32 \<Rightarrow> u32 \<Rightarrow> bool" where
  "runtime_ranges_overlap a_base a_size b_base b_size \<longleftrightarrow> (let a_lo = ucast a_base :: u64; b_lo = ucast b_base in
     a_lo < b_lo + ucast b_size \<and> b_lo < a_lo + ucast a_size)"

lemma unat_ucast_sum: "unat (ucast (a :: u32) + ucast (b :: u32) :: u64) = unat a + unat b"
proof -
  have "unat a < 2 ^ 32" "unat b < 2 ^ 32" using unsigned_less [of a] unsigned_less [of b] by auto
  then show ?thesis by (simp add: unat_word_ariths unsigned_ucast_eq take_bit_nat_eq_self)
qed

lemma unat_ucast64: "unat (ucast (a :: u32) :: u64) = unat a"
  using unat_ucast_sum [of a 0] by simp

lemma runtime_ranges_overlap_nat:
  "runtime_ranges_overlap a_base a_size b_base b_size \<longleftrightarrow>
     unat a_base < unat b_base + unat b_size \<and> unat b_base < unat a_base + unat a_size"
  by (simp add: runtime_ranges_overlap_def Let_def word_less_nat_alt unat_ucast_sum unat_ucast64)

definition overlapping_section :: "nat \<Rightarrow> u32 \<Rightarrow> overlay_state \<Rightarrow> LoadedSection option" where
  "overlapping_section i base st =
     find (\<lambda>s. section_table_index s \<noteq> i \<and>
        runtime_ranges_overlap base (sec_size (section_at st i)) (loaded_ram_addr s) (sec_size (section_at st (section_table_index s))))
       (loaded_sections st)"

lemma loaded_sections_release [simp]: "loaded_sections (release_section section base st) = loaded_sections st"
  by (simp add: release_section_def secaddr_set_def Let_def split: option.split)

lemma unload_removes:
  assumes "s \<in> set (loaded_sections st)" "section_table_index s = i"
  shows "length (loaded_sections (unload_overlay_by_section_index i st)) < length (loaded_sections st)"
proof -
  obtain t where t: "find (\<lambda>s. section_table_index s = i) (loaded_sections st) = Some t"
    using assms by (fastforce simp: find_None_iff)
  then have "t \<in> set (loaded_sections st)" by (auto simp: find_Some_iff)
  with t show ?thesis by (simp add: unload_overlay_by_section_index_def length_remove1 Let_def) (cases "loaded_sections st"; simp)
qed

function evict_overlapping_sections :: "nat \<Rightarrow> u32 \<Rightarrow> overlay_state \<Rightarrow> overlay_state" where
  "evict_overlapping_sections i base st =
     (case overlapping_section i base st of
        None \<Rightarrow> st
      | Some s \<Rightarrow> evict_overlapping_sections i base (unload_overlay_by_section_index (section_table_index s) st))"
  by pat_completeness auto

termination
proof (relation "measure (\<lambda>(i, base, st). length (loaded_sections st))")
  fix i base st s
  assume "overlapping_section i base st = Some s"
  then have "s \<in> set (loaded_sections st)" by (auto simp: overlapping_section_def find_Some_iff)
  then show "((i, base, unload_overlay_by_section_index (section_table_index s) st), i, base, st)
      \<in> measure (\<lambda>(i, base, st). length (loaded_sections st))"
    using unload_removes [of s st] by simp
qed simp

declare evict_overlapping_sections.simps [simp del]

definition register_if_new :: "nat \<Rightarrow> u32 \<Rightarrow> overlay_state \<Rightarrow> overlay_state" where
  "register_if_new i implied_base st = (let st = evict_overlapping_sections i implied_base st in
     case find (\<lambda>s. section_table_index s = i) (loaded_sections st) of
       None \<Rightarrow> load_overlay i implied_base st
     | Some s \<Rightarrow> if loaded_ram_addr s \<noteq> implied_base
         then load_overlay i implied_base (unload_overlay_by_section_index i st) else st)"

text \<open>
  The table is sorted by ROM address (\<open>init_overlays\<close>), so \<^verbatim>\<open>std::lower_bound\<close> and
  \<^verbatim>\<open>std::upper_bound\<close> are its partition points.
\<close>

definition rom_lower_bound :: "SectionTableEntry list \<Rightarrow> u32 \<Rightarrow> nat" where
  "rom_lower_bound cs rom = length (takeWhile (\<lambda>e. rom_addr e < rom) cs)"

definition rom_upper_bound :: "SectionTableEntry list \<Rightarrow> u32 \<Rightarrow> nat" where
  "rom_upper_bound cs rom = length (takeWhile (\<lambda>e. \<not> rom < rom_addr e) cs)"

text \<open>
  The loop from the lower to the upper bound compares iterators for inequality: when the sum
  \<^verbatim>\<open>rom + size\<close> wraps and the upper bound is below the lower one it leaves the table.
\<close>

definition load_overlays :: "u32 \<Rightarrow> u32 \<Rightarrow> u32 \<Rightarrow> overlay_state \<Rightarrow> overlay_error + overlay_state" where
  "load_overlays rom ram sz st = (let cs = code_sections st;
       lower = rom_lower_bound cs rom; upper_a = rom_upper_bound cs (rom + sz) in
     if upper_a < lower then Inl OutOfBounds
     else let
       st = fold (\<lambda>i st. if rom + sz < rom_addr (cs ! i) + sec_size (cs ! i) then st
                        else register_if_new i (rom_addr (cs ! i) - rom + ram) st) [lower..<upper_a] st;
       st = (if lower \<noteq> 0 \<and> rom_addr (cs ! (lower - 1)) \<le> rom \<and>
                rom < rom_addr (cs ! (lower - 1)) + sec_size (cs ! (lower - 1))
             then register_if_new (lower - 1) (ram - (rom - rom_addr (cs ! (lower - 1)))) st else st);
       st = (if lower \<noteq> length cs \<and> rom_addr (cs ! lower) = rom \<and> rom + sz < rom_addr (cs ! lower) + sec_size (cs ! lower)
             then register_if_new lower (rom_addr (cs ! lower) - rom + ram) st else st)
     in Inr st)"

section \<open>Unloading and loading by id and by range\<close>

definition unload_overlay_by_id :: "u32 \<Rightarrow> overlay_state \<Rightarrow> overlay_error + overlay_state" where
  "unload_overlay_by_id oid st =
     (if length (overlays_table st) \<le> unat oid then Inl OutOfBounds
      else let i = unat (overlays_table st ! unat oid) in
        if length (code_sections st) \<le> i then Inl OutOfBounds
        else Inr (unload_overlay_by_section_index i st))"

definition load_overlay_by_id :: "u32 \<Rightarrow> u32 \<Rightarrow> overlay_state \<Rightarrow> overlay_error + overlay_state" where
  "load_overlay_by_id oid ram st =
     (if length (overlays_table st) \<le> unat oid then Inl OutOfBounds
      else let i = unat (overlays_table st ! unat oid); section = section_at st i in
        if length (code_sections st) \<le> i then Inl OutOfBounds
        else case section_addresses st of
          None \<Rightarrow> Inl OutOfBounds
        | Some sa \<Rightarrow>
            if length sa \<le> sec_index section then Inl OutOfBounds
            else let prev_address = sa ! sec_index section in
              if prev_address = ram_addr section then Inr (load_overlay i ram st)
              else Inr (load_overlay i (prev_address + ram) (unload_overlay_by_section_index i st)))"

text \<open>
  \<open>kept\<close> are the entries the iterator has passed. The first two and the last comparison mix
  \<^verbatim>\<open>int32_t\<close> and \<^verbatim>\<open>uint32_t\<close> and are unsigned; \<^verbatim>\<open>ram_addr > it->loaded_ram_addr\<close> is signed.
\<close>

fun unload_overlays_from :: "u32 \<Rightarrow> u32 \<Rightarrow> LoadedSection list \<Rightarrow> LoadedSection list \<Rightarrow> overlay_state \<Rightarrow> overlay_error + overlay_state" where
  "unload_overlays_from ram sz kept [] st = Inr st"
| "unload_overlays_from ram sz kept (it # rest) st = (let section = section_at st (section_table_index it) in
     if ram < loaded_ram_addr it + sec_size section \<and> loaded_ram_addr it \<le> ram + sz
     then if loaded_ram_addr it <s ram \<or> ram + sz < loaded_ram_addr it + sec_size section
          then Inl ExitFailure
          else unload_overlays_from ram sz kept rest
                 ((release_section section (loaded_ram_addr it) st)\<lparr>loaded_sections := kept @ rest\<rparr>)
     else unload_overlays_from ram sz (kept @ [it]) rest st)"

definition unload_overlays :: "u32 \<Rightarrow> u32 \<Rightarrow> overlay_state \<Rightarrow> overlay_error + overlay_state" where
  "unload_overlays ram sz st = unload_overlays_from ram sz [] (loaded_sections st) st"

definition unregister_runtime_fragment :: "u32 \<Rightarrow> overlay_state \<Rightarrow> overlay_state" where
  "unregister_runtime_fragment oid st =
     (case runtime_fragment_id_to_section st oid of None \<Rightarrow> st | Some i \<Rightarrow> unload_overlay_by_section_index i st)"

definition recomp_debug_runtime_fragment :: "u32 \<Rightarrow> overlay_state \<Rightarrow> (nat \<times> u32 \<times> u32) option" where
  "recomp_debug_runtime_fragment oid st =
     (case runtime_fragment_id_to_section st oid of
        None \<Rightarrow> None
      | Some i \<Rightarrow> (let section = section_at st i in
          Some (sec_index section,
            (case section_addresses st of Some sa \<Rightarrow> sa ! sec_index section | None \<Rightarrow> 0), ram_addr section)))"

end
