(* ===== verification/OverlayFragment.thy ===== *)
theory OverlayFragment
  imports OverlayLoad
begin

unbundle bit_operations_syntax

text \<open>
  Fragments (\<^verbatim>\<open>overlays.cpp\<close>): the jump slots between a fragment's header and its first function,
  resolved when their targets are loaded, and the registration of a fragment that the game has
  decompressed into RDRAM: the choice of the section the bytes belong to, eviction of the former
  occupant, and the new aliases. RDRAM is a function from host byte offsets to bytes; the
  logical byte at physical address \<open>a\<close> is at offset \<open>a XOR 3\<close>.
\<close>

type_synonym rdram = "u32 \<Rightarrow> u8"

section \<open>Reading RDRAM\<close>

definition read_rdram_u32_be :: "rdram \<Rightarrow> u32 \<Rightarrow> u32" where
  "read_rdram_u32_be rdram vaddr = (let paddr = vaddr AND 0x1FFFFFFF in
     fold (\<lambda>i v. push_bit 8 v OR ucast (rdram ((paddr + of_nat i) XOR 3))) [0..<4] 0)"

definition decode_jal_target :: "u32 \<Rightarrow> u32 \<Rightarrow> u32" where
  "decode_jal_target instr pc_delay_slot = (let opcode = drop_bit 26 instr AND 0x3F in
     if opcode \<noteq> 0x02 \<and> opcode \<noteq> 0x03 then 0
     else (pc_delay_slot AND 0xF0000000) OR push_bit 2 (instr AND 0x03FFFFFF))"

definition func_entry_may_be_fragment_jump_slot :: "FuncEntry \<Rightarrow> bool" where
  "func_entry_may_be_fragment_jump_slot func \<longleftrightarrow>
     0x20 \<le> fe_offset func \<and> fe_offset func AND 7 = 0 \<and> fe_rom_size func = 8"

definition func_entry_is_live_fragment_jump_slot :: "rdram \<Rightarrow> SectionTableEntry \<Rightarrow> u32 \<Rightarrow> FuncEntry \<Rightarrow> bool" where
  "func_entry_is_live_fragment_jump_slot rdram section base func =
     (if \<not> func_entry_may_be_fragment_jump_slot func then False
      else let instr = read_rdram_u32_be rdram (base + fe_offset func);
               delay = read_rdram_u32_be rdram (base + fe_offset func + 4) in
        if delay \<noteq> 0 then False
        else if drop_bit 26 instr AND 0x3F \<noteq> 0x02 then False
        else decode_jal_target instr (ram_addr section + fe_offset func + 4) \<noteq> 0)"

section \<open>Trampolines\<close>

text \<open>The translation of a link-time address by one loaded section.\<close>

definition translate_by :: "overlay_state \<Rightarrow> u32 \<Rightarrow> LoadedSection \<Rightarrow> u32 option" where
  "translate_by st link_time ls = (let sec = section_at st (section_table_index ls) in
     if loaded_ram_addr ls \<le> link_time \<and> link_time < loaded_ram_addr ls + sec_size sec then Some link_time
     else if ram_addr sec \<le> link_time \<and> link_time < ram_addr sec + sec_size sec
       then Some (loaded_ram_addr ls + (link_time - ram_addr sec))
     else case section_original_fragment_base sec of
         None \<Rightarrow> None
       | Some original_base \<Rightarrow> if original_base \<le> link_time \<and> link_time < original_base + sec_size sec
           then Some (loaded_ram_addr ls + (link_time - original_base)) else None)"

fun first_some :: "('a \<Rightarrow> 'b option) \<Rightarrow> 'a list \<Rightarrow> 'b option" where
  "first_some f [] = None"
| "first_some f (x # xs) = (case f x of Some y \<Rightarrow> Some y | None \<Rightarrow> first_some f xs)"

definition translate_link_time_to_runtime :: "overlay_state \<Rightarrow> u32 \<Rightarrow> u32" where
  "translate_link_time_to_runtime st link_time =
     (case first_some (translate_by st link_time) (loaded_sections st) of Some a \<Rightarrow> a | None \<Rightarrow> 0)"

text \<open>The owner of a trampoline is sought with signed comparisons.\<close>

definition trampoline_owner :: "overlay_state \<Rightarrow> u32 \<Rightarrow> LoadedSection option" where
  "trampoline_owner st addr =
     find (\<lambda>ls. loaded_ram_addr ls \<le>s addr \<and> addr <s loaded_ram_addr ls + sec_size (section_at st (section_table_index ls)))
       (loaded_sections st)"

definition try_install_trampoline :: "u32 \<Rightarrow> u32 \<Rightarrow> overlay_state \<Rightarrow> bool \<times> overlay_state" where
  "try_install_trampoline tramp link_time_target st = (let runtime_target = translate_link_time_to_runtime st link_time_target in
     if runtime_target = 0 then (False, st)
     else case func_map st runtime_target of
       None \<Rightarrow> (False, st)
     | Some f \<Rightarrow> (let fm = (func_map st)(tramp \<mapsto> f);
           fm = (case trampoline_owner st tramp of
                   None \<Rightarrow> fm
                 | Some ls \<Rightarrow> (let sec = section_at st (section_table_index ls);
                       off = tramp - loaded_ram_addr ls; link_time_vram = ram_addr sec + off in
                     if link_time_vram \<noteq> tramp
                     then let fm = fm(link_time_vram \<mapsto> f) in
                       case section_original_fragment_base sec of
                         None \<Rightarrow> fm | Some original_base \<Rightarrow> fm(original_base + off \<mapsto> f)
                     else fm)) in
         (True, st\<lparr>func_map := fm\<rparr>)))"

text \<open>The walk over the pending list; a trampoline that installs is erased from it.\<close>

fun retry_trampolines :: "(u32 \<times> u32) list \<Rightarrow> overlay_state \<Rightarrow> (u32 \<times> u32) list \<times> overlay_state" where
  "retry_trampolines [] st = ([], st)"
| "retry_trampolines ((tramp, target) # rest) st =
     (case try_install_trampoline tramp target st of (installed, st) \<Rightarrow>
       case retry_trampolines rest st of (pending, st) \<Rightarrow>
         (if installed then pending else (tramp, target) # pending, st))"

definition retry_pending_trampolines :: "overlay_state \<Rightarrow> overlay_state" where
  "retry_pending_trampolines st =
     (case retry_trampolines (pending_trampolines st) st of (pending, st) \<Rightarrow> st\<lparr>pending_trampolines := pending\<rparr>)"

text \<open>The smallest positive offset of the functions that are not jump slots, at most the size of the section.\<close>

definition first_func_offset :: "(FuncEntry \<Rightarrow> bool) \<Rightarrow> SectionTableEntry \<Rightarrow> u32" where
  "first_func_offset is_slot section =
     fold (\<lambda>f first. if is_slot f then first
                     else if 0 < fe_offset f \<and> fe_offset f < first then fe_offset f else first)
       (funcs section) (sec_size section)"

text \<open>The offsets \<open>0x20, 0x28, \<dots>\<close> whose 8-byte slots end at or before \<open>first\<close>.\<close>

definition slot_offsets :: "u32 \<Rightarrow> u32 list" where
  "slot_offsets first = map (\<lambda>k. 0x20 + 8 * of_nat k) [0..<(unat first - 0x20) div 8]"

definition scan_slot :: "rdram \<Rightarrow> u32 \<Rightarrow> u32 \<Rightarrow> u32 \<Rightarrow> overlay_state \<Rightarrow> overlay_state" where
  "scan_slot rdram decode_base base slot_off st = (let
       instr = read_rdram_u32_be rdram (base + slot_off); delay = read_rdram_u32_be rdram (base + slot_off + 4);
       target = decode_jal_target instr (decode_base + slot_off + 4) in
     if delay \<noteq> 0 then st
     else if target = 0 then st
     else case try_install_trampoline (base + slot_off) target st of (installed, st) \<Rightarrow>
       if installed then st else st\<lparr>pending_trampolines := pending_trampolines st @ [(base + slot_off, target)]\<rparr>)"

definition has_fragment_magic :: "rdram \<Rightarrow> u32 \<Rightarrow> bool" where
  "has_fragment_magic rdram base \<longleftrightarrow>
     read_rdram_u32_be rdram (base + 8) = 0x46524147 \<and> read_rdram_u32_be rdram (base + 12) = 0x4D454E54"

definition scan_fragment_section_trampolines :: "rdram \<Rightarrow> nat \<Rightarrow> u32 \<Rightarrow> overlay_state \<Rightarrow> overlay_state" where
  "scan_fragment_section_trampolines rdram i base st = (let section = section_at st i;
       first = first_func_offset (func_entry_is_live_fragment_jump_slot rdram section base) section;
       decode_base = (case section_original_fragment_base section of None \<Rightarrow> ram_addr section | Some b \<Rightarrow> b) in
     if \<not> has_fragment_magic rdram base then st
     else if first \<le> 0x20 then st
     else fold (scan_slot rdram decode_base base) (slot_offsets first) st)"

definition scan_loaded_fragment_trampolines :: "rdram \<Rightarrow> u32 \<Rightarrow> u32 \<Rightarrow> overlay_state \<Rightarrow> overlay_state" where
  "scan_loaded_fragment_trampolines rdram rom sz st =
     retry_pending_trampolines
       (fold (\<lambda>ls st. let sec = section_at st (section_table_index ls) in
          if rom_addr sec < rom + sz \<and> rom < rom_addr sec + sec_size sec
          then scan_fragment_section_trampolines rdram (section_table_index ls) (loaded_ram_addr ls) st else st)
        (loaded_sections st) st)"

section \<open>Content hash and synthetic addresses\<close>

definition fnv1a_64 :: "u8 list \<Rightarrow> u64" where
  "fnv1a_64 data = fold (\<lambda>b h. (h XOR ucast b) * 0x100000001B3) data 0xCBF29CE484222325"

definition is_synthetic_addr :: "u32 \<Rightarrow> bool" where
  "is_synthetic_addr addr \<longleftrightarrow> 0xC0000000 \<le> addr \<and> addr < 0xE0000000"

definition synthetic_bucket_idx :: "u32 \<Rightarrow> nat" where
  "synthetic_bucket_idx addr = unat ((addr - 0xC0000000) div 0x00100000)"

definition frag_head_hash :: "rdram \<Rightarrow> u32 \<Rightarrow> u32 \<Rightarrow> u64" where
  "frag_head_hash rdram base sz = (let paddr = base AND 0x1FFFFFFF; n = (if sz < 0x400 then sz else 0x400) in
     if 8 * 1024 * 1024 < paddr + n then 0
     else fold (\<lambda>i h. (h XOR ucast (rdram ((paddr + of_nat i) XOR 3))) * 1099511628211) [0..<unat n] 1469598103934665603)"

definition frag_reg_record :: "rdram \<Rightarrow> u32 \<Rightarrow> u32 \<Rightarrow> u32 \<Rightarrow> u32 \<Rightarrow> overlay_state \<Rightarrow> overlay_state" where
  "frag_reg_record rdram fid lb base sz st = (let s = s_frag_reg_seq st in
     st\<lparr>s_frag_reg_seq := s + 1,
        s_frag_inst := (s_frag_inst st)[unat (s mod 128) :=
          \<lparr>generation = s, fi_id = fid, link_base = lb, fi_runtime_base = base, fi_size = sz, head_hash = frag_head_hash rdram base sz\<rparr>],
        s_frag_reg_count := (s_frag_reg_count st)(fid := s_frag_reg_count st fid + 1)\<rparr>)"

section \<open>Which section a fragment is\<close>

definition fragment_candidates :: "overlay_state \<Rightarrow> u32 \<Rightarrow> nat list" where
  "fragment_candidates st fid = filter (\<lambda>i. let sec = section_at st i; bucket = drop_bit 0x14 (ram_addr sec AND 0x0FF00000) in
       if is_synthetic_addr (ram_addr sec) then original_pattern_id sec = fid \<and> content_hash sec \<noteq> 0
       else 0x10 \<le> bucket \<and> bucket - 0x10 = fid) [0..<length (code_sections st)]"

definition fragment_size_in_ram :: "rdram \<Rightarrow> u32 \<Rightarrow> u32" where
  "fragment_size_in_ram rdram ptr = (let paddr = ptr AND 0x1FFFFFFF in
     if paddr + 0x20 \<le> 8 * 1024 * 1024 \<and> has_fragment_magic rdram paddr then read_rdram_u32_be rdram (paddr + 0x1C) else 0)"

definition extent_ok :: "overlay_state \<Rightarrow> u32 \<Rightarrow> nat \<Rightarrow> bool" where
  "extent_ok st size_in_ram i \<longleftrightarrow> \<not> psr_size_filter_on st \<or> size_in_ram = 0 \<or> sec_size (section_at st i) \<le> size_in_ram"

text \<open>The link-time address in the header: the target of the jump at +0x00 less the entry offset at +0x10.\<close>

definition header_link_vram :: "rdram \<Rightarrow> u32 \<Rightarrow> u32 option" where
  "header_link_vram rdram ptr = (let paddr = ptr AND 0x1FFFFFFF; j_instr = read_rdram_u32_be rdram paddr in
     if paddr + 0x14 \<le> 8 * 1024 * 1024 \<and> has_fragment_magic rdram paddr \<and> drop_bit 26 j_instr AND 0x3F = 0x02
     then Some ((push_bit 2 (j_instr AND 0x03FFFFFF) OR 0x80000000) - read_rdram_u32_be rdram (paddr + 0x10)) else None)"

definition live_fragment_hash :: "rdram \<Rightarrow> u32 \<Rightarrow> u64" where
  "live_fragment_hash rdram ptr = (let paddr = ptr AND 0x1FFFFFFF in
     fnv1a_64 (map (\<lambda>i. rdram ((paddr + of_nat i) XOR 3)) [0..<0x100]))"

text \<open>The choice among the sections with the fragment's id: by content hash, then by the header's link address.\<close>

definition select_candidate :: "rdram \<Rightarrow> u32 \<Rightarrow> u32 \<Rightarrow> nat list \<Rightarrow> overlay_state \<Rightarrow> nat option" where
  "select_candidate rdram ptr size_in_ram candidates st = (let
       has_hashed = list_ex (\<lambda>i. content_hash (section_at st i) \<noteq> 0) candidates in
     if length candidates = 1 \<and> \<not> has_hashed then Some (hd candidates)
     else case find (\<lambda>i. content_hash (section_at st i) \<noteq> 0 \<and> content_hash (section_at st i) = live_fragment_hash rdram ptr \<and>
                       extent_ok st size_in_ram i) candidates of
       Some i \<Rightarrow> Some i
     | None \<Rightarrow> (case header_link_vram rdram ptr of
           None \<Rightarrow> None
         | Some link_vram \<Rightarrow> find (\<lambda>i. ram_addr (section_at st i) \<le> link_vram \<and>
               link_vram < ram_addr (section_at st i) + sec_size (section_at st i) \<and> extent_ok st size_in_ram i) candidates))"

text \<open>When no candidate is chosen: any section at the header's link address.\<close>

definition select_by_link_address :: "rdram \<Rightarrow> u32 \<Rightarrow> u32 \<Rightarrow> overlay_state \<Rightarrow> nat option" where
  "select_by_link_address rdram ptr size_in_ram st =
     (case header_link_vram rdram ptr of
        None \<Rightarrow> None
      | Some link_vram \<Rightarrow> find (\<lambda>i. ram_addr (section_at st i) = link_vram \<and> extent_ok st size_in_ram i) [0..<length (code_sections st)])"

text \<open>Last: the only candidate that fits.\<close>

definition select_sole_fit :: "u32 \<Rightarrow> nat list \<Rightarrow> overlay_state \<Rightarrow> nat option" where
  "select_sole_fit size_in_ram candidates st =
     (if candidates \<noteq> [] \<and> psr_size_filter_on st \<and> size_in_ram \<noteq> 0
      then case filter (\<lambda>i. sec_size (section_at st i) \<le> size_in_ram) candidates of [i] \<Rightarrow> Some i | _ \<Rightarrow> None
      else None)"

definition select_fragment_section :: "rdram \<Rightarrow> u32 \<Rightarrow> u32 \<Rightarrow> overlay_state \<Rightarrow> nat option" where
  "select_fragment_section rdram fid ptr st = (let
       candidates = fragment_candidates st fid; size_in_ram = fragment_size_in_ram rdram ptr;
       found = (case select_candidate rdram ptr size_in_ram candidates st of Some i \<Rightarrow> Some i
                | None \<Rightarrow> (case select_by_link_address rdram ptr size_in_ram st of Some i \<Rightarrow> Some i
                   | None \<Rightarrow> select_sole_fit size_in_ram candidates st)) in
     case found of None \<Rightarrow> None | Some i \<Rightarrow> if extent_ok st size_in_ram i then Some i else None)"

section \<open>Registration\<close>

definition evict_section_at :: "u32 \<Rightarrow> LoadedSection \<Rightarrow> overlay_state \<Rightarrow> overlay_state" where
  "evict_section_at ptr ls st = (let old_section = section_at st (section_table_index ls);
       fm = fold (\<lambda>fe fm. if fe_func fe = 0 then fm
                else let fm = erase_section_func_aliases old_section ptr fe fm in
                  if ram_addr old_section \<noteq> ptr then fm(ram_addr old_section + fe_offset fe := None) else fm)
              (funcs old_section) (func_map st);
       first = first_func_offset func_entry_may_be_fragment_jump_slot old_section;
       fm = fold (\<lambda>slot_off fm. let fm = erase_fragment_slot_aliases old_section ptr slot_off fm in
                  if ram_addr old_section \<noteq> ptr then fm(ram_addr old_section + slot_off := None) else fm)
              (slot_offsets first) fm in
     secaddr_set (sec_index old_section) (ram_addr old_section) (st\<lparr>func_map := fm\<rparr>))"

definition evict_prior_at_base :: "u32 \<Rightarrow> nat option \<Rightarrow> overlay_state \<Rightarrow> overlay_state" where
  "evict_prior_at_base ptr skip st = (let evicted = (\<lambda>ls. loaded_ram_addr ls = ptr \<and> Some (section_table_index ls) \<noteq> skip);
       st' = fold (evict_section_at ptr) (filter evicted (loaded_sections st)) st in
     st'\<lparr>loaded_sections := filter (\<lambda>ls. \<not> evicted ls) (loaded_sections st)\<rparr>)"

definition supersede_prior_range :: "u32 \<Rightarrow> u32 \<Rightarrow> overlay_state \<Rightarrow> overlay_state" where
  "supersede_prior_range fid ptr st =
     (if frag_unreg_enabled st
      then case s_frag_live_range st fid of
        None \<Rightarrow> st
      | Some (base, sz) \<Rightarrow> if base \<noteq> ptr then st\<lparr>func_map := frag_range_erase base sz (func_map st)\<rparr> else st
      else st)"

definition leave_unregistered :: "rdram \<Rightarrow> u32 \<Rightarrow> u32 \<Rightarrow> overlay_state \<Rightarrow> overlay_state" where
  "leave_unregistered rdram fid ptr st = (let size_in_ram = fragment_size_in_ram rdram ptr;
       st = supersede_prior_range fid ptr (evict_prior_at_base ptr None st) in
     if size_in_ram \<noteq> 0 then st\<lparr>s_frag_live_range := (s_frag_live_range st)(fid \<mapsto> (ptr, size_in_ram))\<rparr> else st)"

definition install_fragment_funcs :: "nat \<Rightarrow> u32 \<Rightarrow> overlay_state \<Rightarrow> overlay_state" where
  "install_fragment_funcs i ptr st = (let section = section_at st i in
     fold (\<lambda>fe st. if fe_func fe = 0 then st
             else pc_index_register (fe_func fe) i (st\<lparr>func_map := install_section_func_aliases section ptr fe (func_map st)\<rparr>))
       (funcs section) st)"

definition register_synthetic_slot :: "nat \<Rightarrow> u32 \<Rightarrow> overlay_state \<Rightarrow> overlay_error + overlay_state" where
  "register_synthetic_slot i ptr st = (let section = section_at st i; slot_idx = synthetic_bucket_idx (ram_addr section) in
     if \<not> is_synthetic_addr (ram_addr section) then Inr st
     else if slot_idx < 512
       then Inr (st\<lparr>recomp_synthetic_fragments := (recomp_synthetic_fragments st)[slot_idx :=
              \<lparr>runtime_base = ptr, slot_size = sec_size section, slot_section_index = i, registered = True\<rparr>]\<rparr>)
       else Inl AbortCall)"

text \<open>The entry of the section is moved, or added at the end.\<close>

fun relocate_entry :: "nat \<Rightarrow> u32 \<Rightarrow> LoadedSection list \<Rightarrow> LoadedSection list" where
  "relocate_entry i ptr [] = [\<lparr>loaded_ram_addr = ptr, section_table_index = i\<rparr>]"
| "relocate_entry i ptr (ls # rest) =
     (if section_table_index ls = i then ls\<lparr>loaded_ram_addr := ptr\<rparr> # rest else ls # relocate_entry i ptr rest)"

definition bind_fragment :: "rdram \<Rightarrow> u32 \<Rightarrow> u32 \<Rightarrow> nat \<Rightarrow> overlay_state \<Rightarrow> overlay_error + overlay_state" where
  "bind_fragment rdram fid ptr i st = (let section = section_at st i;
       st = frag_reg_record rdram fid (ram_addr section) ptr (sec_size section) st;
       st = supersede_prior_range fid ptr (evict_prior_at_base ptr (Some i) st);
       st = secaddr_set (sec_index section) ptr (install_fragment_funcs i ptr st);
       st = st\<lparr>s_frag_live_range := (s_frag_live_range st)(fid \<mapsto> (ptr, sec_size section))\<rparr> in
     case register_synthetic_slot i ptr st of
       Inl e \<Rightarrow> Inl e
     | Inr st \<Rightarrow> (let
         st = st\<lparr>loaded_sections := relocate_entry i ptr (loaded_sections st)\<rparr>;
         st = st\<lparr>runtime_fragment_id_to_section := (runtime_fragment_id_to_section st)(fid \<mapsto> i)\<rparr>;
         st = record_load_order i st in
       Inr (retry_pending_trampolines (scan_fragment_section_trampolines rdram i ptr st))))"

definition register_runtime_fragment :: "rdram \<Rightarrow> u32 \<Rightarrow> u32 \<Rightarrow> overlay_state \<Rightarrow> overlay_error + overlay_state" where
  "register_runtime_fragment rdram fid ptr st =
     (if \<not> have_code_sections st then Inr st
      else if ptr = 0 then Inr st
      else case select_fragment_section rdram fid ptr st of
        None \<Rightarrow> Inr (leave_unregistered rdram fid ptr st)
      | Some i \<Rightarrow> bind_fragment rdram fid ptr i st)"

end
