(* ===== verification/OverlayInv.thy ===== *)
theory OverlayInv
  imports OverlayFragment
begin

unbundle bit_operations_syntax

text \<open>
  The invariant of section loading. A program obeys the placement discipline when every section it
  transfers by DMA lands inside RDRAM at a word-aligned address and either stays at its link
  address or was linked outside RDRAM. Under that discipline the loaded sections never overlap, the
  function map restricted to RDRAM is exactly the functions of the loaded sections, and the
  relocation base of a section is where it is loaded, or its link address.
\<close>

section \<open>The RDRAM window and the placement discipline\<close>

definition in_ram :: "u32 \<Rightarrow> bool" where
  "in_ram a \<longleftrightarrow> 0x80000000 \<le> a \<and> a < 0x80800000"

definition wf_section :: "SectionTableEntry \<Rightarrow> bool" where
  "wf_section sec \<longleftrightarrow> list_all (\<lambda>f. fe_offset f < sec_size sec) (funcs sec) \<and>
     distinct (map fe_offset (filter (\<lambda>f. fe_func f \<noteq> 0) (funcs sec)))"

definition wf_table :: "SectionTableEntry list \<Rightarrow> nat \<Rightarrow> bool" where
  "wf_table cs total_sections \<longleftrightarrow> list_all (\<lambda>sec. wf_section sec \<and> sec_index sec < total_sections \<and> ram_addr sec AND 3 = 0) cs \<and>
     distinct (map sec_index cs)"

definition aliases_outside_ram :: "SectionTableEntry \<Rightarrow> u32 \<Rightarrow> bool" where
  "aliases_outside_ram sec base \<longleftrightarrow> list_all (\<lambda>f. \<not> in_ram (base + fe_offset f)) (funcs sec)"

definition placement_ok :: "SectionTableEntry \<Rightarrow> u32 \<Rightarrow> bool" where
  "placement_ok sec base \<longleftrightarrow> 0x80000000 \<le> base \<and> ucast base + ucast (sec_size sec) \<le> (0x80800000 :: u64) \<and> base AND 3 = 0 \<and>
     (ram_addr sec = base \<or> aliases_outside_ram sec (ram_addr sec)) \<and>
     (case section_original_fragment_base sec of None \<Rightarrow> True | Some ob \<Rightarrow> aliases_outside_ram sec ob)"

text \<open>The addresses of a section loaded at \<open>base\<close>.\<close>

definition covers :: "SectionTableEntry \<Rightarrow> u32 \<Rightarrow> u32 \<Rightarrow> bool" where
  "covers sec base a \<longleftrightarrow> base \<le> a \<and> a - base < sec_size sec"

lemma covers_nat: "covers sec base a \<longleftrightarrow> unat base \<le> unat a \<and> unat a < unat base + unat (sec_size sec)"
  by (auto simp: covers_def word_le_nat_alt word_less_nat_alt unat_sub)

lemma placement_limit: "placement_ok sec base \<Longrightarrow> unat base + unat (sec_size sec) \<le> 0x80800000"
  by (simp add: placement_ok_def word_le_nat_alt unat_ucast_sum)

lemma covers_offset:
  assumes "placement_ok sec base" "covers sec base a"
  shows "a - base < sec_size sec" "unat (a - base) = unat a - unat base"
proof -
  from assms(2) have le: "base \<le> a" by (simp add: covers_nat word_le_nat_alt)
  then show "unat (a - base) = unat a - unat base" by (simp add: unat_sub)
  then show "a - base < sec_size sec" using assms(2) le by (simp add: word_less_nat_alt covers_nat) linarith
qed

lemma offset_covers:
  assumes "placement_ok sec base" "off < sec_size sec"
  shows "covers sec base (base + off)" "in_ram (base + off)" "unat (base + off) = unat base + unat off"
proof -
  have lim: "unat base + unat off < 0x80800000" "0x80000000 \<le> unat base"
    using assms placement_limit [OF assms(1)] by (auto simp: placement_ok_def word_less_nat_alt word_le_nat_alt)
  then show u: "unat (base + off) = unat base + unat off" by (simp add: unat_word_ariths)
  with assms show "covers sec base (base + off)" by (simp add: covers_nat word_less_nat_alt)
  from u lim show "in_ram (base + off)" by (simp add: in_ram_def word_less_nat_alt word_le_nat_alt)
qed

lemma covers_in_ram: "placement_ok sec base \<Longrightarrow> covers sec base a \<Longrightarrow> in_ram a"
  using offset_covers(2) [of sec base "a - base"] covers_offset(1) [of sec base a] by simp

lemma covers_overlap:
  "covers s1 b1 a \<Longrightarrow> covers s2 b2 a \<Longrightarrow> runtime_ranges_overlap b1 (sec_size s1) b2 (sec_size s2)"
  by (simp add: covers_nat runtime_ranges_overlap_nat)

lemma overlap_sym: "runtime_ranges_overlap b1 s1 b2 s2 = runtime_ranges_overlap b2 s2 b1 s1"
  by (auto simp: runtime_ranges_overlap_nat)

section \<open>The functions of a section\<close>

definition sec_lookup :: "SectionTableEntry \<Rightarrow> u32 \<Rightarrow> u64 option" where
  "sec_lookup sec off = map_of (map (\<lambda>f. (fe_offset f, fe_func f)) (filter (\<lambda>f. fe_func f \<noteq> 0) (funcs sec))) off"

lemma sec_lookup_Some:
  "wf_section sec \<Longrightarrow> f \<in> set (funcs sec) \<Longrightarrow> fe_func f \<noteq> 0 \<Longrightarrow> sec_lookup sec (fe_offset f) = Some (fe_func f)"
  unfolding sec_lookup_def by (rule map_of_is_SomeI) (auto simp: wf_section_def comp_def)

lemma sec_lookup_offset: "wf_section sec \<Longrightarrow> sec_lookup sec off = Some g \<Longrightarrow> off < sec_size sec"
  by (auto simp: sec_lookup_def wf_section_def list_all_iff dest!: map_of_SomeD)

lemma sec_lookup_notin: "sec_lookup sec off = None \<longleftrightarrow> (\<forall>f \<in> set (funcs sec). fe_func f \<noteq> 0 \<longrightarrow> fe_offset f \<noteq> off)"
  by (force simp: sec_lookup_def map_of_eq_None_iff)

text \<open>Inside RDRAM one alias step changes the runtime address only.\<close>

lemma alias_step_ram:
  assumes "ram_addr sec = base \<or> \<not> in_ram (ram_addr sec + fe_offset f)"
    "case section_original_fragment_base sec of None \<Rightarrow> True | Some ob \<Rightarrow> \<not> in_ram (ob + fe_offset f)" "in_ram a"
  shows "install_section_func_aliases sec base f fm a = (if fe_func f \<noteq> 0 \<and> a = base + fe_offset f then Some (fe_func f) else fm a)"
    and "erase_section_func_aliases sec base f fm a = (if fe_func f \<noteq> 0 \<and> a = base + fe_offset f then None else fm a)"
  using assms by (auto simp: install_section_func_aliases_def erase_section_func_aliases_def Let_def split: option.splits if_splits)

lemma placement_alias:
  assumes "placement_ok sec base" "f \<in> set (funcs sec)"
  shows "ram_addr sec = base \<or> \<not> in_ram (ram_addr sec + fe_offset f)"
    "case section_original_fragment_base sec of None \<Rightarrow> True | Some ob \<Rightarrow> \<not> in_ram (ob + fe_offset f)"
  using assms by (auto simp: placement_ok_def aliases_outside_ram_def list_all_iff split: option.splits)

lemma install_fold_ram:
  assumes "\<And>f. f \<in> set fs \<Longrightarrow> ram_addr sec = base \<or> \<not> in_ram (ram_addr sec + fe_offset f)"
    "\<And>f. f \<in> set fs \<Longrightarrow> case section_original_fragment_base sec of None \<Rightarrow> True | Some ob \<Rightarrow> \<not> in_ram (ob + fe_offset f)" "in_ram a"
    "distinct (map fe_offset (filter (\<lambda>f. fe_func f \<noteq> 0) fs))"
  shows "fold (install_section_func_aliases sec base) fs fm a =
     (case map_of (map (\<lambda>f. (fe_offset f, fe_func f)) (filter (\<lambda>f. fe_func f \<noteq> 0) fs)) (a - base) of Some g \<Rightarrow> Some g | None \<Rightarrow> fm a)"
  using assms
proof (induction fs arbitrary: fm)
  case (Cons f fs)
  have nm: "fe_func f \<noteq> 0 \<Longrightarrow> map_of (map (\<lambda>f. (fe_offset f, fe_func f)) (filter (\<lambda>f. fe_func f \<noteq> 0) fs)) (fe_offset f) = None"
    using Cons.prems(4) by (auto simp: map_of_eq_None_iff)
  have "a = base + fe_offset f \<longleftrightarrow> a - base = fe_offset f" by (auto simp: algebra_simps)
  then show ?case
    using Cons.IH [of "install_section_func_aliases sec base f fm"] Cons.prems nm
      alias_step_ram(1) [of sec base f a fm] by (auto split: option.split)
qed simp

lemma erase_fold_ram:
  assumes "\<And>f. f \<in> set fs \<Longrightarrow> ram_addr sec = base \<or> \<not> in_ram (ram_addr sec + fe_offset f)"
    "\<And>f. f \<in> set fs \<Longrightarrow> case section_original_fragment_base sec of None \<Rightarrow> True | Some ob \<Rightarrow> \<not> in_ram (ob + fe_offset f)" "in_ram a"
  shows "fold (erase_section_func_aliases sec base) fs fm a =
     (if \<exists>f \<in> set fs. fe_func f \<noteq> 0 \<and> a = base + fe_offset f then None else fm a)"
  using assms
proof (induction fs arbitrary: fm)
  case (Cons f fs)
  then show ?case using alias_step_ram(2) [of sec base f a fm] by auto
qed simp

lemma install_section_ram:
  assumes "wf_section sec" "placement_ok sec base" "in_ram a"
  shows "fold (install_section_func_aliases sec base) (funcs sec) fm a =
     (if covers sec base a \<and> sec_lookup sec (a - base) \<noteq> None then sec_lookup sec (a - base) else fm a)"
proof -
  have eq: "fold (install_section_func_aliases sec base) (funcs sec) fm a =
     (case sec_lookup sec (a - base) of Some g \<Rightarrow> Some g | None \<Rightarrow> fm a)"
    unfolding sec_lookup_def using assms placement_alias [of sec base]
    by (intro install_fold_ram) (auto simp: wf_section_def)
  have "sec_lookup sec (a - base) = Some g \<Longrightarrow> covers sec base a" for g
    using sec_lookup_offset [OF assms(1)] offset_covers(1) [OF assms(2), of "a - base"] by simp
  with eq show ?thesis by (auto split: option.split)
qed

section \<open>Invariant\<close>

definition loaded_lookup :: "overlay_state \<Rightarrow> u32 \<Rightarrow> u64 option" where
  "loaded_lookup st a = first_some (\<lambda>ls. let sec = section_at st (section_table_index ls) in
     if covers sec (loaded_ram_addr ls) a then sec_lookup sec (a - loaded_ram_addr ls) else None) (loaded_sections st)"

definition reloc_base :: "overlay_state \<Rightarrow> nat \<Rightarrow> u32" where
  "reloc_base st i = (case find (\<lambda>ls. section_table_index ls = i) (loaded_sections st) of
     Some ls \<Rightarrow> loaded_ram_addr ls | None \<Rightarrow> ram_addr (section_at st i))"

definition loaded_ok :: "SectionTableEntry list \<Rightarrow> LoadedSection list \<Rightarrow> bool" where
  "loaded_ok cs ls \<longleftrightarrow> distinct (map section_table_index ls) \<and>
     (\<forall>s \<in> set ls. section_table_index s < length cs \<and> placement_ok (cs ! section_table_index s) (loaded_ram_addr s)) \<and>
     (\<forall>s \<in> set ls. \<forall>t \<in> set ls. s \<noteq> t \<longrightarrow>
        \<not> runtime_ranges_overlap (loaded_ram_addr s) (sec_size (cs ! section_table_index s))
            (loaded_ram_addr t) (sec_size (cs ! section_table_index t)))"

definition overlay_inv :: "overlay_state \<Rightarrow> bool" where
  "overlay_inv st \<longleftrightarrow> wf_table (code_sections st) (total_num_sections st) \<and> loaded_ok (code_sections st) (loaded_sections st) \<and>
     (\<forall>a. in_ram a \<longrightarrow> func_map st a = loaded_lookup st a) \<and>
     (\<exists>sa. section_addresses st = Some sa \<and> length sa = total_num_sections st \<and>
        (\<forall>i < length (code_sections st). sa ! sec_index (section_at st i) = reloc_base st i))"

lemma overlay_invD:
  assumes "overlay_inv st"
  shows "wf_table (code_sections st) (total_num_sections st)" "loaded_ok (code_sections st) (loaded_sections st)"
    "in_ram a \<Longrightarrow> func_map st a = loaded_lookup st a"
  using assms by (auto simp: overlay_inv_def)

lemma wf_tableD: "wf_table cs n \<Longrightarrow> i < length cs \<Longrightarrow> wf_section (cs ! i) \<and> sec_index (cs ! i) < n \<and> ram_addr (cs ! i) AND 3 = 0"
  by (simp add: wf_table_def list_all_length)

lemma first_some_None: "(\<And>x. x \<in> set xs \<Longrightarrow> f x = None) \<Longrightarrow> first_some f xs = None"
  by (induction xs) auto

lemma first_some_only:
  assumes "s \<in> set xs" "\<And>x. x \<in> set xs \<Longrightarrow> x \<noteq> s \<Longrightarrow> f x = None"
  shows "first_some f xs = f s"
  using assms
proof (induction xs)
  case (Cons x xs)
  then show ?case by (cases "x = s"; cases "s \<in> set xs") (auto split: option.split intro: first_some_None)
qed simp

lemma loaded_okD:
  assumes "loaded_ok cs ls" "s \<in> set ls"
  shows "section_table_index s < length cs" "placement_ok (cs ! section_table_index s) (loaded_ram_addr s)"
  using assms by (auto simp: loaded_ok_def)

lemma loaded_ok_unique:
  "loaded_ok cs ls \<Longrightarrow> s \<in> set ls \<Longrightarrow> t \<in> set ls \<Longrightarrow> section_table_index s = section_table_index t \<Longrightarrow> s = t"
  by (auto simp: loaded_ok_def distinct_map dest: inj_onD)

lemma loaded_ok_cover_unique:
  assumes "loaded_ok cs ls" "s \<in> set ls" "t \<in> set ls"
    "covers (cs ! section_table_index s) (loaded_ram_addr s) a" "covers (cs ! section_table_index t) (loaded_ram_addr t) a"
  shows "s = t"
  using assms covers_overlap by (fastforce simp: loaded_ok_def)

lemma loaded_lookup_covered:
  assumes "loaded_ok (code_sections st) (loaded_sections st)" "s \<in> set (loaded_sections st)"
    "covers (section_at st (section_table_index s)) (loaded_ram_addr s) a"
  shows "loaded_lookup st a = sec_lookup (section_at st (section_table_index s)) (a - loaded_ram_addr s)"
proof -
  have "loaded_lookup st a = (let sec = section_at st (section_table_index s) in
     if covers sec (loaded_ram_addr s) a then sec_lookup sec (a - loaded_ram_addr s) else None)"
    unfolding loaded_lookup_def using assms loaded_ok_cover_unique
    by (intro first_some_only) (auto simp: Let_def)
  with assms(3) show ?thesis by (simp add: Let_def)
qed

lemma loaded_lookup_uncovered:
  assumes "\<And>s. s \<in> set (loaded_sections st) \<Longrightarrow> \<not> covers (section_at st (section_table_index s)) (loaded_ram_addr s) a"
  shows "loaded_lookup st a = None"
  unfolding loaded_lookup_def using assms by (intro first_some_None) (simp add: Let_def)

lemma loaded_find:
  assumes "loaded_ok cs ls"
  shows "find (\<lambda>s. section_table_index s = i) ls = Some s \<longleftrightarrow> s \<in> set ls \<and> section_table_index s = i"
proof
  assume "find (\<lambda>s. section_table_index s = i) ls = Some s"
  then show "s \<in> set ls \<and> section_table_index s = i" by (auto simp: find_Some_iff)
next
  assume s: "s \<in> set ls \<and> section_table_index s = i"
  then obtain t where t: "find (\<lambda>s. section_table_index s = i) ls = Some t" by (fastforce simp: find_None_iff)
  then have "t \<in> set ls \<and> section_table_index t = i" by (auto simp: find_Some_iff)
  with s t loaded_ok_unique [OF assms] show "find (\<lambda>s. section_table_index s = i) ls = Some s" by blast
qed

lemma reloc_base_loaded:
  "loaded_ok cs (loaded_sections st) \<Longrightarrow> s \<in> set (loaded_sections st) \<Longrightarrow> section_table_index s = i \<Longrightarrow> reloc_base st i = loaded_ram_addr s"
  using loaded_find [of cs "loaded_sections st" i s] by (simp add: reloc_base_def)

lemma reloc_base_unloaded:
  "(\<And>s. s \<in> set (loaded_sections st) \<Longrightarrow> section_table_index s \<noteq> i) \<Longrightarrow> reloc_base st i = ram_addr (section_at st i)"
  using find_None_iff [of "\<lambda>ls. section_table_index ls = i" "loaded_sections st"] by (auto simp: reloc_base_def)

end
