(* ===== verification/OverlaySteps.thy ===== *)
theory OverlaySteps
  imports OverlayInv
begin

unbundle bit_operations_syntax

text \<open>Every loading and unloading operation keeps the invariant of section loading.\<close>

section \<open>Frames\<close>

named_theorems overlay_frame \<open>fields an operation leaves alone\<close>

lemma secaddr_set_frame [overlay_frame, simp]:
  "code_sections (secaddr_set i v st) = code_sections st" "total_num_sections (secaddr_set i v st) = total_num_sections st"
  "loaded_sections (secaddr_set i v st) = loaded_sections st" "func_map (secaddr_set i v st) = func_map st"
  "frag_unreg_enabled (secaddr_set i v st) = frag_unreg_enabled st" "pending_trampolines (secaddr_set i v st) = pending_trampolines st"
  "overlays_table (secaddr_set i v st) = overlays_table st" "have_code_sections (secaddr_set i v st) = have_code_sections st"
  by (simp_all add: secaddr_set_def split: option.split)

lemma secaddr_set_addresses:
  "section_addresses (secaddr_set i v st) =
     (if v AND 3 \<noteq> 0 then section_addresses st else map_option (\<lambda>sa. sa[i := v]) (section_addresses st))"
  by (simp add: secaddr_set_def split: option.split)

lemma pc_index_register_frame [overlay_frame, simp]:
  "code_sections (pc_index_register f i st) = code_sections st" "total_num_sections (pc_index_register f i st) = total_num_sections st"
  "loaded_sections (pc_index_register f i st) = loaded_sections st" "func_map (pc_index_register f i st) = func_map st"
  "section_addresses (pc_index_register f i st) = section_addresses st"
  "frag_unreg_enabled (pc_index_register f i st) = frag_unreg_enabled st"
  by (simp_all add: pc_index_register_def)

lemma record_load_order_frame [overlay_frame, simp]:
  "code_sections (record_load_order i st) = code_sections st" "total_num_sections (record_load_order i st) = total_num_sections st"
  "loaded_sections (record_load_order i st) = loaded_sections st" "func_map (record_load_order i st) = func_map st"
  "section_addresses (record_load_order i st) = section_addresses st"
  "frag_unreg_enabled (record_load_order i st) = frag_unreg_enabled st"
  by (simp_all add: record_load_order_def Let_def)

lemma install_fold_frame [simp]:
  fixes st :: overlay_state and sec base fs i
  defines "st' \<equiv> fold (\<lambda>f st. pc_index_register (fe_func f) i (st\<lparr>func_map := install_section_func_aliases sec base f (func_map st)\<rparr>)) fs st"
  shows "code_sections st' = code_sections st" "total_num_sections st' = total_num_sections st" "loaded_sections st' = loaded_sections st"
    "section_addresses st' = section_addresses st" "frag_unreg_enabled st' = frag_unreg_enabled st"
    "func_map st' = fold (install_section_func_aliases sec base) fs (func_map st)"
  unfolding st'_def by (induction fs arbitrary: st) simp_all

lemma load_overlay_fields:
  "code_sections (load_overlay i ram st) = code_sections st" "total_num_sections (load_overlay i ram st) = total_num_sections st"
  "loaded_sections (load_overlay i ram st) = loaded_sections st @ [\<lparr>loaded_ram_addr = ram, section_table_index = i\<rparr>]"
  "func_map (load_overlay i ram st) = fold (install_section_func_aliases (section_at st i) ram) (funcs (section_at st i)) (func_map st)"
  "section_addresses (load_overlay i ram st) =
     (if ram AND 3 \<noteq> 0 then section_addresses st else map_option (\<lambda>sa. sa[sec_index (section_at st i) := ram]) (section_addresses st))"
  "frag_unreg_enabled (load_overlay i ram st) = frag_unreg_enabled st"
  by (simp_all add: load_overlay_def Let_def secaddr_set_addresses)

lemma release_section_fields:
  "code_sections (release_section sec base st) = code_sections st" "total_num_sections (release_section sec base st) = total_num_sections st"
  "section_addresses (release_section sec base st) =
     (if ram_addr sec AND 3 \<noteq> 0 then section_addresses st else map_option (\<lambda>sa. sa[sec_index sec := ram_addr sec]) (section_addresses st))"
  "frag_unreg_enabled (release_section sec base st) = frag_unreg_enabled st"
  by (simp_all add: release_section_def Let_def secaddr_set_addresses)

section \<open>Unloading\<close>

lemma range_erase_placed:
  assumes "placement_ok sec base"
  shows "frag_range_erase base (sec_size sec) fm a = (if covers sec base a then None else fm a)"
proof (cases "sec_size sec = 0")
  case False
  have "unat base + unat (sec_size sec) \<le> 0x80800000" by (rule placement_limit [OF assms])
  then have "unat (base + sec_size sec) = unat base + unat (sec_size sec)" by (simp add: unat_word_ariths)
  with False show ?thesis by (simp add: frag_range_erase_def covers_nat word_le_nat_alt word_less_nat_alt)
next
  case True
  then show ?thesis using linorder_not_le [of "unat a" "unat base"] by (auto simp: frag_range_erase_def covers_nat)
qed

lemma release_section_ram:
  assumes "wf_section sec" "placement_ok sec base" "in_ram a"
    "covers sec base a \<Longrightarrow> func_map st a = sec_lookup sec (a - base)"
  shows "func_map (release_section sec base st) a = (if covers sec base a then None else func_map st a)"
proof -
  have erased: "fold (erase_section_func_aliases sec base) (funcs sec) (func_map st) a =
      (if \<exists>f \<in> set (funcs sec). fe_func f \<noteq> 0 \<and> a = base + fe_offset f then None else func_map st a)"
    using assms(3) placement_alias [OF assms(2)] by (intro erase_fold_ram) auto
  have off: "(\<exists>f \<in> set (funcs sec). fe_func f \<noteq> 0 \<and> a = base + fe_offset f) \<longleftrightarrow> sec_lookup sec (a - base) \<noteq> None"
    by (auto simp: sec_lookup_notin)
  have cov: "sec_lookup sec (a - base) \<noteq> None \<Longrightarrow> covers sec base a"
    using sec_lookup_offset [OF assms(1)] offset_covers(1) [OF assms(2), of "a - base"] by auto
  show ?thesis
    using assms(4) erased [unfolded off] cov range_erase_placed [OF assms(2)]
    by (auto simp: release_section_def Let_def)
qed

text \<open>Taking the entry \<open>s\<close> out of the table of loaded sections.\<close>

lemma loaded_ok_remove: "loaded_ok cs ls \<Longrightarrow> set ls' \<subseteq> set ls \<Longrightarrow> distinct (map section_table_index ls') \<Longrightarrow> loaded_ok cs ls'"
  by (simp add: loaded_ok_def subset_iff)

lemma addresses_released:
  assumes "wf_table cs n" "i < length cs" "length sa = n" "j < length cs"
  shows "sa[sec_index (cs ! i) := v] ! sec_index (cs ! j) = (if i = j then v else sa ! sec_index (cs ! j))"
proof -
  have "sec_index (cs ! i) = sec_index (cs ! j) \<longleftrightarrow> i = j"
    using assms nth_eq_iff_index_eq [of "map sec_index cs" i j] by (simp add: wf_table_def)
  with assms show ?thesis using wf_tableD [OF assms(1,2)] wf_tableD [OF assms(1,4)] by (auto simp: nth_list_update)
qed

lemma release_keeps_inv:
  assumes inv: "overlay_inv st" and s: "s \<in> set (loaded_sections st)" "section_table_index s = i"
    and ls: "set ls = set (loaded_sections st) - {s}" "distinct (map section_table_index ls)"
  shows "overlay_inv ((release_section (section_at st i) (loaded_ram_addr s) st)\<lparr>loaded_sections := ls\<rparr>)" (is "overlay_inv ?st")
proof -
  note wf = overlay_invD(1) [OF inv] and ok = overlay_invD(2) [OF inv]
  have i: "i < length (code_sections st)" and pl: "placement_ok (section_at st i) (loaded_ram_addr s)"
    using loaded_okD [OF ok s(1)] s(2) by auto
  note wfs = wf_tableD [OF wf i]
  have ok': "loaded_ok (code_sections st) ls" using ok ls by (auto intro: loaded_ok_remove)
  have cs [simp]: "code_sections ?st = code_sections st" by (simp add: release_section_fields)
  have fm: "func_map ?st a = loaded_lookup ?st a" if a: "in_ram a" for a
  proof -
    have rel: "func_map ?st a = (if covers (section_at st i) (loaded_ram_addr s) a then None else func_map st a)"
      using wfs pl a overlay_invD(3) [OF inv a] loaded_lookup_covered [OF ok s(1)] s(2)
      by (simp add: release_section_ram)
    show ?thesis
    proof (cases "\<exists>t \<in> set ls. covers (section_at st (section_table_index t)) (loaded_ram_addr t) a")
      case True
      then obtain t where t: "t \<in> set ls" "covers (section_at st (section_table_index t)) (loaded_ram_addr t) a" by auto
      then have "\<not> covers (section_at st i) (loaded_ram_addr s) a"
        using loaded_ok_cover_unique [OF ok s(1)] s(2) ls(1) by auto
      moreover have "loaded_lookup ?st a = loaded_lookup st a"
        using t ls(1) ok ok' loaded_lookup_covered [of ?st t a] loaded_lookup_covered [of st t a] by simp
      ultimately show ?thesis using rel overlay_invD(3) [OF inv a] by simp
    next
      case False
      then have "loaded_lookup ?st a = None" by (intro loaded_lookup_uncovered) simp
      moreover have "\<not> covers (section_at st i) (loaded_ram_addr s) a \<Longrightarrow> loaded_lookup st a = None"
        using False ls(1) s(2) by (intro loaded_lookup_uncovered) auto
      ultimately show ?thesis using rel overlay_invD(3) [OF inv a] by simp
    qed
  qed
  obtain sa where sa: "section_addresses st = Some sa" "length sa = total_num_sections st"
    "\<And>j. j < length (code_sections st) \<Longrightarrow> sa ! sec_index (section_at st j) = reloc_base st j"
    using inv by (auto simp: overlay_inv_def)
  have rb: "reloc_base ?st j = (if i = j then ram_addr (section_at st j) else reloc_base st j)" for j
  proof (cases "\<exists>t \<in> set ls. section_table_index t = j")
    case True
    then obtain t where t: "t \<in> set ls" "section_table_index t = j" by auto
    then have "i \<noteq> j" using ls(1) s loaded_ok_unique [OF ok] by auto
    with t ls(1) show ?thesis using reloc_base_loaded [of _ ?st t j] reloc_base_loaded [of _ st t j] ok ok' by auto
  next
    case False
    then have "reloc_base ?st j = ram_addr (section_at st j)" using reloc_base_unloaded [of ?st j] by auto
    moreover have "i \<noteq> j \<Longrightarrow> reloc_base st j = ram_addr (section_at st j)"
      using False ls(1) s by (intro reloc_base_unloaded) auto
    ultimately show ?thesis by simp
  qed
  show ?thesis
    unfolding overlay_inv_def using wf ok' fm sa wfs i
    by (auto simp: release_section_fields rb addresses_released)
qed

lemma unload_keeps_inv:
  assumes "overlay_inv st" shows "overlay_inv (unload_overlay_by_section_index i st)"
proof (cases "find (\<lambda>s. section_table_index s = i) (loaded_sections st)")
  case (Some s)
  note ok = overlay_invD(2) [OF assms]
  then have d: "distinct (loaded_sections st)" "distinct (map section_table_index (loaded_sections st))"
    by (auto simp: loaded_ok_def distinct_map)
  have s: "s \<in> set (loaded_sections st)" "section_table_index s = i" using Some loaded_find [OF ok] by auto
  have "distinct (map section_table_index (remove1 s (loaded_sections st)))"
    using d by (simp add: distinct_map distinct_remove1) (blast intro: inj_on_subset)
  then show ?thesis
    using release_keeps_inv [OF assms s, of "remove1 s (loaded_sections st)"] d Some
    by (simp add: unload_overlay_by_section_index_def Let_def)
qed (simp add: unload_overlay_by_section_index_def assms)

lemma unload_fields:
  "code_sections (unload_overlay_by_section_index i st) = code_sections st"
  "total_num_sections (unload_overlay_by_section_index i st) = total_num_sections st"
  "frag_unreg_enabled (unload_overlay_by_section_index i st) = frag_unreg_enabled st"
  by (simp_all add: unload_overlay_by_section_index_def release_section_fields Let_def split: option.split)

lemma unload_loaded:
  assumes "overlay_inv st"
  shows "set (loaded_sections (unload_overlay_by_section_index i st)) = {s \<in> set (loaded_sections st). section_table_index s \<noteq> i}"
proof -
  note ok = overlay_invD(2) [OF assms]
  then have d: "distinct (loaded_sections st)" by (auto simp: loaded_ok_def distinct_map)
  show ?thesis
  proof (cases "find (\<lambda>s. section_table_index s = i) (loaded_sections st)")
    case None
    then have "unload_overlay_by_section_index i st = st" by (simp add: unload_overlay_by_section_index_def)
    with None show ?thesis by (auto simp: find_None_iff)
  next
    case (Some s)
    then have "s \<in> set (loaded_sections st)" "section_table_index s = i" using loaded_find [OF ok] by auto
    with Some d loaded_ok_unique [OF ok] show ?thesis by (auto simp: unload_overlay_by_section_index_def Let_def)
  qed
qed

section \<open>Loading\<close>

lemma find_snoc: "\<not> P x \<Longrightarrow> find P (xs @ [x]) = find P xs"
  by (induction xs) auto

lemma load_keeps_inv:
  assumes inv: "overlay_inv st" and i: "i < length (code_sections st)" and pl: "placement_ok (section_at st i) ram"
    and new: "\<And>s. s \<in> set (loaded_sections st) \<Longrightarrow> section_table_index s \<noteq> i"
    and free: "overlapping_section i ram st = None"
  shows "overlay_inv (load_overlay i ram st)" (is "overlay_inv ?st")
proof -
  let ?s = "\<lparr>loaded_ram_addr = ram, section_table_index = i\<rparr> :: LoadedSection"
  note wf = overlay_invD(1) [OF inv] and ok = overlay_invD(2) [OF inv]
  note wfs = wf_tableD [OF wf i]
  have cs [simp]: "code_sections ?st = code_sections st" by (simp add: load_overlay_fields)
  have fr: "\<not> runtime_ranges_overlap ram (sec_size (section_at st i)) (loaded_ram_addr s) (sec_size (section_at st (section_table_index s)))"
    if "s \<in> set (loaded_sections st)" for s
    using free new [OF that] that by (auto simp: overlapping_section_def find_None_iff)
  then have ok': "loaded_ok (code_sections st) (loaded_sections ?st)"
    using ok i pl new by (auto simp: loaded_ok_def load_overlay_fields overlap_sym)
  have fm: "func_map ?st a = loaded_lookup ?st a" if a: "in_ram a" for a
  proof -
    have ins: "func_map ?st a = (if covers (section_at st i) ram a \<and> sec_lookup (section_at st i) (a - ram) \<noteq> None
        then sec_lookup (section_at st i) (a - ram) else func_map st a)"
      using wfs pl a by (simp add: load_overlay_fields install_section_ram)
    show ?thesis
    proof (cases "covers (section_at st i) ram a")
      case True
      then have "loaded_lookup ?st a = sec_lookup (section_at st i) (a - ram)"
        using loaded_lookup_covered [of ?st ?s a] ok' by (simp add: load_overlay_fields)
      moreover have "loaded_lookup st a = None"
        using True fr covers_overlap by (intro loaded_lookup_uncovered) blast
      ultimately show ?thesis using ins True overlay_invD(3) [OF inv a] by auto
    next
      case False
      have "loaded_lookup ?st a = loaded_lookup st a"
      proof (cases "\<exists>t \<in> set (loaded_sections st). covers (section_at st (section_table_index t)) (loaded_ram_addr t) a")
        case True
        then obtain t where "t \<in> set (loaded_sections st)" "covers (section_at st (section_table_index t)) (loaded_ram_addr t) a" by auto
        then show ?thesis using loaded_lookup_covered [of ?st t a] loaded_lookup_covered [of st t a] ok ok' by (simp add: load_overlay_fields)
      next
        case none: False
        then have "loaded_lookup st a = None" by (intro loaded_lookup_uncovered) auto
        moreover have "loaded_lookup ?st a = None" using none False by (intro loaded_lookup_uncovered) (auto simp: load_overlay_fields)
        ultimately show ?thesis by simp
      qed
      then show ?thesis using ins False overlay_invD(3) [OF inv a] by simp
    qed
  qed
  obtain sa where sa: "section_addresses st = Some sa" "length sa = total_num_sections st"
    "\<And>j. j < length (code_sections st) \<Longrightarrow> sa ! sec_index (section_at st j) = reloc_base st j"
    using inv by (auto simp: overlay_inv_def)
  have rb: "reloc_base ?st j = (if i = j then ram else reloc_base st j)" for j
  proof (cases "i = j")
    case True
    then show ?thesis using reloc_base_loaded [OF ok', of ?s j] by (simp add: load_overlay_fields)
  next
    case False
    then have "find (\<lambda>s. section_table_index s = j) (loaded_sections ?st) = find (\<lambda>s. section_table_index s = j) (loaded_sections st)"
      by (simp add: load_overlay_fields find_snoc)
    with False show ?thesis by (simp add: reloc_base_def split: option.split)
  qed
  have "ram AND 3 = 0" using pl by (simp add: placement_ok_def)
  then show ?thesis
    unfolding overlay_inv_def using wf ok' fm sa i
    by (auto simp: load_overlay_fields rb addresses_released)
qed

section \<open>Eviction and registration\<close>

lemma evict_none: "overlapping_section i base (evict_overlapping_sections i base st) = None"
proof (induction i base st rule: evict_overlapping_sections.induct)
  case (1 i base st)
  then show ?case by (subst evict_overlapping_sections.simps) (simp split: option.split)
qed

lemma evict_keeps_inv: "overlay_inv st \<Longrightarrow> overlay_inv (evict_overlapping_sections i base st)"
proof (induction i base st rule: evict_overlapping_sections.induct)
  case (1 i base st)
  then show ?case by (subst evict_overlapping_sections.simps) (simp split: option.split add: unload_keeps_inv)
qed

lemma evict_fields [simp]:
  "code_sections (evict_overlapping_sections i base st) = code_sections st"
  "total_num_sections (evict_overlapping_sections i base st) = total_num_sections st"
proof (induction i base st rule: evict_overlapping_sections.induct)
  case (1 i base st)
  { case 1 show ?case using "1.IH" by (subst evict_overlapping_sections.simps) (simp split: option.split add: unload_fields) }
  { case 2 show ?case using "1.IH" by (subst evict_overlapping_sections.simps) (simp split: option.split add: unload_fields) }
qed

text \<open>Exactly the sections that overlap are gone.\<close>

lemma evict_loaded:
  "overlay_inv st \<Longrightarrow> set (loaded_sections (evict_overlapping_sections i base st)) =
     {s \<in> set (loaded_sections st). section_table_index s = i \<or>
        \<not> runtime_ranges_overlap base (sec_size (section_at st i)) (loaded_ram_addr s) (sec_size (section_at st (section_table_index s)))}"
proof (induction i base st rule: evict_overlapping_sections.induct)
  case (1 i base st)
  show ?case
  proof (cases "overlapping_section i base st")
    case None
    then have "evict_overlapping_sections i base st = st" by (simp add: evict_overlapping_sections.simps)
    with None show ?thesis by (auto simp: overlapping_section_def find_None_iff)
  next
    case (Some s)
    then have s: "s \<in> set (loaded_sections st)" "section_table_index s \<noteq> i"
      "runtime_ranges_overlap base (sec_size (section_at st i)) (loaded_ram_addr s) (sec_size (section_at st (section_table_index s)))"
      by (auto simp: overlapping_section_def find_Some_iff)
    have "set (loaded_sections (evict_overlapping_sections i base st)) =
      set (loaded_sections (evict_overlapping_sections i base (unload_overlay_by_section_index (section_table_index s) st)))"
      by (subst evict_overlapping_sections.simps) (simp add: Some)
    also have "\<dots> = {t \<in> set (loaded_sections st). section_table_index t \<noteq> section_table_index s \<and> (section_table_index t = i \<or>
        \<not> runtime_ranges_overlap base (sec_size (section_at st i)) (loaded_ram_addr t) (sec_size (section_at st (section_table_index t))))}"
      using "1.IH" [OF Some unload_keeps_inv] "1.prems" by (auto simp: unload_loaded unload_fields)
    also have "\<dots> = {t \<in> set (loaded_sections st). section_table_index t = i \<or>
        \<not> runtime_ranges_overlap base (sec_size (section_at st i)) (loaded_ram_addr t) (sec_size (section_at st (section_table_index t)))}"
      using s loaded_ok_unique [OF overlay_invD(2) [OF "1.prems"]] by blast
    finally show ?thesis .
  qed
qed

lemma overlapping_unload:
  assumes "overlay_inv st" "overlapping_section i base st = None"
  shows "overlapping_section i base (unload_overlay_by_section_index j st) = None"
  using assms unload_loaded [OF assms(1), of j] by (auto simp: overlapping_section_def find_None_iff unload_fields)

lemma register_if_new_fields [simp]:
  "code_sections (register_if_new i base st) = code_sections st" "total_num_sections (register_if_new i base st) = total_num_sections st"
  by (simp_all add: register_if_new_def Let_def load_overlay_fields unload_fields split: option.split)

lemma register_keeps_inv:
  assumes inv: "overlay_inv st" and i: "i < length (code_sections st)" and pl: "placement_ok (section_at st i) base"
  shows "overlay_inv (register_if_new i base st)"
proof -
  let ?e = "evict_overlapping_sections i base st" let ?u = "unload_overlay_by_section_index i ?e"
  note e = evict_keeps_inv [OF inv, of i base]
  have u: "overlay_inv ?u" by (rule unload_keeps_inv [OF e])
  have "overlay_inv (load_overlay i base ?u)"
    using load_keeps_inv [OF u, of i base] i pl overlapping_unload [OF e evict_none] by (auto simp: unload_fields unload_loaded [OF e])
  moreover have "find (\<lambda>s. section_table_index s = i) (loaded_sections ?e) = None \<Longrightarrow> overlay_inv (load_overlay i base ?e)"
    using load_keeps_inv [OF e, of i base] i pl evict_none by (auto simp: find_None_iff)
  ultimately show ?thesis using e by (auto simp: register_if_new_def Let_def split: option.split)
qed

lemma register_loaded:
  assumes inv: "overlay_inv st"
  shows "set (loaded_sections (register_if_new i base st)) =
     insert \<lparr>loaded_ram_addr = base, section_table_index = i\<rparr> {s \<in> set (loaded_sections st). section_table_index s \<noteq> i \<and>
        \<not> runtime_ranges_overlap base (sec_size (section_at st i)) (loaded_ram_addr s) (sec_size (section_at st (section_table_index s)))}"
proof -
  note e = evict_keeps_inv [OF inv, of i base]
  note ok = overlay_invD(2) [OF e]
  show ?thesis
  proof (cases "find (\<lambda>s. section_table_index s = i) (loaded_sections (evict_overlapping_sections i base st))")
    case None
    then have "register_if_new i base st = load_overlay i base (evict_overlapping_sections i base st)"
      by (simp add: register_if_new_def)
    with None show ?thesis by (auto simp: load_overlay_fields evict_loaded [OF inv] find_None_iff)
  next
    case (Some s)
    then have s: "s \<in> set (loaded_sections (evict_overlapping_sections i base st))" "section_table_index s = i"
      using loaded_find [OF ok] by auto
    then have eq: "t \<in> set (loaded_sections (evict_overlapping_sections i base st)) \<Longrightarrow> section_table_index t = i \<Longrightarrow> t = s" for t
      using loaded_ok_unique [OF ok] by blast
    let ?new = "\<lparr>loaded_ram_addr = base, section_table_index = i\<rparr> :: LoadedSection"
    let ?rest = "{t \<in> set (loaded_sections (evict_overlapping_sections i base st)). section_table_index t \<noteq> i}"
    have "set (loaded_sections (register_if_new i base st)) = insert ?new ?rest"
    proof (cases "loaded_ram_addr s = base")
      case True
      then have "s = ?new" using s(2) by simp
      moreover have "register_if_new i base st = evict_overlapping_sections i base st"
        using Some True by (simp add: register_if_new_def)
      ultimately have "set (loaded_sections (register_if_new i base st)) = insert s ?rest"
        using s(1) eq by (simp only:) blast
      with \<open>s = ?new\<close> show ?thesis by simp
    next
      case False
      then have "register_if_new i base st = load_overlay i base (unload_overlay_by_section_index i (evict_overlapping_sections i base st))"
        using Some by (simp add: register_if_new_def)
      then show ?thesis by (simp add: load_overlay_fields unload_loaded [OF e])
    qed
    then show ?thesis by (auto simp: evict_loaded [OF inv])
  qed
qed

section \<open>A DMA transfer\<close>

text \<open>The sections a transfer registers, in order; each lands at its ROM offset from the start of the transfer.\<close>

definition dma_sections :: "SectionTableEntry list \<Rightarrow> u32 \<Rightarrow> u32 \<Rightarrow> nat list" where
  "dma_sections cs rom sz = (let lower = rom_lower_bound cs rom; upper_a = rom_upper_bound cs (rom + sz) in
     filter (\<lambda>i. \<not> rom + sz < rom_addr (cs ! i) + sec_size (cs ! i)) [lower..<upper_a] @
     (if lower \<noteq> 0 \<and> rom_addr (cs ! (lower - 1)) \<le> rom \<and> rom < rom_addr (cs ! (lower - 1)) + sec_size (cs ! (lower - 1)) then [lower - 1] else []) @
     (if lower \<noteq> length cs \<and> rom_addr (cs ! lower) = rom \<and> rom + sz < rom_addr (cs ! lower) + sec_size (cs ! lower) then [lower] else []))"

definition dma_base :: "SectionTableEntry list \<Rightarrow> u32 \<Rightarrow> u32 \<Rightarrow> nat \<Rightarrow> u32" where
  "dma_base cs rom ram i = rom_addr (cs ! i) - rom + ram"

lemma fold_filter_if: "fold (\<lambda>i s. if P i then s else g i s) xs s = fold g (filter (\<lambda>i. \<not> P i) xs) s"
  by (induction xs arbitrary: s) simp_all

lemma load_overlays_fold:
  "load_overlays rom ram sz st =
     (if rom_upper_bound (code_sections st) (rom + sz) < rom_lower_bound (code_sections st) rom then Inl OutOfBounds
      else Inr (fold (\<lambda>i. register_if_new i (dma_base (code_sections st) rom ram i)) (dma_sections (code_sections st) rom sz) st))"
proof -
  have base: "ram - (rom - x) = x - rom + ram" for x by (simp add: algebra_simps)
  show ?thesis unfolding load_overlays_def dma_sections_def dma_base_def Let_def fold_filter_if base fold_append comp_def by auto
qed

lemma rom_bounds_le: "rom_lower_bound cs rom \<le> length cs" "rom_upper_bound cs rom \<le> length cs"
  by (simp_all add: rom_lower_bound_def rom_upper_bound_def length_takeWhile_le)

lemma dma_sections_bound: "i \<in> set (dma_sections cs rom sz) \<Longrightarrow> i < length cs"
  using rom_bounds_le [of cs rom] rom_bounds_le [of cs "rom + sz"] by (auto simp: dma_sections_def Let_def split: if_splits)

lemma length_takeWhile_mono:
  "(\<And>x. P x \<Longrightarrow> Q x) \<Longrightarrow> length (takeWhile P xs) \<le> length (takeWhile Q xs)"
  by (induction xs) auto

text \<open>A transfer that does not wrap around the ROM address space never leaves the table.\<close>

lemma load_overlays_total:
  assumes "unat rom + unat sz < 2 ^ 32" shows "\<exists>st'. load_overlays rom ram sz st = Inr st'"
proof -
  have "rom \<le> rom + sz" using assms by (simp add: word_le_nat_alt unat_word_ariths)
  then have "length (takeWhile (\<lambda>e. rom_addr e < rom) (code_sections st)) \<le>
      length (takeWhile (\<lambda>e. \<not> rom + sz < rom_addr e) (code_sections st))"
    by (intro length_takeWhile_mono) auto
  then show ?thesis by (simp add: load_overlays_fold rom_lower_bound_def rom_upper_bound_def not_less)
qed

lemma fold_register_inv:
  assumes "overlay_inv st" "\<And>i. i \<in> set is \<Longrightarrow> i < length (code_sections st) \<and> placement_ok (section_at st i) (base i)"
  shows "overlay_inv (fold (\<lambda>i. register_if_new i (base i)) is st)"
  using assms by (induction "is" arbitrary: st) (simp_all add: register_keeps_inv)

lemma fold_register_fields [simp]:
  "code_sections (fold (\<lambda>i. register_if_new i (base i)) is st) = code_sections st"
  by (induction "is" arbitrary: st) simp_all

text \<open>The discipline for one transfer: every section it registers is placed well.\<close>

definition dma_ok :: "overlay_state \<Rightarrow> u32 \<Rightarrow> u32 \<Rightarrow> u32 \<Rightarrow> bool" where
  "dma_ok st rom ram sz \<longleftrightarrow> list_all (\<lambda>i. placement_ok (section_at st i) (dma_base (code_sections st) rom ram i))
     (dma_sections (code_sections st) rom sz)"

lemma load_overlays_keeps_inv:
  "overlay_inv st \<Longrightarrow> dma_ok st rom ram sz \<Longrightarrow> load_overlays rom ram sz st = Inr st' \<Longrightarrow> overlay_inv st'"
  by (auto simp: load_overlays_fold dma_ok_def list_all_iff split: if_splits intro!: fold_register_inv dma_sections_bound)

section \<open>Unloading a range\<close>

lemma unload_overlays_from_inv:
  assumes "overlay_inv st" "loaded_sections st = kept @ its" "unload_overlays_from ram sz kept its st = Inr st'"
  shows "overlay_inv st'"
  using assms
proof (induction its arbitrary: kept st)
  case (Cons it rest)
  note ok = overlay_invD(2) [OF Cons.prems(1)]
  then have d: "distinct (map section_table_index (kept @ it # rest))" using Cons.prems(2) by (simp add: loaded_ok_def)
  then have "set (kept @ rest) = set (loaded_sections st) - {it}" "distinct (map section_table_index (kept @ rest))"
    using Cons.prems(2) by auto
  then have rel: "overlay_inv ((release_section (section_at st (section_table_index it)) (loaded_ram_addr it) st)\<lparr>loaded_sections := kept @ rest\<rparr>)"
    using Cons.prems(2) by (intro release_keeps_inv [OF Cons.prems(1)]) auto
  then show ?case
    using Cons.prems Cons.IH [of "(release_section (section_at st (section_table_index it)) (loaded_ram_addr it) st)\<lparr>loaded_sections := kept @ rest\<rparr>" kept]
      Cons.IH [of st "kept @ [it]"]
    by (auto simp: Let_def split: if_splits)
qed simp

lemma unload_overlays_keeps_inv: "overlay_inv st \<Longrightarrow> unload_overlays ram sz st = Inr st' \<Longrightarrow> overlay_inv st'"
  unfolding unload_overlays_def using unload_overlays_from_inv [of st "[]"] by simp

lemma unload_by_id_keeps_inv: "overlay_inv st \<Longrightarrow> unload_overlay_by_id oid st = Inr st' \<Longrightarrow> overlay_inv st'"
  by (auto simp: unload_overlay_by_id_def Let_def split: if_splits intro: unload_keeps_inv)

lemma unregister_keeps_inv: "overlay_inv st \<Longrightarrow> overlay_inv (unregister_runtime_fragment fid st)"
  by (simp add: unregister_runtime_fragment_def unload_keeps_inv split: option.split)

end
