(* ===== verification/OverlayLookup.thy ===== *)
theory OverlayLookup
  imports OverlayFragment
begin

unbundle bit_operations_syntax

text \<open>
  Lookups in the tables of \<^verbatim>\<open>overlays.cpp\<close>: functions by section and offset, by ROM and link
  address and by runtime address, the data of the patch sections, and the resolution of
  fragment-space addresses among several loaded variants of a fragment.
\<close>

section \<open>Functions of a section\<close>

definition find_func_entry :: "SectionTableEntry list \<Rightarrow> u16 \<Rightarrow> u32 \<Rightarrow> FuncEntry option" where
  "find_func_entry sections i function_offset =
     (if length sections \<le> unat i then None
      else if sec_size (sections ! unat i) \<le> function_offset then None
      else find (\<lambda>f. fe_offset f = function_offset) (funcs (sections ! unat i)))"

definition get_func_entry_by_section_index_function_offset :: "overlay_state \<Rightarrow> u16 \<Rightarrow> u32 \<Rightarrow> FuncEntry option" where
  "get_func_entry_by_section_index_function_offset st i function_offset = find_func_entry (code_sections st) i function_offset"

definition is_manual_patch_symbol :: "u32 \<Rightarrow> bool" where
  "is_manual_patch_symbol vram \<longleftrightarrow> 0x8F000000 \<le> vram \<and> vram < 0x90000000"

text \<open>\<open>section_absolute\<close> is the recompiler's constant \<^verbatim>\<open>N64Recomp::SectionAbsolute\<close>.\<close>

definition get_func_by_section_index_function_offset :: "u16 \<Rightarrow> overlay_state \<Rightarrow> u16 \<Rightarrow> u32 \<Rightarrow> u64" where
  "get_func_by_section_index_function_offset section_absolute st i function_offset =
     (case get_func_entry_by_section_index_function_offset st i function_offset of
        Some entry \<Rightarrow> fe_func entry
      | None \<Rightarrow> if i = section_absolute \<and> is_manual_patch_symbol function_offset
          then case manual_patch_symbols_by_vram st function_offset of Some f \<Rightarrow> f | None \<Rightarrow> 0
          else 0)"

definition get_func_by_section_rom_function_vram :: "u16 \<Rightarrow> overlay_state \<Rightarrow> u32 \<Rightarrow> u32 \<Rightarrow> u64" where
  "get_func_by_section_rom_function_vram section_absolute st section_rom function_vram =
     (case code_sections_by_rom st section_rom of
        None \<Rightarrow> 0
      | Some i \<Rightarrow> get_func_by_section_index_function_offset section_absolute st i
          (function_vram - ram_addr (section_at st (unat i))))"

definition recomp_lookup_function_or_null :: "overlay_state \<Rightarrow> u32 \<Rightarrow> u64" where
  "recomp_lookup_function_or_null st addr = (case func_map st addr of Some f \<Rightarrow> f | None \<Rightarrow> 0)"

section \<open>Patches\<close>

definition patch_funcs_by_ptr :: "overlay_state \<Rightarrow> u64 \<rightharpoonup> nat \<times> nat" where
  "patch_funcs_by_ptr st =
     fold (\<lambda>ps. fold (\<lambda>fi. emplace (fe_func (funcs (patch_code_sections st ! ps) ! fi)) (ps, fi))
        [0..<length (funcs (patch_code_sections st ! ps))]) [0..<length (patch_code_sections st)] Map.empty"

definition get_base_patched_funcs :: "overlay_state \<Rightarrow> u64 \<rightharpoonup> nat \<times> nat" where
  "get_base_patched_funcs st = (let by_ptr = patch_funcs_by_ptr st in
     fold (\<lambda>sec. fold (\<lambda>f m. case by_ptr (fe_func f) of Some p \<Rightarrow> emplace (fe_func f) p m | None \<Rightarrow> m) (funcs sec))
       (code_sections st) Map.empty)"

text \<open>In a build with assertions an index past the end fails one; without, these return -1, \<^verbatim>\<open>nullptr\<close> or an empty span.\<close>

definition get_patch_section_ram_addr :: "overlay_state \<Rightarrow> u16 \<Rightarrow> u32" where
  "get_patch_section_ram_addr st i =
     (if length (patch_code_sections st) \<le> unat i then - 1 else ram_addr (patch_code_sections st ! unat i))"

definition get_patch_section_rom_addr :: "overlay_state \<Rightarrow> u16 \<Rightarrow> u32" where
  "get_patch_section_rom_addr st i =
     (if length (patch_code_sections st) \<le> unat i then - 1 else rom_addr (patch_code_sections st ! unat i))"

definition get_patch_function_entry :: "overlay_state \<Rightarrow> u16 \<Rightarrow> nat \<Rightarrow> FuncEntry option" where
  "get_patch_function_entry st i fi =
     (if unat i < length (patch_code_sections st) \<and> fi < length (funcs (patch_code_sections st ! unat i))
      then Some (funcs (patch_code_sections st ! unat i) ! fi) else None)"

definition get_patch_func_entry_by_section_index_function_offset :: "overlay_state \<Rightarrow> u16 \<Rightarrow> u32 \<Rightarrow> FuncEntry option" where
  "get_patch_func_entry_by_section_index_function_offset st i function_offset =
     find_func_entry (patch_code_sections st) i function_offset"

definition get_patch_section_relocs :: "overlay_state \<Rightarrow> u16 \<Rightarrow> RelocEntry list" where
  "get_patch_section_relocs st i =
     (if length (patch_code_sections st) \<le> unat i then [] else relocs (patch_code_sections st ! unat i))"

section \<open>Fragment-space addresses\<close>

definition recomp_addr_in_loaded_variant :: "overlay_state \<Rightarrow> u32 \<Rightarrow> u32 \<Rightarrow> bool" where
  "recomp_addr_in_loaded_variant st bucket addr \<longleftrightarrow> have_code_sections st \<and>
     list_ex (\<lambda>ls. let sec = section_at st (section_table_index ls); base = loaded_ram_addr ls in
       ram_addr sec = bucket \<and> base \<le> addr \<and> addr < base + sec_size sec) (loaded_sections st)"

definition in_fragment_space :: "u32 \<Rightarrow> bool" where
  "in_fragment_space link_vaddr \<longleftrightarrow> \<not> (link_vaddr < 0x81000000 \<or> 0x90000000 \<le> link_vaddr)"

abbreviation bucket_of :: "u32 \<Rightarrow> u32" where "bucket_of a \<equiv> a AND 0xFFF00000"
abbreviation offset_of :: "u32 \<Rightarrow> u32" where "offset_of a \<equiv> a AND 0x000FFFFF"

text \<open>The variant of the bucket registered last before the caller, as the loop keeps it: its order and its address.\<close>

definition best_before :: "overlay_state \<Rightarrow> u32 \<Rightarrow> u32 \<Rightarrow> u64 \<Rightarrow> u64 \<times> u32" where
  "best_before st bucket off caller_order =
     fold (\<lambda>ls (best_order, best_addr). let sec = section_at st (section_table_index ls);
              order = get_load_order st (section_table_index ls) in
            if ram_addr sec \<noteq> bucket then (best_order, best_addr)
            else if sec_size sec \<le> off then (best_order, best_addr)
            else if order = 0 \<or> caller_order \<le> order then (best_order, best_addr)
            else if best_order < order then (order, loaded_ram_addr ls + off) else (best_order, best_addr))
       (loaded_sections st) (0, 0)"

definition recomp_resolve_fragment_via_caller_pc :: "u32 \<Rightarrow> u64 \<Rightarrow> overlay_state \<Rightarrow> u32 \<times> overlay_state" where
  "recomp_resolve_fragment_via_caller_pc link_vaddr caller_pc st =
     (if \<not> in_fragment_space link_vaddr then (0, st)
      else if \<not> have_code_sections st then (0, st)
      else case pc_index_lookup caller_pc st of
        (None, st) \<Rightarrow> (0, st)
      | (Some caller, st) \<Rightarrow> (let caller_sec = section_at st caller; bucket = bucket_of link_vaddr; off = offset_of link_vaddr in
          case (if ram_addr caller_sec = bucket \<and> off < sec_size caller_sec
                then find (\<lambda>ls. section_table_index ls = caller) (loaded_sections st) else None) of
            Some ls \<Rightarrow> (loaded_ram_addr ls + off, st)
          | None \<Rightarrow> if get_load_order st caller = 0 then (0, st)
              else (snd (best_before st bucket off (get_load_order st caller)), st)))"

definition recomp_lookup_fragment_offset :: "overlay_state \<Rightarrow> u32 \<Rightarrow> u32" where
  "recomp_lookup_fragment_offset st link_vaddr =
     (if \<not> in_fragment_space link_vaddr then 0
      else if \<not> have_code_sections st then 0
      else snd (fold (\<lambda>ls (best_size, best_addr). let sec = section_at st (section_table_index ls) in
              if ram_addr sec \<noteq> bucket_of link_vaddr then (best_size, best_addr)
              else if sec_size sec \<le> offset_of link_vaddr then (best_size, best_addr)
              else if sec_size sec < best_size then (sec_size sec, loaded_ram_addr ls + offset_of link_vaddr)
              else (best_size, best_addr))
            (rev (loaded_sections st)) (- 1, 0)))"

definition recomp_resolve_synthetic_fragment :: "overlay_state \<Rightarrow> u32 \<Rightarrow> overlay_error + u32" where
  "recomp_resolve_synthetic_fragment st addr =
     (if \<not> is_synthetic_addr addr then Inr 0
      else let slot_idx = synthetic_bucket_idx addr; off = offset_of addr; slot = recomp_synthetic_fragments st ! slot_idx in
        if 512 \<le> slot_idx then Inl AbortCall
        else if \<not> registered slot then Inl AbortCall
        else if slot_size slot \<le> off then Inl AbortCall
        else Inr (runtime_base slot + off))"

definition recomp_resolve_via_data_context :: "overlay_state \<Rightarrow> u32 \<Rightarrow> u32 \<Rightarrow> u32" where
  "recomp_resolve_via_data_context st link_vaddr data_ctx_addr =
     (if \<not> in_fragment_space link_vaddr then 0
      else if data_ctx_addr = 0 then 0
      else if \<not> have_code_sections st then 0
      else case find (\<lambda>ls. loaded_ram_addr ls \<le> data_ctx_addr \<and>
                 data_ctx_addr < loaded_ram_addr ls + sec_size (section_at st (section_table_index ls))) (loaded_sections st) of
        None \<Rightarrow> 0
      | Some ls \<Rightarrow> (let sec = section_at st (section_table_index ls) in
          if ram_addr sec \<noteq> bucket_of link_vaddr then 0
          else if sec_size sec \<le> offset_of link_vaddr then 0
          else loaded_ram_addr ls + offset_of link_vaddr))"

definition recomp_get_pattern_variant_info :: "overlay_state \<Rightarrow> u32 \<Rightarrow> nat \<Rightarrow> (u32 \<times> u32 \<times> u32 \<times> u32) option" where
  "recomp_get_pattern_variant_info st pattern_id idx = (let
       variants = filter (\<lambda>ls. original_pattern_id (section_at st (section_table_index ls)) = pattern_id) (loaded_sections st) in
     if have_code_sections st \<and> idx < length variants
     then let ls = variants ! idx; sec = section_at st (section_table_index ls) in
       Some (loaded_ram_addr ls, sec_size sec, ram_addr sec, of_nat (sec_index sec)) else None)"

section \<open>The stack of resolver inputs\<close>

text \<open>Sixteen entries and a counter that goes on counting past them, per thread.\<close>

record input_stack =
  s_fragment_input_stack :: "u32 list"
  s_fragment_input_sp :: int

definition librecomp_fragment_input_push :: "u32 \<Rightarrow> input_stack \<Rightarrow> overlay_error + input_stack" where
  "librecomp_fragment_input_push v s = (let sp = s_fragment_input_sp s in
     if sp < 0 then Inl OutOfBounds
     else Inr (s\<lparr>s_fragment_input_stack :=
         (if sp < 16 then (s_fragment_input_stack s)[nat sp := v] else s_fragment_input_stack s),
       s_fragment_input_sp := sp + 1\<rparr>))"

definition librecomp_fragment_input_pop :: "input_stack \<Rightarrow> u32 \<times> input_stack" where
  "librecomp_fragment_input_pop s = (let sp = s_fragment_input_sp s - 1;
       idx = (if 0 \<le> sp \<and> sp < 16 then sp else 0) in
     (s_fragment_input_stack s ! nat idx, s\<lparr>s_fragment_input_sp := sp\<rparr>))"

definition librecomp_fragment_resolve_exit :: "u32 \<Rightarrow> u32 \<Rightarrow> overlay_state \<Rightarrow> input_stack \<Rightarrow> overlay_error + (u32 \<times> input_stack)" where
  "librecomp_fragment_resolve_exit game_result data_ctx_addr st s =
     (case librecomp_fragment_input_pop s of (v, s) \<Rightarrow>
       case recomp_resolve_synthetic_fragment st v of
         Inl e \<Rightarrow> Inl e
       | Inr synth \<Rightarrow>
           if synth \<noteq> 0 then Inr (synth, s)
           else if bucket_of v \<noteq> 0x8FF00000 then Inr (game_result, s)
           else if \<not> in_fragment_space v then Inr (game_result, s)
           else if recomp_addr_in_loaded_variant st (bucket_of v) game_result then Inr (game_result, s)
           else let resolved = recomp_resolve_via_data_context st v data_ctx_addr in
             Inr (if resolved \<noteq> 0 then resolved else game_result, s))"

end
