(* ===== verification/OverlaySpecs.thy ===== *)
theory OverlaySpecs
  imports OverlaySteps OverlayLookup
begin

unbundle bit_operations_syntax

text \<open>
  The contract of section loading as an interface: states, the sections that are placed, the
  addresses each occupies, and dispatch. What a program sees over a whole run is proved in the
  interface and instantiated with the model; the start state is the one \<^verbatim>\<open>init_overlays\<close> leaves.
  Separately, every operation, disciplined or not, keeps all relocation bases word-aligned.
\<close>

section \<open>Interface\<close>

locale code_registry =
  fixes inv :: "'s \<Rightarrow> bool" and step :: "'s \<Rightarrow> 's \<Rightarrow> bool" and placed :: "'s \<Rightarrow> 'p set"
    and occupies :: "'s \<Rightarrow> 'p \<Rightarrow> 'a \<Rightarrow> bool" and entry :: "'s \<Rightarrow> 'p \<Rightarrow> 'a \<Rightarrow> 'f option"
    and window :: "'a \<Rightarrow> bool" and dispatch :: "'s \<Rightarrow> 'a \<Rightarrow> 'f option"
  assumes step_inv: "inv s \<Longrightarrow> step s t \<Longrightarrow> inv t"
    and disjoint: "inv s \<Longrightarrow> p \<in> placed s \<Longrightarrow> q \<in> placed s \<Longrightarrow> occupies s p a \<Longrightarrow> occupies s q a \<Longrightarrow> p = q"
    and dispatch_placed: "inv s \<Longrightarrow> p \<in> placed s \<Longrightarrow> occupies s p a \<Longrightarrow> dispatch s a = entry s p a"
    and dispatch_free: "inv s \<Longrightarrow> window a \<Longrightarrow> \<forall>p \<in> placed s. \<not> occupies s p a \<Longrightarrow> dispatch s a = None"
begin

lemma run_inv: "step\<^sup>*\<^sup>* s t \<Longrightarrow> inv s \<Longrightarrow> inv t"
  by (induction rule: rtranclp_induct) (auto intro: step_inv)

text \<open>Nothing stale and nothing missing: a hit is an entry of the one section that occupies the address.\<close>

lemma run_dispatch_iff:
  assumes "step\<^sup>*\<^sup>* s t" "inv s" "window a"
  shows "dispatch t a = Some f \<longleftrightarrow> (\<exists>!p. p \<in> placed t \<and> occupies t p a) \<and> (\<exists>p \<in> placed t. occupies t p a \<and> entry t p a = Some f)"
  using run_inv [OF assms(1,2)] disjoint [of t] dispatch_placed [of t _ a] dispatch_free [of t a] assms(3)
  by (metis option.distinct(1))

end

section \<open>Steps of a disciplined program\<close>

inductive overlay_step :: "overlay_state \<Rightarrow> overlay_state \<Rightarrow> bool" where
  step_dma: "dma_ok st rom ram sz \<Longrightarrow> load_overlays rom ram sz st = Inr st' \<Longrightarrow> overlay_step st st'"
| step_unload_range: "unload_overlays ram sz st = Inr st' \<Longrightarrow> overlay_step st st'"
| step_unload_id: "unload_overlay_by_id oid st = Inr st' \<Longrightarrow> overlay_step st st'"
| step_unregister: "overlay_step st (unregister_runtime_fragment fid st)"

inductive_cases overlay_stepE: "overlay_step st st'"

lemma overlay_step_inv: "overlay_step st st' \<Longrightarrow> overlay_inv st \<Longrightarrow> overlay_inv st'"
  by (erule overlay_stepE) (auto intro: load_overlays_keeps_inv unload_overlays_keeps_inv unload_by_id_keeps_inv unregister_keeps_inv)

definition loaded_covers :: "overlay_state \<Rightarrow> LoadedSection \<Rightarrow> u32 \<Rightarrow> bool" where
  "loaded_covers st ls a \<longleftrightarrow> covers (section_at st (section_table_index ls)) (loaded_ram_addr ls) a"

definition loaded_entry :: "overlay_state \<Rightarrow> LoadedSection \<Rightarrow> u32 \<Rightarrow> u64 option" where
  "loaded_entry st ls a = sec_lookup (section_at st (section_table_index ls)) (a - loaded_ram_addr ls)"

interpretation overlays: code_registry overlay_inv overlay_step "\<lambda>st. set (loaded_sections st)" loaded_covers loaded_entry in_ram func_map
proof
  fix st st' assume "overlay_inv st" "overlay_step st st'" then show "overlay_inv st'" by (rule overlay_step_inv [rotated])
next
  fix st p q a
  assume "overlay_inv st" "p \<in> set (loaded_sections st)" "q \<in> set (loaded_sections st)" "loaded_covers st p a" "loaded_covers st q a"
  then show "p = q" using loaded_ok_cover_unique [OF overlay_invD(2)] by (auto simp: loaded_covers_def)
next
  fix st p a assume *: "overlay_inv st" "p \<in> set (loaded_sections st)" "loaded_covers st p a"
  then have "in_ram a" unfolding loaded_covers_def by (blast intro: covers_in_ram loaded_okD(2) overlay_invD(2))
  with * show "func_map st a = loaded_entry st p a"
    using overlay_invD(3) [of st a] loaded_lookup_covered [OF overlay_invD(2)] by (simp add: loaded_covers_def loaded_entry_def)
next
  fix st a assume "overlay_inv st" "in_ram a" "\<forall>p \<in> set (loaded_sections st). \<not> loaded_covers st p a"
  then show "func_map st a = None"
    using overlay_invD(3) [of st a] loaded_lookup_uncovered [of st a] by (simp add: loaded_covers_def)
qed

section \<open>The start state\<close>

lemma register_overlays_fields:
  "code_sections (register_overlays cs n tab st) = cs" "total_num_sections (register_overlays cs n tab st) = n"
  "loaded_sections (register_overlays cs n tab st) = loaded_sections st"
  "have_patch_sections (register_overlays cs n tab st) = have_patch_sections st"
proof -
  have pc: "code_sections (fold (\<lambda>f. pc_index_register (fe_func f) si) fs st) = code_sections st"
    "total_num_sections (fold (\<lambda>f. pc_index_register (fe_func f) si) fs st) = total_num_sections st"
    "loaded_sections (fold (\<lambda>f. pc_index_register (fe_func f) si) fs st) = loaded_sections st"
    "have_patch_sections (fold (\<lambda>f. pc_index_register (fe_func f) si) fs st) = have_patch_sections st" for si fs and st :: overlay_state
    by (induction fs arbitrary: st) (simp_all add: pc_index_register_def)
  have "code_sections (fold (\<lambda>si. fold (\<lambda>f. pc_index_register (fe_func f) si) (funcs (cs ! si))) is st) = code_sections st"
    "total_num_sections (fold (\<lambda>si. fold (\<lambda>f. pc_index_register (fe_func f) si) (funcs (cs ! si))) is st) = total_num_sections st"
    "loaded_sections (fold (\<lambda>si. fold (\<lambda>f. pc_index_register (fe_func f) si) (funcs (cs ! si))) is st) = loaded_sections st"
    "have_patch_sections (fold (\<lambda>si. fold (\<lambda>f. pc_index_register (fe_func f) si) (funcs (cs ! si))) is st) = have_patch_sections st" for "is" st
    by (induction "is" arbitrary: st) (simp_all add: pc)
  then show "code_sections (register_overlays cs n tab st) = cs" "total_num_sections (register_overlays cs n tab st) = n"
    "loaded_sections (register_overlays cs n tab st) = loaded_sections st"
    "have_patch_sections (register_overlays cs n tab st) = have_patch_sections st"
    by (simp_all add: register_overlays_def)
qed

text \<open>The loop of \<^verbatim>\<open>init_overlays\<close>: after \<open>k\<close> rounds the first \<open>k\<close> sections have their link address.\<close>

definition init_round :: "SectionTableEntry list \<Rightarrow> nat \<Rightarrow> overlay_state \<Rightarrow> overlay_state" where
  "init_round cs i st = (let st = secaddr_set (sec_index (cs ! i)) (ram_addr (cs ! i)) st in
     st\<lparr>code_sections_by_rom := (code_sections_by_rom st)(rom_addr (cs ! i) \<mapsto> of_nat i)\<rparr>)"

lemma init_rounds:
  assumes wf: "wf_table cs n" and "k \<le> length cs" "section_addresses st = Some sa" "length sa = n"
  shows "\<exists>sa'. section_addresses (fold (init_round cs) [0..<k] st) = Some sa' \<and> length sa' = n \<and>
      (\<forall>i < k. sa' ! sec_index (cs ! i) = ram_addr (cs ! i)) \<and>
      code_sections (fold (init_round cs) [0..<k] st) = code_sections st \<and>
      total_num_sections (fold (init_round cs) [0..<k] st) = total_num_sections st \<and>
      loaded_sections (fold (init_round cs) [0..<k] st) = loaded_sections st \<and>
      func_map (fold (init_round cs) [0..<k] st) = func_map st \<and>
      have_patch_sections (fold (init_round cs) [0..<k] st) = have_patch_sections st"
  using assms(2)
proof (induction k)
  case 0
  with assms show ?case by simp
next
  case (Suc k)
  let ?s = "fold (init_round cs) [0..<k] st"
  from Suc obtain sa' where sa': "section_addresses ?s = Some sa'" "length sa' = n" "\<forall>i < k. sa' ! sec_index (cs ! i) = ram_addr (cs ! i)"
    and rest: "code_sections ?s = code_sections st" "total_num_sections ?s = total_num_sections st" "loaded_sections ?s = loaded_sections st"
      "func_map ?s = func_map st" "have_patch_sections ?s = have_patch_sections st" by auto
  have k: "k < length cs" using Suc.prems by simp
  note kw = wf_tableD [OF wf k]
  then have "section_addresses (init_round cs k ?s) = Some (sa'[sec_index (cs ! k) := ram_addr (cs ! k)])"
    by (simp add: init_round_def Let_def secaddr_set_addresses sa')
  moreover have "sa'[sec_index (cs ! k) := ram_addr (cs ! k)] ! sec_index (cs ! i) = ram_addr (cs ! i)" if "i < Suc k" for i
    using that addresses_released [OF wf k sa'(2), of i "ram_addr (cs ! k)"] sa'(3) k by (auto simp: less_Suc_eq)
  moreover have "have_patch_sections (init_round cs k ?s) = have_patch_sections ?s"
    by (simp add: init_round_def secaddr_set_def Let_def split: option.split)
  moreover have "code_sections (init_round cs k ?s) = code_sections ?s" "total_num_sections (init_round cs k ?s) = total_num_sections ?s"
    "loaded_sections (init_round cs k ?s) = loaded_sections ?s" "func_map (init_round cs k ?s) = func_map ?s"
    by (simp_all add: init_round_def Let_def)
  ultimately show ?case using sa'(2) rest by simp
qed

lemma wf_table_sort: "wf_table cs n \<Longrightarrow> wf_table (sort_key rom_addr cs) n"
  by (auto simp: wf_table_def list_all_iff distinct_map)

lemma init_overlays_inv:
  assumes "wf_table (code_sections st) (total_num_sections st)" "loaded_sections st = []" "\<not> have_patch_sections st"
  shows "overlay_inv (init_overlays st)"
proof -
  let ?cs = "sort_key rom_addr (code_sections st)"
  let ?st = "st\<lparr>func_map := Map.empty, section_addresses := Some (replicate (total_num_sections st) 0), code_sections := ?cs\<rparr>"
  have wf: "wf_table ?cs (total_num_sections st)" by (rule wf_table_sort [OF assms(1)])
  obtain sa where sa: "section_addresses (fold (init_round ?cs) [0..<length ?cs] ?st) = Some sa" "length sa = total_num_sections st"
    "\<forall>i < length ?cs. sa ! sec_index (?cs ! i) = ram_addr (?cs ! i)"
    and rest: "code_sections (fold (init_round ?cs) [0..<length ?cs] ?st) = ?cs"
      "total_num_sections (fold (init_round ?cs) [0..<length ?cs] ?st) = total_num_sections st"
      "loaded_sections (fold (init_round ?cs) [0..<length ?cs] ?st) = []"
      "func_map (fold (init_round ?cs) [0..<length ?cs] ?st) = Map.empty"
      "\<not> have_patch_sections (fold (init_round ?cs) [0..<length ?cs] ?st)"
    using init_rounds [OF wf order.refl, of ?st] assms by auto
  have "init_overlays st = fold (init_round ?cs) [0..<length ?cs] ?st"
    using rest(5) by (simp add: init_overlays_def load_patch_functions_def init_round_def [abs_def] Let_def)
  then show ?thesis
    using wf sa rest by (simp add: overlay_inv_def loaded_ok_def loaded_lookup_def reloc_base_def)
qed

end
