(* ===== verification/OverlayProps.thy ===== *)
theory OverlayProps
  imports OverlaySpecs
begin

unbundle bit_operations_syntax

text \<open>
  What holds of every operation on the overlay tables, without the placement discipline:
  relocation bases stay word-aligned, fragment registration always succeeds and binds a section
  only where it fits, and a range that ends where a section begins cannot be unloaded.
\<close>

section \<open>Frames of the trampoline operations\<close>

lemma try_install_frame [simp]:
  "section_addresses (snd (try_install_trampoline t g st)) = section_addresses st"
  "loaded_sections (snd (try_install_trampoline t g st)) = loaded_sections st"
  "code_sections (snd (try_install_trampoline t g st)) = code_sections st"
  "pending_trampolines (snd (try_install_trampoline t g st)) = pending_trampolines st"
  by (simp_all add: try_install_trampoline_def Let_def split: option.split)

lemma retry_trampolines_frame:
  "section_addresses (snd (retry_trampolines ps st)) = section_addresses st"
  "loaded_sections (snd (retry_trampolines ps st)) = loaded_sections st"
  "code_sections (snd (retry_trampolines ps st)) = code_sections st"
proof (induction ps arbitrary: st)
  case (Cons p ps)
  { case 1 then show ?case using Cons.IH(1) [of "snd (try_install_trampoline (fst p) (snd p) st)"] by (cases p) (simp add: case_prod_beta) }
  { case 2 then show ?case using Cons.IH(2) [of "snd (try_install_trampoline (fst p) (snd p) st)"] by (cases p) (simp add: case_prod_beta) }
  { case 3 then show ?case using Cons.IH(3) [of "snd (try_install_trampoline (fst p) (snd p) st)"] by (cases p) (simp add: case_prod_beta) }
qed simp_all

lemma retry_pending_frame [simp]:
  "section_addresses (retry_pending_trampolines st) = section_addresses st"
  "loaded_sections (retry_pending_trampolines st) = loaded_sections st"
  "code_sections (retry_pending_trampolines st) = code_sections st"
  using retry_trampolines_frame [of "pending_trampolines st" st]
  by (simp_all add: retry_pending_trampolines_def case_prod_beta)

lemma scan_slot_frame [simp]:
  "section_addresses (scan_slot m d b o' st) = section_addresses st" "loaded_sections (scan_slot m d b o' st) = loaded_sections st"
  "code_sections (scan_slot m d b o' st) = code_sections st"
  using try_install_frame [of "b + o'" "decode_jal_target (read_rdram_u32_be m (b + o')) (d + o' + 4)" st]
  by (auto simp: scan_slot_def Let_def case_prod_beta)

lemma scan_section_frame [simp]:
  "section_addresses (scan_fragment_section_trampolines m i b st) = section_addresses st"
  "loaded_sections (scan_fragment_section_trampolines m i b st) = loaded_sections st"
  "code_sections (scan_fragment_section_trampolines m i b st) = code_sections st"
proof -
  have "section_addresses (fold (scan_slot m d b) os st) = section_addresses st \<and> loaded_sections (fold (scan_slot m d b) os st) = loaded_sections st
     \<and> code_sections (fold (scan_slot m d b) os st) = code_sections st" for d os st
    by (induction os arbitrary: st) simp_all
  then show "section_addresses (scan_fragment_section_trampolines m i b st) = section_addresses st"
    "loaded_sections (scan_fragment_section_trampolines m i b st) = loaded_sections st"
    "code_sections (scan_fragment_section_trampolines m i b st) = code_sections st"
    by (simp_all add: scan_fragment_section_trampolines_def Let_def)
qed

section \<open>Aligned relocation bases\<close>

definition bases_aligned :: "overlay_state \<Rightarrow> bool" where
  "bases_aligned st \<longleftrightarrow> (case section_addresses st of None \<Rightarrow> True | Some sa \<Rightarrow> list_all (\<lambda>v. v AND 3 = 0) sa)"

lemma bases_aligned_cong: "section_addresses st = section_addresses st' \<Longrightarrow> bases_aligned st = bases_aligned st'"
  by (simp add: bases_aligned_def)

lemma aligned_secaddr_set: "bases_aligned st \<Longrightarrow> bases_aligned (secaddr_set i v st)"
  by (auto simp: bases_aligned_def secaddr_set_def list_all_iff split: option.splits dest!: set_update_subset_insert [THEN subsetD])

lemma aligned_fold: "(\<And>x st. bases_aligned st \<Longrightarrow> bases_aligned (g x st)) \<Longrightarrow> bases_aligned st \<Longrightarrow> bases_aligned (fold g xs st)"
  by (induction xs arbitrary: st) simp_all

lemma aligned_release: "bases_aligned st \<Longrightarrow> bases_aligned ((release_section sec b st)\<lparr>loaded_sections := ls\<rparr>)"
  using aligned_secaddr_set [of "st\<lparr>func_map := fm\<rparr>" for fm]
  by (simp add: release_section_def Let_def bases_aligned_def)

lemma aligned_unload: "bases_aligned st \<Longrightarrow> bases_aligned (unload_overlay_by_section_index i st)"
  by (simp add: unload_overlay_by_section_index_def Let_def aligned_release split: option.split)

lemma aligned_load: "bases_aligned st \<Longrightarrow> bases_aligned (load_overlay i b st)"
  by (auto simp: bases_aligned_def load_overlay_fields list_all_iff split: option.splits dest!: set_update_subset_insert [THEN subsetD])

lemma aligned_evict: "bases_aligned st \<Longrightarrow> bases_aligned (evict_overlapping_sections i b st)"
proof (induction i b st rule: evict_overlapping_sections.induct)
  case (1 i b st)
  then show ?case by (subst evict_overlapping_sections.simps) (simp add: aligned_unload split: option.split)
qed

lemma aligned_register_if_new: "bases_aligned st \<Longrightarrow> bases_aligned (register_if_new i b st)"
  by (simp add: register_if_new_def Let_def aligned_load aligned_unload aligned_evict split: option.split)

lemma aligned_load_overlays: "bases_aligned st \<Longrightarrow> load_overlays rom ram sz st = Inr st' \<Longrightarrow> bases_aligned st'"
  by (auto simp: load_overlays_fold split: if_splits intro!: aligned_fold aligned_register_if_new)

lemma aligned_unload_overlays_from: "bases_aligned st \<Longrightarrow> unload_overlays_from ram sz kept its st = Inr st' \<Longrightarrow> bases_aligned st'"
proof (induction its arbitrary: kept st)
  case (Cons it its)
  then show ?case
    using Cons.IH [OF aligned_release [OF Cons.prems(1)]] Cons.IH [OF Cons.prems(1)] by (auto simp: Let_def split: if_splits)
qed simp

lemma aligned_evict_at: "bases_aligned st \<Longrightarrow> bases_aligned (evict_section_at ptr ls st)"
  by (auto simp: evict_section_at_def Let_def bases_aligned_def intro!: aligned_secaddr_set [unfolded bases_aligned_def])

lemma aligned_evict_prior: "bases_aligned st \<Longrightarrow> bases_aligned (evict_prior_at_base ptr skip st)"
  using aligned_fold [of "evict_section_at ptr" st, OF aligned_evict_at]
  by (simp add: evict_prior_at_base_def Let_def bases_aligned_def)

lemma aligned_supersede: "bases_aligned (supersede_prior_range fid ptr st) = bases_aligned st"
  by (simp add: supersede_prior_range_def bases_aligned_def split: option.split)

lemma aligned_leave: "bases_aligned st \<Longrightarrow> bases_aligned (leave_unregistered m fid ptr st)"
  using aligned_supersede [of fid ptr "evict_prior_at_base ptr None st"] aligned_evict_prior [of st ptr None]
  by (simp add: leave_unregistered_def Let_def bases_aligned_def)

lemma install_fragment_addresses: "section_addresses (install_fragment_funcs i ptr st) = section_addresses st"
proof -
  have "section_addresses (fold (\<lambda>fe st. if fe_func fe = 0 then st
      else pc_index_register (fe_func fe) i (st\<lparr>func_map := install_section_func_aliases sec ptr fe (func_map st)\<rparr>)) fs st) = section_addresses st" for fs sec st
    by (induction fs arbitrary: st) simp_all
  then show ?thesis by (simp add: install_fragment_funcs_def Let_def)
qed

text \<open>The index of a synthetic slot is always within the table, so registration never aborts.\<close>

lemma synthetic_bucket_bound: "is_synthetic_addr a \<Longrightarrow> synthetic_bucket_idx a < 512"
proof -
  assume a: "is_synthetic_addr a"
  then have "unat (a - 0xC0000000) = unat a - 0xC0000000" "0xC0000000 \<le> unat a" "unat a < 0xE0000000"
    by (simp_all add: is_synthetic_addr_def unat_sub word_less_nat_alt word_le_nat_alt)
  then show ?thesis by (simp add: synthetic_bucket_idx_def unat_div less_mult_imp_div_less)
qed

definition register_slot :: "nat \<Rightarrow> u32 \<Rightarrow> overlay_state \<Rightarrow> overlay_state" where
  "register_slot i ptr st = (if is_synthetic_addr (ram_addr (section_at st i))
     then st\<lparr>recomp_synthetic_fragments := (recomp_synthetic_fragments st)[synthetic_bucket_idx (ram_addr (section_at st i)) :=
              \<lparr>runtime_base = ptr, slot_size = sec_size (section_at st i), slot_section_index = i, registered = True\<rparr>]\<rparr>
     else st)"

lemma register_synthetic_slot_total: "register_synthetic_slot i ptr st = Inr (register_slot i ptr st)"
  by (simp add: register_synthetic_slot_def register_slot_def Let_def synthetic_bucket_bound)

definition bind_tables :: "rdram \<Rightarrow> u32 \<Rightarrow> u32 \<Rightarrow> nat \<Rightarrow> overlay_state \<Rightarrow> overlay_state" where
  "bind_tables rdram fid ptr i st = (let section = section_at st i;
       st = frag_reg_record rdram fid (ram_addr section) ptr (sec_size section) st;
       st = supersede_prior_range fid ptr (evict_prior_at_base ptr (Some i) st);
       st = secaddr_set (sec_index section) ptr (install_fragment_funcs i ptr st);
       st = register_slot i ptr (st\<lparr>s_frag_live_range := (s_frag_live_range st)(fid \<mapsto> (ptr, sec_size section))\<rparr>);
       st = st\<lparr>loaded_sections := relocate_entry i ptr (loaded_sections st)\<rparr>;
       st = st\<lparr>runtime_fragment_id_to_section := (runtime_fragment_id_to_section st)(fid \<mapsto> i)\<rparr> in
     record_load_order i st)"

lemma bind_fragment_tables:
  "bind_fragment rdram fid ptr i st =
     Inr (retry_pending_trampolines (scan_fragment_section_trampolines rdram i ptr (bind_tables rdram fid ptr i st)))"
  by (simp add: bind_fragment_def bind_tables_def Let_def register_synthetic_slot_total)

lemma register_runtime_fragment_total: "\<exists>st'. register_runtime_fragment m fid ptr st = Inr st'"
  by (simp add: register_runtime_fragment_def bind_fragment_tables split: option.split)

lemma aligned_bind: "bases_aligned st \<Longrightarrow> bind_fragment m fid ptr i st = Inr st' \<Longrightarrow> bases_aligned st'"
proof -
  assume st: "bases_aligned st"
  let ?a = "frag_reg_record m fid (ram_addr (section_at st i)) ptr (sec_size (section_at st i)) st"
  let ?b = "install_fragment_funcs i ptr (supersede_prior_range fid ptr (evict_prior_at_base ptr (Some i) ?a))"
  have "bases_aligned ?a" using st by (simp add: frag_reg_record_def bases_aligned_def Let_def)
  then have "bases_aligned (supersede_prior_range fid ptr (evict_prior_at_base ptr (Some i) ?a))"
    by (simp add: aligned_supersede aligned_evict_prior)
  then have "bases_aligned ?b" using install_fragment_addresses bases_aligned_cong by blast
  then have "bases_aligned (secaddr_set (sec_index (section_at st i)) ptr ?b)" by (rule aligned_secaddr_set)
  then have "bases_aligned (bind_tables m fid ptr i st)"
    by (simp add: bind_tables_def Let_def register_slot_def bases_aligned_def)
  moreover assume "bind_fragment m fid ptr i st = Inr st'"
  ultimately show ?thesis by (auto simp: bind_fragment_tables bases_aligned_def)
qed

lemma aligned_register_fragment: "bases_aligned st \<Longrightarrow> register_runtime_fragment m fid ptr st = Inr st' \<Longrightarrow> bases_aligned st'"
  by (auto simp: register_runtime_fragment_def split: if_splits option.splits intro: aligned_leave aligned_bind)

lemma aligned_scan_loaded: "bases_aligned st \<Longrightarrow> bases_aligned (scan_loaded_fragment_trampolines m rom sz st)"
proof -
  assume st: "bases_aligned st"
  let ?g = "\<lambda>ls st. let sec = section_at st (section_table_index ls) in if rom_addr sec < rom + sz \<and> rom < rom_addr sec + sec_size sec
     then scan_fragment_section_trampolines m (section_table_index ls) (loaded_ram_addr ls) st else st"
  have "bases_aligned (fold ?g (loaded_sections st) st)"
    using st by (intro aligned_fold) (auto simp: Let_def bases_aligned_def)
  then show ?thesis by (simp add: scan_loaded_fragment_trampolines_def bases_aligned_def)
qed

lemma aligned_init: "bases_aligned (init_overlays st)"
proof -
  let ?cs = "sort_key rom_addr (code_sections st)"
  let ?st = "st\<lparr>func_map := Map.empty, section_addresses := Some (replicate (total_num_sections st) 0), code_sections := ?cs\<rparr>"
  have "bases_aligned (init_round ?cs i st)" if "bases_aligned st" for i st
    using aligned_secaddr_set [OF that] by (simp add: init_round_def Let_def bases_aligned_def)
  then have rounds: "bases_aligned (fold (init_round ?cs) [0..<length ?cs] ?st)"
    by (intro aligned_fold) (auto simp: bases_aligned_def list_all_iff)
  have "bases_aligned (load_patch_functions s) = bases_aligned s" for s
  proof -
    have "section_addresses (fold (\<lambda>section. load_special_overlay section (ram_addr section)) xs s) = section_addresses s" for xs
      by (induction xs arbitrary: s) (simp_all add: load_special_overlay_def)
    then show ?thesis by (simp add: load_patch_functions_def bases_aligned_def)
  qed
  with rounds show ?thesis by (simp add: init_overlays_def init_round_def [abs_def] Let_def)
qed

lemma register_overlays_addresses: "section_addresses (register_overlays cs n tab st) = section_addresses st"
proof -
  have pc: "section_addresses (fold (\<lambda>f. pc_index_register (fe_func f) si) fs st) = section_addresses st" for si fs and st :: overlay_state
    by (induction fs arbitrary: st) simp_all
  have "section_addresses (fold (\<lambda>si. fold (\<lambda>f. pc_index_register (fe_func f) si) (funcs (cs ! si))) is st) = section_addresses st" for "is" st
    by (induction "is" arbitrary: st) (simp_all add: pc)
  then show ?thesis by (simp add: register_overlays_def)
qed

text \<open>Any operation of the component, in any order.\<close>

inductive overlay_op :: "overlay_state \<Rightarrow> overlay_state \<Rightarrow> bool" where
  op_register_overlays: "overlay_op st (register_overlays cs n tab st)"
| op_register_patches: "overlay_op st (register_patches patch cs st)"
| op_init: "overlay_op st (init_overlays st)"
| op_add_function: "overlay_op st (add_loaded_function a f st)"
| op_load: "load_overlays rom ram sz st = Inr st' \<Longrightarrow> overlay_op st st'"
| op_unload: "unload_overlays ram sz st = Inr st' \<Longrightarrow> overlay_op st st'"
| op_load_id: "load_overlay_by_id oid ram st = Inr st' \<Longrightarrow> overlay_op st st'"
| op_unload_id: "unload_overlay_by_id oid st = Inr st' \<Longrightarrow> overlay_op st st'"
| op_register_fragment: "register_runtime_fragment m fid ptr st = Inr st' \<Longrightarrow> overlay_op st st'"
| op_unregister_fragment: "overlay_op st (unregister_runtime_fragment fid st)"
| op_scan: "overlay_op st (scan_loaded_fragment_trampolines m rom sz st)"

lemma overlay_op_aligned: "overlay_op st st' \<Longrightarrow> bases_aligned st \<Longrightarrow> bases_aligned st'"
proof (induction rule: overlay_op.induct)
  case (op_load_id oid ram st st')
  then show ?case by (auto simp: load_overlay_by_id_def Let_def split: if_splits option.splits intro: aligned_load aligned_unload)
next
  case (op_unload_id oid st st')
  then show ?case by (auto simp: unload_overlay_by_id_def Let_def split: if_splits intro: aligned_unload)
next
  case (op_unregister_fragment st fid)
  then show ?case by (simp add: unregister_runtime_fragment_def aligned_unload split: option.split)
next
  case (op_register_overlays st cs n tab)
  then show ?case using bases_aligned_cong [OF register_overlays_addresses] by blast
next
  case (op_register_patches st patch cs)
  then show ?case by (simp add: register_patches_def bases_aligned_def)
next
  case (op_add_function st a f)
  then show ?case by (simp add: add_loaded_function_def bases_aligned_def)
qed (auto intro: aligned_load_overlays aligned_init aligned_register_fragment aligned_scan_loaded
       aligned_unload_overlays_from simp: unload_overlays_def)

lemma overlay_ops_aligned: "overlay_op\<^sup>*\<^sup>* st st' \<Longrightarrow> bases_aligned st \<Longrightarrow> bases_aligned st'"
  by (induction rule: rtranclp_induct) (auto intro: overlay_op_aligned)

section \<open>Registration of fragments\<close>

lemma find_mem: "find P xs = Some x \<Longrightarrow> x \<in> set xs"
  by (auto simp: find_Some_iff)

lemma select_candidate_mem: "select_candidate m ptr sz cands st = Some i \<Longrightarrow> i \<in> set cands"
  by (cases cands) (auto simp: select_candidate_def Let_def split: if_splits option.splits dest: find_mem)

lemma select_fragment_bound:
  assumes "select_fragment_section m fid ptr st = Some i"
  shows "i < length (code_sections st)" "extent_ok st (fragment_size_in_ram m ptr) i"
proof -
  have cand: "set (fragment_candidates st fid) \<subseteq> {..<length (code_sections st)}" by (auto simp: fragment_candidates_def)
  have "i < length (code_sections st)" if "select_candidate m ptr sz (fragment_candidates st fid) st = Some i" for sz
    using select_candidate_mem [OF that] cand by auto
  moreover have "i < length (code_sections st)" if "select_by_link_address m ptr sz st = Some i" for sz
    using that by (auto simp: select_by_link_address_def find_Some_iff split: option.splits)
  moreover have "i < length (code_sections st)" if "select_sole_fit sz (fragment_candidates st fid) st = Some i" for sz
  proof -
    have "i \<in> set (filter (\<lambda>i. sec_size (section_at st i) \<le> sz) (fragment_candidates st fid))"
      using that by (simp add: select_sole_fit_def del: filter_eq_Cons_iff set_filter split: if_splits list.splits)
    with cand show ?thesis by auto
  qed
  ultimately show "i < length (code_sections st)"
    using assms by (auto simp: select_fragment_section_def Let_def split: if_splits option.splits)
  show "extent_ok st (fragment_size_in_ram m ptr) i"
    using assms by (auto simp: select_fragment_section_def Let_def split: if_splits option.splits)
qed

lemma evict_section_at_frame [simp]:
  "loaded_sections (evict_section_at ptr ls st) = loaded_sections st" "code_sections (evict_section_at ptr ls st) = code_sections st"
  by (simp_all add: evict_section_at_def Let_def)

lemma evict_prior_frame:
  "loaded_sections (evict_prior_at_base ptr skip st) =
     filter (\<lambda>ls. \<not> (loaded_ram_addr ls = ptr \<and> Some (section_table_index ls) \<noteq> skip)) (loaded_sections st)"
  "code_sections (evict_prior_at_base ptr skip st) = code_sections st"
proof -
  have "code_sections (fold (evict_section_at ptr) xs st) = code_sections st" for xs st
    by (induction xs arbitrary: st) simp_all
  then show "code_sections (evict_prior_at_base ptr skip st) = code_sections st" by (simp add: evict_prior_at_base_def Let_def)
qed (simp add: evict_prior_at_base_def Let_def)

lemma supersede_frame [simp]:
  "loaded_sections (supersede_prior_range fid ptr st) = loaded_sections st" "code_sections (supersede_prior_range fid ptr st) = code_sections st"
  by (simp_all add: supersede_prior_range_def split: option.split)

lemma install_fragment_frame [simp]:
  "loaded_sections (install_fragment_funcs i ptr st) = loaded_sections st" "code_sections (install_fragment_funcs i ptr st) = code_sections st"
proof -
  have "loaded_sections (fold (\<lambda>fe st. if fe_func fe = 0 then st
      else pc_index_register (fe_func fe) i (st\<lparr>func_map := install_section_func_aliases sec ptr fe (func_map st)\<rparr>)) fs st) = loaded_sections st \<and>
    code_sections (fold (\<lambda>fe st. if fe_func fe = 0 then st
      else pc_index_register (fe_func fe) i (st\<lparr>func_map := install_section_func_aliases sec ptr fe (func_map st)\<rparr>)) fs st) = code_sections st" for fs sec st
    by (induction fs arbitrary: st) simp_all
  then show "loaded_sections (install_fragment_funcs i ptr st) = loaded_sections st" "code_sections (install_fragment_funcs i ptr st) = code_sections st"
    by (simp_all add: install_fragment_funcs_def Let_def)
qed

lemma bind_tables_loaded:
  "loaded_sections (bind_tables m fid ptr i st) =
     relocate_entry i ptr (filter (\<lambda>ls. \<not> (loaded_ram_addr ls = ptr \<and> section_table_index ls \<noteq> i)) (loaded_sections st))"
  by (simp add: bind_tables_def Let_def register_slot_def evict_prior_frame frag_reg_record_def)

lemma relocated_index: "section_table_index (a\<lparr>loaded_ram_addr := p\<rparr>) = section_table_index a"
  by simp

lemma relocate_entry_at:
  "ls \<in> set (relocate_entry i ptr xs) \<Longrightarrow> loaded_ram_addr ls = ptr \<Longrightarrow>
     (\<forall>x \<in> set xs. loaded_ram_addr x = ptr \<longrightarrow> section_table_index x = i) \<Longrightarrow> section_table_index ls = i"
proof (induction xs)
  case (Cons a xs)
  show ?case
  proof (cases "section_table_index a = i")
    case True
    then have "ls = a\<lparr>loaded_ram_addr := ptr\<rparr> \<or> ls \<in> set xs" using Cons.prems by simp
    then show ?thesis
    proof
      assume "ls = a\<lparr>loaded_ram_addr := ptr\<rparr>"
      then have "section_table_index ls = section_table_index a" by (simp only: relocated_index)
      with True show ?thesis by simp
    qed (use Cons.prems in auto)
  next
    case False
    then have "ls = a \<or> ls \<in> set (relocate_entry i ptr xs)" using Cons.prems by simp
    then show ?thesis using Cons by auto
  qed
qed simp

lemma relocate_entry_has: "\<exists>ls \<in> set (relocate_entry i ptr xs). loaded_ram_addr ls = ptr \<and> section_table_index ls = i"
  by (induction xs) auto

text \<open>After a registration the fragment's address holds the section that was chosen and no other, or none.\<close>

lemma register_fragment_occupant:
  assumes "have_code_sections st" "ptr \<noteq> 0" "register_runtime_fragment m fid ptr st = Inr st'"
  shows "section_table_index ` {ls \<in> set (loaded_sections st'). loaded_ram_addr ls = ptr} =
     (case select_fragment_section m fid ptr st of None \<Rightarrow> {} | Some i \<Rightarrow> {i})"
proof (cases "select_fragment_section m fid ptr st")
  case None
  then have "st' = leave_unregistered m fid ptr st" using assms by (simp add: register_runtime_fragment_def)
  then have "loaded_sections st' = filter (\<lambda>ls. loaded_ram_addr ls \<noteq> ptr) (loaded_sections st)"
    by (simp add: leave_unregistered_def Let_def evict_prior_frame)
  with None show ?thesis by auto
next
  case (Some i)
  let ?l = "relocate_entry i ptr (filter (\<lambda>ls. \<not> (loaded_ram_addr ls = ptr \<and> section_table_index ls \<noteq> i)) (loaded_sections st))"
  have "loaded_sections st' = ?l"
    using Some assms by (auto simp: register_runtime_fragment_def bind_fragment_tables bind_tables_loaded)
  moreover have "ls \<in> set ?l \<Longrightarrow> loaded_ram_addr ls = ptr \<Longrightarrow> section_table_index ls = i" for ls
    by (erule relocate_entry_at) auto
  moreover obtain ls where "ls \<in> set ?l" "loaded_ram_addr ls = ptr" "section_table_index ls = i"
    using relocate_entry_has by blast
  ultimately have "section_table_index ` {ls \<in> set (loaded_sections st'). loaded_ram_addr ls = ptr} = {i}" by (simp only:) blast
  with Some show ?thesis by (simp only: option.case)
qed

section \<open>Unloading a range that ends at a section\<close>

lemma unload_overlays_from_exit:
  assumes "s \<in> set its" "ram < loaded_ram_addr s + sec_size (section_at st (section_table_index s))" "loaded_ram_addr s \<le> ram + sz"
    "loaded_ram_addr s <s ram \<or> ram + sz < loaded_ram_addr s + sec_size (section_at st (section_table_index s))"
  shows "unload_overlays_from ram sz kept its st = Inl ExitFailure"
  using assms
proof (induction its arbitrary: kept st)
  case (Cons it its)
  show ?case
  proof (cases "s = it")
    case True
    with Cons.prems show ?thesis by (simp add: Let_def)
  next
    case False
    then have s: "s \<in> set its" using Cons.prems(1) by simp
    have "unload_overlays_from ram sz kept its ((release_section (section_at st (section_table_index it)) (loaded_ram_addr it) st)\<lparr>loaded_sections := kept @ its\<rparr>) = Inl ExitFailure"
      using Cons.prems by (intro Cons.IH [OF s]) (simp_all add: release_section_fields)
    with Cons.IH [OF s Cons.prems(2-4), of "kept @ [it]"] show ?thesis by (simp add: Let_def)
  qed
qed simp

end
