(* ===== verification/OverlayClaims.thy ===== *)
theory OverlayClaims
  imports OverlayProps
begin

unbundle bit_operations_syntax

text \<open>
  The properties of section loading and fragment registration, with a small program of three
  sections on which each is applied: \<open>A\<close> is a fragment with a jump slot into \<open>T\<close>, and \<open>B\<close> takes
  the place of \<open>A\<close> in RDRAM.
\<close>

section \<open>A program with three sections\<close>

definition demo_section :: "u32 \<Rightarrow> u32 \<Rightarrow> u32 \<Rightarrow> FuncEntry list \<Rightarrow> nat \<Rightarrow> SectionTableEntry" where
  "demo_section rom ram sz fs i = \<lparr>rom_addr = rom, ram_addr = ram, sec_size = sz, funcs = fs, relocs = [],
     sec_index = i, content_hash = 0, original_pattern_id = 0xFFFFFFFF\<rparr>"

definition demo_table :: "SectionTableEntry list" where
  "demo_table =
     [demo_section 0x1000 0x82000000 0x40 [\<lparr>fe_func = 1, fe_offset = 0x30, fe_rom_size = 16\<rparr>] 0,
      demo_section 0x2000 0x84000000 0x40 [\<lparr>fe_func = 2, fe_offset = 0x20, fe_rom_size = 32\<rparr>] 1,
      demo_section 0x3000 0x83000000 0x10 [\<lparr>fe_func = 3, fe_offset = 0, fe_rom_size = 16\<rparr>] 2]"

text \<open>The initial tables without the rings for synthetic fragments and fragment history, which the program does not use.\<close>

definition demo_empty :: overlay_state where
  "demo_empty = empty_overlay_state\<lparr>recomp_synthetic_fragments := [], s_frag_inst := []\<rparr>"

definition demo_start :: overlay_state where
  "demo_start = init_overlays (register_overlays demo_table 3 [0] demo_empty)"

text \<open>RDRAM given by the big-endian words at physical addresses.\<close>

definition words_at :: "(u32 \<times> u32) list \<Rightarrow> rdram" where
  "words_at ws a = (let p = a XOR 3; w = (case map_of ws (p AND (NOT 3)) of Some w \<Rightarrow> w | None \<Rightarrow> 0) in
     ucast (drop_bit (8 * (3 - unat (p AND 3))) w))"

text \<open>Fragment \<open>A\<close> in RDRAM at 0x80100000: its header and a jump to 0x83000000 in the slot at 0x20.\<close>

definition demo_fragment :: rdram where
  "demo_fragment = words_at [(0x100000, 0x0880000C), (0x100008, 0x46524147), (0x10000C, 0x4D454E54), (0x100010, 0x30),
     (0x10001C, 0x80), (0x100020, 0x08C00000)]"

definition demo_a :: overlay_state where
  "demo_a = projr (load_overlays 0x1000 0x80100000 0x40 demo_start)"

definition demo_ab :: overlay_state where
  "demo_ab = projr (load_overlays 0x2000 0x80100000 0x40 (scan_loaded_fragment_trampolines demo_fragment 0x1000 0x40 demo_a))"

definition demo_abt :: overlay_state where
  "demo_abt = projr (load_overlays 0x3000 0x80200000 0x10 demo_ab)"

lemma demo_inv: "overlay_inv demo_start"
proof -
  have "wf_table demo_table 3" by code_simp
  then show ?thesis unfolding demo_start_def
    by (intro init_overlays_inv) (simp_all add: register_overlays_fields demo_empty_def empty_overlay_state_def)
qed

lemma demo_load_a: "load_overlays 0x1000 0x80100000 0x40 demo_start = Inr demo_a"
  using load_overlays_total [of "0x1000" "0x40" "0x80100000" demo_start] by (auto simp: demo_a_def)


section \<open>Dispatch over a whole run\<close>



section \<open>One transfer\<close>

lemma distinct_around:
  "distinct (filter (\<lambda>i. \<not> P i) [lo..<up] @ (if lo \<noteq> 0 \<and> Q then [lo - 1] else []) @ (if R \<and> S \<and> P lo then [lo] else []))"
  by (cases lo) auto

lemma dma_sections_distinct: "distinct (dma_sections cs rom sz)"
  unfolding dma_sections_def Let_def by (rule distinct_around)

definition bases_disjoint :: "SectionTableEntry list \<Rightarrow> (nat \<Rightarrow> u32) \<Rightarrow> nat list \<Rightarrow> bool" where
  "bases_disjoint cs base is \<longleftrightarrow> list_all (\<lambda>i. list_all (\<lambda>j. i = j \<or>
     \<not> runtime_ranges_overlap (base i) (sec_size (cs ! i)) (base j) (sec_size (cs ! j))) is) is"

lemma fold_register_loaded:
  assumes "overlay_inv st" "distinct is" "bases_disjoint (code_sections st) base is"
    "\<And>i. i \<in> set is \<Longrightarrow> i < length (code_sections st) \<and> placement_ok (section_at st i) (base i)"
  shows "set (loaded_sections (fold (\<lambda>i. register_if_new i (base i)) is st)) =
     (\<lambda>i. \<lparr>loaded_ram_addr = base i, section_table_index = i\<rparr>) ` set is \<union>
     {s \<in> set (loaded_sections st). section_table_index s \<notin> set is \<and> (\<forall>i \<in> set is.
        \<not> runtime_ranges_overlap (base i) (sec_size (section_at st i)) (loaded_ram_addr s) (sec_size (section_at st (section_table_index s))))}"
  using assms
proof (induction "is" arbitrary: st)
  case (Cons i "is")
  let ?r = "register_if_new i (base i) st"
  have "overlay_inv ?r" using Cons.prems by (intro register_keeps_inv) auto
  moreover have "bases_disjoint (code_sections st) base is" using Cons.prems(3) by (simp add: bases_disjoint_def list_all_iff)
  ultimately have IH: "set (loaded_sections (fold (\<lambda>i. register_if_new i (base i)) is ?r)) =
     (\<lambda>i. \<lparr>loaded_ram_addr = base i, section_table_index = i\<rparr>) ` set is \<union>
     {s \<in> set (loaded_sections ?r). section_table_index s \<notin> set is \<and> (\<forall>j \<in> set is.
        \<not> runtime_ranges_overlap (base j) (sec_size (section_at st j)) (loaded_ram_addr s) (sec_size (section_at st (section_table_index s))))}"
    using Cons.IH [of ?r] Cons.prems by simp
  have new: "i \<notin> set is" "\<forall>j \<in> set is. \<not> runtime_ranges_overlap (base j) (sec_size (section_at st j)) (base i) (sec_size (section_at st i))"
    using Cons.prems(2,3) by (auto simp: bases_disjoint_def list_all_iff)
  have "{s \<in> set (loaded_sections ?r). section_table_index s \<notin> set is \<and> (\<forall>j \<in> set is.
        \<not> runtime_ranges_overlap (base j) (sec_size (section_at st j)) (loaded_ram_addr s) (sec_size (section_at st (section_table_index s))))} =
      insert \<lparr>loaded_ram_addr = base i, section_table_index = i\<rparr> {s \<in> set (loaded_sections st). section_table_index s \<notin> set (i # is) \<and> (\<forall>j \<in> set (i # is).
        \<not> runtime_ranges_overlap (base j) (sec_size (section_at st j)) (loaded_ram_addr s) (sec_size (section_at st (section_table_index s))))}"
    using new by (auto simp: register_loaded [OF Cons.prems(1)])
  with IH show ?case by auto
qed simp

text \<open>
  C10. One DMA transfer, of one section, several, or a chunk of a larger one, keeps the invariant and
  leaves loaded exactly the sections it belongs to, at their ROM offset from the start of the
  transfer, and the sections that were loaded before and lie clear of them; every function of the new
  sections is reachable at its runtime address.
\<close>

theorem load_overlays_effect:
  assumes inv: "overlay_inv st" and ok: "dma_ok st rom ram sz" and run: "load_overlays rom ram sz st = Inr st'"
    and disj: "bases_disjoint (code_sections st) (dma_base (code_sections st) rom ram) (dma_sections (code_sections st) rom sz)"
  shows "set (loaded_sections st') =
       (\<lambda>i. \<lparr>loaded_ram_addr = dma_base (code_sections st) rom ram i, section_table_index = i\<rparr>) ` set (dma_sections (code_sections st) rom sz) \<union>
       {s \<in> set (loaded_sections st). section_table_index s \<notin> set (dma_sections (code_sections st) rom sz) \<and>
          (\<forall>i \<in> set (dma_sections (code_sections st) rom sz).
             \<not> runtime_ranges_overlap (dma_base (code_sections st) rom ram i) (sec_size (section_at st i))
                 (loaded_ram_addr s) (sec_size (section_at st (section_table_index s))))} \<and>
     overlay_inv st' \<and>
     (\<forall>i \<in> set (dma_sections (code_sections st) rom sz). \<forall>f \<in> set (funcs (section_at st i)).
        fe_func f \<noteq> 0 \<longrightarrow> func_map st' (dma_base (code_sections st) rom ram i + fe_offset f) = Some (fe_func f))"
proof -
  let ?is = "dma_sections (code_sections st) rom sz" and ?b = "dma_base (code_sections st) rom ram"
  have st': "st' = fold (\<lambda>i. register_if_new i (?b i)) ?is st" using run by (simp add: load_overlays_fold split: if_splits)
  have pl: "i < length (code_sections st) \<and> placement_ok (section_at st i) (?b i)" if "i \<in> set ?is" for i
    using that ok dma_sections_bound by (auto simp: dma_ok_def list_all_iff)
  note loaded = fold_register_loaded [OF inv dma_sections_distinct disj pl, folded st']
  note inv' = load_overlays_keeps_inv [OF inv ok run]
  have cs: "code_sections st' = code_sections st" by (simp add: st')
  have "func_map st' (?b i + fe_offset f) = Some (fe_func f)"
    if i: "i \<in> set ?is" and f: "f \<in> set (funcs (section_at st i))" "fe_func f \<noteq> 0" for i f
  proof -
    let ?s = "\<lparr>loaded_ram_addr = ?b i, section_table_index = i\<rparr> :: LoadedSection"
    have wf: "wf_section (section_at st i)" using wf_tableD [OF overlay_invD(1) [OF inv]] pl [OF i] by blast
    then have "fe_offset f < sec_size (section_at st i)" using f by (simp add: wf_section_def list_all_iff)
    then have "loaded_covers st' ?s (?b i + fe_offset f)" using offset_covers(1) pl [OF i] by (simp add: loaded_covers_def cs)
    moreover have "?s \<in> set (loaded_sections st')" using loaded i by auto
    ultimately have "func_map st' (?b i + fe_offset f) = loaded_entry st' ?s (?b i + fe_offset f)" by (intro overlays.dispatch_placed [OF inv'])
    then show ?thesis using sec_lookup_Some [OF wf f] by (simp add: loaded_entry_def cs)
  qed
  with loaded inv' show ?thesis by blast
qed

theorem load_overlays_effect_witness:
  "overlay_inv demo_a \<and> func_map demo_a 0x80100030 = Some 1 \<and>
     set (loaded_sections demo_a) = {\<lparr>loaded_ram_addr = 0x80100000, section_table_index = 0\<rparr>}"
proof -
  have ok: "dma_ok demo_start 0x1000 0x80100000 0x40" by code_simp
  have disj: "bases_disjoint (code_sections demo_start) (dma_base (code_sections demo_start) 0x1000 0x80100000) (dma_sections (code_sections demo_start) 0x1000 0x40)"
    by code_simp
  have secs: "dma_sections (code_sections demo_start) 0x1000 0x40 = [0]" by code_simp
  have base: "dma_base (code_sections demo_start) 0x1000 0x80100000 0 = 0x80100000" by code_simp
  have none: "loaded_sections demo_start = []" by code_simp
  have fs: "funcs (section_at demo_start 0) = [\<lparr>fe_func = 1, fe_offset = 0x30, fe_rom_size = 16\<rparr>]" by code_simp
  show ?thesis using load_overlays_effect [OF demo_inv ok demo_load_a disj] by (simp add: secs base none fs)
qed

section \<open>Relocation bases\<close>

text \<open>
  C11. Whatever sequence of operations runs, with loads at any address, no entry of the table of
  relocation bases is ever misaligned: the pointers that recompiled code computes from it
  are bases of code.
\<close>

theorem relocation_bases_aligned:
  assumes "overlay_op\<^sup>*\<^sup>* st0 st" and "section_addresses st0 = None" and "section_addresses st = Some sa" and "v \<in> set sa"
  shows "v AND 3 = 0"
proof -
  have "bases_aligned st" using overlay_ops_aligned [OF assms(1)] assms(2) by (simp add: bases_aligned_def)
  with assms(3,4) show ?thesis by (simp add: bases_aligned_def list_all_iff)
qed

theorem relocation_bases_aligned_witness:
  "\<exists>sa. section_addresses (projr (load_overlays 0x1000 0x80100002 0x40 demo_start)) = Some sa \<and>
     sa = [0x82000000, 0x84000000, 0x83000000] \<and> (sa ! 0) AND 3 = 0"
proof -
  let ?st = "projr (load_overlays 0x1000 0x80100002 0x40 demo_start)"
  have sa: "section_addresses ?st = Some [0x82000000, 0x84000000, 0x83000000]" by code_simp
  have "load_overlays 0x1000 0x80100002 0x40 demo_start = Inr ?st"
    using load_overlays_total [of "0x1000" "0x40" "0x80100002" demo_start] by auto
  then have "overlay_op demo_start ?st" by (rule op_load)
  moreover have "overlay_op demo_empty (register_overlays demo_table 3 [0] demo_empty)" by (rule op_register_overlays)
  moreover have "overlay_op (register_overlays demo_table 3 [0] demo_empty) demo_start" unfolding demo_start_def by (rule op_init)
  ultimately have run: "overlay_op\<^sup>*\<^sup>* demo_empty ?st" by (meson r_into_rtranclp rtranclp_trans)
  have "section_addresses demo_empty = None" by (simp add: demo_empty_def empty_overlay_state_def)
  from relocation_bases_aligned [OF run this sa, of "0x82000000"] show ?thesis using sa by simp
qed

section \<open>Fragments\<close>

text \<open>
  C13. Registering a fragment always succeeds, and no section longer than the size the fragment's
  header states is bound at its address: either the chosen section fits, or nothing is left
  there and the interpreter runs the bytes.
\<close>

theorem fragment_binding_fits:
  assumes "have_code_sections st" and "ptr \<noteq> 0" and "psr_size_filter_on st" and "fragment_size_in_ram m ptr \<noteq> 0"
  shows "\<exists>st'. register_runtime_fragment m fid ptr st = Inr st' \<and>
     (\<forall>ls \<in> set (loaded_sections st'). loaded_ram_addr ls = ptr \<longrightarrow>
        sec_size (section_at st (section_table_index ls)) \<le> fragment_size_in_ram m ptr)"
proof -
  obtain st' where st': "register_runtime_fragment m fid ptr st = Inr st'" using register_runtime_fragment_total by blast
  have "sec_size (section_at st (section_table_index ls)) \<le> fragment_size_in_ram m ptr"
    if "ls \<in> set (loaded_sections st')" "loaded_ram_addr ls = ptr" for ls
  proof -
    have "section_table_index ls \<in> (case select_fragment_section m fid ptr st of None \<Rightarrow> {} | Some i \<Rightarrow> {i})"
      using that by (subst register_fragment_occupant [OF assms(1,2) st', symmetric]) blast
    then have "select_fragment_section m fid ptr st = Some (section_table_index ls)" by (simp split: option.splits)
    from select_fragment_bound(2) [OF this] assms(3,4) show ?thesis by (simp add: extent_ok_def)
  qed
  with st' show ?thesis by blast
qed

theorem fragment_binding_fits_witness:
  "\<exists>st'. register_runtime_fragment demo_fragment 0x10 0x80100000 demo_start = Inr st' \<and> fragment_size_in_ram demo_fragment 0x80100000 = 0x80 \<and>
     (\<forall>ls \<in> set (loaded_sections st'). loaded_ram_addr ls = 0x80100000 \<longrightarrow> sec_size (section_at demo_start (section_table_index ls)) \<le> 0x80)"
proof -
  have sz: "fragment_size_in_ram demo_fragment 0x80100000 = 0x80" by code_simp
  have "have_code_sections demo_start" "psr_size_filter_on demo_start" by code_simp+
  from fragment_binding_fits [OF this(1) _ this(2), of "0x80100000" demo_fragment "0x10"] show ?thesis by (simp add: sz)
qed

section \<open>Errors\<close>

text \<open>
  Unloading a range of RDRAM that ends exactly where a loaded section begins terminates the
  process, although the range and the section have no address in common.
\<close>

theorem adjacent_unload_exits:
  assumes "ls \<in> set (loaded_sections st)" and "loaded_ram_addr ls = ram + sz" and "0 < sec_size (section_at st (section_table_index ls))"
    and "unat ram + unat sz + unat (sec_size (section_at st (section_table_index ls))) < 2 ^ 32"
  shows "unload_overlays ram sz st = Inl ExitFailure"
proof -
  have "unat (ram + sz) = unat ram + unat sz" using assms(4) by (simp add: unat_word_ariths)
  moreover have "unat (ram + sz + sec_size (section_at st (section_table_index ls))) =
      unat ram + unat sz + unat (sec_size (section_at st (section_table_index ls)))"
    using assms(4) by (simp add: unat_word_ariths)
  ultimately show ?thesis
    unfolding unload_overlays_def using assms
    by (intro unload_overlays_from_exit [OF assms(1)]) (simp_all add: word_less_nat_alt)
qed

theorem adjacent_unload_exits_witness: "unload_overlays 0x80000000 0x100000 demo_a = Inl ExitFailure"
proof -
  have "\<lparr>loaded_ram_addr = 0x80100000, section_table_index = 0\<rparr> \<in> set (loaded_sections demo_a)" by code_simp
  moreover have "sec_size (section_at demo_a 0) = 0x40" by code_simp
  ultimately show ?thesis
    using adjacent_unload_exits [of "\<lparr>loaded_ram_addr = 0x80100000, section_table_index = 0\<rparr>" demo_a "0x80000000" "0x100000"] by simp
qed

lemma try_install_target:
  assumes "translate_link_time_to_runtime st target = r" "r \<noteq> 0" "func_map st r = Some g"
  shows "fst (try_install_trampoline tramp target st)" "func_map (snd (try_install_trampoline tramp target st)) tramp = Some g"
  using assms by (auto simp: try_install_trampoline_def Let_def split: option.split)

text \<open>
  A trampoline that waits for its target is not dropped when the fragment it belongs to is
  unloaded: once the target is loaded, the address of the slot dispatches to the target even
  when another section is loaded there and has a function of its own at that address.
\<close>

theorem stale_trampoline_overrides:
  assumes "pending_trampolines st = [(tramp, target)]" and "translate_link_time_to_runtime st target = r" and "r \<noteq> 0"
    and "func_map st r = Some g" and "ls \<in> set (loaded_sections st)" and "loaded_entry st ls tramp = Some f"
  shows "func_map (retry_pending_trampolines st) tramp = Some g"
  using try_install_target [OF assms(2-4), of tramp]
  by (simp add: retry_pending_trampolines_def assms(1) case_prod_beta)

text \<open>What the run of \<open>A\<close>, \<open>B\<close> and \<open>T\<close> leaves, evaluated once.\<close>

definition stale_facts :: "overlay_state \<Rightarrow> (u32 \<times> u32) list \<times> u32 \<times> u64 option \<times> u64 option \<times> bool \<times> u64 option" where
  "stale_facts st = (pending_trampolines st, translate_link_time_to_runtime st 0x83000000, func_map st 0x80200000, func_map st 0x80100020,
     \<lparr>loaded_ram_addr = 0x80100000, section_table_index = 1\<rparr> \<in> set (loaded_sections st),
     loaded_entry st \<lparr>loaded_ram_addr = 0x80100000, section_table_index = 1\<rparr> 0x80100020)"

lemma demo_abt_facts: "stale_facts demo_abt = ([(0x80100020, 0x83000000)], 0x80200000, Some 3, Some 2, True, Some 2)"
  by code_simp

theorem stale_trampoline_overrides_witness:
  "func_map demo_abt 0x80100020 = Some 2 \<and>
   loaded_entry demo_abt \<lparr>loaded_ram_addr = 0x80100000, section_table_index = 1\<rparr> 0x80100020 = Some 2 \<and>
   func_map (retry_pending_trampolines demo_abt) 0x80100020 = Some 3"
proof -
  let ?ls = "\<lparr>loaded_ram_addr = 0x80100000, section_table_index = 1\<rparr> :: LoadedSection"
  note f = demo_abt_facts [unfolded stale_facts_def prod.inject]
  have p: "pending_trampolines demo_abt = [(0x80100020, 0x83000000)]" and t: "translate_link_time_to_runtime demo_abt 0x83000000 = 0x80200000"
    and g: "func_map demo_abt 0x80200000 = Some 3" "func_map demo_abt 0x80100020 = Some 2"
    and l: "?ls \<in> set (loaded_sections demo_abt)" and e: "loaded_entry demo_abt ?ls 0x80100020 = Some 2"
    using f by simp_all
  show ?thesis using stale_trampoline_overrides [OF p t _ g(1) l e] g e by simp
qed

end
