(* ===== verification/FragmentTier.thy ===== *)
theory FragmentTier
  imports OverlayLookup
begin

unbundle bit_operations_syntax

text \<open>
  Dispatch of a guest address (\<^verbatim>\<open>overlays.cpp\<close>): \<open>get_function\<close> and the trampoline it returns for an
  address without a function, which tries the resident function around the address, the just-in-time
  compiler, fragment code compiled and validated against the interpreter, and the interpreter. Calls of
  recompiled code and of the interpreter may re-enter dispatch and change every table, so in the model they act on
  the whole system state; they are fields of the environment, as are the bounds discovery
  and the code generator of the recompiler. Log files and console output are left out, apart from
  the records of the interpreter log.
\<close>

section \<open>State\<close>

record 'x recomp_context =
  gprs :: "nat \<Rightarrow> u64"
  fprs :: "nat \<Rightarrow> u64"
  hi_reg :: u64
  lo_reg :: u64
  dispatch_entry_target :: u32
  dispatch_entry_rejected :: u32
  dispatch_entry_rejected_target :: u32
  host_part :: 'x

record FragmentCandidate =
  fc_addr :: u32
  fc_content_hash :: u64
  code_lo :: u32
  code_len :: u32
  fc_fn :: u64
  diff_passes :: u32
  device_touch :: bool
  blacklisted :: bool

record InterpFallback =
  fb_reason :: nat
  chronic_logged :: bool
  first_frame :: u64
  last_frame :: u64
  distinct_frames :: u64
  fb_hit_count :: u64

record LookupCapture =
  missed_addr :: u32
  cap_hit_count :: u64
  enclosing_found :: bool
  match_kind :: string
  cap_section_index :: nat
  cap_link_base :: u32
  cap_runtime_base :: u32
  section_size :: u32
  offset_in_section :: u32
  cap_content_hash :: u64
  cap_original_pattern_id :: u32
  load_order :: u64
  offset_is_known_func :: bool
  reloc_at_offset :: bool
  reloc_type :: "RelocEntryType option"
  reloc_target_section :: u16
  reloc_target_offset :: u32
  classification :: string

datatype tier_counter = StaticHits | LookupMisses | SelfHeals | SelfHealMisses | DispatchEntryRejects | JitCompiles | JitFailures
  | InterpRuns | FragCandidates | FragReloaded | FragDiffClean | FragDiffDiverge | FragDeviceTouch | FragPromoted | FragNativeRuns

datatype interp_event = EventNew | EventChronic

record 'x sys =
  ctx :: "'x recomp_context"
  mem :: rdram
  ovl :: overlay_state
  g_frag_cands :: "u32 \<Rightarrow> FragmentCandidate list"
  g_evicted_funcs :: "u32 \<rightharpoonup> u64"
  g_jit_entries :: "u64 list"
  g_lookup_captures :: "u32 \<rightharpoonup> LookupCapture"
  g_interp_fb :: "u32 \<rightharpoonup> InterpFallback"
  interp_log :: "(interp_event \<times> u32) list"
  tier_count :: "tier_counter \<Rightarrow> u64"
  total_vis :: u64
  g_self_heal_addr :: u32
  g_last_lookup_miss_addr :: u32
  g_reject_interp_depth :: int
  t_shadow_active :: bool
  t_shadow_touched_native :: bool

record 'x tier_env =
  recomp_interpret_function :: "u32 \<Rightarrow> 'x sys \<Rightarrow> bool \<times> 'x sys"
  call_host :: "u64 \<Rightarrow> 'x sys \<Rightarrow> 'x sys"
  discover_function_bounds :: "u8 list \<Rightarrow> u32 \<Rightarrow> u32 option"
  codegen_function :: "u32 \<Rightarrow> u32 list \<Rightarrow> u64"
  frag_jit_enabled :: bool
  frag_native_enabled :: bool
  frag_diff_budget :: u32
  jit_tier_enabled :: bool
  interp_enabled :: bool
  recomp_interp_discovery_enabled :: bool

definition bump :: "tier_counter \<Rightarrow> 'x sys \<Rightarrow> 'x sys" where
  "bump c s = s\<lparr>tier_count := (tier_count s)(c := tier_count s c + 1)\<rparr>"

section \<open>Lookup and its misses\<close>

definition empty_capture :: "u32 \<Rightarrow> LookupCapture" where
  "empty_capture addr = \<lparr>missed_addr = addr, cap_hit_count = 0, enclosing_found = False, match_kind = ''none'', cap_section_index = 0,
     cap_link_base = 0, cap_runtime_base = 0, section_size = 0, offset_in_section = 0, cap_content_hash = 0,
     cap_original_pattern_id = 0xFFFFFFFF, load_order = 0, offset_is_known_func = False, reloc_at_offset = False,
     reloc_type = None, reloc_target_section = 0, reloc_target_offset = 0, classification = ''unknown''\<rparr>"

definition classify_lookup_capture :: "overlay_state \<Rightarrow> u32 \<Rightarrow> LookupCapture" where
  "classify_lookup_capture st addr = (let out = empty_capture addr;
       in_runtime = (\<lambda>ls. loaded_ram_addr ls \<le> addr \<and> addr < loaded_ram_addr ls + sec_size (section_at st (section_table_index ls)));
       in_link = (\<lambda>ls. let sec = section_at st (section_table_index ls) in ram_addr sec \<le> addr \<and> addr < ram_addr sec + sec_size sec) in
     if \<not> have_code_sections st then out\<lparr>classification := ''no-sections''\<rparr>
     else case find (\<lambda>ls. in_runtime ls \<or> in_link ls) (loaded_sections st) of
       None \<Rightarrow> out\<lparr>classification := ''outside-loaded''\<rparr>
     | Some ls \<Rightarrow> (let sec = section_at st (section_table_index ls);
           off = (if in_runtime ls then addr - loaded_ram_addr ls else addr - ram_addr sec);
           out = out\<lparr>enclosing_found := True, match_kind := (if in_runtime ls then ''runtime'' else ''link''),
             cap_section_index := section_table_index ls, cap_link_base := ram_addr sec, cap_runtime_base := loaded_ram_addr ls,
             section_size := sec_size sec, offset_in_section := off, cap_content_hash := content_hash sec,
             cap_original_pattern_id := original_pattern_id sec, load_order := get_load_order st (section_table_index ls),
             offset_is_known_func := list_ex (\<lambda>f. fe_offset f = off) (funcs sec)\<rparr> in
         case find (\<lambda>r. re_offset r = off) (relocs sec) of
           None \<Rightarrow> out\<lparr>classification := ''code-entry''\<rparr>
         | Some r \<Rightarrow> out\<lparr>reloc_at_offset := True, reloc_type := Some (re_type r), reloc_target_section := target_section r,
             reloc_target_offset := target_section_offset r, classification := ''pointer-site''\<rparr>))"

definition capture_miss :: "u32 \<Rightarrow> 'x sys \<Rightarrow> 'x sys" where
  "capture_miss addr s = (let
       cap = (case g_lookup_captures s addr of Some cap \<Rightarrow> cap | None \<Rightarrow> classify_lookup_capture (ovl s) addr) in
     s\<lparr>g_lookup_captures := (g_lookup_captures s)(addr \<mapsto> cap\<lparr>cap_hit_count := cap_hit_count cap + 1\<rparr>)\<rparr>)"

datatype dispatched = HostFunction u64 | UnhandledLookupTrampoline

definition get_function :: "u32 \<Rightarrow> 'x sys \<Rightarrow> dispatched \<times> 'x sys" where
  "get_function addr s =
     (case func_map (ovl s) addr of
        None \<Rightarrow> (UnhandledLookupTrampoline,
          (capture_miss addr (bump LookupMisses s))\<lparr>g_last_lookup_miss_addr := addr, g_self_heal_addr := addr\<rparr>)
      | Some f \<Rightarrow> (HostFunction f, bump StaticHits s))"

definition recomp_capture_interp_target :: "'x tier_env \<Rightarrow> u32 \<Rightarrow> 'x sys \<Rightarrow> 'x sys" where
  "recomp_capture_interp_target E addr s =
     (if \<not> recomp_interp_discovery_enabled E then s
      else if func_map (ovl s) addr \<noteq> None then s
      else capture_miss addr s)"

section \<open>Accounting of interpreter runs\<close>

definition note_interp_fallback :: "u32 \<Rightarrow> nat \<Rightarrow> 'x sys \<Rightarrow> 'x sys" where
  "note_interp_fallback addr reason s = (let s = bump InterpRuns s; frame = total_vis s in
     case g_interp_fb s addr of
       None \<Rightarrow> s\<lparr>g_interp_fb := (g_interp_fb s)(addr \<mapsto>
           \<lparr>fb_reason = reason, chronic_logged = False, first_frame = frame, last_frame = frame, distinct_frames = 1, fb_hit_count = 1\<rparr>),
         interp_log := interp_log s @ [(EventNew, addr)]\<rparr>
     | Some fb \<Rightarrow> (let fb = fb\<lparr>distinct_frames := (if frame \<noteq> last_frame fb then distinct_frames fb + 1 else distinct_frames fb),
             last_frame := frame, fb_hit_count := fb_hit_count fb + 1\<rparr>;
           chronic = (\<not> chronic_logged fb \<and> first_frame fb + 30 \<le> frame) in
         s\<lparr>g_interp_fb := (g_interp_fb s)(addr \<mapsto> fb\<lparr>chronic_logged := chronic_logged fb \<or> chronic\<rparr>),
           interp_log := (if chronic then interp_log s @ [(EventChronic, addr)] else interp_log s)\<rparr>))"

section \<open>Resident code around an address\<close>

definition addr_in_resident_static_section :: "overlay_state \<Rightarrow> u32 \<Rightarrow> bool" where
  "addr_in_resident_static_section st addr \<longleftrightarrow> have_code_sections st \<and>
     list_ex (\<lambda>sec. \<not> is_synthetic_addr (ram_addr sec) \<and> \<not> (ram_addr sec < 0x80000000 \<or> 0x80800000 \<le> ram_addr sec) \<and>
        ram_addr sec \<le> addr \<and> addr < ram_addr sec + sec_size sec) (code_sections st)"

text \<open>The base of the first of the link, runtime and synthetic ranges that holds the address.\<close>

definition enclosing_link_base :: "SectionTableEntry \<Rightarrow> u32" where
  "enclosing_link_base sec =
     (if is_synthetic_addr (ram_addr sec)
      then case section_original_fragment_base sec of Some orig \<Rightarrow> orig | None \<Rightarrow> ram_addr sec
      else ram_addr sec)"

definition enclosing_base :: "overlay_state \<Rightarrow> u32 \<Rightarrow> LoadedSection \<Rightarrow> u32 option" where
  "enclosing_base st addr ls = (let sec = section_at st (section_table_index ls); within = (\<lambda>b. b \<le> addr \<and> addr < b + sec_size sec) in
     if within (enclosing_link_base sec) then Some (enclosing_link_base sec)
     else if within (loaded_ram_addr ls) then Some (loaded_ram_addr ls)
     else if within (ram_addr sec) then Some (ram_addr sec) else None)"

definition find_resident_enclosing_function :: "overlay_state \<Rightarrow> u32 \<Rightarrow> (u64 \<times> u32 \<times> u32) option" where
  "find_resident_enclosing_function st addr =
     (if \<not> have_code_sections st then None
      else first_some (\<lambda>ls. let sec = section_at st (section_table_index ls) in
        case enclosing_base st addr ls of
          None \<Rightarrow> None
        | Some base \<Rightarrow> (let off = addr - base in
            map_option (\<lambda>fe. (fe_func fe, enclosing_link_base sec + off, enclosing_link_base sec + fe_offset fe))
              (find (\<lambda>fe. fe_func fe \<noteq> 0 \<and> fe_offset fe \<le> off \<and> off < fe_offset fe + fe_rom_size fe) (funcs sec))))
       (loaded_sections st))"

section \<open>Fragment code\<close>

definition fragment_live_code_hash :: "rdram \<Rightarrow> u32 \<Rightarrow> u32 \<Rightarrow> u64" where
  "fragment_live_code_hash m addr len = (let paddr = addr AND 0x1FFFFFFF in
     fold (\<lambda>i h. (h XOR ucast (m ((paddr + of_nat i) XOR 3))) * 0x00000100000001B3) [0..<unat len] 0xCBF29CE484222325)"

definition leaf_word_ok :: "u32 \<Rightarrow> u32 \<Rightarrow> u32 \<Rightarrow> u32 \<Rightarrow> bool" where
  "leaf_word_ok lo len off w = (let op = drop_bit 26 w; fn = w AND 0x3F in
     if op = 0x03 then False
     else if op = 0x02 \<and> (let tgt = ((lo + off) AND 0xF0000000) OR push_bit 2 (w AND 0x03FFFFFF) in tgt < lo \<or> lo + len \<le> tgt) then False
     else if op = 0x00 \<and> fn = 0x09 then False
     else if op = 0x00 \<and> fn = 0x08 \<and> drop_bit 21 w AND 0x1F \<noteq> 31 then False
     else True)"

definition fragment_is_safe_leaf :: "rdram \<Rightarrow> u32 \<Rightarrow> u32 \<Rightarrow> bool" where
  "fragment_is_safe_leaf m lo len = (let pbase = lo AND 0x1FFFFFFF in
     list_all (\<lambda>k. let off = 4 * of_nat k;
         w = fold (\<lambda>b w. push_bit 8 w OR ucast (m ((pbase + off + of_nat b) XOR 3))) [0..<4] 0 in
       leaf_word_ok lo len off w) [0..<unat len div 4])"

definition shadow_regs_equal :: "'x recomp_context \<Rightarrow> 'x recomp_context \<Rightarrow> bool" where
  "shadow_regs_equal a b \<longleftrightarrow> list_all (\<lambda>i. gprs a i = gprs b i) [1..<32] \<and> list_all (\<lambda>i. fprs a i = fprs b i) [0..<32] \<and>
     hi_reg a = hi_reg b \<and> lo_reg a = lo_reg b"

text \<open>\<^verbatim>\<open>memcpy\<close> and \<^verbatim>\<open>memcmp\<close> over the first 8 MiB.\<close>

definition copy_ram :: "rdram \<Rightarrow> rdram \<Rightarrow> rdram" where
  "copy_ram src dst = (\<lambda>a. if a < 0x800000 then src a else dst a)"

definition ram_equal :: "rdram \<Rightarrow> rdram \<Rightarrow> bool" where
  "ram_equal m m' \<longleftrightarrow> (\<forall>a < 0x800000. m a = m' a)"

record ShadowDiffOutcome =
  interp_ok :: bool
  o_device_touch :: bool
  ran_native :: bool
  clean :: bool

definition run_shadow_diff :: "'x tier_env \<Rightarrow> u32 \<Rightarrow> u64 \<Rightarrow> 'x sys \<Rightarrow> ShadowDiffOutcome \<times> 'x sys" where
  "run_shadow_diff E addr fn s = (let ctx0 = ctx s; ram0 = mem s in
     case recomp_interpret_function E addr (s\<lparr>t_shadow_touched_native := False, t_shadow_active := True\<rparr>) of (ok, s) \<Rightarrow>
     let s = s\<lparr>t_shadow_active := False\<rparr> in
     if \<not> ok then (\<lparr>interp_ok = False, o_device_touch = False, ran_native = False, clean = False\<rparr>,
       s\<lparr>ctx := ctx0, mem := copy_ram ram0 (mem s)\<rparr>)
     else if t_shadow_touched_native s then (\<lparr>interp_ok = True, o_device_touch = True, ran_native = False, clean = False\<rparr>, s)
     else let ctxI = ctx s; ramI = mem s;
           s = call_host E fn (s\<lparr>ctx := ctx0, mem := copy_ram ram0 (mem s)\<rparr>) in
       (\<lparr>interp_ok = True, o_device_touch = False, ran_native = True, clean = shadow_regs_equal (ctx s) ctxI \<and> ram_equal (mem s) ramI\<rparr>,
        s\<lparr>ctx := ctxI, mem := copy_ram ramI (mem s)\<rparr>))"

text \<open>The first candidate with the hash is updated.\<close>

fun update_candidate :: "u64 \<Rightarrow> (FragmentCandidate \<Rightarrow> FragmentCandidate) \<Rightarrow> FragmentCandidate list \<Rightarrow> FragmentCandidate list" where
  "update_candidate h g [] = []"
| "update_candidate h g (c # cs) = (if fc_content_hash c = h then g c # cs else c # update_candidate h g cs)"

definition find_candidate :: "'x sys \<Rightarrow> u32 \<Rightarrow> u64 \<Rightarrow> FragmentCandidate option" where
  "find_candidate s faddr h = find (\<lambda>c. fc_content_hash c = h) (g_frag_cands s faddr)"

definition modify_candidate :: "u32 \<Rightarrow> u64 \<Rightarrow> (FragmentCandidate \<Rightarrow> FragmentCandidate) \<Rightarrow> 'x sys \<Rightarrow> 'x sys" where
  "modify_candidate faddr h g s = s\<lparr>g_frag_cands := (g_frag_cands s)(faddr := update_candidate h g (g_frag_cands s faddr))\<rparr>"

definition diff_counters :: "u32 \<Rightarrow> ShadowDiffOutcome \<Rightarrow> FragmentCandidate \<Rightarrow> tier_counter list" where
  "diff_counters budget out c =
     (if o_device_touch out then if device_touch c then [] else [FragDeviceTouch]
      else if ran_native out then
        if clean out then FragDiffClean # (if diff_passes c < budget \<and> diff_passes c + 1 = budget then [FragPromoted] else [])
        else [FragDiffDiverge]
      else [])"

definition apply_outcome :: "u32 \<Rightarrow> ShadowDiffOutcome \<Rightarrow> FragmentCandidate \<Rightarrow> FragmentCandidate" where
  "apply_outcome budget out c =
     (if o_device_touch out then c\<lparr>device_touch := True\<rparr>
      else if ran_native out then
        if clean out then if diff_passes c < budget then c\<lparr>diff_passes := diff_passes c + 1\<rparr> else c
        else c\<lparr>diff_passes := 0\<rparr>
      else c)"

definition frag_apply_diff_outcome :: "'x tier_env \<Rightarrow> u32 \<Rightarrow> u64 \<Rightarrow> ShadowDiffOutcome \<Rightarrow> 'x sys \<Rightarrow> 'x sys" where
  "frag_apply_diff_outcome E faddr h out s =
     (case find_candidate s faddr h of
        None \<Rightarrow> s
      | Some c \<Rightarrow> fold bump (diff_counters (frag_diff_budget E) out c)
          (modify_candidate faddr h (apply_outcome (frag_diff_budget E) out) s))"

section \<open>Just-in-time compilation\<close>

definition code_window :: "rdram \<Rightarrow> u32 \<Rightarrow> u8 list" where
  "code_window m vram = (let pbase = vram AND 0x1FFFFFFF;
       window = (if 0x00800000 < pbase + 0x8000 then 0x00800000 - pbase else 0x8000) in
     map (\<lambda>i. m ((pbase + of_nat i) XOR 3)) [0..<unat window])"

definition discovered_size :: "'x tier_env \<Rightarrow> rdram \<Rightarrow> u32 \<Rightarrow> u32 option" where
  "discovered_size E m vram = (let body = code_window m vram in
     if length body < 8 then None
     else case discover_function_bounds E body vram of
       None \<Rightarrow> None
     | Some sz \<Rightarrow> if sz < 8 \<or> sz AND 3 \<noteq> 0 \<or> length body < unat sz then None else Some sz)"

text \<open>The words handed to the code generator, host (little) endian.\<close>

definition code_words :: "u8 list \<Rightarrow> u32 \<Rightarrow> u32 list" where
  "code_words body sz = map (\<lambda>w. ucast (body ! (4 * w)) OR push_bit 8 (ucast (body ! (4 * w + 1))) OR
     push_bit 16 (ucast (body ! (4 * w + 2))) OR push_bit 24 (ucast (body ! (4 * w + 3)))) [0..<unat sz div 4]"

definition jit_compile_inner :: "'x tier_env \<Rightarrow> u32 \<Rightarrow> bool \<Rightarrow> bool \<Rightarrow> 'x sys \<Rightarrow> u64 \<times> 'x sys" where
  "jit_compile_inner E vram keep register_in_map s =
     (if vram < 0x80000000 \<or> 0x80800000 \<le> vram then (0, s)
      else case discovered_size E (mem s) vram of
        None \<Rightarrow> (0, s)
      | Some sz \<Rightarrow> (let jitted = codegen_function E vram (code_words (code_window (mem s) vram) sz) in
          if jitted = 0 then (0, s)
          else if \<not> keep then (1, s)
          else let s = s\<lparr>g_jit_entries := g_jit_entries s @ [jitted]\<rparr> in
            (jitted, if register_in_map then s\<lparr>ovl := add_loaded_function vram jitted (ovl s)\<rparr> else s)))"

section \<open>The tiers of the lookup-miss trampoline\<close>

datatype 'x tier_result = Handled "'x sys" | FallThrough "'x sys"

definition tier_self_heal :: "'x tier_env \<Rightarrow> 'x sys \<Rightarrow> 'x tier_result" where
  "tier_self_heal E s = (let addr = g_self_heal_addr s in
     case find_resident_enclosing_function (ovl s) addr of
       None \<Rightarrow> FallThrough s
     | Some (host, link_target, func_start_link) \<Rightarrow> (let
         saved = dispatch_entry_target (ctx s);
         s = bump SelfHeals s;
         s = s\<lparr>ctx := (ctx s)\<lparr>dispatch_entry_target := (if link_target = func_start_link then 0 else link_target),
                dispatch_entry_rejected := 0, dispatch_entry_rejected_target := 0\<rparr>\<rparr>;
         s = call_host E host s in
       if dispatch_entry_rejected (ctx s) = 0 then Handled (s\<lparr>ctx := (ctx s)\<lparr>dispatch_entry_target := saved\<rparr>\<rparr>)
       else let s = bump DispatchEntryRejects (s\<lparr>ctx := (ctx s)\<lparr>dispatch_entry_rejected := 0, dispatch_entry_rejected_target := 0,
                  dispatch_entry_target := saved\<rparr>\<rparr>) in
         if g_reject_interp_depth s < 96
         then case recomp_interpret_function E addr (s\<lparr>g_reject_interp_depth := g_reject_interp_depth s + 1\<rparr>) of (ok, s) \<Rightarrow>
           let s = s\<lparr>g_reject_interp_depth := g_reject_interp_depth s - 1\<rparr> in
           if ok then Handled (note_interp_fallback addr 0 s) else FallThrough s
         else FallThrough s))"

definition tier_jit :: "'x tier_env \<Rightarrow> 'x sys \<Rightarrow> 'x tier_result" where
  "tier_jit E s =
     (if jit_tier_enabled E \<and> addr_in_resident_static_section (ovl s) (g_self_heal_addr s)
      then case jit_compile_inner E (g_self_heal_addr s) True True s of (jitted, s) \<Rightarrow>
        if jitted \<noteq> 0 then Handled (call_host E jitted (bump JitCompiles s)) else FallThrough (bump JitFailures s)
      else FallThrough s)"

definition tier_evicted :: "'x tier_env \<Rightarrow> 'x sys \<Rightarrow> 'x tier_result" where
  "tier_evicted E s = (let addr = g_self_heal_addr s in
     case g_evicted_funcs s addr of
       None \<Rightarrow> FallThrough s
     | Some f \<Rightarrow> (let s = s\<lparr>ovl := add_loaded_function addr f (ovl s), g_evicted_funcs := (g_evicted_funcs s)(addr := None)\<rparr> in
         if f \<noteq> 0 then Handled (call_host E f s) else FallThrough s))"

definition live_candidate :: "'x sys \<Rightarrow> u32 \<Rightarrow> FragmentCandidate option" where
  "live_candidate s faddr = find (\<lambda>c. 0 < code_len c \<and> fragment_live_code_hash (mem s) (code_lo c) (code_len c) = fc_content_hash c)
     (g_frag_cands s faddr)"

definition new_candidate :: "'x tier_env \<Rightarrow> u32 \<Rightarrow> 'x sys \<Rightarrow> FragmentCandidate option \<times> 'x sys" where
  "new_candidate E faddr s =
     (case discovered_size E (mem s) faddr of
        None \<Rightarrow> (None, s)
      | Some sz \<Rightarrow> (let
          c = \<lparr>fc_addr = faddr, fc_content_hash = fragment_live_code_hash (mem s) faddr sz, code_lo = faddr, code_len = sz,
               fc_fn = 0, diff_passes = 0, device_touch = False, blacklisted = False\<rparr>;
          (c, s) = (if frag_native_enabled E then
             if fragment_is_safe_leaf (mem s) faddr sz
             then case jit_compile_inner E faddr True False s of (fn, s) \<Rightarrow> (c\<lparr>fc_fn := fn\<rparr>, s)
             else (c\<lparr>device_touch := True\<rparr>, s)
            else (c, s));
          s = s\<lparr>g_frag_cands := (g_frag_cands s)(faddr := g_frag_cands s faddr @ [c])\<rparr>;
          s = bump FragCandidates s in
        (Some c, if device_touch c then bump FragDeviceTouch s else s)))"

text \<open>A live candidate without native code is compiled now, or pinned to the interpreter when it is not a leaf.\<close>

definition arm_candidate :: "'x tier_env \<Rightarrow> u32 \<Rightarrow> FragmentCandidate \<Rightarrow> 'x sys \<Rightarrow> FragmentCandidate \<times> 'x sys" where
  "arm_candidate E faddr c s = (let h = fc_content_hash c in
     if frag_native_enabled E \<and> fc_fn c = 0 \<and> \<not> device_touch c \<and> \<not> blacklisted c \<and> 0 < code_len c then
       if fragment_is_safe_leaf (mem s) (code_lo c) (code_len c)
       then case jit_compile_inner E faddr True False s of (fn, s) \<Rightarrow>
         if fn \<noteq> 0 \<and> find_candidate s faddr h \<noteq> None
         then (c\<lparr>fc_fn := fn\<rparr>, modify_candidate faddr h (\<lambda>c. c\<lparr>fc_fn := fn\<rparr>) s) else (c, s)
       else case find_candidate s faddr h of
         None \<Rightarrow> (c, s)
       | Some c' \<Rightarrow> (c\<lparr>device_touch := True\<rparr>,
           modify_candidate faddr h (\<lambda>c. c\<lparr>device_touch := True\<rparr>) (if device_touch c' then s else bump FragDeviceTouch s))
     else (c, s))"

definition run_candidate :: "'x tier_env \<Rightarrow> u32 \<Rightarrow> FragmentCandidate \<Rightarrow> 'x sys \<Rightarrow> 'x tier_result" where
  "run_candidate E faddr c s =
     (if fc_fn c \<noteq> 0 \<and> \<not> device_touch c \<and> \<not> blacklisted c then
        if frag_diff_budget E \<le> diff_passes c then Handled (bump FragNativeRuns (call_host E (fc_fn c) s))
        else case run_shadow_diff E faddr (fc_fn c) s of (out, s) \<Rightarrow>
          if interp_ok out then Handled (note_interp_fallback faddr 2 (frag_apply_diff_outcome E faddr (fc_content_hash c) out s))
          else FallThrough s
      else if device_touch c \<or> blacklisted c then
        case recomp_interpret_function E faddr s of (ok, s) \<Rightarrow>
          if ok then Handled (note_interp_fallback faddr 1 s) else FallThrough s
      else FallThrough s)"

definition tier_fragment :: "'x tier_env \<Rightarrow> 'x sys \<Rightarrow> 'x tier_result" where
  "tier_fragment E s = (let faddr = g_self_heal_addr s in
     if frag_jit_enabled E \<and> \<not> t_shadow_active s \<and> 0x80000000 \<le> faddr \<and> faddr < 0x80800000 \<and>
        \<not> addr_in_resident_static_section (ovl s) faddr
     then case (case live_candidate s faddr of
                  None \<Rightarrow> new_candidate E faddr s
                | Some c \<Rightarrow> (case arm_candidate E faddr c s of (c, s) \<Rightarrow> (Some c, s))) of
            (None, s) \<Rightarrow> FallThrough s
          | (Some c, s) \<Rightarrow> if frag_native_enabled E then run_candidate E faddr c s else FallThrough s
     else FallThrough s)"

definition tier_interp :: "'x tier_env \<Rightarrow> 'x sys \<Rightarrow> 'x tier_result" where
  "tier_interp E s =
     (if interp_enabled E
      then case recomp_interpret_function E (g_self_heal_addr s) s of (ok, s) \<Rightarrow>
        if ok then Handled (note_interp_fallback (g_self_heal_addr s) 3 s) else FallThrough s
      else FallThrough s)"

definition and_then :: "'x tier_result \<Rightarrow> ('x sys \<Rightarrow> 'x tier_result) \<Rightarrow> 'x tier_result" where
  "and_then r k = (case r of Handled s \<Rightarrow> Handled s | FallThrough s \<Rightarrow> k s)"

definition unhandled_lookup_trampoline :: "'x tier_env \<Rightarrow> 'x sys \<Rightarrow> overlay_error + 'x sys" where
  "unhandled_lookup_trampoline E s =
     (case and_then (tier_self_heal E s) (\<lambda>s. and_then (tier_jit E (bump SelfHealMisses s)) (\<lambda>s. and_then (tier_evicted E s)
        (\<lambda>s. and_then (tier_fragment E s) (tier_interp E)))) of
        Handled s \<Rightarrow> Inr s
      | FallThrough s \<Rightarrow> if recomp_interp_discovery_enabled E
          then Inr (recomp_capture_interp_target E (g_last_lookup_miss_addr s) s) else Inl AbortCall)"

section \<open>The persisted list of candidates\<close>

text \<open>An entry of the parsed manifest: address, content hash, start and length of the code.\<close>

definition load_manifest_entry :: "u32 \<times> u64 \<times> u32 \<times> u32 \<Rightarrow> 'x sys \<Rightarrow> 'x sys" where
  "load_manifest_entry e s = (case e of (addr, h, lo, len) \<Rightarrow>
     if addr = 0 \<or> len = 0 \<or> h = 0 then s
     else if list_ex (\<lambda>c. fc_content_hash c = h) (g_frag_cands s addr) then s
     else bump FragReloaded (s\<lparr>g_frag_cands := (g_frag_cands s)(addr := g_frag_cands s addr @
       [\<lparr>fc_addr = addr, fc_content_hash = h, code_lo = lo, code_len = len, fc_fn = 0, diff_passes = 0,
         device_touch = False, blacklisted = False\<rparr>])\<rparr>))"

definition load_fragment_manifest :: "(u32 \<times> u64 \<times> u32 \<times> u32) list \<Rightarrow> 'x sys \<Rightarrow> 'x sys" where
  "load_fragment_manifest entries s = fold load_manifest_entry entries s"

definition recomp_debug_jit_evict_all_resident :: "'x sys \<Rightarrow> 'x sys" where
  "recomp_debug_jit_evict_all_resident s = (let resident = (\<lambda>a :: u32. 0x80000000 \<le> a \<and> a < 0x80800000); fm = func_map (ovl s) in
     s\<lparr>g_evicted_funcs := (\<lambda>a. if resident a \<and> fm a \<noteq> None then fm a else g_evicted_funcs s a),
       ovl := (ovl s)\<lparr>func_map := (\<lambda>a. if resident a then None else fm a)\<rparr>\<rparr>)"

end
