(* ===== verification/FragmentClaims.thy ===== *)
theory FragmentClaims
  imports FragmentTier OverlayClaims
begin

unbundle bit_operations_syntax

text \<open>
  Dispatch through the tiers: fragment code compiled at run time stays invisible until it has agreed
  with the interpreter often enough in a row, the interpreter log has at most two records per address, and
  two cases where the tiers do not do what they are meant to.
\<close>

section \<open>What the bookkeeping leaves alone\<close>

lemma bump_frame [simp]:
  "ctx (bump c s) = ctx s" "mem (bump c s) = mem s" "ovl (bump c s) = ovl s" "g_frag_cands (bump c s) = g_frag_cands s"
  "g_interp_fb (bump c s) = g_interp_fb s" "interp_log (bump c s) = interp_log s" "total_vis (bump c s) = total_vis s"
  "g_self_heal_addr (bump c s) = g_self_heal_addr s" "t_shadow_active (bump c s) = t_shadow_active s"
  "g_evicted_funcs (bump c s) = g_evicted_funcs s"
  by (simp_all add: bump_def)

lemma fold_bump_frame [simp]: "ctx (fold bump cs s) = ctx s" "mem (fold bump cs s) = mem s"
  by (induction cs arbitrary: s) simp_all

lemma note_frame [simp]: "ctx (note_interp_fallback a r s) = ctx s" "mem (note_interp_fallback a r s) = mem s"
  by (simp_all add: note_interp_fallback_def Let_def split: option.split)

lemma modify_candidate_frame [simp]: "ctx (modify_candidate a h g s) = ctx s" "mem (modify_candidate a h g s) = mem s"
  by (simp_all add: modify_candidate_def)

lemma apply_diff_frame [simp]:
  "ctx (frag_apply_diff_outcome E a h out s) = ctx s" "mem (frag_apply_diff_outcome E a h out s) = mem s"
  by (simp_all add: frag_apply_diff_outcome_def split: option.split)

lemma jit_frame [simp]: "ctx (snd (jit_compile_inner E v k r s)) = ctx s" "mem (snd (jit_compile_inner E v k r s)) = mem s"
  by (simp_all add: jit_compile_inner_def Let_def split: option.split)

lemma jit_frameD: "jit_compile_inner E v k r s = (f, s') \<Longrightarrow> ctx s' = ctx s \<and> mem s' = mem s"
  using jit_frame [of E v k r s] by simp

lemma new_candidate_frame:
  "new_candidate E a s = (c, s') \<Longrightarrow> ctx s' = ctx s \<and> mem s' = mem s \<and> (\<forall>x. c = Some x \<longrightarrow> diff_passes x = 0)"
  by (auto simp: new_candidate_def Let_def split: option.splits if_splits prod.splits dest: jit_frameD)

lemma arm_candidate_frame: "arm_candidate E a c s = (c', s') \<Longrightarrow> ctx s' = ctx s \<and> mem s' = mem s \<and> diff_passes c' = diff_passes c"
  by (auto simp: arm_candidate_def Let_def split: option.splits if_splits prod.splits dest: jit_frameD)

lemma ram_equal_copy [simp]: "ram_equal (copy_ram m m') m"
  by (simp add: ram_equal_def copy_ram_def)

lemma ram_equal_refl [simp]: "ram_equal m m"
  by (simp add: ram_equal_def)

section \<open>The differential run\<close>

text \<open>
  C23. A validation run of fragment code ends with the registers and the 8 MiB of RAM the interpreter
  produced, whether or not the compiled code agreed; when the interpreter cannot run the function,
  registers and RAM are as they were before.
\<close>

theorem shadow_diff_commits_interpreter:
  "let r = recomp_interpret_function E addr (s\<lparr>t_shadow_touched_native := False, t_shadow_active := True\<rparr>);
       d = run_shadow_diff E addr fn s in
     interp_ok (fst d) = fst r \<and>
     (if fst r then ctx (snd d) = ctx (snd r) \<and> ram_equal (mem (snd d)) (mem (snd r))
      else ctx (snd d) = ctx s \<and> ram_equal (mem (snd d)) (mem s))"
  by (auto simp: run_shadow_diff_def Let_def case_prod_beta)

section \<open>Trust\<close>








section \<open>The fragment tier\<close>

lemma run_candidate_interprets:
  assumes "run_candidate E faddr c s = Handled s'" "diff_passes c < frag_diff_budget E"
  shows "\<exists>t u. recomp_interpret_function E faddr t = (True, u) \<and> ctx t = ctx s \<and> mem t = mem s \<and>
     ctx s' = ctx u \<and> ram_equal (mem s') (mem u)"
proof (cases "fc_fn c \<noteq> 0 \<and> \<not> device_touch c \<and> \<not> blacklisted c")
  case True
  let ?t = "s\<lparr>t_shadow_touched_native := False, t_shadow_active := True\<rparr>"
  obtain out u where d: "run_shadow_diff E faddr (fc_fn c) s = (out, u)" by fastforce
  have "interp_ok out" "s' = note_interp_fallback faddr 2 (frag_apply_diff_outcome E faddr (fc_content_hash c) out u)"
    using assms True d by (auto simp: run_candidate_def split: if_splits)
  moreover have "interp_ok out \<longrightarrow> fst (recomp_interpret_function E faddr ?t) \<and> ctx u = ctx (snd (recomp_interpret_function E faddr ?t)) \<and>
      ram_equal (mem u) (mem (snd (recomp_interpret_function E faddr ?t)))"
    using d by (auto simp: run_shadow_diff_def Let_def case_prod_beta split: if_splits)
  ultimately show ?thesis by (intro exI [of _ ?t] exI [of _ "snd (recomp_interpret_function E faddr ?t)"]) (auto simp: prod_eq_iff)
next
  case False
  then obtain u where "recomp_interpret_function E faddr s = (True, u)" "s' = note_interp_fallback faddr 1 u"
    using assms by (auto simp: run_candidate_def split: if_splits prod.splits)
  then show ?thesis by (intro exI [of _ s] exI [of _ u]) auto
qed

text \<open>
  C19. Unless the code at the missed address is a candidate that has been promoted, whatever the fragment
  tier handles it handles as the interpreter does: the registers and RAM it leaves are those the
  interpreter leaves from the same registers and RAM.
\<close>

theorem fragment_tier_interprets_until_promoted:
  assumes "tier_fragment E s = Handled s'" and "0 < frag_diff_budget E"
    and "\<And>c. live_candidate s (g_self_heal_addr s) = Some c \<Longrightarrow> diff_passes c < frag_diff_budget E"
  shows "\<exists>t u. recomp_interpret_function E (g_self_heal_addr s) t = (True, u) \<and> ctx t = ctx s \<and> mem t = mem s \<and>
     ctx s' = ctx u \<and> ram_equal (mem s') (mem u)"
proof -
  obtain c s1 where run: "run_candidate E (g_self_heal_addr s) c s1 = Handled s'"
    and sel: "(live_candidate s (g_self_heal_addr s) = None \<and> new_candidate E (g_self_heal_addr s) s = (Some c, s1)) \<or>
      (\<exists>c0. live_candidate s (g_self_heal_addr s) = Some c0 \<and> arm_candidate E (g_self_heal_addr s) c0 s = (c, s1))"
    using assms(1) by (auto simp: tier_fragment_def Let_def split: if_splits option.splits prod.splits)
  have "ctx s1 = ctx s \<and> mem s1 = mem s \<and> diff_passes c < frag_diff_budget E"
    using sel assms(2,3) new_candidate_frame [of E "g_self_heal_addr s" s "Some c" s1] arm_candidate_frame [of E "g_self_heal_addr s" _ s c s1]
    by (auto simp: word_gt_0)
  with run_candidate_interprets [OF run] show ?thesis by auto
qed

definition tier_demo_regs :: "unit recomp_context" where
  "tier_demo_regs = \<lparr>gprs = (\<lambda>_. 0), fprs = (\<lambda>_. 0), hi_reg = 0, lo_reg = 0, dispatch_entry_target = 0, dispatch_entry_rejected = 0,
     dispatch_entry_rejected_target = 0, host_part = ()\<rparr>"

definition demo_sys :: "rdram \<Rightarrow> u32 \<Rightarrow> overlay_state \<Rightarrow> unit sys" where
  "demo_sys m addr st = \<lparr>ctx = tier_demo_regs, mem = m, ovl = st, g_frag_cands = (\<lambda>_. []), g_evicted_funcs = Map.empty, g_jit_entries = [],
     g_lookup_captures = Map.empty, g_interp_fb = Map.empty, interp_log = [], tier_count = (\<lambda>_. 0), total_vis = 0,
     g_self_heal_addr = addr, g_last_lookup_miss_addr = addr, g_reject_interp_depth = 0, t_shadow_active = False, t_shadow_touched_native = False\<rparr>"

text \<open>An interpreter that puts 1 into register 2, compiled code that puts 9 there, and every function 8 bytes long.\<close>

definition tier_demo_env :: "unit tier_env" where
  "tier_demo_env = \<lparr>recomp_interpret_function = (\<lambda>a s. (True, s\<lparr>ctx := (ctx s)\<lparr>gprs := (gprs (ctx s))(2 := 1)\<rparr>\<rparr>)),
     call_host = (\<lambda>f s. s\<lparr>ctx := (ctx s)\<lparr>gprs := (gprs (ctx s))(2 := 9)\<rparr>\<rparr>),
     discover_function_bounds = (\<lambda>_ _. Some 8), codegen_function = (\<lambda>_ _. 7),
     frag_jit_enabled = True, frag_native_enabled = True, frag_diff_budget = 8, jit_tier_enabled = True, interp_enabled = True,
     recomp_interp_discovery_enabled = False\<rparr>"

lemma demo_window: "discovered_size tier_demo_env (\<lambda>_. 0) 0x807FFFF0 = Some 8"
  by (simp add: discovered_size_def code_window_def tier_demo_env_def Let_def)

lemma demo_fragment_run:
  "\<exists>s'. tier_fragment tier_demo_env (demo_sys (\<lambda>_. 0) 0x807FFFF0 empty_overlay_state) = Handled s'"
proof -
  have "fragment_is_safe_leaf (\<lambda>_. 0) 0x807FFFF0 8" by code_simp
  moreover have "\<not> addr_in_resident_static_section empty_overlay_state 0x807FFFF0"
    by (simp add: addr_in_resident_static_section_def empty_overlay_state_def)
  ultimately show ?thesis
    using demo_window
    by (auto simp: tier_fragment_def demo_sys_def live_candidate_def new_candidate_def jit_compile_inner_def run_candidate_def
        run_shadow_diff_def tier_demo_env_def Let_def bump_def split: if_splits)
qed

theorem fragment_tier_interprets_until_promoted_witness:
  "\<exists>s'. tier_fragment tier_demo_env (demo_sys (\<lambda>_. 0) 0x807FFFF0 empty_overlay_state) = Handled s' \<and> gprs (ctx s') 2 = 1"
proof -
  obtain s' where s': "tier_fragment tier_demo_env (demo_sys (\<lambda>_. 0) 0x807FFFF0 empty_overlay_state) = Handled s'"
    using demo_fragment_run by blast
  have "0 < frag_diff_budget tier_demo_env" by (simp add: tier_demo_env_def)
  from fragment_tier_interprets_until_promoted [OF s' this] s' show ?thesis
    by (auto simp: live_candidate_def demo_sys_def tier_demo_env_def)
qed

section \<open>The interpreter log\<close>

definition log_inv :: "'x sys \<Rightarrow> bool" where
  "log_inv s \<longleftrightarrow> (\<forall>a. length (filter (\<lambda>e. snd e = a) (interp_log s)) =
     (case g_interp_fb s a of None \<Rightarrow> 0 | Some fb \<Rightarrow> if chronic_logged fb then 2 else 1))"

lemma note_keeps_log_inv: "log_inv s \<Longrightarrow> log_inv (note_interp_fallback a r s)"
  by (auto simp: log_inv_def note_interp_fallback_def Let_def split: option.splits)

lemma log_at_most_two: "log_inv s \<Longrightarrow> length (filter (\<lambda>e. snd e = a) (interp_log s)) \<le> 2"
  by (simp add: log_inv_def split: option.split)

section \<open>Two gaps\<close>

text \<open>
  A branch out of the body, conditional or linking, passes the test for leaves: here
  \<^verbatim>\<open>bgezal $zero\<close> 32 KiB ahead, with a \<^verbatim>\<open>nop\<close> in its delay slot.
\<close>

theorem safe_leaf_admits_outgoing_branch: "fragment_is_safe_leaf (words_at [(0x300000, 0x04111FFF)]) 0x80300000 8"
  by code_simp

text \<open>
  The missed address is held in a variable that calls of recompiled code overwrite: when the interpreter
  gives up on a function after such a call, the lower tiers go on with the address of the nested miss, and its success counts
  as the result of the original call.
\<close>

definition demo_gap_env :: "unit tier_env" where
  "demo_gap_env = tier_demo_env\<lparr>
     recomp_interpret_function := (\<lambda>a s. if a = 0x80100034 then (False, s\<lparr>g_self_heal_addr := 0x80400000\<rparr>) else (True, s)),
     call_host := (\<lambda>f s. s\<lparr>ctx := (ctx s)\<lparr>dispatch_entry_rejected := 1\<rparr>\<rparr>),
     frag_jit_enabled := False\<rparr>"

definition demo_gap_state :: overlay_state where
  "demo_gap_state = empty_overlay_state\<lparr>code_sections := demo_table, have_code_sections := True,
     loaded_sections := [\<lparr>loaded_ram_addr = 0x80100000, section_table_index = 0\<rparr>]\<rparr>"

theorem nested_miss_takes_over:
  "\<exists>s'. unhandled_lookup_trampoline demo_gap_env (demo_sys (\<lambda>_. 0) 0x80100034 demo_gap_state) = Inr s' \<and>
     interp_log s' = [(EventNew, 0x80400000)]"
proof -
  have "find_resident_enclosing_function demo_gap_state 0x80100034 = Some (1, 0x82000034, 0x82000030)" by code_simp
  moreover have "\<not> addr_in_resident_static_section demo_gap_state 0x80400000" by code_simp
  ultimately show ?thesis
    by (simp add: unhandled_lookup_trampoline_def tier_self_heal_def tier_jit_def tier_evicted_def tier_fragment_def tier_interp_def
        and_then_def demo_gap_env_def tier_demo_env_def demo_sys_def tier_demo_regs_def note_interp_fallback_def bump_def Let_def)
qed

end
