(* ===== verification/OrderedSet.thy ===== *)
theory OrderedSet
  imports Prelude
begin

text \<open>
  Containers ordered by a comparator. The C++ library asks of a comparator that it is a strict weak
  ordering; a \<^verbatim>\<open>std::set\<close> whose comparator is total holds each value at most once, in ascending order.
  A \<^verbatim>\<open>std::set\<close> is the list of its elements in order (\<open>ordered_insert\<close>, \<open>ordered_erase\<close>); \<open>scan_least\<close> is the loop that
  looks for the least element of a vector.
\<close>

primrec ordered_insert :: "('a \<Rightarrow> 'a \<Rightarrow> bool) \<Rightarrow> 'a \<Rightarrow> 'a list \<Rightarrow> 'a list" where
  "ordered_insert lt x [] = [x]"
| "ordered_insert lt x (y # ys) = (if lt y x then y # ordered_insert lt x ys else if lt x y then x # y # ys else y # ys)"

definition ordered_erase :: "('a \<Rightarrow> 'a \<Rightarrow> bool) \<Rightarrow> 'a \<Rightarrow> 'a list \<Rightarrow> 'a list" where
  "ordered_erase lt x ys = filter (\<lambda>y. lt y x \<or> lt x y) ys"

definition scan_least :: "('a \<Rightarrow> 'a \<Rightarrow> bool) \<Rightarrow> 'a list \<Rightarrow> 'a option" where
  "scan_least lt xs = fold (\<lambda>x best. case best of None \<Rightarrow> Some x | Some b \<Rightarrow> if lt x b then Some x else best) xs None"

lemma scan_least_mem: "scan_least lt xs = Some x \<Longrightarrow> x \<in> set xs"
  by (induction xs arbitrary: x rule: rev_induct) (auto simp: scan_least_def split: option.splits if_splits)

locale strict_weak_order =
  fixes lt :: "'a \<Rightarrow> 'a \<Rightarrow> bool"
  assumes lt_irrefl: "\<not> lt x x"
    and lt_trans: "lt x y \<Longrightarrow> lt y z \<Longrightarrow> lt x z"
    and lt_cotrans: "lt x z \<Longrightarrow> lt x y \<or> lt y z"
begin

lemma scan_least_cases:
  "case scan_least lt xs of None \<Rightarrow> xs = [] | Some b \<Rightarrow> b \<in> set xs \<and> (\<forall>x \<in> set xs. \<not> lt x b)"
proof (induction xs rule: rev_induct)
  case (snoc x xs)
  show ?case
  proof (cases "scan_least lt xs")
    case None
    with snoc show ?thesis by (simp add: scan_least_def lt_irrefl)
  next
    case (Some b)
    have "\<not> lt y x" if "lt x b" "\<not> lt y b" for y using that lt_trans by blast
    with Some snoc lt_irrefl show ?thesis by (auto simp: scan_least_def)
  qed
qed (simp add: scan_least_def)

lemma scan_least_None: "scan_least lt xs = None \<longleftrightarrow> xs = []"
  using scan_least_cases [of xs] by (auto simp: scan_least_def split: option.splits)

lemma scan_least_Some: "scan_least lt xs = Some b \<Longrightarrow> b \<in> set xs \<and> (\<forall>x \<in> set xs. \<not> lt x b)"
  using scan_least_cases [of xs] by simp

end

locale strict_linear_order = strict_weak_order +
  assumes lt_total: "x \<noteq> y \<Longrightarrow> lt x y \<or> lt y x"
begin

lemma lt_eq: "\<not> lt x y \<Longrightarrow> \<not> lt y x \<Longrightarrow> x = y"
  using lt_total by blast

lemma set_ordered_insert: "sorted_wrt lt xs \<Longrightarrow> set (ordered_insert lt x xs) = insert x (set xs)"
  by (induction xs) (auto dest: lt_eq)

lemma sorted_ordered_insert: "sorted_wrt lt xs \<Longrightarrow> sorted_wrt lt (ordered_insert lt x xs)"
  by (induction xs) (auto simp: set_ordered_insert intro: lt_trans)

lemma ordered_erase_eq: "ordered_erase lt x xs = filter (\<lambda>y. y \<noteq> x) xs"
  using lt_irrefl lt_total by (fastforce simp: ordered_erase_def intro!: filter_cong)

end

end
