(* ===== verification/Timer.thy ===== *)
theory Timer
  imports MesgQueue OrderedSet "HOL-Library.Signed_Division"
begin

text \<open>
  Timers and the clock (\<^verbatim>\<open>timer.cpp\<close>). The host clock is a parameter: a reading is the number of
  nanoseconds since \<^verbatim>\<open>start_time\<close>, as \<^verbatim>\<open>high_resolution_clock\<close> counts, and may be negative when the
  host clock is set back. \<^verbatim>\<open>OSTimer\<close> structures lie in guest memory; the 64-bit fields take two cells, the
  low half first. The timer thread is a step relation over the points at which it waits or reads the
  command queue. Its active timers are a \<^verbatim>\<open>std::set\<close> ordered by the deadlines in guest memory: the set is
  the list of its elements in order, and an insertion or removal while the order in memory disagrees
  with that list has no defined result (\<open>None\<close>).
\<close>

unbundle bit_operations_syntax

section \<open>Ticks and durations\<close>

definition speed_multiplier :: u32 where "speed_multiplier = 1"
definition counter_per_ms :: u64 where "counter_per_ms = 46875 * ucast speed_multiplier"

definition duration_to_ticks :: "int \<Rightarrow> u64" where
  "duration_to_ticks duration = (let micros = word_of_int (duration sdiv 1000) in (micros * counter_per_ms) div 1000)"

text \<open>Microseconds; the arithmetic is unsigned, the result is read as the signed count of \<^verbatim>\<open>microseconds\<close>.\<close>

definition ticks_to_duration :: "u64 \<Rightarrow> int" where
  "ticks_to_duration ticks = sint ((ticks * 1000) div counter_per_ms)"

definition ticks_to_timepoint :: "u64 \<Rightarrow> int" where
  "ticks_to_timepoint ticks = ticks_to_duration ticks * 1000"

definition time_now :: "int \<Rightarrow> u64" where
  "time_now clock = duration_to_ticks clock"

definition osGetCount :: "int \<Rightarrow> u32" where
  "osGetCount clock = ucast (time_now clock)"

section \<open>Timers in guest memory\<close>

definition rd64 :: "os \<Rightarrow> u32 \<Rightarrow> u64" where
  "rd64 s a = push_bit 32 (ucast (mem s (a + 4))) OR ucast (mem s a)"

definition wr64 :: "u32 \<Rightarrow> u64 \<Rightarrow> os \<Rightarrow> os" where
  "wr64 a v s = upd (a + 4) (ucast (drop_bit 32 v)) (upd a (ucast v) s)"

abbreviation f_interval :: "u32 \<Rightarrow> u32" where "f_interval t \<equiv> t + 8"
abbreviation f_timestamp :: "u32 \<Rightarrow> u32" where "f_timestamp t \<equiv> t + 16"
abbreviation f_tmq :: "u32 \<Rightarrow> u32" where "f_tmq t \<equiv> t + 24"
abbreviation f_tmsg :: "u32 \<Rightarrow> u32" where "f_tmsg t \<equiv> t + 28"

definition timestamp :: "os \<Rightarrow> u32 \<Rightarrow> u64" where "timestamp s t = rd64 s (f_timestamp t)"
definition interval :: "os \<Rightarrow> u32 \<Rightarrow> u64" where "interval s t = rd64 s (f_interval t)"

datatype TimerCommand = TimerInsert u32 | TimerCancel u32

type_synonym timer_enqueue = "TimerCommand \<Rightarrow> TimerCommand list \<Rightarrow> TimerCommand list"

text \<open>
  Where the timer thread is: at the top of its loop, in the loop that waits for a command while no timer
  is active, at the choice of the next timer, in the timed wait for the timer it took out of
  the set, with the end of the wait, or past an operation on the set that has no defined result.
\<close>

datatype timer_loc = Draining | Idle | Choosing | Sleeping u32 int | Undefined

record timers =
  os_of :: os
  command_queue :: "TimerCommand list"
  ostime_offset :: u64
  pending :: "u32 list"
  loc :: timer_loc

definition osGetTime :: "int \<Rightarrow> timers \<Rightarrow> u64" where
  "osGetTime clock T = time_now clock - ostime_offset T"

definition osSetTime :: "int \<Rightarrow> u64 \<Rightarrow> timers \<Rightarrow> timers" where
  "osSetTime clock t T = T\<lparr>ostime_offset := time_now clock - t\<rparr>"

definition osSetTimer :: "timer_enqueue \<Rightarrow> int \<Rightarrow> u32 \<Rightarrow> u64 \<Rightarrow> u64 \<Rightarrow> u32 \<Rightarrow> u32 \<Rightarrow> timers \<Rightarrow> timers" where
  "osSetTimer enq clock t countdown ival mq msg T = (let
     s = os_of T;
     s = wr64 (f_timestamp t) ((if countdown = 0 then ival else countdown) + time_now clock) s;
     s = wr64 (f_interval t) ival s;
     s = upd (f_tmq t) mq s;
     s = upd (f_tmsg t) msg s in
     T\<lparr>os_of := s, command_queue := enq (TimerInsert t) (command_queue T)\<rparr>)"

definition osStopTimer :: "timer_enqueue \<Rightarrow> u32 \<Rightarrow> timers \<Rightarrow> timers" where
  "osStopTimer enq t T = T\<lparr>command_queue := enq (TimerCancel t) (command_queue T)\<rparr>"

section \<open>The set of active timers\<close>

text \<open>Ties are broken by the host pointers, which order guest addresses from the start of RDRAM.\<close>

definition by_deadline :: "os \<Rightarrow> u32 \<Rightarrow> u32 \<Rightarrow> bool" where
  "by_deadline s lhs rhs = (if timestamp s lhs \<noteq> timestamp s rhs then timestamp s lhs < timestamp s rhs
     else lhs - 0x80000000 < rhs - 0x80000000)"

definition pending_insert :: "os \<Rightarrow> u32 \<Rightarrow> u32 list \<Rightarrow> u32 list option" where
  "pending_insert s t ts = (if sorted_wrt (by_deadline s) ts then Some (ordered_insert (by_deadline s) t ts) else None)"

definition pending_erase :: "os \<Rightarrow> u32 \<Rightarrow> u32 list \<Rightarrow> u32 list option" where
  "pending_erase s t ts = (if sorted_wrt (by_deadline s) ts
     then Some (ordered_erase (by_deadline s) t ts) else None)"

primrec apply_command :: "os \<Rightarrow> TimerCommand \<Rightarrow> u32 list \<Rightarrow> u32 list option" where
  "apply_command s (TimerInsert t) ts = pending_insert s t ts"
| "apply_command s (TimerCancel t) ts = pending_erase s t ts"

section \<open>The timer thread\<close>

definition set_pending :: "u32 list option \<Rightarrow> timer_loc \<Rightarrow> timers \<Rightarrow> timers" where
  "set_pending r l T = (case r of None \<Rightarrow> T\<lparr>loc := Undefined\<rparr> | Some ts \<Rightarrow> T\<lparr>pending := ts, loc := l\<rparr>)"

text \<open>
  \<^verbatim>\<open>osSendMesg\<close> on the timer thread, and the re-arming of a periodic timer. The clock is read again for
  the new deadline.
\<close>

definition fire :: "enqueue \<Rightarrow> int \<Rightarrow> u32 \<Rightarrow> timers \<Rightarrow> timers" where
  "fire xenq clock next T = (let
     s = os_of T;
     s = snd (osSendMesg xenq False (mem s (f_tmq next)) (mem s (f_tmsg next)) 0 s) in
     if interval s next \<noteq> 0 then let s = wr64 (f_timestamp next) (interval s next + time_now clock) s in
       set_pending (pending_insert s next (pending T)) Draining (T\<lparr>os_of := s\<rparr>)
     else T\<lparr>os_of := s, loc := Draining\<rparr>)"

text \<open>
  One turn of the thread, at clock readings \<open>now\<close> (before the wait) and \<open>later\<close> (after the send). \<open>None\<close>: the
  thread waits. The inner loop that blocks while no timer is active ends with the first command that
  leaves one active; the loop above it drains the queue. A timed wait ends with a command when there is
  one and by the passing of the deadline otherwise.
\<close>

definition timer_turn :: "enqueue \<Rightarrow> int \<Rightarrow> int \<Rightarrow> timers \<Rightarrow> timers option" where
  "timer_turn xenq now later T = (case loc T of
     Draining \<Rightarrow> (case command_queue T of
         c # cs \<Rightarrow> Some (set_pending (apply_command (os_of T) c (pending T)) Draining (T\<lparr>command_queue := cs\<rparr>))
       | [] \<Rightarrow> Some (T\<lparr>loc := if pending T = [] then Idle else Choosing\<rparr>))
   | Idle \<Rightarrow> (if pending T \<noteq> [] then Some (T\<lparr>loc := Choosing\<rparr>) else case command_queue T of
         c # cs \<Rightarrow> Some (set_pending (apply_command (os_of T) c (pending T)) Idle (T\<lparr>command_queue := cs\<rparr>))
       | [] \<Rightarrow> None)
   | Choosing \<Rightarrow> (case pending T of
         [] \<Rightarrow> None
       | next # _ \<Rightarrow> (case pending_erase (os_of T) next (pending T) of
           None \<Rightarrow> Some (T\<lparr>loc := Undefined\<rparr>)
         | Some ts \<Rightarrow> let T = T\<lparr>pending := ts\<rparr> in
             Some (if ticks_to_timepoint (timestamp (os_of T) next) - now \<ge> 0
                   then T\<lparr>loc := Sleeping next (ticks_to_timepoint (timestamp (os_of T) next))\<rparr>
                   else fire xenq later next T)))
   | Sleeping next wake \<Rightarrow> (case command_queue T of
         c # cs \<Rightarrow> Some (case pending_insert (os_of T) next (pending T) of
             None \<Rightarrow> T\<lparr>loc := Undefined, command_queue := cs\<rparr>
           | Some ts \<Rightarrow> set_pending (apply_command (os_of T) c ts) Draining (T\<lparr>command_queue := cs\<rparr>))
       | [] \<Rightarrow> if wake \<le> now then Some (fire xenq later next T) else None)
   | Undefined \<Rightarrow> None)"

definition init_timers :: "os \<Rightarrow> timers" where
  "init_timers s = \<lparr>os_of = s, command_queue = [], ostime_offset = 0, pending = [], loc = Draining\<rparr>"

end
