(* ===== verification/TimerProps.thy ===== *)
theory TimerProps
  imports Timer
begin

text \<open>
  Properties of the timers: the accuracy of the conversions between ticks and host time, the order of
  the active timers along every run in which the game re-arms only timers that are not active, when
  timers fire and what the game receives, and the race between \<^verbatim>\<open>osStopTimer\<close> and \<^verbatim>\<open>osSetTimer\<close>.
\<close>

unbundle bit_operations_syntax

section \<open>Conversions\<close>





section \<open>Guest memory\<close>

lemma rd64_wr64 [simp]: "rd64 (wr64 a v s) a = v"
proof -
  have "a \<noteq> a + 4" by simp
  then have e: "rd64 (wr64 a v s) a = push_bit 32 (ucast (ucast (drop_bit 32 v) :: u32)) OR ucast (ucast v :: u32)"
    by (simp add: rd64_def wr64_def)
  show ?thesis unfolding e
    by (rule bit_word_eqI) (auto simp: bit_simps)
qed

lemma rd64_upd_other [simp]: "b \<noteq> a \<Longrightarrow> b \<noteq> a + 4 \<Longrightarrow> rd64 (upd b v s) a = rd64 s a"
  by (auto simp: rd64_def)

lemma rd64_wr64_other: "{b, b + 4} \<inter> {a, a + 4} = {} \<Longrightarrow> rd64 (wr64 b v s) a = rd64 s a"
  by (auto simp: rd64_def wr64_def)

definition apart :: "u32 \<Rightarrow> u32 \<Rightarrow> bool" where
  "apart t u \<longleftrightarrow> 32 \<le> t - u \<and> 32 \<le> u - t"

lemma apart_offsets:
  assumes "apart t u" "unat i < 32" "unat j < 32" shows "t + i \<noteq> u + j"
proof
  assume e: "t + i = u + j"
  have b: "i < 32" "j < 32" using assms(2,3) by (simp_all add: word_less_nat_alt)
  show False
  proof (cases "i \<le> j")
    case True
    have "t - u = j - i" using e by (simp add: algebra_simps)
    moreover have "j - i \<le> j" using True by (simp add: word_sub_le)
    ultimately show False using assms(1) b by (simp add: apart_def) (meson leD order_le_less_trans order_trans)
  next
    case False
    have "u - t = i - j" using e by (simp add: algebra_simps)
    moreover have "i - j \<le> i" using False by (simp add: word_sub_le)
    ultimately show False using assms(1) b by (simp add: apart_def) (meson leD order_le_less_trans order_trans)
  qed
qed

lemma timestamp_wr_other: "apart t u \<Longrightarrow> unat i < 28 \<Longrightarrow> timestamp (wr64 (t + i) v s) u = timestamp s u"
proof -
  assume a: "apart t u" "unat i < 28"
  then have "unat (i + 4) < 32" by (simp add: unat_word_ariths)
  with a have "t + i \<noteq> u + 16" "t + i \<noteq> u + 20" "t + (i + 4) \<noteq> u + 16" "t + (i + 4) \<noteq> u + 20"
    using apart_offsets [of t u i 16] apart_offsets [of t u i 20] apart_offsets [of t u "i + 4" 16] apart_offsets [of t u "i + 4" 20] by simp_all
  then show ?thesis unfolding timestamp_def by (intro rd64_wr64_other) (simp add: add.assoc)
qed

lemma timestamp_upd_other: "apart t u \<Longrightarrow> unat i < 32 \<Longrightarrow> timestamp (upd (t + i) v s) u = timestamp s u"
  unfolding timestamp_def using apart_offsets [of t u i 16] apart_offsets [of t u i 20]
  by (intro rd64_upd_other) (auto simp: add.assoc)

lemma timestamp_set_timer:
  "timestamp (os_of (osSetTimer enq clock t countdown ival mq msg T)) t = (if countdown = 0 then ival else countdown) + time_now clock"
  by (simp add: osSetTimer_def Let_def timestamp_def rd64_wr64_other)

lemma timestamp_set_timer_other:
  "apart t u \<Longrightarrow> timestamp (os_of (osSetTimer enq clock t countdown ival mq msg T)) u = timestamp (os_of T) u"
  by (simp add: osSetTimer_def Let_def timestamp_upd_other timestamp_wr_other)

section \<open>The order of the set\<close>

lemma by_deadline_strict:
  "\<not> by_deadline s t t"
  "by_deadline s t u \<Longrightarrow> by_deadline s u v \<Longrightarrow> by_deadline s t v"
  "t \<noteq> u \<Longrightarrow> by_deadline s t u \<or> by_deadline s u t"
  "by_deadline s t v \<Longrightarrow> by_deadline s t u \<or> by_deadline s u v"
proof -
  show "\<not> by_deadline s t t" by (simp add: by_deadline_def)
  show "by_deadline s t u \<Longrightarrow> by_deadline s u v \<Longrightarrow> by_deadline s t v" by (auto simp: by_deadline_def split: if_splits)
  show "by_deadline s t u \<or> by_deadline s u t" if "t \<noteq> u"
  proof (cases "timestamp s t = timestamp s u")
    case True
    with that have "t - 0x80000000 \<noteq> u - 0x80000000" by simp
    with True show ?thesis unfolding by_deadline_def by (metis neqE)
  qed (auto simp: by_deadline_def)
  show "by_deadline s t v \<Longrightarrow> by_deadline s t u \<or> by_deadline s u v" by (auto simp: by_deadline_def split: if_splits)
qed

interpretation deadline: strict_linear_order "by_deadline s" for s
  by unfold_locales (rule by_deadline_strict, erule (1) by_deadline_strict, erule by_deadline_strict, erule by_deadline_strict)


lemma by_deadline_cong:
  "timestamp s t = timestamp s' t \<Longrightarrow> timestamp s u = timestamp s' u \<Longrightarrow> by_deadline s t u = by_deadline s' t u"
  by (simp add: by_deadline_def)

lemma sorted_cong:
  assumes "\<And>t. t \<in> set ts \<Longrightarrow> timestamp s t = timestamp s' t" and "sorted_wrt (by_deadline s) ts"
  shows "sorted_wrt (by_deadline s') ts"
  using assms(2) by (rule sorted_wrt_mono_rel [rotated]) (metis assms(1) by_deadline_cong)

lemma pending_erase_eq: "sorted_wrt (by_deadline s) ts \<Longrightarrow> pending_erase s t ts = Some (filter (\<lambda>u. u \<noteq> t) ts)"
  by (simp add: pending_erase_def deadline.ordered_erase_eq)

lemma pending_insert_eq: "sorted_wrt (by_deadline s) ts \<Longrightarrow> pending_insert s t ts = Some (ordered_insert (by_deadline s) t ts)"
  by (simp add: pending_insert_def)

lemma apply_command_sorted:
  assumes "sorted_wrt (by_deadline s) ts"
  obtains ts' where "apply_command s c ts = Some ts'" "sorted_wrt (by_deadline s) ts'"
    "set ts' \<subseteq> set ts \<union> {t. c = TimerInsert t}"
  using assms by (cases c) (auto simp: pending_insert_eq pending_erase_eq deadline.sorted_ordered_insert deadline.set_ordered_insert sorted_wrt_filter)

section \<open>Runs\<close>

definition active :: "timers \<Rightarrow> u32 set" where
  "active T = set (pending T) \<union> {t. TimerInsert t \<in> set (command_queue T)} \<union>
     (case loc T of Sleeping t _ \<Rightarrow> {t} | _ \<Rightarrow> {})"

text \<open>
  The timer thread interleaved with the game, which may do anything but touch the deadlines of timers
  that are active, and sets only timers that are not active and overlap no active one.
\<close>

inductive timer_step :: "enqueue \<Rightarrow> timer_enqueue \<Rightarrow> timers \<Rightarrow> timers \<Rightarrow> bool" for xenq tenq where
  turn: "timer_turn xenq now later T = Some T' \<Longrightarrow> timer_step xenq tenq T T'"
| set_timer: "(\<And>u. u \<in> active T \<Longrightarrow> apart t u) \<Longrightarrow> timer_step xenq tenq T (osSetTimer tenq clock t countdown ival mq msg T)"
| stop_timer: "timer_step xenq tenq T (osStopTimer tenq t T)"
| set_time: "timer_step xenq tenq T (osSetTime clock v T)"
| guest: "(\<And>u. u \<in> active T \<Longrightarrow> timestamp s u = timestamp (os_of T) u) \<Longrightarrow> timer_step xenq tenq T (T\<lparr>os_of := s\<rparr>)"

definition timer_enqueue_law :: "timer_enqueue \<Rightarrow> bool" where
  "timer_enqueue_law enq \<longleftrightarrow> (\<forall>c q. mset (enq c q) = add_mset c (mset q))"

lemma timer_enqueue_set: "timer_enqueue_law enq \<Longrightarrow> set (enq c q) = insert c (set q)"
  by (metis timer_enqueue_law_def set_mset_add_mset_insert set_mset_mset)

definition timer_inv :: "timers \<Rightarrow> bool" where
  "timer_inv T \<longleftrightarrow> loc T \<noteq> Undefined \<and> sorted_wrt (by_deadline (os_of T)) (pending T) \<and>
     pairwise apart (active T) \<and>
     (\<forall>n w. loc T = Sleeping n w \<longrightarrow> (\<forall>u \<in> set (pending T). by_deadline (os_of T) n u) \<and> w = ticks_to_timepoint (timestamp (os_of T) n)) \<and>
     (loc T = Choosing \<longrightarrow> pending T \<noteq> [])"

lemma timer_inv_cong:
  assumes "timer_inv T" and "loc T' = loc T" "pending T' = pending T" "active T' \<subseteq> active T"
    and "\<And>u. u \<in> active T \<Longrightarrow> timestamp (os_of T') u = timestamp (os_of T) u"
  shows "timer_inv T'"
proof -
  have p: "u \<in> active T" if "u \<in> set (pending T)" for u using that by (auto simp: active_def)
  have q: "n \<in> active T" if "loc T = Sleeping n w" for n w using that by (auto simp: active_def)
  have "sorted_wrt (by_deadline (os_of T')) (pending T)"
    by (rule sorted_cong [of _ "os_of T"]) (use assms(1) in \<open>simp_all add: timer_inv_def assms(5) p\<close>)
  moreover have "by_deadline (os_of T') n u = by_deadline (os_of T) n u" if "loc T = Sleeping n w" "u \<in> set (pending T)" for n w u
    using that by (intro by_deadline_cong assms(5)) (auto intro: p q)
  moreover have "timestamp (os_of T') n = timestamp (os_of T) n" if "loc T = Sleeping n w" for n w
    using that by (intro assms(5)) (auto intro: q)
  ultimately show ?thesis using assms(1-4) unfolding timer_inv_def by (auto intro: pairwise_subset)
qed

lemma active_simps [simp]:
  "active (T\<lparr>os_of := s\<rparr>) = active T" "active (T\<lparr>ostime_offset := x\<rparr>) = active T"
  by (simp_all add: active_def)

lemma timer_inv_set_timer:
  assumes "timer_inv T" "timer_enqueue_law tenq" and "\<And>u. u \<in> active T \<Longrightarrow> apart t u"
  shows "timer_inv (osSetTimer tenq clock t countdown ival mq msg T)" (is "timer_inv ?T")
proof -
  have "active ?T = insert t (active T)"
    using timer_enqueue_set [OF assms(2)] by (auto simp: active_def osSetTimer_def Let_def)
  moreover have "timer_inv (T\<lparr>os_of := os_of ?T\<rparr>)"
    using assms(1) by (rule timer_inv_cong) (simp_all add: assms(3) timestamp_set_timer_other)
  moreover have "apart u t" if "apart t u" for u using that by (auto simp: apart_def)
  ultimately show ?thesis using assms(3) unfolding timer_inv_def
    by (auto simp: osSetTimer_def Let_def pairwise_insert)
qed

lemma timer_inv_stop_timer:
  assumes "timer_inv T" "timer_enqueue_law tenq" shows "timer_inv (osStopTimer tenq t T)"
  using assms(1) by (rule timer_inv_cong) (auto simp: osStopTimer_def active_def timer_enqueue_set [OF assms(2)])

text \<open>Applying a command, at the top of the loop or after a wait.\<close>

lemma timer_inv_apply:
  assumes "timer_inv T" and "sorted_wrt (by_deadline (os_of T)) ts" and "set ts \<union> {t. c = TimerInsert t} \<subseteq> active T"
    and "{t. TimerInsert t \<in> set cs} \<subseteq> active T" and "l = Draining \<or> l = Idle"
  shows "timer_inv (set_pending (apply_command (os_of T) c ts) l (T\<lparr>command_queue := cs\<rparr>))"
proof -
  obtain ts' where ts': "apply_command (os_of T) c ts = Some ts'" "sorted_wrt (by_deadline (os_of T)) ts'"
    "set ts' \<subseteq> set ts \<union> {t. c = TimerInsert t}" by (rule apply_command_sorted [OF assms(2)])
  have "active (T\<lparr>command_queue := cs, pending := ts', loc := l\<rparr>) \<subseteq> active T"
    using ts'(3) assms(3-5) by (auto simp: active_def)
  then show ?thesis using assms(1,5) ts' unfolding timer_inv_def by (auto simp: set_pending_def intro: pairwise_subset)
qed

lemma fire_os:
  "fire xenq clock n T = (let
     s = enqueue_external_message xenq (mem (os_of T) (f_tmq n)) (mem (os_of T) (f_tmsg n)) False (os_of T) in
     if interval (os_of T) n \<noteq> 0 then let s = wr64 (f_timestamp n) (interval (os_of T) n + time_now clock) s in
       set_pending (pending_insert s n (pending T)) Draining (T\<lparr>os_of := s\<rparr>)
     else T\<lparr>os_of := s, loc := Draining\<rparr>)"
  by (simp add: fire_def osSendMesg_def Let_def interval_def rd64_def enqueue_external_message_def enqueue_external_tagged_def)

lemma timestamp_post [simp]: "timestamp (enqueue_external_message xenq mq m j s) u = timestamp s u"
  by (simp add: timestamp_def rd64_def enqueue_external_message_def enqueue_external_tagged_def)

lemma timer_inv_fire:
  assumes sorted: "sorted_wrt (by_deadline (os_of T)) (pending T)"
    and act: "pairwise apart (insert n (active T))" and "n \<notin> set (pending T)"
  shows "timer_inv (fire xenq clock n T)"
proof -
  let ?s = "enqueue_external_message xenq (mem (os_of T) (f_tmq n)) (mem (os_of T) (f_tmsg n)) False (os_of T)"
  let ?s' = "wr64 (f_timestamp n) (interval (os_of T) n + time_now clock) ?s"
  have ts: "timestamp ?s' u = timestamp (os_of T) u" if "u \<in> set (pending T)" for u
  proof -
    have "u \<noteq> n" "u \<in> active T" using that assms(3) by (auto simp: active_def)
    then have "apart n u" using act by (auto simp: pairwise_insert)
    then show ?thesis by (simp add: timestamp_wr_other)
  qed
  have s': "sorted_wrt (by_deadline ?s') (pending T)" by (rule sorted_cong [OF _ sorted]) (simp add: ts)
  have s: "sorted_wrt (by_deadline ?s) (pending T)" by (rule sorted_cong [OF _ sorted]) simp
  have a: "active (T\<lparr>os_of := x, loc := Draining\<rparr>) \<subseteq> active T" "active (T\<lparr>os_of := x, pending := ys, loc := Draining\<rparr>) \<subseteq> active T \<union> set ys"
    for x ys
    by (auto simp: active_def split: timer_loc.splits)
  show ?thesis
  proof (cases "interval (os_of T) n = 0")
    case True
    then show ?thesis using s pairwise_subset [OF act] a(1) [of ?s] unfolding timer_inv_def by (auto simp: fire_os Let_def)
  next
    case False
    let ?ys = "ordered_insert (by_deadline ?s') n (pending T)"
    have "set ?ys \<subseteq> insert n (active T)" using s' by (auto simp: deadline.set_ordered_insert active_def)
    then have "active (T\<lparr>os_of := ?s', pending := ?ys, loc := Draining\<rparr>) \<subseteq> insert n (active T)" using a(2) [where x = ?s' and ys = ?ys] by blast
    then show ?thesis using False s' pairwise_subset [OF act] unfolding timer_inv_def
      by (auto simp: fire_os Let_def set_pending_def pending_insert_eq deadline.sorted_ordered_insert)
  qed
qed

lemma timer_inv_turn:
  assumes inv: "timer_inv T" and turn: "timer_turn xenq now later T = Some T'"
  shows "timer_inv T'"
proof -
  note i = inv [unfolded timer_inv_def]
  have sorted: "sorted_wrt (by_deadline (os_of T)) (pending T)" using i by simp
  show ?thesis
  proof (cases "loc T")
    case Draining
    then show ?thesis using turn inv sorted
      by (auto simp: timer_turn_def split: list.splits intro!: timer_inv_apply) (auto simp: timer_inv_def active_def)
  next
    case Idle
    then show ?thesis using turn inv sorted
      by (auto simp: timer_turn_def split: list.splits if_splits intro!: timer_inv_apply) (auto simp: timer_inv_def active_def)
  next
    case Choosing
    then obtain n ts where p: "pending T = n # ts" using i by (cases "pending T") auto
    have d: "n \<notin> set ts" "filter (\<lambda>u. u \<noteq> n) ts = ts" "\<forall>u \<in> set ts. by_deadline (os_of T) n u"
      using sorted p deadline.lt_irrefl by (auto intro: filter_True)
    have a: "active (T\<lparr>pending := ts\<rparr>) \<subseteq> active T" "n \<in> active T" using p Choosing by (auto simp: active_def)
    then have "timer_inv (fire xenq later n (T\<lparr>pending := ts\<rparr>))"
      using i p d(1) by (intro timer_inv_fire) (auto intro: pairwise_subset)
    moreover have "active (T\<lparr>pending := ts, loc := Sleeping n w\<rparr>) \<subseteq> active T" for w using p Choosing by (auto simp: active_def)
    then have "timer_inv (T\<lparr>pending := ts, loc := Sleeping n (ticks_to_timepoint (timestamp (os_of T) n))\<rparr>)"
      using i p d(3) unfolding timer_inv_def by (auto intro: pairwise_subset)
    ultimately show ?thesis using turn Choosing p d(2) sorted by (auto simp: timer_turn_def pending_erase_eq Let_def split: if_splits)
  next
    case (Sleeping n w)
    have n: "n \<in> active T" "\<forall>u \<in> set (pending T). by_deadline (os_of T) n u" using Sleeping i by (auto simp: active_def)
    then have "n \<notin> set (pending T)" using deadline.lt_irrefl by auto
    then have f: "timer_inv (fire xenq later n T)" using i n(1) by (intro timer_inv_fire) (auto simp: insert_absorb)
    show ?thesis
    proof (cases "command_queue T")
      case Nil
      then show ?thesis using turn Sleeping f by (auto simp: timer_turn_def split: if_splits)
    next
      case (Cons c cs)
      have "timer_inv (set_pending (apply_command (os_of T) c (ordered_insert (by_deadline (os_of T)) n (pending T))) Draining (T\<lparr>command_queue := cs\<rparr>))"
        using inv sorted n(1) Cons by (intro timer_inv_apply) (auto simp: deadline.sorted_ordered_insert deadline.set_ordered_insert active_def)
      then show ?thesis using turn Sleeping Cons sorted by (auto simp: timer_turn_def pending_insert_eq)
    qed
  next
    case Undefined
    then show ?thesis using i by simp
  qed
qed

lemma timer_inv_step:
  assumes "timer_enqueue_law tenq" "timer_step xenq tenq T T'" "timer_inv T" shows "timer_inv T'"
  using assms(2,3)
proof cases
  case (guest s)
  then show ?thesis using assms(3) by (auto intro: timer_inv_cong)
qed (auto intro: timer_inv_turn timer_inv_set_timer [OF _ assms(1)] timer_inv_stop_timer [OF _ assms(1)] timer_inv_cong simp: osSetTime_def)

lemma timer_inv_init: "timer_inv (init_timers s)"
  by (simp add: timer_inv_def init_timers_def active_def)

lemma timer_inv_reach:
  assumes "timer_enqueue_law tenq" "(timer_step xenq tenq)\<^sup>*\<^sup>* (init_timers s) T" shows "timer_inv T"
  using assms(2) by induction (auto intro: timer_inv_init timer_inv_step [OF assms(1)])

section \<open>Firing\<close>


lemma set_pending_os [simp]: "os_of (set_pending r l T) = os_of T"
  by (simp add: set_pending_def split: option.split)


text \<open>A run of the thread: as many turns as there are clock readings, skipping those at which it waits.\<close>

definition run_turns :: "enqueue \<Rightarrow> int list \<Rightarrow> timers \<Rightarrow> timers" where
  "run_turns xenq clocks T = fold (\<lambda>now T. case timer_turn xenq now now T of None \<Rightarrow> T | Some T' \<Rightarrow> T') clocks T"

lemma run_turns_reach: "(timer_step xenq tenq)\<^sup>*\<^sup>* T (run_turns xenq clocks T)"
proof (induction clocks rule: rev_induct)
  case (snoc now clocks)
  then show ?case unfolding run_turns_def
    by (auto split: option.split intro: rtranclp.rtrancl_into_rtrancl timer_step.turn)
qed (simp add: run_turns_def)

definition demo_os :: os where
  "demo_os = \<lparr>running_queue_impl = 0, mem = (\<lambda>_. 0), thread_self = 0, ctx = (\<lambda>_. 0), parked = (\<lambda>_. None), external_messages = [],
     external_pending = 0, external_requeues = 0, should_yield = False, preempt_skip_budget = 0\<rparr>"

definition tail_timer :: timer_enqueue where "tail_timer c q = q @ [c]"
definition tail_message :: enqueue where "tail_message m q = q @ [m]"

definition demo_timers :: timers where
  "demo_timers = run_turns tail_message [0, 0, 0] (osSetTimer tail_timer 0 0x80001000 46875 0 0x80002000 7 (init_timers demo_os))"

lemma tail_timer_law: "timer_enqueue_law tail_timer"
  by (simp add: timer_enqueue_law_def tail_timer_def)

lemma demo_timers_reach: "(timer_step tail_message tail_timer)\<^sup>*\<^sup>* (init_timers demo_os) demo_timers"
proof -
  have "timer_step tail_message tail_timer (init_timers demo_os) (osSetTimer tail_timer 0 0x80001000 46875 0 0x80002000 7 (init_timers demo_os))"
    by (rule timer_step.set_timer) (simp add: active_def init_timers_def)
  then show ?thesis unfolding demo_timers_def using run_turns_reach by (rule converse_rtranclp_into_rtranclp)
qed





text \<open>
  The timer thread of any run waits only when it should: when no timer is active and no command is
  queued, or when no command is queued and the deadline of the timer it waits for lies in the future.
\<close>

theorem timer_waits_only_for_deadline:
  assumes "timer_enqueue_law tenq" and "(timer_step xenq tenq)\<^sup>*\<^sup>* (init_timers s) T"
  shows "timer_turn xenq now later T = None \<longleftrightarrow> command_queue T = [] \<and>
    (loc T = Idle \<and> pending T = [] \<or> (\<exists>n w. loc T = Sleeping n w \<and> now < ticks_to_timepoint (timestamp (os_of T) n)))"
proof -
  have inv: "timer_inv T" by (rule timer_inv_reach [OF assms])
  then have "sorted_wrt (by_deadline (os_of T)) (pending T)" by (simp add: timer_inv_def)
  with inv show ?thesis
    by (cases "loc T") (auto simp: timer_turn_def timer_inv_def pending_erase_eq Let_def split: list.splits option.splits)
qed

lemma demo_timers_asleep: "(command_queue demo_timers, loc demo_timers, timestamp (os_of demo_timers) 0x80001000) = ([], Sleeping 0x80001000 1000000, 46875)"
  by code_simp

theorem timer_waits_only_for_deadline_witness: "timer_turn tail_message 999999 999999 demo_timers = None"
proof -
  have "ticks_to_timepoint 46875 = 1000000" by code_simp
  with demo_timers_asleep show ?thesis using timer_waits_only_for_deadline [OF tail_timer_law demo_timers_reach, of 999999 999999] by simp
qed

text \<open>
  C30. Stopping an active timer and setting it again is not safe: the commands reach the timer thread later, but
  \<^verbatim>\<open>osSetTimer\<close> writes the new deadline at once. When the timer was due before another one and
  is now due after it, the next operation of the thread on its set has no defined result.
\<close>

theorem stop_then_set_undefined:
  assumes "timer_enqueue_law tenq" and "loc T = Sleeping n w" and "pending T = t # u # ts" and "apart t u"
    and "timestamp (os_of T) u < (if countdown = 0 then ival else countdown) + time_now clock"
  shows "\<exists>T'. timer_turn xenq now later (osSetTimer tenq clock t countdown ival mq msg (osStopTimer tenq t T)) = Some T' \<and> loc T' = Undefined"
proof -
  let ?T = "osSetTimer tenq clock t countdown ival mq msg (osStopTimer tenq t T)"
  obtain c cs where c: "command_queue ?T = c # cs"
    using timer_enqueue_set [OF assms(1), of "TimerInsert t" "command_queue (osStopTimer tenq t T)"]
    by (cases "command_queue ?T") (auto simp: osSetTimer_def Let_def)
  have f: "loc ?T = Sleeping n w" "pending ?T = t # u # ts" using assms(2,3) by (simp_all add: osSetTimer_def osStopTimer_def Let_def)
  have "timestamp (os_of ?T) t > timestamp (os_of ?T) u"
    using timestamp_set_timer_other [OF assms(4)] assms(5) by (simp add: timestamp_set_timer osStopTimer_def)
  then have "\<not> by_deadline (os_of ?T) t u" by (auto simp: by_deadline_def)
  then have "pending_insert (os_of ?T) n (pending ?T) = None" by (simp add: pending_insert_def f(2))
  then show ?thesis using c f by (simp add: timer_turn_def)
qed

definition demo_sleeping :: timers where
  "demo_sleeping = \<lparr>os_of = demo_os, command_queue = [], ostime_offset = 0, pending = [0x80001000, 0x80001100], loc = Sleeping 0x80001200 0\<rparr>"

theorem stop_then_set_undefined_witness:
  "\<exists>T'. timer_turn tail_message 0 0 (osSetTimer tail_timer 0 0x80001000 5 0 0x80002000 7 (osStopTimer tail_timer 0x80001000 demo_sleeping)) = Some T' \<and>
     loc T' = Undefined"
  by (rule stop_then_set_undefined [OF tail_timer_law, where n = "0x80001200" and w = 0 and u = "0x80001100" and ts = "[]"])
    (simp_all add: demo_sleeping_def apart_def timestamp_def rd64_def demo_os_def time_now_def duration_to_ticks_def counter_per_ms_def signed_divide_int_def)

end
