(* ===== verification/RingLog.thy ===== *)
theory RingLog
  imports Prelude
begin

text \<open>
  Ring buffers of the last events: event number \<open>n\<close> goes to slot \<open>n mod cap\<close>. The runtime keeps several of
  them, written by one counter each (\<^verbatim>\<open>ultra_trace.cpp\<close>, \<^verbatim>\<open>sp.cpp\<close>, \<^verbatim>\<open>rsp.cpp\<close>); the locale says what they hold after any
  number of events, and what the copy loops that read them return.
\<close>

definition ring_put :: "nat \<Rightarrow> nat \<Rightarrow> 'e \<Rightarrow> (nat \<Rightarrow> 'e) \<Rightarrow> nat \<Rightarrow> 'e" where
  "ring_put cap n e slots = slots(n mod cap := e)"

primrec ring_fill :: "nat \<Rightarrow> nat \<Rightarrow> 'e list \<Rightarrow> (nat \<Rightarrow> 'e) \<Rightarrow> nat \<Rightarrow> 'e" where
  "ring_fill cap n [] slots = slots"
| "ring_fill cap n (e # es) slots = ring_fill cap (Suc n) es (ring_put cap n e slots)"

text \<open>The loop that copies the last \<open>want\<close> events, oldest first, of a ring that has seen \<open>n\<close>.\<close>

definition ring_recent :: "nat \<Rightarrow> nat \<Rightarrow> nat \<Rightarrow> (nat \<Rightarrow> 'e) \<Rightarrow> 'e list" where
  "ring_recent cap n want slots = (let available = (if n < cap then n else cap); want = (if want < available then want else available);
     start = (n - want) mod cap in map (\<lambda>i. slots ((start + i) mod cap)) [0..<want])"

lemma ring_fill_append: "ring_fill cap n (es @ es') slots = ring_fill cap (n + length es) es' (ring_fill cap n es slots)"
  by (induction es arbitrary: n slots) auto

locale ring_log =
  fixes cap :: nat
  assumes cap_pos: "0 < cap"
begin

lemma mod_neq: "i < n \<Longrightarrow> n - i < cap \<Longrightarrow> i mod cap \<noteq> n mod cap"
  by (metis dvd_imp_le mod_eq_dvd_iff_nat less_imp_le not_le zero_less_diff)

lemma ring_fill_slot:
  assumes "i < length es" "length es \<le> i + cap"
  shows "ring_fill cap 0 es slots (i mod cap) = es ! i"
  using assms
proof (induction es rule: rev_induct)
  case (snoc e es)
  then show ?case
    by (cases "i = length es") (auto simp: ring_fill_append ring_put_def nth_append mod_neq)
qed simp

lemma ring_fill_untouched: "length es \<le> i \<Longrightarrow> i < cap \<Longrightarrow> ring_fill cap 0 es slots i = slots i"
  by (induction es rule: rev_induct) (auto simp: ring_fill_append ring_put_def)

lemma ring_recent_fill:
  "ring_recent cap (length es) want (ring_fill cap 0 es slots) =
     drop (length es - min want (min (length es) cap)) es" (is "?l = ?r")
proof (rule nth_equalityI)
  let ?w = "min want (min (length es) cap)"
  have w: "(if want < (if length es < cap then length es else cap) then want else (if length es < cap then length es else cap)) = ?w" by auto
  show len: "length ?l = length ?r" by (auto simp: ring_recent_def Let_def w)
  fix i assume "i < length ?l"
  then have i: "i < ?w" using len by simp
  have "ring_fill cap 0 es slots ((length es - ?w + i) mod cap) = es ! (length es - ?w + i)"
    using i by (intro ring_fill_slot) auto
  then show "?l ! i = ?r ! i" using i by (simp add: ring_recent_def Let_def w mod_add_left_eq)
qed

end

end
