(* ===== verification/Trace.thy ===== *)
theory Trace
  imports RingLog
begin

text \<open>
  The ring of recent system calls and the boot snapshot (\<^verbatim>\<open>ultra_trace.cpp\<close>). The clock readings and the
  guest thread of a record are arguments; a record is written in one step (readers that race with a
  writer are not modelled). The counters keep their widths: the boot snapshot is indexed by a 32-bit
  counter.
\<close>

unbundle bit_operations_syntax

definition kCapacity :: u32 where "kCapacity = 16384"
definition kMask :: u32 where "kMask = kCapacity - 1"
definition kBootCapacity :: u32 where "kBootCapacity = 32768"

record Slot =
  tr_seq :: u64
  tr_name :: string
  tr_pc :: u32
  tr_args :: "u32 \<times> u32 \<times> u32 \<times> u32"
  tr_thread :: u32
  tr_thread_id :: u16
  tr_ms :: u64

record ultra_trace =
  g_ring :: "nat \<Rightarrow> Slot"
  g_boot :: "nat \<Rightarrow> Slot"
  g_write_idx :: u64
  g_boot_count :: u32
  g_rdram :: u64
  g_origin_ns :: u64

definition empty_slot :: Slot where
  "empty_slot = \<lparr>tr_seq = - 1, tr_name = [], tr_pc = 0, tr_args = (0, 0, 0, 0), tr_thread = 0, tr_thread_id = 0, tr_ms = 0\<rparr>"

definition empty_trace :: ultra_trace where
  "empty_trace = \<lparr>g_ring = (\<lambda>_. empty_slot), g_boot = (\<lambda>_. empty_slot), g_write_idx = 0, g_boot_count = 0, g_rdram = 0, g_origin_ns = 0\<rparr>"

text \<open>What a caller hands over, with the readings of the clock and the guest thread of the host thread it runs on.\<close>

record trace_call =
  c_name :: "string option"
  c_pc :: u32
  c_args :: "u32 \<times> u32 \<times> u32 \<times> u32"
  c_self :: u32
  c_self_id :: u32
  c_now :: u64
  c_later :: u64

definition current_guest_thread :: "trace_call \<Rightarrow> ultra_trace \<Rightarrow> u32 \<times> u16" where
  "current_guest_thread c tr = (if g_rdram tr = 0 \<or> c_self c = 0 then (0, 0) else (c_self c, ucast (c_self_id c)))"

text \<open>\<^verbatim>\<open>strncpy\<close> into 40 bytes with the last one zeroed.\<close>

definition slot_name :: "string option \<Rightarrow> string" where
  "slot_name name = (case name of None \<Rightarrow> [] | Some s \<Rightarrow> take 39 s)"

definition fill :: "trace_call \<Rightarrow> u64 \<Rightarrow> u64 \<Rightarrow> ultra_trace \<Rightarrow> Slot" where
  "fill c seq origin tr = \<lparr>tr_seq = seq, tr_name = slot_name (c_name c), tr_pc = c_pc c, tr_args = c_args c,
     tr_thread = fst (current_guest_thread c tr), tr_thread_id = snd (current_guest_thread c tr),
     tr_ms = (c_later c - origin) div 1000000\<rparr>"

definition recomp_ultra_trace_record :: "trace_call \<Rightarrow> ultra_trace \<Rightarrow> ultra_trace" where
  "recomp_ultra_trace_record c tr = (let
     origin = (if g_origin_ns tr = 0 then c_now c else g_origin_ns tr);
     seq = g_write_idx tr;
     s = fill c seq origin tr;
     b = g_boot_count tr;
     tr = tr\<lparr>g_origin_ns := origin, g_write_idx := seq + 1, g_ring := (g_ring tr)(unat (seq AND ucast kMask) := s), g_boot_count := b + 1\<rparr> in
     if b < kBootCapacity then tr\<lparr>g_boot := (g_boot tr)(unat b := s)\<rparr> else tr)"

definition recomp_runtime_set_rdram :: "u64 \<Rightarrow> ultra_trace \<Rightarrow> ultra_trace" where
  "recomp_runtime_set_rdram rdram tr = (if g_rdram tr = 0 then tr\<lparr>g_rdram := rdram\<rparr> else tr)"

text \<open>The record and whether it is valid.\<close>

definition recomp_ultra_trace_get :: "u64 \<Rightarrow> ultra_trace \<Rightarrow> bool \<times> Slot" where
  "recomp_ultra_trace_get idx tr = (let s = g_ring tr (unat (idx AND ucast kMask)) in (tr_seq s = idx, s))"

definition recomp_ultra_trace_boot_count :: "ultra_trace \<Rightarrow> u32" where
  "recomp_ultra_trace_boot_count tr = (if g_boot_count tr < kBootCapacity then g_boot_count tr else kBootCapacity)"

definition recomp_ultra_trace_boot_get :: "u32 \<Rightarrow> ultra_trace \<Rightarrow> (bool \<times> Slot) option" where
  "recomp_ultra_trace_boot_get pos tr = (if pos \<ge> kBootCapacity then None
     else let s = g_boot tr (unat pos) in Some (tr_seq s \<noteq> - 1, s))"

section \<open>What the ring holds\<close>

interpretation trace_ring: ring_log 16384
  by unfold_locales simp

lemma mask_index: "unat ((of_nat n :: u64) AND ucast kMask) = n mod 16384" if "n < 2 ^ 64"
proof -
  have m: "ucast kMask = (mask 14 :: u64)" by (simp add: kMask_def kCapacity_def mask_eq_exp_minus_1)
  have "unat ((of_nat n :: u64) AND mask 14) = unat (of_nat n :: u64) mod 2 ^ 14"
    unfolding take_bit_eq_mask [symmetric] by (simp add: take_bit_eq_mod unat_mod)
  then show ?thesis using that by (simp add: m unsigned_of_nat take_bit_nat_eq_self)
qed

definition record_all :: "trace_call list \<Rightarrow> ultra_trace" where
  "record_all cs = fold recomp_ultra_trace_record cs empty_trace"

lemma record_all_snoc: "record_all (cs @ [c]) = recomp_ultra_trace_record c (record_all cs)"
  by (simp add: record_all_def)

lemma record_all_counts: "g_write_idx (record_all cs) = of_nat (length cs)" "g_boot_count (record_all cs) = of_nat (length cs)"
  by (induction cs rule: rev_induct) (simp_all add: record_all_def empty_trace_def recomp_ultra_trace_record_def Let_def add.commute)

text \<open>The slot of the n-th call of a run.\<close>

definition slot_of :: "trace_call list \<Rightarrow> nat \<Rightarrow> Slot" where
  "slot_of cs n = (let tr = record_all (take n cs); c = cs ! n in
     fill c (of_nat n) (if g_origin_ns tr = 0 then c_now c else g_origin_ns tr) tr)"

lemma slot_of_append: "n < length cs \<Longrightarrow> slot_of (cs @ cs') n = slot_of cs n"
  by (simp add: slot_of_def nth_append)

lemma slot_of_last: "slot_of (cs @ [c]) (length cs) = (let tr = record_all cs in fill c (of_nat (length cs)) (if g_origin_ns tr = 0 then c_now c else g_origin_ns tr) tr)"
  by (simp add: slot_of_def)

lemma ring_contents:
  "length cs \<le> 2 ^ 64 \<Longrightarrow> g_ring (record_all cs) = ring_fill 16384 0 (map (slot_of cs) [0..<length cs]) (\<lambda>_. empty_slot)"
proof (induction cs rule: rev_induct)
  case (snoc c cs)
  then have n: "length cs < 2 ^ 64" by simp
  have m: "map (slot_of (cs @ [c])) [0..<length cs] = map (slot_of cs) [0..<length cs]" by (simp add: slot_of_append)
  show ?case using snoc n
    by (simp add: m fun_upd_def record_all_snoc ring_fill_append ring_put_def recomp_ultra_trace_record_def Let_def record_all_counts mask_index slot_of_last)
qed (simp add: record_all_def empty_trace_def)

lemma boot_contents:
  "length cs \<le> 2 ^ 32 \<Longrightarrow> n < length cs \<Longrightarrow> n < 32768 \<Longrightarrow> g_boot (record_all cs) n = slot_of cs n"
proof (induction cs rule: rev_induct)
  case (snoc c cs)
  then have l: "length cs < 2 ^ 32" by simp
  have u: "unat (of_nat (length cs) :: u32) = length cs" using l by (simp add: unsigned_of_nat take_bit_nat_eq_self)
  show ?case using snoc u
    by (cases "n = length cs")
       (auto simp: record_all_snoc recomp_ultra_trace_record_def Let_def record_all_counts slot_of_append slot_of_last kBootCapacity_def word_less_nat_alt)
qed simp

text \<open>
  After any run, asking for the record of a call that the ring still covers (the last 16384) is answered with that record
  and as valid; asking for an older one, or one that has not happened yet, is answered as invalid.
\<close>

theorem trace_get_window:
  assumes "length cs < 2 ^ 64" and "idx < - 1"
  shows "fst (recomp_ultra_trace_get idx (record_all cs)) \<longleftrightarrow> unat idx < length cs \<and> length cs \<le> unat idx + 16384" (is ?A)
    and "fst (recomp_ultra_trace_get idx (record_all cs)) \<Longrightarrow> snd (recomp_ultra_trace_get idx (record_all cs)) = slot_of cs (unat idx)"
proof -
  let ?n = "length cs"
  have i: "unat (idx AND ucast kMask) = unat idx mod 16384" using mask_index [of "unat idx"] unsigned_less [of idx] by simp
  have seq: "tr_seq (slot_of cs k) = of_nat k" for k by (simp add: slot_of_def fill_def Let_def)
  have g: "recomp_ultra_trace_get idx (record_all cs) = (tr_seq (ring_fill 16384 0 (map (slot_of cs) [0..<?n]) (\<lambda>_. empty_slot) (unat idx mod 16384)) = idx,
      ring_fill 16384 0 (map (slot_of cs) [0..<?n]) (\<lambda>_. empty_slot) (unat idx mod 16384))"
    using assms(1) by (simp add: recomp_ultra_trace_get_def Let_def i ring_contents)
  have hit: "ring_fill 16384 0 (map (slot_of cs) [0..<?n]) (\<lambda>_. empty_slot) (unat idx mod 16384) = slot_of cs (unat idx)"
    if "unat idx < ?n" "?n \<le> unat idx + 16384" using that trace_ring.ring_fill_slot [of "unat idx" "map (slot_of cs) [0..<?n]"] by simp
  have miss: "tr_seq (ring_fill 16384 0 (map (slot_of cs) [0..<?n]) (\<lambda>_. empty_slot) (unat idx mod 16384)) \<noteq> idx"
    if no: "\<not> (unat idx < ?n \<and> ?n \<le> unat idx + 16384)"
  proof (cases "unat idx mod 16384 < ?n")
    case False
    then show ?thesis using trace_ring.ring_fill_untouched [of "map (slot_of cs) [0..<?n]" "unat idx mod 16384"] assms(2)
      by (auto simp: empty_slot_def)
  next
    case True
    define k where "k = unat idx mod 16384 + (?n - 1 - unat idx mod 16384) div 16384 * 16384"
    have k: "k < ?n" "?n \<le> k + 16384" "k mod 16384 = unat idx mod 16384"
      using True div_mult_mod_eq [of "?n - 1 - unat idx mod 16384" 16384] mod_less_divisor [of 16384 "?n - 1 - unat idx mod 16384"]
      unfolding k_def by linarith+ simp
    have "ring_fill 16384 0 (map (slot_of cs) [0..<?n]) (\<lambda>_. empty_slot) (unat idx mod 16384) = slot_of cs k"
      using trace_ring.ring_fill_slot [of k "map (slot_of cs) [0..<?n]"] k by simp
    moreover have "of_nat k \<noteq> idx"
      using k no assms(1) by (auto simp: unsigned_of_nat take_bit_nat_eq_self)
    ultimately show ?thesis by (simp add: seq)
  qed
  show ?A using hit miss by (auto simp: g seq)
  show "fst (recomp_ultra_trace_get idx (record_all cs)) \<Longrightarrow> snd (recomp_ultra_trace_get idx (record_all cs)) = slot_of cs (unat idx)"
    using hit miss by (auto simp: g)
qed

text \<open>
  The boot snapshot is not kept for good: its counter has 32 bits, and call number 2 to the 32 overwrites the first record.
\<close>

theorem boot_snapshot_wraps:
  assumes "length cs = 2 ^ 32"
  shows "g_boot (record_all (cs @ [c])) 0 = slot_of (cs @ [c]) (2 ^ 32)"
  using assms by (simp add: record_all_snoc recomp_ultra_trace_record_def Let_def record_all_counts slot_of_def nth_append kBootCapacity_def)

text \<open>The index that marks an unwritten slot counts as found there.\<close>

lemma sentinel_reads_valid: "fst (recomp_ultra_trace_get (- 1) empty_trace)"
  by (simp add: recomp_ultra_trace_get_def empty_trace_def empty_slot_def Let_def)

end
