(* ===== verification/SpTask.thy ===== *)
theory SpTask
  imports RspMemory RingLog MesgQueue
begin

text \<open>
  RSP tasks (\<^verbatim>\<open>librecomp/sp.cpp\<close>, \<^verbatim>\<open>librecomp/rsp.cpp\<close>) and the status registers of the RSP and RDP
  (\<^verbatim>\<open>librecomp/rsp.cpp\<close>, \<^verbatim>\<open>librecomp/dp.cpp\<close>). \<open>host off\<close> is the 32-bit word at byte offset \<open>off\<close> of the
  host's copy of guest memory; \<^verbatim>\<open>TO_PTR\<close> goes to offset \<open>vaddr - 0x80000000\<close>, and \<^verbatim>\<open>read_rdram_word\<close> to the physical
  address. The microcode a task runs is generated code: \<open>get_rsp_microcode\<close> is a parameter.
\<close>

unbundle bit_operations_syntax

section \<open>Tasks\<close>

record OSTask =
  t_type :: u32
  t_flags :: u32
  ucode_boot :: u32
  ucode_boot_size :: u32
  ucode :: u32
  ucode_size :: u32
  ucode_data :: u32
  ucode_data_size :: u32
  dram_stack :: u32
  dram_stack_size :: u32
  output_buff :: u32
  output_buff_size :: u32
  data_ptr :: u32
  data_size :: u32
  yield_data_ptr :: u32
  yield_data_size :: u32

definition to_offset :: "u32 \<Rightarrow> u32" where
  "to_offset vaddr = vaddr - 0x80000000"

definition read_task :: "(u32 \<Rightarrow> u32) \<Rightarrow> u32 \<Rightarrow> OSTask" where
  "read_task host vaddr = (let w = (\<lambda>i. host (to_offset vaddr + 4 * i)) in
     \<lparr>t_type = w 0, t_flags = w 1, ucode_boot = w 2, ucode_boot_size = w 3, ucode = w 4, ucode_size = w 5, ucode_data = w 6,
      ucode_data_size = w 7, dram_stack = w 8, dram_stack_size = w 9, output_buff = w 10, output_buff_size = w 11,
      data_ptr = w 12, data_size = w 13, yield_data_ptr = w 14, yield_data_size = w 15\<rparr>)"

definition task_words :: "OSTask \<Rightarrow> u32 list" where
  "task_words t = [t_type t, t_flags t, ucode_boot t, ucode_boot_size t, ucode t, ucode_size t, ucode_data t, ucode_data_size t,
     dram_stack t, dram_stack_size t, output_buff t, output_buff_size t, data_ptr t, data_size t, yield_data_ptr t, yield_data_size t]"

section \<open>The task log and the checks before a task starts\<close>

definition RDRAM_SIZE :: u32 where "RDRAM_SIZE = 8 * 1024 * 1024"
definition kMaxTaskDataSize :: u32 where "kMaxTaskDataSize = 0x100000"

definition rdram_range :: "u32 \<Rightarrow> u32 \<Rightarrow> bool" where
  "rdram_range vaddr sz = (let paddr = vaddr AND 0x1FFFFFFF in paddr < RDRAM_SIZE \<and> sz \<le> RDRAM_SIZE - paddr)"

definition read_rdram_word :: "(u32 \<Rightarrow> u32) \<Rightarrow> u32 \<Rightarrow> u32" where
  "read_rdram_word host vaddr = (if \<not> rdram_range vaddr 4 then 0 else host (vaddr AND 0x1FFFFFFF))"

definition known_task_type :: "u32 \<Rightarrow> bool" where
  "known_task_type ty \<longleftrightarrow> ty = 1 \<or> ty = 2 \<or> ty = 3 \<or> ty = 4 \<or> ty = 6"

definition task_data_shape_sane :: "OSTask \<Rightarrow> bool" where
  "task_data_shape_sane t =
     (if data_size t = 0 \<or> data_size t > kMaxTaskDataSize then False
      else if data_ptr t = 0 \<or> \<not> rdram_range (data_ptr t) (data_size t) then False else True)"

definition task_shape_runnable :: "OSTask \<Rightarrow> bool" where
  "task_shape_runnable t =
     (if \<not> known_task_type (t_type t) then False
      else let has_ucode = ucode t \<noteq> 0 \<and> rdram_range (ucode t) 1;
               has_boot = ucode_boot t \<noteq> 0 \<and> ucode_boot_size t \<noteq> 0 \<and> rdram_range (ucode_boot t) 1 in
        if \<not> has_ucode \<and> \<not> has_boot then False
        else if has_boot then True
        else task_data_shape_sane t)"

definition task_audio_probe_safe :: "OSTask \<Rightarrow> bool" where
  "task_audio_probe_safe t \<longleftrightarrow> ucode t \<noteq> 0 \<and> task_data_shape_sane t"

definition copy_words :: "(u32 \<Rightarrow> u32) \<Rightarrow> u32 \<Rightarrow> nat \<Rightarrow> u32 list" where
  "copy_words host vaddr n = map (\<lambda>i. read_rdram_word host (vaddr + of_nat (i * 4))) [0..<n]"

record sp_event =
  e_seq :: nat
  e_stamps :: "u64 \<times> u64 \<times> u64"
  e_mips_ra :: u32
  e_task_ptr :: u32
  e_wrapper_ptr :: u32
  e_suspect :: u32
  e_task :: "OSTask option"
  e_wrapper_words :: "u32 list"
  e_task_words :: "u32 list"

record sp_log =
  sp_ring :: "nat \<Rightarrow> sp_event"
  sp_next_seq :: nat

definition RING_CAP :: nat where "RING_CAP = 4096"

definition suspect_bits :: "u32 \<Rightarrow> OSTask option \<Rightarrow> u32" where
  "suspect_bits task_ptr t = (let
     ty = (case t of None \<Rightarrow> 0 | Some t \<Rightarrow> t_type t);
     uc = (case t of None \<Rightarrow> 0 | Some t \<Rightarrow> ucode t);
     dp = (case t of None \<Rightarrow> 0 | Some t \<Rightarrow> data_ptr t);
     ds = (case t of None \<Rightarrow> 0 | Some t \<Rightarrow> data_size t);
     checked_size = (if ds > kMaxTaskDataSize then kMaxTaskDataSize else ds) in
     (if \<not> rdram_range task_ptr 64 then 1 else 0) OR
     (if \<not> known_task_type ty then 2 else 0) OR
     (if uc = 0 then 4 else if \<not> rdram_range uc 1 then 8 else 0) OR
     (if ds = 0 \<or> ds > kMaxTaskDataSize then 0x20 else 0) OR
     (if dp = 0 \<or> \<not> rdram_range dp checked_size then 0x10 else 0))"

definition make_event :: "(u32 \<Rightarrow> u32) \<Rightarrow> u64 \<times> u64 \<times> u64 \<Rightarrow> OSTask option \<Rightarrow> u32 \<Rightarrow> u32 \<Rightarrow> nat \<Rightarrow> sp_event" where
  "make_event host stamps t task_ptr ra s = (let wrapper = task_ptr - 0x20 in
     \<lparr>e_seq = s, e_stamps = stamps, e_mips_ra = ra, e_task_ptr = task_ptr, e_wrapper_ptr = wrapper, e_suspect = suspect_bits task_ptr t,
      e_task = t, e_wrapper_words = (if rdram_range wrapper 48 then copy_words host wrapper 12 else replicate 12 0),
      e_task_words = (if rdram_range task_ptr 64 then copy_words host task_ptr 16 else replicate 16 0)\<rparr>)"

definition sp_record :: "(u32 \<Rightarrow> u32) \<Rightarrow> u64 \<times> u64 \<times> u64 \<Rightarrow> OSTask option \<Rightarrow> u32 \<Rightarrow> u32 \<Rightarrow> sp_log \<Rightarrow> sp_log" where
  "sp_record host stamps t task_ptr ra log = (let s = sp_next_seq log in
     \<lparr>sp_ring = ring_put RING_CAP s (make_event host stamps t task_ptr ra s) (sp_ring log), sp_next_seq = s + 1\<rparr>)"

definition recomp_sp_task_recent_copy :: "nat \<Rightarrow> sp_log \<Rightarrow> nat \<times> sp_event list" where
  "recomp_sp_task_recent_copy cap log = (sp_next_seq log, ring_recent RING_CAP (sp_next_seq log) cap (sp_ring log))"

text \<open>
  \<^verbatim>\<open>osSpTaskStartGo\<close>: what it logs, the commands of an audio task it hands to the voice ring, and the
  task it submits.
\<close>

datatype task_start = RefusedPointer | RefusedShape | Submitted OSTask

definition osSpTaskStartGo_recomp :: "(u32 \<Rightarrow> u32) \<Rightarrow> u64 \<times> u64 \<times> u64 \<Rightarrow> u32 \<Rightarrow> u32 \<Rightarrow> sp_log \<Rightarrow> task_start \<times> (u32 \<times> u32) option \<times> sp_log" where
  "osSpTaskStartGo_recomp host stamps task_vaddr ra log = (let
     t = (if rdram_range task_vaddr 64 then Some (read_task host task_vaddr) else None);
     log = sp_record host stamps t task_vaddr ra log in
     case t of
       None \<Rightarrow> (RefusedPointer, None, log)
     | Some t \<Rightarrow> if \<not> task_shape_runnable t then (RefusedShape, None, log)
         else (Submitted t, if t_type t = 2 \<and> task_audio_probe_safe t then Some (data_ptr t, data_size t) else None, log))"

section \<open>The status registers\<close>

definition apply_pair :: "u32 \<Rightarrow> nat \<Rightarrow> nat \<Rightarrow> nat \<Rightarrow> u32 \<Rightarrow> u32" where
  "apply_pair v clear_bit set_b read_bit status = (let clear = bit v clear_bit; st = bit v set_b in
     if clear = st then status else if st then status OR push_bit read_bit 1 else status AND NOT (push_bit read_bit 1))"

definition apply_sp_status_write :: "u32 \<Rightarrow> u32 \<Rightarrow> u32" where
  "apply_sp_status_write status v = (let
     status = apply_pair v 0 1 0 status;
     status = (if bit v 2 then status AND NOT (push_bit 1 1) else status);
     status = apply_pair v 5 6 5 status;
     status = apply_pair v 7 8 6 status in
     fold (\<lambda>i. apply_pair v (9 + i * 2) (10 + i * 2) (7 + i)) [0..<8] status)"

definition kSpStatusSignal3 :: u32 where "kSpStatusSignal3 = push_bit 10 1"

text \<open>The host's copy of the status beside the kernel state; the guest reads the word at \<^verbatim>\<open>0xA4040010\<close>.\<close>

record rcp =
  rcp_os :: os
  g_sp_status :: u32

definition publish_sp_status :: "'a rcp_scheme \<Rightarrow> 'a rcp_scheme" where
  "publish_sp_status r = r\<lparr>rcp_os := upd kSpStatusAddr (g_sp_status r) (rcp_os r)\<rparr>"

definition write_sp_status :: "u32 \<Rightarrow> 'a rcp_scheme \<Rightarrow> 'a rcp_scheme" where
  "write_sp_status v r = publish_sp_status (r\<lparr>g_sp_status := apply_sp_status_write (g_sp_status r) v\<rparr>)"

definition mark_sp_task_complete :: "u32 \<Rightarrow> 'a rcp_scheme \<Rightarrow> 'a rcp_scheme" where
  "mark_sp_task_complete task_type r = publish_sp_status
     (if task_type = 1 then r\<lparr>g_sp_status := g_sp_status r OR kSpStatusSignal3, rcp_os := (rcp_os r)\<lparr>preempt_skip_budget := 2\<rparr>\<rparr> else r)"

record DpRegisters =
  dp_start :: u32
  dp_end :: u32
  dp_current :: u32
  dp_status :: u32
  dp_clock :: u32
  dp_bufbusy :: u32
  dp_pipebusy :: u32
  dp_tmem :: u32

definition apply_status_request :: "u32 \<Rightarrow> u32 \<Rightarrow> nat \<Rightarrow> u32" where
  "apply_status_request status write_word bit_index = (let
     want_clear = bit write_word (bit_index * 2); want_set = bit write_word (bit_index * 2 + 1) in
     if want_set = want_clear then status
     else if want_set then status OR push_bit bit_index 1 else status AND NOT (push_bit bit_index 1))"

definition dp_registers :: DpRegisters where
  "dp_registers = \<lparr>dp_start = 0, dp_end = 0, dp_current = 0, dp_status = push_bit 7 1, dp_clock = 0, dp_bufbusy = 0, dp_pipebusy = 0, dp_tmem = 0\<rparr>"

definition osDpSetStatus_recomp :: "u32 \<Rightarrow> DpRegisters \<Rightarrow> DpRegisters" where
  "osDpSetStatus_recomp v r = (let
     status = apply_status_request (dp_status r) v 0;
     status = apply_status_request status v 1;
     status = apply_status_request status v 2 in r\<lparr>dp_status := status\<rparr>)"

definition osDpGetCounters_recomp :: "DpRegisters \<Rightarrow> u32 list" where
  "osDpGetCounters_recomp r = [dp_clock r, dp_bufbusy r, dp_pipebusy r, dp_tmem r]"

section \<open>Running a task\<close>

datatype RspExitReason = Invalid | Broke | ImemOverrun | UnhandledJumpTarget | Unsupported | SwapOverlay | UnhandledResumeTarget | Watchdog

text \<open>The value it returns, or the failed assertion on another exit of the microcode.\<close>

datatype run_result = RunReturned bool | RunAssertFailed

definition task_data_size :: "OSTask \<Rightarrow> u32" where
  "task_data_size t = (let sz = ucode_data_size t; sz = (if sz = 0 then 0xF80 else sz) in if sz > 0xFC0 then 0xFC0 else sz)"

text \<open>\<^verbatim>\<open>memcpy(&dmem[off], ...)\<close> of 32-bit words: bytes in the order of the host.\<close>

definition memcpy_words :: "12 word \<Rightarrow> u32 list \<Rightarrow> dmem \<Rightarrow> dmem" where
  "memcpy_words off ws d = fold (\<lambda>i d. d(off + of_nat i := val_byte (i mod 4) (ws ! (i div 4)))) [0..<4 * length ws] d"

definition load_task :: "('m \<Rightarrow> u32 \<Rightarrow> u8) \<Rightarrow> 'm \<Rightarrow> OSTask \<Rightarrow> dmem \<Rightarrow> dmem" where
  "load_task rd m t d = (let sz = task_data_size t;
     d = (if sz \<noteq> 0 then dma_rdram_to_dmem rd m 0 (ucode_data t) (sz - 1) d else d) in
     memcpy_words 0xFC0 (task_words t) d)"

definition run_task :: "('m \<Rightarrow> u32 \<Rightarrow> u8) \<Rightarrow> (OSTask \<Rightarrow> 'm \<Rightarrow> (u32 \<Rightarrow> dmem \<times> 'm \<Rightarrow> RspExitReason \<times> dmem \<times> 'm) option) \<Rightarrow>
    OSTask \<Rightarrow> dmem \<times> 'm \<Rightarrow> run_result \<times> dmem \<times> 'm" where
  "run_task rd get_rsp_microcode t dm = (case get_rsp_microcode t (snd dm) of
     None \<Rightarrow> (RunReturned False, dm)
   | Some ucode_func \<Rightarrow> (case ucode_func (ucode t) (load_task rd (snd dm) t (fst dm), snd dm) of (exit_reason, dm) \<Rightarrow>
       (if exit_reason \<noteq> Broke then if exit_reason = Watchdog then RunReturned False else RunAssertFailed
        else RunReturned True, dm)))"

section \<open>Hooks before a task\<close>

definition set_pre_task_hook :: "string option \<Rightarrow> 'h option \<Rightarrow> (string \<rightharpoonup> 'h) \<Rightarrow> (string \<rightharpoonup> 'h)" where
  "set_pre_task_hook name hook hooks = (case name of None \<Rightarrow> hooks | Some n \<Rightarrow>
     (case hook of None \<Rightarrow> hooks(n := None) | Some h \<Rightarrow> hooks(n \<mapsto> h)))"

definition run_pre_task_hook :: "('s \<Rightarrow> string \<Rightarrow> u32 \<Rightarrow> 's) option \<Rightarrow> string option \<Rightarrow> u32 \<Rightarrow> 's \<Rightarrow> 's" where
  "run_pre_task_hook hook name ucode_addr s = (case name of None \<Rightarrow> s | Some n \<Rightarrow> (case hook of None \<Rightarrow> s | Some h \<Rightarrow> h s n ucode_addr))"

section \<open>The DMA trace\<close>

record RspDmaTraceEvent =
  d_seq :: nat
  d_write :: bool
  d_dmem_addr :: u32
  d_dram_addr :: u32
  d_byte_count :: u32
  d_nonzero :: nat
  d_first_nonzero :: int
  d_first :: "u8 list"

definition trace_dma :: "nat \<Rightarrow> dmem \<Rightarrow> bool \<Rightarrow> u32 \<Rightarrow> u32 \<Rightarrow> u32 \<Rightarrow> (nat \<Rightarrow> RspDmaTraceEvent) \<times> nat \<Rightarrow> (nat \<Rightarrow> RspDmaTraceEvent) \<times> nat" where
  "trace_dma cap d write dmem_addr dram_addr byte_count tr = (case tr of (slots, seq) \<Rightarrow> let
     capped = unat (min byte_count (0x1000 - (dmem_addr AND 0xFFF)));
     bs = map (\<lambda>i. RSP_MEM_B d (of_nat i) dmem_addr) [0..<capped];
     ev = \<lparr>d_seq = seq, d_write = write, d_dmem_addr = dmem_addr, d_dram_addr = dram_addr, d_byte_count = byte_count,
           d_nonzero = length (filter (\<lambda>b. b \<noteq> 0) bs),
           d_first_nonzero = (case find (\<lambda>i. bs ! i \<noteq> 0) [0..<capped] of None \<Rightarrow> - 1 | Some i \<Rightarrow> int i),
           d_first = take 80 bs @ replicate (80 - capped) 0\<rparr> in
     (ring_put cap seq ev slots, seq + 1))"

definition recomp_rsp_dma_recent_copy :: "nat \<Rightarrow> nat \<Rightarrow> (nat \<Rightarrow> RspDmaTraceEvent) \<times> nat \<Rightarrow> RspDmaTraceEvent list" where
  "recomp_rsp_dma_recent_copy cap out_cap tr = (case tr of (slots, write_index) \<Rightarrow> let
     count = min write_index cap; count = (if count > out_cap then out_cap else count); start = write_index - count in
     map (\<lambda>i. slots ((start + i) mod cap)) [0..<count])"

end
