(* ===== verification/SpTaskProps.thy ===== *)
theory SpTaskProps
  imports SpTask RspDma
begin

text \<open>
  Properties of RSP tasks: what is in DMEM when the microcode starts, which tasks are refused, the meaning
  of writes to the status registers, and what the logs return.
\<close>

unbundle bit_operations_syntax

section \<open>Status writes\<close>

lemma bit_apply_pair:
  "k < 32 \<Longrightarrow> bit (apply_pair v c s r st) k =
     (if k = r then if bit v c = bit v s then bit st k else bit v s else bit st k)"
  by (auto simp: apply_pair_def Let_def bit_simps)

text \<open>The request bits (clear, set) that control each readable bit of the RSP status.\<close>

definition request_pair :: "nat \<Rightarrow> (nat \<times> nat) option" where
  "request_pair k = (if k = 0 then Some (0, 1) else if k = 5 then Some (5, 6) else if k = 6 then Some (7, 8)
     else if 7 \<le> k \<and> k < 15 then Some (2 * k - 5, 2 * k - 4) else None)"

lemma bit_fold_pairs:
  "k < 32 \<Longrightarrow> bit (fold (\<lambda>i. apply_pair v (9 + i * 2) (10 + i * 2) (7 + i)) [0..<n] st) k =
     (if 7 \<le> k \<and> k < 7 + n then if bit v (2 * k - 5) = bit v (2 * k - 4) then bit st k else bit v (2 * k - 4) else bit st k)"
proof (induction n)
  case (Suc n)
  then show ?case by (auto simp: bit_apply_pair mult.commute [of n 2])
qed simp

theorem sp_status_write_bits:
  assumes "k < 32"
  shows "bit (apply_sp_status_write status v) k = (if k = 1 then bit status 1 \<and> \<not> bit v 2
     else case request_pair k of None \<Rightarrow> bit status k
       | Some (clear, st) \<Rightarrow> if bit v clear = bit v st then bit status k else bit v st)"
  using assms unfolding apply_sp_status_write_def Let_def
  by (subst bit_fold_pairs) (auto simp: bit_apply_pair request_pair_def bit_simps)

section \<open>DMEM at the start of a task\<close>

lemma memcpy_at:
  assumes "4 * length ws \<le> 4096" "i < 4 * length ws"
  shows "memcpy_words off ws d (off + of_nat i) = val_byte (i mod 4) (ws ! (i div 4))"
proof -
  have "fold (\<lambda>i d. d(off + of_nat i := val_byte (i mod 4) (ws ! (i div 4)))) [0..<n] d (off + of_nat i) = val_byte (i mod 4) (ws ! (i div 4))"
    if "i < n" "n \<le> 4096" for n using that
  proof (induction n)
    case (Suc n)
    have "(of_nat i :: 12 word) = of_nat n \<longleftrightarrow> i = n"
      using Suc.prems of_nat_inj [of 4096 i n, where 'a = 12] by auto
    with Suc show ?case by (cases "i = n") auto
  qed simp
  then show ?thesis using assms by (simp add: memcpy_words_def)
qed

lemma memcpy_other: "(\<And>i. i < 4 * length ws \<Longrightarrow> a \<noteq> off + of_nat i) \<Longrightarrow> memcpy_words off ws d a = d a"
proof -
  assume o: "\<And>i. i < 4 * length ws \<Longrightarrow> a \<noteq> off + of_nat i"
  have "fold (\<lambda>i d. d(off + of_nat i := val_byte (i mod 4) (ws ! (i div 4)))) [0..<n] d a = d a" if "n \<le> 4 * length ws" for n
    using that by (induction n) (auto simp: o)
  then show ?thesis by (simp add: memcpy_words_def)
qed


lemma task_block_index:
  "k < 16 \<Longrightarrow> i < 4 \<Longrightarrow> (ucast ((4 * of_nat k + of_nat i + 0xFC0 :: u32) XOR 3) :: 12 word) = 0xFC0 + of_nat (4 * k + (3 - i))"
proof -
  have "\<forall>k \<in> set [0..<16]. \<forall>i \<in> set [0..<4]. (ucast ((4 * of_nat k + of_nat i + 0xFC0 :: u32) XOR 3) :: 12 word) = 0xFC0 + of_nat (4 * k + (3 - i))"
    by code_simp
  then show "k < 16 \<Longrightarrow> i < 4 \<Longrightarrow> ?thesis" by simp
qed

lemma memcpy_word:
  assumes "k < length ws" "length ws = 16"
  shows "RSP_MEM_W_LOAD (memcpy_words 0xFC0 ws d) (4 * of_nat k) 0xFC0 = ws ! k"
proof -
  have "RSP_MEM_B (memcpy_words 0xFC0 ws d) (4 * of_nat k + of_nat i) 0xFC0 = val_byte (3 - i) (ws ! k)" if "i < 4" for i
  proof -
    define q where "q = 3 - i"
    have q: "(ucast ((4 * of_nat k + of_nat i + 0xFC0 :: u32) XOR 3) :: 12 word) = 0xFC0 + of_nat (4 * k + q)" "q < 4"
      using task_block_index [of k i] that assms by (simp_all only: q_def)
    have "memcpy_words 0xFC0 ws d (0xFC0 + of_nat (4 * k + q)) = val_byte q (ws ! k)"
      using memcpy_at [of ws "4 * k + q" "0xFC0" d] q(2) assms by simp
    then show ?thesis unfolding RSP_MEM_B_def q(1) q_def .
  qed
  from this [of 0] this [of 1] this [of 2] this [of 3]
  have "RSP_MEM_W_LOAD (memcpy_words 0xFC0 ws d) (4 * of_nat k) 0xFC0 =
      set_val_byte 0 (val_byte 0 (ws ! k)) (set_val_byte 1 (val_byte 1 (ws ! k)) (set_val_byte 2 (val_byte 2 (ws ! k))
        (set_val_byte 3 (val_byte 3 (ws ! k)) 0)))"
    by (simp add: RSP_MEM_W_LOAD_def upt4)
  also have "\<dots> = ws ! k" by (rule bit_word_eqI) (simp add: bit_set_val_byte bit_val_byte; auto)
  finally show ?thesis .
qed

lemma low12: "x < 0x1000 \<Longrightarrow> take_bit 12 x = x" for x :: u32
  by (simp add: word_unat_eq_iff unsigned_take_bit_eq take_bit_nat_eq_self word_less_nat_alt)

lemma and_ff8: "unat (x AND 0xFF8) = unat x div 8 * 8" if "x < 0x1000" for x :: u32
proof -
  have t: "bit x n \<Longrightarrow> n < 12" for n using low12 [OF that] by (metis bit_take_bit_iff)
  have "x AND 0xFF8 = push_bit 3 (drop_bit 3 x)"
    unfolding masks by (rule bit_word_eqI) (auto simp: bit_simps dest: t)
  moreover have "unat (push_bit 3 (drop_bit 3 x)) = unat x div 8 * 8"
    using unsigned_less [where ?'a = nat, of x]
    by (simp add: unsigned_push_bit_eq unsigned_drop_bit_eq push_bit_eq_mult drop_bit_eq_div take_bit_nat_eq_self unat_word_ariths unat_div)
  ultimately show ?thesis by simp
qed

lemma dma_single_row:
  assumes "sz \<le> 0xFC0" "0 < sz"
  shows "dma_rdram_to_dmem rd m 0 a (sz - 1) d = dma_block_in rd m 0 (a AND 0xFFFFF8) (rsp_dma_block_len (sz - 1)) d"
    and "unat sz \<le> unat (rsp_dma_block_len (sz - 1))" "unat (rsp_dma_block_len (sz - 1)) \<le> 0xFC0"
proof -
  have u: "unat (sz - 1) = unat sz - 1" using assms(2) by (simp add: unat_sub word_le_nat_alt word_less_nat_alt)
  have sz: "0 < unat sz" "unat sz \<le> 0xFC0" using assms by (simp_all add: word_le_nat_alt word_less_nat_alt)
  have l: "sz - 1 < 0x1000" using u sz by (simp add: word_less_nat_alt)
  have "drop_bit 12 (sz - 1) = 0"
    using low12 [OF l] by (metis drop_bit_take_bit diff_self_eq_0 take_bit_0)
  then show "dma_rdram_to_dmem rd m 0 a (sz - 1) d = dma_block_in rd m 0 (a AND 0xFFFFF8) (rsp_dma_block_len (sz - 1)) d"
    by (simp add: dma_rdram_to_dmem_def dma_rows_def Let_def rsp_dma_count_def)
  have n: "unat ((sz - 1) AND 0xFF8) = (unat sz - 1) div 8 * 8" using and_ff8 [OF l] u by simp
  have "unat (rsp_dma_block_len (sz - 1)) = (unat sz - 1) div 8 * 8 + 8"
    unfolding rsp_dma_block_len_def using n sz by (simp add: unat_word_ariths)
  moreover have "(unat sz - 1) div 8 \<le> 503" using sz by simp
  ultimately show "unat sz \<le> unat (rsp_dma_block_len (sz - 1))" "unat (rsp_dma_block_len (sz - 1)) \<le> 0xFC0" using sz by linarith+
qed

lemma task_data_size_bounds: "0 < task_data_size t" "task_data_size t \<le> 0xFC0"
  by (auto simp: task_data_size_def Let_def word_gt_0)

lemma task_block_high: "i < 64 \<Longrightarrow> j < 0xFC0 \<Longrightarrow> (ucast ((of_nat j :: u32) XOR 3) :: 12 word) \<noteq> 0xFC0 + of_nat i"
proof
  assume ij: "i < 64" "j < 0xFC0" and e: "(ucast ((of_nat j :: u32) XOR 3) :: 12 word) = 0xFC0 + of_nat i"
  have m: "(3 :: u32) = mask 2" by (simp add: mask_eq_exp_minus_1)
  have "drop_bit 2 (ucast ((of_nat j :: u32) XOR 3) :: 12 word) = drop_bit 2 (of_nat j)"
    unfolding m by (intro bit_word_eqI) (auto simp: bit_simps)
  then have "unat (drop_bit 2 (of_nat j :: 12 word)) = unat (drop_bit 2 (0xFC0 + of_nat i :: 12 word))" by (simp only: e)
  then have "j div 4 = (0xFC0 + i) div 4"
    using ij by (simp add: unsigned_drop_bit_eq drop_bit_eq_div unat_div unsigned_of_nat take_bit_nat_eq_self unat_word_ariths)
  moreover have "j div 4 < 1008" using ij by (simp add: less_mult_imp_div_less)
  moreover have "1008 \<le> (0xFC0 + i) div 4" using div_le_mono [of "0xFC0" "0xFC0 + i" 4] by simp
  ultimately show False by linarith
qed

text \<open>
  When the microcode of a task starts, DMEM holds the data section of the task from address 0, up to
  its size and never past \<^verbatim>\<open>0xFC0\<close>, and the task structure itself in the last 64 bytes.
\<close>

theorem task_loaded:
  "(\<forall>i < unat (task_data_size t). mem_b (load_task rd m t d) (of_nat i) = rd m ((ucode_data t AND 0xFFFFF8) + of_nat i + 0x80000000)) \<and>
   (\<forall>k < 16. RSP_MEM_W_LOAD (load_task rd m t d) (4 * of_nat k) 0xFC0 = task_words t ! k)"
proof (intro conjI allI impI)
  let ?sz = "task_data_size t"
  let ?l = "rsp_dma_block_len (?sz - 1)"
  let ?d = "dma_block_in rd m 0 (ucode_data t AND 0xFFFFF8) ?l d"
  have e: "load_task rd m t d = memcpy_words 0xFC0 (task_words t) ?d"
    using task_data_size_bounds(1) [of t] dma_single_row(1) [OF task_data_size_bounds(2,1), of rd m "ucode_data t" t d]
    by (simp add: load_task_def Let_def word_gt_0)
  have w: "length (task_words t) = 16" by (simp add: task_words_def)
  {
    fix i assume i: "i < unat ?sz"
    then have b: "i < unat ?l" "i < 0xFC0" using dma_single_row(2,3) [OF task_data_size_bounds(2,1), of t] by simp_all
    have "mem_b (load_task rd m t d) (of_nat i) = mem_b ?d (of_nat i)"
      unfolding e RSP_MEM_B_def by (rule memcpy_other) (use b w task_block_high in auto)
    also have "\<dots> = rd m ((ucode_data t AND 0xFFFFF8) + of_nat i + 0x80000000)"
      using b by (simp add: dma_block_in_mem Let_def unsigned_of_nat take_bit_nat_eq_self)
    finally show "mem_b (load_task rd m t d) (of_nat i) = rd m ((ucode_data t AND 0xFFFFF8) + of_nat i + 0x80000000)" .
  }
  show "RSP_MEM_W_LOAD (load_task rd m t d) (4 * of_nat k) 0xFC0 = task_words t ! k" if "k < 16" for k
    unfolding e using that w by (intro memcpy_word) simp_all
qed

section \<open>Tasks that start\<close>

lemma rdram_range_nat: "rdram_range a n \<longleftrightarrow> unat (a AND 0x1FFFFFFF) < 0x800000 \<and> unat (a AND 0x1FFFFFFF) + unat n \<le> 0x800000"
  unfolding rdram_range_def Let_def RDRAM_SIZE_def
  by (auto simp: word_less_nat_alt word_le_nat_alt unat_sub)






text \<open>
  The range check of a task pointer looks at the physical address, but the task is read through \<^verbatim>\<open>TO_PTR\<close>:
  the uncached alias of a valid task passes the check and is read 512 MiB further on, so what is submitted (or refused)
  has nothing to do with the task in RDRAM, which is what the log shows.
\<close>

theorem uncached_task_read_elsewhere:
  assumes "p \<le> 0x7FFFC0"
  shows "rdram_range (0xA0000000 + p) 64 \<and>
    task_words (read_task host (0xA0000000 + p)) = map (\<lambda>i. host (0x20000000 + p + of_nat (4 * i))) [0..<16] \<and>
    copy_words host (0xA0000000 + p) 16 = map (\<lambda>i. host (p + of_nat (4 * i))) [0..<16]"
proof -
  have p: "unat p \<le> 0x7FFFC0" using assms by (simp add: word_le_nat_alt)
  have a: "(0xA0000000 + q) AND 0x1FFFFFFF = q" if "unat q < 0x800000" for q :: u32
  proof -
    have m: "(0x1FFFFFFF :: u32) = mask 29" by (simp add: mask_eq_exp_minus_1)
    have r: "(2684354560 + unat q) mod 536870912 = unat q" using mod_mult_self3 [of 5 536870912 "unat q"] that by simp
    show ?thesis unfolding m take_bit_eq_mask [symmetric]
      using that by (simp add: word_unat_eq_iff unsigned_take_bit_eq unat_word_ariths take_bit_eq_mod r)
  qed
  have q: "unat (p + of_nat (4 * i)) = unat p + 4 * i" if "i < 16" for i
    using p that by (simp add: unat_word_ariths unsigned_of_nat take_bit_nat_eq_self)
  have "read_rdram_word host (0xA0000000 + p + of_nat (i * 4)) = host (p + of_nat (4 * i))" if "i < 16" for i
    using a [of "p + of_nat (4 * i)"] q [OF that] p that by (simp add: read_rdram_word_def rdram_range_nat add.assoc mult.commute)
  then have "copy_words host (0xA0000000 + p) 16 = map (\<lambda>i. host (p + of_nat (4 * i))) [0..<16]"
    by (simp add: copy_words_def)
  moreover have "rdram_range (0xA0000000 + p) 64" using p a [of p] by (simp add: rdram_range_nat)
  moreover have "task_words (read_task host (0xA0000000 + p)) = map (\<lambda>i. host (0x20000000 + p + of_nat (4 * i))) [0..<16]"
    by (simp add: task_words_def read_task_def Let_def to_offset_def upt_rec)
  ultimately show ?thesis by simp
qed

section \<open>The logs\<close>

interpretation sp_ring: ring_log RING_CAP
  by unfold_locales (simp add: RING_CAP_def)

lemma log_contents:
  "fold (\<lambda>(host, stamps, t, p, ra). sp_record host stamps t p ra) xs \<lparr>sp_ring = slots, sp_next_seq = n\<rparr> =
     \<lparr>sp_ring = ring_fill RING_CAP n (map (\<lambda>(i, host, stamps, t, p, ra). make_event host stamps t p ra i) (enumerate n xs)) slots,
      sp_next_seq = n + length xs\<rparr>"
  by (induction xs arbitrary: n slots) (auto simp: sp_record_def Let_def)

text \<open>
  The copy of the task log returns the events of the last starts, oldest first: as many as were asked for, as
  happened, or as the ring holds.
\<close>

theorem recent_tasks:
  "recomp_sp_task_recent_copy cap (fold (\<lambda>(host, stamps, t, p, ra). sp_record host stamps t p ra) xs \<lparr>sp_ring = slots, sp_next_seq = 0\<rparr>) =
     (length xs, drop (length xs - min cap (min (length xs) 4096))
        (map (\<lambda>(i, host, stamps, t, p, ra). make_event host stamps t p ra i) (enumerate 0 xs)))"
  using sp_ring.ring_recent_fill [of "map (\<lambda>(i, host, stamps, t, p, ra). make_event host stamps t p ra i) (enumerate 0 xs)" cap slots]
  by (simp add: recomp_sp_task_recent_copy_def log_contents RING_CAP_def)

lemma dma_recent_eq: "0 < cap \<Longrightarrow> recomp_rsp_dma_recent_copy cap out_cap (slots, n) = ring_recent cap n out_cap slots"
  by (auto simp: recomp_rsp_dma_recent_copy_def ring_recent_def Let_def mod_add_left_eq min_def)

end
