(* ===== verification/RcpEvents.thy ===== *)
theory RcpEvents
  imports SpTask "HOL-Library.Signed_Division"
begin

text \<open>
  The events of the RCP (\<^verbatim>\<open>ultramodern/events.cpp\<close>, without the co-simulation build): event queues, the
  video interface with its double-buffered state, the VI thread, the graphics thread and the thread of
  the other RSP tasks. Host threads post with \<^verbatim>\<open>post_rcp_event\<close> of the message queues. The renderer and
  the microcode are parameters; so are the queues between host threads (\<open>enq\<close>, with the law that an
  element is added and none lost). \<open>clock\<close> is the time since start in nanoseconds.
\<close>

unbundle bit_operations_syntax

section \<open>State\<close>

record OSViCommonRegs =
  cr_ctrl :: u32
  cr_width :: u32
  cr_burst :: u32
  cr_vSync :: u32
  cr_hSync :: u32
  cr_leap :: u32
  cr_hStart :: u32
  cr_xScale :: u32
  cr_vCurrent :: u32

record OSViFieldRegs =
  fr_origin :: u32
  fr_yScale :: u32
  fr_vStart :: u32
  fr_vBurst :: u32
  fr_vIntr :: u32

record OSViMode =
  comRegs :: OSViCommonRegs
  fldRegs :: "OSViFieldRegs \<times> OSViFieldRegs"

datatype mode_ptr = NullMode | DummyMode | GuestMode u32

record ViState =
  vs_mode :: mode_ptr
  framebuffer :: u32
  vs_mq :: u32
  vs_msg :: u32
  vs_flags :: u32
  control :: u32
  retrace_count :: int

record ViRegs =
  VI_STATUS_REG :: u32
  VI_ORIGIN_REG :: u32
  VI_WIDTH_REG :: u32
  VI_INTR_REG :: u32
  VI_V_CURRENT_LINE_REG :: u32
  VI_TIMING_REG :: u32
  VI_V_SYNC_REG :: u32
  VI_H_SYNC_REG :: u32
  VI_LEAP_REG :: u32
  VI_H_START_REG :: u32
  VI_V_START_REG :: u32
  VI_V_BURST_REG :: u32
  VI_X_SCALE_REG :: u32
  VI_Y_SCALE_REG :: u32

datatype Action = SpTaskAction OSTask | ScreenUpdateAction ViRegs | UpdateConfigAction

type_synonym 'a enq = "'a \<Rightarrow> 'a list \<Rightarrow> 'a list"

text \<open>
  \<^verbatim>\<open>cur_state\<close> is 0 or 1; \<^verbatim>\<open>field\<close> is never written. \<^verbatim>\<open>remaining_retraces\<close> and \<^verbatim>\<open>odd\<close> belong to the VI thread. The graphics
  thread is between its actions or in the renderer with a task. A slot is a queue and a message.
\<close>

record events = rcp +
  states :: "ViState \<times> ViState"
  cur_state :: bool
  regs :: ViRegs
  update_screen_regs :: ViRegs
  sp_slot :: "u32 \<times> u32"
  dp_slot :: "u32 \<times> u32"
  ai_slot :: "u32 \<times> u32"
  si_slot :: "u32 \<times> u32"
  action_queue :: "Action list"
  sp_task_queue :: "u32 option list"
  total_vis :: u64
  remaining_retraces :: int
  odd_frame :: bool
  rendering :: "OSTask option"
  g_submit_gfx :: u64
  g_submit_audio :: u64
  g_submit_other :: u64
  g_sp_complete_count :: u64
  g_dp_complete_count :: u64

definition get_cur_state :: "events \<Rightarrow> ViState" where
  "get_cur_state e = (if cur_state e then snd (states e) else fst (states e))"

definition get_next_state :: "events \<Rightarrow> ViState" where
  "get_next_state e = (if cur_state e then fst (states e) else snd (states e))"

definition set_next_state :: "ViState \<Rightarrow> events \<Rightarrow> events" where
  "set_next_state st e = e\<lparr>states := (if cur_state e then (st, snd (states e)) else (fst (states e), st))\<rparr>"

definition osVirtualToPhysical :: "u32 \<Rightarrow> u32" where
  "osVirtualToPhysical vaddr =
     (if 0x80000000 \<le> vaddr \<and> vaddr < 0xA0000000 then vaddr AND 0x1FFFFFFF
      else if 0xA0000000 \<le> vaddr \<and> vaddr < 0xC0000000 then vaddr AND 0x1FFFFFFF
      else vaddr)"

section \<open>Modes\<close>

definition read_field :: "os \<Rightarrow> u32 \<Rightarrow> OSViFieldRegs" where
  "read_field s a = \<lparr>fr_origin = mem s a, fr_yScale = mem s (a + 4), fr_vStart = mem s (a + 8), fr_vBurst = mem s (a + 12), fr_vIntr = mem s (a + 16)\<rparr>"

definition read_mode :: "os \<Rightarrow> u32 \<Rightarrow> OSViMode" where
  "read_mode s a = \<lparr>comRegs = \<lparr>cr_ctrl = mem s (a + 4), cr_width = mem s (a + 8), cr_burst = mem s (a + 12), cr_vSync = mem s (a + 16),
      cr_hSync = mem s (a + 20), cr_leap = mem s (a + 24), cr_hStart = mem s (a + 28), cr_xScale = mem s (a + 32), cr_vCurrent = mem s (a + 36)\<rparr>,
     fldRegs = (read_field s (a + 40), read_field s (a + 60))\<rparr>"

definition dummy_mode :: OSViMode where
  "dummy_mode = (let f = \<lparr>fr_origin = 0x280, fr_yScale = 0x400, fr_vStart = 0x2501FF, fr_vBurst = 0xE0204, fr_vIntr = 2\<rparr> in
     \<lparr>comRegs = \<lparr>cr_ctrl = 0x00002 OR 0x00004 OR 0x00008 OR 0x00010 OR 0x00100 OR 0x03000, cr_width = 0x140, cr_burst = 0x03E52239,
        cr_vSync = 0x20D, cr_hSync = 0xC15, cr_leap = 0x0C150C15, cr_hStart = 0x006C02EC, cr_xScale = 0x200, cr_vCurrent = 0\<rparr>,
      fldRegs = (f, f)\<rparr>)"

text \<open>\<open>None\<close>: a null pointer is read.\<close>

definition mode_at :: "os \<Rightarrow> mode_ptr \<Rightarrow> OSViMode option" where
  "mode_at s m = (case m of NullMode \<Rightarrow> None | DummyMode \<Rightarrow> Some dummy_mode | GuestMode a \<Rightarrow> Some (read_mode s a))"

definition VI_STATE_BLACK :: u32 where "VI_STATE_BLACK = 0x20"
definition VI_STATE_REPEATLINE :: u32 where "VI_STATE_REPEATLINE = 0x40"

definition staged_regs :: "OSViMode \<Rightarrow> ViState \<Rightarrow> ViRegs \<Rightarrow> ViRegs" where
  "staged_regs mode st r = (let
     common_regs = comRegs mode; field_regs = fst (fldRegs mode);
     fb = osVirtualToPhysical (framebuffer st);
     origin = fb + fr_origin field_regs;
     hStart = (if vs_flags st AND VI_STATE_BLACK \<noteq> 0 then 0 else cr_hStart common_regs);
     yScale = fr_yScale field_regs;
     origin = (if vs_flags st AND VI_STATE_REPEATLINE \<noteq> 0 then fb else origin) in
     r\<lparr>VI_ORIGIN_REG := origin, VI_WIDTH_REG := cr_width common_regs, VI_TIMING_REG := cr_burst common_regs,
       VI_V_SYNC_REG := cr_vSync common_regs, VI_H_SYNC_REG := cr_hSync common_regs, VI_LEAP_REG := cr_leap common_regs,
       VI_H_START_REG := hStart, VI_V_START_REG := fr_vStart field_regs, VI_V_BURST_REG := fr_vBurst field_regs,
       VI_INTR_REG := fr_vIntr field_regs, VI_X_SCALE_REG := cr_xScale common_regs, VI_Y_SCALE_REG := yScale,
       VI_STATUS_REG := control st\<rparr>)"

definition update_vi :: "events \<Rightarrow> events option" where
  "update_vi e = (let next_state = get_next_state e in
     case mode_at (rcp_os e) (vs_mode next_state) of
       None \<Rightarrow> None
     | Some mode \<Rightarrow> let e = e\<lparr>regs := staged_regs mode next_state (regs e), cur_state := \<not> cur_state e\<rparr> in
         Some (set_next_state (get_cur_state e) e))"

section \<open>Calls of the game\<close>

definition osSetEventMesg :: "u32 \<Rightarrow> u32 \<Rightarrow> u32 \<Rightarrow> events \<Rightarrow> events" where
  "osSetEventMesg event_id mq msg e =
     (if event_id = 4 then e\<lparr>sp_slot := (mq, msg)\<rparr>
      else if event_id = 9 then e\<lparr>dp_slot := (mq, msg)\<rparr>
      else if event_id = 6 then e\<lparr>ai_slot := (mq, msg)\<rparr>
      else if event_id = 5 then e\<lparr>si_slot := (mq, msg)\<rparr> else e)"

definition osViSetEvent :: "u32 \<Rightarrow> u32 \<Rightarrow> u32 \<Rightarrow> events \<Rightarrow> events" where
  "osViSetEvent mq msg rc e = set_next_state ((get_next_state e)\<lparr>vs_mq := mq, vs_msg := msg, retrace_count := sint rc\<rparr>) e"

definition osViSwapBuffer :: "u32 \<Rightarrow> events \<Rightarrow> events" where
  "osViSwapBuffer fb e = set_next_state ((get_next_state e)\<lparr>framebuffer := fb\<rparr>) e"

definition osViSetMode :: "u32 \<Rightarrow> events \<Rightarrow> events" where
  "osViSetMode m e = set_next_state ((get_next_state e)\<lparr>vs_mode := GuestMode m, control := cr_ctrl (comRegs (read_mode (rcp_os e) m))\<rparr>) e"

definition flag :: "u32 \<Rightarrow> u32 \<Rightarrow> (u32 \<Rightarrow> u32) \<Rightarrow> u32 \<Rightarrow> u32" where
  "flag func b f c = (if func AND b \<noteq> 0 then f c else c)"

text \<open>\<open>None\<close>: the dither filter is turned off while no mode is set.\<close>

definition osViSetSpecialFeatures :: "u32 \<Rightarrow> events \<Rightarrow> events option" where
  "osViSetSpecialFeatures func e = (let
     st = get_next_state e; c = control st;
     c = flag func 0x01 (\<lambda>c. c OR 0x8) c;
     c = flag func 0x02 (\<lambda>c. c AND NOT 0x8) c;
     c = flag func 0x04 (\<lambda>c. c OR 0x4) c;
     c = flag func 0x08 (\<lambda>c. c AND NOT 0x4) c;
     c = flag func 0x10 (\<lambda>c. c OR 0x10) c;
     c = flag func 0x20 (\<lambda>c. c AND NOT 0x10) c;
     c = flag func 0x40 (\<lambda>c. (c OR 0x10000) AND NOT 0x300) c in
     if func AND 0x80 \<noteq> 0 then case mode_at (rcp_os e) (vs_mode st) of
         None \<Rightarrow> None
       | Some mode \<Rightarrow> Some (set_next_state (st\<lparr>control := (c AND NOT 0x10000) OR (cr_ctrl (comRegs mode) AND 0x300)\<rparr>) e)
     else Some (set_next_state (st\<lparr>control := c\<rparr>) e))"

definition set_flag :: "u32 \<Rightarrow> u8 \<Rightarrow> events \<Rightarrow> events" where
  "set_flag b active e = (let st = get_next_state e in
     set_next_state (st\<lparr>vs_flags := if active \<noteq> 0 then vs_flags st OR b else vs_flags st AND NOT b\<rparr>) e)"

definition osViBlack :: "u8 \<Rightarrow> events \<Rightarrow> events" where
  "osViBlack = set_flag VI_STATE_BLACK"

definition osViRepeatLine :: "u8 \<Rightarrow> events \<Rightarrow> events" where
  "osViRepeatLine = set_flag VI_STATE_REPEATLINE"

definition osViGetNextFramebuffer :: "events \<Rightarrow> u32" where
  "osViGetNextFramebuffer e = framebuffer (get_next_state e)"

definition osViGetCurrentFramebuffer :: "events \<Rightarrow> u32" where
  "osViGetCurrentFramebuffer e = framebuffer (get_cur_state e)"

definition set_dummy_vi :: "bool \<Rightarrow> events \<Rightarrow> events" where
  "set_dummy_vi shifted e = set_next_state ((get_next_state e)\<lparr>vs_mode := DummyMode,
     framebuffer := if shifted then 0x80700000 + 0x25800 else 0x80700000\<rparr>) e"

definition M_GFXTASK :: u32 where "M_GFXTASK = 1"
definition M_AUDTASK :: u32 where "M_AUDTASK = 2"

text \<open>The host view of guest memory that \<open>read_task\<close> expects, at the offsets of \<^verbatim>\<open>TO_PTR\<close>.\<close>

definition task_at :: "events \<Rightarrow> u32 \<Rightarrow> OSTask" where
  "task_at e p = read_task (\<lambda>off. mem (rcp_os e) (off + 0x80000000)) p"

definition submit_rsp_task :: "Action enq \<Rightarrow> u32 option enq \<Rightarrow> u32 \<Rightarrow> events \<Rightarrow> events" where
  "submit_rsp_task aenq tenq p e = (let task = task_at e p in
     if t_type task = M_GFXTASK then
       e\<lparr>g_submit_gfx := g_submit_gfx e + 1, action_queue := aenq (SpTaskAction task) (action_queue e)\<rparr>
     else let e = (if t_type task = M_AUDTASK then e\<lparr>g_submit_audio := g_submit_audio e + 1\<rparr> else e\<lparr>g_submit_other := g_submit_other e + 1\<rparr>) in
       e\<lparr>sp_task_queue := tenq (Some p) (sp_task_queue e)\<rparr>)"

definition trigger_config_action :: "Action enq \<Rightarrow> events \<Rightarrow> events" where
  "trigger_config_action aenq e = e\<lparr>action_queue := aenq UpdateConfigAction (action_queue e)\<rparr>"

section \<open>Host threads\<close>

definition post :: "enqueue \<Rightarrow> u32 \<times> u32 \<Rightarrow> bool \<Rightarrow> events \<Rightarrow> events" where
  "post enq slot coalescible e = e\<lparr>rcp_os := post_rcp_event enq False (fst slot) (snd slot) coalescible (rcp_os e)\<rparr>"

definition sp_complete :: "enqueue \<Rightarrow> u32 \<Rightarrow> events \<Rightarrow> events" where
  "sp_complete enq task_type e = (let
     e = mark_sp_task_complete task_type e;
     e = post enq (sp_slot e) False e in
     e\<lparr>g_sp_complete_count := g_sp_complete_count e + 1\<rparr>)"

definition dp_complete :: "enqueue \<Rightarrow> u32 \<Rightarrow> events \<Rightarrow> events" where
  "dp_complete enq task_type e = (let
     e = mark_sp_task_complete task_type e;
     e = post enq (dp_slot e) False e in
     e\<lparr>g_dp_complete_count := g_dp_complete_count e + 1\<rparr>)"

definition send_si_message :: "enqueue \<Rightarrow> events \<Rightarrow> events" where
  "send_si_message enq e = post enq (si_slot e) False e"

text \<open>
  The graphics thread takes an action: for a task it reports SP completion and enters the renderer; when
  the renderer returns it reports DP completion. \<open>None\<close>: nothing to do.
\<close>

definition gfx_take :: "enqueue \<Rightarrow> events \<Rightarrow> events option" where
  "gfx_take enq e = (case rendering e of Some _ \<Rightarrow> None | None \<Rightarrow> (case action_queue e of
     [] \<Rightarrow> None
   | a # as \<Rightarrow> let e = e\<lparr>action_queue := as\<rparr> in Some (case a of
       SpTaskAction task \<Rightarrow> sp_complete enq (t_type task) (e\<lparr>rendering := Some task\<rparr>)
     | ScreenUpdateAction r \<Rightarrow> e\<lparr>update_screen_regs := r\<rparr>
     | UpdateConfigAction \<Rightarrow> e)))"

definition gfx_done :: "enqueue \<Rightarrow> (OSTask \<Rightarrow> os \<Rightarrow> os) \<Rightarrow> events \<Rightarrow> events option" where
  "gfx_done enq send_dl e = (case rendering e of None \<Rightarrow> None | Some task \<Rightarrow>
     Some (dp_complete enq (t_type task) (e\<lparr>rendering := None, rcp_os := send_dl task (rcp_os e)\<rparr>)))"

text \<open>
  One task of the other task thread: whether or not a microcode ran, completion is reported, with the
  type the task has in memory afterwards. \<open>None\<close>: no task is queued, or the queue was told to end.
\<close>

definition task_thread_turn :: "enqueue \<Rightarrow> (OSTask \<Rightarrow> os \<Rightarrow> bool \<times> os) \<Rightarrow> events \<Rightarrow> events option" where
  "task_thread_turn enq run e = (case sp_task_queue e of
     [] \<Rightarrow> None
   | None # _ \<Rightarrow> None
   | Some p # ps \<Rightarrow> (let e = e\<lparr>sp_task_queue := ps\<rparr>; e = e\<lparr>rcp_os := snd (run (task_at e p) (rcp_os e))\<rparr> in
       Some (sp_complete enq (t_type (task_at e p)) e)))"

text \<open>
  One interrupt of the VI thread, at time \<open>clock\<close> after the start. \<open>None\<close>: a null mode is read.
\<close>

definition vis_at :: "int \<Rightarrow> u64" where
  "vis_at clock = word_of_int (clock * 60 sdiv 1000000000) + 1"

definition vi_messages :: "enqueue \<Rightarrow> events \<Rightarrow> events" where
  "vi_messages enq e = (let
     e = e\<lparr>remaining_retraces := remaining_retraces e - 1\<rparr>;
     cur = get_cur_state e;
     e = (if remaining_retraces e = 0
          then let e = (if vs_mq cur \<noteq> 0 then post enq (vs_mq cur, vs_msg cur) True e else e) in e\<lparr>remaining_retraces := retrace_count cur\<rparr>
          else e) in
     if fst (ai_slot e) \<noteq> 0 then post enq (ai_slot e) False e else e)"

definition vi_tick :: "enqueue \<Rightarrow> Action enq \<Rightarrow> bool \<Rightarrow> int \<Rightarrow> events \<Rightarrow> events option" where
  "vi_tick enq aenq started clock e = (let
     e = e\<lparr>total_vis := vis_at clock\<rparr>;
     e = (if \<not> started \<or> vs_mode (get_next_state e) = NullMode
          then (set_dummy_vi (odd_frame e) e)\<lparr>odd_frame := \<not> odd_frame e\<rparr> else e);
     e = e\<lparr>action_queue := aenq (ScreenUpdateAction (regs e)) (action_queue e)\<rparr> in
     case update_vi e of None \<Rightarrow> None | Some e \<Rightarrow> Some (if started then vi_messages enq e else e))"

end
