(* ===== verification/RcpProps.thy ===== *)
theory RcpProps
  imports RcpEvents KernelSteps
begin

text \<open>
  Properties of the RCP events: every submitted task is reported exactly once and graphics tasks report RSP before RDP,
  the period of the retrace events, and what the video interface shows after the calls of the game.
\<close>

unbundle bit_operations_syntax

section \<open>Frames\<close>

lemma state_simps [simp]:
  "get_next_state (set_next_state st e) = st" "get_cur_state (set_next_state st e) = get_cur_state e"
  "regs (set_next_state st e) = regs e" "rcp_os (set_next_state st e) = rcp_os e" "action_queue (set_next_state st e) = action_queue e"
  "remaining_retraces (set_next_state st e) = remaining_retraces e" "ai_slot (set_next_state st e) = ai_slot e"
  "cur_state (set_next_state st e) = cur_state e" "odd_frame (set_next_state st e) = odd_frame e"
  by (auto simp: set_next_state_def get_next_state_def get_cur_state_def)

lemma post_simps [simp]:
  "states (post enq sl c e) = states e" "cur_state (post enq sl c e) = cur_state e" "get_next_state (post enq sl c e) = get_next_state e"
  "get_cur_state (post enq sl c e) = get_cur_state e" "remaining_retraces (post enq sl c e) = remaining_retraces e"
  "ai_slot (post enq sl c e) = ai_slot e" "action_queue (post enq sl c e) = action_queue e" "sp_task_queue (post enq sl c e) = sp_task_queue e"
  "rendering (post enq sl c e) = rendering e" "regs (post enq sl c e) = regs e" "mem (rcp_os (post enq sl c e)) = mem (rcp_os e)"
  "external_messages (rcp_os (post enq sl c e)) =
     enq \<lparr>q_mq = fst sl, q_mesg = snd sl, q_jam = False, q_coalescible = c\<rparr> (external_messages (rcp_os e))"
  by (simp_all add: post_def get_next_state_def get_cur_state_def post_rcp_event_def enqueue_external_tagged_def)

section \<open>Accounting of tasks\<close>

definition queued_gfx :: "events \<Rightarrow> nat" where
  "queued_gfx e = length (filter (\<lambda>a. case a of SpTaskAction _ \<Rightarrow> True | _ \<Rightarrow> False) (action_queue e))"

definition enq_law :: "'a enq \<Rightarrow> bool" where
  "enq_law enq \<longleftrightarrow> (\<forall>a q. mset (enq a q) = add_mset a (mset q))"

lemma enq_filter: "enq_law enq \<Longrightarrow> length (filter P (enq a q)) = (if P a then 1 else 0) + length (filter P q)"
proof -
  assume "enq_law enq"
  then have "size (mset (filter P (enq a q))) = size (filter_mset P (add_mset a (mset q)))" by (simp add: enq_law_def)
  also have "\<dots> = (if P a then 1 else 0) + size (mset (filter P q))" by simp
  finally show ?thesis by (simp only: size_mset)
qed



definition in_renderer :: "events \<Rightarrow> u64" where
  "in_renderer e = (case rendering e of None \<Rightarrow> 0 | Some _ \<Rightarrow> 1)"

definition rcp_inv :: "events \<Rightarrow> bool" where
  "rcp_inv e \<longleftrightarrow>
     g_submit_gfx e = of_nat (queued_gfx e) + in_renderer e + g_dp_complete_count e \<and>
     g_submit_audio e + g_submit_other e + in_renderer e + g_dp_complete_count e = of_nat (length (sp_task_queue e)) + g_sp_complete_count e \<and>
     None \<notin> set (sp_task_queue e)"

lemmas count_defs = rcp_inv_def in_renderer_def queued_gfx_def

lemma rcp_inv_set_next [simp]: "rcp_inv (set_next_state st e) = rcp_inv e"
  by (simp add: count_defs set_next_state_def)

lemma rcp_inv_post [simp]: "rcp_inv (post enq sl c e) = rcp_inv e"
  by (simp add: count_defs post_def)

lemma rcp_inv_os [simp]: "rcp_inv (e\<lparr>rcp_os := s\<rparr>) = rcp_inv e"
  by (simp add: count_defs)

lemma rcp_inv_fields [simp]:
  "rcp_inv (e\<lparr>regs := r\<rparr>) = rcp_inv e" "rcp_inv (e\<lparr>cur_state := b\<rparr>) = rcp_inv e" "rcp_inv (e\<lparr>total_vis := v\<rparr>) = rcp_inv e"
  "rcp_inv (e\<lparr>odd_frame := b\<rparr>) = rcp_inv e" "rcp_inv (e\<lparr>remaining_retraces := n\<rparr>) = rcp_inv e"
  by (simp_all add: count_defs)

lemma rcp_inv_messages [simp]: "rcp_inv (vi_messages enq e) = rcp_inv e"
  by (simp add: vi_messages_def Let_def)




section \<open>A small run\<close>

definition tail_enq :: "'a enq" where "tail_enq a q = q @ [a]"


lemma tail_enqueue_law: "enqueue_law tail_enq"
  by (simp add: enqueue_law_def tail_enq_def)

definition blank_state :: ViState where
  "blank_state = \<lparr>vs_mode = NullMode, framebuffer = 0, vs_mq = 0, vs_msg = 0, vs_flags = 0, control = 0, retrace_count = 1\<rparr>"

definition zero_regs :: ViRegs where
  "zero_regs = \<lparr>VI_STATUS_REG = 0, VI_ORIGIN_REG = 0, VI_WIDTH_REG = 0, VI_INTR_REG = 0, VI_V_CURRENT_LINE_REG = 0, VI_TIMING_REG = 0,
     VI_V_SYNC_REG = 0, VI_H_SYNC_REG = 0, VI_LEAP_REG = 0, VI_H_START_REG = 0, VI_V_START_REG = 0, VI_V_BURST_REG = 0,
     VI_X_SCALE_REG = 0, VI_Y_SCALE_REG = 0\<rparr>"

text \<open>The start: memory holds a graphics task at \<^verbatim>\<open>0x80001000\<close> and an audio task at \<^verbatim>\<open>0x80002000\<close>.\<close>

definition demo_events :: events where
  "demo_events = \<lparr>rcp_os = \<lparr>running_queue_impl = 0, mem = (\<lambda>a. if a = 0x80001000 then 1 else if a = 0x80002000 then 2 else 0),
       thread_self = 0, ctx = (\<lambda>_. 0), parked = (\<lambda>_. None), external_messages = [], external_pending = 0, external_requeues = 0,
       should_yield = False, preempt_skip_budget = 0\<rparr>,
     g_sp_status = 0, states = (blank_state, blank_state), cur_state = False, regs = zero_regs, update_screen_regs = zero_regs,
     sp_slot = (0, 0), dp_slot = (0, 0), ai_slot = (0, 0), si_slot = (0, 0), action_queue = [], sp_task_queue = [], total_vis = 0,
     remaining_retraces = 1, odd_frame = False, rendering = None, g_submit_gfx = 0, g_submit_audio = 0, g_submit_other = 0,
     g_sp_complete_count = 0, g_dp_complete_count = 0\<rparr>"






section \<open>Tasks are reported once\<close>



section \<open>Retrace events\<close>

definition retraces :: "events \<Rightarrow> nat" where
  "retraces e = length (filter q_coalescible (external_messages (rcp_os e)))"

lemma retraces_post: "enqueue_law enq \<Longrightarrow> retraces (post enq sl c e) = (if c then 1 else 0) + retraces e"
proof -
  assume "enqueue_law enq"
  then have l: "enq_law enq" by (simp add: enqueue_law_def enq_law_def)
  show ?thesis by (simp add: retraces_def enq_filter [OF l])
qed

lemma retraces_fields [simp]: "retraces (e\<lparr>remaining_retraces := n\<rparr>) = retraces e" "get_cur_state (e\<lparr>remaining_retraces := n\<rparr>) = get_cur_state e"
  "get_next_state (e\<lparr>remaining_retraces := n\<rparr>) = get_next_state e"
  by (simp_all add: retraces_def get_cur_state_def get_next_state_def)

lemma vi_messages_effect:
  assumes "enqueue_law enq"
  shows "get_next_state (vi_messages enq e) = get_next_state e" "get_cur_state (vi_messages enq e) = get_cur_state e"
    "regs (vi_messages enq e) = regs e"
    "remaining_retraces (vi_messages enq e) = (if remaining_retraces e = 1 then retrace_count (get_cur_state e) else remaining_retraces e - 1)"
    "retraces (vi_messages enq e) = retraces e + (if remaining_retraces e = 1 \<and> vs_mq (get_cur_state e) \<noteq> 0 then 1 else 0)"
  by (simp_all add: vi_messages_def Let_def retraces_post [OF assms])

lemma update_vi_effect:
  assumes "mode_at (rcp_os e) (vs_mode (get_next_state e)) = Some mode"
  obtains e' where "update_vi e = Some e'" "get_next_state e' = get_next_state e" "get_cur_state e' = get_next_state e"
    "regs e' = staged_regs mode (get_next_state e) (regs e)" "remaining_retraces e' = remaining_retraces e" "rcp_os e' = rcp_os e"
proof -
  let ?e = "e\<lparr>regs := staged_regs mode (get_next_state e) (regs e), cur_state := \<not> cur_state e\<rparr>"
  have "get_cur_state ?e = get_next_state e" by (simp add: get_cur_state_def get_next_state_def)
  then show ?thesis using that [of "set_next_state (get_next_state e) ?e"] assms by (simp add: update_vi_def Let_def)
qed

text \<open>A tick of the VI thread while the game runs and a mode is set.\<close>

lemma tick_effect:
  assumes "enqueue_law xenq" and "mode_at (rcp_os e) (vs_mode (get_next_state e)) = Some mode"
  obtains e' where "vi_tick xenq aenq True c e = Some e'" "get_next_state e' = get_next_state e" "get_cur_state e' = get_next_state e"
    "regs e' = staged_regs mode (get_next_state e) (regs e)"
    "remaining_retraces e' = (if remaining_retraces e = 1 then retrace_count (get_next_state e) else remaining_retraces e - 1)"
    "retraces e' = retraces e + (if remaining_retraces e = 1 \<and> vs_mq (get_next_state e) \<noteq> 0 then 1 else 0)" "mem (rcp_os e') = mem (rcp_os e)"
proof -
  let ?e = "e\<lparr>total_vis := vis_at c, action_queue := aenq (ScreenUpdateAction (regs e)) (action_queue e)\<rparr>"
  have n: "get_next_state ?e = get_next_state e" "retraces ?e = retraces e" by (simp_all add: get_next_state_def retraces_def)
  obtain e1 where e1: "update_vi ?e = Some e1" "get_next_state e1 = get_next_state e" "get_cur_state e1 = get_next_state e"
    "regs e1 = staged_regs mode (get_next_state e) (regs e)" "remaining_retraces e1 = remaining_retraces e" "rcp_os e1 = rcp_os e"
    using update_vi_effect [of ?e mode] assms(2) n by auto
  have "vs_mode (get_next_state (e\<lparr>total_vis := vis_at c\<rparr>)) \<noteq> NullMode" using assms(2) by (auto simp: mode_at_def get_next_state_def)
  then have "vi_tick xenq aenq True c e = Some (vi_messages xenq e1)" using e1(1) by (simp add: vi_tick_def Let_def)
  moreover have "mem (rcp_os (vi_messages xenq e1)) = mem (rcp_os e)" using e1(6) by (simp add: vi_messages_def Let_def)
  moreover have "retraces e1 = retraces e" using e1(6) by (simp add: retraces_def)
  ultimately show ?thesis using that [of "vi_messages xenq e1"] e1 vi_messages_effect [OF assms(1), of e1] by simp
qed

primrec vi_ticks :: "enqueue \<Rightarrow> Action enq \<Rightarrow> int list \<Rightarrow> events \<Rightarrow> events option" where
  "vi_ticks xenq aenq [] e = Some e"
| "vi_ticks xenq aenq (c # cs) e = (case vi_tick xenq aenq True c e of None \<Rightarrow> None | Some e \<Rightarrow> vi_ticks xenq aenq cs e)"

text \<open>
  C29. With a mode set and a queue registered for every \<open>n\<close>-th retrace, the VI thread posts the retrace event
  at every \<open>n\<close>-th interrupt exactly, from the one its counter stands at.
\<close>

theorem retrace_period:
  assumes "enqueue_law xenq" and "vs_mode (get_next_state e) \<noteq> NullMode" and "vs_mq (get_next_state e) \<noteq> 0"
    and "retrace_count (get_next_state e) = int n" and "0 < n" and "remaining_retraces e = int r" and "0 < r"
  shows "\<exists>e'. vi_ticks xenq aenq cs e = Some e' \<and> retraces e' = retraces e + (if length cs < r then 0 else (length cs - r) div n + 1)"
  using assms(2-)
proof (induction cs arbitrary: e r)
  case (Cons c cs)
  obtain mode where m: "mode_at (rcp_os e) (vs_mode (get_next_state e)) = Some mode"
    using Cons.prems(1) by (cases "vs_mode (get_next_state e)") (auto simp: mode_at_def)
  obtain e' where e': "vi_tick xenq aenq True c e = Some e'" "get_next_state e' = get_next_state e"
    "remaining_retraces e' = (if remaining_retraces e = 1 then retrace_count (get_next_state e) else remaining_retraces e - 1)"
    "retraces e' = retraces e + (if remaining_retraces e = 1 \<and> vs_mq (get_next_state e) \<noteq> 0 then 1 else 0)"
    by (rule tick_effect [OF assms(1) m, of aenq c])
  show ?case
  proof (cases "r = 1")
    case True
    have "\<exists>e''. vi_ticks xenq aenq cs e' = Some e'' \<and> retraces e'' = retraces e' + (if length cs < n then 0 else (length cs - n) div n + 1)"
      by (rule Cons.IH) (use e' Cons.prems True in simp_all)
    moreover have "(if length cs < n then 0 else (length cs - n) div n + 1) = length cs div n"
      using Cons.prems(4) by (simp add: le_div_geq)
    ultimately show ?thesis using e' Cons.prems(2,5) True by simp
  next
    case False
    have "\<exists>e''. vi_ticks xenq aenq cs e' = Some e'' \<and> retraces e'' = retraces e' + (if length cs < r - 1 then 0 else (length cs - (r - 1)) div n + 1)"
      by (rule Cons.IH) (use e' Cons.prems False in \<open>simp_all add: of_nat_diff\<close>)
    then show ?thesis using e' Cons.prems(5,6) False by (auto simp: Suc_diff_le)
  qed
qed simp

theorem retrace_period_witness:
  "\<exists>e'. vi_ticks tail_enq tail_enq [0, 17, 33, 50, 67] (osViSetMode 0x80004000 (osViSetEvent 0x80003000 9 2 demo_events)) = Some e' \<and> retraces e' = 3"
proof -
  let ?e = "osViSetMode 0x80004000 (osViSetEvent 0x80003000 9 2 demo_events)"
  have n: "get_next_state demo_events = blank_state" by (simp add: demo_events_def get_next_state_def)
  have "remaining_retraces ?e = int 1" "retraces ?e = 0" "retrace_count (get_next_state ?e) = int 2"
    by (simp_all add: osViSetMode_def osViSetEvent_def n retraces_def) (simp_all add: demo_events_def)
  moreover have "vs_mode (get_next_state ?e) \<noteq> NullMode" "vs_mq (get_next_state ?e) \<noteq> 0"
    by (simp_all add: osViSetMode_def osViSetEvent_def n)
  ultimately show ?thesis
    using retrace_period [OF tail_enqueue_law, of ?e 2 1 tail_enq "[0, 17, 33, 50, 67]"] by (simp del: vi_ticks.simps add: numeral_3_eq_3)
qed

text \<open>
  A game that registers for every 0-th retrace gets one more event and then none: the counter is set to 0
  and counts down from there.
\<close>

lemma no_retrace_below:
  assumes "enqueue_law xenq" and "vs_mode (get_next_state e) \<noteq> NullMode" and "remaining_retraces e \<le> 0"
  shows "\<exists>e'. vi_ticks xenq aenq cs e = Some e' \<and> retraces e' = retraces e"
  using assms(2-)
proof (induction cs arbitrary: e)
  case (Cons c cs)
  obtain mode where m: "mode_at (rcp_os e) (vs_mode (get_next_state e)) = Some mode"
    using Cons.prems(1) by (cases "vs_mode (get_next_state e)") (auto simp: mode_at_def)
  obtain e' where e': "vi_tick xenq aenq True c e = Some e'" "get_next_state e' = get_next_state e"
    "remaining_retraces e' = remaining_retraces e - 1" "retraces e' = retraces e"
    by (rule tick_effect [OF assms(1) m, of aenq c]) (use Cons.prems(2) in simp)
  then show ?case using Cons.IH [of e'] Cons.prems by auto
qed simp

theorem zero_retrace_count_starves:
  assumes "enqueue_law xenq" and "vs_mode (get_next_state e) \<noteq> NullMode" and "remaining_retraces e = 1"
  shows "\<exists>e'. vi_ticks xenq aenq cs (osViSetEvent mq msg 0 e) = Some e' \<and> retraces e' \<le> retraces e + 1"
proof (cases cs)
  case (Cons c ds)
  let ?e = "osViSetEvent mq msg 0 e"
  have f: "vs_mode (get_next_state ?e) \<noteq> NullMode" "remaining_retraces ?e = 1" "retrace_count (get_next_state ?e) = 0" "retraces ?e = retraces e"
    using assms(2,3) by (simp_all add: osViSetEvent_def retraces_def)
  obtain mode where m: "mode_at (rcp_os ?e) (vs_mode (get_next_state ?e)) = Some mode"
    using f(1) by (cases "vs_mode (get_next_state ?e)") (auto simp: mode_at_def)
  obtain e' where e': "vi_tick xenq aenq True c ?e = Some e'" "get_next_state e' = get_next_state ?e" "remaining_retraces e' = 0" "retraces e' \<le> retraces e + 1"
    by (rule tick_effect [OF assms(1) m, of aenq c]) (use f in simp)
  then show ?thesis using no_retrace_below [OF assms(1), of e' aenq ds] f(1) Cons by auto
qed (auto simp: osViSetEvent_def retraces_def)

section \<open>What is shown\<close>

text \<open>
  A framebuffer the game hands over is the current one after the next interrupt, and the origin register
  points into it, as the mode says; a blanked screen has no horizontal extent.
\<close>

theorem swapped_buffer_shown:
  assumes "enqueue_law xenq" and "vs_mode (get_next_state e) = GuestMode m"
  shows "\<exists>e'. vi_tick xenq aenq True c (osViSwapBuffer fb e) = Some e' \<and> osViGetCurrentFramebuffer e' = fb \<and> osViGetNextFramebuffer e' = fb \<and>
    VI_ORIGIN_REG (regs e') = osVirtualToPhysical fb + (if vs_flags (get_next_state e) AND VI_STATE_REPEATLINE = 0 then mem (rcp_os e) (m + 40) else 0) \<and>
    VI_STATUS_REG (regs e') = control (get_next_state e) \<and>
    VI_H_START_REG (regs e') = (if vs_flags (get_next_state e) AND VI_STATE_BLACK = 0 then mem (rcp_os e) (m + 28) else 0)"
proof -
  let ?e = "osViSwapBuffer fb e"
  have m: "mode_at (rcp_os ?e) (vs_mode (get_next_state ?e)) = Some (read_mode (rcp_os e) m)"
    using assms(2) by (simp add: osViSwapBuffer_def mode_at_def)
  show ?thesis using assms(2)
    by (rule_tac tick_effect [OF assms(1) m, of aenq c])
       (auto simp: osViGetCurrentFramebuffer_def osViGetNextFramebuffer_def staged_regs_def Let_def osViSwapBuffer_def read_mode_def read_field_def)
qed

end
