(* ===== verification/CosimEvents.thy ===== *)
theory CosimEvents
  imports RcpEvents OrderedSet
begin

text \<open>
  The co-simulation build (\<^verbatim>\<open>N64_COSIM\<close> in \<^verbatim>\<open>timer.cpp\<close> and \<^verbatim>\<open>events.cpp\<close>): time is a counter of ticks that the guest's
  reads and a cycle model advance, completions of the RCP are scheduled for a tick and delivered in
  order, and video interrupts are handed out by tokens. Calls that lock are steps; the compare-and-swap
  loops of the clock are steps too.
\<close>

unbundle bit_operations_syntax

definition counter_per_vi :: u64 where "counter_per_vi = 46875 * 1000 div 60"
definition kCosimTimeReadCost :: u64 where "kCosimTimeReadCost = 64"

datatype CosimRcpEventKind = SpComplete | DpComplete | ViRetrace | AiEvent

record CosimRcpEvent =
  due_cycle :: u64
  ev_seq :: u64
  gfx_seq :: u64
  task_type :: u32
  ev_mq :: u32
  ev_msg :: u32
  ev_kind :: CosimRcpEventKind

datatype stat = StatSp | StatDp | StatVi | StatAi | StatSpGfx | StatSpAudio | StatSpOther

record cosim =
  ev :: events
  cosim_time_ticks :: u64
  cosim_cpu_retired :: u64
  cosim_cpu_model_events :: u64
  cosim_rcp_events :: "CosimRcpEvent list"
  cosim_rcp_next_seq :: u64
  cosim_gfx_next_seq :: u64
  cosim_gfx_rendered_seq :: u64
  cosim_vi_tokens :: u32
  cosim_next_vi_cycle :: u64
  cosim_vi_needs_rebase :: bool
  cosim_vi_control_enabled :: bool
  cosim_remaining_retraces :: int
  cosim_dummy_odd :: bool
  scheduled :: "stat \<Rightarrow> u64"
  delivered :: "stat \<Rightarrow> u64"

section \<open>The clock\<close>

definition cosim_sync_time_floor :: "cosim \<Rightarrow> u64 \<times> cosim" where
  "cosim_sync_time_floor c = (let vi_floor = total_vis (ev c) * counter_per_vi; cur = cosim_time_ticks c in
     if cur < vi_floor then (vi_floor, c\<lparr>cosim_time_ticks := vi_floor\<rparr>) else (cur, c))"

definition ultramodern_cosim_reset_time :: "cosim \<Rightarrow> cosim" where
  "ultramodern_cosim_reset_time c = c\<lparr>cosim_time_ticks := 0, cosim_cpu_retired := 0, cosim_cpu_model_events := 0\<rparr>"

definition ultramodern_cosim_get_time_ticks :: "cosim \<Rightarrow> u64 \<times> cosim" where
  "ultramodern_cosim_get_time_ticks c = cosim_sync_time_floor c"

definition ultramodern_cosim_advance_time_ticks :: "u64 \<Rightarrow> cosim \<Rightarrow> cosim" where
  "ultramodern_cosim_advance_time_ticks ticks c = (if ticks = 0 then c else let c = snd (cosim_sync_time_floor c) in
     c\<lparr>cosim_time_ticks := cosim_time_ticks c + ticks\<rparr>)"

definition ultramodern_cosim_advance_cpu_cycles :: "u64 \<Rightarrow> u64 \<Rightarrow> cosim \<Rightarrow> cosim" where
  "ultramodern_cosim_advance_cpu_cycles retired cycles c = (let
     c = (if retired \<noteq> 0 then c\<lparr>cosim_cpu_retired := cosim_cpu_retired c + retired\<rparr> else c);
     c = (if retired \<noteq> 0 \<or> cycles \<noteq> 0 then c\<lparr>cosim_cpu_model_events := cosim_cpu_model_events c + 1\<rparr> else c) in
     ultramodern_cosim_advance_time_ticks cycles c)"

section \<open>Scheduled events\<close>

definition cosim_count_sp_task_type :: "u32 \<Rightarrow> (stat \<Rightarrow> u64) \<Rightarrow> stat \<Rightarrow> u64" where
  "cosim_count_sp_task_type ty f = (let k = (if ty = M_GFXTASK then StatSpGfx else if ty = M_AUDTASK then StatSpAudio else StatSpOther) in f(k := f k + 1))"

definition count_kind :: "CosimRcpEventKind \<Rightarrow> u32 \<Rightarrow> (stat \<Rightarrow> u64) \<Rightarrow> stat \<Rightarrow> u64" where
  "count_kind k ty f = (case k of
     SpComplete \<Rightarrow> cosim_count_sp_task_type ty (f(StatSp := f StatSp + 1))
   | DpComplete \<Rightarrow> f(StatDp := f StatDp + 1) | ViRetrace \<Rightarrow> f(StatVi := f StatVi + 1) | AiEvent \<Rightarrow> f(StatAi := f StatAi + 1))"

definition push_event :: "CosimRcpEventKind \<Rightarrow> u32 \<Rightarrow> u64 \<Rightarrow> u64 \<Rightarrow> u32 \<Rightarrow> u32 \<Rightarrow> cosim \<Rightarrow> cosim" where
  "push_event kind ty delay gseq mq msg c = (case ultramodern_cosim_get_time_ticks c of (now, c) \<Rightarrow>
     c\<lparr>cosim_rcp_next_seq := cosim_rcp_next_seq c + 1,
       cosim_rcp_events := cosim_rcp_events c @ [\<lparr>due_cycle = now + delay, ev_seq = cosim_rcp_next_seq c, gfx_seq = gseq, task_type = ty,
         ev_mq = mq, ev_msg = msg, ev_kind = kind\<rparr>],
       scheduled := count_kind kind ty (scheduled c)\<rparr>)"

definition cosim_schedule_rcp_event :: "CosimRcpEventKind \<Rightarrow> u32 \<Rightarrow> u64 \<Rightarrow> u64 \<Rightarrow> cosim \<Rightarrow> cosim" where
  "cosim_schedule_rcp_event kind ty delay gseq = push_event kind ty delay gseq 0 0"

definition cosim_schedule_queue_event :: "CosimRcpEventKind \<Rightarrow> u32 \<Rightarrow> u32 \<Rightarrow> u64 \<Rightarrow> cosim \<Rightarrow> cosim" where
  "cosim_schedule_queue_event kind mq msg delay c = (if mq = 0 then c else push_event kind 0 delay 0 mq msg c)"

text \<open>The order of delivery.\<close>

definition ev_before :: "CosimRcpEvent \<Rightarrow> CosimRcpEvent \<Rightarrow> bool" where
  "ev_before a b \<longleftrightarrow> due_cycle a < due_cycle b \<or> due_cycle a = due_cycle b \<and> ev_seq a < ev_seq b"

definition render_pending :: "cosim \<Rightarrow> CosimRcpEvent \<Rightarrow> bool" where
  "render_pending c e \<longleftrightarrow> ev_kind e = DpComplete \<and> gfx_seq e \<noteq> 0 \<and> cosim_gfx_rendered_seq c < gfx_seq e"

definition best_due :: "u64 \<Rightarrow> CosimRcpEvent list \<Rightarrow> (nat \<times> CosimRcpEvent) option" where
  "best_due now es = scan_least (\<lambda>a b. ev_before (snd a) (snd b)) (filter (\<lambda>(i, e). due_cycle e \<le> now) (enumerate 0 es))"

definition cosim_pop_due_rcp_event :: "u64 \<Rightarrow> cosim \<Rightarrow> (CosimRcpEvent \<times> cosim) option" where
  "cosim_pop_due_rcp_event now c = (case best_due now (cosim_rcp_events c) of
     None \<Rightarrow> None
   | Some (best, e) \<Rightarrow> if render_pending c e then None
       else Some (e, c\<lparr>cosim_rcp_events := take best (cosim_rcp_events c) @ drop (Suc best) (cosim_rcp_events c)\<rparr>))"

definition cosim_next_rcp_due :: "cosim \<Rightarrow> u64 option" where
  "cosim_next_rcp_due c = map_option due_cycle (scan_least ev_before (cosim_rcp_events c))"

definition cosim_next_vi_due :: "bool \<Rightarrow> cosim \<Rightarrow> u64 option" where
  "cosim_next_vi_due started c =
     (if \<not> cosim_vi_control_enabled c \<or> \<not> started then None
      else if cosim_vi_tokens c = 0 then None
      else Some (if cosim_vi_needs_rebase c then counter_per_vi else cosim_next_vi_cycle c))"

definition ultramodern_cosim_reset_rcp_events :: "cosim \<Rightarrow> cosim" where
  "ultramodern_cosim_reset_rcp_events c = c\<lparr>cosim_rcp_events := [], cosim_rcp_next_seq := 0, cosim_gfx_next_seq := 0, cosim_gfx_rendered_seq := 0,
     scheduled := (\<lambda>_. 0), delivered := (\<lambda>_. 0)\<rparr>"

definition ultramodern_cosim_rcp_event_pending :: "cosim \<Rightarrow> bool" where
  "ultramodern_cosim_rcp_event_pending c \<longleftrightarrow> cosim_rcp_events c \<noteq> []"

definition cosim_vi_due_now :: "bool \<Rightarrow> cosim \<Rightarrow> bool" where
  "cosim_vi_due_now started c = (case cosim_next_vi_due started c of None \<Rightarrow> False | Some due \<Rightarrow> due \<le> fst (ultramodern_cosim_get_time_ticks c))"

definition ultramodern_cosim_rcp_event_due :: "bool \<Rightarrow> cosim \<Rightarrow> bool" where
  "ultramodern_cosim_rcp_event_due started c \<longleftrightarrow> cosim_vi_due_now started c \<or>
     (let now = fst (ultramodern_cosim_get_time_ticks c) in
      list_ex (\<lambda>e. due_cycle e \<le> now \<and> \<not> render_pending c e) (cosim_rcp_events c))"

section \<open>Delivery\<close>

definition deliver_event :: "enqueue \<Rightarrow> CosimRcpEvent \<Rightarrow> cosim \<Rightarrow> cosim" where
  "deliver_event enq e c = (let
     v = (case ev_kind e of
        SpComplete \<Rightarrow> sp_complete enq (task_type e) (ev c)
      | DpComplete \<Rightarrow> dp_complete enq (task_type e) (ev c)
      | ViRetrace \<Rightarrow> post enq (ev_mq e, ev_msg e) True (ev c)
      | AiEvent \<Rightarrow> post enq (ev_mq e, ev_msg e) False (ev c)) in
     c\<lparr>ev := v, delivered := count_kind (ev_kind e) (task_type e) (delivered c)\<rparr>)"

lemma sync_events [simp]: "cosim_rcp_events (snd (cosim_sync_time_floor c)) = cosim_rcp_events c"
  by (simp add: cosim_sync_time_floor_def Let_def)

lemma best_due_nth: "best_due now es = Some (i, e) \<Longrightarrow> i < length es \<and> es ! i = e \<and> due_cycle e \<le> now"
  by (auto simp: best_due_def in_set_enumerate_eq dest!: scan_least_mem)

lemma pop_shorter:
  assumes "cosim_pop_due_rcp_event now c = Some (e, c')"
  shows "length (cosim_rcp_events c') < length (cosim_rcp_events c)"
  using assms by (auto simp: cosim_pop_due_rcp_event_def dest!: best_due_nth split: option.splits if_splits)

lemma sync_eventsD: "cosim_sync_time_floor c = (now, c') \<Longrightarrow> cosim_rcp_events c' = cosim_rcp_events c"
  by (metis snd_conv sync_events)

text \<open>The events are returned; the code counts them.\<close>

function ultramodern_cosim_deliver_due_rcp_events :: "enqueue \<Rightarrow> cosim \<Rightarrow> CosimRcpEvent list \<times> cosim" where
  "ultramodern_cosim_deliver_due_rcp_events enq c = (case ultramodern_cosim_get_time_ticks c of (now, c) \<Rightarrow>
     (case cosim_pop_due_rcp_event now c of
        None \<Rightarrow> ([], c)
      | Some (e, c) \<Rightarrow> (case ultramodern_cosim_deliver_due_rcp_events enq (deliver_event enq e c) of (es, c) \<Rightarrow> (e # es, c))))"
  by pat_completeness auto

termination
  by (relation "measure (\<lambda>(enq, c). length (cosim_rcp_events c))")
     (auto simp: deliver_event_def Let_def ultramodern_cosim_get_time_ticks_def dest: pop_shorter dest!: sync_eventsD [OF sym])

declare ultramodern_cosim_deliver_due_rcp_events.simps [simp del]

section \<open>Video interrupts\<close>

definition rebase :: "cosim \<Rightarrow> cosim" where
  "rebase c = (if cosim_vi_needs_rebase c then c\<lparr>ev := (ev c)\<lparr>total_vis := 0\<rparr>, cosim_remaining_retraces := 1,
     cosim_next_vi_cycle := counter_per_vi, cosim_vi_needs_rebase := False\<rparr> else c)"

definition ultramodern_cosim_request_vi :: "bool \<Rightarrow> u32 \<Rightarrow> cosim \<Rightarrow> u32 \<times> cosim" where
  "ultramodern_cosim_request_vi started n c = (if n = 0 \<or> \<not> started then (0, c) else let
     c = rebase c; room = - 1 - cosim_vi_tokens c; accepted = (if n > room then room else n) in
     (accepted, c\<lparr>cosim_vi_tokens := cosim_vi_tokens c + accepted\<rparr>))"

definition ultramodern_cosim_reset_vi_counter :: "cosim \<Rightarrow> cosim" where
  "ultramodern_cosim_reset_vi_counter c = c\<lparr>cosim_vi_tokens := 0, cosim_vi_needs_rebase := True, cosim_vi_control_enabled := True,
     ev := (ev c)\<lparr>total_vis := 0\<rparr>, cosim_remaining_retraces := 1, cosim_next_vi_cycle := counter_per_vi\<rparr>"

text \<open>\<open>None\<close>: a null mode is read; the code installs the dummy mode first.\<close>

definition ultramodern_cosim_advance_vi :: "Action enq \<Rightarrow> cosim \<Rightarrow> cosim option" where
  "ultramodern_cosim_advance_vi aenq c = (let
     e = (ev c)\<lparr>total_vis := total_vis (ev c) + 1\<rparr>;
     (e, od) = (if vs_mode (get_next_state e) = NullMode then (set_dummy_vi (cosim_dummy_odd c) e, \<not> cosim_dummy_odd c) else (e, cosim_dummy_odd c));
     e = e\<lparr>action_queue := aenq (ScreenUpdateAction (regs e)) (action_queue e)\<rparr> in
     case update_vi e of None \<Rightarrow> None | Some e \<Rightarrow> (let
       c = c\<lparr>ev := e, cosim_dummy_odd := od, cosim_remaining_retraces := cosim_remaining_retraces c - 1\<rparr>;
       cur = get_cur_state (ev c);
       c = (if cosim_remaining_retraces c \<le> 0 then
              let c = (if vs_mq cur \<noteq> 0 then cosim_schedule_queue_event ViRetrace (vs_mq cur) (vs_msg cur) 0 c else c) in
              c\<lparr>cosim_remaining_retraces := if retrace_count cur > 0 then retrace_count cur else 1\<rparr>
            else c) in
       Some (if fst (ai_slot (ev c)) \<noteq> 0 then cosim_schedule_queue_event AiEvent (fst (ai_slot (ev c))) (snd (ai_slot (ev c))) 0 c else c)))"

text \<open>The number of interrupts (0 or 1) and the events delivered; the code returns their sum.\<close>

definition ultramodern_cosim_advance_due_vi :: "enqueue \<Rightarrow> Action enq \<Rightarrow> bool \<Rightarrow> bool \<Rightarrow> cosim \<Rightarrow> (nat \<times> CosimRcpEvent list \<times> cosim) option" where
  "ultramodern_cosim_advance_due_vi enq aenq started allow_time_advance c =
     (if \<not> cosim_vi_control_enabled c \<or> \<not> started then Some (0, [], c)
      else let c = rebase c in
        if cosim_vi_tokens c = 0 then Some (0, [], c)
        else case ultramodern_cosim_get_time_ticks c of (now, c) \<Rightarrow> let due = cosim_next_vi_cycle c in
          if now < due \<and> \<not> allow_time_advance then Some (0, [], c)
          else let c = (if now < due then ultramodern_cosim_advance_time_ticks (due - now) c else c) in
            case ultramodern_cosim_get_time_ticks c of (cur, c) \<Rightarrow>
            if cur < cosim_next_vi_cycle c then Some (0, [], c)
            else let c = c\<lparr>cosim_vi_tokens := cosim_vi_tokens c - 1, cosim_next_vi_cycle := cosim_next_vi_cycle c + counter_per_vi\<rparr> in
              case ultramodern_cosim_advance_vi aenq c of None \<Rightarrow> None
              | Some c \<Rightarrow> (case ultramodern_cosim_deliver_due_rcp_events enq c of (es, c) \<Rightarrow> Some (1, es, c)))"

definition ultramodern_cosim_advance_to_next_rcp_event :: "enqueue \<Rightarrow> Action enq \<Rightarrow> bool \<Rightarrow> cosim \<Rightarrow> (nat \<times> CosimRcpEvent list \<times> cosim) option" where
  "ultramodern_cosim_advance_to_next_rcp_event enq aenq started c =
     (case ultramodern_cosim_advance_due_vi enq aenq started False c of None \<Rightarrow> None
      | Some (vis, es, c) \<Rightarrow> (case ultramodern_cosim_deliver_due_rcp_events enq c of (es', c) \<Rightarrow>
        if vis + length es + length es' \<noteq> 0 then Some (vis, es @ es', c)
        else let rcp_due = cosim_next_rcp_due c; vi_due = cosim_next_vi_due started c;
                 (now, c') = ultramodern_cosim_get_time_ticks c in
          if rcp_due = None \<and> vi_due = None then Some (0, [], c)
          else if (case (vi_due, rcp_due) of (Some v, None) \<Rightarrow> True | (Some v, Some r) \<Rightarrow> v \<le> r | _ \<Rightarrow> False)
          then let c = (if the vi_due > now then ultramodern_cosim_advance_time_ticks (the vi_due - now) c' else c') in
            ultramodern_cosim_advance_due_vi enq aenq started False c
          else let c = (if the rcp_due > now then ultramodern_cosim_advance_time_ticks (the rcp_due - now) c' else c');
                   (es, c) = ultramodern_cosim_deliver_due_rcp_events enq c in Some (0, es, c)))"

section \<open>Submission of tasks\<close>

text \<open>
  A graphics task is handed to the graphics thread and the caller waits until it is rendered; other tasks
  run on the caller. \<open>gfx_sp\<close>, \<open>gfx_dp\<close> and \<open>rsp_sp\<close> are the configured delays.
\<close>

definition cosim_submit_rsp_task :: "u64 \<Rightarrow> u64 \<Rightarrow> u64 \<Rightarrow> (OSTask \<Rightarrow> os \<Rightarrow> os) \<Rightarrow> (OSTask \<Rightarrow> os \<Rightarrow> bool \<times> os) \<Rightarrow> u32 \<Rightarrow> cosim \<Rightarrow> cosim" where
  "cosim_submit_rsp_task gfx_sp gfx_dp rsp_sp send_dl run p c = (let task = task_at (ev c) p in
     if t_type task = M_GFXTASK then let
       seq = cosim_gfx_next_seq c + 1;
       c = c\<lparr>ev := (ev c)\<lparr>g_submit_gfx := g_submit_gfx (ev c) + 1, rcp_os := send_dl task (rcp_os (ev c))\<rparr>, cosim_gfx_next_seq := seq,
             cosim_gfx_rendered_seq := max (cosim_gfx_rendered_seq c) seq\<rparr>;
       ty = t_type (task_at (ev c) p);
       c = cosim_schedule_rcp_event SpComplete ty gfx_sp 0 c in
       cosim_schedule_rcp_event DpComplete ty gfx_dp seq c
     else let
       e = (if t_type task = M_AUDTASK then (ev c)\<lparr>g_submit_audio := g_submit_audio (ev c) + 1\<rparr> else (ev c)\<lparr>g_submit_other := g_submit_other (ev c) + 1\<rparr>);
       c = c\<lparr>ev := e\<lparr>rcp_os := snd (run task (rcp_os e))\<rparr>\<rparr> in
       cosim_schedule_rcp_event SpComplete (t_type (task_at (ev c) p)) rsp_sp 0 c)"

end
