(* ===== verification/CosimProps.thy ===== *)
theory CosimProps
  imports CosimEvents RcpProps
begin

text \<open>
  Properties of the co-simulated RCP: events that are due are delivered in the order of their deadline
  and sequence number and none is left behind, and a request to advance always delivers something while there is
  something to wait for.
\<close>

lemma ev_before_order:
  "\<not> ev_before a a" "ev_before a b \<Longrightarrow> ev_before b d \<Longrightarrow> ev_before a d" "ev_before a d \<Longrightarrow> ev_before a b \<or> ev_before b d"
  by (auto simp: ev_before_def)

interpretation event_order: strict_weak_order ev_before
  by unfold_locales (rule ev_before_order, erule (1) ev_before_order, erule ev_before_order)

interpretation event_order_at: strict_weak_order "\<lambda>a b. ev_before (snd a) (snd b)" for t :: "nat itself"
  by unfold_locales (rule ev_before_order, erule (1) ev_before_order, erule ev_before_order)

section \<open>Popping\<close>

lemma best_due_mem: "(\<exists>p \<in> set (enumerate 0 es). P (snd p)) \<longleftrightarrow> (\<exists>e \<in> set es. P e)"
  by (metis (no_types, lifting) imageE image_eqI list.set_map map_snd_enumerate)

lemma best_due_None: "best_due now es = None \<longleftrightarrow> (\<forall>e \<in> set es. now < due_cycle e)"
proof -
  have "best_due now es = None \<longleftrightarrow> filter (\<lambda>(i, e). due_cycle e \<le> now) (enumerate 0 es) = []"
    unfolding best_due_def by (rule event_order_at.scan_least_None)
  also have "\<dots> \<longleftrightarrow> (\<forall>e \<in> set es. \<not> due_cycle e \<le> now)"
    using best_due_mem [of es "\<lambda>e. due_cycle e \<le> now"] by (auto simp: filter_empty_conv case_prod_beta)
  finally show ?thesis by (simp add: not_le)
qed

lemma best_due_Some:
  assumes "best_due now es = Some (i, e)" "x \<in> set es" "due_cycle x \<le> now" shows "\<not> ev_before x e"
proof -
  obtain j where "j < length es" "x = es ! j" using assms(2) by (auto simp: in_set_conv_nth)
  then have "(j, x) \<in> set (filter (\<lambda>(i, e). due_cycle e \<le> now) (enumerate 0 es))"
    using assms(3) by (auto simp: in_set_enumerate_eq)
  then show ?thesis using event_order_at.scan_least_Some [OF assms(1) [unfolded best_due_def]] by fastforce
qed

definition rendered :: "cosim \<Rightarrow> bool" where
  "rendered c \<longleftrightarrow> (\<forall>e \<in> set (cosim_rcp_events c). \<not> render_pending c e)"

lemma pop_None: "rendered c \<Longrightarrow> cosim_pop_due_rcp_event now c = None \<longleftrightarrow> (\<forall>e \<in> set (cosim_rcp_events c). now < due_cycle e)"
  using best_due_None [of now "cosim_rcp_events c"] best_due_nth [of now "cosim_rcp_events c"]
  by (fastforce simp: cosim_pop_due_rcp_event_def rendered_def split: option.split)

lemma pop_Some:
  assumes "cosim_pop_due_rcp_event now c = Some (e, c')"
  obtains i where "i < length (cosim_rcp_events c)" "cosim_rcp_events c ! i = e" "due_cycle e \<le> now"
    "\<And>x. x \<in> set (cosim_rcp_events c) \<Longrightarrow> due_cycle x \<le> now \<Longrightarrow> \<not> ev_before x e"
    "c' = c\<lparr>cosim_rcp_events := take i (cosim_rcp_events c) @ drop (Suc i) (cosim_rcp_events c)\<rparr>"
  using assms best_due_nth [of now "cosim_rcp_events c"] best_due_Some [of now "cosim_rcp_events c"]
  by (fastforce simp: cosim_pop_due_rcp_event_def split: option.splits if_splits)

lemma remove_nth:
  assumes "i < length es"
  shows "mset es = add_mset (es ! i) (mset (take i es @ drop (Suc i) es))" "set (take i es @ drop (Suc i) es) \<subseteq> set es"
    "\<not> P (es ! i) \<Longrightarrow> filter P (take i es @ drop (Suc i) es) = filter P es"
proof -
  note d = id_take_nth_drop [OF assms]
  show "mset es = add_mset (es ! i) (mset (take i es @ drop (Suc i) es))" by (subst (1) d) simp
  show "set (take i es @ drop (Suc i) es) \<subseteq> set es" by (auto dest: in_set_takeD in_set_dropD)
  show "\<not> P (es ! i) \<Longrightarrow> filter P (take i es @ drop (Suc i) es) = filter P es"
    by (subst (3) d) simp
qed

section \<open>Delivering\<close>

definition now_of :: "cosim \<Rightarrow> u64" where
  "now_of c = max (cosim_time_ticks c) (total_vis (ev c) * counter_per_vi)"

lemma sync_eq: "cosim_sync_time_floor c = (now_of c, c\<lparr>cosim_time_ticks := now_of c\<rparr>)"
  by (auto simp: cosim_sync_time_floor_def now_of_def Let_def max_def)

lemma deliver_event_frame [simp]:
  "total_vis (ev (deliver_event enq e c)) = total_vis (ev c)" "cosim_time_ticks (deliver_event enq e c) = cosim_time_ticks c"
  "cosim_rcp_events (deliver_event enq e c) = cosim_rcp_events c" "cosim_gfx_rendered_seq (deliver_event enq e c) = cosim_gfx_rendered_seq c"
  by (simp_all add: deliver_event_def Let_def sp_complete_def dp_complete_def mark_sp_task_complete_def publish_sp_status_def post_def
      split: CosimRcpEventKind.split)

lemma deliver_due_correct:
  "rendered c \<Longrightarrow> (case ultramodern_cosim_deliver_due_rcp_events enq c of (es, c') \<Rightarrow>
     cosim_rcp_events c' = filter (\<lambda>e. now_of c < due_cycle e) (cosim_rcp_events c) \<and>
     mset es = mset (filter (\<lambda>e. due_cycle e \<le> now_of c) (cosim_rcp_events c)) \<and>
     sorted_wrt (\<lambda>a b. \<not> ev_before b a) es)"
proof (induction enq c rule: ultramodern_cosim_deliver_due_rcp_events.induct)
  case (1 enq c)
  let ?c = "c\<lparr>cosim_time_ticks := now_of c\<rparr>"
  have t: "ultramodern_cosim_get_time_ticks c = (now_of c, ?c)" by (simp add: ultramodern_cosim_get_time_ticks_def sync_eq)
  have r: "rendered ?c" using 1(2) by (simp add: rendered_def render_pending_def)
  show ?case
  proof (cases "cosim_pop_due_rcp_event (now_of c) ?c")
    case None
    then have a: "\<forall>e \<in> set (cosim_rcp_events c). now_of c < due_cycle e" using pop_None [OF r] by simp
    then have "filter (\<lambda>e. now_of c < due_cycle e) (cosim_rcp_events c) = cosim_rcp_events c"
      "filter (\<lambda>e. due_cycle e \<le> now_of c) (cosim_rcp_events c) = []" by (auto simp: filter_id_conv filter_empty_conv not_le)
    then show ?thesis by (subst ultramodern_cosim_deliver_due_rcp_events.simps) (simp add: t None)
  next
    case (Some p)
    obtain e c1 where p: "p = (e, c1)" by (cases p)
    note pop = Some [unfolded p]
    obtain i where i: "i < length (cosim_rcp_events c)" "cosim_rcp_events c ! i = e" "due_cycle e \<le> now_of c"
      "\<And>x. x \<in> set (cosim_rcp_events c) \<Longrightarrow> due_cycle x \<le> now_of c \<Longrightarrow> \<not> ev_before x e"
      "c1 = ?c\<lparr>cosim_rcp_events := take i (cosim_rcp_events c) @ drop (Suc i) (cosim_rcp_events c)\<rparr>"
      by (rule pop_Some [OF pop]) simp
    let ?d = "deliver_event enq e c1"
    have n: "now_of ?d = now_of c" by (simp add: now_of_def i(5))
    have rd: "rendered ?d" using r remove_nth(2) [OF i(1)] by (auto simp: rendered_def render_pending_def i(5))
    obtain es c' where d: "ultramodern_cosim_deliver_due_rcp_events enq ?d = (es, c')" by fastforce
    have IH: "cosim_rcp_events c' = filter (\<lambda>e. now_of c < due_cycle e) (cosim_rcp_events c1)"
      "mset es = mset (filter (\<lambda>e. due_cycle e \<le> now_of c) (cosim_rcp_events c1))" "sorted_wrt (\<lambda>a b. \<not> ev_before b a) es"
      using 1(1) [OF t [symmetric] pop refl rd] d n by simp_all
    have "set es \<subseteq> {x \<in> set (cosim_rcp_events c). due_cycle x \<le> now_of c}"
      using arg_cong [OF IH(2), of set_mset] remove_nth(2) [OF i(1)] by (auto simp: i(5))
    then have "\<forall>x \<in> set es. \<not> ev_before x e" using i(4) by auto
    moreover have "mset (e # es) = mset (filter (\<lambda>e. due_cycle e \<le> now_of c) (cosim_rcp_events c))"
      using remove_nth(1) [OF i(1)] i(2,3) IH(2) by (simp add: i(5))
    moreover have "cosim_rcp_events c' = filter (\<lambda>e. now_of c < due_cycle e) (cosim_rcp_events c)"
      using IH(1) remove_nth(3) [OF i(1), of "\<lambda>e. now_of c < due_cycle e"] i(2,3) by (simp add: i(5))
    ultimately show ?thesis using IH(3)
      by (subst ultramodern_cosim_deliver_due_rcp_events.simps) (simp add: t pop d)
  qed
qed

section \<open>A small state\<close>

text \<open>Two completions are scheduled for ticks 100 and 50; ten interrupts have been granted, the next one for tick 80.\<close>

definition demo_cosim :: cosim where
  "demo_cosim = \<lparr>ev = demo_events, cosim_time_ticks = 0, cosim_cpu_retired = 0, cosim_cpu_model_events = 0,
     cosim_rcp_events = [\<lparr>due_cycle = 100, ev_seq = 0, gfx_seq = 0, task_type = 1, ev_mq = 0, ev_msg = 0, ev_kind = SpComplete\<rparr>,
       \<lparr>due_cycle = 50, ev_seq = 1, gfx_seq = 0, task_type = 2, ev_mq = 0, ev_msg = 0, ev_kind = SpComplete\<rparr>],
     cosim_rcp_next_seq = 2, cosim_gfx_next_seq = 0, cosim_gfx_rendered_seq = 0, cosim_vi_tokens = 10, cosim_next_vi_cycle = 80,
     cosim_vi_needs_rebase = False, cosim_vi_control_enabled = True, cosim_remaining_retraces = 1, cosim_dummy_odd = False,
     scheduled = (\<lambda>_. 0), delivered = (\<lambda>_. 0)\<rparr>"

lemma demo_rendered: "rendered demo_cosim" "rendered (demo_cosim\<lparr>cosim_time_ticks := 120\<rparr>)"
  by (simp_all add: rendered_def render_pending_def demo_cosim_def)

section \<open>Due events\<close>

text \<open>
  C28. Delivery of due events: exactly the events whose deadline has passed are delivered, in the order of
  deadline and sequence number; the others stay scheduled as they were.
\<close>

theorem due_events_delivered_in_order:
  assumes "rendered c" and "ultramodern_cosim_deliver_due_rcp_events enq c = (es, c')"
  shows "cosim_rcp_events c' = filter (\<lambda>e. now_of c < due_cycle e) (cosim_rcp_events c) \<and>
     mset es = mset (filter (\<lambda>e. due_cycle e \<le> now_of c) (cosim_rcp_events c)) \<and>
     sorted_wrt (\<lambda>a b. \<not> ev_before b a) es"
  using deliver_due_correct [OF assms(1), of enq] assms(2) by simp

theorem due_events_delivered_in_order_witness:
  "map task_type (fst (ultramodern_cosim_deliver_due_rcp_events tail_enq (demo_cosim\<lparr>cosim_time_ticks := 120\<rparr>))) = [2, 1]"
proof -
  let ?c = "demo_cosim\<lparr>cosim_time_ticks := 120\<rparr>"
  obtain es c' where d: "ultramodern_cosim_deliver_due_rcp_events tail_enq ?c = (es, c')" by fastforce
  have n: "now_of ?c = 120" by (simp add: now_of_def demo_cosim_def demo_events_def)
  define a b where "a = cosim_rcp_events demo_cosim ! 0" and "b = cosim_rcp_events demo_cosim ! 1"
  have ab: "cosim_rcp_events ?c = [a, b]" "due_cycle a = 100" "due_cycle b = 50" "task_type a = 1" "task_type b = 2"
    by (simp_all add: a_def b_def demo_cosim_def)
  have "mset es = {#a, b#}" "sorted_wrt (\<lambda>x y. \<not> ev_before y x) es"
    using due_events_delivered_in_order [OF demo_rendered(2) d] ab by (simp_all add: n)
  moreover from this(1) have "es = [a, b] \<or> es = [b, a]"
    by (cases es rule: remdups_adj.cases) (auto simp: add_eq_conv_diff)
  ultimately show ?thesis using d ab by (auto simp: ev_before_def)
qed

section \<open>Progress\<close>

lemma deliver_some:
  assumes "rendered c" "e \<in> set (cosim_rcp_events c)" "due_cycle e \<le> now_of c"
  shows "fst (ultramodern_cosim_deliver_due_rcp_events enq c) \<noteq> []"
proof -
  obtain es c' where d: "ultramodern_cosim_deliver_due_rcp_events enq c = (es, c')" by fastforce
  then have "mset es = mset (filter (\<lambda>e. due_cycle e \<le> now_of c) (cosim_rcp_events c))" using deliver_due_correct [OF assms(1), of enq] by simp
  then show ?thesis using assms(2,3) d by (auto simp: filter_empty_conv)
qed

text \<open>Nothing was due: the events and the interrupts are as they were, at the current time.\<close>

lemma deliver_none:
  "fst (ultramodern_cosim_deliver_due_rcp_events enq c) = [] \<Longrightarrow>
     snd (ultramodern_cosim_deliver_due_rcp_events enq c) = c\<lparr>cosim_time_ticks := now_of c\<rparr>"
  by (subst (asm) ultramodern_cosim_deliver_due_rcp_events.simps, subst ultramodern_cosim_deliver_due_rcp_events.simps)
     (auto simp: ultramodern_cosim_get_time_ticks_def sync_eq case_prod_beta split: option.splits)

lemma update_vi_None: "update_vi e = None \<longleftrightarrow> vs_mode (get_next_state e) = NullMode"
  by (auto simp: update_vi_def Let_def mode_at_def split: option.split mode_ptr.splits)

lemma next_state_simps: "get_next_state (e\<lparr>action_queue := q\<rparr>) = get_next_state e" "vs_mode (get_next_state (set_dummy_vi b e)) = DummyMode"
  by (simp_all add: get_next_state_def set_dummy_vi_def set_next_state_def)

lemma advance_vi_total: "\<exists>c'. ultramodern_cosim_advance_vi aenq c = Some c'"
  unfolding ultramodern_cosim_advance_vi_def Let_def
  by (cases "vs_mode (get_next_state ((ev c)\<lparr>total_vis := total_vis (ev c) + 1\<rparr>)) = NullMode")
     (simp_all add: update_vi_None next_state_simps split: option.split)

text \<open>The interrupt that is due: it happens, or there is none to hand out, or its time has not come.\<close>

definition vi_granted :: "bool \<Rightarrow> cosim \<Rightarrow> bool" where
  "vi_granted started c \<longleftrightarrow> cosim_vi_control_enabled c \<and> started \<and> cosim_vi_tokens c \<noteq> 0"

lemma advance_due_vi_cases:
  obtains (happens) es c' where "ultramodern_cosim_advance_due_vi enq aenq started False c = Some (1, es, c')"
    | (none) "\<not> vi_granted started c" "ultramodern_cosim_advance_due_vi enq aenq started False c = Some (0, [], c)"
    | (rebased) "\<not> vi_granted started c" "ultramodern_cosim_advance_due_vi enq aenq started False c = Some (0, [], rebase c)"
    | (early) "vi_granted started c" "now_of (rebase c) < cosim_next_vi_cycle (rebase c)"
        "ultramodern_cosim_advance_due_vi enq aenq started False c = Some (0, [], (rebase c)\<lparr>cosim_time_ticks := now_of (rebase c)\<rparr>)"
proof -
  let ?c = "rebase c"
  let ?t = "?c\<lparr>cosim_time_ticks := now_of ?c\<rparr>"
  have g: "ultramodern_cosim_get_time_ticks ?c = (now_of ?c, ?t)" "ultramodern_cosim_get_time_ticks ?t = (now_of ?c, ?t)"
    by (simp_all add: ultramodern_cosim_get_time_ticks_def sync_eq) (simp_all add: now_of_def)
  have tok: "cosim_vi_tokens ?c = cosim_vi_tokens c" by (simp add: rebase_def)
  note def = ultramodern_cosim_advance_due_vi_def [of enq aenq started False c]
  show ?thesis
  proof (cases "cosim_vi_control_enabled c \<and> started")
    case False
    then show ?thesis using none by (auto simp: def vi_granted_def)
  next
    case on: True
    show ?thesis
    proof (cases "cosim_vi_tokens c = 0")
      case True
      with on have "ultramodern_cosim_advance_due_vi enq aenq started False c = Some (0, [], rebase c)" unfolding def by (simp add: tok Let_def)
      with True show ?thesis by (intro rebased) (simp_all add: vi_granted_def)
    next
      case tk: False
      show ?thesis
      proof (cases "now_of ?c < cosim_next_vi_cycle ?c")
        case True
        with on tk have "ultramodern_cosim_advance_due_vi enq aenq started False c = Some (0, [], ?t)" unfolding def by (simp add: tok Let_def g)
        with True on tk show ?thesis by (intro early) (simp_all add: vi_granted_def)
      next
        case False
        let ?u = "?t\<lparr>cosim_vi_tokens := cosim_vi_tokens c - 1, cosim_next_vi_cycle := cosim_next_vi_cycle ?c + counter_per_vi\<rparr>"
        obtain c' where "ultramodern_cosim_advance_vi aenq ?u = Some c'" using advance_vi_total by blast
        with on tk False have "\<exists>es c'. ultramodern_cosim_advance_due_vi enq aenq started False c = Some (1, es, c')"
          unfolding def by (simp add: tok Let_def g case_prod_beta)
        with happens show ?thesis by blast
      qed
    qed
  qed
qed

lemma advance_to:
  assumes "cosim_time_ticks c = now_of c" "now_of c < t"
  shows "now_of (ultramodern_cosim_advance_time_ticks (t - now_of c) c) = t"
    "cosim_rcp_events (ultramodern_cosim_advance_time_ticks (t - now_of c) c) = cosim_rcp_events c"
    "rendered c \<Longrightarrow> rendered (ultramodern_cosim_advance_time_ticks (t - now_of c) c)"
    "vi_granted started (ultramodern_cosim_advance_time_ticks (t - now_of c) c) = vi_granted started c"
    "cosim_vi_needs_rebase (ultramodern_cosim_advance_time_ticks (t - now_of c) c) = cosim_vi_needs_rebase c"
    "cosim_next_vi_cycle (ultramodern_cosim_advance_time_ticks (t - now_of c) c) = cosim_next_vi_cycle c"
proof -
  have "t - now_of c \<noteq> 0" using assms(2) by auto
  then have e: "ultramodern_cosim_advance_time_ticks (t - now_of c) c = c\<lparr>cosim_time_ticks := t\<rparr>"
    by (simp add: ultramodern_cosim_advance_time_ticks_def sync_eq Let_def)
  have "total_vis (ev c) * counter_per_vi \<le> now_of c" by (simp add: now_of_def)
  then show "now_of (ultramodern_cosim_advance_time_ticks (t - now_of c) c) = t" using assms(2) unfolding e by (simp add: now_of_def)
  show "rendered c \<Longrightarrow> rendered (ultramodern_cosim_advance_time_ticks (t - now_of c) c)" by (simp add: e rendered_def render_pending_def)
qed (simp_all add: ultramodern_cosim_advance_time_ticks_def sync_eq Let_def vi_granted_def)

text \<open>The second half of the call, when nothing was due: the clock moves to the next deadline.\<close>

lemma advance_idle:
  assumes r0: "rendered d" and empty: "fst (ultramodern_cosim_deliver_due_rcp_events enq d) = []"
    and v0: "vi_granted started d \<Longrightarrow> \<not> cosim_vi_needs_rebase d \<and> now_of d < cosim_next_vi_cycle d"
    and some: "cosim_rcp_events d \<noteq> [] \<or> vi_granted started d"
    and first: "ultramodern_cosim_advance_due_vi enq aenq started False c0 = Some (0, [], d)"
  shows "\<exists>n es c'. ultramodern_cosim_advance_to_next_rcp_event enq aenq started c0 = Some (n, es, c') \<and> 0 < n + length es"
proof -
  define c where "c = d\<lparr>cosim_time_ticks := now_of d\<rparr>"
  have c: "ultramodern_cosim_deliver_due_rcp_events enq d = ([], c)"
    using deliver_none [OF empty] empty unfolding c_def by (metis prod.collapse)
  have n: "now_of c = now_of d" "cosim_time_ticks c = now_of d" "cosim_rcp_events c = cosim_rcp_events d" by (simp_all add: c_def now_of_def)
  have t: "cosim_time_ticks c = now_of c" using n by simp
  have r: "rendered c" and v: "vi_granted started c \<Longrightarrow> \<not> cosim_vi_needs_rebase c \<and> now_of c < cosim_next_vi_cycle c"
    and g: "vi_granted started d = vi_granted started c"
    using r0 v0 n by (simp_all add: c_def rendered_def render_pending_def vi_granted_def)
  have now: "ultramodern_cosim_get_time_ticks c = (now_of c, c)" using n by (simp add: ultramodern_cosim_get_time_ticks_def sync_eq)
  note def = ultramodern_cosim_advance_to_next_rcp_event_def [of enq aenq started c0]
  have vi: "cosim_next_vi_due started c = (if vi_granted started c then Some (cosim_next_vi_cycle c) else None)"
    using v by (auto simp: cosim_next_vi_due_def vi_granted_def)
  have late: "now_of c < due_cycle e" if "e \<in> set (cosim_rcp_events c)" for e
    using deliver_some [OF r0, of e enq] that empty n by (metis not_le)
  have rcp: "\<exists>es c'. ultramodern_cosim_deliver_due_rcp_events enq (ultramodern_cosim_advance_time_ticks (due_cycle e - now_of c) c) = (es, c') \<and> es \<noteq> []"
    if "e \<in> set (cosim_rcp_events c)" for e
    using deliver_some [OF advance_to(3) [OF t late [OF that] r], of e enq] advance_to(1,2) [OF t late [OF that]] that
    by (metis order_refl prod.collapse)
  have vis: "\<exists>es c'. ultramodern_cosim_advance_due_vi enq aenq started False (ultramodern_cosim_advance_time_ticks (cosim_next_vi_cycle c - now_of c) c) = Some (1, es, c')"
    if "vi_granted started c"
  proof -
    let ?d = "ultramodern_cosim_advance_time_ticks (cosim_next_vi_cycle c - now_of c) c"
    have a: "vi_granted started ?d" "rebase ?d = ?d" "now_of ?d = cosim_next_vi_cycle ?d"
      using v [OF that] that advance_to [OF t, of "cosim_next_vi_cycle c"] by (simp_all add: rebase_def)
    show ?thesis by (rule advance_due_vi_cases [of enq aenq started ?d]) (use a in auto)
  qed
  show ?thesis
  proof (cases "scan_least ev_before (cosim_rcp_events c)")
    case None
    then have "cosim_rcp_events c = []" by (simp add: event_order.scan_least_None)
    with some g n(3) have vg: "vi_granted started c" by simp
    from vis [OF vg] v [OF vg] show ?thesis by (auto simp: def first c now vi vg None cosim_next_rcp_due_def Let_def)
  next
    case (Some b)
    then have b: "b \<in> set (cosim_rcp_events c)" by (rule scan_least_mem)
    show ?thesis
    proof (cases "vi_granted started c \<and> cosim_next_vi_cycle c \<le> due_cycle b")
      case True
      with vis v show ?thesis by (auto simp: def first c now vi Some cosim_next_rcp_due_def Let_def)
    next
      case False
      with rcp [OF b] late [OF b] show ?thesis
        by (cases "vi_granted started c") (auto simp: def first c now vi Some cosim_next_rcp_due_def not_le Let_def)
    qed
  qed
qed

text \<open>
  C20. Advancing to the next event never stalls: as long as an event is scheduled or an interrupt has been
  granted, the call makes at least one of them happen.
\<close>

theorem cosim_progress:
  assumes "rendered c" and "cosim_rcp_events c \<noteq> [] \<or> vi_granted started c"
  shows "\<exists>n es c'. ultramodern_cosim_advance_to_next_rcp_event enq aenq started c = Some (n, es, c') \<and> 0 < n + length es"
proof -
  have happens: ?thesis if "ultramodern_cosim_advance_due_vi enq aenq started False c = Some (1, es, c')" for es c'
    using that by (cases "ultramodern_cosim_deliver_due_rcp_events enq c'") (simp add: ultramodern_cosim_advance_to_next_rcp_event_def)
  have waits: ?thesis if first: "ultramodern_cosim_advance_due_vi enq aenq started False c = Some (0, [], d)"
    and d: "rendered d" "cosim_rcp_events d = cosim_rcp_events c" "vi_granted started d = vi_granted started c"
      "vi_granted started d \<Longrightarrow> \<not> cosim_vi_needs_rebase d \<and> now_of d < cosim_next_vi_cycle d" for d
  proof (cases "fst (ultramodern_cosim_deliver_due_rcp_events enq d) = []")
    case False
    then show ?thesis using first by (cases "ultramodern_cosim_deliver_due_rcp_events enq d") (simp add: ultramodern_cosim_advance_to_next_rcp_event_def)
  next
    case True
    show ?thesis by (rule advance_idle [OF d(1) True _ _ first]) (use d assms(2) in auto)
  qed
  have rb: "rendered (rebase c)" "cosim_rcp_events (rebase c) = cosim_rcp_events c" "vi_granted started (rebase c) = vi_granted started c"
    "\<not> cosim_vi_needs_rebase (rebase c)"
    using assms(1) by (auto simp: rebase_def rendered_def render_pending_def vi_granted_def)
  show ?thesis
  proof (rule advance_due_vi_cases [of enq aenq started c])
    assume "\<not> vi_granted started c" "ultramodern_cosim_advance_due_vi enq aenq started False c = Some (0, [], c)"
    then show ?thesis using assms(1) by (intro waits) auto
  next
    assume "\<not> vi_granted started c" "ultramodern_cosim_advance_due_vi enq aenq started False c = Some (0, [], rebase c)"
    then show ?thesis using rb by (intro waits [of "rebase c"]) auto
  next
    assume "vi_granted started c" "now_of (rebase c) < cosim_next_vi_cycle (rebase c)"
      "ultramodern_cosim_advance_due_vi enq aenq started False c = Some (0, [], (rebase c)\<lparr>cosim_time_ticks := now_of (rebase c)\<rparr>)"
    then show ?thesis using rb
      by (intro waits [of "(rebase c)\<lparr>cosim_time_ticks := now_of (rebase c)\<rparr>"]) (auto simp: rendered_def render_pending_def vi_granted_def now_of_def)
  qed (rule happens)
qed

theorem cosim_progress_witness:
  "\<exists>n es c'. ultramodern_cosim_advance_to_next_rcp_event tail_enq tail_enq True demo_cosim = Some (n, es, c') \<and> 0 < n + length es"
  by (rule cosim_progress [OF demo_rendered(1)]) (simp add: demo_cosim_def)

text \<open>A submitted graphics task has been rendered by the time its completions are scheduled.\<close>

lemma rendered_submit: "rendered c \<Longrightarrow> rendered (cosim_submit_rsp_task gfx_sp gfx_dp rsp_sp send_dl run p c)"
  by (auto simp: rendered_def render_pending_def cosim_submit_rsp_task_def Let_def cosim_schedule_rcp_event_def push_event_def
      ultramodern_cosim_get_time_ticks_def sync_eq max_def split: if_splits)

end
