(* ===== verification/ModManifest.thy ===== *)
theory ModManifest
  imports Prelude "HOL-Library.AList"
begin

text \<open>
  Manifests of mods (\<^verbatim>\<open>librecomp/mod_manifest.cpp\<close>) and version numbers (\<^verbatim>\<open>Version\<close> in \<^verbatim>\<open>game.hpp\<close> and
  \<^verbatim>\<open>recomp.cpp\<close>). JSON documents are values of a datatype, as the JSON library hands them out; its parser, its floating-point
  numbers (\<open>'d\<close>) and the check of mod ids in the recompiler are parameters. Errors carry the parameter
  the code reports with them.
\<close>

section \<open>Versions\<close>

record Version =
  major :: int
  minor :: int
  patch :: int
  suffix :: string

definition no_version :: Version where
  "no_version = \<lparr>major = -1, minor = -1, patch = -1, suffix = []\<rparr>"

definition version_less :: "Version \<Rightarrow> Version \<Rightarrow> bool" where
  "version_less a b =
     (if major a \<noteq> major b then major a < major b
      else if minor a \<noteq> minor b then minor a < minor b
      else patch a < patch b)"

definition digit_char :: "nat \<Rightarrow> char" where
  "digit_char d = char_of (48 + int d)"

fun dec_nat :: "nat \<Rightarrow> string" where
  "dec_nat n = (if n < 10 then [digit_char n] else dec_nat (n div 10) @ [digit_char (n mod 10)])"

declare dec_nat.simps [simp del]

definition dec_int :: "int \<Rightarrow> string" where
  "dec_int i = (if i < 0 then CHR ''-'' # dec_nat (nat (- i)) else dec_nat (nat i))"

definition to_string :: "Version \<Rightarrow> string" where
  "to_string v = dec_int (major v) @ ''.'' @ dec_int (minor v) @ ''.'' @ dec_int (patch v) @ suffix v"

text \<open>\<^verbatim>\<open>std::from_chars\<close> for a 16-bit unsigned integer: the value and the unread rest, or an error.\<close>

datatype errc = InvalidArgument | ResultOutOfRange

definition is_digit :: "char \<Rightarrow> bool" where
  "is_digit c \<longleftrightarrow> 48 \<le> (of_char c :: int) \<and> (of_char c :: int) \<le> 57"

definition dec_value :: "string \<Rightarrow> int" where
  "dec_value s = foldl (\<lambda>n c. 10 * n + (of_char c - 48)) 0 s"

definition from_chars :: "string \<Rightarrow> errc + int \<times> string" where
  "from_chars s = (let ds = takeWhile is_digit s in
     if ds = [] then Inl InvalidArgument
     else if dec_value ds > 65535 then Inl ResultOutOfRange
     else Inr (dec_value ds, dropWhile is_digit s))"

text \<open>\<^verbatim>\<open>std::string::find\<close> of a character from a position on.\<close>

definition str_find :: "string \<Rightarrow> char \<Rightarrow> nat \<Rightarrow> nat option" where
  "str_find s c pos = (let k = pos + length (takeWhile (\<lambda>x. x \<noteq> c) (drop pos s)) in
     if k < length s then Some k else None)"

definition from_string :: "string \<Rightarrow> Version option" where
  "from_string s = (case str_find s (CHR ''.'') 0 of None \<Rightarrow> None | Some first_dot \<Rightarrow>
     (case str_find s (CHR ''.'') (first_dot + 1) of None \<Rightarrow> None | Some second_dot \<Rightarrow>
       (case from_chars (take first_dot s) of
          Inr (ma, []) \<Rightarrow>
            (case from_chars (take (second_dot - (first_dot + 1)) (drop (first_dot + 1) s)) of
               Inr (mi, []) \<Rightarrow>
                 (case from_chars (drop (second_dot + 1) s) of
                    Inr (pa, rest) \<Rightarrow>
                      if rest = [] \<or> hd rest = CHR ''+'' \<or> hd rest = CHR ''-''
                      then Some \<lparr>major = ma, minor = mi, patch = pa, suffix = rest\<rparr> else None
                  | Inl _ \<Rightarrow> None)
             | _ \<Rightarrow> None)
        | _ \<Rightarrow> None)))"

section \<open>JSON values\<close>

datatype 'd json = JNull | JBool bool | JInt int | JFloat 'd | JString string | JArray "'d json list" | JObject "(string \<times> 'd json) list"

text \<open>\<^verbatim>\<open>find\<close> of a value that is no object finds nothing.\<close>

definition jfind :: "'d json \<Rightarrow> string \<Rightarrow> 'd json option" where
  "jfind j key = (case j of JObject m \<Rightarrow> map_of m key | _ \<Rightarrow> None)"

definition as_string :: "'d json \<Rightarrow> string option" where
  "as_string j = (case j of JString s \<Rightarrow> Some s | _ \<Rightarrow> None)"

definition as_bool :: "'d json \<Rightarrow> bool option" where
  "as_bool j = (case j of JBool b \<Rightarrow> Some b | _ \<Rightarrow> None)"

definition as_int :: "'d json \<Rightarrow> int option" where
  "as_int j = (case j of JInt i \<Rightarrow> Some i | _ \<Rightarrow> None)"

definition as_array :: "'d json \<Rightarrow> 'd json list option" where
  "as_array j = (case j of JArray xs \<Rightarrow> Some xs | _ \<Rightarrow> None)"

definition is_object :: "'d json \<Rightarrow> bool" where
  "is_object j = (case j of JObject _ \<Rightarrow> True | _ \<Rightarrow> False)"

definition as_number :: "(int \<Rightarrow> 'd) \<Rightarrow> 'd json \<Rightarrow> 'd option" where
  "as_number dbl j = (case j of JInt i \<Rightarrow> Some (dbl i) | JFloat x \<Rightarrow> Some x | _ \<Rightarrow> None)"

fun get_all :: "('d json \<Rightarrow> 'b option) \<Rightarrow> 'd json list \<Rightarrow> 'b list option" where
  "get_all get [] = Some []"
| "get_all get (x # xs) = (case get x of None \<Rightarrow> None | Some y \<Rightarrow> (case get_all get xs of None \<Rightarrow> None | Some ys \<Rightarrow> Some (y # ys)))"

definition extract_array :: "('d json \<Rightarrow> 'b option) \<Rightarrow> 'd json \<Rightarrow> 'b list option" where
  "extract_array get j = (case as_array j of None \<Rightarrow> None | Some xs \<Rightarrow> get_all get xs)"

section \<open>Manifests\<close>

datatype ModOpenError =
  DoesNotExist | NotAFileOrFolder | FileError | InvalidZip | NoManifest | FailedToParseManifest | InvalidManifestSchema
| IncorrectManifestFieldType | MissingConfigSchemaField | IncorrectConfigSchemaType | InvalidConfigSchemaDefault
| InvalidVersionString | InvalidMinimumRecompVersionString | InvalidDependencyString | MissingManifestField | DuplicateMod | WrongGame

type_synonym 'a open_result = "ModOpenError \<times> string + 'a"

definition bindE :: "'e + 'a \<Rightarrow> ('a \<Rightarrow> 'e + 'b) \<Rightarrow> 'e + 'b" where
  "bindE r f = (case r of Inl e \<Rightarrow> Inl e | Inr x \<Rightarrow> f x)"

lemma bindE_simps [simp]: "bindE (Inl e) f = Inl e" "bindE (Inr x) f = f x"
  by (simp_all add: bindE_def)

lemma bindE_Inr: "bindE r f = Inr y \<longleftrightarrow> (\<exists>x. r = Inr x \<and> f x = Inr y)"
  by (cases r) simp_all

fun foldE :: "('a \<Rightarrow> 's \<Rightarrow> 'e + 's) \<Rightarrow> 'a list \<Rightarrow> 's \<Rightarrow> 'e + 's" where
  "foldE f [] s = Inr s"
| "foldE f (x # xs) s = bindE (f x s) (foldE f xs)"

lemma foldE_invariant: "foldE f xs s = Inr s' \<Longrightarrow> I s \<Longrightarrow> (\<And>x s s'. x \<in> set xs \<Longrightarrow> I s \<Longrightarrow> f x s = Inr s' \<Longrightarrow> I s') \<Longrightarrow> I s'"
  by (induction xs arbitrary: s) (auto simp: bindE_Inr)

record Dependency =
  dep_mod_id :: string
  dep_version :: Version
  optional :: bool

datatype ConfigOptionType = NoneType | EnumType | NumberType | StringType

record 'd ConfigOptionNumber =
  on_min :: 'd
  on_max :: 'd
  on_step :: 'd
  precision :: int
  percent :: bool
  number_default :: 'd

datatype 'd ConfigOptionVariant = OptionEnum "string list" u32 | OptionNumber "'d ConfigOptionNumber" | OptionString string

record 'd ConfigOption =
  option_id :: string
  option_name :: string
  option_description :: string
  option_type :: ConfigOptionType
  variant :: "'d ConfigOptionVariant"

record 'd ConfigSchema =
  options :: "'d ConfigOption list"
  options_by_id :: "string \<rightharpoonup> nat"

datatype 'd ConfigValue = VNone | VEnum u32 | VNumber 'd | VString string

text \<open>A hash map whose elements are visited: an association list, one entry for a key.\<close>

type_synonym 'd ConfigStorage = "(string \<times> 'd ConfigValue) list"

record ModFileHandle =
  read_file :: "string \<Rightarrow> string option"
  file_exists :: "string \<Rightarrow> bool"

record 'd ModManifest =
  mod_root_path :: string
  manifest_game_ids :: "string list"
  mod_id :: string
  display_name :: string
  description :: string
  short_description :: string
  authors :: "string list"
  dependencies :: "Dependency list"
  dependencies_by_id :: "string \<rightharpoonup> nat"
  config_schema :: "'d ConfigSchema"
  minimum_recomp_version :: Version
  version :: Version
  enabled_by_default :: bool
  native_libraries :: "(string \<times> string list) list"
  file_handle :: ModFileHandle

text \<open>\<^verbatim>\<open>ModManifest manifest{}\<close>, with a path and a file handle.\<close>

definition new_manifest :: "string \<Rightarrow> ModFileHandle \<Rightarrow> 'd ModManifest" where
  "new_manifest path h = \<lparr>mod_root_path = path, manifest_game_ids = [], mod_id = [], display_name = [], description = [],
     short_description = [], authors = [], dependencies = [], dependencies_by_id = (\<lambda>_. None),
     config_schema = \<lparr>options = [], options_by_id = (\<lambda>_. None)\<rparr>, minimum_recomp_version = no_version, version = no_version,
     enabled_by_default = False, native_libraries = [], file_handle = h\<rparr>"

text \<open>\<^verbatim>\<open>emplace\<close> of a map keeps an element that is there.\<close>

definition emplace_new :: "'k \<Rightarrow> 'v \<Rightarrow> ('k \<rightharpoonup> 'v) \<Rightarrow> 'k \<rightharpoonup> 'v" where
  "emplace_new k v m = (case m k of None \<Rightarrow> m(k \<mapsto> v) | Some _ \<Rightarrow> m)"

section \<open>Fields\<close>

definition read_json_field :: "('d json \<Rightarrow> 'b option) \<Rightarrow> 'd json \<Rightarrow> string \<Rightarrow> bool \<Rightarrow> 'b \<Rightarrow> 'b open_result" where
  "read_json_field get data key required fallback = (case jfind data key of
     None \<Rightarrow> if required then Inl (MissingManifestField, key) else Inr fallback
   | Some j \<Rightarrow> (case get j of None \<Rightarrow> Inl (IncorrectManifestFieldType, key) | Some x \<Rightarrow> Inr x))"

definition read_version_field :: "'d json \<Rightarrow> string \<Rightarrow> ModOpenError \<Rightarrow> Version open_result" where
  "read_version_field data key parse_failure_error = bindE (read_json_field as_string data key True []) (\<lambda>raw.
     case from_string raw of None \<Rightarrow> Inl (parse_failure_error, raw) | Some v \<Rightarrow> Inr v)"

definition read_array_field :: "('d json \<Rightarrow> 'b option) \<Rightarrow> 'd json \<Rightarrow> string \<Rightarrow> bool \<Rightarrow> 'b list \<Rightarrow> 'b list open_result" where
  "read_array_field get data key required old = (case jfind data key of
     None \<Rightarrow> if required then Inl (MissingManifestField, key) else Inr old
   | Some j \<Rightarrow> (case as_array j of
       None \<Rightarrow> Inl (IncorrectManifestFieldType, key)
     | Some xs \<Rightarrow> (case get_all get xs of None \<Rightarrow> Inl (IncorrectManifestFieldType, key) | Some ys \<Rightarrow> Inr ys)))"

text \<open>The flag \<^verbatim>\<open>optional\<close> is set by the caller.\<close>

definition parse_dependency :: "(string \<Rightarrow> bool) \<Rightarrow> string \<Rightarrow> Dependency option" where
  "parse_dependency validate_mod_id s = (case str_find s (CHR '':'') 0 of
     None \<Rightarrow> if validate_mod_id s
       then Some \<lparr>dep_mod_id = s, dep_version = \<lparr>major = 0, minor = 0, patch = 0, suffix = []\<rparr>, optional = False\<rparr> else None
   | Some sep \<Rightarrow> if validate_mod_id (take sep s)
       then map_option (\<lambda>v. \<lparr>dep_mod_id = take sep s, dep_version = v, optional = False\<rparr>) (from_string (drop (sep + 1) s)) else None)"

definition read_dependency_list :: "(string \<Rightarrow> bool) \<Rightarrow> 'd json \<Rightarrow> string \<Rightarrow> bool \<Rightarrow> 'd ModManifest \<Rightarrow> 'd ModManifest open_result" where
  "read_dependency_list validate data key opt m = bindE (read_array_field as_string data key False []) (\<lambda>raw.
     foldE (\<lambda>entry m. case parse_dependency validate entry of
         None \<Rightarrow> Inl (InvalidDependencyString, entry)
       | Some d \<Rightarrow> Inr (m\<lparr>dependencies_by_id := emplace_new (dep_mod_id d) (length (dependencies m)) (dependencies_by_id m),
           dependencies := dependencies m @ [d\<lparr>optional := opt\<rparr>]\<rparr>)) raw m)"

section \<open>Configuration schemas\<close>

definition read_required_schema_string :: "'d json \<Rightarrow> string \<Rightarrow> string open_result" where
  "read_required_schema_string j key = (case jfind j key of
     None \<Rightarrow> Inl (MissingConfigSchemaField, key)
   | Some x \<Rightarrow> (case as_string x of None \<Rightarrow> Inl (IncorrectConfigSchemaType, key) | Some s \<Rightarrow> Inr s))"

text \<open>A field that may be missing but has a type when it is there.\<close>

definition schema_field :: "('d json \<Rightarrow> 'b option) \<Rightarrow> 'd json \<Rightarrow> string \<Rightarrow> 'b \<Rightarrow> 'b open_result" where
  "schema_field get j key old = (case jfind j key of
     None \<Rightarrow> Inr old
   | Some x \<Rightarrow> (case get x of None \<Rightarrow> Inl (IncorrectConfigSchemaType, key) | Some y \<Rightarrow> Inr y))"

fun index_of :: "'a \<Rightarrow> 'a list \<Rightarrow> nat option" where
  "index_of x [] = None"
| "index_of x (y # ys) = (if y = x then Some 0 else map_option Suc (index_of x ys))"

definition parse_enum_option :: "'d json \<Rightarrow> (string list \<times> u32) open_result" where
  "parse_enum_option j = bindE (schema_field (extract_array as_string) j ''options'' []) (\<lambda>opts.
     case jfind j ''default'' of
       None \<Rightarrow> Inr (opts, 0)
     | Some x \<Rightarrow> (case as_string x of
         None \<Rightarrow> Inl (IncorrectConfigSchemaType, ''default'')
       | Some s \<Rightarrow> (case index_of s opts of None \<Rightarrow> Inl (InvalidConfigSchemaDefault, ''default'') | Some i \<Rightarrow> Inr (opts, of_nat i))))"

definition parse_number_option :: "(int \<Rightarrow> 'd) \<Rightarrow> 'd json \<Rightarrow> 'd ConfigOptionNumber open_result" where
  "parse_number_option dbl j =
     bindE (schema_field (as_number dbl) j ''min'' (dbl 0)) (\<lambda>mn.
     bindE (schema_field (as_number dbl) j ''max'' (dbl 0)) (\<lambda>mx.
     bindE (schema_field (as_number dbl) j ''step'' (dbl 0)) (\<lambda>st.
     bindE (schema_field (\<lambda>x. map_option (\<lambda>i. sint (word_of_int i :: u32)) (as_int x)) j ''precision'' 0) (\<lambda>prec.
     bindE (schema_field as_bool j ''percent'' False) (\<lambda>perc.
     bindE (schema_field (as_number dbl) j ''default'' (dbl 0)) (\<lambda>df.
       Inr \<lparr>on_min = mn, on_max = mx, on_step = st, precision = prec, percent = perc, number_default = df\<rparr>))))))"

definition parse_string_option :: "'d json \<Rightarrow> string open_result" where
  "parse_string_option j = schema_field as_string j ''default'' []"

definition config_option_type_names :: "string \<rightharpoonup> ConfigOptionType" where
  "config_option_type_names = [''Enum'' \<mapsto> EnumType, ''Number'' \<mapsto> NumberType, ''String'' \<mapsto> StringType]"

text \<open>Without a variant for its type an option keeps the default one, an empty enumeration.\<close>

definition parse_variant :: "(int \<Rightarrow> 'd) \<Rightarrow> ConfigOptionType \<Rightarrow> 'd json \<Rightarrow> 'd ConfigOptionVariant open_result" where
  "parse_variant dbl ty j = (case ty of
     EnumType \<Rightarrow> bindE (parse_enum_option j) (\<lambda>(opts, df). Inr (OptionEnum opts df))
   | NumberType \<Rightarrow> bindE (parse_number_option dbl j) (\<lambda>n. Inr (OptionNumber n))
   | StringType \<Rightarrow> bindE (parse_string_option j) (\<lambda>s. Inr (OptionString s))
   | NoneType \<Rightarrow> Inr (OptionEnum [] 0))"

definition parse_config_schema_option :: "(int \<Rightarrow> 'd) \<Rightarrow> 'd json \<Rightarrow> 'd ModManifest \<Rightarrow> 'd ModManifest open_result" where
  "parse_config_schema_option dbl j m =
     bindE (read_required_schema_string j ''id'') (\<lambda>oid.
     bindE (read_required_schema_string j ''name'') (\<lambda>name.
     bindE (schema_field as_string j ''description'' []) (\<lambda>desc.
     bindE (read_required_schema_string j ''type'') (\<lambda>tname.
     case config_option_type_names tname of
       None \<Rightarrow> Inl (IncorrectConfigSchemaType, ''type'')
     | Some ty \<Rightarrow> bindE (parse_variant dbl ty j) (\<lambda>v. let sc = config_schema m in
         Inr (m\<lparr>config_schema := \<lparr>options = options sc @ [\<lparr>option_id = oid, option_name = name, option_description = desc, option_type = ty, variant = v\<rparr>],
           options_by_id = emplace_new oid (length (options sc)) (options_by_id sc)\<rparr>\<rparr>))))))"

section \<open>The manifest\<close>

definition read_native_libraries :: "'d json \<Rightarrow> 'd ModManifest \<Rightarrow> 'd ModManifest open_result" where
  "read_native_libraries data m = (case jfind data ''native_libraries'' of
     None \<Rightarrow> Inr m
   | Some (JObject libs) \<Rightarrow> foldE (\<lambda>(name, ex) m. case extract_array as_string ex of
         None \<Rightarrow> Inl (IncorrectManifestFieldType, ''native_libraries'')
       | Some exs \<Rightarrow> Inr (m\<lparr>native_libraries := native_libraries m @ [(name, exs)]\<rparr>)) libs m
   | Some _ \<Rightarrow> Inl (IncorrectManifestFieldType, ''native_libraries''))"

definition read_config_schema :: "(int \<Rightarrow> 'd) \<Rightarrow> 'd json \<Rightarrow> 'd ModManifest \<Rightarrow> 'd ModManifest open_result" where
  "read_config_schema dbl data m = (case jfind data ''config_schema'' of
     None \<Rightarrow> Inr m
   | Some sc \<Rightarrow> if \<not> is_object sc then Inl (IncorrectManifestFieldType, ''config_schema'')
       else (case jfind sc ''options'' of
           None \<Rightarrow> Inl (MissingConfigSchemaField, ''options'')
         | Some opts \<Rightarrow> (case as_array opts of
             None \<Rightarrow> Inl (IncorrectManifestFieldType, ''options'')
           | Some xs \<Rightarrow> foldE (parse_config_schema_option dbl) xs m)))"

definition parse_manifest :: "(string \<Rightarrow> 'd json option) \<Rightarrow> (int \<Rightarrow> 'd) \<Rightarrow> (string \<Rightarrow> bool) \<Rightarrow> string \<Rightarrow> 'd ModManifest \<Rightarrow> 'd ModManifest open_result" where
  "parse_manifest json_parse dbl validate data m = (case json_parse data of
     None \<Rightarrow> Inl (FailedToParseManifest, [])
   | Some j \<Rightarrow> if \<not> is_object j then Inl (InvalidManifestSchema, []) else
     bindE (read_json_field as_string j ''game_id'' True []) (\<lambda>game.
     bindE (read_json_field as_string j ''id'' True []) (\<lambda>i.
     bindE (read_json_field as_string j ''display_name'' True []) (\<lambda>name.
     bindE (read_json_field as_string j ''description'' False []) (\<lambda>desc.
     bindE (read_json_field as_string j ''short_description'' False []) (\<lambda>short.
     bindE (read_version_field j ''version'' InvalidVersionString) (\<lambda>v.
     bindE (read_array_field as_string j ''authors'' True (authors m)) (\<lambda>auth.
     bindE (read_version_field j ''minimum_recomp_version'' InvalidMinimumRecompVersionString) (\<lambda>minv.
     bindE (read_json_field as_bool j ''enabled_by_default'' False True) (\<lambda>en.
     bindE (read_dependency_list validate j ''dependencies'' False
       (m\<lparr>manifest_game_ids := manifest_game_ids m @ [game], mod_id := i, display_name := name, description := desc, short_description := short,
          version := v, authors := auth, minimum_recomp_version := minv, enabled_by_default := en\<rparr>)) (\<lambda>m.
     bindE (read_dependency_list validate j ''optional_dependencies'' True m) (\<lambda>m.
     bindE (read_native_libraries j m) (\<lambda>m.
     read_config_schema dbl j m)))))))))))))"

section \<open>Stored configuration\<close>

text \<open>
  One option of the schema read from the \<^verbatim>\<open>storage\<close> object. \<open>None\<close>: the variant of the option does not
  match its type and \<^verbatim>\<open>std::get\<close> throws.
\<close>

definition load_option :: "(int \<Rightarrow> 'd) \<Rightarrow> 'd json \<Rightarrow> 'd ConfigOption \<Rightarrow> 'd ConfigStorage \<Rightarrow> 'd ConfigStorage option" where
  "load_option dbl storage op st = (case jfind storage (option_id op) of
     None \<Rightarrow> Some st
   | Some x \<Rightarrow> (case option_type op of
       EnumType \<Rightarrow> (case as_string x of
           None \<Rightarrow> Some st
         | Some s \<Rightarrow> (case variant op of
             OptionEnum opts _ \<Rightarrow> Some (case index_of s opts of None \<Rightarrow> st | Some i \<Rightarrow> AList.update (option_id op) (VEnum (of_nat i)) st)
           | _ \<Rightarrow> None))
     | NumberType \<Rightarrow> Some (case as_number dbl x of None \<Rightarrow> st | Some y \<Rightarrow> AList.update (option_id op) (VNumber y) st)
     | StringType \<Rightarrow> Some (case as_string x of None \<Rightarrow> st | Some s \<Rightarrow> AList.update (option_id op) (VString s) st)
     | NoneType \<Rightarrow> Some st))"

fun load_options :: "(int \<Rightarrow> 'd) \<Rightarrow> 'd json \<Rightarrow> 'd ConfigOption list \<Rightarrow> 'd ConfigStorage \<Rightarrow> 'd ConfigStorage option" where
  "load_options dbl storage [] st = Some st"
| "load_options dbl storage (op # ops) st = (case load_option dbl storage op st of None \<Rightarrow> None | Some st \<Rightarrow> load_options dbl storage ops st)"

text \<open>The parsed file, or its backup, if there is one; the caller ignores whether it was valid.\<close>

definition load_mod_config_storage :: "(int \<Rightarrow> 'd) \<Rightarrow> 'd json option \<Rightarrow> string \<Rightarrow> 'd ConfigSchema \<Rightarrow> 'd ConfigStorage \<Rightarrow> 'd ConfigStorage option" where
  "load_mod_config_storage dbl file expected_mod_id sc st = (case file of
     None \<Rightarrow> Some st
   | Some j \<Rightarrow> (case jfind j ''mod_id'' of
       Some (JString s) \<Rightarrow> if s \<noteq> expected_mod_id then Some st
         else (case jfind j ''storage'' of
             Some storage \<Rightarrow> if is_object storage then load_options dbl storage (options sc) st else Some st
           | None \<Rightarrow> Some st)
     | _ \<Rightarrow> Some st))"

text \<open>
  What \<^verbatim>\<open>save_mod_config_storage\<close> writes under \<^verbatim>\<open>storage\<close>. \<open>None\<close>: \<^verbatim>\<open>std::get\<close> throws or the index of an
  enumeration is out of its bounds.
\<close>

definition save_value :: "'d ConfigSchema \<Rightarrow> string \<Rightarrow> 'd ConfigValue \<Rightarrow> 'd json option option" where
  "save_value sc k v = (case options_by_id sc k of
     None \<Rightarrow> Some None
   | Some i \<Rightarrow> let op = options sc ! i in (case option_type op of
       EnumType \<Rightarrow> (case (variant op, v) of
           (OptionEnum opts _, VEnum n) \<Rightarrow> if unat n < length opts then Some (Some (JString (opts ! unat n))) else None
         | _ \<Rightarrow> None)
     | NumberType \<Rightarrow> (case v of VNumber x \<Rightarrow> Some (Some (JFloat x)) | _ \<Rightarrow> None)
     | StringType \<Rightarrow> (case v of VString s \<Rightarrow> Some (Some (JString s)) | _ \<Rightarrow> None)
     | NoneType \<Rightarrow> Some None))"

fun save_values :: "'d ConfigSchema \<Rightarrow> (string \<times> 'd ConfigValue) list \<Rightarrow> (string \<times> 'd json) list option" where
  "save_values sc [] = Some []"
| "save_values sc ((k, v) # kvs) = (case save_value sc k v of
     None \<Rightarrow> None
   | Some r \<Rightarrow> (case save_values sc kvs of None \<Rightarrow> None | Some js \<Rightarrow> Some (case r of None \<Rightarrow> js | Some j \<Rightarrow> (k, j) # js)))"

text \<open>The values come in the order of the hash map, which \<open>entries\<close> gives. An object that got no value stays \<^verbatim>\<open>null\<close>.\<close>

definition save_mod_config_storage :: "('d ConfigStorage \<Rightarrow> (string \<times> 'd ConfigValue) list) \<Rightarrow> Version \<Rightarrow> string \<Rightarrow> Version \<Rightarrow> 'd ConfigStorage \<Rightarrow> 'd ConfigSchema \<Rightarrow> 'd json option" where
  "save_mod_config_storage entries project_version i v st sc = (case save_values sc (entries st) of
     None \<Rightarrow> None
   | Some js \<Rightarrow> Some (JObject [(''mod_id'', JString i), (''mod_version'', JString (to_string v)),
       (''recomp_version'', JString (to_string project_version)), (''storage'', if js = [] then JNull else JObject js)]))"

text \<open>The constructor of a file handle for a directory: the last assignment wins.\<close>

definition LooseModFileHandle :: "bool \<Rightarrow> bool \<Rightarrow> ModOpenError option" where
  "LooseModFileHandle is_directory ec = (let
     error = (if \<not> is_directory then Some NotAFileOrFolder else None);
     error = (if ec then Some FileError else error) in None)"

end
