(* ===== verification/ModContext.thy ===== *)
theory ModContext
  imports ModManifest
begin

text \<open>
  The mods of a session (\<^verbatim>\<open>librecomp/mods.cpp\<close>, \<^verbatim>\<open>mods.hpp\<close>, \<^verbatim>\<open>mod_manifest.cpp\<close>): which mods are open, their order, which are enabled by the
  user and which automatically because another mod needs them, their configuration, and the start of loading. The iteration
  order of hash sets and maps is a parameter; callbacks of the host are recorded in \<open>calls\<close>, and so is a
  failed assertion. The loading of code, which patches native functions, is a parameter of \<^verbatim>\<open>load_mods\<close>.
\<close>

section \<open>State\<close>

datatype callback = CodeEnabled | HostCallback nat

record ModContentType =
  content_filename :: string
  allow_runtime_toggle :: bool
  on_enabled :: "callback option"
  on_disabled :: "callback option"
  on_reordered :: "callback option"

record ModContainerType =
  supported_content_types :: "nat list"
  requires_manifest :: bool

record 'd ModHandle =
  manifest :: "'d ModManifest"
  config_storage :: "'d ConfigStorage"
  content_types :: "nat list"
  thumbnail :: string
  game_indices :: "nat list"
  runtime_toggleable :: bool

datatype config_request = SaveMod string | Save | End

datatype host_call = Called nat string | Reordered nat | AssertFailed

record 'd ModContext =
  registered_types :: "ModContentType list"
  container_types :: "string \<rightharpoonup> ModContainerType"
  mod_game_ids :: "(string \<times> nat) list"
  embedded_mods :: "(string \<times> string) list"
  opened_mods :: "'d ModHandle list"
  opened_mods_by_id :: "string \<rightharpoonup> nat"
  opened_mods_by_filename :: "string \<rightharpoonup> nat"
  opened_mods_order :: "nat list"
  mod_order_lookup :: "nat option list"
  mod_ids :: "string set"
  enabled_mods :: "string set"
  auto_enabled_mods :: "string set"
  patched_funcs :: "(nat \<times> string) list"
  loaded_mods_by_id :: "string \<rightharpoonup> nat"
  loaded_code_mods :: "nat list"
  active_game :: "nat option"
  config_queue :: "config_request list"
  calls :: "host_call list"

definition mod_at :: "'d ModContext \<Rightarrow> nat \<Rightarrow> 'd ModHandle" where
  "mod_at c i = opened_mods c ! i"

definition id_at :: "'d ModContext \<Rightarrow> nat \<Rightarrow> string" where
  "id_at c i = mod_id (manifest (mod_at c i))"

definition is_for_game :: "'d ModHandle \<Rightarrow> nat option \<Rightarrow> bool" where
  "is_for_game h game = (case game of None \<Rightarrow> False | Some g \<Rightarrow> g \<in> set (game_indices h))"

section \<open>Registration\<close>

definition empty_context :: "'d ModContext" where
  "empty_context = \<lparr>registered_types = [], container_types = (\<lambda>_. None), mod_game_ids = [], embedded_mods = [], opened_mods = [],
     opened_mods_by_id = (\<lambda>_. None), opened_mods_by_filename = (\<lambda>_. None), opened_mods_order = [], mod_order_lookup = [],
     mod_ids = {}, enabled_mods = {}, auto_enabled_mods = {}, patched_funcs = [], loaded_mods_by_id = (\<lambda>_. None),
     loaded_code_mods = [], active_game = None, config_queue = [], calls = []\<rparr>"

definition register_content_type :: "ModContentType \<Rightarrow> 'd ModContext \<Rightarrow> nat \<times> 'd ModContext" where
  "register_content_type ty c = (length (registered_types c), c\<lparr>registered_types := registered_types c @ [ty]\<rparr>)"

definition register_container_type :: "string \<Rightarrow> nat list \<Rightarrow> bool \<Rightarrow> 'd ModContext \<Rightarrow> bool \<times> 'd ModContext" where
  "register_container_type ext tys req c =
     (if \<exists>ty \<in> set tys. length (registered_types c) \<le> ty then (False, c)
      else if CHR ''.'' \<in> set ext then (False, c)
      else if container_types c (''.'' @ ext) \<noteq> None then (False, c)
      else (True, c\<lparr>container_types := (container_types c)(''.'' @ ext \<mapsto> \<lparr>supported_content_types = tys, requires_manifest = req\<rparr>)\<rparr>))"

definition code_content_type :: ModContentType where
  "code_content_type = \<lparr>content_filename = ''mod_syms.bin'', allow_runtime_toggle = False, on_enabled = Some CodeEnabled,
     on_disabled = None, on_reordered = None\<rparr>"

text \<open>The constructor.\<close>

definition new_context :: "'d ModContext" where
  "new_context = snd (register_container_type ''nrm'' [] True (snd (register_content_type code_content_type empty_context)))"

definition register_game :: "string \<Rightarrow> 'd ModContext \<Rightarrow> 'd ModContext" where
  "register_game g c = (case map_of (mod_game_ids c) g of
     None \<Rightarrow> c\<lparr>mod_game_ids := mod_game_ids c @ [(g, length (mod_game_ids c))]\<rparr> | Some _ \<Rightarrow> c)"

definition register_embedded_mod :: "string \<Rightarrow> string \<Rightarrow> 'd ModContext \<Rightarrow> 'd ModContext" where
  "register_embedded_mod i bytes c = (case map_of (embedded_mods c) i of
     None \<Rightarrow> c\<lparr>embedded_mods := embedded_mods c @ [(i, bytes)]\<rparr> | Some _ \<Rightarrow> c)"

section \<open>Opening\<close>

definition is_content_runtime_toggleable :: "nat \<Rightarrow> 'd ModContext \<Rightarrow> bool" where
  "is_content_runtime_toggleable ty c = allow_runtime_toggle (registered_types c ! ty)"

text \<open>The constructor of a handle.\<close>

definition new_handle :: "'d ModContext \<Rightarrow> 'd ModManifest \<Rightarrow> 'd ConfigStorage \<Rightarrow> nat list \<Rightarrow> nat list \<Rightarrow> string \<Rightarrow> 'd ModHandle" where
  "new_handle c m st games tys th = \<lparr>manifest = m, config_storage = st, content_types = tys, thumbnail = th, game_indices = games,
     runtime_toggleable = (\<forall>ty \<in> set tys. is_content_runtime_toggleable ty c)\<rparr>"

text \<open>\<open>file_name\<close> is the last component of the path of a mod, a parameter like the rest of the file system.\<close>

definition add_opened_mod :: "(string \<Rightarrow> string) \<Rightarrow> 'd ModManifest \<Rightarrow> 'd ConfigStorage \<Rightarrow> nat list \<Rightarrow> nat list \<Rightarrow> string \<Rightarrow> 'd ModContext \<Rightarrow> 'd ModContext" where
  "add_opened_mod file_name m st games tys th c = (let i = length (opened_mods c) in
     c\<lparr>opened_mods_by_id := emplace_new (mod_id m) i (opened_mods_by_id c),
       opened_mods_by_filename := emplace_new (file_name (mod_root_path m)) i (opened_mods_by_filename c),
       opened_mods := opened_mods c @ [new_handle c m st games tys th],
       opened_mods_order := opened_mods_order c @ [i]\<rparr>)"

definition close_mods :: "'d ModContext \<Rightarrow> 'd ModContext" where
  "close_mods c = c\<lparr>opened_mods_by_id := (\<lambda>_. None), opened_mods_by_filename := (\<lambda>_. None), opened_mods := [],
     opened_mods_order := [], mod_order_lookup := [], mod_ids := {}, enabled_mods := {}, auto_enabled_mods := {}\<rparr>"

fun find_games :: "(string \<times> nat) list \<Rightarrow> string list \<Rightarrow> nat list open_result" where
  "find_games ids [] = Inr []"
| "find_games ids (g # gs) = (case map_of ids g of
     None \<Rightarrow> Inl (WrongGame, g)
   | Some i \<Rightarrow> bindE (find_games ids gs) (\<lambda>is. Inr (i # is)))"

text \<open>
  The host and the JSON library: the parser, conversion to floating point, the id check of the recompiler,
  the components of paths, the file system (\<open>None\<close>: an error), archives, and the stored configuration of a mod by its id.
\<close>

datatype file_kind = RegularFile | Directory | OtherFile

record 'd host =
  json_parse :: "string \<Rightarrow> 'd json option"
  dbl :: "int \<Rightarrow> 'd"
  validate_id :: "string \<Rightarrow> bool"
  path_stem :: "string \<Rightarrow> string"
  path_file_name :: "string \<Rightarrow> string"
  path_extension :: "string \<Rightarrow> string"
  fs_exists :: "string \<Rightarrow> bool"
  fs_kind :: "string \<Rightarrow> file_kind option"
  open_zip :: "string \<Rightarrow> ModOpenError + ModFileHandle"
  open_zip_memory :: "string \<Rightarrow> ModOpenError + ModFileHandle"
  open_directory :: "string \<Rightarrow> ModFileHandle"
  stored_config :: "string \<Rightarrow> 'd json option"

definition default_manifest :: "'d host \<Rightarrow> 'd ModContext \<Rightarrow> 'd ModManifest \<Rightarrow> 'd ModManifest" where
  "default_manifest H c m = (let zero = \<lparr>major = 0, minor = 0, patch = 0, suffix = []\<rparr>; i = path_stem H (mod_root_path m) in
     (new_manifest (mod_root_path m) (file_handle m))\<lparr>manifest_game_ids := map fst (mod_game_ids c), mod_id := i, display_name := i,
       authors := [''Unknown''], minimum_recomp_version := zero, version := zero, enabled_by_default := True\<rparr>)"

definition detect_content_types :: "'d ModManifest \<Rightarrow> nat list \<Rightarrow> 'd ModContext \<Rightarrow> nat list" where
  "detect_content_types m supported c =
     filter (\<lambda>ty. file_exists (file_handle m) (content_filename (registered_types c ! ty)))
       (if supported \<noteq> [] then supported else [0..<length (registered_types c)])"

definition read_thumbnail :: "'d ModManifest \<Rightarrow> string" where
  "read_thumbnail m = (case read_file (file_handle m) ''thumb.dds'' of
     Some t \<Rightarrow> t
   | None \<Rightarrow> (case read_file (file_handle m) ''thumb.png'' of Some t \<Rightarrow> t | None \<Rightarrow> []))"

text \<open>The error, if there is one, and the new state. \<open>None\<close>: reading the stored configuration throws.\<close>

definition open_mod_from_manifest :: "'d host \<Rightarrow> 'd ModManifest \<Rightarrow> nat list \<Rightarrow> bool \<Rightarrow> 'd ModContext \<Rightarrow> ((ModOpenError \<times> string) option \<times> 'd ModContext) option" where
  "open_mod_from_manifest H m supported req c =
     (case (case read_file (file_handle m) ''mod.json'' of
              None \<Rightarrow> if req then Inl (NoManifest, []) else Inr (default_manifest H c m)
            | Some data \<Rightarrow> parse_manifest (json_parse H) (dbl H) (validate_id H) data m) of
        Inl e \<Rightarrow> Some (Some e, c)
      | Inr m \<Rightarrow> if mod_id m \<in> mod_ids c then Some (Some (DuplicateMod, mod_id m), c)
          else (let c = c\<lparr>mod_ids := insert (mod_id m) (mod_ids c)\<rparr> in
            case find_games (mod_game_ids c) (manifest_game_ids m) of
              Inl e \<Rightarrow> Some (Some e, c)
            | Inr games \<Rightarrow>
                (case load_mod_config_storage (dbl H) (stored_config H (mod_id m)) (mod_id m) (config_schema m) [] of
                   None \<Rightarrow> None
                 | Some st \<Rightarrow> Some (None, add_opened_mod (path_file_name H) m st games (detect_content_types m supported c) (read_thumbnail m) c))))"

definition open_mod_from_path :: "'d host \<Rightarrow> string \<Rightarrow> nat list \<Rightarrow> bool \<Rightarrow> 'd ModContext \<Rightarrow> ((ModOpenError \<times> string) option \<times> 'd ModContext) option" where
  "open_mod_from_path H path supported req c =
     (if \<not> fs_exists H path then Some (Some (DoesNotExist, []), c)
      else case fs_kind H path of
        None \<Rightarrow> Some (Some (FileError, []), c)
      | Some RegularFile \<Rightarrow> (case open_zip H path of
            Inl e \<Rightarrow> Some (Some (e, []), c)
          | Inr h \<Rightarrow> open_mod_from_manifest H (new_manifest path h) supported req c)
      | Some Directory \<Rightarrow> (case LooseModFileHandle True False of
            Some e \<Rightarrow> Some (Some (e, []), c)
          | None \<Rightarrow> open_mod_from_manifest H (new_manifest path (open_directory H path)) supported req c)
      | Some OtherFile \<Rightarrow> Some (Some (NotAFileOrFolder, []), c))"

definition open_mod_from_memory :: "'d host \<Rightarrow> string \<Rightarrow> nat list \<Rightarrow> bool \<Rightarrow> 'd ModContext \<Rightarrow> ((ModOpenError \<times> string) option \<times> 'd ModContext) option" where
  "open_mod_from_memory H bytes supported req c = (case open_zip_memory H bytes of
     Inl e \<Rightarrow> Some (Some (e, []), c)
   | Inr h \<Rightarrow> open_mod_from_manifest H (new_manifest [] h) supported req c)"

type_synonym open_errors = "(string \<times> ModOpenError \<times> string) list"

definition note_error :: "string \<Rightarrow> open_errors \<Rightarrow> ((ModOpenError \<times> string) option \<times> 'd ModContext) option \<Rightarrow> (open_errors \<times> 'd ModContext) option" where
  "note_error path errors r = map_option (\<lambda>(e, c). (case e of None \<Rightarrow> errors | Some e \<Rightarrow> errors @ [(path, e)], c)) r"

text \<open>A regular file is a mod when its extension is registered; a directory always is.\<close>

definition scan_entry :: "'d host \<Rightarrow> string \<Rightarrow> open_errors \<times> 'd ModContext \<Rightarrow> (open_errors \<times> 'd ModContext) option" where
  "scan_entry H path ec = (case ec of (errors, c) \<Rightarrow> (case fs_kind H path of
     Some RegularFile \<Rightarrow> (case container_types c (path_extension H path) of
         Some ct \<Rightarrow> note_error path errors (open_mod_from_path H path (supported_content_types ct) (requires_manifest ct) c)
       | None \<Rightarrow> Some (errors, c))
   | Some Directory \<Rightarrow> note_error path errors (open_mod_from_path H path [] True c)
   | _ \<Rightarrow> Some (errors, c)))"

definition scan_embedded :: "'d host \<Rightarrow> string \<times> string \<Rightarrow> open_errors \<times> 'd ModContext \<Rightarrow> (open_errors \<times> 'd ModContext) option" where
  "scan_embedded H e ec = (case (e, ec) of ((i, bytes), errors, c) \<Rightarrow>
     if opened_mods_by_id c i \<noteq> None then Some (errors, c) else note_error i errors (open_mod_from_memory H bytes [] True c))"

fun scan_all :: "('a \<Rightarrow> 's \<Rightarrow> 's option) \<Rightarrow> 'a list \<Rightarrow> 's \<Rightarrow> 's option" where
  "scan_all f [] s = Some s"
| "scan_all f (x # xs) s = (case f x s of None \<Rightarrow> None | Some s \<Rightarrow> scan_all f xs s)"

text \<open>\<open>entries\<close> is the folder as the directory iterator lists it.\<close>

definition scan_mod_folder :: "'d host \<Rightarrow> string list \<Rightarrow> 'd ModContext \<Rightarrow> (open_errors \<times> 'd ModContext) option" where
  "scan_mod_folder H entries c = (case scan_all (scan_entry H) entries ([], close_mods c) of
     None \<Rightarrow> None
   | Some s \<Rightarrow> scan_all (scan_embedded H) (embedded_mods c) s)"

section \<open>Order\<close>

definition rebuild_mod_order_lookup :: "'d ModContext \<Rightarrow> 'd ModContext" where
  "rebuild_mod_order_lookup c = c\<lparr>mod_order_lookup :=
     fold (\<lambda>(k, i) l. l[i := Some k]) (enumerate 0 (opened_mods_order c)) (replicate (length (opened_mods c)) None)\<rparr>"

text \<open>The loop of \<^verbatim>\<open>set_mod_index\<close>, over a vector it changes while it runs.\<close>

function move_mod :: "(nat \<Rightarrow> bool) \<Rightarrow> nat \<Rightarrow> nat \<Rightarrow> nat \<Rightarrow> nat \<Rightarrow> bool \<Rightarrow> bool \<Rightarrow> nat list \<Rightarrow> bool \<times> nat list" where
  "move_mod visible m index i visible_index inserted erased order =
     (if i < length order \<and> (\<not> inserted \<or> \<not> erased) then
        if visible (order ! i) then
          if index = visible_index then move_mod visible m index (i + 1) (visible_index + 1) True erased (take i order @ m # drop i order)
          else if m = order ! i then move_mod visible m index (i + 1) (visible_index + 1) inserted True (take i order @ drop (i + 1) order)
          else move_mod visible m index (i + 1) (visible_index + 1) inserted erased order
        else move_mod visible m index (i + 1) visible_index inserted erased order
      else (inserted, order))"
  by pat_completeness auto
termination
  by (relation "measures [\<lambda>(visible, m, index, i, v, ins, er, order). if index < v then 0 else 1,
        \<lambda>(visible, m, index, i, v, ins, er, order). length order - i]") auto

declare move_mod.simps [simp del]

definition game_view :: "string \<Rightarrow> 'd ModContext \<Rightarrow> nat \<Rightarrow> bool" where
  "game_view game c i \<longleftrightarrow> game = [] \<or> is_for_game (mod_at c i) (map_of (mod_game_ids c) game)"

definition fire_reordered :: "nat \<Rightarrow> 'd ModContext \<Rightarrow> 'd ModContext" where
  "fire_reordered i c = fold (\<lambda>ty c. case on_reordered (registered_types c ! ty) of
     None \<Rightarrow> c | Some CodeEnabled \<Rightarrow> c | Some (HostCallback n) \<Rightarrow> c\<lparr>calls := calls c @ [Reordered n]\<rparr>) (content_types (mod_at c i)) c"

definition set_mod_index :: "string \<Rightarrow> string \<Rightarrow> nat \<Rightarrow> 'd ModContext \<Rightarrow> 'd ModContext" where
  "set_mod_index game i index c = (case opened_mods_by_id c i of
     None \<Rightarrow> c
   | Some m \<Rightarrow> (case move_mod (game_view game c) m index 0 0 False False (opened_mods_order c) of (inserted, order) \<Rightarrow>
       let order = (if inserted then order else order @ [m]);
           c = fire_reordered m (rebuild_mod_order_lookup (c\<lparr>opened_mods_order := order\<rparr>))
       in c\<lparr>config_queue := config_queue c @ [Save]\<rparr>))"

definition get_mod_order_index :: "nat \<Rightarrow> 'd ModContext \<Rightarrow> nat option" where
  "get_mod_order_index i c = mod_order_lookup c ! i"

section \<open>Enabling\<close>

definition on_code_mod_enabled :: "nat \<Rightarrow> 'd ModContext \<Rightarrow> 'd ModContext" where
  "on_code_mod_enabled i c = (case loaded_mods_by_id c (id_at c i) of
     None \<Rightarrow> c\<lparr>calls := calls c @ [AssertFailed]\<rparr>
   | Some k \<Rightarrow> c\<lparr>loaded_code_mods := loaded_code_mods c @ [k]\<rparr>)"

definition run_callback :: "nat \<Rightarrow> callback option \<Rightarrow> 'd ModContext \<Rightarrow> 'd ModContext" where
  "run_callback i cb c = (case cb of
     None \<Rightarrow> c
   | Some CodeEnabled \<Rightarrow> on_code_mod_enabled i c
   | Some (HostCallback n) \<Rightarrow> c\<lparr>calls := calls c @ [Called n (id_at c i)]\<rparr>)"

definition fire_enabled :: "nat \<Rightarrow> 'd ModContext \<Rightarrow> 'd ModContext" where
  "fire_enabled i c = fold (\<lambda>ty c. run_callback i (on_enabled (registered_types c ! ty)) c) (content_types (mod_at c i)) c"

definition fire_disabled :: "nat \<Rightarrow> 'd ModContext \<Rightarrow> 'd ModContext" where
  "fire_disabled i c = fold (\<lambda>ty c. run_callback i (on_disabled (registered_types c ! ty)) c) (content_types (mod_at c i)) c"

text \<open>
  The dependencies of one mod: those that are required and new are marked and put on the stack, and for each
  the callbacks of the mod itself run. The callbacks do not touch the tables the walk reads,
  so the walk lists the mods whose callbacks run, in order.
\<close>

definition visit :: "Dependency list \<Rightarrow> nat \<Rightarrow> string set \<times> string list \<times> nat list \<Rightarrow> string set \<times> string list \<times> nat list" where
  "visit deps i s = fold (\<lambda>d (auto, stack, fired).
     if optional d \<or> dep_mod_id d \<in> auto then (auto, stack, fired)
     else (insert (dep_mod_id d) auto, dep_mod_id d # stack, fired @ [i])) deps s"

definition deps_of :: "'d ModContext \<Rightarrow> nat \<Rightarrow> Dependency list" where
  "deps_of c i = dependencies (manifest (mod_at c i))"

text \<open>The table of ids holds indices of open mods, so the test against the length never fails.\<close>

definition find_mod :: "'d ModContext \<Rightarrow> string \<Rightarrow> nat option" where
  "find_mod c i = (case opened_mods_by_id c i of None \<Rightarrow> None | Some k \<Rightarrow> if k < length (opened_mods c) then Some k else None)"

definition dependency_ids :: "'d ModContext \<Rightarrow> string set" where
  "dependency_ids c = (\<Union>h \<in> set (opened_mods c). dep_mod_id ` set (dependencies (manifest h)))"

lemma visit_Nil [simp]: "visit [] i s = s"
  by (simp add: visit_def)

lemma visit_Cons: "visit (d # ds) i (auto, stack, fired) =
    (if optional d \<or> dep_mod_id d \<in> auto then visit ds i (auto, stack, fired)
     else visit ds i (insert (dep_mod_id d) auto, dep_mod_id d # stack, fired @ [i]))"
  by (simp add: visit_def)

lemma visit_measure:
  "finite U \<Longrightarrow> dep_mod_id ` set ds \<subseteq> U \<Longrightarrow> visit ds i (auto, stack, fired) = (auto', stack', fired') \<Longrightarrow>
     card (U - auto') < card (U - auto) \<or> auto' = auto \<and> stack' = stack"
proof (induction ds arbitrary: auto stack fired)
  case (Cons d ds)
  show ?case
  proof (cases "optional d \<or> dep_mod_id d \<in> auto")
    case True
    then show ?thesis using Cons by (simp add: visit_Cons)
  next
    case False
    have "U - insert (dep_mod_id d) auto = (U - auto) - {dep_mod_id d}" by blast
    then have "card (U - insert (dep_mod_id d) auto) < card (U - auto)"
      using Cons.prems(1,2) False by (simp only:) (intro card_Diff1_less, auto)
    moreover have "card (U - auto') < card (U - insert (dep_mod_id d) auto) \<or> auto' = insert (dep_mod_id d) auto"
      using Cons.IH [of "insert (dep_mod_id d) auto" "dep_mod_id d # stack" "fired @ [i]"] Cons.prems False by (auto simp: visit_Cons)
    ultimately show ?thesis by auto
  qed
qed simp

lemma deps_of_ids: "find_mod c i = Some k \<Longrightarrow> dep_mod_id ` set (deps_of c k) \<subseteq> dependency_ids c"
  by (fastforce simp: find_mod_def deps_of_def mod_at_def dependency_ids_def split: option.splits if_splits)

lemma finite_dependency_ids [simp]: "finite (dependency_ids c)"
  by (simp add: dependency_ids_def)

text \<open>Every turn of the loop that grows the stack marks an id some manifest names.\<close>

function dependency_walk :: "'d ModContext \<Rightarrow> string set \<times> string list \<times> nat list \<Rightarrow> string set \<times> nat list" where
  "dependency_walk c (auto, [], fired) = (auto, fired)"
| "dependency_walk c (auto, current # stack, fired) = (case find_mod c current of
     None \<Rightarrow> dependency_walk c (auto, stack, fired)
   | Some i \<Rightarrow> dependency_walk c (visit (deps_of c i) i (auto, stack, fired)))"
  by pat_completeness auto
termination
proof (relation "measures [\<lambda>(c, auto, stack, fired). card (dependency_ids c - auto), \<lambda>(c, auto, stack, fired). length stack]", goal_cases)
  case (3 c auto current stack fired i)
  obtain auto' stack' fired' where v: "visit (deps_of c i) i (auto, stack, fired) = (auto', stack', fired')" by (rule prod_cases3)
  show ?case using visit_measure [OF finite_dependency_ids deps_of_ids [OF 3] v] v by auto
qed auto

text \<open>
  \<^verbatim>\<open>enable_mod\<close>. Enabling walks the dependencies of the new mod from the ids marked so far; disabling
  walks those of every mod still enabled from nothing.
\<close>

definition enable :: "string \<Rightarrow> nat \<Rightarrow> 'd ModContext \<Rightarrow> 'd ModContext" where
  "enable i k c = (if i \<in> enabled_mods c then c else let
     loaded = (active_game c \<noteq> None);
     c = c\<lparr>enabled_mods := insert i (enabled_mods c)\<rparr>;
     c = (if loaded then fire_enabled k c else c) in
     case dependency_walk c (auto_enabled_mods c, [i], []) of (auto, fired) \<Rightarrow>
       (let c = c\<lparr>auto_enabled_mods := auto\<rparr> in if loaded then fold fire_enabled fired c else c))"

definition rebuild_auto_enabled :: "(string set \<Rightarrow> string list) \<Rightarrow> 'd ModContext \<Rightarrow> string set" where
  "rebuild_auto_enabled iter c = fold (\<lambda>root auto. fst (dependency_walk c (auto, [root], []))) (iter (enabled_mods c)) {}"

definition disable :: "(string set \<Rightarrow> string list) \<Rightarrow> string \<Rightarrow> nat \<Rightarrow> 'd ModContext \<Rightarrow> 'd ModContext" where
  "disable iter i k c = (if i \<notin> enabled_mods c then c else let
     loaded = (active_game c \<noteq> None);
     c = c\<lparr>enabled_mods := enabled_mods c - {i}\<rparr>;
     c = (if loaded then fire_disabled k c else c);
     rebuilt = rebuild_auto_enabled iter c;
     c = (if loaded then fold (\<lambda>previous c. if previous \<in> rebuilt then c else case opened_mods_by_id c previous of
              None \<Rightarrow> c | Some p \<Rightarrow> fire_disabled p c) (iter (auto_enabled_mods c)) c
          else c) in
     c\<lparr>auto_enabled_mods := rebuilt\<rparr>)"

definition enable_mod :: "(string set \<Rightarrow> string list) \<Rightarrow> string \<Rightarrow> bool \<Rightarrow> bool \<Rightarrow> 'd ModContext \<Rightarrow> 'd ModContext" where
  "enable_mod iter i enabled trigger_save c = (case opened_mods_by_id c i of
     None \<Rightarrow> c
   | Some k \<Rightarrow> if active_game c \<noteq> None \<and> \<not> runtime_toggleable (mod_at c k) then c
       else if active_game c \<noteq> None \<and> \<not> is_for_game (mod_at c k) (active_game c) then c
       else let c = (if enabled then enable i k c else disable iter i k c) in
         if trigger_save then c\<lparr>config_queue := config_queue c @ [Save]\<rparr> else c)"

section \<open>The saved selection\<close>

text \<open>\<open>None\<close> in the file's lists: the field is missing or malformed, and the lists of the caller stay empty.\<close>

definition parse_mods_config :: "'d json option \<Rightarrow> string set \<times> string list" where
  "parse_mods_config file = (case file of
     None \<Rightarrow> ({}, [])
   | Some j \<Rightarrow> (let get = (\<lambda>key. case jfind j key of None \<Rightarrow> [] | Some x \<Rightarrow> (case extract_array as_string x of None \<Rightarrow> [] | Some xs \<Rightarrow> xs)) in
       (set (get ''enabled_mods''), get ''mod_order'')))"

text \<open>The sort key of every open mod, and which mods the saved order names.\<close>

definition relative_order :: "'d ModContext \<Rightarrow> string list \<Rightarrow> nat list \<times> bool list" where
  "relative_order c order = (let n = length (opened_mods c) in
     fold (\<lambda>(pos, i) (keys, known). case opened_mods_by_id c i of
         None \<Rightarrow> (keys, known)
       | Some k \<Rightarrow> (keys[k := n + pos], known[k := True])) (enumerate 0 order) ([0..<n], replicate n False))"

definition load_mods_config :: "(string set \<Rightarrow> string list) \<Rightarrow> 'd json option \<Rightarrow> 'd ModContext \<Rightarrow> 'd ModContext" where
  "load_mods_config iter file c = (case parse_mods_config file of (enabled, order) \<Rightarrow> (case relative_order c order of (keys, known) \<Rightarrow>
     fold (\<lambda>k c. let i = id_at c k in
         if \<not> known ! k \<and> enabled_by_default (manifest (mod_at c k)) \<or> i \<in> enabled then enable_mod iter i True False c else c)
       [0..<length (opened_mods c)]
       (rebuild_mod_order_lookup (c\<lparr>opened_mods_order := sort_key (\<lambda>k. keys ! k) [0..<length (opened_mods_order c)]\<rparr>))))"

end
