(* ===== verification/ModLoad.thy ===== *)
theory ModLoad
  imports ModContext
begin

text \<open>
  Loading the enabled mods of a game (\<^verbatim>\<open>mods.cpp\<close>): the checks of versions and dependencies, and undoing a load that fails; the
  configuration values of mods and the thread that saves them.
\<close>

section \<open>Dependencies\<close>

datatype DependencyStatus = Found | InvalidDependency | NotFound | WrongVersion

definition is_dependency_met :: "nat \<Rightarrow> string \<Rightarrow> 'd ModContext \<Rightarrow> DependencyStatus" where
  "is_dependency_met i dep c = (let m = manifest (mod_at c i) in case dependencies_by_id m dep of
     None \<Rightarrow> InvalidDependency
   | Some k \<Rightarrow> (case loaded_mods_by_id c dep of
       None \<Rightarrow> NotFound
     | Some l \<Rightarrow> if version_less (version (manifest (mod_at c l))) (dep_version (dependencies m ! k)) then WrongVersion else Found))"

datatype ModLoadError = InvalidGame | MinimumRecompVersionNotMet | MissingDependency | WrongDependencyVersion | FailedToLoadCode

definition version_triple :: "Version \<Rightarrow> string" where
  "version_triple v = dec_int (major v) @ ''.'' @ dec_int (minor v) @ ''.'' @ dec_int (patch v)"

definition wrong_version_text :: "Dependency \<Rightarrow> Version \<Rightarrow> string" where
  "wrong_version_text d got = ''requires mod '' @ [CHR 0x22] @ dep_mod_id d @ [CHR 0x22] @ '' '' @ version_triple (dep_version d) @ '', got '' @ version_triple got"

definition disable_runtime_toggle :: "nat \<Rightarrow> 'd ModContext \<Rightarrow> 'd ModContext" where
  "disable_runtime_toggle i c = c\<lparr>opened_mods := (opened_mods c)[i := (mod_at c i)\<lparr>runtime_toggleable := False\<rparr>]\<rparr>"

definition check_dependency :: "Dependency \<Rightarrow> (ModLoadError \<times> string) list \<times> 'd ModContext \<Rightarrow> (ModLoadError \<times> string) list \<times> 'd ModContext" where
  "check_dependency d ec = (case ec of (errors, c) \<Rightarrow>
     if optional d then (errors, c)
     else (case loaded_mods_by_id c (dep_mod_id d) of
         None \<Rightarrow> (errors @ [(MissingDependency, dep_mod_id d)], c)
       | Some l \<Rightarrow> (let got = version (manifest (mod_at c l)) in
           (if version_less got (dep_version d) then errors @ [(WrongDependencyVersion, wrong_version_text d got)] else errors,
            disable_runtime_toggle l c))))"

definition check_dependencies :: "nat \<Rightarrow> 'd ModContext \<Rightarrow> (ModLoadError \<times> string) list \<times> 'd ModContext" where
  "check_dependencies i c = (let c = (if deps_of c i \<noteq> [] then disable_runtime_toggle i c else c) in
     fold check_dependency (deps_of c i) ([], c))"

section \<open>Loading\<close>

definition load_mod :: "Version \<Rightarrow> nat \<Rightarrow> 'd ModContext \<Rightarrow> (ModLoadError \<times> string) option \<times> 'd ModContext" where
  "load_mod project_version i c = (let m = manifest (mod_at c i) in
     if version_less project_version (minimum_recomp_version m)
     then (Some (MinimumRecompVersionNotMet, to_string (minimum_recomp_version m)), c)
     else (None, fire_enabled i c))"

definition unload_mods :: "'d ModContext \<Rightarrow> 'd ModContext" where
  "unload_mods c = c\<lparr>patched_funcs := [], loaded_mods_by_id := (\<lambda>_. None), active_game := None\<rparr>"

type_synonym load_errors = "(string \<times> ModLoadError \<times> string) list"

definition is_active :: "nat \<Rightarrow> 'd ModContext \<Rightarrow> nat \<Rightarrow> bool" where
  "is_active game c i \<longleftrightarrow> is_for_game (mod_at c i) (Some game) \<and> (id_at c i \<in> enabled_mods c \<or> id_at c i \<in> auto_enabled_mods c)"

text \<open>The first pass: every active mod is entered and loaded.\<close>

definition load_pass :: "Version \<Rightarrow> nat \<Rightarrow> 'd ModContext \<Rightarrow> nat list \<times> load_errors \<times> 'd ModContext" where
  "load_pass project_version game c = fold (\<lambda>i (active, errors, c).
     if is_active game c i then
       (case load_mod project_version i (c\<lparr>loaded_mods_by_id := emplace_new (id_at c i) i (loaded_mods_by_id c)\<rparr>) of
          (None, c) \<Rightarrow> (active @ [i], errors, c)
        | (Some e, c) \<Rightarrow> (active @ [i], errors @ [(id_at c i, e)], c))
     else (active, errors, c)) [0..<length (opened_mods c)] ([], [], c)"

definition check_pass :: "nat list \<Rightarrow> 'd ModContext \<Rightarrow> load_errors \<times> 'd ModContext" where
  "check_pass active c = fold (\<lambda>i (errors, c). case check_dependencies i c of (es, c) \<Rightarrow>
     (errors @ map (\<lambda>e. (id_at c i, e)) es, c)) active ([], c)"

text \<open>
  \<open>load_code\<close> stands for the passes over code mods, which patch native functions.
\<close>

definition load_mods :: "Version \<Rightarrow> ('d ModContext \<Rightarrow> load_errors \<times> 'd ModContext) \<Rightarrow> string \<Rightarrow> 'd ModContext \<Rightarrow> load_errors \<times> 'd ModContext" where
  "load_mods project_version load_code game_id c = (let c = c\<lparr>loaded_code_mods := []\<rparr> in
     case map_of (mod_game_ids c) game_id of
       None \<Rightarrow> ([(game_id, InvalidGame, [])], c)
     | Some game \<Rightarrow>
         if patched_funcs c \<noteq> [] then ([], c)
         else (case load_pass project_version game c of (active, errors, c) \<Rightarrow>
           if errors \<noteq> [] then (errors, unload_mods c)
           else (case check_pass active c of (errors, c) \<Rightarrow>
             if errors \<noteq> [] then (errors, unload_mods c)
             else (case load_code c of (errors, c) \<Rightarrow>
               if errors \<noteq> [] then (errors, unload_mods c) else ([], c\<lparr>active_game := Some game\<rparr>)))))"

section \<open>Configuration values\<close>

definition find_option :: "'d ModHandle \<Rightarrow> string \<Rightarrow> 'd ConfigOption option" where
  "find_option h o_id = (let sc = config_schema (manifest h) in map_option (\<lambda>k. options sc ! k) (options_by_id sc o_id))"

definition store_value :: "string \<Rightarrow> 'd ConfigValue \<Rightarrow> 'd ModHandle \<Rightarrow> 'd ModHandle" where
  "store_value o_id v h = h\<lparr>config_storage := AList.update o_id v (config_storage h)\<rparr>"

text \<open>The handle with the value stored if it fits. \<open>None\<close>: \<^verbatim>\<open>std::get\<close> throws.\<close>

definition set_value :: "string \<Rightarrow> 'd ConfigValue \<Rightarrow> 'd ModHandle \<Rightarrow> 'd ModHandle option" where
  "set_value o_id v h = (case find_option h o_id of
     None \<Rightarrow> Some h
   | Some op \<Rightarrow> (case option_type op of
       EnumType \<Rightarrow> (case v of
           VEnum n \<Rightarrow> (case variant op of OptionEnum opts _ \<Rightarrow> Some (if unat n < length opts then store_value o_id v h else h) | _ \<Rightarrow> None)
         | _ \<Rightarrow> Some h)
     | NumberType \<Rightarrow> Some (case v of VNumber _ \<Rightarrow> store_value o_id v h | _ \<Rightarrow> h)
     | StringType \<Rightarrow> Some (case v of VString _ \<Rightarrow> store_value o_id v h | _ \<Rightarrow> h)
     | NoneType \<Rightarrow> Some h))"

definition set_mod_config_value :: "nat \<Rightarrow> string \<Rightarrow> 'd ConfigValue \<Rightarrow> 'd ModContext \<Rightarrow> 'd ModContext option" where
  "set_mod_config_value i o_id v c =
     (if length (opened_mods c) \<le> i then Some c
      else case set_value o_id v (mod_at c i) of
        None \<Rightarrow> None
      | Some h \<Rightarrow> Some (if (case find_option (mod_at c i) o_id of Some op \<Rightarrow> option_type op = NoneType | None \<Rightarrow> False) then c
          else c\<lparr>opened_mods := (opened_mods c)[i := h], config_queue := config_queue c @ [SaveMod (mod_id (manifest h))]\<rparr>))"

definition get_mod_config_value :: "nat \<Rightarrow> string \<Rightarrow> 'd ModContext \<Rightarrow> 'd ConfigValue option" where
  "get_mod_config_value i o_id c =
     (if length (opened_mods c) \<le> i then Some VNone
      else case map_of (config_storage (mod_at c i)) o_id of
        Some v \<Rightarrow> Some v
      | None \<Rightarrow> (case find_option (mod_at c i) o_id of
          None \<Rightarrow> Some VNone
        | Some op \<Rightarrow> (case (option_type op, variant op) of
            (EnumType, OptionEnum _ df) \<Rightarrow> Some (VEnum df)
          | (NumberType, OptionNumber n) \<Rightarrow> Some (VNumber (number_default n))
          | (StringType, OptionString s) \<Rightarrow> Some (VString s)
          | (NoneType, _) \<Rightarrow> Some VNone
          | _ \<Rightarrow> None)))"

section \<open>The saving thread\<close>

text \<open>
  The thread waits for a request, collects more as long as they come within a second, writes the pending mods and then
  the selection. A snapshot is taken under the lock of the open mods and written without it. The snapshot maps
  live as long as the thread does.
\<close>

datatype config_loc = Waiting | Collecting | Writing | Selecting | Stopped

record 'd config_thread =
  config_loc :: config_loc
  pending_mods :: "string set"
  pending_mod_storage :: "string \<rightharpoonup> 'd ConfigStorage"
  pending_mod_schema :: "string \<rightharpoonup> 'd ConfigSchema"
  pending_mod_version :: "string \<rightharpoonup> Version"
  pending_config_save :: bool
  mod_files :: "string \<rightharpoonup> 'd json"
  selection_file :: "(string set \<times> string list) option"

definition new_config_thread :: "(string \<rightharpoonup> 'd json) \<Rightarrow> 'd config_thread" where
  "new_config_thread files = \<lparr>config_loc = Waiting, pending_mods = {}, pending_mod_storage = (\<lambda>_. None), pending_mod_schema = (\<lambda>_. None),
     pending_mod_version = (\<lambda>_. None), pending_config_save = False, mod_files = files, selection_file = None\<rparr>"

definition handle_request :: "config_request \<Rightarrow> 'd config_thread \<Rightarrow> 'd config_thread" where
  "handle_request r t = (case r of
     End \<Rightarrow> t\<lparr>config_loc := Stopped\<rparr>
   | Save \<Rightarrow> t\<lparr>config_loc := Collecting, pending_config_save := True\<rparr>
   | SaveMod i \<Rightarrow> t\<lparr>config_loc := Collecting, pending_mods := insert i (pending_mods t)\<rparr>)"

definition snapshot_mods :: "'d ModContext \<Rightarrow> 'd config_thread \<Rightarrow> 'd config_thread" where
  "snapshot_mods c t = (let found = (\<lambda>i. if i \<in> pending_mods t then map_option (mod_at c) (opened_mods_by_id c i) else None) in
     t\<lparr>config_loc := Writing,
       pending_mod_storage := (\<lambda>i. case found i of None \<Rightarrow> pending_mod_storage t i | Some h \<Rightarrow> Some (config_storage h)),
       pending_mod_schema := (\<lambda>i. case found i of None \<Rightarrow> pending_mod_schema t i | Some h \<Rightarrow> Some (config_schema (manifest h))),
       pending_mod_version := (\<lambda>i. case found i of None \<Rightarrow> pending_mod_version t i | Some h \<Rightarrow> Some (version (manifest h)))\<rparr>)"

text \<open>\<^verbatim>\<open>operator[]\<close> of a map enters a default value for a missing key.\<close>

definition value_or :: "'v \<Rightarrow> 'v option \<Rightarrow> 'v" where
  "value_or d x = (case x of None \<Rightarrow> d | Some v \<Rightarrow> v)"

definition pending_json :: "('d ConfigStorage \<Rightarrow> (string \<times> 'd ConfigValue) list) \<Rightarrow> Version \<Rightarrow> 'd config_thread \<Rightarrow> string \<Rightarrow> 'd json option" where
  "pending_json entries project_version t i = save_mod_config_storage entries project_version i (value_or no_version (pending_mod_version t i))
     (value_or [] (pending_mod_storage t i)) (value_or \<lparr>options = [], options_by_id = (\<lambda>_. None)\<rparr> (pending_mod_schema t i))"

definition fill_defaults :: "string set \<Rightarrow> 'd config_thread \<Rightarrow> 'd config_thread" where
  "fill_defaults ids t = t\<lparr>
     pending_mod_storage := (\<lambda>i. if i \<in> ids then Some (value_or [] (pending_mod_storage t i)) else pending_mod_storage t i),
     pending_mod_schema := (\<lambda>i. if i \<in> ids then Some (value_or \<lparr>options = [], options_by_id = (\<lambda>_. None)\<rparr> (pending_mod_schema t i)) else pending_mod_schema t i),
     pending_mod_version := (\<lambda>i. if i \<in> ids then Some (value_or no_version (pending_mod_version t i)) else pending_mod_version t i)\<rparr>"

text \<open>\<open>None\<close>: the thread dies of an exception. Files are written whole; \<open>written\<close> tells which of them could be opened.\<close>

definition write_mods :: "('d ConfigStorage \<Rightarrow> (string \<times> 'd ConfigValue) list) \<Rightarrow> Version \<Rightarrow> (string \<Rightarrow> bool) \<Rightarrow> 'd config_thread \<Rightarrow> 'd config_thread option" where
  "write_mods entries project_version written t =
     (if \<exists>i \<in> pending_mods t. pending_json entries project_version t i = None then None
      else Some ((fill_defaults (pending_mods t) t)\<lparr>config_loc := Selecting, pending_mods := {},
        mod_files := (\<lambda>i. if i \<in> pending_mods t \<and> written i then pending_json entries project_version t i else mod_files t i)\<rparr>))"

text \<open>The snapshot of the selection and its file, in one step: only the thread uses the copy.\<close>

definition write_selection :: "bool \<Rightarrow> 'd ModContext \<Rightarrow> 'd config_thread \<Rightarrow> 'd config_thread" where
  "write_selection written c t = (if pending_config_save t
     then t\<lparr>config_loc := Waiting, pending_config_save := False,
       selection_file := if written then Some (enabled_mods c, map (id_at c) (opened_mods_order c)) else selection_file t\<rparr>
     else t\<lparr>config_loc := Waiting\<rparr>)"

record 'd mods_state =
  mods :: "'d ModContext"
  config_thread :: "'d config_thread"

text \<open>
  A turn of the thread. \<open>Inl False\<close>: it waits; \<open>Inl True\<close>: it died.
  \<open>quiet\<close>: no request came for a second.
\<close>

definition config_turn :: "('d ConfigStorage \<Rightarrow> (string \<times> 'd ConfigValue) list) \<Rightarrow> Version \<Rightarrow> bool \<Rightarrow> (string \<Rightarrow> bool) \<Rightarrow> bool \<Rightarrow> 'd mods_state \<Rightarrow> bool + 'd mods_state" where
  "config_turn entries project_version quiet written sel_written s = (let c = mods s; t = config_thread s in
     case config_loc t of
       Stopped \<Rightarrow> Inl False
     | Writing \<Rightarrow> (case write_mods entries project_version written t of None \<Rightarrow> Inl True | Some t \<Rightarrow> Inr (s\<lparr>config_thread := t\<rparr>))
     | Selecting \<Rightarrow> Inr (s\<lparr>config_thread := write_selection sel_written c t\<rparr>)
     | _ \<Rightarrow> (case config_queue c of
         r # rs \<Rightarrow> Inr (s\<lparr>mods := c\<lparr>config_queue := rs\<rparr>, config_thread := handle_request r t\<rparr>)
       | [] \<Rightarrow> if config_loc t = Collecting \<and> quiet then Inr (s\<lparr>config_thread := snapshot_mods c t\<rparr>) else Inl False))"

end
