(* ===== verification/ModProps.thy ===== *)
theory ModProps
  imports ModLoad
begin

text \<open>
  Properties of the open mods: the mods enabled automatically are exactly those the enabled ones need, and what moving a
  mod in the order does.
\<close>

section \<open>The dependency walk\<close>

definition required :: "'d ModContext \<Rightarrow> (string \<times> string) set" where
  "required c = {(a, b). \<exists>k. find_mod c a = Some k \<and> (\<exists>d \<in> set (deps_of c k). \<not> optional d \<and> dep_mod_id d = b)}"

lemma visit_effect:
  assumes "visit ds i (auto, stack, fired) = (auto', stack', fired')"
  shows "auto' = auto \<union> dep_mod_id ` {d \<in> set ds. \<not> optional d}" "set stack' = set stack \<union> (auto' - auto)"
  using assms by (induction ds arbitrary: auto stack fired) (fastforce simp: visit_Cons split: if_splits)+

definition closed_upto :: "'d ModContext \<Rightarrow> string set \<Rightarrow> string list \<Rightarrow> bool" where
  "closed_upto c auto stack \<longleftrightarrow> (\<forall>a \<in> auto. a \<in> set stack \<or> required c `` {a} \<subseteq> auto)"

lemma closed_upto_trancl:
  assumes "closed_upto c auto stack" shows "(required c)\<^sup>+ `` auto \<subseteq> auto \<union> (required c)\<^sup>+ `` set stack"
proof -
  have "b \<in> auto \<union> (required c)\<^sup>+ `` set stack" if "(a, b) \<in> (required c)\<^sup>+" "a \<in> auto" for a b
    using that
  proof induction
    case (base b)
    then show ?case using assms by (fastforce simp: closed_upto_def)
  next
    case (step b d)
    then show ?case using assms unfolding closed_upto_def by (blast intro: trancl_into_trancl)
  qed
  then show ?thesis by blast
qed

lemma trancl_successors: "R\<^sup>+ `` {a} = R `` {a} \<union> R\<^sup>+ `` (R `` {a})"
proof (intro set_eqI iffI)
  fix b assume "b \<in> R\<^sup>+ `` {a}"
  then obtain z where "(a, z) \<in> R" "(z, b) \<in> R\<^sup>*" by (auto dest: tranclD)
  then show "b \<in> R `` {a} \<union> R\<^sup>+ `` (R `` {a})" by (auto dest: rtranclD)
qed (auto intro: trancl_into_trancl2)

lemma walk_reaches:
  "closed_upto c auto stack \<Longrightarrow> fst (dependency_walk c (auto, stack, fired)) = auto \<union> (required c)\<^sup>+ `` set stack"
proof (induction c "(auto, stack, fired)" arbitrary: auto stack fired rule: dependency_walk.induct)
  case (2 c auto current stack fired)
  show ?case
  proof (cases "find_mod c current")
    case None
    then have n: "(current, b) \<notin> required c" for b by (simp add: required_def)
    then have "(current, b) \<notin> (required c)\<^sup>+" for b by (meson tranclD)
    moreover have "closed_upto c auto stack" using 2(3) n by (auto simp: closed_upto_def)
    ultimately show ?thesis using 2(1) [OF None] None by auto
  next
    case (Some k)
    let ?R = "required c"
    obtain auto' stack' fired' where v: "visit (deps_of c k) k (auto, stack, fired) = (auto', stack', fired')" by (rule prod_cases3)
    have succ: "?R `` {current} = dep_mod_id ` {d \<in> set (deps_of c k). \<not> optional d}" using Some by (auto simp: required_def)
    note e = visit_effect [OF v, folded succ]
    have cl: "closed_upto c auto' stack'" using 2(3) e unfolding closed_upto_def by auto
    have IH: "fst (dependency_walk c (auto', stack', fired')) = auto' \<union> ?R\<^sup>+ `` set stack'"
      using 2(2) [OF Some] cl v by simp
    have "?R\<^sup>+ `` {current} = ?R `` {current} \<union> ?R\<^sup>+ `` (?R `` {current})"
      by (rule trancl_successors)
    moreover have "?R\<^sup>+ `` auto' \<subseteq> auto' \<union> ?R\<^sup>+ `` set stack'" by (rule closed_upto_trancl [OF cl])
    ultimately have "auto' \<union> ?R\<^sup>+ `` set stack' = auto \<union> ?R\<^sup>+ `` set (current # stack)"
      using e by auto
    then show ?thesis using IH Some v by simp
  qed
qed simp

declare dependency_walk.simps [simp del]

lemma walk_one: "required c `` auto \<subseteq> auto \<Longrightarrow> fst (dependency_walk c (auto, [i], fired)) = auto \<union> (required c)\<^sup>+ `` {i}"
  by (subst walk_reaches) (auto simp: closed_upto_def)

section \<open>What the callbacks keep\<close>

lemma fold_invariant: "I s \<Longrightarrow> (\<And>x s. I s \<Longrightarrow> I (f x s)) \<Longrightarrow> I (fold f xs s)"
  by (induction xs arbitrary: s) auto

definition tables :: "'d ModContext \<Rightarrow> _" where
  "tables c = (opened_mods c, opened_mods_by_id c, enabled_mods c, auto_enabled_mods c)"

lemma run_callback_tables [simp]: "tables (run_callback i cb c) = tables c"
  by (auto simp: tables_def run_callback_def on_code_mod_enabled_def split: option.split callback.split)

lemma fire_tables [simp]: "tables (fire_enabled i c) = tables c" "tables (fire_disabled i c) = tables c" "tables (fire_reordered i c) = tables c"
proof -
  show "tables (fire_enabled i c) = tables c" unfolding fire_enabled_def by (rule fold_invariant) simp_all
  show "tables (fire_disabled i c) = tables c" unfolding fire_disabled_def by (rule fold_invariant) simp_all
  show "tables (fire_reordered i c) = tables c" unfolding fire_reordered_def
    by (rule fold_invariant) (auto simp: tables_def split: option.split callback.split)
qed

text \<open>What the dependency relation depends on.\<close>

definition graph :: "'d ModContext \<Rightarrow> _" where
  "graph c = (map (\<lambda>h. dependencies (manifest h)) (opened_mods c), opened_mods_by_id c)"

lemma graph_find: "graph c = graph c' \<Longrightarrow> find_mod c i = find_mod c' i"
  by (auto simp: graph_def find_mod_def dest: map_eq_imp_length_eq split: option.splits)

lemma graph_deps: "graph c = graph c' \<Longrightarrow> find_mod c i = Some k \<Longrightarrow> deps_of c k = deps_of c' k"
  by (auto simp: graph_def find_mod_def deps_of_def mod_at_def list_eq_iff_nth_eq split: option.splits if_splits)

lemma graph_required: "graph c = graph c' \<Longrightarrow> required c = required c'"
  unfolding required_def by (metis graph_find graph_deps)

lemma required_fields [simp]:
  "required (c\<lparr>auto_enabled_mods := a\<rparr>) = required c" "required (c\<lparr>enabled_mods := e\<rparr>) = required c"
  "required (c\<lparr>opened_mods_order := l\<rparr>) = required c" "required (c\<lparr>mod_order_lookup := m\<rparr>) = required c"
  "required (c\<lparr>config_queue := q\<rparr>) = required c"
  by (rule graph_required, simp add: graph_def)+

lemma tables_graph: "tables c = tables c' \<Longrightarrow> graph c = graph c'"
  by (simp add: tables_def graph_def)

section \<open>Automatically enabled mods\<close>

definition auto_ok :: "'d ModContext \<Rightarrow> bool" where
  "auto_ok c \<longleftrightarrow> finite (enabled_mods c) \<and> auto_enabled_mods c = (required c)\<^sup>+ `` enabled_mods c"

definition iter_law :: "(string set \<Rightarrow> string list) \<Rightarrow> bool" where
  "iter_law iter \<longleftrightarrow> (\<forall>S. finite S \<longrightarrow> set (iter S) = S)"

lemma auto_ok_cong: "graph c = graph c' \<Longrightarrow> enabled_mods c = enabled_mods c' \<Longrightarrow> auto_enabled_mods c = auto_enabled_mods c' \<Longrightarrow> auto_ok c = auto_ok c'"
  unfolding auto_ok_def by (drule graph_required) simp

lemma auto_ok_tables: "tables c = tables c' \<Longrightarrow> auto_ok c = auto_ok c'"
  by (rule auto_ok_cong) (auto simp: tables_def graph_def)

lemma auto_ok_fire [simp]: "auto_ok (fire_enabled i c) = auto_ok c" "auto_ok (fire_disabled i c) = auto_ok c" "auto_ok (fire_reordered i c) = auto_ok c"
  by (rule auto_ok_tables, simp)+

lemma trancl_closed: "R `` (R\<^sup>+ `` A) \<subseteq> R\<^sup>+ `` A"
  by (auto intro: trancl_into_trancl)

lemma auto_ok_enable: assumes "auto_ok c" shows "auto_ok (enable i k c)"
proof (cases "i \<in> enabled_mods c")
  case False
  define c1 where "c1 = (if active_game c \<noteq> None then fire_enabled k (c\<lparr>enabled_mods := insert i (enabled_mods c)\<rparr>) else c\<lparr>enabled_mods := insert i (enabled_mods c)\<rparr>)"
  obtain auto fired where w: "dependency_walk c1 (auto_enabled_mods c1, [i], []) = (auto, fired)" by fastforce
  have t: "tables c1 = tables (c\<lparr>enabled_mods := insert i (enabled_mods c)\<rparr>)" by (simp add: c1_def)
  then have f: "enabled_mods c1 = insert i (enabled_mods c)" "auto_enabled_mods c1 = auto_enabled_mods c" by (simp_all add: tables_def)
  have g: "required c1 = required c" using tables_graph [OF t] by (intro graph_required) (simp add: graph_def)
  have closed: "required c1 `` auto_enabled_mods c1 \<subseteq> auto_enabled_mods c1" using assms trancl_closed by (simp add: f g auto_ok_def)
  have "auto = auto_enabled_mods c \<union> (required c)\<^sup>+ `` {i}"
    using walk_one [OF closed, of i "[]"] unfolding w by (simp add: f g)
  then have ok: "auto_ok (c1\<lparr>auto_enabled_mods := auto\<rparr>)"
    using assms by (auto simp: auto_ok_def f g)
  have "auto_ok (fold fire_enabled fired (c1\<lparr>auto_enabled_mods := auto\<rparr>))"
    using ok by (rule fold_invariant) simp
  moreover have "enable i k c = (case dependency_walk c1 (auto_enabled_mods c1, [i], []) of (auto, fired) \<Rightarrow>
      (let c2 = c1\<lparr>auto_enabled_mods := auto\<rparr> in if active_game c \<noteq> None then fold fire_enabled fired c2 else c2))"
    unfolding enable_def c1_def Let_def if_not_P [OF False] ..
  ultimately show ?thesis using ok by (simp add: Let_def w)
qed (simp add: enable_def assms)

lemma rebuild_reaches:
  assumes "iter_law iter" "finite (enabled_mods c)" shows "rebuild_auto_enabled iter c = (required c)\<^sup>+ `` enabled_mods c"
proof -
  have "required c `` auto \<subseteq> auto \<Longrightarrow> fold (\<lambda>root auto. fst (dependency_walk c (auto, [root], []))) is auto = auto \<union> (required c)\<^sup>+ `` set is" for "is" auto
  proof (induction "is" arbitrary: auto)
    case (Cons i "is")
    have "required c `` (auto \<union> (required c)\<^sup>+ `` {i}) \<subseteq> auto \<union> (required c)\<^sup>+ `` {i}"
      using Cons.prems trancl_closed [of "required c" "{i}"] by blast
    from Cons.IH [OF this] show ?case using Cons.prems by (simp add: walk_one) blast
  qed simp
  from this [of "{}" "iter (enabled_mods c)"] show ?thesis using assms by (simp add: rebuild_auto_enabled_def iter_law_def)
qed

lemma auto_ok_disable:
  assumes "iter_law iter" "auto_ok c" shows "auto_ok (disable iter i k c)"
proof (cases "i \<in> enabled_mods c")
  case True
  define c1 where "c1 = (if active_game c \<noteq> None then fire_disabled k (c\<lparr>enabled_mods := enabled_mods c - {i}\<rparr>) else c\<lparr>enabled_mods := enabled_mods c - {i}\<rparr>)"
  have t: "tables c1 = tables (c\<lparr>enabled_mods := enabled_mods c - {i}\<rparr>)" by (simp add: c1_def)
  then have f: "finite (enabled_mods c1)" using assms(2) by (simp add: tables_def auto_ok_def)
  define rebuilt where "rebuilt = rebuild_auto_enabled iter c1"
  define c2 where "c2 = (if active_game c \<noteq> None then fold (\<lambda>previous c. if previous \<in> rebuilt then c else case opened_mods_by_id c previous of
      None \<Rightarrow> c | Some p \<Rightarrow> fire_disabled p c) (iter (auto_enabled_mods c1)) c1 else c1)"
  have r: "rebuilt = (required c1)\<^sup>+ `` enabled_mods c1" unfolding rebuilt_def by (rule rebuild_reaches [OF assms(1) f])
  have "tables c2 = tables c1" unfolding c2_def by (auto intro!: fold_invariant [of "\<lambda>s. tables s = tables c1"] split: option.split)
  then have "auto_ok (c2\<lparr>auto_enabled_mods := rebuilt\<rparr>)"
    using graph_required [OF tables_graph, of c2 c1] f r by (simp add: auto_ok_def tables_def)
  moreover have "disable iter i k c = c2\<lparr>auto_enabled_mods := rebuilt\<rparr>"
    using True by (simp add: disable_def Let_def c1_def rebuilt_def c2_def)
  ultimately show ?thesis by simp
qed (simp add: disable_def assms)

lemma auto_ok_queue [simp]: "auto_ok (c\<lparr>config_queue := q\<rparr>) = auto_ok c" "auto_ok (c\<lparr>mod_order_lookup := l\<rparr>) = auto_ok c"
  "auto_ok (c\<lparr>opened_mods_order := m\<rparr>) = auto_ok c"
  by (simp_all add: auto_ok_def)

lemma auto_ok_enable_mod: "iter_law iter \<Longrightarrow> auto_ok c \<Longrightarrow> auto_ok (enable_mod iter i en save c)"
  by (auto simp: enable_mod_def Let_def auto_ok_enable auto_ok_disable split: option.split)

lemma auto_ok_set_mod_index: "auto_ok (set_mod_index g i index c) = auto_ok c"
  by (auto simp: set_mod_index_def rebuild_mod_order_lookup_def Let_def split: option.split prod.split)

lemma auto_ok_load_config: "iter_law iter \<Longrightarrow> auto_ok c \<Longrightarrow> auto_ok (load_mods_config iter file c)"
  by (auto simp: load_mods_config_def rebuild_mod_order_lookup_def Let_def auto_ok_enable_mod intro!: fold_invariant [of auto_ok] split: prod.split)

text \<open>No id is enabled while mods are opened.\<close>

lemma open_enabled:
  "open_mod_from_manifest H m tys req c = Some (e, c') \<Longrightarrow> enabled_mods c' = enabled_mods c \<and> auto_enabled_mods c' = auto_enabled_mods c"
  by (auto simp: open_mod_from_manifest_def add_opened_mod_def Let_def split: option.splits sum.splits if_splits)

lemma scan_all_invariant: "scan_all f xs s = Some s' \<Longrightarrow> I s \<Longrightarrow> (\<And>x s s'. I s \<Longrightarrow> f x s = Some s' \<Longrightarrow> I s') \<Longrightarrow> I s'"
  by (induction xs arbitrary: s) (auto split: option.splits)

lemma note_error_invariant: "note_error p es r = Some s \<Longrightarrow> (\<And>e d. r = Some (e, d) \<Longrightarrow> I d) \<Longrightarrow> I (snd s)"
  by (cases r) (auto simp: note_error_def)

text \<open>What opening one mod keeps, a scan keeps from the state without mods on.\<close>

lemma scan_invariant:
  assumes "scan_mod_folder H entries c = Some (errors, c')" and "I (close_mods c)"
    and one: "\<And>path h tys req d e d'. open_mod_from_manifest H (new_manifest path h) tys req d = Some (e, d') \<Longrightarrow> I d \<Longrightarrow> I d'"
  shows "I c'"
proof -
  obtain s where s: "scan_all (scan_entry H) entries ([], close_mods c) = Some s" "scan_all (scan_embedded H) (embedded_mods c) s = Some (errors, c')"
    using assms(1) by (auto simp: scan_mod_folder_def split: option.splits)
  have path: "I d'" if "open_mod_from_path H p tys req d = Some (e, d')" "I d" for p tys req d e d'
    using that by (auto simp: open_mod_from_path_def LooseModFileHandle_def intro: one split: if_splits option.splits file_kind.splits sum.splits)
  have memory: "I d'" if "open_mod_from_memory H p tys req d = Some (e, d')" "I d" for p tys req d e d'
    using that by (auto simp: open_mod_from_memory_def intro: one split: sum.splits)
  have entry: "I (snd s'')" if "I (snd s')" "scan_entry H p s' = Some s''" for p s' s''
  proof -
    obtain es d where d: "s' = (es, d)" by fastforce
    have n: "I (snd s'')" if "note_error p es (open_mod_from_path H p tys req d) = Some s''" for tys req
      using note_error_invariant [OF that] path \<open>I (snd s')\<close> d by (metis snd_conv)
    show ?thesis using that n by (auto simp: scan_entry_def d split: option.splits file_kind.splits)
  qed
  have embedded: "I (snd s'')" if "I (snd s')" "scan_embedded H p s' = Some s''" for p s' s''
  proof -
    obtain es d where d: "s' = (es, d)" by fastforce
    obtain i bytes where p: "p = (i, bytes)" by fastforce
    show ?thesis
    proof (cases "opened_mods_by_id d i = None")
      case True
      then have "note_error i es (open_mod_from_memory H bytes [] True d) = Some s''" using that(2) by (simp add: scan_embedded_def d p)
      from note_error_invariant [OF this] memory that(1) d show ?thesis by (metis snd_conv)
    next
      case False
      then show ?thesis using that by (auto simp: scan_embedded_def d p)
    qed
  qed
  have "I (snd s)" by (rule scan_all_invariant [OF s(1), of "\<lambda>s. I (snd s)"]) (use assms(2) entry in simp_all)
  from scan_all_invariant [OF s(2), of "\<lambda>s. I (snd s)", OF this embedded] show ?thesis by simp
qed

lemma scan_enabled:
  assumes "scan_mod_folder H entries c = Some (errors, c')" shows "enabled_mods c' = {} \<and> auto_enabled_mods c' = {}"
  by (rule scan_invariant [OF assms, of "\<lambda>d. enabled_mods d = {} \<and> auto_enabled_mods d = {}"]) (auto simp: close_mods_def dest: open_enabled)

lemma auto_ok_scan: "scan_mod_folder H entries c = Some (errors, c') \<Longrightarrow> auto_ok c'"
  by (drule scan_enabled) (simp add: auto_ok_def)

text \<open>Loading changes no manifest, does not move a mod to another game and enables nothing.\<close>

definition selection :: "'d ModContext \<Rightarrow> _" where
  "selection c = (map (\<lambda>h. (manifest h, game_indices h)) (opened_mods c), opened_mods_by_id c, enabled_mods c, auto_enabled_mods c)"

lemma auto_ok_selection: "selection c = selection c' \<Longrightarrow> auto_ok c = auto_ok c'"
proof (rule auto_ok_cong)
  assume eq: "selection c = selection c'"
  have g: "graph d = (map (\<lambda>x. dependencies (fst x)) (fst (selection d)), fst (snd (selection d)))" for d :: "'a ModContext"
    by (simp add: graph_def selection_def)
  show "graph c = graph c'" by (simp only: g eq)
qed (auto simp: selection_def)

lemma selection_tables: "tables c = tables c' \<Longrightarrow> selection c = selection c'"
  by (simp add: tables_def selection_def)

lemma selection_fields [simp]:
  "selection (c\<lparr>loaded_mods_by_id := l\<rparr>) = selection c" "selection (c\<lparr>loaded_code_mods := m\<rparr>) = selection c"
  "selection (c\<lparr>active_game := g\<rparr>) = selection c" "selection (unload_mods c) = selection c" "selection (c\<lparr>config_queue := q\<rparr>) = selection c"
  by (simp_all add: selection_def unload_mods_def)

lemma selection_fire [simp]: "selection (fire_enabled i c) = selection c"
  by (rule selection_tables) simp

lemma map_update_same: "(i < length xs \<Longrightarrow> f y = f (xs ! i)) \<Longrightarrow> map f (xs[i := y]) = map f xs"
  by (cases "i < length xs") (auto simp: list_eq_iff_nth_eq nth_list_update)

lemma selection_toggle [simp]: "selection (disable_runtime_toggle i c) = selection c"
  by (simp add: selection_def disable_runtime_toggle_def mod_at_def map_update_same)

lemma selection_check [simp]: "selection (snd (check_dependencies i c)) = selection c"
proof -
  have "selection (snd (fold check_dependency ds s)) = selection (snd s)" for ds and s :: "(ModLoadError \<times> string) list \<times> 'a ModContext"
    by (rule fold_invariant [of "\<lambda>s'. selection (snd s') = selection (snd s)"]) (auto simp: check_dependency_def Let_def split: prod.splits option.split)
  then show ?thesis by (simp add: check_dependencies_def Let_def)
qed

lemma selection_load_mod [simp]: "selection (snd (load_mod pv i c)) = selection c"
  by (simp add: load_mod_def Let_def)

lemma selection_load_pass: "load_pass pv game c = (active, errors, c') \<Longrightarrow> selection c' = selection c"
proof -
  assume l: "load_pass pv game c = (active, errors, c')"
  have "selection (snd (snd (load_pass pv game c))) = selection c" unfolding load_pass_def
  proof (rule fold_invariant [of "\<lambda>s. selection (snd (snd s)) = selection c"], goal_cases)
    case (2 i s)
    obtain a es d where s: "s = (a, es, d)" by (rule prod_cases3)
    obtain e d' where r: "load_mod pv i (d\<lparr>loaded_mods_by_id := emplace_new (id_at d i) i (loaded_mods_by_id d)\<rparr>) = (e, d')" by fastforce
    have "selection d' = selection d"
      using selection_load_mod [of pv i "d\<lparr>loaded_mods_by_id := emplace_new (id_at d i) i (loaded_mods_by_id d)\<rparr>"] unfolding r by simp
    then show ?case using 2 by (cases e) (simp_all add: s r)
  qed simp
  with l show ?thesis by simp
qed

lemma selection_check_pass: "check_pass active c = (errors, c') \<Longrightarrow> selection c' = selection c"
proof -
  assume l: "check_pass active c = (errors, c')"
  have "selection (snd (check_pass active c)) = selection c" unfolding check_pass_def
  proof (rule fold_invariant [of "\<lambda>s. selection (snd s) = selection c"], goal_cases)
    case (2 i s)
    obtain es d where s: "s = (es, d)" by fastforce
    obtain e' d' where r: "check_dependencies i d = (e', d')" by fastforce
    then show ?case using 2 selection_check [of i d] by (simp add: s)
  qed simp
  with l show ?thesis by simp
qed

definition code_law :: "('d ModContext \<Rightarrow> load_errors \<times> 'd ModContext) \<Rightarrow> bool" where
  "code_law load_code \<longleftrightarrow> (\<forall>c. selection (snd (load_code c)) = selection c \<and>
     map config_storage (opened_mods (snd (load_code c))) = map config_storage (opened_mods c))"

lemma selection_load_mods:
  assumes "code_law load_code" shows "selection (snd (load_mods pv load_code g c)) = selection c"
proof -
  let ?c = "c\<lparr>loaded_code_mods := []\<rparr>"
  have code: "selection d' = selection d" if "load_code d = (e, d')" for d e d' using assms that by (metis code_law_def snd_conv)
  show ?thesis
    by (auto simp: load_mods_def Let_def dest!: selection_load_pass selection_check_pass code split: option.split prod.split)
qed

lemma selection_set_value: "set_mod_config_value i k v c = Some c' \<Longrightarrow> selection c' = selection c"
proof -
  have "manifest h = manifest (mod_at c i) \<and> game_indices h = game_indices (mod_at c i)" if "set_value k v (mod_at c i) = Some h" for h
    using that by (auto simp: set_value_def store_value_def split: option.splits ConfigOptionType.splits ConfigValue.splits ConfigOptionVariant.splits)
  then show "set_mod_config_value i k v c = Some c' \<Longrightarrow> selection c' = selection c"
    by (auto simp: set_mod_config_value_def selection_def mod_at_def intro!: map_update_same split: option.splits if_splits)
qed

text \<open>Everything that happens to the mods of a session.\<close>

inductive mods_step :: "(string set \<Rightarrow> string list) \<Rightarrow> 'd ModContext \<Rightarrow> 'd ModContext \<Rightarrow> bool" for iter where
  content_type: "mods_step iter c (snd (register_content_type ty c))"
| container_type: "mods_step iter c (snd (register_container_type ext tys req c))"
| game: "mods_step iter c (register_game g c)"
| embedded: "mods_step iter c (register_embedded_mod i bytes c)"
| scan: "scan_mod_folder H entries c = Some (errors, c') \<Longrightarrow> mods_step iter c c'"
| close: "mods_step iter c (close_mods c)"
| load_config: "mods_step iter c (load_mods_config iter file c)"
| enable_one: "mods_step iter c (enable_mod iter i en save c)"
| move: "mods_step iter c (set_mod_index g i index c)"
| set_value: "set_mod_config_value i k v c = Some c' \<Longrightarrow> mods_step iter c c'"
| load: "code_law load_code \<Longrightarrow> mods_step iter c (snd (load_mods pv load_code g c))"
| saver: "mods_step iter c (c\<lparr>config_queue := q\<rparr>)"

lemma selection_register [simp]:
  "selection (snd (register_content_type ty c)) = selection c" "selection (snd (register_container_type ext tys req c)) = selection c"
  "selection (register_game g c) = selection c" "selection (register_embedded_mod i bytes c) = selection c"
  by (auto simp: selection_def register_content_type_def register_container_type_def register_game_def register_embedded_mod_def split: option.split)

lemma auto_ok_step: "iter_law iter \<Longrightarrow> mods_step iter c c' \<Longrightarrow> auto_ok c \<Longrightarrow> auto_ok c'"
proof (erule mods_step.cases, simp_all only:, goal_cases)
  case (5 H entries errors) then show ?case by (blast intro: auto_ok_scan)
next
  case 6 then show ?case by (simp add: auto_ok_def close_mods_def)
next
  case 7 then show ?case by (simp add: auto_ok_load_config)
next
  case 8 then show ?case by (simp add: auto_ok_enable_mod)
next
  case 9 then show ?case by (simp add: auto_ok_set_mod_index)
next
  case 10 then show ?case using auto_ok_selection selection_set_value by blast
next
  case 11 then show ?case using auto_ok_selection selection_load_mods by blast
next
  case 12 then show ?case by simp
qed (metis auto_ok_selection selection_register)+

end
