(* ===== verification/ModOrder.thy ===== *)
theory ModOrder
  imports ModProps "HOL-Library.Multiset"
begin

text \<open>
  Moving a mod in the order: where it ends up in the view of all games, that the order stays a permutation when the
  mod is in the view, and two cases in which the view of one game goes wrong.
\<close>

lemma move_mod_done: "\<not> (i < length order \<and> (\<not> ins \<or> \<not> er)) \<Longrightarrow> move_mod vis m index i v ins er order = (ins, order)"
  by (subst move_mod.simps) (rule if_not_P)

lemma move_mod_hidden: "i < length order \<Longrightarrow> \<not> ins \<or> \<not> er \<Longrightarrow> \<not> vis (order ! i) \<Longrightarrow>
    move_mod vis m index i v ins er order = move_mod vis m index (i + 1) v ins er order"
  by (subst move_mod.simps) simp

lemma move_mod_insert: "i < length order \<Longrightarrow> \<not> ins \<or> \<not> er \<Longrightarrow> vis (order ! i) \<Longrightarrow>
    move_mod vis m v i v ins er order = move_mod vis m v (i + 1) (v + 1) True er (take i order @ m # drop i order)"
  by (subst move_mod.simps) simp

lemma move_mod_erase: "i < length order \<Longrightarrow> \<not> ins \<or> \<not> er \<Longrightarrow> vis m \<Longrightarrow> order ! i = m \<Longrightarrow> index \<noteq> v \<Longrightarrow>
    move_mod vis m index i v ins er order = move_mod vis m index (i + 1) (v + 1) ins True (take i order @ drop (i + 1) order)"
  by (subst move_mod.simps) simp

lemma move_mod_pass: "i < length order \<Longrightarrow> \<not> ins \<or> \<not> er \<Longrightarrow> vis (order ! i) \<Longrightarrow> order ! i \<noteq> m \<Longrightarrow> index \<noteq> v \<Longrightarrow>
    move_mod vis m index i v ins er order = move_mod vis m index (i + 1) (v + 1) ins er order"
  by (subst move_mod.simps) simp

section \<open>The order stays a permutation\<close>

text \<open>After insertion the old entry is removed, if it lies ahead.\<close>

lemma move_mod_after_insert:
  assumes "vis m" "index < v" "m \<in> set (drop i order)"
  shows "move_mod vis m index i v True False order = (True, take i order @ remove1 m (drop i order))"
  using assms
proof (induction "length order - i" arbitrary: i v)
  case (Suc k)
  then have i: "i < length order" by simp
  note d = Cons_nth_drop_Suc [OF i, symmetric] take_Suc_conv_app_nth [OF i]
  consider "order ! i = m" | "order ! i \<noteq> m" "vis (order ! i)" | "order ! i \<noteq> m" "\<not> vis (order ! i)" by blast
  then show ?case
  proof cases
    case 1
    then show ?thesis using i Suc.prems by (simp add: move_mod_erase move_mod_done d)
  next
    case 2
    then show ?thesis using i Suc.prems Suc.hyps(1) [of "Suc i" "v + 1"] Suc.hyps(2) by (simp add: move_mod_pass d)
  next
    case 3
    then show ?thesis using i Suc.prems Suc.hyps(1) [of "Suc i" v] Suc.hyps(2) by (simp add: move_mod_hidden d)
  qed
qed simp

lemma move_mod_after_erase:
  "m \<notin> set order \<Longrightarrow> move_mod vis m index i v False True order = (ins, l) \<Longrightarrow> mset (if ins then l else l @ [m]) = add_mset m (mset order)"
proof (induction "length order - i" arbitrary: i v)
  case 0
  then show ?case by (auto simp: move_mod_done)
next
  case (Suc k)
  then have i: "i < length order" by simp
  have nm: "order ! i \<noteq> m" using Suc.prems(1) i by (metis nth_mem)
  consider "\<not> vis (order ! i)" | "vis (order ! i)" "index = v" | "vis (order ! i)" "index \<noteq> v" by blast
  then show ?case
  proof cases
    case 1
    then show ?thesis using i Suc.prems Suc.hyps(1) [of "i + 1" v] Suc.hyps(2) by (simp add: move_mod_hidden)
  next
    case 2
    have "mset (take i order) + mset (drop i order) = mset order" by (metis append_take_drop_id mset_append)
    then show ?thesis using 2 i Suc.prems by (auto simp: move_mod_insert move_mod_done)
  next
    case 3
    then show ?thesis using i nm Suc.prems Suc.hyps(1) [of "i + 1" "v + 1"] Suc.hyps(2) by (simp add: move_mod_pass)
  qed
qed

lemma mset_take_drop: "mset (take i xs) + mset (drop i xs) = mset xs"
  by (metis append_take_drop_id mset_append)

lemma move_mod_permutes:
  "distinct order \<Longrightarrow> vis m \<Longrightarrow> m \<in> set (drop i order) \<Longrightarrow> move_mod vis m index i v False False order = (ins, l) \<Longrightarrow>
     mset (if ins then l else l @ [m]) = mset order"
proof (induction "length order - i" arbitrary: i v)
  case (Suc k)
  then have i: "i < length order" by simp
  note d = Cons_nth_drop_Suc [OF i, symmetric]
  consider "\<not> vis (order ! i)" | "vis (order ! i)" "index = v" | "order ! i = m" "index \<noteq> v" | "vis (order ! i)" "order ! i \<noteq> m" "index \<noteq> v" by blast
  then show ?case
  proof cases
    case 1
    then show ?thesis using i Suc.prems Suc.hyps(1) [of "i + 1" v] Suc.hyps(2) by (auto simp: move_mod_hidden d)
  next
    case 2
    have "move_mod vis m v (i + 1) (v + 1) True False (take i order @ m # drop i order) = (True, (take i order @ [m]) @ remove1 m (drop i order))"
      using i Suc.prems by (subst move_mod_after_insert) simp_all
    then show ?thesis using 2 i Suc.prems mset_take_drop [of i order] by (auto simp: move_mod_insert)
  next
    case 3
    have m: "m \<notin> set (take i order @ drop (i + 1) order)"
      using Suc.prems(1) 3 i by (metis distinct.simps(2) id_take_nth_drop mset_eq_setD not_distinct_conv_prefix distinct_append disjoint_iff Un_iff set_append list.set_intros(1) Suc_eq_plus1)
    have o: "add_mset m (mset (take i order @ drop (i + 1) order)) = mset order"
      using 3 mset_take_drop [of i order] d by simp
    show ?thesis using 3 i Suc.prems move_mod_after_erase [OF m, of vis index "i + 1" "v + 1"] o by (simp add: move_mod_erase)
  next
    case 4
    then show ?thesis using i Suc.prems Suc.hyps(1) [of "i + 1" "v + 1"] Suc.hyps(2) by (auto simp: move_mod_pass d)
  qed
qed simp

text \<open>A mod that is not in the view is inserted and never removed.\<close>

lemma move_mod_hidden_after_insert:
  "\<not> vis m \<Longrightarrow> index < v \<Longrightarrow> move_mod vis m index i v True False order = (True, order)"
proof (induction "length order - i" arbitrary: i v)
  case (Suc k)
  then have i: "i < length order" by simp
  show ?case
  proof (cases "vis (order ! i)")
    case True
    then have "order ! i \<noteq> m" using Suc.prems(1) by auto
    then show ?thesis using True i Suc.prems Suc.hyps(1) [of "i + 1" "v + 1"] Suc.hyps(2) by (simp add: move_mod_pass)
  next
    case False
    then show ?thesis using i Suc.prems Suc.hyps(1) [of "i + 1" v] Suc.hyps(2) by (simp add: move_mod_hidden)
  qed
qed (simp add: move_mod_done)

lemma move_mod_hidden_mod:
  "\<not> vis m \<Longrightarrow> move_mod vis m index i v False False order = (ins, l) \<Longrightarrow> mset (if ins then l else l @ [m]) = add_mset m (mset order)"
proof (induction "length order - i" arbitrary: i v)
  case 0
  then show ?case by (auto simp: move_mod_done)
next
  case (Suc k)
  then have i: "i < length order" by simp
  consider "\<not> vis (order ! i)" | "vis (order ! i)" "index = v" | "vis (order ! i)" "index \<noteq> v" by blast
  then show ?case
  proof cases
    case 1
    then show ?thesis using i Suc.prems Suc.hyps(1) [of "i + 1" v] Suc.hyps(2) by (simp add: move_mod_hidden)
  next
    case 2
    then show ?thesis using i Suc.prems mset_take_drop [of i order] by (auto simp: move_mod_insert move_mod_hidden_after_insert)
  next
    case 3
    have "order ! i \<noteq> m" using 3 Suc.prems(1) by auto
    then show ?thesis using 3 i Suc.prems Suc.hyps(1) [of "i + 1" "v + 1"] Suc.hyps(2) by (simp add: move_mod_pass)
  qed
qed

section \<open>Where the mod ends up\<close>

text \<open>In the view of all games: the mods are as before without the moved one, which stands at its index.\<close>

lemma move_mod_all_after_erase:
  "m \<notin> set order \<Longrightarrow> i \<le> index \<Longrightarrow>
     move_mod (\<lambda>_. True) m index i i False True order = (if index < length order then (True, take index order @ m # drop index order) else (False, order))"
proof (induction "length order - i" arbitrary: i)
  case (Suc k)
  then have i: "i < length order" by simp
  have "order ! i \<noteq> m" using Suc.prems(1) i by (metis nth_mem)
  then show ?case using i Suc.prems Suc.hyps(1) [of "i + 1"] Suc.hyps(2)
    by (cases "index = i") (simp_all add: move_mod_insert move_mod_pass move_mod_done)
qed (simp add: move_mod_done)

lemma move_mod_all:
  "distinct order \<Longrightarrow> m \<in> set (drop i order) \<Longrightarrow> i \<le> index \<Longrightarrow> move_mod (\<lambda>_. True) m index i i False False order = (ins, l) \<Longrightarrow>
     (if ins then l else l @ [m]) = take index (remove1 m order) @ m # drop index (remove1 m order)"
proof (induction "length order - i" arbitrary: i)
  case (Suc k)
  then have i: "i < length order" by simp
  have nt: "m \<notin> set (take i order)" using Suc.prems(1,2) by (metis append_take_drop_id distinct_append disjoint_iff)
  then have r: "remove1 m order = take i order @ remove1 m (drop i order)" by (metis append_take_drop_id remove1_append)
  note d = Cons_nth_drop_Suc [OF i, symmetric]
  consider "index = i" | "order ! i = m" "index \<noteq> i" | "order ! i \<noteq> m" "index \<noteq> i" by blast
  then show ?case
  proof cases
    case 1
    have "move_mod (\<lambda>_. True) m i (i + 1) (i + 1) True False (take i order @ m # drop i order) = (True, (take i order @ [m]) @ remove1 m (drop i order))"
      using i Suc.prems(2) by (subst move_mod_after_insert) simp_all
    then show ?thesis using 1 i Suc.prems(4) by (auto simp: move_mod_insert r)
  next
    case 2
    let ?o = "take i order @ drop (i + 1) order"
    have o: "remove1 m order = ?o" using 2 r d by simp
    have "m \<notin> set (remove1 m order)" using Suc.prems(1) by simp
    then have m: "m \<notin> set ?o" unfolding o .
    show ?thesis using 2 i Suc.prems(3,4) move_mod_all_after_erase [OF m, of "i + 1" index]
      by (auto simp: move_mod_erase o split: if_splits)
  next
    case 3
    then show ?thesis using i Suc.prems Suc.hyps(1) [of "i + 1"] Suc.hyps(2) by (auto simp: move_mod_pass d)
  qed
qed simp

lemma set_mod_index_order:
  assumes "opened_mods_by_id c i = Some m"
  shows "opened_mods_order (set_mod_index g i index c) =
    (case move_mod (game_view g c) m index 0 0 False False (opened_mods_order c) of (ins, l) \<Rightarrow> if ins then l else l @ [m])"
proof -
  have f: "opened_mods_order (fire_reordered m d) = opened_mods_order d" for d :: "'a ModContext"
    unfolding fire_reordered_def by (rule fold_invariant) (auto split: option.split callback.split)
  show ?thesis using assms by (simp add: set_mod_index_def Let_def rebuild_mod_order_lookup_def f split: prod.split)
qed

text \<open>
  Moving a mod in the list of all games puts it at the requested index, or at the end, and leaves
  the other mods in their order.
\<close>

theorem mod_moves_to_index:
  assumes "opened_mods_by_id c i = Some m" and "distinct (opened_mods_order c)" and "m \<in> set (opened_mods_order c)"
  shows "let rest = remove1 m (opened_mods_order c) in
    opened_mods_order (set_mod_index [] i index c) = take index rest @ m # drop index rest"
proof -
  obtain ins l where l: "move_mod (game_view [] c) m index 0 0 False False (opened_mods_order c) = (ins, l)" by fastforce
  have v: "game_view [] c = (\<lambda>_. True)" by (simp add: game_view_def fun_eq_iff)
  show ?thesis using move_mod_all [OF assms(2) _ _ l [unfolded v]] assms(3) by (simp add: set_mod_index_order [OF assms(1)] l Let_def)
qed

section \<open>Views of one game\<close>

text \<open>A prefix without the mod, ahead of the index, is passed over.\<close>

lemma move_mod_prefix:
  assumes "m \<notin> set pre" "v + length (filter vis pre) \<le> index" "\<not> ins \<or> \<not> er"
  shows "move_mod vis m index (length ps) v ins er (ps @ pre @ post) =
    move_mod vis m index (length (ps @ pre)) (v + length (filter vis pre)) ins er (ps @ pre @ post)"
  using assms
proof (induction pre arbitrary: ps v)
  case (Cons x pre)
  have IH: "move_mod vis m index (Suc (length ps)) u ins er (ps @ x # pre @ post) =
      move_mod vis m index (Suc (length ps + length pre)) (u + length (filter vis pre)) ins er (ps @ x # pre @ post)"
    if "u + length (filter vis pre) \<le> index" for u
    using Cons.IH [of u "ps @ [x]"] that Cons.prems by simp
  show ?case
  proof (cases "vis x")
    case True
    then show ?thesis using Cons.prems IH [of "v + 1"] by (subst move_mod_pass) auto
  next
    case False
    then show ?thesis using Cons.prems IH [of v] by (subst move_mod_hidden) auto
  qed
qed simp

text \<open>
  In the view of one game, moving a mod down by one has no effect when the entry that follows it in the
  list of all games belongs to another game: removing the old entry shifts that entry under the loop, which skips it
  without counting, and the mod is inserted in front of its successor again.
\<close>

theorem move_down_past_hidden:
  assumes "opened_mods_by_id c i = Some m" and "opened_mods_order c = pre @ m # other # next # post"
    and "m \<notin> set pre" and "game_view g c m" and "\<not> game_view g c other" and "game_view g c next" and "next \<noteq> m"
  shows "opened_mods_order (set_mod_index g i (length (filter (game_view g c) pre) + 1) c) = pre @ other # m # next # post \<and>
    filter (game_view g c) (pre @ other # m # next # post) = filter (game_view g c) (opened_mods_order c)"
proof -
  let ?v = "game_view g c" and ?k = "length (filter (game_view g c) pre)"
  let ?l = "pre @ other # next # post"
  have "move_mod ?v m (?k + 1) 0 0 False False (pre @ m # other # next # post) =
      move_mod ?v m (?k + 1) (length pre) ?k False False (pre @ m # other # next # post)"
    using move_mod_prefix [of m pre 0 ?v "?k + 1" False False "[]" "m # other # next # post"] assms(3) by simp
  also have "\<dots> = move_mod ?v m (?k + 1) (length pre + 1) (?k + 1) False True ?l"
    using assms(4) by (subst move_mod_erase) simp_all
  also have "\<dots> = (True, pre @ other # m # next # post)"
    using assms(6) by (subst move_mod_insert) (simp_all add: move_mod_done nth_append)
  finally show ?thesis using assms(4-6) by (simp add: set_mod_index_order [OF assms(1)] assms(2))
qed

text \<open>
  Asking for a mod in the view of a game it does not belong to enters it a second time: the loop inserts, but
  never comes to remove the old entry. For a mod of the view the order stays a permutation.
\<close>

theorem foreign_mod_duplicated:
  assumes "opened_mods_by_id c i = Some m" and "distinct (opened_mods_order c)" and "m \<in> set (opened_mods_order c)"
  shows "mset (opened_mods_order (set_mod_index g i index c)) =
    (if game_view g c m then mset (opened_mods_order c) else add_mset m (mset (opened_mods_order c)))"
proof -
  obtain ins l where l: "move_mod (game_view g c) m index 0 0 False False (opened_mods_order c) = (ins, l)" by fastforce
  show ?thesis using move_mod_permutes [OF assms(2) _ _ l] move_mod_hidden_mod [OF _ l] assms(3) by (simp add: set_mod_index_order [OF assms(1)] l)
qed

end
