(* ===== verification/ModLoadProps.thy ===== *)
theory ModLoadProps
  imports ModOrder
begin

text \<open>
  Loading: a load that succeeds has found every required dependency of every active mod, in a version that is
  new enough, and a load that fails leaves nothing loaded.
\<close>

lemma selection_nth:
  assumes "selection c = selection c'"
  shows "length (opened_mods c) = length (opened_mods c')" "i < length (opened_mods c) \<Longrightarrow> manifest (mod_at c i) = manifest (mod_at c' i)"
    "i < length (opened_mods c) \<Longrightarrow> game_indices (mod_at c i) = game_indices (mod_at c' i)"
proof -
  have m: "map (\<lambda>h. (manifest h, game_indices h)) (opened_mods c) = map (\<lambda>h. (manifest h, game_indices h)) (opened_mods c')"
    using assms by (simp add: selection_def)
  then show l: "length (opened_mods c) = length (opened_mods c')" by (rule map_eq_imp_length_eq)
  assume i: "i < length (opened_mods c)"
  with m l have e: "(manifest (opened_mods c ! i), game_indices (opened_mods c ! i)) = (manifest (opened_mods c' ! i), game_indices (opened_mods c' ! i))"
    by (metis (no_types, lifting) nth_map)
  show "manifest (mod_at c i) = manifest (mod_at c' i)" "game_indices (mod_at c i) = game_indices (mod_at c' i)" using e by (simp_all add: mod_at_def)
qed

lemma selection_id: "selection c = selection c' \<Longrightarrow> i < length (opened_mods c) \<Longrightarrow> id_at c i = id_at c' i"
  by (simp add: id_at_def selection_nth(2))

lemma selection_deps: "selection c = selection c' \<Longrightarrow> i < length (opened_mods c) \<Longrightarrow> deps_of c i = deps_of c' i"
  by (simp add: deps_of_def selection_nth(2))

lemma selection_active: "selection c = selection c' \<Longrightarrow> i < length (opened_mods c) \<Longrightarrow> is_active game c i = is_active game c' i"
proof -
  assume s: "selection c = selection c'" and i: "i < length (opened_mods c)"
  have "enabled_mods c = enabled_mods c'" "auto_enabled_mods c = auto_enabled_mods c'" using s by (simp_all add: selection_def)
  then show ?thesis using selection_id [OF s i] selection_nth(3) [OF s i] by (simp add: is_active_def is_for_game_def)
qed

section \<open>The first pass\<close>

lemma loaded_fire [simp]: "loaded_mods_by_id (fire_enabled i c) = loaded_mods_by_id c"
  unfolding fire_enabled_def
  by (rule fold_invariant) (auto simp: run_callback_def on_code_mod_enabled_def split: option.split callback.split)

text \<open>What the pass has established after the mods of a prefix.\<close>

definition pass_inv :: "Version \<Rightarrow> nat \<Rightarrow> 'd ModContext \<Rightarrow> nat set \<Rightarrow> nat list \<times> load_errors \<times> 'd ModContext \<Rightarrow> bool" where
  "pass_inv pv game c0 seen s \<longleftrightarrow> (case s of (active, errors, c) \<Rightarrow>
     selection c = selection c0 \<and> set active = {i \<in> seen. is_active game c0 i} \<and>
     (\<forall>x l. loaded_mods_by_id c x = Some l \<longrightarrow> l \<in> set active \<and> id_at c0 l = x) \<and>
     (errors = [] \<longrightarrow> (\<forall>i \<in> set active. \<not> version_less pv (minimum_recomp_version (manifest (mod_at c0 i))))))"

lemma load_pass_inv:
  assumes "loaded_mods_by_id c = (\<lambda>_. None)" and "load_pass pv game c = (active, errors, c')"
  shows "pass_inv pv game c {0..<length (opened_mods c)} (active, errors, c')"
proof -
  let ?f = "\<lambda>i (active, errors, c). if is_active game c i then
       (case load_mod pv i (c\<lparr>loaded_mods_by_id := emplace_new (id_at c i) i (loaded_mods_by_id c)\<rparr>) of
          (None, c) \<Rightarrow> (active @ [i], errors, c)
        | (Some e, c) \<Rightarrow> (active @ [i], errors @ [(id_at c i, e)], c)) else (active, errors, c)"
  have "pass_inv pv game c {0..<n} (fold ?f [0..<n] ([], [], c))" if "n \<le> length (opened_mods c)" for n
    using that
  proof (induction n)
    case 0
    then show ?case using assms(1) by (simp add: pass_inv_def)
  next
    case (Suc n)
    obtain a es d where r: "fold ?f [0..<n] ([], [], c) = (a, es, d)" by (rule prod_cases3)
    then have I: "pass_inv pv game c {0..<n} (a, es, d)" using Suc by simp
    have seen: "{0..<Suc n} = insert n {0..<n}" by auto
    have sel: "selection d = selection c" and n: "n < length (opened_mods d)"
      using I Suc.prems selection_nth(1) [of d c] by (simp_all add: pass_inv_def)
    have act: "is_active game d n = is_active game c n" and i: "id_at d n = id_at c n"
      and mn: "manifest (mod_at d n) = manifest (mod_at c n)"
      using selection_active [OF sel n] selection_id [OF sel n] selection_nth(2) [OF sel n] by simp_all
    let ?d = "d\<lparr>loaded_mods_by_id := emplace_new (id_at d n) n (loaded_mods_by_id d)\<rparr>"
    have m: "mod_at ?d n = mod_at d n" by (simp add: mod_at_def)
    show ?case
    proof (cases "is_active game c n")
      case False
      then show ?thesis using I by (auto simp: r act seen pass_inv_def)
    next
      case True
      have l: "loaded_mods_by_id ?d x = Some k \<longrightarrow> k \<in> set (a @ [n]) \<and> id_at c k = x" for x k
        using I i by (auto simp: pass_inv_def emplace_new_def split: option.splits if_splits)
      show ?thesis
      proof (cases "version_less pv (minimum_recomp_version (manifest (mod_at c n)))")
        case old: True
        then show ?thesis using I True l by (auto simp: r act seen pass_inv_def load_mod_def Let_def m mn)
      next
        case False
        then show ?thesis using I True l by (auto simp: r act seen pass_inv_def load_mod_def Let_def m mn)
      qed
    qed
  qed
  from this [of "length (opened_mods c)"] assms(2) show ?thesis by (simp add: load_pass_def)
qed

section \<open>The second pass\<close>

definition dependency_ok :: "'d ModContext \<Rightarrow> Dependency \<Rightarrow> bool" where
  "dependency_ok c d \<longleftrightarrow> (\<not> optional d \<longrightarrow> (\<exists>l. loaded_mods_by_id c (dep_mod_id d) = Some l \<and>
     \<not> version_less (version (manifest (mod_at c l))) (dep_version d)))"

text \<open>The checks only clear flags.\<close>

definition facts_of :: "'d ModContext \<Rightarrow> _" where
  "facts_of c = (selection c, loaded_mods_by_id c, \<lambda>i. manifest (mod_at c i))"

lemma facts_toggle [simp]: "facts_of (disable_runtime_toggle i c) = facts_of c"
proof -
  have "manifest (mod_at (disable_runtime_toggle i c) k) = manifest (mod_at c k)" for k
    by (cases "k = i"; cases "i < length (opened_mods c)") (auto simp: mod_at_def disable_runtime_toggle_def nth_list_update list_update_beyond not_less)
  then show ?thesis by (simp add: facts_of_def) (simp add: disable_runtime_toggle_def)
qed

lemma facts_dependency: "facts_of c = facts_of c' \<Longrightarrow> dependency_ok c d = dependency_ok c' d"
  by (auto simp: facts_of_def dependency_ok_def fun_eq_iff)

lemma check_dependency_step:
  assumes "check_dependency d (es, c) = (es', c')"
  shows "facts_of c' = facts_of c" "es' = [] \<longleftrightarrow> es = [] \<and> dependency_ok c d"
  using assms by (auto simp: check_dependency_def dependency_ok_def Let_def split: if_splits option.splits)

lemma check_dependency_fold:
  "fold check_dependency ds (es, c) = (es', c') \<Longrightarrow> facts_of c' = facts_of c \<and> (es' = [] \<longleftrightarrow> es = [] \<and> (\<forall>d \<in> set ds. dependency_ok c d))"
proof (induction ds arbitrary: es c)
  case (Cons d ds)
  obtain es1 c1 where s: "check_dependency d (es, c) = (es1, c1)" by fastforce
  note st = check_dependency_step [OF s]
  show ?case using Cons.IH [of es1 c1] Cons.prems s st facts_dependency [OF st(1)] by auto
qed simp

lemma check_dependencies_ok:
  assumes "check_dependencies i c = (es, c')" "i < length (opened_mods c)"
  shows "facts_of c' = facts_of c \<and> (es = [] \<longleftrightarrow> (\<forall>d \<in> set (deps_of c i). dependency_ok c d))"
proof -
  define c1 where "c1 = (if deps_of c i \<noteq> [] then disable_runtime_toggle i c else c)"
  have f: "facts_of c1 = facts_of c" by (simp add: c1_def)
  then have "deps_of c1 i = deps_of c i" using assms(2) by (simp add: facts_of_def deps_of_def fun_eq_iff)
  then show ?thesis using check_dependency_fold [of "deps_of c i" "[]" c1 es c'] assms(1) f facts_dependency [OF f]
    by (simp add: check_dependencies_def Let_def flip: c1_def)
qed

lemma check_pass_ok:
  assumes "check_pass active c = (errors, c')" "set active \<subseteq> {0..<length (opened_mods c)}" "errors = []"
  shows "\<forall>i \<in> set active. \<forall>d \<in> set (deps_of c i). dependency_ok c d"
proof -
  let ?f = "\<lambda>i (errors, c). case check_dependencies i c of (es, c) \<Rightarrow> (errors @ map (\<lambda>e. (id_at c i, e)) es, c)"
  have "facts_of d = facts_of c \<Longrightarrow> fold ?f is (es, d) = ([], e) \<Longrightarrow> set is \<subseteq> {0..<length (opened_mods c)} \<Longrightarrow>
      es = [] \<and> (\<forall>i \<in> set is. \<forall>d \<in> set (deps_of c i). dependency_ok c d)" for "is" es d e
  proof (induction "is" arbitrary: es d)
    case (Cons i "is")
    obtain ds d' where r: "check_dependencies i d = (ds, d')" by fastforce
    have sel: "selection d = selection c" using Cons.prems(1) by (simp add: facts_of_def)
    have i: "i < length (opened_mods d)" using Cons.prems(3) selection_nth(1) [OF sel] by simp
    note ok = check_dependencies_ok [OF r i]
    have dep: "deps_of d i = deps_of c i" by (rule selection_deps [OF sel i])
    show ?case using Cons.IH [of d' "es @ map (\<lambda>e. (id_at d' i, e)) ds"] Cons.prems r ok facts_dependency [OF Cons.prems(1)] by (simp add: dep)
  qed simp
  from this [OF refl, of active "[]" c'] show ?thesis using assms by (simp add: check_pass_def)
qed

lemma failed_load_undone:
  "fst (load_mods pv load_code g c) \<noteq> [] \<Longrightarrow> map_of (mod_game_ids c) g = Some game \<Longrightarrow> patched_funcs c = [] \<Longrightarrow>
     active_game (snd (load_mods pv load_code g c)) = None \<and> loaded_mods_by_id (snd (load_mods pv load_code g c)) = (\<lambda>_. None)"
  by (auto simp: load_mods_def Let_def unload_mods_def split: prod.splits if_splits)

end
