(* ===== verification/ModConfigProps.thy ===== *)
theory ModConfigProps
  imports ModLoadProps
begin

text \<open>
  Configuration values: they have the type their option declares, so neither the game nor the saving thread
  meets a value of another type, unless a schema declares an id twice; and what the saving thread writes.
\<close>

section \<open>Schemas\<close>

definition typed_option :: "'d ConfigOption \<Rightarrow> bool" where
  "typed_option op = (case (option_type op, variant op) of
     (EnumType, OptionEnum _ _) \<Rightarrow> True | (NumberType, OptionNumber _) \<Rightarrow> True | (StringType, OptionString _) \<Rightarrow> True | _ \<Rightarrow> False)"

definition schema_wf :: "'d ConfigSchema \<Rightarrow> bool" where
  "schema_wf sc \<longleftrightarrow> (\<forall>op \<in> set (options sc). typed_option op \<and> options_by_id sc (option_id op) \<noteq> None) \<and>
     (\<forall>k i. options_by_id sc k = Some i \<longrightarrow> i < length (options sc) \<and> option_id (options sc ! i) = k)"

definition distinct_ids :: "'d ConfigSchema \<Rightarrow> bool" where
  "distinct_ids sc \<longleftrightarrow> distinct (map option_id (options sc))"

lemma schema_wf_empty [simp]: "schema_wf \<lparr>options = [], options_by_id = (\<lambda>_. None)\<rparr>"
  by (simp add: schema_wf_def)

lemma schema_wf_typed: "schema_wf sc \<Longrightarrow> options_by_id sc k = Some i \<Longrightarrow> typed_option (options sc ! i) \<and> option_id (options sc ! i) = k"
  by (auto simp: schema_wf_def)

lemma schema_lookup: "schema_wf sc \<Longrightarrow> distinct_ids sc \<Longrightarrow> op \<in> set (options sc) \<Longrightarrow> options_by_id sc (option_id op) = Some i \<Longrightarrow> options sc ! i = op"
proof -
  assume a: "schema_wf sc" "distinct_ids sc" "op \<in> set (options sc)" "options_by_id sc (option_id op) = Some i"
  then obtain j where j: "j < length (options sc)" "options sc ! j = op" by (auto simp: in_set_conv_nth)
  have i: "i < length (options sc)" "option_id (options sc ! i) = option_id op" using a(1,4) by (auto simp: schema_wf_def)
  have "i = j" using a(2) i j unfolding distinct_ids_def distinct_conv_nth by (metis length_map nth_map)
  then show "options sc ! i = op" using j by simp
qed

lemma parse_option_wf:
  assumes "parse_config_schema_option d j m = Inr m'" "schema_wf (config_schema m)" shows "schema_wf (config_schema m')"
proof -
  obtain oid name desc ty v where p: "parse_variant d ty j = Inr v" "ty \<noteq> NoneType" and m': "m' = m\<lparr>config_schema := \<lparr>options =
      options (config_schema m) @ [\<lparr>option_id = oid, option_name = name, option_description = desc, option_type = ty, variant = v\<rparr>],
      options_by_id = emplace_new oid (length (options (config_schema m))) (options_by_id (config_schema m))\<rparr>\<rparr>"
    using assms(1) by (auto simp: parse_config_schema_option_def bindE_Inr Let_def config_option_type_names_def split: option.splits if_splits)
  have "typed_option \<lparr>option_id = oid, option_name = name, option_description = desc, option_type = ty, variant = v\<rparr>"
    using p by (cases ty) (auto simp: parse_variant_def bindE_Inr typed_option_def)
  with assms(2) show ?thesis
    by (auto simp: m' schema_wf_def emplace_new_def nth_append less_Suc_eq split: option.splits if_splits)
qed

lemma parse_manifest_wf:
  assumes "parse_manifest jp d val data m = Inr m'" "schema_wf (config_schema m)" shows "schema_wf (config_schema m')"
proof -
  have dl: "schema_wf (config_schema b)" if "read_dependency_list val j key opt a = Inr b" "schema_wf (config_schema a)" for j key opt a b
    using that by (auto simp: read_dependency_list_def bindE_Inr elim!: foldE_invariant [where I = "\<lambda>m. schema_wf (config_schema m)"] split: option.splits)
  have nl: "schema_wf (config_schema b)" if "read_native_libraries j a = Inr b" "schema_wf (config_schema a)" for j a b
    using that by (auto simp: read_native_libraries_def elim!: foldE_invariant [where I = "\<lambda>m. schema_wf (config_schema m)"] split: option.splits json.splits)
  have cs: "schema_wf (config_schema b)" if "read_config_schema d j a = Inr b" "schema_wf (config_schema a)" for j a b
    using that by (auto simp: read_config_schema_def elim!: foldE_invariant [where I = "\<lambda>m. schema_wf (config_schema m)"]
        dest: parse_option_wf split: option.splits if_splits)
  show ?thesis using assms by (auto simp: parse_manifest_def bindE_Inr dest!: dl nl cs split: option.splits if_splits)
qed

section \<open>Values\<close>

definition value_ok :: "'d ConfigOption \<Rightarrow> 'd ConfigValue \<Rightarrow> bool" where
  "value_ok op v = (case (option_type op, variant op, v) of
     (EnumType, OptionEnum opts _, VEnum n) \<Rightarrow> unat n < length opts
   | (NumberType, _, VNumber _) \<Rightarrow> True
   | (StringType, _, VString _) \<Rightarrow> True
   | _ \<Rightarrow> False)"

definition storage_ok :: "'d ConfigSchema \<Rightarrow> 'd ConfigStorage \<Rightarrow> bool" where
  "storage_ok sc st \<longleftrightarrow> distinct (map fst st) \<and> (\<forall>k v i. map_of st k = Some v \<longrightarrow> options_by_id sc k = Some i \<longrightarrow> value_ok (options sc ! i) v)"

lemma storage_ok_empty [simp]: "storage_ok sc []"
  by (simp add: storage_ok_def)

lemma storage_ok_upd: "storage_ok sc st \<Longrightarrow> (\<And>i. options_by_id sc k = Some i \<Longrightarrow> value_ok (options sc ! i) v) \<Longrightarrow> storage_ok sc (AList.update k v st)"
  by (simp add: storage_ok_def update_conv' distinct_update)

lemma index_of_bound: "index_of x xs = Some i \<Longrightarrow> unat (of_nat i :: u32) < length xs"
proof (rule le_less_trans)
  show "unat (of_nat i :: u32) \<le> i" by (simp add: unsigned_of_nat take_bit_nat_less_eq_self)
  show "index_of x xs = Some i \<Longrightarrow> i < length xs" by (induction xs arbitrary: i) (auto split: if_splits)
qed

text \<open>Loading a stored configuration never throws.\<close>

lemma load_option_Some: "typed_option op \<Longrightarrow> load_option d j op st \<noteq> None"
  by (auto simp: load_option_def typed_option_def split: option.split ConfigOptionType.splits ConfigOptionVariant.splits)

lemma load_option_ok:
  assumes "load_option d j op st = Some st'" "storage_ok sc st" "\<And>i. options_by_id sc (option_id op) = Some i \<Longrightarrow> options sc ! i = op"
  shows "storage_ok sc st'"
  using assms(1,2) assms(3)
  by (auto simp: load_option_def value_ok_def index_of_bound intro!: storage_ok_upd split: option.splits ConfigOptionType.splits ConfigOptionVariant.splits)

lemma load_options_total: "(\<forall>op \<in> set ops. typed_option op) \<Longrightarrow> load_options d j ops st \<noteq> None"
  using load_option_Some by (induction ops arbitrary: st) (auto split: option.split)

lemma load_options_ok:
  "load_options d j ops st = Some st' \<Longrightarrow> storage_ok sc st \<Longrightarrow> (\<And>op i. op \<in> set ops \<Longrightarrow> options_by_id sc (option_id op) = Some i \<Longrightarrow> options sc ! i = op) \<Longrightarrow>
     storage_ok sc st'"
proof (induction ops arbitrary: st)
  case (Cons op ops)
  then obtain st1 where l: "load_option d j op st = Some st1" "load_options d j ops st1 = Some st'" by (auto split: option.splits)
  have "storage_ok sc st1" by (rule load_option_ok [OF l(1) Cons.prems(2)]) (use Cons.prems(3) in simp)
  then show ?case by (rule Cons.IH [OF l(2)]) (use Cons.prems(3) in simp)
qed simp

lemma load_config_total: assumes "schema_wf sc" shows "load_mod_config_storage d file i sc st \<noteq> None"
proof -
  have "load_options d j (options sc) st \<noteq> None" for j
    by (rule load_options_total) (use assms in \<open>simp add: schema_wf_def\<close>)
  then show ?thesis by (auto simp: load_mod_config_storage_def split: option.split json.split)
qed

lemma load_config_ok:
  "schema_wf sc \<Longrightarrow> distinct_ids sc \<Longrightarrow> load_mod_config_storage d file i sc [] = Some st \<Longrightarrow> storage_ok sc st"
  using load_options_ok [where sc = sc and st = "[]"] schema_lookup
  by (fastforce simp: load_mod_config_storage_def split: option.splits json.splits if_splits)

section \<open>Open mods\<close>

definition handle_ok :: "'d ModHandle \<Rightarrow> bool" where
  "handle_ok h \<longleftrightarrow> schema_wf (config_schema (manifest h)) \<and> (distinct_ids (config_schema (manifest h)) \<longrightarrow> storage_ok (config_schema (manifest h)) (config_storage h))"

definition mods_ok :: "'d ModContext \<Rightarrow> bool" where
  "mods_ok c \<longleftrightarrow> (\<forall>h \<in> set (opened_mods c). handle_ok h)"

lemma open_ok:
  assumes "schema_wf (config_schema m)"
  shows "open_mod_from_manifest H m tys req c \<noteq> None"
    and "open_mod_from_manifest H m tys req c = Some (e, c') \<Longrightarrow> mods_ok c \<Longrightarrow> mods_ok c'"
proof -
  have d: "schema_wf (config_schema (default_manifest H c m))" by (simp add: default_manifest_def new_manifest_def Let_def)
  let ?r = "case read_file (file_handle m) ''mod.json'' of None \<Rightarrow> if req then Inl (NoManifest, []) else Inr (default_manifest H c m)
            | Some data \<Rightarrow> parse_manifest (json_parse H) (dbl H) (validate_id H) data m"
  have r: "schema_wf (config_schema m')" if "?r = Inr m'" for m'
    using that d parse_manifest_wf assms by (auto split: option.splits if_splits)
  show "open_mod_from_manifest H m tys req c \<noteq> None"
  proof (cases ?r)
    case (Inr m')
    then show ?thesis using load_config_total [OF r [OF Inr], of "dbl H" "stored_config H (mod_id m')" "mod_id m'" "[]"]
      by (auto simp: open_mod_from_manifest_def Inr Let_def split: sum.split option.split)
  qed (simp add: open_mod_from_manifest_def)
  assume o: "open_mod_from_manifest H m tys req c = Some (e, c')" "mods_ok c"
  show "mods_ok c'"
  proof (cases ?r)
    case (Inl e')
    then show ?thesis using o by (simp add: open_mod_from_manifest_def)
  next
    case (Inr m')
    have h: "handle_ok (new_handle x m' st g t th)" if "load_mod_config_storage (dbl H) (stored_config H (mod_id m')) (mod_id m') (config_schema m') [] = Some st" for x st g t th
      using r [OF Inr] load_config_ok [OF r [OF Inr] _ that] by (simp add: handle_ok_def new_handle_def)
    show ?thesis using o h by (auto simp: open_mod_from_manifest_def Inr Let_def add_opened_mod_def mods_ok_def split: sum.splits option.splits if_splits)
  qed
qed

text \<open>A scan never throws, whatever the manifests and the stored values are.\<close>

lemma scan_all_total: "I s \<Longrightarrow> (\<And>x s. I s \<Longrightarrow> \<exists>s'. f x s = Some s' \<and> I s') \<Longrightarrow> \<exists>s'. scan_all f xs s = Some s' \<and> I s'"
proof (induction xs arbitrary: s)
  case (Cons x xs)
  obtain s1 where "f x s = Some s1" "I s1" using Cons.prems by blast
  then show ?case using Cons.IH [of s1] Cons.prems(2) by simp
qed simp

lemma new_manifest_wf [simp]: "schema_wf (config_schema (new_manifest path h))"
  by (simp add: new_manifest_def)

lemma open_path_ok: "mods_ok c \<Longrightarrow> \<exists>e c'. open_mod_from_path H path tys req c = Some (e, c') \<and> mods_ok c'"
  using open_ok [of "new_manifest path h" H tys req c for h]
  by (auto simp: open_mod_from_path_def LooseModFileHandle_def split: option.split file_kind.split sum.split) (metis not_None_eq surj_pair)+

lemma open_memory_ok: "mods_ok c \<Longrightarrow> \<exists>e c'. open_mod_from_memory H bytes tys req c = Some (e, c') \<and> mods_ok c'"
  using open_ok [of "new_manifest [] h" H tys req c for h]
  by (auto simp: open_mod_from_memory_def split: sum.split) (metis not_None_eq surj_pair)

lemma scan_ok: "\<exists>errors c'. scan_mod_folder H entries c = Some (errors, c') \<and> mods_ok c'"
proof -
  let ?I = "\<lambda>s. mods_ok (snd s)"
  have entry: "\<exists>s'. scan_entry H p s = Some s' \<and> ?I s'" if I: "?I s" for p s
  proof -
    obtain es d where s: "s = (es, d)" by fastforce
    have "\<exists>s'. note_error p es (open_mod_from_path H p tys req d) = Some s' \<and> ?I s'" for tys req
      using open_path_ok [of d H p tys req] I by (auto simp: s note_error_def)
    then show ?thesis using I by (auto simp: scan_entry_def s split: option.split file_kind.split)
  qed
  have embedded: "\<exists>s'. scan_embedded H p s = Some s' \<and> ?I s'" if I: "?I s" for p s
  proof -
    obtain es d i bytes where s: "s = (es, d)" "p = (i, bytes)" by (cases s, cases p) auto
    show ?thesis using open_memory_ok [of d H bytes "[]" True] I by (auto simp: scan_embedded_def s note_error_def)
  qed
  have "?I ([], close_mods c)" by (simp add: mods_ok_def close_mods_def)
  then obtain s where s: "scan_all (scan_entry H) entries ([], close_mods c) = Some s" "?I s" using scan_all_total [of ?I _ "scan_entry H"] entry by blast
  then obtain s' where "scan_all (scan_embedded H) (embedded_mods c) s = Some s'" "?I s'" using scan_all_total [of ?I _ "scan_embedded H"] embedded by blast
  with s show ?thesis by (cases s') (simp add: scan_mod_folder_def)
qed

text \<open>What the invariant of a handle depends on.\<close>

definition storages :: "'d ModContext \<Rightarrow> _" where
  "storages c = (map (\<lambda>h. (manifest h, config_storage h)) (opened_mods c), opened_mods_by_id c)"

lemma mods_ok_storages: "mods_ok c \<longleftrightarrow> (\<forall>(m, st) \<in> set (fst (storages c)). schema_wf (config_schema m) \<and>
    (distinct_ids (config_schema m) \<longrightarrow> storage_ok (config_schema m) st))"
  by (auto simp: mods_ok_def handle_ok_def storages_def)

lemma storages_tables: "tables c = tables c' \<Longrightarrow> storages c = storages c'"
  by (simp add: tables_def storages_def)

lemma storages_fire [simp]: "storages (fire_enabled i c) = storages c" "storages (fire_disabled i c) = storages c" "storages (fire_reordered i c) = storages c"
  by (rule storages_tables, simp)+

lemma storages_fields [simp]:
  "storages (c\<lparr>config_queue := q\<rparr>) = storages c" "storages (c\<lparr>enabled_mods := e\<rparr>) = storages c" "storages (c\<lparr>auto_enabled_mods := a\<rparr>) = storages c"
  "storages (c\<lparr>opened_mods_order := l\<rparr>) = storages c" "storages (c\<lparr>mod_order_lookup := m\<rparr>) = storages c"
  "storages (c\<lparr>loaded_mods_by_id := lm\<rparr>) = storages c" "storages (c\<lparr>loaded_code_mods := lc\<rparr>) = storages c" "storages (c\<lparr>active_game := g\<rparr>) = storages c"
  "storages (unload_mods c) = storages c"
  by (simp_all add: storages_def unload_mods_def)

lemma storages_fold [simp]: "storages (fold fire_enabled is c) = storages c"
  by (rule fold_invariant [of "\<lambda>d. storages d = storages c"]) simp_all

lemma storages_enable [simp]: "storages (enable i k c) = storages c"
  by (auto simp: enable_def Let_def split: prod.split)

lemma storages_disable [simp]: "storages (disable iter i k c) = storages c"
proof -
  have "storages (fold (\<lambda>previous c. if previous \<in> R then c else case opened_mods_by_id c previous of None \<Rightarrow> c | Some p \<Rightarrow> fire_disabled p c) is d) = storages d"
    for R "is" and d :: "'a ModContext"
    by (rule fold_invariant [of "\<lambda>e. storages e = storages d"]) (auto split: option.split)
  then show ?thesis by (simp add: disable_def Let_def)
qed

lemma storages_enable_mod [simp]: "storages (enable_mod iter i en save c) = storages c"
  by (auto simp: enable_mod_def Let_def split: option.split)

lemma storages_set_mod_index [simp]: "storages (set_mod_index g i index c) = storages c"
  by (auto simp: set_mod_index_def rebuild_mod_order_lookup_def Let_def split: option.split prod.split)

lemma storages_load_config [simp]: "storages (load_mods_config iter file c) = storages c"
  by (auto simp: load_mods_config_def rebuild_mod_order_lookup_def Let_def intro!: fold_invariant [of "\<lambda>d. storages d = storages c"] split: prod.split)

lemma storages_toggle [simp]: "storages (disable_runtime_toggle i c) = storages c"
  by (simp add: storages_def disable_runtime_toggle_def mod_at_def map_update_same)

lemma storages_check [simp]: "storages (snd (check_dependencies i c)) = storages c"
proof -
  have "storages (snd (fold check_dependency ds s)) = storages (snd s)" for ds and s :: "(ModLoadError \<times> string) list \<times> 'a ModContext"
    by (rule fold_invariant [of "\<lambda>s'. storages (snd s') = storages (snd s)"]) (auto simp: check_dependency_def Let_def split: prod.splits option.split)
  then show ?thesis by (simp add: check_dependencies_def Let_def)
qed

lemma storages_load_pass: "load_pass pv game c = (active, errors, c') \<Longrightarrow> storages c' = storages c"
proof -
  assume l: "load_pass pv game c = (active, errors, c')"
  have "storages (snd (snd (load_pass pv game c))) = storages c" unfolding load_pass_def
    by (rule fold_invariant [of "\<lambda>s. storages (snd (snd s)) = storages c"]) (auto simp: load_mod_def Let_def split: prod.splits if_splits)
  with l show ?thesis by simp
qed

lemma storages_check_pass: "check_pass active c = (errors, c') \<Longrightarrow> storages c' = storages c"
proof -
  assume l: "check_pass active c = (errors, c')"
  have "storages (snd (check_pass active c)) = storages c" unfolding check_pass_def
  proof (rule fold_invariant [of "\<lambda>s. storages (snd s) = storages c"], goal_cases)
    case (2 i s)
    obtain es d where s: "s = (es, d)" by fastforce
    obtain e' d' where r: "check_dependencies i d = (e', d')" by fastforce
    then show ?case using 2 storages_check [of i d] by (simp add: s)
  qed simp
  with l show ?thesis by simp
qed

lemma storages_code: "code_law load_code \<Longrightarrow> storages (snd (load_code c)) = storages c"
proof -
  assume law: "code_law load_code"
  have z: "storages d = (zip (map fst (fst (selection d))) (map config_storage (opened_mods d)), fst (snd (selection d)))" for d :: "'a ModContext"
    by (simp add: storages_def selection_def zip_map_map zip_same_conv_map)
  show ?thesis using law unfolding z code_law_def by simp
qed

lemma storages_load_mods: "code_law load_code \<Longrightarrow> storages (snd (load_mods pv load_code g c)) = storages c"
proof -
  assume law: "code_law load_code"
  have code: "storages d' = storages d" if "load_code d = (e, d')" for d e d' using storages_code [OF law, of d] that by simp
  show ?thesis
    by (auto simp: load_mods_def Let_def dest!: storages_load_pass storages_check_pass code split: option.split prod.split)
qed

end
