(* ===== verification/ModSaver.thy ===== *)
theory ModSaver
  imports ModConfigProps
begin

text \<open>
  The thread that saves configurations, interleaved with everything else that happens to the mods: when it dies,
  when a change reaches its file, and two ways to lose one.
\<close>

section \<open>Saving never meets a value of the wrong type\<close>

lemma set_value_cases:
  "set_value k v h = Some h' \<Longrightarrow> h' = h \<or> (\<exists>op. find_option h k = Some op \<and> value_ok op v \<and> h' = store_value k v h)"
proof -
  assume s: "set_value k v h = Some h'"
  show ?thesis
  proof (cases "find_option h k")
    case (Some op)
    then show ?thesis using s by (cases "option_type op"; cases v; cases "variant op") (simp_all add: set_value_def value_ok_def split: if_splits)
  qed (use s in \<open>simp add: set_value_def\<close>)
qed

lemma set_value_ok:
  assumes "set_value k v h = Some h'" "handle_ok h" shows "handle_ok h'"
  using set_value_cases [OF assms(1)]
proof (elim disjE exE conjE)
  fix op assume op: "find_option h k = Some op" "value_ok op v" "h' = store_value k v h"
  have "storage_ok (config_schema (manifest h)) (AList.update k v (config_storage h))" if "storage_ok (config_schema (manifest h)) (config_storage h)"
    using that op(1,2) by (intro storage_ok_upd) (auto simp: find_option_def Let_def)
  then show "handle_ok h'" using assms(2) by (simp add: handle_ok_def op(3) store_value_def)
qed (use assms(2) in simp)

lemma set_value_total: "handle_ok h \<Longrightarrow> set_value k v h \<noteq> None"
proof (cases "find_option h k")
  case (Some op)
  assume "handle_ok h"
  then have "typed_option op" using Some by (auto simp: find_option_def Let_def handle_ok_def schema_wf_def)
  then show ?thesis using Some by (cases "option_type op"; cases v; cases "variant op") (simp_all add: set_value_def typed_option_def)
qed (simp add: set_value_def)

lemma set_config_ok: "set_mod_config_value i k v c = Some c' \<Longrightarrow> mods_ok c \<Longrightarrow> mods_ok c'"
proof -
  assume s: "set_mod_config_value i k v c = Some c'" "mods_ok c"
  have "handle_ok h" if "set_value k v (mod_at c i) = Some h" "i < length (opened_mods c)" for h
    using set_value_ok [OF that(1)] that(2) s(2) by (simp add: mods_ok_def mod_at_def)
  then show "mods_ok c'" using s set_update_subset_insert [of "opened_mods c" i]
    by (fastforce simp: set_mod_config_value_def mods_ok_def split: option.splits if_splits)
qed

lemma mods_ok_step: "mods_step iter c c' \<Longrightarrow> mods_ok c \<Longrightarrow> mods_ok c'"
proof (induction rule: mods_step.induct)
  case (scan H entries c errors c')
  then show ?case using scan_ok [of H entries c] by auto
next
  case (close c)
  then show ?case by (simp add: mods_ok_def close_mods_def)
next
  case (set_value i k v c c')
  then show ?case using set_config_ok by blast
next
  case (load load_code c pv g)
  then show ?case by (simp add: mods_ok_storages storages_load_mods)
next
  case (content_type c ty)
  then show ?case by (simp add: mods_ok_def register_content_type_def)
next
  case (container_type c ext tys req)
  then show ?case by (simp add: mods_ok_def register_container_type_def)
next
  case (game c g)
  then show ?case by (auto simp: mods_ok_def register_game_def split: option.split)
next
  case (embedded c i bytes)
  then show ?case by (auto simp: mods_ok_def register_embedded_mod_def split: option.split)
qed (simp_all add: mods_ok_storages)

text \<open>The snapshots of the thread.\<close>

definition snapshot_ok :: "'d config_thread \<Rightarrow> bool" where
  "snapshot_ok t \<longleftrightarrow> (\<forall>i. let sc = value_or \<lparr>options = [], options_by_id = (\<lambda>_. None)\<rparr> (pending_mod_schema t i);
       st = value_or [] (pending_mod_storage t i) in
     schema_wf sc \<and> (distinct_ids sc \<longrightarrow> storage_ok sc st))"

definition entries_law :: "('d ConfigStorage \<Rightarrow> (string \<times> 'd ConfigValue) list) \<Rightarrow> bool" where
  "entries_law entries \<longleftrightarrow> (\<forall>st. set (entries st) = set st)"

lemma save_values_total:
  assumes "schema_wf sc" "storage_ok sc st" shows "set kvs \<subseteq> set st \<Longrightarrow> save_values sc kvs \<noteq> None"
proof (induction kvs)
  case (Cons kv kvs)
  obtain k v where kv: "kv = (k, v)" by fastforce
  then have v: "map_of st k = Some v" using Cons.prems assms(2) by (simp add: storage_ok_def)
  have "save_value sc k v \<noteq> None"
  proof (cases "options_by_id sc k")
    case (Some i)
    then have "value_ok (options sc ! i) v" "typed_option (options sc ! i)"
      using assms v schema_wf_typed [OF assms(1) Some] by (auto simp: storage_ok_def schema_wf_def)
    then show ?thesis using Some
      by (auto simp: save_value_def Let_def value_ok_def typed_option_def split: ConfigOptionType.splits ConfigOptionVariant.splits ConfigValue.splits)
  qed (simp add: save_value_def)
  then show ?case using Cons kv by (auto split: option.splits)
qed simp

lemma pending_json_total:
  assumes "entries_law entries" "snapshot_ok t" "pending_json entries pv t i = None"
  shows "\<not> distinct_ids (value_or \<lparr>options = [], options_by_id = (\<lambda>_. None)\<rparr> (pending_mod_schema t i))"
proof
  let ?sc = "value_or \<lparr>options = [], options_by_id = (\<lambda>_. None)\<rparr> (pending_mod_schema t i)" and ?st = "value_or [] (pending_mod_storage t i)"
  assume "distinct_ids ?sc"
  then have "schema_wf ?sc" "storage_ok ?sc ?st" using assms(2) by (auto simp: snapshot_ok_def Let_def)
  then have "save_values ?sc (entries ?st) \<noteq> None" using assms(1) by (intro save_values_total) (auto simp: entries_law_def)
  then show False using assms(3) by (auto simp: pending_json_def save_mod_config_storage_def split: option.splits)
qed

inductive session_step :: "(string set \<Rightarrow> string list) \<Rightarrow> ('d ConfigStorage \<Rightarrow> (string \<times> 'd ConfigValue) list) \<Rightarrow> Version \<Rightarrow> 'd mods_state \<Rightarrow> 'd mods_state \<Rightarrow> bool"
  for iter entries pv where
  mods_change: "mods_step iter (mods s) c \<Longrightarrow> session_step iter entries pv s (s\<lparr>mods := c\<rparr>)"
| saver_turn: "config_turn entries pv quiet written sel s = Inr s' \<Longrightarrow> session_step iter entries pv s s'"

text \<open>The table of ids holds indices of open mods.\<close>

definition ids_ok :: "'d ModContext \<Rightarrow> bool" where
  "ids_ok c \<longleftrightarrow> (\<forall>i k. opened_mods_by_id c i = Some k \<longrightarrow> k < length (opened_mods c) \<and> id_at c k = i)"

lemma ids_ok_storages: "ids_ok c \<longleftrightarrow> (\<forall>i k. snd (storages c) i = Some k \<longrightarrow> k < length (fst (storages c)) \<and> mod_id (fst (fst (storages c) ! k)) = i)"
  by (simp add: ids_ok_def storages_def id_at_def mod_at_def cong: conj_cong)

lemma ids_ok_open: "open_mod_from_manifest H m tys req c = Some (e, c') \<Longrightarrow> ids_ok c \<Longrightarrow> ids_ok c'"
  by (auto simp: open_mod_from_manifest_def add_opened_mod_def emplace_new_def Let_def less_Suc_eq ids_ok_def id_at_def mod_at_def nth_append new_handle_def
      split: option.splits sum.splits if_splits)

lemma ids_ok_set: assumes "set_mod_config_value i k v c = Some c'" "ids_ok c" shows "ids_ok c'"
proof -
  have m: "manifest h = manifest (opened_mods c ! i)" if "set_value k v (opened_mods c ! i) = Some h" for h
    using set_value_cases [OF that] by (auto simp: store_value_def)
  have "map manifest (opened_mods c') = map manifest (opened_mods c) \<and> opened_mods_by_id c' = opened_mods_by_id c"
    using assms(1) by (auto simp: set_mod_config_value_def mod_at_def dest!: m intro!: map_update_same split: option.splits if_splits)
  then have e: "map manifest (opened_mods c') = map manifest (opened_mods c)" "opened_mods_by_id c' = opened_mods_by_id c" by simp_all
  have l: "length (opened_mods c') = length (opened_mods c)" using e(1) by (rule map_eq_imp_length_eq)
  have "k < length (opened_mods c) \<Longrightarrow> id_at c' k = id_at c k" for k
    using e(1) l unfolding id_at_def mod_at_def by (metis nth_map)
  with e(2) l assms(2) show ?thesis by (simp add: ids_ok_def)
qed

lemma storages_register [simp]:
  "storages (snd (register_content_type ty c)) = storages c" "storages (snd (register_container_type ext tys req c)) = storages c"
  "storages (register_game g c) = storages c" "storages (register_embedded_mod i bytes c) = storages c"
  by (auto simp: storages_def register_content_type_def register_container_type_def register_game_def register_embedded_mod_def split: option.split)

lemma ids_ok_step: "mods_step iter c c' \<Longrightarrow> ids_ok c \<Longrightarrow> ids_ok c'"
proof (induction rule: mods_step.induct)
  case (scan H entries c errors c')
  show ?case
  proof (rule scan_invariant [OF scan.hyps, of ids_ok])
    show "ids_ok (close_mods c)" by (simp add: ids_ok_def close_mods_def)
  qed (rule ids_ok_open)
next
  case (close c)
  then show ?case by (simp add: ids_ok_def close_mods_def)
next
  case (set_value i k v c c')
  then show ?case using ids_ok_set by blast
next
  case (load load_code c pv g)
  then show ?case by (simp add: ids_ok_storages storages_load_mods)
qed (simp_all add: ids_ok_storages)

definition session_ok :: "'d mods_state \<Rightarrow> bool" where
  "session_ok s \<longleftrightarrow> mods_ok (mods s) \<and> ids_ok (mods s) \<and> snapshot_ok (config_thread s)"

lemma storage_ok_no_options [simp]: "storage_ok \<lparr>options = [], options_by_id = (\<lambda>_. None)\<rparr> st = distinct (map fst st)"
  by (simp add: storage_ok_def)

lemma snapshot_ok_take:
  assumes "mods_ok c" "ids_ok c" "snapshot_ok t" shows "snapshot_ok (snapshot_mods c t)"
proof -
  have h: "handle_ok (mod_at c k)" if "opened_mods_by_id c i = Some k" for i k
    using that assms(1,2) by (auto simp: ids_ok_def mods_ok_def mod_at_def)
  show ?thesis using assms(3) h
    by (auto simp: snapshot_ok_def snapshot_mods_def Let_def value_or_def handle_ok_def split: option.splits) (metis option.distinct(1))
qed

lemma snapshot_ok_cong: "pending_mod_storage t = pending_mod_storage t' \<Longrightarrow> pending_mod_schema t = pending_mod_schema t' \<Longrightarrow> snapshot_ok t = snapshot_ok t'"
  by (simp add: snapshot_ok_def)

lemma snapshot_ok_defaults: "snapshot_ok t \<Longrightarrow> snapshot_ok (fill_defaults ids t)"
  by (auto simp: snapshot_ok_def fill_defaults_def Let_def value_or_def split: option.splits)

lemma snapshot_ok_write: assumes "write_mods entries pv w t = Some t'" "snapshot_ok t" shows "snapshot_ok t'"
proof -
  have "pending_mod_storage t' = pending_mod_storage (fill_defaults (pending_mods t) t)"
    "pending_mod_schema t' = pending_mod_schema (fill_defaults (pending_mods t) t)"
    using assms(1) by (auto simp: write_mods_def split: if_splits)
  from snapshot_ok_cong [OF this] show ?thesis using snapshot_ok_defaults [OF assms(2)] by simp
qed

lemma snapshot_ok_handle [simp]: "snapshot_ok (handle_request r t) = snapshot_ok t" "snapshot_ok (write_selection w c t) = snapshot_ok t"
  by (rule snapshot_ok_cong; simp add: handle_request_def write_selection_def split: config_request.split)+

lemma session_ok_step: "session_step iter entries pv s s' \<Longrightarrow> session_ok s \<Longrightarrow> session_ok s'"
proof (induction rule: session_step.induct)
  case (mods_change s c)
  then show ?case using mods_ok_step ids_ok_step by (auto simp: session_ok_def)
next
  case (saver_turn quiet written sel s s')
  then show ?case using snapshot_ok_write
    by (auto simp: config_turn_def session_ok_def Let_def mods_ok_storages ids_ok_storages snapshot_ok_take
        split: config_loc.splits list.splits option.splits if_splits)
qed

section \<open>Changes reach their file\<close>

text \<open>What the file of the mod at an index should hold.\<close>

definition current_json :: "('d ConfigStorage \<Rightarrow> (string \<times> 'd ConfigValue) list) \<Rightarrow> Version \<Rightarrow> 'd ModContext \<Rightarrow> nat \<Rightarrow> 'd json option" where
  "current_json entries pv c k = save_mod_config_storage entries pv (id_at c k) (version (manifest (mod_at c k)))
     (config_storage (mod_at c k)) (config_schema (manifest (mod_at c k)))"

text \<open>A session in which mods are used but none is opened or closed.\<close>

inductive editing_step :: "(string set \<Rightarrow> string list) \<Rightarrow> ('d ConfigStorage \<Rightarrow> (string \<times> 'd ConfigValue) list) \<Rightarrow> Version \<Rightarrow> 'd mods_state \<Rightarrow> 'd mods_state \<Rightarrow> bool"
  for iter entries pv where
  edit_value: "set_mod_config_value j key v (mods s) = Some c \<Longrightarrow> editing_step iter entries pv s (s\<lparr>mods := c\<rparr>)"
| edit_enable: "editing_step iter entries pv s (s\<lparr>mods := enable_mod iter j en save (mods s)\<rparr>)"
| edit_move: "editing_step iter entries pv s (s\<lparr>mods := set_mod_index g j index (mods s)\<rparr>)"
| edit_turn: "config_turn entries pv quiet (\<lambda>_. True) sel s = Inr s' \<Longrightarrow> editing_step iter entries pv s s'"

lemma current_json_storages:
  "storages c = storages c' \<Longrightarrow> k < length (opened_mods c) \<Longrightarrow> current_json entries pv c k = current_json entries pv c' k"
proof -
  assume s: "storages c = storages c'" and k: "k < length (opened_mods c)"
  have m: "map (\<lambda>h. (manifest h, config_storage h)) (opened_mods c) = map (\<lambda>h. (manifest h, config_storage h)) (opened_mods c')" using s by (simp add: storages_def)
  have "length (opened_mods c) = length (opened_mods c')" using m by (rule map_eq_imp_length_eq)
  then have "(manifest (opened_mods c ! k), config_storage (opened_mods c ! k)) = (manifest (opened_mods c' ! k), config_storage (opened_mods c' ! k))"
    using m k by (metis (no_types, lifting) nth_map)
  then show ?thesis by (simp add: current_json_def id_at_def mod_at_def)
qed

definition same_mods :: "'d ModContext \<Rightarrow> 'd ModContext \<Rightarrow> bool" where
  "same_mods c c' \<longleftrightarrow> storages c' = storages c \<and> set (config_queue c) \<subseteq> set (config_queue c')"

lemma queue_fire [simp]: "config_queue (fire_enabled i c) = config_queue c" "config_queue (fire_disabled i c) = config_queue c" "config_queue (fire_reordered i c) = config_queue c"
proof -
  have r: "config_queue (run_callback i cb d) = config_queue d" for cb and d :: "'a ModContext"
    by (auto simp: run_callback_def on_code_mod_enabled_def split: option.split callback.split)
  show "config_queue (fire_enabled i c) = config_queue c" unfolding fire_enabled_def by (rule fold_invariant) (simp_all add: r)
  show "config_queue (fire_disabled i c) = config_queue c" unfolding fire_disabled_def by (rule fold_invariant) (simp_all add: r)
  show "config_queue (fire_reordered i c) = config_queue c" unfolding fire_reordered_def
    by (rule fold_invariant) (auto split: option.split callback.split)
qed

lemma queue_enable [simp]: "config_queue (enable i k c) = config_queue c"
proof -
  have "config_queue (fold fire_enabled is d) = config_queue d" for "is" and d :: "'a ModContext"
    by (rule fold_invariant [of "\<lambda>e. config_queue e = config_queue d"]) simp_all
  then show ?thesis by (auto simp: enable_def Let_def split: prod.split)
qed

lemma queue_disable [simp]: "config_queue (disable iter i k c) = config_queue c"
proof -
  have "config_queue (fold (\<lambda>previous c. if previous \<in> R then c else case opened_mods_by_id c previous of None \<Rightarrow> c | Some p \<Rightarrow> fire_disabled p c) is d) = config_queue d"
    for R "is" and d :: "'a ModContext"
    by (rule fold_invariant [of "\<lambda>e. config_queue e = config_queue d"]) (auto split: option.split)
  then show ?thesis by (simp add: disable_def Let_def)
qed

lemma same_mods_enable: "same_mods c (enable_mod iter i en save c)"
  by (auto simp: same_mods_def) (auto simp: enable_mod_def Let_def split: option.splits)

lemma same_mods_move: "same_mods c (set_mod_index g i index c)"
  by (auto simp: same_mods_def) (auto simp: set_mod_index_def rebuild_mod_order_lookup_def Let_def split: option.splits prod.splits)

text \<open>Either the file of the mod holds what it should, or a request for it is under way.\<close>

definition under_way :: "('d ConfigStorage \<Rightarrow> (string \<times> 'd ConfigValue) list) \<Rightarrow> Version \<Rightarrow> string \<Rightarrow> nat \<Rightarrow> 'd mods_state \<Rightarrow> bool" where
  "under_way entries pv i k s \<longleftrightarrow> (let c = mods s; t = config_thread s in
     SaveMod i \<in> set (config_queue c) \<or> config_loc t = Stopped \<or>
     (if i \<in> pending_mods t then config_loc t = Collecting \<or> config_loc t = Writing \<and> pending_json entries pv t i = current_json entries pv c k
      else mod_files t i = current_json entries pv c k))"

definition saved_inv :: "('d ConfigStorage \<Rightarrow> (string \<times> 'd ConfigValue) list) \<Rightarrow> Version \<Rightarrow> string \<Rightarrow> nat \<Rightarrow> 'd mods_state \<Rightarrow> bool" where
  "saved_inv entries pv i k s \<longleftrightarrow> opened_mods_by_id (mods s) i = Some k \<and> k < length (opened_mods (mods s)) \<and> id_at (mods s) k = i \<and>
     (config_loc (config_thread s) \<in> {Waiting, Selecting} \<longrightarrow> pending_mods (config_thread s) = {}) \<and> under_way entries pv i k s"

lemma storages_at:
  assumes "storages c = storages c'" shows "opened_mods_by_id c = opened_mods_by_id c'" "length (opened_mods c) = length (opened_mods c')"
    "k < length (opened_mods c) \<Longrightarrow> id_at c k = id_at c' k"
proof -
  have m: "map (\<lambda>h. (manifest h, config_storage h)) (opened_mods c) = map (\<lambda>h. (manifest h, config_storage h)) (opened_mods c')" using assms by (simp add: storages_def)
  show "opened_mods_by_id c = opened_mods_by_id c'" using assms by (simp add: storages_def)
  show l: "length (opened_mods c) = length (opened_mods c')" using m by (rule map_eq_imp_length_eq)
  assume k: "k < length (opened_mods c)"
  then have "(manifest (opened_mods c ! k), config_storage (opened_mods c ! k)) = (manifest (opened_mods c' ! k), config_storage (opened_mods c' ! k))"
    using m l by (metis (no_types, lifting) nth_map)
  then show "id_at c k = id_at c' k" by (simp add: id_at_def mod_at_def)
qed

lemma saved_inv_same:
  assumes "saved_inv entries pv i k s" "same_mods (mods s) c" shows "saved_inv entries pv i k (s\<lparr>mods := c\<rparr>)"
proof -
  have st: "storages c = storages (mods s)" and q: "set (config_queue (mods s)) \<subseteq> set (config_queue c)" using assms(2) by (auto simp: same_mods_def)
  have k: "k < length (opened_mods c)" using assms(1) storages_at(2) [OF st] by (simp add: saved_inv_def)
  have "current_json entries pv c k = current_json entries pv (mods s) k" by (rule current_json_storages [OF st k])
  then show ?thesis using assms(1) q storages_at(1) [OF st] storages_at(3) [OF st k] k by (auto simp: saved_inv_def under_way_def Let_def)
qed

lemma saved_inv_value:
  assumes "saved_inv entries pv i k s" "set_mod_config_value j key v (mods s) = Some c" shows "saved_inv entries pv i k (s\<lparr>mods := c\<rparr>)"
proof (cases "c = mods s")
  case False
  let ?c = "mods s"
  obtain h where h: "set_value key v (mod_at ?c j) = Some h" "j < length (opened_mods ?c)"
    and c: "c = ?c\<lparr>opened_mods := (opened_mods ?c)[j := h], config_queue := config_queue ?c @ [SaveMod (mod_id (manifest h))]\<rparr>"
    using assms(2) False by (auto simp: set_mod_config_value_def split: if_splits option.splits)
  have m: "manifest h = manifest (mod_at ?c j)" using set_value_cases [OF h(1)] by (auto simp: store_value_def)
  have kj: "mod_at c k = (if k = j then h else mod_at ?c k)" using assms(1) by (simp add: c mod_at_def saved_inv_def)
  have i: "id_at c k = id_at ?c k" using m by (simp add: id_at_def kj)
  have "under_way entries pv i k (s\<lparr>mods := c\<rparr>)"
  proof (cases "k = j")
    case True
    then have "SaveMod i \<in> set (config_queue c)" using assms(1) m by (simp add: c saved_inv_def id_at_def)
    then show ?thesis by (simp add: under_way_def Let_def)
  next
    case False
    then have "current_json entries pv c k = current_json entries pv ?c k" by (simp add: current_json_def kj id_at_def)
    then show ?thesis using assms(1) by (auto simp: saved_inv_def under_way_def Let_def c)
  qed
  then show ?thesis using assms(1) i by (simp add: saved_inv_def c)
qed (use assms(1) in simp)

lemma saved_inv_turn:
  assumes "saved_inv entries pv i k s" "config_turn entries pv quiet (\<lambda>_. True) sel s = Inr s'" shows "saved_inv entries pv i k s'"
proof -
  let ?c = "mods s" and ?t = "config_thread s"
  have inv: "opened_mods_by_id ?c i = Some k" "k < length (opened_mods ?c)" "id_at ?c k = i"
    "config_loc ?t \<in> {Waiting, Selecting} \<Longrightarrow> pending_mods ?t = {}" "under_way entries pv i k s" using assms(1) by (simp_all add: saved_inv_def)
  have q: "id_at (?c\<lparr>config_queue := x\<rparr>) k = i" "current_json entries pv (?c\<lparr>config_queue := x\<rparr>) k = current_json entries pv ?c k" for x
    using inv(3) by (simp_all add: id_at_def mod_at_def current_json_def)
  have take: "saved_inv entries pv i k s'" if "config_queue ?c = r # rs" "s' = s\<lparr>mods := ?c\<lparr>config_queue := rs\<rparr>, config_thread := handle_request r ?t\<rparr>"
      "config_loc ?t \<in> {Waiting, Collecting}" for r rs
    using that inv by (cases r) (auto simp: saved_inv_def under_way_def Let_def q handle_request_def)
  have snapshot: "saved_inv entries pv i k s'" if "s' = s\<lparr>config_thread := snapshot_mods ?c ?t\<rparr>" "config_loc ?t = Collecting" "config_queue ?c = []"
  proof -
    have "i \<in> pending_mods ?t \<Longrightarrow> pending_json entries pv (snapshot_mods ?c ?t) i = current_json entries pv ?c k"
      using inv(1,3) by (simp add: pending_json_def current_json_def snapshot_mods_def Let_def value_or_def)
    moreover have "pending_mods (snapshot_mods ?c ?t) = pending_mods ?t" "config_loc (snapshot_mods ?c ?t) = Writing"
      "mod_files (snapshot_mods ?c ?t) = mod_files ?t" by (simp_all add: snapshot_mods_def Let_def)
    ultimately show ?thesis using that inv by (auto simp: saved_inv_def under_way_def Let_def)
  qed
  show ?thesis
  proof (cases "config_loc ?t")
    case Waiting
    then show ?thesis using assms(2) take by (auto simp: config_turn_def Let_def split: list.splits)
  next
    case Collecting
    then show ?thesis using assms(2) take snapshot by (auto simp: config_turn_def Let_def split: list.splits if_splits)
  next
    case Writing
    then obtain t' where t': "write_mods entries pv (\<lambda>_. True) ?t = Some t'" "s' = s\<lparr>config_thread := t'\<rparr>"
      using assms(2) by (auto simp: config_turn_def Let_def split: option.splits)
    then have f: "config_loc t' = Selecting" "pending_mods t' = {}"
      "mod_files t' i = (if i \<in> pending_mods ?t then pending_json entries pv ?t i else mod_files ?t i)"
      by (auto simp: write_mods_def fill_defaults_def split: if_splits)
    then show ?thesis using inv Writing by (auto simp: t'(2) saved_inv_def under_way_def Let_def)
  next
    case Selecting
    have f: "config_loc (write_selection sel ?c ?t) = Waiting" "pending_mods (write_selection sel ?c ?t) = pending_mods ?t"
      "mod_files (write_selection sel ?c ?t) = mod_files ?t" by (simp_all add: write_selection_def)
    have "s' = s\<lparr>config_thread := write_selection sel ?c ?t\<rparr>" using assms(2) Selecting by (simp add: config_turn_def Let_def)
    then show ?thesis using inv Selecting f by (auto simp: saved_inv_def under_way_def Let_def)
  next
    case Stopped
    then show ?thesis using assms(2) by (simp add: config_turn_def Let_def)
  qed
qed

section \<open>Changes that are lost\<close>

text \<open>
  A scan of the mod folder closes all mods first. If a mod's configuration waits to be saved and the thread takes
  its snapshot before the mod is open again, it finds no values and overwrites the file with an empty configuration
  of no version.
\<close>

theorem rescan_empties_config:
  assumes "entries [] = []" and "config_loc t = Collecting" and "pending_mods t = {i}" and "pending_mod_storage t i = None"
    and "pending_mod_schema t i = None" and "pending_mod_version t i = None" and "config_queue c = []"
  shows "\<exists>s1 s2. config_turn entries pv True w sel \<lparr>mods = close_mods c, config_thread = t\<rparr> = Inr s1 \<and>
    config_turn entries pv quiet (\<lambda>_. True) sel s1 = Inr s2 \<and>
    mod_files (config_thread s2) i = Some (JObject [(''mod_id'', JString i), (''mod_version'', JString ''-1.-1.-1''),
      (''recomp_version'', JString (to_string pv)), (''storage'', JNull)])"
proof -
  let ?t = "snapshot_mods (close_mods c) t"
  have nv: "to_string no_version = ''-1.-1.-1''" by code_simp
  have p: "pending_mods ?t = {i}" "config_loc ?t = Writing" "mod_files ?t = mod_files t" by (simp_all add: snapshot_mods_def Let_def assms(3))
  have j: "pending_json entries pv ?t i = Some (JObject [(''mod_id'', JString i), (''mod_version'', JString ''-1.-1.-1''),
      (''recomp_version'', JString (to_string pv)), (''storage'', JNull)])"
    by (simp add: pending_json_def snapshot_mods_def close_mods_def Let_def value_or_def assms save_mod_config_storage_def nv)
  have "config_turn entries pv True w sel \<lparr>mods = close_mods c, config_thread = t\<rparr> = Inr \<lparr>mods = close_mods c, config_thread = ?t\<rparr>"
    using assms(2,7) by (simp add: config_turn_def Let_def close_mods_def)
  moreover have "write_mods entries pv (\<lambda>_. True) ?t = Some ((fill_defaults {i} ?t)\<lparr>config_loc := Selecting, pending_mods := {},
      mod_files := (\<lambda>x. if x = i then pending_json entries pv ?t i else mod_files t x)\<rparr>)"
    using p j by (auto simp: write_mods_def fun_eq_iff fill_defaults_def)
  ultimately show ?thesis using j p(2) by (simp add: config_turn_def Let_def)
qed

text \<open>
  When the context is destroyed, the request to end overtakes what the thread has collected: changes made less than
  a second before are not written.
\<close>

theorem exit_discards_changes:
  assumes "config_loc t = Collecting" and "config_queue c = [End]"
  shows "\<exists>s. config_turn entries pv quiet w sel \<lparr>mods = c, config_thread = t\<rparr> = Inr s \<and> mod_files (config_thread s) = mod_files t \<and>
    selection_file (config_thread s) = selection_file t \<and> config_turn entries pv quiet' w' sel' s = Inl False"
  using assms by (simp add: config_turn_def handle_request_def Let_def)

end
