(* ===== verification/ModVersions.thy ===== *)
theory ModVersions
  imports ModManifest OrderedSet
begin

text \<open>
  Version numbers: the order on them, and that parsing undoes printing for every version whose parts fit
  into 16 bits; nothing else is accepted.
\<close>

section \<open>Decimal numbers\<close>

lemma of_char_digit [simp]: "d < 10 \<Longrightarrow> (of_char (digit_char d) :: int) = 48 + int d"
  by (simp add: digit_char_def)

lemma is_digit_digit [simp]: "d < 10 \<Longrightarrow> is_digit (digit_char d)"
  by (simp add: is_digit_def)

lemma dec_nat_digits: "\<forall>c \<in> set (dec_nat n). is_digit c"
  by (induction n rule: dec_nat.induct) (subst dec_nat.simps; auto)

lemma dec_nat_not_Nil [simp]: "dec_nat n \<noteq> []"
  by (subst dec_nat.simps) simp

lemma dec_value_dec_nat: "dec_value (dec_nat n) = int n"
proof (induction n rule: dec_nat.induct)
  case (1 n)
  show ?case
  proof (cases "n < 10")
    case True
    then show ?thesis by (simp add: dec_nat.simps [of n] dec_value_def)
  next
    case False
    have "dec_value (dec_nat n) = 10 * dec_value (dec_nat (n div 10)) + int (n mod 10)"
      using False by (simp add: dec_nat.simps [of n] dec_value_def)
    moreover have "int (10 * (n div 10) + n mod 10) = int n" by simp
    ultimately show ?thesis using 1 [OF False] by (simp only: of_nat_add of_nat_mult of_nat_numeral)
  qed
qed

lemma takeWhile_stop: "(\<forall>c \<in> set xs. P c) \<Longrightarrow> ys = [] \<or> \<not> P (hd ys) \<Longrightarrow> takeWhile P (xs @ ys) = xs \<and> dropWhile P (xs @ ys) = ys"
  by (induction xs) (cases ys; auto)+

lemma from_chars_dec: "n \<le> 65535 \<Longrightarrow> rest = [] \<or> \<not> is_digit (hd rest) \<Longrightarrow> from_chars (dec_nat n @ rest) = Inr (int n, rest)"
  using takeWhile_stop [OF dec_nat_digits, of rest n] by (simp add: from_chars_def Let_def dec_value_dec_nat)

lemma from_chars_number: "n \<le> 65535 \<Longrightarrow> from_chars (dec_nat n) = Inr (int n, [])"
  using from_chars_dec [of n "[]"] by simp

lemma dec_value_nonneg: "(\<forall>c \<in> set s. is_digit c) \<Longrightarrow> 0 \<le> dec_value s"
proof (induction s rule: rev_induct)
  case (snoc c s)
  then show ?case by (simp add: dec_value_def is_digit_def)
qed (simp add: dec_value_def)

lemma from_chars_bound: "from_chars s = Inr (n, rest) \<Longrightarrow> 0 \<le> n \<and> n \<le> 65535"
  by (auto simp: from_chars_def Let_def split: if_splits intro!: dec_value_nonneg dest: set_takeWhileD)

section \<open>Parsing and printing\<close>

lemma digits_no_dot: "c \<in> set (dec_nat n) \<Longrightarrow> c \<noteq> CHR ''.''"
  using dec_nat_digits [of n] by (auto simp: is_digit_def)

lemma str_find_after: "(\<forall>c \<in> set b. c \<noteq> x) \<Longrightarrow> str_find (a @ b @ x # r) x (length a) = Some (length a + length b)"
  using takeWhile_stop [of b "\<lambda>c. c \<noteq> x" "x # r"] by (simp add: str_find_def Let_def)

definition suffix_ok :: "string \<Rightarrow> bool" where
  "suffix_ok s \<longleftrightarrow> s = [] \<or> hd s = CHR ''+'' \<or> hd s = CHR ''-''"

text \<open>
  Parsing a printed version gives the version back when its parts fit into 16 bits and its suffix starts with a plus or
  a minus sign, and only such versions are ever read.
\<close>

theorem version_roundtrip:
  assumes "0 \<le> major v" "major v \<le> 65535" "0 \<le> minor v" "minor v \<le> 65535" "0 \<le> patch v" "patch v \<le> 65535" "suffix_ok (suffix v)"
  shows "from_string (to_string v) = Some v"
proof -
  obtain a b d where n: "major v = int a" "minor v = int b" "patch v = int d" using assms(1,3,5) by (metis nonneg_int_cases)
  have le: "a \<le> 65535" "b \<le> 65535" "d \<le> 65535" using assms n by simp_all
  let ?A = "dec_nat a" and ?B = "dec_nat b" and ?D = "dec_nat d" and ?dot = "CHR ''.''"
  have s: "to_string v = ?A @ ?dot # ?B @ ?dot # ?D @ suffix v" by (simp add: to_string_def dec_int_def n)
  have f1: "str_find (to_string v) ?dot 0 = Some (length ?A)"
    using str_find_after [of ?A ?dot "[]" "?B @ ?dot # ?D @ suffix v"] digits_no_dot by (auto simp: s)
  have f2: "str_find (to_string v) ?dot (length ?A + 1) = Some (length ?A + 1 + length ?B)"
    using str_find_after [of ?B ?dot "?A @ [?dot]" "?D @ suffix v"] digits_no_dot by (auto simp: s)
  have "suffix v = [] \<or> \<not> is_digit (hd (suffix v))" using assms(7) by (auto simp: suffix_ok_def is_digit_def)
  then have "from_chars (drop (length ?A + 1 + length ?B + 1) (to_string v)) = Inr (int d, suffix v)"
    using from_chars_dec [OF le(3), of "suffix v"] by (simp add: s)
  moreover have "from_chars (take (length ?A) (to_string v)) = Inr (int a, [])" using from_chars_number [OF le(1)] by (simp add: s)
  moreover have "from_chars (take (length ?A + 1 + length ?B - (length ?A + 1)) (drop (length ?A + 1) (to_string v))) = Inr (int b, [])"
    using from_chars_number [OF le(2)] by (simp add: s)
  ultimately have "from_string (to_string v) = Some \<lparr>major = int a, minor = int b, patch = int d, suffix = suffix v\<rparr>"
    using assms(7) unfolding from_string_def f1 option.case f2 by (simp add: suffix_ok_def)
  then show ?thesis using n by simp
qed

theorem parsed_version_bounds:
  assumes "from_string s = Some v"
  shows "0 \<le> major v \<and> major v \<le> 65535 \<and> 0 \<le> minor v \<and> minor v \<le> 65535 \<and> 0 \<le> patch v \<and> patch v \<le> 65535 \<and> suffix_ok (suffix v)"
  using assms
  by (auto simp: from_string_def suffix_ok_def split: option.splits sum.splits prod.splits list.splits if_splits dest!: from_chars_bound)

interpretation version_order: strict_weak_order version_less
  by unfold_locales (auto simp: version_less_def split: if_splits)

text \<open>The order disregards suffixes; on versions without one it is linear.\<close>

lemma version_less_linear:
  "\<not> version_less a a" "version_less a b \<Longrightarrow> version_less b d \<Longrightarrow> version_less a d"
  "suffix a = suffix b \<Longrightarrow> version_less a b \<or> a = b \<or> version_less b a"
  by (auto simp: version_less_def split: if_splits)

end
