(* ===== verification/ModQueries.thy ===== *)
theory ModQueries
  imports ModConfigProps ModOrder
begin

text \<open>
  What the runtime's interface tells of its mods (\<^verbatim>\<open>mods.cpp\<close>, \<^verbatim>\<open>mods.hpp\<close>, \<^verbatim>\<open>mod_manifest.cpp\<close>): look-ups by id and file name, the details of a mod, the
  calls that take a mod id instead of an index, and the texts of errors (\<open>None\<close> is \<^verbatim>\<open>Good\<close>).
\<close>

section \<open>Errors\<close>

definition open_error_to_string :: "ModOpenError option \<Rightarrow> string" where
  "open_error_to_string error = (case error of
     None \<Rightarrow> ''Good''
   | Some e \<Rightarrow> (case e of
       DoesNotExist \<Rightarrow> ''Mod does not exist''
     | NotAFileOrFolder \<Rightarrow> ''Mod is not a file or folder''
     | FileError \<Rightarrow> ''Error reading mod file(s)''
     | InvalidZip \<Rightarrow> ''Mod is an invalid zip file''
     | NoManifest \<Rightarrow> ''Mod is missing a mod.json''
     | FailedToParseManifest \<Rightarrow> ''Failed to parse mod's mod.json''
     | InvalidManifestSchema \<Rightarrow> ''Mod's mod.json has an invalid schema''
     | IncorrectManifestFieldType \<Rightarrow> ''Incorrect type for field in mod.json''
     | MissingConfigSchemaField \<Rightarrow> ''Missing required field in config schema in mod.json''
     | IncorrectConfigSchemaType \<Rightarrow> ''Incorrect type for field in config schema in mod.json''
     | InvalidConfigSchemaDefault \<Rightarrow> ''Invalid default for option in config schema in mod.json''
     | InvalidVersionString \<Rightarrow> ''Invalid version string in mod.json''
     | InvalidMinimumRecompVersionString \<Rightarrow> ''Invalid minimum recomp version string in mod.json''
     | InvalidDependencyString \<Rightarrow> ''Invalid dependency string in mod.json''
     | MissingManifestField \<Rightarrow> ''Missing required field in mod.json''
     | DuplicateMod \<Rightarrow> ''Duplicate mod found''
     | WrongGame \<Rightarrow> ''Mod is for a different game''))"

definition load_error_to_string :: "ModLoadError option \<Rightarrow> string" where
  "load_error_to_string error = (case error of
     None \<Rightarrow> ''Good''
   | Some e \<Rightarrow> (case e of
       InvalidGame \<Rightarrow> ''Invalid game''
     | MinimumRecompVersionNotMet \<Rightarrow> ''Mod requires a newer version of this project''
     | MissingDependency \<Rightarrow> ''Missing dependency''
     | WrongDependencyVersion \<Rightarrow> ''Wrong dependency version''
     | FailedToLoadCode \<Rightarrow> ''Failed to load mod code''))"

datatype CodeModLoadError =
  InternalError | HasSymsButNoBinary | HasBinaryButNoSyms | FailedToParseSyms | MissingDependencyInManifest | FailedToLoadNativeCode
| FailedToLoadNativeLibrary | FailedToFindNativeExport | FailedToRecompile | InvalidReferenceSymbol | InvalidImport
| InvalidCallbackEvent | InvalidFunctionReplacement | HooksUnavailable | InvalidHook | CannotBeHooked | FailedToFindReplacement
| BaseRecompConflict | ModConflict | DuplicateExport | OfflineModHooked | NoSpecifiedApiVersion | UnsupportedApiVersion

definition code_error_to_string :: "CodeModLoadError option \<Rightarrow> string" where
  "code_error_to_string error = (case error of
     None \<Rightarrow> ''Good''
   | Some e \<Rightarrow> (case e of
       InternalError \<Rightarrow> ''Code mod loading internal error''
     | HasSymsButNoBinary \<Rightarrow> ''Mod has a symbol file but no binary file''
     | HasBinaryButNoSyms \<Rightarrow> ''Mod has a binary file but no symbol file''
     | FailedToParseSyms \<Rightarrow> ''Failed to parse mod symbol file''
     | MissingDependencyInManifest \<Rightarrow> ''Dependency is present in mod symbols but not in the manifest''
     | FailedToLoadNativeCode \<Rightarrow> ''Failed to load offline mod library''
     | FailedToLoadNativeLibrary \<Rightarrow> ''Failed to load mod library''
     | FailedToFindNativeExport \<Rightarrow> ''Failed to find native export''
     | FailedToRecompile \<Rightarrow> ''Failed to recompile mod''
     | InvalidReferenceSymbol \<Rightarrow> ''Reference symbol does not exist''
     | InvalidImport \<Rightarrow> ''Imported function not found''
     | InvalidCallbackEvent \<Rightarrow> ''Event for callback not found''
     | InvalidFunctionReplacement \<Rightarrow> ''Function to be replaced does not exist''
     | HooksUnavailable \<Rightarrow> ''Function hooks are currently unavailable in this project''
     | InvalidHook \<Rightarrow> ''Function to be hooked does not exist''
     | CannotBeHooked \<Rightarrow> ''Function is not hookable''
     | FailedToFindReplacement \<Rightarrow> ''Failed to find replacement function''
     | BaseRecompConflict \<Rightarrow> ''Attempted to replace a function that's been patched by the base recomp''
     | ModConflict \<Rightarrow> ''Conflicts with other mod''
     | DuplicateExport \<Rightarrow> ''Duplicate exports in mod''
     | OfflineModHooked \<Rightarrow> ''Offline recompiled mod has a function hooked by another mod''
     | NoSpecifiedApiVersion \<Rightarrow> ''Mod DLL does not specify an API version''
     | UnsupportedApiVersion \<Rightarrow> ''Mod DLL has an unsupported API version''))"

text \<open>The version of the interface a native mod was built for.\<close>

definition validate_api_version :: "u32 \<Rightarrow> CodeModLoadError option \<times> string" where
  "validate_api_version api_version = (if api_version = 1 then (None, [])
     else if api_version = -1 then (Some NoSpecifiedApiVersion, [])
     else (Some UnsupportedApiVersion, dec_nat (unat api_version)))"

section \<open>Look-ups\<close>

record ModDetails =
  details_id :: string
  details_display_name :: string
  details_description :: string
  details_short_description :: string
  details_version :: Version
  details_authors :: "string list"
  details_dependencies :: "Dependency list"
  details_runtime_toggleable :: bool
  details_enabled_by_default :: bool

definition get_details :: "'d ModHandle \<Rightarrow> ModDetails" where
  "get_details h = (let m = manifest h in \<lparr>details_id = mod_id m, details_display_name = display_name m, details_description = description m,
     details_short_description = short_description m, details_version = version m, details_authors = authors m,
     details_dependencies = dependencies m, details_runtime_toggleable = runtime_toggleable h, details_enabled_by_default = enabled_by_default m\<rparr>)"

definition get_details_for_mod :: "string \<Rightarrow> 'd ModContext \<Rightarrow> ModDetails option" where
  "get_details_for_mod i c = (case opened_mods_by_id c i of None \<Rightarrow> None | Some k \<Rightarrow> Some (get_details (mod_at c k)))"

definition get_all_mod_details :: "string \<Rightarrow> 'd ModContext \<Rightarrow> ModDetails list" where
  "get_all_mod_details game c = map (\<lambda>k. get_details (mod_at c k)) (filter (game_view game c) (opened_mods_order c))"

definition is_mod_enabled :: "string \<Rightarrow> 'd ModContext \<Rightarrow> bool" where
  "is_mod_enabled i c \<longleftrightarrow> i \<in> enabled_mods c"

definition is_mod_auto_enabled :: "string \<Rightarrow> 'd ModContext \<Rightarrow> bool" where
  "is_mod_auto_enabled i c \<longleftrightarrow> i \<in> auto_enabled_mods c"

definition num_opened_mods :: "'d ModContext \<Rightarrow> nat" where
  "num_opened_mods c = length (opened_mods c)"

definition get_mod_id_from_filename :: "string \<Rightarrow> 'd ModContext \<Rightarrow> string" where
  "get_mod_id_from_filename file c = (case opened_mods_by_filename c file of None \<Rightarrow> [] | Some k \<Rightarrow> id_at c k)"

definition get_mod_filename :: "string \<Rightarrow> 'd ModContext \<Rightarrow> string" where
  "get_mod_filename i c = (case opened_mods_by_id c i of None \<Rightarrow> [] | Some k \<Rightarrow> mod_root_path (manifest (mod_at c k)))"

text \<open>\<open>None\<close> is the index -1.\<close>

definition mod_order_index_of :: "string \<Rightarrow> 'd ModContext \<Rightarrow> nat option" where
  "mod_order_index_of i c = (case opened_mods_by_id c i of None \<Rightarrow> None | Some k \<Rightarrow> get_mod_order_index k c)"

definition get_mod_version :: "nat \<Rightarrow> 'd ModContext \<Rightarrow> Version" where
  "get_mod_version k c = version (manifest (mod_at c k))"

definition get_mod_display_name :: "nat \<Rightarrow> 'd ModContext \<Rightarrow> string" where
  "get_mod_display_name k c = display_name (manifest (mod_at c k))"

definition get_mod_path :: "nat \<Rightarrow> 'd ModContext \<Rightarrow> string" where
  "get_mod_path k c = mod_root_path (manifest (mod_at c k))"

definition get_mod_config_schema :: "string \<Rightarrow> 'd ModContext \<Rightarrow> 'd ConfigSchema" where
  "get_mod_config_schema i c = (case opened_mods_by_id c i of
     None \<Rightarrow> \<lparr>options = [], options_by_id = (\<lambda>_. None)\<rparr> | Some k \<Rightarrow> config_schema (manifest (mod_at c k)))"

definition get_mod_thumbnail :: "string \<Rightarrow> 'd ModContext \<Rightarrow> string" where
  "get_mod_thumbnail i c = (case opened_mods_by_id c i of None \<Rightarrow> [] | Some k \<Rightarrow> thumbnail (mod_at c k))"

definition set_config_value_of :: "string \<Rightarrow> string \<Rightarrow> 'd ConfigValue \<Rightarrow> 'd ModContext \<Rightarrow> 'd ModContext option" where
  "set_config_value_of i o_id v c = (case opened_mods_by_id c i of None \<Rightarrow> Some c | Some k \<Rightarrow> set_mod_config_value k o_id v c)"

definition get_config_value_of :: "string \<Rightarrow> string \<Rightarrow> 'd ModContext \<Rightarrow> 'd ConfigValue option" where
  "get_config_value_of i o_id c = (case opened_mods_by_id c i of None \<Rightarrow> Some VNone | Some k \<Rightarrow> get_mod_config_value k o_id c)"

section \<open>Setting and reading a value\<close>

text \<open>A value that fits its option is what the next reading gives; one that does not fit leaves the old value.\<close>

lemma set_value_fits:
  "find_option h key = Some op \<Longrightarrow> value_ok op v \<Longrightarrow> typed_option op \<Longrightarrow> set_value key v h = Some (store_value key v h)"
  by (cases "option_type op"; cases v; cases "variant op") (simp_all add: set_value_def value_ok_def typed_option_def)

theorem value_read_back:
  assumes "opened_mods_by_id c i = Some k" and "k < length (opened_mods c)" and "find_option (mod_at c k) key = Some op"
    and "typed_option op" and "value_ok op v"
  shows "\<exists>c'. set_config_value_of i key v c = Some c' \<and> get_config_value_of i key c' = Some v"
proof -
  have t: "option_type op \<noteq> NoneType" using assms(4) by (auto simp: typed_option_def)
  have "set_mod_config_value k key v c = Some (c\<lparr>opened_mods := (opened_mods c)[k := store_value key v (mod_at c k)],
      config_queue := config_queue c @ [SaveMod (mod_id (manifest (store_value key v (mod_at c k))))]\<rparr>)"
    using assms(2,3) t by (simp add: set_mod_config_value_def set_value_fits [OF assms(3,5,4)])
  then show ?thesis using assms(1,2)
    by (simp add: set_config_value_of_def get_config_value_of_def get_mod_config_value_def mod_at_def store_value_def update_conv')
qed

text \<open>The list of all mods after one was moved.\<close>

lemma opened_fire_reordered [simp]: "opened_mods (fire_reordered k c) = opened_mods c"
  unfolding fire_reordered_def by (rule fold_invariant [of "\<lambda>d. opened_mods d = opened_mods c"]) (auto split: option.split callback.split)

theorem details_after_move:
  assumes "opened_mods_by_id c i = Some m" and "distinct (opened_mods_order c)" and "m \<in> set (opened_mods_order c)"
  shows "let rest = remove1 m (opened_mods_order c) in
    map details_id (get_all_mod_details [] (set_mod_index [] i index c)) = map (id_at c) (take index rest @ m # drop index rest)"
proof -
  have o: "opened_mods (set_mod_index [] i index c) = opened_mods c"
    using assms(1) by (simp add: set_mod_index_def Let_def rebuild_mod_order_lookup_def split: prod.split)
  show ?thesis using mod_moves_to_index [OF assms, of index]
    by (simp add: get_all_mod_details_def game_view_def get_details_def id_at_def mod_at_def o Let_def)
qed

end
