(* ===== verification/ModClaims.thy ===== *)
theory ModClaims
  imports ModSaver ModVersions ModQueries "HOL-Library.Char_ord" "HOL-Library.List_Lexorder"
begin

text \<open>
  The properties of mods, each with a small example: a folder with three mods, of which the first needs the
  second and the second the third.
\<close>

section \<open>A small folder\<close>

definition demo_json :: "string \<Rightarrow> int json option" where
  "demo_json data = (let manifest = (\<lambda>i v deps en schema. Some (JObject ([(''game_id'', JString ''g''), (''id'', JString i), (''display_name'', JString i),
       (''version'', JString v), (''authors'', JArray []), (''minimum_recomp_version'', JString ''1.0.0''), (''dependencies'', JArray (map JString deps)),
       (''enabled_by_default'', JBool en)] @ schema))) in
     if data = ''A'' then manifest ''a'' ''1.0.0'' [''b:1.2.0''] True
       [(''config_schema'', JObject [(''options'', JArray [JObject [(''id'', JString ''vol''), (''name'', JString ''Volume''), (''type'', JString ''Number'')]])])]
     else if data = ''B'' then manifest ''b'' ''1.3.0'' [''c''] False []
     else if data = ''C'' then manifest ''c'' ''0.1.0'' [] False
       [(''config_schema'', JObject [(''options'', JArray [
          JObject [(''id'', JString ''x''), (''name'', JString ''X''), (''type'', JString ''Number'')],
          JObject [(''id'', JString ''x''), (''name'', JString ''X again''), (''type'', JString ''String'')],
          JObject [(''id'', JString ''y''), (''name'', JString ''Y''), (''type'', JString ''String'')]])])]
     else None)"

text \<open>Every archive holds its manifest only; the stored configuration of \<^verbatim>\<open>c\<close> has a string for \<^verbatim>\<open>x\<close>.\<close>

definition demo_mod_host :: "int host" where
  "demo_mod_host = \<lparr>json_parse = demo_json, dbl = (\<lambda>i. i), validate_id = (\<lambda>s. s \<noteq> []), path_stem = (\<lambda>p. p), path_file_name = (\<lambda>p. p),
     path_extension = (\<lambda>p. ''.nrm''), fs_exists = (\<lambda>_. True), fs_kind = (\<lambda>_. Some RegularFile),
     open_zip = (\<lambda>p. Inr \<lparr>read_file = (\<lambda>f. if f = ''mod.json'' then Some p else None), file_exists = (\<lambda>_. False)\<rparr>),
     open_zip_memory = (\<lambda>_. Inl InvalidZip), open_directory = (\<lambda>_. \<lparr>read_file = (\<lambda>_. None), file_exists = (\<lambda>_. False)\<rparr>),
     stored_config = (\<lambda>i. if i = ''c'' then Some (JObject [(''mod_id'', JString ''c''), (''storage'', JObject [(''x'', JString ''hello'')])]) else None)\<rparr>"

definition demo_iter :: "string set \<Rightarrow> string list" where
  "demo_iter = sorted_list_of_set"

definition scanned :: "int ModContext" where
  "scanned = (case scan_mod_folder demo_mod_host [''A'', ''B'', ''C''] (register_game ''g'' new_context) of
     None \<Rightarrow> register_game ''g'' new_context | Some (_, c) \<Rightarrow> c)"

definition demo_mods :: "int ModContext" where
  "demo_mods = load_mods_config demo_iter None scanned"

lemma demo_iter_law: "iter_law demo_iter"
  by (simp add: iter_law_def demo_iter_def)

lemma scanned_reach: "(mods_step demo_iter)\<^sup>*\<^sup>* new_context scanned"
proof -
  have "mods_step demo_iter new_context (register_game ''g'' new_context :: int ModContext)" by (rule mods_step.game)
  moreover have "(mods_step demo_iter)\<^sup>*\<^sup>* (register_game ''g'' new_context) scanned"
    unfolding scanned_def by (auto split: option.split intro: r_into_rtranclp mods_step.scan)
  ultimately show ?thesis by (rule converse_rtranclp_into_rtranclp)
qed

lemma demo_mods_reach: "(mods_step demo_iter)\<^sup>*\<^sup>* new_context demo_mods"
  unfolding demo_mods_def using scanned_reach mods_step.load_config by (rule rtranclp.rtrancl_into_rtrancl)

lemma demo_mods_facts:
  "map (id_at demo_mods) [0..<length (opened_mods demo_mods)] = [''a'', ''b'', ''c'']"
  by code_simp

section \<open>Automatically enabled mods\<close>

text \<open>
  C2. After every sequence of scans, changes of the selection, loads and saves, the mods enabled automatically are exactly those
  some enabled mod needs, directly or through other mods, whether or not they are installed.
\<close>

theorem auto_enabled_closure:
  assumes "iter_law iter" and "(mods_step iter)\<^sup>*\<^sup>* new_context c"
  shows "auto_enabled_mods c = (required c)\<^sup>+ `` enabled_mods c"
proof -
  have "auto_ok c" using assms(2)
  proof (induction rule: rtranclp_induct)
    case base
    show ?case by (simp add: auto_ok_def new_context_def register_content_type_def register_container_type_def empty_context_def)
  qed (rule auto_ok_step [OF assms(1)])
  then show ?thesis by (simp add: auto_ok_def)
qed

lemma demo_mods_enabled: "enabled_mods demo_mods = {''a''}" "auto_enabled_mods demo_mods = {''b'', ''c''}"
  by code_simp+

theorem auto_enabled_closure_witness: "(required demo_mods)\<^sup>+ `` {''a''} = {''b'', ''c''}"
  using auto_enabled_closure [OF demo_iter_law demo_mods_reach] by (simp add: demo_mods_enabled)

section \<open>Loading\<close>

text \<open>
  C37. A load that reports no error has every active mod's required dependencies among the active mods, in a
  version that is not older than required, and no active mod needs a newer runtime.
\<close>

theorem loaded_dependencies_met:
  assumes "load_mods pv load_code g c = ([], c')" and "map_of (mod_game_ids c) g = Some game"
    and "patched_funcs c = []" and "loaded_mods_by_id c = (\<lambda>_. None)"
    and "i < length (opened_mods c)" and "is_active game c i"
  shows "\<not> version_less pv (minimum_recomp_version (manifest (mod_at c i))) \<and>
    (\<forall>d \<in> set (deps_of c i). \<not> optional d \<longrightarrow> (\<exists>k < length (opened_mods c). is_active game c k \<and> id_at c k = dep_mod_id d \<and>
       \<not> version_less (version (manifest (mod_at c k))) (dep_version d)))"
proof -
  let ?c = "c\<lparr>loaded_code_mods := []\<rparr>"
  obtain active es c1 where p: "load_pass pv game ?c = (active, es, c1)" by (rule prod_cases3)
  obtain es2 c2 where q: "check_pass active c1 = (es2, c2)" by fastforce
  have none: "es = []" "es2 = []" using assms(1-3) p q by (auto simp: load_mods_def Let_def split: if_splits)
  have I: "pass_inv pv game ?c {0..<length (opened_mods ?c)} (active, es, c1)" by (rule load_pass_inv [OF _ p]) (simp add: assms(4))
  have same: "is_active game ?c k = is_active game c k" "id_at ?c k = id_at c k" "mod_at ?c k = mod_at c k" for k
    by (simp_all add: is_active_def id_at_def mod_at_def)
  have sel: "selection c1 = selection c" using I by (simp add: pass_inv_def)
  have act: "k \<in> set active \<longleftrightarrow> k < length (opened_mods c) \<and> is_active game c k" for k
    using I by (simp add: pass_inv_def same)
  have len: "length (opened_mods c1) = length (opened_mods c)" by (rule selection_nth(1) [OF sel])
  have "set active \<subseteq> {0..<length (opened_mods c1)}" by (rule subsetI) (simp add: act len)
  from check_pass_ok [OF q this none(2)] have ok: "\<forall>d \<in> set (deps_of c1 i). dependency_ok c1 d" using act [of i] assms(5,6) by simp
  have d: "deps_of c1 i = deps_of c i" using selection_deps [OF sel] len assms(5) by simp
  {
    fix d assume "d \<in> set (deps_of c i)" "\<not> optional d"
    then obtain l where l: "loaded_mods_by_id c1 (dep_mod_id d) = Some l" "\<not> version_less (version (manifest (mod_at c1 l))) (dep_version d)"
      using ok by (auto simp: d dependency_ok_def)
    then have "l \<in> set active" "id_at c l = dep_mod_id d" using I by (auto simp: pass_inv_def same)
    moreover have "l < length (opened_mods c1)" using \<open>l \<in> set active\<close> act [of l] len by simp
    ultimately have "\<exists>k < length (opened_mods c). is_active game c k \<and> id_at c k = dep_mod_id d \<and>
       \<not> version_less (version (manifest (mod_at c k))) (dep_version d)"
      using l(2) act [of l] selection_nth(2) [OF sel, of l] by (intro exI [of _ l]) simp
  }
  moreover have "\<not> version_less pv (minimum_recomp_version (manifest (mod_at c i)))" using I none(1) act [of i] assms(5,6) by (simp add: pass_inv_def same)
  ultimately show ?thesis by blast
qed

lemma demo_mods_unloaded: "loaded_mods_by_id demo_mods = (\<lambda>_. None)" "patched_funcs demo_mods = []"
proof -
  have f: "loaded_mods_by_id (fire_disabled i c) = loaded_mods_by_id c" for i and c :: "int ModContext" unfolding fire_disabled_def
    by (rule fold_invariant) (auto simp: run_callback_def on_code_mod_enabled_def split: option.split callback.split)
  have "loaded_mods_by_id scanned = loaded_mods_by_id (register_game ''g'' new_context :: int ModContext)"
  proof (cases "scan_mod_folder demo_mod_host [''A'', ''B'', ''C''] (register_game ''g'' new_context)")
    case (Some r)
    obtain es c where r: "r = (es, c)" by fastforce
    have "loaded_mods_by_id c = loaded_mods_by_id (register_game ''g'' new_context :: int ModContext)"
      by (rule scan_invariant [OF Some [unfolded r], of "\<lambda>d. loaded_mods_by_id d = loaded_mods_by_id (register_game ''g'' new_context)"])
         (auto simp: close_mods_def open_mod_from_manifest_def add_opened_mod_def Let_def split: option.splits sum.splits if_splits)
    then show ?thesis by (simp add: scanned_def Some r)
  qed (simp add: scanned_def)
  also have "\<dots> = (\<lambda>_. None)" by (simp add: register_game_def new_context_def register_content_type_def register_container_type_def empty_context_def)
  finally have s: "loaded_mods_by_id scanned = (\<lambda>_. None)" .
  have e: "loaded_mods_by_id (enable_mod demo_iter i True False c) = loaded_mods_by_id c" for i and c :: "int ModContext"
  proof -
    have "loaded_mods_by_id (fold fire_enabled is d) = loaded_mods_by_id d" for "is" and d :: "int ModContext"
      by (rule fold_invariant [of "\<lambda>e. loaded_mods_by_id e = loaded_mods_by_id d"]) simp_all
    then show ?thesis by (auto simp: enable_mod_def enable_def Let_def split: option.split prod.split)
  qed
  show "loaded_mods_by_id demo_mods = (\<lambda>_. None)" unfolding demo_mods_def load_mods_config_def
    by (auto simp: Let_def e s rebuild_mod_order_lookup_def intro!: fold_invariant [of "\<lambda>d. loaded_mods_by_id d = (\<lambda>_. None)"] split: prod.split)
  show "patched_funcs demo_mods = []" by code_simp
qed

definition demo_version :: Version where
  "demo_version = \<lparr>major = 1, minor = 0, patch = 0, suffix = []\<rparr>"

lemma demo_mods_load:
  "fst (load_mods demo_version (\<lambda>c. ([], c)) ''g'' demo_mods) = []" "map_of (mod_game_ids demo_mods) ''g'' = Some 0"
  "length (opened_mods demo_mods) = 3" "is_active 0 demo_mods 0" "map (\<lambda>d. (dep_mod_id d, optional d)) (deps_of demo_mods 0) = [(''b'', False)]"
  by code_simp+

theorem loaded_dependencies_met_witness:
  "\<exists>k < 3. is_active 0 demo_mods k \<and> id_at demo_mods k = ''b''"
proof -
  obtain c' where "load_mods demo_version (\<lambda>c. ([], c)) ''g'' demo_mods = ([], c')" using demo_mods_load(1) by (metis prod.collapse)
  from loaded_dependencies_met [OF this demo_mods_load(2) demo_mods_unloaded(2,1), of 0] demo_mods_load(3-5)
  show ?thesis by (auto simp: map_eq_Cons_conv)
qed

section \<open>Saving\<close>





















end
