(* ===== verification/ModHooks.thy ===== *)
theory ModHooks
  imports ModContext "HOL-Library.Multiset"
begin

text \<open>
  Events and hooks of mods (\<^verbatim>\<open>mod_events.cpp\<close>, \<^verbatim>\<open>mod_hooks.cpp\<close>): the tables of callbacks, their order, and what runs when an event
  fires or a hooked function is entered or left. A callback is a parameter: what it does to the context of the guest thread, the
  memory and the stack of saved contexts. \<open>None\<close> is the exit of the process or an access outside a table.
\<close>

section \<open>Tables\<close>

record 'f hook_slot =
  hooks :: "(nat \<times> 'f) list"
  is_return_hook :: bool

record 'f hook_tables =
  event_listeners :: "(nat \<times> 'f) list list"
  hook_slots :: "'f hook_slot list"

definition setup_events :: "nat \<Rightarrow> 'f hook_tables \<Rightarrow> 'f hook_tables" where
  "setup_events n s = s\<lparr>event_listeners := take n (event_listeners s) @ replicate (n - length (event_listeners s)) []\<rparr>"

definition register_event_callback :: "nat \<Rightarrow> nat \<Rightarrow> 'f \<Rightarrow> 'f hook_tables \<Rightarrow> 'f hook_tables option" where
  "register_event_callback e m f s = (if e < length (event_listeners s)
     then Some (s\<lparr>event_listeners := (event_listeners s)[e := event_listeners s ! e @ [(m, f)]]\<rparr>) else None)"

definition setup_hooks :: "nat \<Rightarrow> 'f hook_tables \<Rightarrow> 'f hook_tables" where
  "setup_hooks n s = s\<lparr>hook_slots := take n (hook_slots s) @ replicate (n - length (hook_slots s)) \<lparr>hooks = [], is_return_hook = False\<rparr>\<rparr>"

definition set_hook_type :: "nat \<Rightarrow> bool \<Rightarrow> 'f hook_tables \<Rightarrow> 'f hook_tables option" where
  "set_hook_type i ret s = (if i < length (hook_slots s)
     then Some (s\<lparr>hook_slots := (hook_slots s)[i := (hook_slots s ! i)\<lparr>is_return_hook := ret\<rparr>]\<rparr>) else None)"

definition register_hook :: "nat \<Rightarrow> nat \<Rightarrow> 'f \<Rightarrow> 'f hook_tables \<Rightarrow> 'f hook_tables option" where
  "register_hook i m f s = (if i < length (hook_slots s)
     then Some (s\<lparr>hook_slots := (hook_slots s)[i := (hook_slots s ! i)\<lparr>hooks := hooks (hook_slots s ! i) @ [(m, f)]\<rparr>]\<rparr>) else None)"

definition reset_events :: "'f hook_tables \<Rightarrow> 'f hook_tables" where
  "reset_events s = s\<lparr>event_listeners := []\<rparr>"

definition reset_hooks :: "'f hook_tables \<Rightarrow> 'f hook_tables" where
  "reset_hooks s = s\<lparr>hook_slots := []\<rparr>"

section \<open>Order\<close>

text \<open>The index -1 of a mod without a place in the order is the largest.\<close>

definition order_of :: "'d ModContext \<Rightarrow> nat \<Rightarrow> nat" where
  "order_of c m = (case get_mod_order_index m c of None \<Rightarrow> 2 ^ 64 - 1 | Some k \<Rightarrow> k)"

text \<open>\<^verbatim>\<open>std::sort\<close>, which leaves open how callbacks of the same mod are ordered.\<close>

definition sort_law :: "(('a \<Rightarrow> 'a \<Rightarrow> bool) \<Rightarrow> 'a list \<Rightarrow> 'a list) \<Rightarrow> bool" where
  "sort_law std_sort \<longleftrightarrow> (\<forall>key :: 'a \<Rightarrow> int. \<forall>xs. let ys = std_sort (\<lambda>a b. key a < key b) xs in
     mset ys = mset xs \<and> sorted_wrt (\<lambda>a b. key a \<le> key b) ys)"

definition finish_event_setup :: "((nat \<times> 'f \<Rightarrow> nat \<times> 'f \<Rightarrow> bool) \<Rightarrow> (nat \<times> 'f) list \<Rightarrow> (nat \<times> 'f) list) \<Rightarrow> 'd ModContext \<Rightarrow> 'f hook_tables \<Rightarrow> 'f hook_tables" where
  "finish_event_setup std_sort c s = s\<lparr>event_listeners :=
     map (std_sort (\<lambda>a b. order_of c (fst a) < order_of c (fst b))) (event_listeners s)\<rparr>"

definition finish_hook_setup :: "((nat \<times> 'f \<Rightarrow> nat \<times> 'f \<Rightarrow> bool) \<Rightarrow> (nat \<times> 'f) list \<Rightarrow> (nat \<times> 'f) list) \<Rightarrow> 'd ModContext \<Rightarrow> 'f hook_tables \<Rightarrow> 'f hook_tables" where
  "finish_hook_setup std_sort c s = s\<lparr>hook_slots := map (\<lambda>slot. slot\<lparr>hooks := std_sort (\<lambda>a b.
     if is_return_hook slot then order_of c (fst b) < order_of c (fst a) else order_of c (fst a) < order_of c (fst b)) (hooks slot)\<rparr>) (hook_slots s)\<rparr>"

section \<open>Running\<close>

type_synonym ('f, 'c, 'm) callback_effect = "'f \<Rightarrow> 'c \<times> 'm \<times> 'c list \<Rightarrow> 'c \<times> 'm \<times> 'c list"

text \<open>One callback, after which the context is restored from \<open>saved\<close>, which may look at the stack.\<close>

definition run_one :: "('f, 'c, 'm) callback_effect \<Rightarrow> ('c list \<Rightarrow> 'c) \<Rightarrow> nat \<times> 'f \<Rightarrow> 'c \<times> 'm \<times> 'c list \<Rightarrow> 'c \<times> 'm \<times> 'c list" where
  "run_one call saved cb st = (case call (snd cb) st of (_, mem, stack) \<Rightarrow> (saved stack, mem, stack))"

definition recomp_trigger_event :: "('f, 'c, 'm) callback_effect \<Rightarrow> 'f hook_tables \<Rightarrow> nat \<Rightarrow> 'c \<times> 'm \<times> 'c list \<Rightarrow> ('c \<times> 'm \<times> 'c list) option" where
  "recomp_trigger_event call s e st = (if length (event_listeners s) \<le> e then None
     else let fired_context = fst st in Some (fold (run_one call (\<lambda>_. fired_context)) (event_listeners s ! e) st))"

text \<open>The top of the stack is the end of the list.\<close>

definition run_hook :: "('f, 'c, 'm) callback_effect \<Rightarrow> 'f hook_tables \<Rightarrow> nat \<Rightarrow> 'c \<times> 'm \<times> 'c list \<Rightarrow> ('c \<times> 'm \<times> 'c list) option" where
  "run_hook call s i st = (if length (hook_slots s) \<le> i then None
     else (case st of (ctx, mem, stack) \<Rightarrow>
       (case fold (run_one call last) (hooks (hook_slots s ! i)) (ctx, mem, stack @ [ctx]) of
          (ctx, mem, stack) \<Rightarrow> Some (ctx, mem, butlast stack))))"

text \<open>What a return hook reads of the function it follows: the result registers of the saved context, narrowed.\<close>

record hook_ctx =
  r2 :: u64
  r3 :: u64

definition get_return_s32 :: "'x hook_ctx_scheme list \<Rightarrow> 'x hook_ctx_scheme \<Rightarrow> 'x hook_ctx_scheme" where
  "get_return_s32 stack c = c\<lparr>r2 := scast (ucast (r2 (last stack)) :: u32)\<rparr>"

definition get_return_s16 :: "'x hook_ctx_scheme list \<Rightarrow> 'x hook_ctx_scheme \<Rightarrow> 'x hook_ctx_scheme" where
  "get_return_s16 stack c = c\<lparr>r2 := scast (ucast (r2 (last stack)) :: u16)\<rparr>"

definition get_return_u16 :: "'x hook_ctx_scheme list \<Rightarrow> 'x hook_ctx_scheme \<Rightarrow> 'x hook_ctx_scheme" where
  "get_return_u16 stack c = c\<lparr>r2 := ucast (ucast (r2 (last stack)) :: u16)\<rparr>"

definition get_return_s8 :: "'x hook_ctx_scheme list \<Rightarrow> 'x hook_ctx_scheme \<Rightarrow> 'x hook_ctx_scheme" where
  "get_return_s8 stack c = c\<lparr>r2 := scast (ucast (r2 (last stack)) :: u8)\<rparr>"

definition get_return_u8 :: "'x hook_ctx_scheme list \<Rightarrow> 'x hook_ctx_scheme \<Rightarrow> 'x hook_ctx_scheme" where
  "get_return_u8 stack c = c\<lparr>r2 := ucast (ucast (r2 (last stack)) :: u8)\<rparr>"

definition get_return_s64 :: "'x hook_ctx_scheme list \<Rightarrow> 'x hook_ctx_scheme \<Rightarrow> 'x hook_ctx_scheme" where
  "get_return_s64 stack c = c\<lparr>r2 := scast (ucast (r2 (last stack)) :: u32), r3 := scast (ucast (r3 (last stack)) :: u32)\<rparr>"

section \<open>Order of callbacks\<close>

lemma sort_law_nat:
  assumes "sort_law std_sort"
  shows "mset (std_sort (\<lambda>a b. (f a :: nat) < f b) xs) = mset xs" "sorted_wrt (\<lambda>a b. f a \<le> f b) (std_sort (\<lambda>a b. f a < f b) xs)"
    "mset (std_sort (\<lambda>a b. f b < f a) xs) = mset xs" "sorted_wrt (\<lambda>a b. f b \<le> f a) (std_sort (\<lambda>a b. f b < f a) xs)"
  using assms [unfolded sort_law_def, rule_format, of "\<lambda>a. int (f a)" xs] assms [unfolded sort_law_def, rule_format, of "\<lambda>a. - int (f a)" xs]
  by (simp_all add: Let_def)

text \<open>
  After the setup the listeners of every event are those registered, in the order of their mods; hooks at the entry of
  a function too, and hooks at its return in the opposite order.
\<close>

theorem callbacks_in_mod_order:
  assumes "sort_law std_sort"
  shows "\<forall>ls \<in> set (event_listeners (finish_event_setup std_sort c s)). sorted_wrt (\<lambda>a b. order_of c (fst a) \<le> order_of c (fst b)) ls"
    and "map mset (event_listeners (finish_event_setup std_sort c s)) = map mset (event_listeners s)"
    and "\<forall>slot \<in> set (hook_slots (finish_hook_setup std_sort c s)). sorted_wrt (\<lambda>a b. if is_return_hook slot
        then order_of c (fst b) \<le> order_of c (fst a) else order_of c (fst a) \<le> order_of c (fst b)) (hooks slot)"
    and "map (\<lambda>slot. mset (hooks slot)) (hook_slots (finish_hook_setup std_sort c s)) = map (\<lambda>slot. mset (hooks slot)) (hook_slots s)"
proof -
  note law = sort_law_nat [OF assms, of "\<lambda>a. order_of c (fst a)"]
  have slot: "mset (std_sort (\<lambda>a b. if ret then order_of c (fst b) < order_of c (fst a) else order_of c (fst a) < order_of c (fst b)) hs) = mset hs"
    "sorted_wrt (\<lambda>a b. if ret then order_of c (fst b) \<le> order_of c (fst a) else order_of c (fst a) \<le> order_of c (fst b))
      (std_sort (\<lambda>a b. if ret then order_of c (fst b) < order_of c (fst a) else order_of c (fst a) < order_of c (fst b)) hs)" for ret hs
    by (cases ret; simp add: law)+
  show "\<forall>ls \<in> set (event_listeners (finish_event_setup std_sort c s)). sorted_wrt (\<lambda>a b. order_of c (fst a) \<le> order_of c (fst b)) ls"
    by (simp add: finish_event_setup_def law)
  show "map mset (event_listeners (finish_event_setup std_sort c s)) = map mset (event_listeners s)"
    by (simp add: finish_event_setup_def law)
  show "\<forall>slot \<in> set (hook_slots (finish_hook_setup std_sort c s)). sorted_wrt (\<lambda>a b. if is_return_hook slot
        then order_of c (fst b) \<le> order_of c (fst a) else order_of c (fst a) \<le> order_of c (fst b)) (hooks slot)"
    by (auto simp: finish_hook_setup_def slot)
  show "map (\<lambda>slot. mset (hooks slot)) (hook_slots (finish_hook_setup std_sort c s)) = map (\<lambda>slot. mset (hooks slot)) (hook_slots s)"
    by (simp add: finish_hook_setup_def slot)
qed

section \<open>Contexts\<close>

text \<open>A callback that keeps the stack of saved contexts, as nested hooks do.\<close>

definition keeps_stack :: "('f, 'c, 'm) callback_effect \<Rightarrow> bool" where
  "keeps_stack call \<longleftrightarrow> (\<forall>f st. snd (snd (call f st)) = snd (snd st))"

definition memory_after :: "('f, 'c, 'm) callback_effect \<Rightarrow> 'c \<Rightarrow> 'c list \<Rightarrow> (nat \<times> 'f) list \<Rightarrow> 'm \<Rightarrow> 'm" where
  "memory_after call ctx stack fs mem = fold (\<lambda>cb mem. fst (snd (call (snd cb) (ctx, mem, stack)))) fs mem"

lemma fold_callbacks:
  assumes "keeps_stack call" and "saved stack = ctx"
  shows "fold (run_one call saved) fs (ctx, mem, stack) = (ctx, memory_after call ctx stack fs mem, stack)"
proof (induction fs arbitrary: mem)
  case (Cons cb fs)
  have "snd (snd (call (snd cb) (ctx, mem, stack))) = stack" using assms(1) by (simp add: keeps_stack_def)
  then obtain ctx' mem' where c: "call (snd cb) (ctx, mem, stack) = (ctx', mem', stack)" by (cases "call (snd cb) (ctx, mem, stack)") simp
  have "run_one call saved cb (ctx, mem, stack) = (ctx, mem', stack)" by (simp add: run_one_def c assms(2))
  then show ?case using Cons.IH [of mem'] by (simp add: memory_after_def c)
qed (simp add: memory_after_def)

text \<open>
  Every callback of an event or a hook starts from the context of the guest at that point, and the guest goes on with
  it unchanged: callbacks act on the memory only.
\<close>

theorem callbacks_keep_context:
  assumes "keeps_stack call"
  shows "e < length (event_listeners s) \<Longrightarrow>
      recomp_trigger_event call s e (ctx, mem, stack) = Some (ctx, memory_after call ctx stack (event_listeners s ! e) mem, stack)"
    and "i < length (hook_slots s) \<Longrightarrow>
      run_hook call s i (ctx, mem, stack) = Some (ctx, memory_after call ctx (stack @ [ctx]) (hooks (hook_slots s ! i)) mem, stack)"
  using fold_callbacks [OF assms, of "\<lambda>_. ctx" stack ctx] fold_callbacks [OF assms, of last "stack @ [ctx]" ctx]
  by (simp_all add: recomp_trigger_event_def run_hook_def)

end
