(* ===== verification/GameRoms.thy ===== *)
theory GameRoms
  imports Prelude
begin

text \<open>
  The games of the runtime (\<^verbatim>\<open>recomp.cpp\<close>): registration, the check and import of a ROM in any of
  its byte orders, loading the imported ROM, and the hand-over of the selected game to the thread that runs it. The
  hash function is a parameter; files of the configuration directory are a map.
\<close>

section \<open>ROM images\<close>

record GameEntry =
  rom_hash :: u64
  internal_name :: "u8 list"
  game_id :: string
  is_enabled :: bool

definition stored_filename :: "GameEntry \<Rightarrow> string" where
  "stored_filename e = game_id e @ ''.z64''"

definition check_hash :: "(u8 list \<Rightarrow> u64) \<Rightarrow> u8 list \<Rightarrow> u64 \<Rightarrow> bool" where
  "check_hash hash rom_data expected_hash \<longleftrightarrow> hash rom_data = expected_hash"

definition first_rom_bytes :: "u8 list" where
  "first_rom_bytes = [0x80, 0x37, 0x12, 0x40]"

datatype ByteswapType = NotByteswapped | Byteswapped4 | Byteswapped2 | InvalidStart

definition rom_matches :: "u8 list \<Rightarrow> nat list \<Rightarrow> bool" where
  "rom_matches rom_data is \<longleftrightarrow> take 4 rom_data = map (\<lambda>i. first_rom_bytes ! i) is"

definition check_rom_start :: "u8 list \<Rightarrow> ByteswapType" where
  "check_rom_start rom_data =
     (if length rom_data < 4 then InvalidStart
      else if rom_matches rom_data [0, 1, 2, 3] then NotByteswapped
      else if rom_matches rom_data [3, 2, 1, 0] then Byteswapped4
      else if rom_matches rom_data [1, 0, 3, 2] then Byteswapped2
      else InvalidStart)"

text \<open>\<open>None\<close>: the last word is not complete and the loop reads past the end.\<close>

fun byteswap_data :: "nat \<Rightarrow> u8 list \<Rightarrow> u8 list option" where
  "byteswap_data index_xor [] = Some []"
| "byteswap_data index_xor (b0 # b1 # b2 # b3 # rest) = map_option
     ((@) ([b0, b1, b2, b3][0 XOR index_xor := b0, 1 XOR index_xor := b1, 2 XOR index_xor := b2, 3 XOR index_xor := b3]))
     (byteswap_data index_xor rest)"
| "byteswap_data index_xor _ = None"

definition round_up :: "u8 list \<Rightarrow> u8 list" where
  "round_up rom_data = rom_data @ replicate ((length rom_data + 3) div 4 * 4 - length rom_data) 0"

section \<open>Selecting and loading\<close>

datatype RomValidationError = GoodRom | FailedToOpen | NotARom | IncorrectRom | NotYet | IncorrectVersion | OtherError

record rom_state =
  game_roms :: "string \<rightharpoonup> GameEntry"
  stored_files :: "string \<rightharpoonup> u8 list"
  valid_game_roms :: "string set"
  current_rom :: "u8 list"

definition register_rom :: "GameEntry \<Rightarrow> rom_state \<Rightarrow> rom_state" where
  "register_rom e s = (case game_roms s (game_id e) of
     None \<Rightarrow> s\<lparr>game_roms := (game_roms s)(game_id e \<mapsto> e)\<rparr> | Some _ \<Rightarrow> s)"

text \<open>A file that cannot be read is empty.\<close>

definition read_stored :: "GameEntry \<Rightarrow> rom_state \<Rightarrow> u8 list" where
  "read_stored e s = (case stored_files s (stored_filename e) of None \<Rightarrow> [] | Some bytes \<Rightarrow> bytes)"

definition check_stored_rom :: "(u8 list \<Rightarrow> u64) \<Rightarrow> GameEntry \<Rightarrow> rom_state \<Rightarrow> bool \<times> rom_state" where
  "check_stored_rom hash e s = (if check_hash hash (read_stored e s) (rom_hash e) then (True, s)
     else (False, s\<lparr>stored_files := (stored_files s)(stored_filename e := None)\<rparr>))"

text \<open>\<open>entries\<close> are the registered games in the order of the hash map.\<close>

definition check_all_stored_roms :: "(u8 list \<Rightarrow> u64) \<Rightarrow> (string \<times> GameEntry) list \<Rightarrow> rom_state \<Rightarrow> rom_state" where
  "check_all_stored_roms hash entries s = fold (\<lambda>(i, e) s. case check_stored_rom hash e s of
     (True, s) \<Rightarrow> s\<lparr>valid_game_roms := insert i (valid_game_roms s)\<rparr> | (False, s) \<Rightarrow> s) entries s"

definition is_rom_valid :: "string \<Rightarrow> rom_state \<Rightarrow> bool" where
  "is_rom_valid i s \<longleftrightarrow> i \<in> valid_game_roms s"

definition load_stored_rom :: "(u8 list \<Rightarrow> u64) \<Rightarrow> string \<Rightarrow> rom_state \<Rightarrow> bool \<times> rom_state" where
  "load_stored_rom hash i s = (case game_roms s i of
     None \<Rightarrow> (False, s)
   | Some e \<Rightarrow> if check_hash hash (read_stored e s) (rom_hash e) then (True, s\<lparr>current_rom := read_stored e s\<rparr>)
       else (False, s\<lparr>stored_files := (stored_files s)(stored_filename e := None)\<rparr>))"

text \<open>The view of a name of \<open>n\<close> bytes in the header. \<open>None\<close>: it reaches past the data.\<close>

definition name_in_header :: "u8 list \<Rightarrow> nat \<Rightarrow> u8 list option" where
  "name_in_header rom_data n = (if 0x20 + n \<le> length rom_data then Some (take n (drop 0x20 rom_data)) else None)"

text \<open>\<open>written\<close>: the file could be written; the call does not look.\<close>

definition validate_rom :: "(u8 list \<Rightarrow> u64) \<Rightarrow> bool \<Rightarrow> GameEntry \<Rightarrow> rom_state \<Rightarrow> u8 list \<Rightarrow> (RomValidationError \<times> rom_state) option" where
  "validate_rom hash written e s rom_data =
     (if check_hash hash rom_data (rom_hash e) then
        Some (GoodRom, if written then s\<lparr>stored_files := (stored_files s)(stored_filename e \<mapsto> rom_data)\<rparr> else s)
      else (case name_in_header rom_data (length (internal_name e)) of
          None \<Rightarrow> None
        | Some name \<Rightarrow> if name = internal_name e then Some (IncorrectVersion, s)
            else if \<not> is_enabled e then Some (IncorrectRom, s)
            else (case name_in_header rom_data 19 of
                None \<Rightarrow> None
              | Some name \<Rightarrow> Some (if name = internal_name e then NotYet else IncorrectRom, s))))"

definition select_rom :: "(u8 list \<Rightarrow> u64) \<Rightarrow> bool \<Rightarrow> u8 list \<Rightarrow> string \<Rightarrow> rom_state \<Rightarrow> (RomValidationError \<times> rom_state) option" where
  "select_rom hash written contents i s = (case game_roms s i of
     None \<Rightarrow> Some (OtherError, s)
   | Some e \<Rightarrow> if contents = [] then Some (FailedToOpen, s)
       else (let rom_data = round_up contents; validate = validate_rom hash written e s in case check_rom_start rom_data of
           InvalidStart \<Rightarrow> Some (NotARom, s)
         | Byteswapped2 \<Rightarrow> Option.bind (byteswap_data 1 rom_data) validate
         | Byteswapped4 \<Rightarrow> Option.bind (byteswap_data 3 rom_data) validate
         | NotByteswapped \<Rightarrow> validate rom_data))"

section \<open>Starting a game\<close>

datatype GameStatus = NotStarted | Running | Quit

text \<open>The thread that runs the game: it waits, loads the ROM, looks the entry up, and is in the game. \<open>Died\<close>: an optional without
  a value was read, or an entry that is not registered.\<close>

datatype game_loc = WaitingForGame | LoadedRom | InGame string | Finished | Died

record game_state =
  roms :: rom_state
  game_status :: GameStatus
  current_game :: "string option"
  exited :: bool
  game_loc :: game_loc

definition start_game :: "string \<Rightarrow> game_state \<Rightarrow> game_state" where
  "start_game i s = s\<lparr>current_game := Some i, game_status := Running\<rparr>"

definition quit :: "game_state \<Rightarrow> game_state" where
  "quit s = s\<lparr>exited := True, game_status := (if game_status s = NotStarted then Quit else game_status s), current_game := None\<rparr>"

text \<open>
  A turn of the thread: \<^verbatim>\<open>wait_for_game_started\<close> up to its second look at the selected game, and the rest, where \<open>mods_ok\<close>
  says whether the mods loaded. \<open>None\<close>: it waits. A ROM that does not load is only reported.
\<close>

definition game_turn :: "(u8 list \<Rightarrow> u64) \<Rightarrow> bool \<Rightarrow> game_state \<Rightarrow> game_state option" where
  "game_turn hash mods_ok s = (case game_loc s of
     WaitingForGame \<Rightarrow> (case game_status s of
         NotStarted \<Rightarrow> None
       | Quit \<Rightarrow> Some (s\<lparr>game_loc := Finished\<rparr>)
       | Running \<Rightarrow> Some (case current_game s of
             None \<Rightarrow> s\<lparr>game_loc := Died\<rparr>
           | Some i \<Rightarrow> s\<lparr>roms := snd (load_stored_rom hash i (roms s)), game_loc := LoadedRom\<rparr>))
   | LoadedRom \<Rightarrow> Some (case current_game s of
         None \<Rightarrow> s\<lparr>game_loc := Died\<rparr>
       | Some i \<Rightarrow> (case game_roms (roms s) i of
           None \<Rightarrow> s\<lparr>game_loc := Died\<rparr>
         | Some e \<Rightarrow> if mods_ok then s\<lparr>game_loc := InGame i\<rparr> else s\<lparr>game_status := NotStarted, game_loc := WaitingForGame\<rparr>))
   | _ \<Rightarrow> None)"

inductive game_step :: "(u8 list \<Rightarrow> u64) \<Rightarrow> game_state \<Rightarrow> game_state \<Rightarrow> bool" for hash where
  starts: "i \<in> dom (game_roms (roms s)) \<Longrightarrow> game_step hash s (start_game i s)"
| quits: "game_step hash s (quit s)"
| selects: "select_rom hash written contents i (roms s) = Some (r, rs) \<Longrightarrow> game_step hash s (s\<lparr>roms := rs\<rparr>)"
| turns: "game_turn hash mods_ok s = Some s' \<Longrightarrow> game_step hash s s'"

definition waiting_for :: "rom_state \<Rightarrow> game_state" where
  "waiting_for rs = \<lparr>roms = rs, game_status = NotStarted, current_game = None, exited = False, game_loc = WaitingForGame\<rparr>"

section \<open>Byte orders\<close>

lemma byteswap_1 [simp]: "byteswap_data (Suc 0) (b0 # b1 # b2 # b3 # rest) = map_option ((@) [b1, b0, b3, b2]) (byteswap_data (Suc 0) rest)"
  by simp

lemma byteswap_3 [simp]: "byteswap_data 3 (b0 # b1 # b2 # b3 # rest) = map_option ((@) [b3, b2, b1, b0]) (byteswap_data 3 rest)"
  by simp

declare byteswap_data.simps(2) [simp del]

text \<open>Swapping twice gives the data back.\<close>

lemma byteswap_twice:
  "k = 1 \<or> k = 3 \<Longrightarrow> length bs mod 4 = 0 \<Longrightarrow> \<exists>bs'. byteswap_data k bs = Some bs' \<and> byteswap_data k bs' = Some bs \<and> length bs' = length bs"
proof (induction k bs rule: byteswap_data.induct)
  case (2 k b0 b1 b2 b3 rest)
  then obtain r where r: "byteswap_data k rest = Some r" "byteswap_data k r = Some rest" "length r = length rest" by auto
  show ?case using 2(2)
  proof
    assume k: "k = 1"
    show ?thesis using r unfolding k by auto
  next
    assume k: "k = 3"
    show ?thesis using r unfolding k by auto
  qed
qed simp_all

lemma round_up_mod: "length (round_up bs) mod 4 = 0"
  by (simp add: round_up_def)

lemma round_up_id: "length bs mod 4 = 0 \<Longrightarrow> round_up bs = bs"
  by (simp add: round_up_def) presburger

text \<open>
  A dump of a ROM is accepted in each of the three byte orders: with bytes swapped in halfwords or words the call
  gives the same answer and stores the same file as for the image itself.
\<close>

theorem byte_order_irrelevant:
  assumes "length bs mod 4 = 0" and "check_rom_start bs = NotByteswapped" and "k = 1 \<or> k = 3"
  shows "\<exists>dump. byteswap_data k bs = Some dump \<and> select_rom hash written dump i s = select_rom hash written bs i s"
proof -
  obtain dump where d: "byteswap_data k bs = Some dump" "byteswap_data k dump = Some bs" "length dump = length bs"
    using byteswap_twice [OF assms(3,1)] by blast
  have l: "\<not> length bs < 4" and m: "rom_matches bs [0, 1, 2, 3]" using assms(2) by (auto simp: check_rom_start_def split: if_splits)
  obtain rest where bs: "bs = 0x80 # 0x37 # 0x12 # 0x40 # rest"
    using l m by (auto simp: rom_matches_def first_rom_bytes_def numeral_eq_Suc Suc_le_length_iff not_less)
  have start: "check_rom_start dump = (if k = 1 then Byteswapped2 else Byteswapped4)"
    using assms(3) d(1) l d(3) by (auto simp: bs check_rom_start_def rom_matches_def first_rom_bytes_def)
  have "dump \<noteq> []" "bs \<noteq> []" using d(3) l by auto
  then show ?thesis using d assms start
    by (intro exI [of _ dump]) (auto simp: select_rom_def round_up_id Let_def split: option.split)
qed

section \<open>Imported ROMs\<close>

text \<open>A ROM that is accepted and written is the one the next start loads.\<close>

lemma select_good:
  assumes "select_rom hash True contents i s = Some (GoodRom, s')"
  shows "\<exists>e bs. game_roms s i = Some e \<and> hash bs = rom_hash e \<and> s' = s\<lparr>stored_files := (stored_files s)(stored_filename e \<mapsto> bs)\<rparr>"
  using assms by (auto simp: select_rom_def validate_rom_def check_hash_def Let_def bind_eq_Some_conv split: option.splits if_splits ByteswapType.splits)

theorem selected_rom_loads:
  assumes "select_rom hash True contents i s = Some (GoodRom, s')"
  shows "\<exists>e bs. game_roms s i = Some e \<and> hash bs = rom_hash e \<and> load_stored_rom hash i s' = (True, s'\<lparr>current_rom := bs\<rparr>)"
  using select_good [OF assms] by (auto simp: load_stored_rom_def read_stored_def check_hash_def)

text \<open>The answer \<open>NotYet\<close> is never given: where it is tested the name has been found different.\<close>

lemma name_in_header_length: "name_in_header bs n = Some name \<Longrightarrow> length name = n"
  by (auto simp: name_in_header_def split: if_splits)

lemma validate_not_yet: "validate_rom hash written e s bs \<noteq> Some (NotYet, s')"
proof
  assume "validate_rom hash written e s bs = Some (NotYet, s')"
  then obtain name where "name_in_header bs (length (internal_name e)) = Some name" "name \<noteq> internal_name e" "name_in_header bs 19 = Some (internal_name e)"
    by (auto simp: validate_rom_def split: option.splits if_splits)
  moreover from this have "length (internal_name e) = 19" by (auto dest: name_in_header_length)
  ultimately show False by simp
qed

theorem not_yet_never: "select_rom hash written contents i s \<noteq> Some (NotYet, s')"
  by (auto simp: select_rom_def validate_not_yet Let_def bind_eq_Some_conv split: option.splits ByteswapType.splits)

section \<open>Starting and quitting\<close>

text \<open>
  The thread of the game dies only when the runtime is told to quit between a start and the moment the thread has
  read the selected game.
\<close>

definition game_ok :: "game_state \<Rightarrow> bool" where
  "game_ok s \<longleftrightarrow> (current_game s = None \<longrightarrow> exited s \<or> game_status s = NotStarted \<and> game_loc s = WaitingForGame) \<and>
     (\<forall>i. current_game s = Some i \<longrightarrow> i \<in> dom (game_roms (roms s))) \<and> (game_loc s = Died \<longrightarrow> exited s)"

lemma select_keeps_games: "select_rom hash written contents i s = Some (r, s') \<Longrightarrow> game_roms s' = game_roms s"
  by (auto simp: select_rom_def validate_rom_def Let_def bind_eq_Some_conv split: option.splits if_splits ByteswapType.splits)

lemma load_keeps_games: "game_roms (snd (load_stored_rom hash i s)) = game_roms s"
  by (simp add: load_stored_rom_def split: option.split)

lemma game_ok_step: "game_step hash s s' \<Longrightarrow> game_ok s \<Longrightarrow> game_ok s'"
proof (induction rule: game_step.induct)
  case (turns mods_ok s s')
  then show ?case
    by (auto simp: game_turn_def game_ok_def load_keeps_games split: game_loc.splits GameStatus.splits option.splits if_splits)
qed (auto simp: game_ok_def start_game_def quit_def dest: select_keeps_games)

theorem game_dies_only_of_quit:
  assumes "(game_step hash)\<^sup>*\<^sup>* (waiting_for rs) s" and "game_loc s = Died"
  shows "exited s"
proof -
  have "game_ok s" using assms(1)
    by (induction rule: rtranclp_induct) (auto simp: game_ok_def waiting_for_def dest: game_ok_step [unfolded game_ok_def])
  then show ?thesis using assms(2) by (simp add: game_ok_def)
qed

text \<open>It does: a start followed by a quit kills it, while a quit without a start lets it finish.\<close>

theorem quit_kills_started_game:
  assumes "game_status s = NotStarted" and "game_loc s = WaitingForGame"
  shows "map_option game_loc (game_turn hash mods_ok (quit (start_game i s))) = Some Died"
    and "map_option game_loc (game_turn hash mods_ok (quit s)) = Some Finished"
  using assms by (simp_all add: game_turn_def quit_def start_game_def)

end
