(* ===== verification/LongLong.thy ===== *)
theory LongLong
  imports MipsInterp
begin

text \<open>
  The 64-bit routines the recompiler calls in place of those of libgcc and libultra (\<^verbatim>\<open>math_routines.cpp\<close>). Arguments and results are
  pairs of registers, the upper half first. \<open>None\<close> is behaviour C++ leaves undefined: division by zero, a
  quotient that does not fit, a shift by 64 or more. Floating-point conversions are parameters.
\<close>

section \<open>Routines\<close>

definition join64 :: "u64 \<Rightarrow> u64 \<Rightarrow> u64" where
  "join64 h l = push_bit 32 h OR (l AND 0xFFFFFFFF)"

definition return64 :: "'m cpu \<Rightarrow> u64 \<Rightarrow> 'm cpu" where
  "return64 c v = c\<lparr>R := (R c)(2 := sx32 (lo32 (drop_bit 32 v)), 3 := sx32 (lo32 v))\<rparr>"

definition arg_a :: "'m cpu \<Rightarrow> u64" where
  "arg_a c = join64 (R c 4) (R c 5)"

definition arg_b :: "'m cpu \<Rightarrow> u64" where
  "arg_b c = join64 (R c 6) (R c 7)"

definition udivdi3 :: "'m cpu \<Rightarrow> 'm cpu option" where
  "udivdi3 c = (if arg_b c = 0 then None else Some (return64 c (arg_a c div arg_b c)))"

definition divdi3 :: "'m cpu \<Rightarrow> 'm cpu option" where
  "divdi3 c = (let a = sint (arg_a c); b = sint (arg_b c) in
     if b = 0 \<or> a = - (2 ^ 63) \<and> b = - 1 then None else Some (return64 c (word_of_int (a sdiv b))))"

definition umoddi3 :: "'m cpu \<Rightarrow> 'm cpu option" where
  "umoddi3 c = (if arg_b c = 0 then None else Some (return64 c (arg_a c mod arg_b c)))"

definition ull_div :: "'m cpu \<Rightarrow> 'm cpu option" where
  "ull_div c = (if arg_b c = 0 then None else Some (return64 c (arg_a c div arg_b c)))"

definition ll_div :: "'m cpu \<Rightarrow> 'm cpu option" where
  "ll_div c = (let a = sint (arg_a c); b = sint (arg_b c) in
     if b = 0 \<or> a = - (2 ^ 63) \<and> b = - 1 then None else Some (return64 c (word_of_int (a sdiv b))))"

definition ll_mul :: "'m cpu \<Rightarrow> 'm cpu" where
  "ll_mul c = return64 c (arg_a c * arg_b c)"

definition ull_rem :: "'m cpu \<Rightarrow> 'm cpu option" where
  "ull_rem c = (if arg_b c = 0 then None else Some (return64 c (arg_a c mod arg_b c)))"

definition ull_rshift :: "'m cpu \<Rightarrow> 'm cpu option" where
  "ull_rshift c = (if 64 \<le> arg_b c then None else Some (return64 c (drop_bit (unat (arg_b c)) (arg_a c))))"

definition ll_lshift :: "'m cpu \<Rightarrow> 'm cpu option" where
  "ll_lshift c = (if 64 \<le> arg_b c then None else Some (return64 c (push_bit (unat (arg_b c)) (arg_a c))))"

definition ull_to_d :: "(u64 \<Rightarrow> u64) \<Rightarrow> 'm cpu \<Rightarrow> 'm cpu" where
  "ull_to_d double_of_u64 c = setF 0 (double_of_u64 (arg_a c)) c"

definition ull_to_f :: "(u64 \<Rightarrow> u32) \<Rightarrow> 'm cpu \<Rightarrow> 'm cpu" where
  "ull_to_f float_of_u64 c = setFl 0 (float_of_u64 (arg_a c)) c"

definition ll_to_f :: "(u64 \<Rightarrow> u32) \<Rightarrow> 'm cpu \<Rightarrow> 'm cpu" where
  "ll_to_f float_of_s64 c = setFl 0 (float_of_s64 (arg_a c)) c"

definition f_to_ll :: "(u32 \<Rightarrow> u64) \<Rightarrow> 'm cpu \<Rightarrow> 'm cpu" where
  "f_to_ll s64_of_float c = return64 c (s64_of_float (lo32 (F c 12)))"

section \<open>Results\<close>

text \<open>The result as the caller reads it.\<close>

definition ret64 :: "'m cpu \<Rightarrow> u64" where
  "ret64 c = join64 (R c 2) (R c 3)"

lemma join64_take: "join64 h l = push_bit 32 h OR take_bit 32 l"
  by (simp add: join64_def take_bit_eq_mask mask_eq_exp_minus_1)

lemma sx32_low: "n < 32 \<Longrightarrow> bit (sx32 x) n = bit x n"
  by (cases "n = 31") (auto simp: sx32_def bit_signed_iff)

lemma ret64_return64 [simp]: "ret64 (return64 c v) = v"
proof (rule bit_word_eqI)
  fix n
  assume n: "n < LENGTH(64)"
  show "bit (ret64 (return64 c v)) n = bit v n"
  proof (cases "n < 32")
    case True
    then show ?thesis
      by (simp add: ret64_def return64_def join64_take bit_or_iff bit_push_bit_iff bit_take_bit_iff sx32_low) (simp add: lo32_def bit_ucast_iff)
  next
    case False
    then have "bit (sx32 (lo32 (drop_bit 32 v))) (n - 32) = bit v n"
      using n by (subst sx32_low) (auto simp: lo32_def bit_ucast_iff bit_drop_bit_eq)
    then show ?thesis using False n
      by (simp add: ret64_def return64_def join64_take bit_or_iff bit_push_bit_iff bit_take_bit_iff)
  qed
qed

text \<open>Unsigned division and remainder: the quotient and the remainder of the arguments.\<close>

theorem unsigned_division:
  assumes "udivdi3 c = Some q" and "umoddi3 c = Some r"
  shows "uint (arg_a c) = uint (ret64 q) * uint (arg_b c) + uint (ret64 r) \<and> uint (ret64 r) < uint (arg_b c)"
proof -
  have b: "arg_b c \<noteq> 0" using assms(1) by (auto simp: udivdi3_def split: if_splits)
  then have "ret64 q = arg_a c div arg_b c" "ret64 r = arg_a c mod arg_b c" using assms by (auto simp: udivdi3_def umoddi3_def)
  moreover have "0 < uint (arg_b c)" using b by (metis unsigned_greater_eq unsigned_eq_0_iff order_le_neq_trans)
  ultimately show ?thesis by (simp add: uint_div_distrib uint_mod_distrib)
qed

text \<open>Signed division rounds to zero.\<close>

theorem signed_division:
  assumes "divdi3 c = Some q"
  shows "sint (ret64 q) = sint (arg_a c) sdiv sint (arg_b c)"
proof -
  let ?a = "sint (arg_a c)" and ?b = "sint (arg_b c)"
  have u: "\<not> (?a = - (2 ^ 63) \<and> ?b = - 1)" and r: "ret64 q = word_of_int (?a sdiv ?b)"
    using assms by (auto simp: divdi3_def Let_def split: if_splits)
  have a: "- (2 ^ 63) \<le> ?a" "?a < 2 ^ 63" using sint_ge [of "arg_a c"] sint_lt [of "arg_a c"] by simp_all
  have "?a sdiv ?b \<noteq> 2 ^ 63"
  proof
    assume e: "?a sdiv ?b = 2 ^ 63"
    then have m: "?a = - (2 ^ 63)" using sdiv_int_range [of ?a ?b] a by auto
    then have "?b = - 1" using e int_sdiv_negated_is_minus1 [of ?a ?b] by simp
    with m u show False by simp
  qed
  then have "- (2 ^ 63) \<le> ?a sdiv ?b" "?a sdiv ?b < 2 ^ 63" using sdiv_int_range [of ?a ?b] a by auto
  then show ?thesis unfolding r by (simp add: sint_sbintrunc' signed_take_bit_int_eq_self)
qed

text \<open>The product modulo \<open>2\<^sup>6\<^sup>4\<close>, which is the same for signed and unsigned arguments, and the shifts.\<close>

theorem product_modulo: "ret64 (ll_mul c) = word_of_int (sint (arg_a c) * sint (arg_b c))"
  by (simp add: ll_mul_def wi_hom_mult [symmetric])

theorem shifts:
  "ull_rshift c = Some d \<Longrightarrow> uint (ret64 d) = uint (arg_a c) div 2 ^ unat (arg_b c)"
  "ll_lshift c = Some d \<Longrightarrow> uint (ret64 d) = uint (arg_a c) * 2 ^ unat (arg_b c) mod 2 ^ 64"
proof -
  assume "ull_rshift c = Some d"
  then have "ret64 d = drop_bit (unat (arg_b c)) (arg_a c)" by (auto simp: ull_rshift_def split: if_splits)
  then show "uint (ret64 d) = uint (arg_a c) div 2 ^ unat (arg_b c)" by (simp only: unsigned_drop_bit_eq) (simp add: drop_bit_eq_div bintr_uint)
next
  assume "ll_lshift c = Some d"
  then have "ret64 d = push_bit (unat (arg_b c)) (arg_a c)" by (auto simp: ll_lshift_def split: if_splits)
  then show "uint (ret64 d) = uint (arg_a c) * 2 ^ unat (arg_b c) mod 2 ^ 64" by (simp only: unsigned_push_bit_eq) (simp add: push_bit_eq_mult take_bit_eq_mod)
qed

end
