(* ===== verification/TailCalls.thy ===== *)
theory TailCalls
  imports Prelude
begin

text \<open>
  The trampoline for tail calls of recompiled code (\<^verbatim>\<open>recomp_handle_tailcalls\<close> in \<^verbatim>\<open>recomp.cpp\<close>). Recompiled functions are a parameter:
  what a call does to the context, or \<open>None\<close> when it does not return. A run may go on forever, so the loop is a partial function.
\<close>

section \<open>The loop\<close>

text \<open>\<^verbatim>\<open>recomp_context\<close>: the fields of tail calls; \<open>other\<close> is the rest of the context together with the memory. \<open>ticks\<close>
  counts the calls of the scheduler's tick, \<open>breaks\<close> the counter \<^verbatim>\<open>g_host_return_break_count\<close>.\<close>

record ('f, 'o) tail_ctx =
  tailcall_pending :: bool
  tailcall_target :: u32
  tailcall_func :: "'f option"
  host_return_target :: u32
  tailcall_dispatching :: u32
  ticks :: nat
  breaks :: u64
  other :: 'o

definition take_tailcall :: "('f, 'o) tail_ctx \<Rightarrow> ('f, 'o) tail_ctx" where
  "take_tailcall c = c\<lparr>tailcall_pending := False, tailcall_target := 0, tailcall_func := None\<rparr>"

definition resolve_tailcall :: "(u32 \<Rightarrow> 'f) \<Rightarrow> ('f, 'o) tail_ctx \<Rightarrow> 'f" where
  "resolve_tailcall get_function c = (case tailcall_func c of None \<Rightarrow> get_function (tailcall_target c) | Some f \<Rightarrow> f)"

text \<open>The tick after every 4096th call; the counter is a 32-bit integer.\<close>

definition tick_after :: "u32 \<Rightarrow> ('f, 'o) tail_ctx \<Rightarrow> ('f, 'o) tail_ctx" where
  "tick_after n c = (if n AND 0xFFF = 0 then c\<lparr>ticks := ticks c + 1\<rparr> else c)"

partial_function (option) drain_tailcalls ::
  "(u32 \<Rightarrow> 'f) \<Rightarrow> ('f \<Rightarrow> ('f, 'o) tail_ctx \<Rightarrow> ('f, 'o) tail_ctx option) \<Rightarrow> u32 \<Rightarrow> ('f, 'o) tail_ctx \<Rightarrow> ('f, 'o) tail_ctx option" where
  "drain_tailcalls get_function call n c =
     (if \<not> tailcall_pending c then Some c
      else if tailcall_target c = host_return_target c then Some ((take_tailcall c)\<lparr>breaks := breaks c + 1\<rparr>)
      else Option.bind (call (resolve_tailcall get_function c) (take_tailcall c))
        (\<lambda>c. drain_tailcalls get_function call (n + 1) (tick_after (n + 1) c)))"

definition recomp_handle_tailcalls ::
  "(u32 \<Rightarrow> 'f) \<Rightarrow> ('f \<Rightarrow> ('f, 'o) tail_ctx \<Rightarrow> ('f, 'o) tail_ctx option) \<Rightarrow> ('f, 'o) tail_ctx \<Rightarrow> ('f, 'o) tail_ctx option" where
  "recomp_handle_tailcalls get_function call c =
     map_option (\<lambda>c. c\<lparr>tailcall_dispatching := tailcall_dispatching c - 1\<rparr>)
       (drain_tailcalls get_function call 0 (c\<lparr>tailcall_dispatching := tailcall_dispatching c + 1\<rparr>))"

section \<open>Specification\<close>

text \<open>The chain of calls without counters: each call leaves the next one pending, until none is, or the pending one is the return to the host.\<close>

inductive tail_chain for get_function call where
  settled: "\<not> tailcall_pending c \<Longrightarrow> tail_chain get_function call n c c"
| returned: "tailcall_pending c \<Longrightarrow> tailcall_target c = host_return_target c \<Longrightarrow>
    tail_chain get_function call n c ((take_tailcall c)\<lparr>breaks := breaks c + 1\<rparr>)"
| called: "tailcall_pending c \<Longrightarrow> tailcall_target c \<noteq> host_return_target c \<Longrightarrow>
    call (resolve_tailcall get_function c) (take_tailcall c) = Some c1 \<Longrightarrow>
    tail_chain get_function call (n + 1) (tick_after (n + 1) c1) c2 \<Longrightarrow> tail_chain get_function call n c c2"

lemma chain_drain: "tail_chain get_function call n c c' \<Longrightarrow> drain_tailcalls get_function call n c = Some c'"
  by (induction rule: tail_chain.induct) (subst drain_tailcalls.simps, simp)+

lemma drain_chain:
  assumes "drain_tailcalls get_function call n c = Some c'"
  shows "tail_chain get_function call n c c'"
proof (rule drain_tailcalls.raw_induct [where P = "\<lambda>g k n c r. tail_chain g k n c r", OF _ assms], goal_cases)
  case (1 drain g k n c r)
  show ?case
  proof (cases "tailcall_pending c \<and> tailcall_target c \<noteq> host_return_target c")
    case True
    then obtain c1 where "k (resolve_tailcall g c) (take_tailcall c) = Some c1" "drain g k (n + 1) (tick_after (n + 1) c1) = Some r"
      using 1(2) by (auto simp: bind_eq_Some_conv)
    then show ?thesis using True 1(1) by (blast intro: tail_chain.called)
  next
    case False
    then show ?thesis using 1(2) by (auto split: if_splits intro: tail_chain.settled tail_chain.returned)
  qed
qed

text \<open>The loop returns exactly when the chain of calls ends, with what the chain leaves.\<close>

theorem drain_is_chain: "drain_tailcalls get_function call n c = Some c' \<longleftrightarrow> tail_chain get_function call n c c'"
  using chain_drain drain_chain by blast

section \<open>Depth\<close>

definition balanced :: "('f \<Rightarrow> ('f, 'o) tail_ctx \<Rightarrow> ('f, 'o) tail_ctx option) \<Rightarrow> bool" where
  "balanced call \<longleftrightarrow> (\<forall>f c c'. call f c = Some c' \<longrightarrow> tailcall_dispatching c' = tailcall_dispatching c)"

lemma chain_depth: "tail_chain get_function call n c c' \<Longrightarrow> balanced call \<Longrightarrow> tailcall_dispatching c' = tailcall_dispatching c \<and> \<not> tailcall_pending c'"
  by (induction rule: tail_chain.induct) (auto simp: balanced_def take_tailcall_def tick_after_def)

text \<open>
  When the functions keep the depth, so does the trampoline, and it leaves no call pending; hence a function that itself
  ends in the trampoline keeps it too.
\<close>

theorem handle_tailcalls_balanced:
  assumes "balanced call" and "recomp_handle_tailcalls get_function call c = Some c'"
  shows "tailcall_dispatching c' = tailcall_dispatching c \<and> \<not> tailcall_pending c'"
  using assms(2) chain_depth [OF drain_chain assms(1)] by (auto simp: recomp_handle_tailcalls_def)

text \<open>A chain of calls of bounded length returns: if a measure falls with every call that leaves another one pending.\<close>

theorem handle_tailcalls_returns:
  fixes rank :: "('f, 'o) tail_ctx \<Rightarrow> nat"
  assumes "\<And>f c. \<exists>c'. call f c = Some c'"
    and "\<And>c c' n. tailcall_pending c \<Longrightarrow> call (resolve_tailcall get_function c) (take_tailcall c) = Some c' \<Longrightarrow> tailcall_pending c' \<Longrightarrow> rank (tick_after n c') < rank c"
  shows "\<exists>c'. recomp_handle_tailcalls get_function call c = Some c'"
proof -
  have "\<exists>c'. tail_chain get_function call n d c'" for n d
  proof (induction "rank d" arbitrary: n d rule: less_induct)
    case less
    obtain e where e: "call (resolve_tailcall get_function d) (take_tailcall d) = Some e" using assms(1) by blast
    show ?case
    proof (cases "tailcall_pending d \<and> tailcall_target d \<noteq> host_return_target d")
      case True
      have "\<exists>c'. tail_chain get_function call (n + 1) (tick_after (n + 1) e) c'"
      proof (cases "tailcall_pending e")
        case True
        with \<open>tailcall_pending d \<and> _\<close> less assms(2) [OF _ e] show ?thesis by blast
      next
        case False
        then have "\<not> tailcall_pending (tick_after (n + 1) e)" by (simp add: tick_after_def)
        then show ?thesis by (blast intro: tail_chain.settled)
      qed
      then show ?thesis using True e by (blast intro: tail_chain.called)
    next
      case False
      then show ?thesis by (blast intro: tail_chain.settled tail_chain.returned)
    qed
  qed
  then obtain c' where "tail_chain get_function call 0 (c\<lparr>tailcall_dispatching := tailcall_dispatching c + 1\<rparr>) c'" by blast
  then show ?thesis by (simp add: recomp_handle_tailcalls_def chain_drain)
qed

text \<open>A pending call to the address the host waits for is dropped: nothing is called and the loop ends.\<close>

theorem pending_return_dropped:
  assumes "tailcall_pending c" and "tailcall_target c = host_return_target c"
  shows "map_option other (recomp_handle_tailcalls get_function call c) = Some (other c)"
  using assms by (simp add: recomp_handle_tailcalls_def drain_tailcalls.simps take_tailcall_def)

end
