(* ===== verification/ContInput.thy ===== *)
theory ContInput
  imports Prelude
begin

text \<open>
  Controllers (\<^verbatim>\<open>ultramodern/input.cpp\<close>, \<^verbatim>\<open>cont.cpp\<close>): the presence scan, reading the pads and rumble, over the callbacks of
  the host, which are parameters (\<open>None\<close>: not registered). Arrays the calls fill are functions from the controller's index. The pads on the
  stack of the wrapper start with whatever is there, a parameter too.
\<close>

section \<open>State\<close>

datatype Device = NoDevice | Controller
datatype Pak = NoPak | RumblePak

record 'x input_callbacks =
  connected_device_info :: "(nat \<Rightarrow> Device \<times> Pak) option"
  poll_input :: bool
  get_input :: "(nat \<Rightarrow> (u16 \<times> 'x \<times> 'x) option) option"
  set_rumble :: bool

record OSContStatus =
  cont_type :: u16
  cont_status :: u8
  status_err_no :: u8

record OSContPad =
  button :: u16
  stick_x :: u8
  stick_y :: u8
  err_no :: u8

text \<open>\<open>si_messages\<close> counts the messages of the serial interface, \<open>polls\<close> and \<open>rumbles\<close> are calls of the host.\<close>

record cont_state =
  max_controllers :: nat
  si_messages :: nat
  polls :: nat
  rumbles :: "(u32 \<times> bool) list"

definition MAXCONTROLLERS :: nat where
  "MAXCONTROLLERS = 4"

definition CONT_NO_RESPONSE_ERROR :: u8 where
  "CONT_NO_RESPONSE_ERROR = 8"

section \<open>Presence\<close>

definition get_connected_device_info :: "'x input_callbacks \<Rightarrow> nat \<Rightarrow> Device \<times> Pak" where
  "get_connected_device_info cb k = (case connected_device_info cb of None \<Rightarrow> (NoDevice, NoPak) | Some f \<Rightarrow> f k)"

definition get_controller_type :: "Device \<Rightarrow> u16" where
  "get_controller_type d = (case d of NoDevice \<Rightarrow> 0 | Controller \<Rightarrow> 5)"

definition init_data_step :: "'x input_callbacks \<Rightarrow> nat \<Rightarrow> u8 \<times> (nat \<Rightarrow> OSContStatus) \<Rightarrow> u8 \<times> (nat \<Rightarrow> OSContStatus)" where
  "init_data_step cb k pd = (case (pd, get_connected_device_info cb k) of ((pattern, status), device, pak) \<Rightarrow>
     if device \<noteq> NoDevice
     then (pattern OR push_bit k 1, status(k := \<lparr>cont_type = get_controller_type device, cont_status = (if pak \<noteq> NoPak then 1 else 0), status_err_no = 0\<rparr>))
     else (pattern, status(k := (status k)\<lparr>status_err_no := CONT_NO_RESPONSE_ERROR\<rparr>)))"

definition osContGetInitData :: "'x input_callbacks \<Rightarrow> nat \<Rightarrow> (nat \<Rightarrow> OSContStatus) \<Rightarrow> u8 \<times> (nat \<Rightarrow> OSContStatus)" where
  "osContGetInitData cb n status = fold (init_data_step cb) [0..<n] (0, status)"

definition osContInit :: "'x input_callbacks \<Rightarrow> (nat \<Rightarrow> OSContStatus) \<Rightarrow> cont_state \<Rightarrow> (u8 \<times> (nat \<Rightarrow> OSContStatus)) \<times> cont_state" where
  "osContInit cb status s = (osContGetInitData cb MAXCONTROLLERS status, s\<lparr>max_controllers := MAXCONTROLLERS\<rparr>)"

definition osContSetCh :: "u8 \<Rightarrow> cont_state \<Rightarrow> cont_state" where
  "osContSetCh ch s = s\<lparr>max_controllers := min (unat ch) MAXCONTROLLERS\<rparr>"

definition osContStartQuery :: "cont_state \<Rightarrow> cont_state" where
  "osContStartQuery s = s\<lparr>si_messages := si_messages s + 1\<rparr>"

definition osContGetQuery :: "'x input_callbacks \<Rightarrow> (nat \<Rightarrow> OSContStatus) \<Rightarrow> cont_state \<Rightarrow> nat \<Rightarrow> OSContStatus" where
  "osContGetQuery cb status s = snd (osContGetInitData cb (max_controllers s) status)"

text \<open>The bitmap of \<^verbatim>\<open>osPfsIsPlug\<close>: ports with an accessory.\<close>

definition osPfsIsPlug :: "'x input_callbacks \<Rightarrow> u8" where
  "osPfsIsPlug cb = fold (\<lambda>k pattern. if snd (get_connected_device_info cb k) \<noteq> NoPak then pattern OR push_bit k 1 else pattern) [0..<4] 0"

section \<open>Pads\<close>

definition osContStartReadData :: "'x input_callbacks \<Rightarrow> cont_state \<Rightarrow> cont_state" where
  "osContStartReadData cb s = s\<lparr>polls := (if poll_input cb then polls s + 1 else polls s), si_messages := si_messages s + 1\<rparr>"

text \<open>\<open>axis\<close> scales a stick position to a byte.\<close>

definition read_pad :: "('x \<Rightarrow> u8) \<Rightarrow> 'x input_callbacks \<Rightarrow> nat \<Rightarrow> OSContPad \<Rightarrow> OSContPad" where
  "read_pad axis cb k pad = (case (case get_input cb of None \<Rightarrow> None | Some f \<Rightarrow> f k) of
     Some (buttons, x, y) \<Rightarrow> \<lparr>button = buttons, stick_x = axis x, stick_y = axis y, err_no = 0\<rparr>
   | None \<Rightarrow> pad\<lparr>err_no := CONT_NO_RESPONSE_ERROR\<rparr>)"

definition osContGetReadData :: "('x \<Rightarrow> u8) \<Rightarrow> 'x input_callbacks \<Rightarrow> cont_state \<Rightarrow> (nat \<Rightarrow> OSContPad) \<Rightarrow> nat \<Rightarrow> OSContPad" where
  "osContGetReadData axis cb s pads = fold (\<lambda>k pads. pads(k := read_pad axis cb k (pads k))) [0..<max_controllers s] pads"

text \<open>The wrapper: pads without an error are copied to the array of the guest.\<close>

definition osContGetReadData_recomp :: "('x \<Rightarrow> u8) \<Rightarrow> 'x input_callbacks \<Rightarrow> (nat \<Rightarrow> OSContPad) \<Rightarrow> cont_state \<Rightarrow> (nat \<Rightarrow> OSContPad) \<Rightarrow> nat \<Rightarrow> OSContPad" where
  "osContGetReadData_recomp axis cb stack_pads s guest = (let dummy_data = osContGetReadData axis cb s stack_pads in
     fold (\<lambda>k guest. if err_no (dummy_data k) = 0 then guest(k := dummy_data k) else guest) [0..<MAXCONTROLLERS] guest)"

section \<open>Rumble\<close>

text \<open>The channel of a Rumble Pak is the field \<^verbatim>\<open>OSPfs::channel\<close>, which \<^verbatim>\<open>osMotorInit\<close> sets to the controller.\<close>

definition osMotorAccess :: "'x input_callbacks \<Rightarrow> u32 \<Rightarrow> bool \<Rightarrow> cont_state \<Rightarrow> cont_state" where
  "osMotorAccess cb channel flag s = (if set_rumble cb then s\<lparr>rumbles := rumbles s @ [(channel, flag)]\<rparr> else s)"

definition osMotorStart :: "'x input_callbacks \<Rightarrow> u32 \<Rightarrow> cont_state \<Rightarrow> cont_state" where
  "osMotorStart cb channel s = osMotorAccess cb channel True s"

definition osMotorStop :: "'x input_callbacks \<Rightarrow> u32 \<Rightarrow> cont_state \<Rightarrow> cont_state" where
  "osMotorStop cb channel s = osMotorAccess cb channel False s"

section \<open>Presence scan\<close>

lemma init_data_bit: "k < 8 \<Longrightarrow> bit (fst (init_data_step cb j pd)) k \<longleftrightarrow> bit (fst pd) k \<or> k = j \<and> fst (get_connected_device_info cb j) \<noteq> NoDevice"
  by (auto simp: init_data_step_def bit_or_iff bit_exp_iff split: prod.split)

lemma init_data_scan:
  "k < 8 \<Longrightarrow> bit (fst (fold (init_data_step cb) ks pd)) k \<longleftrightarrow> bit (fst pd) k \<or> k \<in> set ks \<and> fst (get_connected_device_info cb k) \<noteq> NoDevice"
  by (induction ks arbitrary: pd) (auto simp: init_data_bit)

lemma init_data_status:
  "distinct ks \<Longrightarrow> snd (fold (init_data_step cb) ks pd) k = (if k \<in> set ks then snd (init_data_step cb k (0, snd pd)) k else snd pd k)"
proof (induction ks arbitrary: pd)
  case (Cons j ks)
  have "snd (init_data_step cb j pd) = (snd pd)(j := snd (init_data_step cb j (0, snd pd)) j)"
    by (auto simp: init_data_step_def fun_eq_iff split: prod.split)
  then show ?case using Cons by (auto simp: init_data_step_def split: prod.splits)
qed simp

text \<open>
  The bitmap of the scan has exactly the connected controllers among the first \<open>n\<close>; a controller that is absent gets the
  error and keeps its other fields, and entries beyond \<open>n\<close> are not touched.
\<close>

theorem presence_scan:
  assumes "n \<le> 8"
  shows "bit (fst (osContGetInitData cb n status)) k \<longleftrightarrow> k < n \<and> fst (get_connected_device_info cb k) \<noteq> NoDevice"
    and "snd (osContGetInitData cb n status) k = (if k < n
      then (case get_connected_device_info cb k of (device, pak) \<Rightarrow> if device = NoDevice then (status k)\<lparr>status_err_no := CONT_NO_RESPONSE_ERROR\<rparr>
        else \<lparr>cont_type = get_controller_type device, cont_status = (if pak \<noteq> NoPak then 1 else 0), status_err_no = 0\<rparr>) else status k)"
proof -
  show "bit (fst (osContGetInitData cb n status)) k \<longleftrightarrow> k < n \<and> fst (get_connected_device_info cb k) \<noteq> NoDevice"
  proof (cases "k < 8")
    case True
    then show ?thesis by (simp add: osContGetInitData_def init_data_scan)
  next
    case False
    then show ?thesis using assms bit_imp_le_length [of "fst (osContGetInitData cb n status)" k] by auto
  qed
  show "snd (osContGetInitData cb n status) k = (if k < n
      then (case get_connected_device_info cb k of (device, pak) \<Rightarrow> if device = NoDevice then (status k)\<lparr>status_err_no := CONT_NO_RESPONSE_ERROR\<rparr>
        else \<lparr>cont_type = get_controller_type device, cont_status = (if pak \<noteq> NoPak then 1 else 0), status_err_no = 0\<rparr>) else status k)"
    by (simp add: osContGetInitData_def init_data_status init_data_step_def split: prod.split)
qed

section \<open>Reading\<close>

lemma fold_pads: "distinct ks \<Longrightarrow> fold (\<lambda>k pads. pads(k := f k (pads k))) ks pads k = (if k \<in> set ks then f k (pads k) else pads k)"
  by (induction ks arbitrary: pads) auto

lemma fold_copy: "distinct ks \<Longrightarrow> fold (\<lambda>k guest. if P k then guest(k := d k) else guest) ks guest k = (if k \<in> set ks \<and> P k then d k else guest k)"
  by (induction ks arbitrary: guest) auto

text \<open>A pad that answers reaches the guest; one that does not leaves the guest's entry as it was, with its old error number.\<close>

theorem pads_read:
  assumes "k < max_controllers s" and "max_controllers s \<le> MAXCONTROLLERS"
  shows "osContGetReadData_recomp axis cb stack_pads s guest k = (case get_input cb of
      None \<Rightarrow> guest k
    | Some f \<Rightarrow> (case f k of None \<Rightarrow> guest k | Some (buttons, x, y) \<Rightarrow> \<lparr>button = buttons, stick_x = axis x, stick_y = axis y, err_no = 0\<rparr>))"
proof -
  have "osContGetReadData axis cb s stack_pads k = read_pad axis cb k (stack_pads k)"
    using assms(1) by (simp add: osContGetReadData_def fold_pads)
  then show ?thesis using assms
    by (auto simp: osContGetReadData_recomp_def Let_def fold_copy read_pad_def CONT_NO_RESPONSE_ERROR_def MAXCONTROLLERS_def split: option.split)
qed

text \<open>
  After \<^verbatim>\<open>osContSetCh\<close> with fewer channels the wrapper copies entries of its own array it never filled: what is on the
  stack goes to the guest, behind the pads it has room for, whenever the stray error number is zero.
\<close>

theorem stray_pads_copied:
  assumes "max_controllers s \<le> k" and "k < MAXCONTROLLERS"
  shows "osContGetReadData_recomp axis cb stack_pads s guest k = (if err_no (stack_pads k) = 0 then stack_pads k else guest k)"
proof -
  have "osContGetReadData axis cb s stack_pads k = stack_pads k" using assms(1) by (simp add: osContGetReadData_def fold_pads)
  then show ?thesis using assms(2) by (simp add: osContGetReadData_recomp_def Let_def fold_copy)
qed

end
