(* ===== verification/AudioUaf.thy ===== *)
theory AudioUaf
  imports Prelude
begin

text \<open>
  Voices of the game's audio library whose sample data is about to be freed (\<^verbatim>\<open>audio_uaf_protect.cpp\<close>): the runtime walks the
  intrusive lists of voices in guest memory and stops those that play from the range. RDRAM is a map from host offsets to bytes, in
  which every word is byte-swapped. The rings that record what voices do are diagnostics and not modelled.
\<close>

section \<open>Guest memory\<close>

type_synonym ram = "u32 \<Rightarrow> u8"

definition in_rdram_kseg0 :: "u32 \<Rightarrow> bool" where
  "in_rdram_kseg0 vaddr \<longleftrightarrow> 0x80000000 \<le> vaddr \<and> vaddr < 0x80800000"

definition to_paddr :: "u32 \<Rightarrow> u32" where
  "to_paddr vaddr = vaddr AND 0x1FFFFFFF"

definition load_be32 :: "ram \<Rightarrow> u32 \<Rightarrow> u32" where
  "load_be32 m p = push_bit 24 (ucast (m ((p + 0) XOR 3))) OR push_bit 16 (ucast (m ((p + 1) XOR 3))) OR
     push_bit 8 (ucast (m ((p + 2) XOR 3))) OR ucast (m ((p + 3) XOR 3))"

definition store_be32 :: "ram \<Rightarrow> u32 \<Rightarrow> u32 \<Rightarrow> ram" where
  "store_be32 m p v = m((p + 0) XOR 3 := ucast (drop_bit 24 v), (p + 1) XOR 3 := ucast (drop_bit 16 v),
     (p + 2) XOR 3 := ucast (drop_bit 8 v), (p + 3) XOR 3 := ucast v)"

section \<open>Layouts\<close>

record VoiceLayout =
  n_syn_var_vaddr :: u32
  alloc_list_offset :: u32
  lame_list_offset :: u32
  voice_em_motion_offset :: u32
  voice_dc_table_offset :: u32
  voice_em_motion_stopped_value :: u32
  max_voice_count :: u32

record SecondaryVoiceTableLayout =
  count_vaddr :: u32
  array_ptr_vaddr :: u32
  voice_size :: u16
  second_max_voice_count :: u16
  chain_step_count :: u8
  chain_offsets :: "u8 list"
  silence_field_offset :: u16
  silence_value :: u32

definition kSkipList :: u32 where
  "kSkipList = 0xFFFFFFFF"

text \<open>Zero: no layout is registered, or a pointer is not in RDRAM.\<close>

definition resolve_synth :: "VoiceLayout option \<Rightarrow> ram \<Rightarrow> u32" where
  "resolve_synth layout m = (case layout of
     None \<Rightarrow> 0
   | Some L \<Rightarrow> if \<not> in_rdram_kseg0 (n_syn_var_vaddr L) then 0
       else let synth_v = load_be32 m (to_paddr (n_syn_var_vaddr L)) in if in_rdram_kseg0 synth_v then synth_v else 0)"

section \<open>The walk\<close>

text \<open>The loop over one list; \<open>n\<close> is the number of turns left.\<close>

fun walk_nodes :: "nat \<Rightarrow> (u32 \<Rightarrow> ram \<Rightarrow> bool \<times> ram) \<Rightarrow> u32 \<Rightarrow> u32 \<Rightarrow> int \<Rightarrow> ram \<Rightarrow> int \<times> ram" where
  "walk_nodes 0 visit list_head node silenced m = (silenced, m)"
| "walk_nodes (Suc n) visit list_head node silenced m =
     (if node \<noteq> list_head \<and> in_rdram_kseg0 node
      then (case visit node m of (hit, m) \<Rightarrow>
        walk_nodes n visit list_head (load_be32 m (to_paddr node)) (if hit then silenced + 1 else silenced) m)
      else (silenced, m))"

definition walk_list :: "u32 \<Rightarrow> u32 \<Rightarrow> u32 \<Rightarrow> (u32 \<Rightarrow> ram \<Rightarrow> bool \<times> ram) \<Rightarrow> ram \<Rightarrow> int \<times> ram" where
  "walk_list synth_v list_offset max_voices visit m =
     (if list_offset = kSkipList then (0, m)
      else let list_head = synth_v + list_offset in
        if \<not> in_rdram_kseg0 list_head then (0, m)
        else walk_nodes (unat max_voices) visit list_head (load_be32 m (to_paddr list_head)) 0 m)"

definition em_motion :: "VoiceLayout \<Rightarrow> u32 \<Rightarrow> u32" where
  "em_motion L voice_v = to_paddr voice_v + voice_em_motion_offset L"

definition dc_table :: "VoiceLayout \<Rightarrow> u32 \<Rightarrow> u32" where
  "dc_table L voice_v = to_paddr voice_v + voice_dc_table_offset L"

definition stop_voice :: "VoiceLayout \<Rightarrow> u32 \<Rightarrow> ram \<Rightarrow> ram" where
  "stop_voice L voice_v m = store_be32 m (em_motion L voice_v) (voice_em_motion_stopped_value L)"

definition plays_from :: "VoiceLayout \<Rightarrow> u32 \<Rightarrow> u32 \<Rightarrow> ram \<Rightarrow> u32 \<Rightarrow> bool" where
  "plays_from L start_vaddr end_vaddr m voice_v \<longleftrightarrow>
     start_vaddr \<le> load_be32 m (dc_table L voice_v) \<and> load_be32 m (dc_table L voice_v) < end_vaddr"

definition visit_in_range :: "VoiceLayout \<Rightarrow> u32 \<Rightarrow> u32 \<Rightarrow> u32 \<Rightarrow> ram \<Rightarrow> bool \<times> ram" where
  "visit_in_range L start_vaddr end_vaddr voice_v m = (if plays_from L start_vaddr end_vaddr m voice_v then (True, stop_voice L voice_v m) else (False, m))"

definition silence_lists :: "VoiceLayout \<Rightarrow> u32 \<Rightarrow> (u32 \<Rightarrow> ram \<Rightarrow> bool \<times> ram) \<Rightarrow> ram \<Rightarrow> int \<times> ram" where
  "silence_lists L synth_v visit m = (case walk_list synth_v (alloc_list_offset L) (max_voice_count L) visit m of (a, m) \<Rightarrow>
     (case walk_list synth_v (lame_list_offset L) (max_voice_count L) visit m of (b, m) \<Rightarrow> (a + b, m)))"

definition silence_voices_in_range :: "VoiceLayout option \<Rightarrow> u32 \<Rightarrow> u32 \<Rightarrow> ram \<Rightarrow> int \<times> ram" where
  "silence_voices_in_range layout start_vaddr end_vaddr m =
     (if end_vaddr \<le> start_vaddr then (0, m)
      else let synth_v = resolve_synth layout m in case layout of
          Some L \<Rightarrow> if synth_v = 0 then (-1, m) else silence_lists L synth_v (visit_in_range L start_vaddr end_vaddr) m
        | None \<Rightarrow> (-1, m))"

definition silence_all_voices :: "VoiceLayout option \<Rightarrow> ram \<Rightarrow> int \<times> ram" where
  "silence_all_voices layout m = (let synth_v = resolve_synth layout m in case layout of
       Some L \<Rightarrow> if synth_v = 0 then (-1, m) else silence_lists L synth_v (\<lambda>voice_v m. (True, stop_voice L voice_v m)) m
     | None \<Rightarrow> (-1, m))"

section \<open>The secondary table\<close>

text \<open>Following the pointers of one voice; \<open>None\<close>: one of them leaves RDRAM.\<close>

fun follow_chain :: "ram \<Rightarrow> u8 list \<Rightarrow> u32 \<Rightarrow> u32 option" where
  "follow_chain m [] cur_v = Some cur_v"
| "follow_chain m (off # offs) cur_v = (let step_addr = cur_v + ucast off in
     if \<not> in_rdram_kseg0 step_addr then None
     else let cur_v = load_be32 m (to_paddr step_addr) in
       if offs \<noteq> [] \<and> \<not> in_rdram_kseg0 cur_v then None else follow_chain m offs cur_v)"

definition visit_second :: "SecondaryVoiceTableLayout \<Rightarrow> u32 \<Rightarrow> u32 \<Rightarrow> u32 \<Rightarrow> nat \<Rightarrow> int \<times> ram \<Rightarrow> int \<times> ram" where
  "visit_second L array_p start_vaddr end_vaddr i sm = (case sm of (silenced, m) \<Rightarrow>
     let voice_p = array_p + of_nat i * ucast (voice_size L) in
     case follow_chain m (take (unat (chain_step_count L)) (chain_offsets L)) (0x80000000 OR (voice_p AND 0x1FFFFFFF)) of
       None \<Rightarrow> (silenced, m)
     | Some cur_v \<Rightarrow> if start_vaddr \<le> cur_v \<and> cur_v < end_vaddr
         then (silenced + 1, store_be32 m (voice_p + ucast (silence_field_offset L)) (silence_value L)) else (silenced, m))"

definition silence_secondary_in_range :: "SecondaryVoiceTableLayout option \<Rightarrow> u32 \<Rightarrow> u32 \<Rightarrow> ram \<Rightarrow> int \<times> ram" where
  "silence_secondary_in_range layout start_vaddr end_vaddr m =
     (if end_vaddr \<le> start_vaddr then (0, m) else case layout of
        None \<Rightarrow> (0, m)
      | Some L \<Rightarrow>
          if 4 < chain_step_count L then (-1, m)
          else if \<not> in_rdram_kseg0 (count_vaddr L) \<or> \<not> in_rdram_kseg0 (array_ptr_vaddr L) then (-1, m)
          else let n = load_be32 m (to_paddr (count_vaddr L)) in
            if n = 0 \<or> ucast (second_max_voice_count L) < n then (0, m)
            else let array_v = load_be32 m (to_paddr (array_ptr_vaddr L)) in
              if \<not> in_rdram_kseg0 array_v then (0, m)
              else fold (visit_second L (to_paddr array_v) start_vaddr end_vaddr) [0..<unat n] (0, m))"

section \<open>Words in memory\<close>

definition words_apart :: "u32 \<Rightarrow> u32 \<Rightarrow> bool" where
  "words_apart p q \<longleftrightarrow> (\<forall>i \<in> {0, 1, 2, 3}. \<forall>j \<in> {0, 1, 2, 3}. p + i \<noteq> q + j)"

lemma xor_same_iff: "(a :: u32) XOR c = b XOR c \<longleftrightarrow> a = b"
  by (metis xor.assoc xor.right_neutral xor_self_eq)

lemma bytes_of_word: "push_bit 24 (ucast (ucast (drop_bit 24 v) :: u8)) OR push_bit 16 (ucast (ucast (drop_bit 16 v) :: u8)) OR
    push_bit 8 (ucast (ucast (drop_bit 8 v) :: u8)) OR ucast (ucast v :: u8) = (v :: u32)" (is "?l = v")
proof (rule bit_word_eqI)
  fix n
  assume n: "n < LENGTH(32)"
  then consider "n < 8" | "8 \<le> n" "n < 16" | "16 \<le> n" "n < 24" | "24 \<le> n" "n < 32" by force
  then show "bit ?l n = bit v n"
    by cases (auto simp: bit_or_iff bit_push_bit_iff bit_ucast_iff bit_drop_bit_eq)
qed

lemma load_store_same [simp]: "load_be32 (store_be32 m p v) p = v"
  by (simp add: load_be32_def store_be32_def xor_same_iff bytes_of_word [simplified])

lemma store_other: "\<forall>i \<in> {0, 1, 2, 3}. p + i \<noteq> a \<Longrightarrow> store_be32 m p v (a XOR 3) = m (a XOR 3)"
  by (auto simp: store_be32_def xor_same_iff)

lemma load_store_apart:
  assumes "words_apart p q"
  shows "load_be32 (store_be32 m p v) q = load_be32 m q"
proof -
  have byte: "store_be32 m p v ((q + j) XOR 3) = m ((q + j) XOR 3)" if "j \<in> {0, 1, 2, 3}" for j
    by (rule store_other) (use assms that in \<open>unfold words_apart_def, blast\<close>)
  have "store_be32 m p v (q XOR 3) = m (q XOR 3)" using byte [of 0] by simp
  then show ?thesis using byte [of 1] byte [of 2] byte [of 3] unfolding load_be32_def by simp
qed

section \<open>Well-formed lists\<close>

text \<open>The nodes a walk meets: from \<open>node\<close> through RDRAM, following the first word of each, to the head of the list.\<close>

fun voice_path :: "ram \<Rightarrow> u32 \<Rightarrow> u32 list \<Rightarrow> u32 \<Rightarrow> bool" where
  "voice_path m node [] list_head \<longleftrightarrow> node = list_head"
| "voice_path m node (v # vs) list_head \<longleftrightarrow> node = v \<and> v \<noteq> list_head \<and> in_rdram_kseg0 v \<and> voice_path m (load_be32 m (to_paddr v)) vs list_head"

text \<open>Stopping a voice touches neither a link nor a sample pointer, nor the motion of another voice.\<close>

definition separate :: "VoiceLayout \<Rightarrow> u32 set \<Rightarrow> bool" where
  "separate L vs \<longleftrightarrow> (\<forall>v \<in> vs. \<forall>w \<in> vs. words_apart (em_motion L v) (to_paddr w) \<and> words_apart (em_motion L v) (dc_table L w) \<and>
     (v \<noteq> w \<longrightarrow> words_apart (em_motion L v) (em_motion L w)))"

definition stop_all :: "VoiceLayout \<Rightarrow> u32 list \<Rightarrow> ram \<Rightarrow> ram" where
  "stop_all L vs m = fold (stop_voice L) vs m"

lemma stop_voice_apart: "words_apart (em_motion L v) q \<Longrightarrow> load_be32 (stop_voice L v m) q = load_be32 m q"
  by (simp add: stop_voice_def load_store_apart)

lemma stop_all_apart: "\<forall>v \<in> set vs. words_apart (em_motion L v) q \<Longrightarrow> load_be32 (stop_all L vs m) q = load_be32 m q"
  by (induction vs arbitrary: m) (simp_all add: stop_all_def stop_voice_apart)

lemma stop_all_stops:
  assumes "distinct vs" "v \<in> set vs" "separate L V" "set vs \<subseteq> V"
  shows "load_be32 (stop_all L vs m) (em_motion L v) = voice_em_motion_stopped_value L"
  using assms
proof (induction vs arbitrary: m)
  case (Cons w vs)
  show ?case
  proof (cases "v = w")
    case True
    have "\<forall>u \<in> set vs. words_apart (em_motion L u) (em_motion L v)" using Cons.prems True by (auto simp: separate_def)
    from stop_all_apart [OF this] show ?thesis by (simp add: stop_all_def True stop_voice_def)
  next
    case False
    then show ?thesis using Cons.IH [of "stop_voice L w m"] Cons.prems by (simp add: stop_all_def)
  qed
qed simp

lemma voice_path_cong: "(\<And>v. v \<in> set vs \<Longrightarrow> load_be32 m' (to_paddr v) = load_be32 m (to_paddr v)) \<Longrightarrow> voice_path m' node vs list_head = voice_path m node vs list_head"
  by (induction vs arbitrary: node) simp_all

text \<open>What a visitor does to one voice: it stops it or leaves it, and that depends on nothing stopping changes.\<close>

definition visits_stop :: "VoiceLayout \<Rightarrow> u32 set \<Rightarrow> (u32 \<Rightarrow> ram \<Rightarrow> bool \<times> ram) \<Rightarrow> (ram \<Rightarrow> u32 \<Rightarrow> bool) \<Rightarrow> bool" where
  "visits_stop L V visit hit \<longleftrightarrow> (\<forall>v \<in> V. \<forall>m. visit v m = (if hit m v then (True, stop_voice L v m) else (False, m))) \<and>
     (\<forall>u \<in> V. \<forall>v \<in> V. \<forall>m. hit (stop_voice L u m) v = hit m v)"

lemma walk_stops:
  assumes "visits_stop L V visit hit" and "separate L V"
  shows "voice_path m node vs list_head \<Longrightarrow> set vs \<subseteq> V \<Longrightarrow> length vs \<le> n \<Longrightarrow>
    walk_nodes n visit list_head node k m = (k + int (length (filter (hit m) vs)), stop_all L (filter (hit m) vs) m)"
proof (induction vs arbitrary: m node n k)
  case Nil
  then show ?case by (cases n) (simp_all add: stop_all_def)
next
  case (Cons v vs)
  then obtain n' where n: "n = Suc n'" "length vs \<le> n'" by (cases n) auto
  have v: "v \<in> V" "node = v" "v \<noteq> list_head" "in_rdram_kseg0 v" "voice_path m (load_be32 m (to_paddr v)) vs list_head" using Cons.prems by auto
  have link: "load_be32 (stop_voice L v m) (to_paddr w) = load_be32 m (to_paddr w)" if "w \<in> V" for w
    using assms(2) v(1) that by (simp add: separate_def stop_voice_apart)
  have hits: "filter (hit (stop_voice L v m)) vs = filter (hit m) vs"
    using Cons.prems(2) v(1) assms(1) by (intro filter_cong refl) (auto simp: visits_stop_def)
  have visit: "visit v m = (if hit m v then (True, stop_voice L v m) else (False, m))" using v(1) assms(1) by (simp add: visits_stop_def)
  have path: "voice_path (stop_voice L v m) (load_be32 m (to_paddr v)) vs list_head"
    using v(5) Cons.prems(2) by (subst voice_path_cong [of vs _ m]) (auto intro: link)
  show ?case
    using Cons.IH [OF v(5) _ n(2)] Cons.IH [OF path _ n(2)] Cons.prems(2) v(1-4)
    by (simp add: n(1) visit link hits stop_all_def)
qed

section \<open>Silencing\<close>

text \<open>The voices on one list of the synthesizer, which ends within the bound of the walk; a list the layout skips has none.\<close>

definition on_list :: "VoiceLayout \<Rightarrow> u32 \<Rightarrow> u32 \<Rightarrow> ram \<Rightarrow> u32 list \<Rightarrow> bool" where
  "on_list L synth_v list_offset m vs \<longleftrightarrow> (if list_offset = kSkipList then vs = []
     else in_rdram_kseg0 (synth_v + list_offset) \<and> length vs \<le> unat (max_voice_count L) \<and>
       voice_path m (load_be32 m (to_paddr (synth_v + list_offset))) vs (synth_v + list_offset))"

text \<open>Two well-formed lists without a common voice, whose motion words are apart from the links, the
  sample pointers and the second head.\<close>

definition voice_lists :: "VoiceLayout \<Rightarrow> u32 \<Rightarrow> ram \<Rightarrow> u32 list \<Rightarrow> u32 list \<Rightarrow> bool" where
  "voice_lists L synth_v m vs ws \<longleftrightarrow> on_list L synth_v (alloc_list_offset L) m vs \<and> on_list L synth_v (lame_list_offset L) m ws \<and>
     distinct (vs @ ws) \<and> separate L (set (vs @ ws)) \<and>
     (\<forall>v \<in> set (vs @ ws). words_apart (em_motion L v) (to_paddr (synth_v + lame_list_offset L)))"

lemma walk_list_stops:
  assumes "visits_stop L V visit hit" and "separate L V"
    and "on_list L synth_v off m vs" "set vs \<subseteq> V"
  shows "walk_list synth_v off (max_voice_count L) visit m = (int (length (filter (hit m) vs)), stop_all L (filter (hit m) vs) m)"
proof (cases "off = kSkipList")
  case True
  then show ?thesis using assms(3) by (simp add: walk_list_def on_list_def stop_all_def)
next
  case False
  let ?head = "synth_v + off"
  have path: "voice_path m (load_be32 m (to_paddr ?head)) vs ?head" "length vs \<le> unat (max_voice_count L)" "in_rdram_kseg0 ?head"
    using assms(3) False by (simp_all add: on_list_def)
  from walk_stops [OF assms(1,2) path(1) assms(4) path(2), of 0] show ?thesis
    by (simp add: walk_list_def False path(3) Let_def)
qed

lemma hit_stop_all:
  assumes "visits_stop L V visit hit" "set us \<subseteq> V" "v \<in> V"
  shows "hit (stop_all L us m) v = hit m v"
  using assms(2,3)
proof (induction us arbitrary: m)
  case (Cons u us)
  then show ?case using assms(1) by (simp add: stop_all_def visits_stop_def)
qed (simp add: stop_all_def)

lemma on_list_stop_all:
  assumes "on_list L synth_v off m ws" "separate L V" "set us \<subseteq> V" "set ws \<subseteq> V"
    and "\<forall>v \<in> V. words_apart (em_motion L v) (to_paddr (synth_v + off))"
  shows "on_list L synth_v off (stop_all L us m) ws"
proof -
  have "load_be32 (stop_all L us m) (to_paddr (synth_v + off)) = load_be32 m (to_paddr (synth_v + off))"
    using assms(3,5) by (intro stop_all_apart) auto
  moreover have "load_be32 (stop_all L us m) (to_paddr w) = load_be32 m (to_paddr w)" if "w \<in> set ws" for w
    using assms(2-4) that by (intro stop_all_apart) (auto simp: separate_def)
  then have "voice_path (stop_all L us m) node ws list_head = voice_path m node ws list_head" for node list_head
    by (rule voice_path_cong)
  ultimately show ?thesis using assms(1) by (simp add: on_list_def)
qed

lemma silence_lists_stops:
  assumes visits: "visits_stop L (set (vs @ ws)) visit hit"
    and lists: "voice_lists L synth_v m vs ws"
  shows "silence_lists L synth_v visit m =
    (int (length (filter (hit m) (vs @ ws))), stop_all L (filter (hit m) (vs @ ws)) m)"
proof -
  let ?m = "stop_all L (filter (hit m) vs) m"
  have sep: "separate L (set (vs @ ws))" and first: "on_list L synth_v (alloc_list_offset L) m vs"
    and second: "on_list L synth_v (lame_list_offset L) m ws"
    and heads: "\<forall>v \<in> set (vs @ ws). words_apart (em_motion L v) (to_paddr (synth_v + lame_list_offset L))"
    using lists by (simp_all add: voice_lists_def)
  have "on_list L synth_v (lame_list_offset L) ?m ws" by (rule on_list_stop_all [OF second sep _ _ heads]) auto
  then have "walk_list synth_v (lame_list_offset L) (max_voice_count L) visit ?m =
      (int (length (filter (hit ?m) ws)), stop_all L (filter (hit ?m) ws) ?m)"
    by (rule walk_list_stops [OF visits sep]) auto
  moreover have "filter (hit ?m) ws = filter (hit m) ws" by (rule filter_cong [OF refl hit_stop_all [OF visits]]) auto
  ultimately show ?thesis using walk_list_stops [OF visits sep first]
    by (simp add: silence_lists_def stop_all_def)
qed

lemma plays_stop_voice: "separate L V \<Longrightarrow> u \<in> V \<Longrightarrow> v \<in> V \<Longrightarrow> plays_from L a b (stop_voice L u m) v = plays_from L a b m v"
  by (simp add: plays_from_def stop_voice_apart separate_def)

text \<open>Silencing a range counts and stops the voices that play from it, and those only: another voice keeps its motion.\<close>

theorem range_silenced:
  fixes L :: VoiceLayout
  defines "hits \<equiv> \<lambda>m start_vaddr end_vaddr vs. filter (plays_from L start_vaddr end_vaddr m) vs"
  assumes "start_vaddr < end_vaddr" "resolve_synth (Some L) m = synth_v" "synth_v \<noteq> 0" and lists: "voice_lists L synth_v m vs ws"
  shows "\<exists>m'. silence_voices_in_range (Some L) start_vaddr end_vaddr m = (int (length (hits m start_vaddr end_vaddr (vs @ ws))), m') \<and>
    (\<forall>v \<in> set (vs @ ws). load_be32 m' (em_motion L v) =
       (if plays_from L start_vaddr end_vaddr m v then voice_em_motion_stopped_value L else load_be32 m (em_motion L v)))"
proof -
  let ?hits = "filter (plays_from L start_vaddr end_vaddr m) (vs @ ws)"
  have sep: "separate L (set (vs @ ws))" and dist: "distinct ?hits" using lists by (auto simp: voice_lists_def)
  have "silence_lists L synth_v (visit_in_range L start_vaddr end_vaddr) m = (int (length ?hits), stop_all L ?hits m)"
    by (rule silence_lists_stops [OF _ lists]) (simp add: visits_stop_def visit_in_range_def plays_stop_voice [OF sep] del: set_append)
  moreover have "load_be32 (stop_all L ?hits m) (em_motion L v) = voice_em_motion_stopped_value L"
    if "v \<in> set (vs @ ws)" "plays_from L start_vaddr end_vaddr m v" for v
    by (rule stop_all_stops [OF dist _ sep]) (use that in auto)
  moreover have "load_be32 (stop_all L ?hits m) (em_motion L v) = load_be32 m (em_motion L v)"
    if "v \<in> set (vs @ ws)" "\<not> plays_from L start_vaddr end_vaddr m v" for v
  proof (rule stop_all_apart, rule ballI)
    fix u
    assume "u \<in> set ?hits"
    then have "u \<in> set (vs @ ws)" "u \<noteq> v" using that(2) by auto
    then show "words_apart (em_motion L u) (em_motion L v)" using sep that(1) unfolding separate_def by blast
  qed
  moreover have "\<not> end_vaddr \<le> start_vaddr" using assms(2) by simp
  ultimately show ?thesis using assms(3,4) by (simp add: silence_voices_in_range_def hits_def del: filter_append)
qed

theorem all_silenced:
  assumes "resolve_synth (Some L) m = synth_v" "synth_v \<noteq> 0" and lists: "voice_lists L synth_v m vs ws"
  shows "\<exists>m'. silence_all_voices (Some L) m = (int (length (vs @ ws)), m') \<and>
    (\<forall>v \<in> set (vs @ ws). load_be32 m' (em_motion L v) = voice_em_motion_stopped_value L)"
proof -
  have sep: "separate L (set (vs @ ws))" and dist: "distinct (vs @ ws)" using lists by (auto simp: voice_lists_def)
  have "silence_lists L synth_v (\<lambda>voice_v m. (True, stop_voice L voice_v m)) m =
      (int (length (filter (\<lambda>_. True) (vs @ ws))), stop_all L (filter (\<lambda>_. True) (vs @ ws)) m)"
    by (rule silence_lists_stops [OF _ lists, where hit = "\<lambda>_ _. True"]) (simp add: visits_stop_def)
  moreover have "load_be32 (stop_all L (vs @ ws) m) (em_motion L v) = voice_em_motion_stopped_value L" if "v \<in> set (vs @ ws)" for v
    by (rule stop_all_stops [OF dist that sep]) simp
  ultimately show ?thesis using assms(1,2) by (simp add: silence_all_voices_def del: filter_append)
qed

end
