(* ===== verification/Spec2Isabelle.thy ===== *)
theory Spec2Isabelle
  imports RspProps KernelProps MipsClaims GbClaims SaveClaims JoybusProps OverlayClaims FragmentClaims
    TimerProps Trace SpTaskProps RcpProps CosimProps ModClaims ModHooks GameRoms LongLong TailCalls ContInput AudioUaf
begin

text \<open>
  \<^bold>\<open>N64ModernRuntime.\<close> The runtime executes statically recompiled Nintendo 64 games on a host. It has two
  libraries: \<^verbatim>\<open>ultramodern\<close> re-implements the operating system libultra (threads, message queues,
  events), \<^verbatim>\<open>librecomp\<close> supplies the hardware the games see (the signal processor RSP, the
  cartridge and save devices, the controller accessories) and the fallback for code that was not
  recompiled. Guest threads run one at a time on host threads; host threads for interrupts, video,
  audio and saving talk to them through messages.

  \<^bold>\<open>How the parts are modelled.\<close> Each theory names its source files; definitions keep the names of the
  code. Structures are records, enumerations datatypes, fixed-width integers words of that width, and
  every early return, assertion, exception or undefined access is a value of a result type. What lies
  outside the repository is a parameter: the memory macros of the recompiler's \<^verbatim>\<open>recomp.h\<close>, the
  floating-point unit of the host, the concurrent queue library (\<^verbatim>\<open>enq\<close> with the law
  \<^verbatim>\<open>enqueue_law\<close>), the file system and the clock.

  \<^item> \<open>Prelude\<close>, \<open>ByteStore\<close>, \<open>OrderedSet\<close>, \<open>RingLog\<close>: word types and 16-bit arithmetic, and three interfaces as
    locales: \<^verbatim>\<open>byte_store\<close>, byte-addressed storage and what a loop of writes leaves behind (vector
    registers, DMEM, guest memory); \<^verbatim>\<open>strict_weak_order\<close>, \<^verbatim>\<open>strict_linear_order\<close>, containers sorted by a
    comparator (timers, scheduled events); \<^verbatim>\<open>ring_log\<close>, rings of the last events (task log, call trace).
  \<^item> \<open>Simd\<close>, \<open>RspVector\<close>, \<open>RspVectorMul\<close> (\<^verbatim>\<open>rsp_vu.hpp\<close>, \<^verbatim>\<open>rsp_vu_impl.hpp\<close>, \<^verbatim>\<open>sse2neon.h\<close>): the vector unit of
    the RSP in both builds, one definition per instruction for the scalar and the SIMD code.
    \<open>RspVectorEquiv\<close>, \<open>RspVectorMulEquiv\<close>: both builds compute the same registers, accumulators and
    flags; multiplications are exact on the 48-bit accumulator.
  \<^item> \<open>RspMemory\<close>, \<open>RspMemoryProps\<close>, \<open>RspDma\<close> (\<^verbatim>\<open>rsp.hpp\<close>, \<^verbatim>\<open>rsp.cpp\<close>): loads and stores of scalars and
    vectors in DMEM, the DMA engine with rows, skips and wrap-around. \<open>RspProgram\<close>, \<open>RspProps\<close>: programs of
    vector instructions; C1, C3, C4 and C12.
  \<^item> \<open>GuestOs\<close>, \<open>ThreadQueue\<close> (\<^verbatim>\<open>threadqueue.cpp\<close>): kernel state in guest memory and the intrusive
    priority queues, with their guards against corrupted links. The scans carry the code's own guard
    of 4096 links as fuel.
  \<^item> \<open>Scheduler\<close> (\<^verbatim>\<open>scheduling.cpp\<close>, \<^verbatim>\<open>threads.cpp\<close>, \<^verbatim>\<open>scheduler_tick.cpp\<close>): thread calls and the hand-over of the
    processor. A call that blocks ends its step: the continuation is stored with the thread (\<^verbatim>\<open>wait\<close>)
    and taken up when the thread is resumed. \<open>MesgQueue\<close> (\<^verbatim>\<open>mesgqueue.cpp\<close>): message queues, jam, blocking
    calls, and the external queue with its reliability classes.
  \<^item> \<open>KernelInv\<close>, \<open>MesgProps\<close>, \<open>KernelSteps\<close>: the kernel invariant, its preservation by every call, and
    the transition relation of guest calls, host threads and preemption. \<open>QueueSpecs\<close>: the contracts
    \<^verbatim>\<open>bounded_fifo\<close> and \<^verbatim>\<open>prio_queues\<close> as locales with their client lemmas; \<open>KernelSpecs\<close>: their
    interpretations on the code's definitions. \<open>KernelProps\<close>: C14 to C18, C21, C22, C24 to C26.
  \<^item> \<open>Timer\<close>, \<open>TimerProps\<close> (\<^verbatim>\<open>timer.cpp\<close>): ticks and host time, the clock calls, and the timer thread as a
    machine with one transition per wait or command, over the set of active timers; C5 and C30. The host clock is
    a parameter of each transition.
  \<^item> \<open>SpTask\<close>, \<open>SpTaskProps\<close> (\<^verbatim>\<open>sp.cpp\<close>, \<^verbatim>\<open>rsp.cpp\<close>, \<^verbatim>\<open>dp.cpp\<close>): the checks on a task, its log, the loading of DMEM, the
    status registers of RSP and RDP; C36. \<open>RcpEvents\<close>, \<open>RcpProps\<close> (\<^verbatim>\<open>events.cpp\<close>): the double-buffered video state, the
    VI, graphics and task threads, and their messages into \<open>MesgQueue\<close>; C8 and C29. \<open>CosimEvents\<close>, \<open>CosimProps\<close>: the
    co-simulation build of both files, with time as a counter and completions as scheduled events; C20 and C28.
    \<open>Trace\<close> (\<^verbatim>\<open>ultra_trace.cpp\<close>): the ring of recent calls and the boot snapshot.
  \<^item> \<open>MipsInterp\<close>, \<open>MipsProps\<close>, \<open>MipsClaims\<close> (\<^verbatim>\<open>mips_interp.cpp\<close>): the R4300i interpreter, every opcode; a
    machine with program counter and next program counter as the reference for delay slots; C27. The
    interpreter may run forever, so its loop has fuel; more fuel never changes a result
    (\<^verbatim>\<open>run_mono\<close>), and the examples return within 10 turns.
  \<^item> \<open>OverlayState\<close>, \<open>OverlayLoad\<close>, \<open>OverlayFragment\<close>, \<open>OverlayLookup\<close> (\<^verbatim>\<open>overlays.cpp\<close>, \<^verbatim>\<open>sections.h\<close>): the tables of
    recompiled sections, what a DMA transfer loads and evicts, fragments with their jump slots and trampolines,
    and the lookups from guest addresses to functions. \<open>OverlayInv\<close>, \<open>OverlaySteps\<close>: the invariant of section
    loading under a placement discipline; \<open>OverlaySpecs\<close>: the contract of a loader as a locale and its
    interpretation; \<open>OverlayProps\<close>, \<open>OverlayClaims\<close>: C6, C10, C11 and C13. \<open>FragmentTier\<close>, \<open>FragmentClaims\<close>: dispatch through
    recompiled code, code compiled at run time and the interpreter, the run that compares the two, and promotion; C19, C23
    and C31. Compiled functions and the interpreter are parameters there.
  \<^item> \<open>GbCart\<close>, \<open>GbProps\<close>, \<open>GbClaims\<close> (\<^verbatim>\<open>gbcart.cpp\<close>): Game Boy cartridges with their bank controllers and
    battery RAM behind the Transfer Pak; C32 to C34. \<open>Joybus\<close>, \<open>JoybusProps\<close> (\<^verbatim>\<open>si_joybus.cpp\<close>, \<^verbatim>\<open>gbpak.cpp\<close>):
    the parser of PIF command blocks on top of it, total by a measure on its position, and the data
    checksum; C9.
  \<^item> \<open>SaveStore\<close>, \<open>SaveThread\<close>, \<open>SaveClaims\<close> (\<^verbatim>\<open>pi.cpp\<close>, \<^verbatim>\<open>flash.cpp\<close>, \<^verbatim>\<open>eep.cpp\<close>, \<^verbatim>\<open>files.cpp\<close>): save buffer,
    FlashRAM commands, PI transfers, EEPROM, the save file with its backup and the saving thread
    interleaved with the game; C38 to C40.
  \<^item> \<open>ModManifest\<close>, \<open>ModContext\<close>, \<open>ModLoad\<close>, \<open>ModQueries\<close> (\<^verbatim>\<open>mod_manifest.cpp\<close>, \<^verbatim>\<open>mods.cpp\<close>, \<^verbatim>\<open>mods.hpp\<close>, \<^verbatim>\<open>Version\<close> in \<^verbatim>\<open>game.hpp\<close> and \<^verbatim>\<open>recomp.cpp\<close>): versions
    and manifests over a datatype of JSON values, scanning, order and selection of mods, the walk over their dependencies (total by a
    measure on the ids not yet marked), the checks before loading, configuration values and the thread that saves them. The JSON
    parser, archives, the file system, the order of hash sets and the loading of code are parameters. \<open>ModProps\<close>, \<open>ModOrder\<close>,
    \<open>ModLoadProps\<close>, \<open>ModConfigProps\<close>, \<open>ModSaver\<close>, \<open>ModVersions\<close>: their invariants, the moves in the order, and printing and reading of versions;
    \<open>ModClaims\<close>: C2, C7, C35 and C37.

  \<^bold>\<open>What the theorems show.\<close> Equivalence of the two builds of the vector unit and exactness of its
  arithmetic (C1, C3, C4); round trips of stores and loads, joybus blocks, battery RAM, save files and
  FlashRAM (C9, C33, C34, C38); what DMA transfers copy and load (C10, C12); invariants of the mods enabled automatically, the
  function map, the RCP tasks, the kernel and the Transfer Pak (C2, C6, C8, C14, C32); relocation bases, fragment extents
  and tasks within their bounds (C11, C13, C36); mods loaded with what they need, and their configuration saved (C7, C37); refinement of abstract queues, of the machine with delay
  slots and of interpretation by compiled fragments (C18, C19, C21, C23, C27, C31); order, wake-up and
  progress of threads, timers, interrupts and completions (C5, C16, C17, C20, C22, C28, C29, C39); what can and
  cannot go wrong in the kernel and in the thread that saves configurations (C15, C24, C35). Several theorems state behaviour the code does not intend: C25 (a reliable event
  lost), C26 (a thread lost by a change of priority), C30 (the set of timers corrupted) and
  C40 (a save lost by a change of the save file); so do \<^verbatim>\<open>adjacent_unload_exits\<close> and \<^verbatim>\<open>stale_trampoline_overrides\<close> in \<open>OverlayClaims\<close>,
  \<^verbatim>\<open>move_down_past_hidden\<close> and \<^verbatim>\<open>foreign_mod_duplicated\<close> in \<open>ModOrder\<close>, \<^verbatim>\<open>rescan_empties_config\<close> and \<^verbatim>\<open>exit_discards_changes\<close> in \<open>ModSaver\<close>,
  \<^verbatim>\<open>zero_retrace_count_starves\<close> in \<open>RcpProps\<close>, \<^verbatim>\<open>uncached_task_read_elsewhere\<close> in \<open>SpTaskProps\<close>, \<^verbatim>\<open>boot_snapshot_wraps\<close> in \<open>Trace\<close>,
  \<^verbatim>\<open>high_ram_unreachable\<close> in \<open>GbClaims\<close>, \<^verbatim>\<open>jalr_other_link_runs_twice\<close> in \<open>MipsClaims\<close> and \<^verbatim>\<open>malformed_frame_reads_outside\<close> in \<open>JoybusProps\<close>.

  \<^bold>\<open>Not modelled.\<close> The code of mods: symbol files, native libraries, recompilation, hooks and events, which go through external packages
  and host function pointers, and the parts of overlays that patch functions for them; process start and ROM selection; the renderer, the audio device and the input
  callbacks of the host; the guest heap, a submodule; the EUC-JP table; the patch of one game's audio heap; files and reports written
  for debugging, which change no guest state.
\<close>

end
